(* ===== verification/Prelude.thy ===== *)
theory Prelude
  imports
    Complex_Main
    "HOL-Library.AList"
    "HOL-Library.Char_ord"
    "HOL-Library.List_Lexorder"
begin

text \<open>
  Shared vocabulary of the development: Python values and dictionaries, the exceptions the
  modelled code raises, stable sorting as Python's list.sort does it, and the generic
  lemmas on association lists and lists that the component theories use.

  Time is the number of microseconds since the epoch (the resolution of datetime), always
  UTC, as the code only uses datetime.now(UTC).  A dictionary is an association list in
  insertion order: AList.update replaces in place or appends at the end and AList.delete
  removes, exactly as item assignment and del/pop do on a dict.

  Values that went through json.dumps and json.loads are represented by what they parse
  to.  PTime stands for an ISO-8601 string written by isoformat, which fromisoformat maps
  back to the instant; a PStr is any other string.
\<close>

section \<open>Collections of simplification rules\<close>

named_theorems alist_simps \<open>facts on lookups in association lists\<close>
named_theorems codec_simps \<open>round trips of serialised values\<close>
named_theorems store_simps \<open>reading a store after one of its operations\<close>

section \<open>Python values\<close>

type_synonym time = int

abbreviation seconds :: "int \<Rightarrow> int" where
  "seconds n \<equiv> n * 1000000"

datatype pyval =
    PNone
  | PBool bool
  | PInt int
  | PReal rat
  | PStr string
  | PTime time
  | PList "pyval list"
  | PDict "(string \<times> pyval) list"

type_synonym dict = "(string \<times> pyval) list"

text \<open>A JSON document on disk: text json.loads rejects, or an object.\<close>

datatype doc = NotJson | Obj dict

fun truthy :: "pyval \<Rightarrow> bool" where
  "truthy PNone = False"
| "truthy (PBool b) = b"
| "truthy (PInt i) = (i \<noteq> 0)"
| "truthy (PReal q) = (q \<noteq> 0)"
| "truthy (PStr s) = (s \<noteq> [])"
| "truthy (PTime t) = True"
| "truthy (PList xs) = (xs \<noteq> [])"
| "truthy (PDict d) = (d \<noteq> [])"

text \<open>d.get(k), which is None for a missing key, and d.get(k, v).\<close>

definition dget :: "dict \<Rightarrow> string \<Rightarrow> pyval" where
  "dget d k = (case map_of d k of None \<Rightarrow> PNone | Some v \<Rightarrow> v)"

definition dget_or :: "dict \<Rightarrow> string \<Rightarrow> pyval \<Rightarrow> pyval" where
  "dget_or d k v = (case map_of d k of None \<Rightarrow> v | Some w \<Rightarrow> w)"

fun as_str :: "pyval \<Rightarrow> string option" where
  "as_str (PStr s) = Some s"
| "as_str _ = None"

fun as_int :: "pyval \<Rightarrow> int option" where
  "as_int (PInt i) = Some i"
| "as_int _ = None"

fun as_time :: "pyval \<Rightarrow> time option" where
  "as_time (PTime t) = Some t"
| "as_time _ = None"

fun as_dict :: "pyval \<Rightarrow> dict option" where
  "as_dict (PDict d) = Some d"
| "as_dict _ = None"

fun of_opt :: "('a \<Rightarrow> pyval) \<Rightarrow> 'a option \<Rightarrow> pyval" where
  "of_opt f None = PNone"
| "of_opt f (Some x) = f x"

text \<open>A field that may be null: None of the outer option is a value of the wrong type.\<close>

definition opt_field :: "(pyval \<Rightarrow> 'a option) \<Rightarrow> pyval \<Rightarrow> 'a option option" where
  "opt_field f v = (case v of PNone \<Rightarrow> Some None | _ \<Rightarrow> map_option Some (f v))"

lemma opt_field_of_opt [codec_simps]:
  assumes "\<And>x. f (g x) = Some x" and "\<And>x. g x \<noteq> PNone"
  shows "opt_field f (of_opt g v) = Some v"
proof (cases v)
  case None
  then show ?thesis by (simp add: opt_field_def)
next
  case (Some x)
  with assms(1)[of x] assms(2)[of x] show ?thesis
    by (auto simp: opt_field_def split: pyval.split)
qed

section \<open>Exceptions\<close>

datatype exn =
    ValueError string
  | KeyError string
  | IdempotencyKeyExistsError string
  | LockAcquisitionError string
  | SessionNotFoundError string
  | UnauthorizedUserError int
  | ThrottledError int nat int
  | OSError
  | OtherError string

section \<open>Stable sorting\<close>

text \<open>
  list.sort and sorted are stable; with reverse=True equal elements still keep their order.
  sort_key of the library is the stable insertion sort.
\<close>

definition py_sorted :: "('a \<Rightarrow> 'k::linorder) \<Rightarrow> 'a list \<Rightarrow> 'a list" where
  "py_sorted key xs = sort_key key xs"

definition py_sorted_rev :: "('a \<Rightarrow> 'k::linorder) \<Rightarrow> 'a list \<Rightarrow> 'a list" where
  "py_sorted_rev key xs = rev (sort_key key (rev xs))"

lemma set_py_sorted [simp]: "set (py_sorted key xs) = set xs"
  by (simp add: py_sorted_def)

lemma set_py_sorted_rev [simp]: "set (py_sorted_rev key xs) = set xs"
  by (simp add: py_sorted_rev_def)

lemma length_py_sorted [simp]: "length (py_sorted key xs) = length xs"
  by (simp add: py_sorted_def)

lemma length_py_sorted_rev [simp]: "length (py_sorted_rev key xs) = length xs"
  by (simp add: py_sorted_rev_def)

lemma py_sorted_Nil [simp]: "py_sorted key [] = []"
  by (simp add: py_sorted_def)

lemma sorted_py_sorted [simp]: "sorted (map key (py_sorted key xs))"
  by (simp add: py_sorted_def)

lemma sorted_py_sorted_rev: "sorted_wrt (\<lambda>a b. key a \<ge> key b) (py_sorted_rev key xs)"
proof -
  have "sorted_wrt (\<lambda>a b. key a \<le> key b) (sort_key key (rev xs))"
    using sorted_sort_key[of key "rev xs"] by (simp add: sorted_map)
  then show ?thesis
    by (simp add: py_sorted_rev_def sorted_wrt_rev)
qed

lemma py_sorted_id: "sorted (map key xs) \<Longrightarrow> py_sorted key xs = xs"
  by (simp add: py_sorted_def sort_key_id_if_sorted)

lemma py_sorted_idem [simp]: "py_sorted key (py_sorted key xs) = py_sorted key xs"
  by (rule py_sorted_id) simp

lemma py_sorted_eq_Nil [simp]: "py_sorted key xs = [] \<longleftrightarrow> xs = []"
  by (metis length_0_conv length_py_sorted)

lemma py_sorted_append_id:
  assumes "sorted (map key xs)" and "sorted (map key ys)"
    and "\<And>x y. x \<in> set xs \<Longrightarrow> y \<in> set ys \<Longrightarrow> key x \<le> key y"
  shows "py_sorted key (xs @ ys) = xs @ ys"
  using assms by (intro py_sorted_id) (auto simp: sorted_append)

lemma mset_py_sorted: "distinct (map f xs) \<Longrightarrow> distinct (map f (py_sorted key xs))"
  by (metis distinct_map distinct_sort inj_on_def py_sorted_def set_sort)

text \<open>The greatest key of a non-empty sorted list is its last.\<close>

lemma last_py_sorted_max:
  assumes "x \<in> set xs"
  shows "key x \<le> key (last (py_sorted key xs))"
proof -
  let ?ys = "py_sorted key xs"
  have "?ys \<noteq> []" using assms by auto
  then have "?ys = butlast ?ys @ [last ?ys]" by simp
  then have "sorted (map key (butlast ?ys @ [last ?ys]))"
    using sorted_py_sorted[of key xs] by simp
  moreover have "x \<in> set (butlast ?ys @ [last ?ys])"
    using assms \<open>?ys \<noteq> []\<close> by simp
  ultimately show ?thesis by (auto simp: sorted_append)
qed

section \<open>Slices\<close>

text \<open>
  xs[:n] and xs[-n:] for an integer n, with Python's treatment of negative numbers;
  xs[-0:] is the whole list.
\<close>

definition slice_to :: "'a list \<Rightarrow> int \<Rightarrow> 'a list" where
  "slice_to xs n =
     (if n \<ge> 0 then take (nat n) xs else take (nat (int (length xs) + n)) xs)"

definition slice_from :: "'a list \<Rightarrow> int \<Rightarrow> 'a list" where
  "slice_from xs n =
     (if n \<ge> 0 then drop (nat n) xs else drop (nat (int (length xs) + n)) xs)"

lemma length_slice_to_le: "length (slice_to xs n) \<le> length xs"
  by (auto simp: slice_to_def)

lemma length_slice_to: "n \<ge> 0 \<Longrightarrow> int (length (slice_to xs n)) \<le> n"
  by (simp add: slice_to_def)

lemma set_slice_to: "set (slice_to xs n) \<subseteq> set xs"
  by (auto simp: slice_to_def dest: in_set_takeD)

lemma set_slice_from: "set (slice_from xs n) \<subseteq> set xs"
  by (auto simp: slice_from_def dest: in_set_dropD)

lemma sorted_wrt_slice_to: "sorted_wrt R xs \<Longrightarrow> sorted_wrt R (slice_to xs n)"
  by (simp add: slice_to_def sorted_wrt_take)

section \<open>Association lists\<close>

declare update_conv' [alist_simps] delete_conv' [alist_simps]

lemma map_of_update_same [simp]: "map_of (AList.update k v al) k = Some v"
  by (simp add: update_conv')

lemma map_of_update_other [simp]:
  "k \<noteq> k' \<Longrightarrow> map_of (AList.update k v al) k' = map_of al k'"
  by (simp add: update_conv')

lemma map_of_delete_same [simp]: "map_of (AList.delete k al) k = None"
  by (simp add: delete_conv')

lemma map_of_delete_other [simp]:
  "k \<noteq> k' \<Longrightarrow> map_of (AList.delete k al) k' = map_of al k'"
  by (simp add: delete_conv')

lemma set_update: "distinct (map fst al) \<Longrightarrow> set (AList.update k v al) = insert (k, v) {f \<in> set al. fst f \<noteq> k}"
  by (induction al) force+

lemma set_delete: "set (AList.delete k al) = {f \<in> set al. fst f \<noteq> k}"
  by (induction al) auto

lemma update_new: "k \<notin> fst ` set al \<Longrightarrow> AList.update k v al = al @ [(k, v)]"
  by (induction al) (auto simp: prod_eq_iff)

lemma map_of_in_values: "map_of al k = Some v \<Longrightarrow> v \<in> snd ` set al"
  by (metis image_eqI map_of_SomeD snd_conv)

lemma map_of_filter_values:
  assumes "distinct (map fst al)"
  shows "map_of (filter (\<lambda>kv. P (snd kv)) al) k =
    (case map_of al k of None \<Rightarrow> None | Some v \<Rightarrow> if P v then Some v else None)"
  using assms
proof (induction al)
  case (Cons kv al)
  have "fst kv \<notin> dom (map_of al)" using Cons.prems by (simp add: dom_map_of_conv_image_fst)
  then have "map_of al (fst kv) = None" by auto
  then show ?case using Cons by (cases kv) (auto split: option.splits)
qed simp

lemma dget_Cons [simp]:
  "dget ((k, v) # d) k' = (if k = k' then v else dget d k')"
  by (simp add: dget_def)

lemma dget_Nil [simp]: "dget [] k = PNone"
  by (simp add: dget_def)

lemma dget_or_Cons [simp]:
  "dget_or ((k, v) # d) k' w = (if k = k' then v else dget_or d k' w)"
  by (simp add: dget_or_def)

lemma dget_or_Nil [simp]: "dget_or [] k w = w"
  by (simp add: dget_or_def)

section \<open>Options and lists\<close>

lemma map_filter_map_Some:
  assumes "\<And>x. f (g x) = Some x"
  shows "List.map_filter f (map g xs) = xs"
  by (induction xs) (simp_all add: List.map_filter_def assms)

lemma map_filter_append [simp]:
  "List.map_filter f (xs @ ys) = List.map_filter f xs @ List.map_filter f ys"
  by (simp add: List.map_filter_def)

lemma map_filter_Nil: "List.map_filter f [] = []"
  by (simp add: List.map_filter_def)

lemma map_filter_Cons:
  "List.map_filter f (x # xs) =
     (case f x of None \<Rightarrow> List.map_filter f xs | Some y \<Rightarrow> y # List.map_filter f xs)"
  by (simp add: List.map_filter_def split: option.split)

lemma sum_list_filter_le:
  fixes f :: "'a \<Rightarrow> int"
  assumes "\<And>x. x \<in> set xs \<Longrightarrow> f x \<ge> 0"
  shows "sum_list (map f (filter P xs)) \<le> sum_list (map f xs)"
  using assms by (induction xs) (auto simp: add_increasing)

end
