(* ===== verification/Py_Text.thy ===== *)
theory Py_Text
  imports Prelude
begin

text \<open>
  The string operations of Python that the modelled code calls, and decimal and
  hexadecimal numerals.  A character is a code point in U+0000 .. U+00FF, so the
  classification of characters (isalnum, isspace, lower) is Python's on that range and
  code points beyond it are outside the model.  Bytes are the same type.
\<close>

abbreviation newline :: char where "newline \<equiv> CHR 0x0A"
abbreviation carriage :: char where "carriage \<equiv> CHR 0x0D"
abbreviation colon :: char where "colon \<equiv> CHR '':''"

section \<open>Character classes\<close>

definition code :: "char \<Rightarrow> nat" where
  "code c = of_char c"

definition py_isspace :: "char \<Rightarrow> bool" where
  "py_isspace c = (let n = code c in
     (9 \<le> n \<and> n \<le> 13) \<or> (28 \<le> n \<and> n \<le> 32) \<or> n = 133 \<or> n = 160)"

definition ascii_digit :: "char \<Rightarrow> bool" where
  "ascii_digit c = (48 \<le> code c \<and> code c \<le> 57)"

definition ascii_letter :: "char \<Rightarrow> bool" where
  "ascii_letter c = ((65 \<le> code c \<and> code c \<le> 90) \<or> (97 \<le> code c \<and> code c \<le> 122))"

text \<open>str.isalnum on Latin-1: letters, digits, superscripts and fractions.\<close>

definition py_isalnum :: "char \<Rightarrow> bool" where
  "py_isalnum c = (let n = code c in
     ascii_digit c \<or> ascii_letter c \<or> n \<in> {170, 178, 179, 181, 185, 186, 188, 189, 190}
     \<or> (192 \<le> n \<and> n \<le> 255 \<and> n \<noteq> 215 \<and> n \<noteq> 247))"

definition lower_char :: "char \<Rightarrow> char" where
  "lower_char c = (let n = code c in
     if (65 \<le> n \<and> n \<le> 90) \<or> (192 \<le> n \<and> n \<le> 222 \<and> n \<noteq> 215) then char_of (n + 32) else c)"

definition py_lower :: "string \<Rightarrow> string" where
  "py_lower s = map lower_char s"

definition py_strip :: "string \<Rightarrow> string" where
  "py_strip s = rev (dropWhile py_isspace (rev (dropWhile py_isspace s)))"

definition rstrip_newlines :: "string \<Rightarrow> string" where
  "rstrip_newlines s = rev (dropWhile (\<lambda>c. c = newline) (rev s))"

lemma code_inj: "code a = code b \<longleftrightarrow> a = b"
  by (simp add: code_def)

lemma code_char_of [simp]: "n < 256 \<Longrightarrow> code (char_of n) = n"
  by (simp add: code_def)

lemma length_py_lower [simp]: "length (py_lower s) = length s"
  by (simp add: py_lower_def)

lemma lower_char_idem [simp]: "lower_char (lower_char c) = lower_char c"
  by (simp add: lower_char_def Let_def)

lemma py_lower_idem [simp]: "py_lower (py_lower s) = py_lower s"
  by (simp add: py_lower_def)

lemma dropWhile_idem: "dropWhile P (dropWhile P xs) = dropWhile P xs"
  by (induction xs) simp_all

lemma dropWhile_rev_dropWhile:
  "dropWhile P (rev (dropWhile P (rev (dropWhile P xs)))) = rev (dropWhile P (rev (dropWhile P xs)))"
proof -
  let ?ys = "dropWhile P xs"
  let ?zs = "rev (dropWhile P (rev ?ys))"
  have hd: "?zs \<noteq> [] \<Longrightarrow> hd ?zs = hd ?ys"
    by (metis hd_append2 rev_append rev_rev_ident takeWhile_dropWhile_id)
  show ?thesis
  proof (cases "?zs = []")
    case False
    then have "?ys \<noteq> []" by (metis dropWhile.simps(1) rev.simps(1))
    then have "\<not> P (hd ?ys)" by (rule hd_dropWhile)
    with False hd show ?thesis by (metis dropWhile_eq_self_iff)
  next
    case True
    then show ?thesis by (metis dropWhile.simps(1))
  qed
qed

lemma py_strip_idem [simp]: "py_strip (py_strip s) = py_strip s"
  by (simp add: py_strip_def dropWhile_rev_dropWhile dropWhile_idem)

lemma py_strip_Nil [simp]: "py_strip [] = []"
  by (simp add: py_strip_def)

section \<open>Splitting\<close>

fun split_on :: "char \<Rightarrow> string \<Rightarrow> string list" where
  "split_on c [] = [[]]"
| "split_on c (x # xs) =
     (if x = c then [] # split_on c xs
      else (case split_on c xs of [] \<Rightarrow> [[x]] | y # ys \<Rightarrow> (x # y) # ys))"

text \<open>
  s.partition(c) and s.rpartition(c) without the separator; when c does not occur,
  partition gives (s, '''') and rpartition gives ('''', s).
\<close>

definition partition_on :: "char \<Rightarrow> string \<Rightarrow> string \<times> string" where
  "partition_on c s = (takeWhile (\<lambda>x. x \<noteq> c) s, drop 1 (dropWhile (\<lambda>x. x \<noteq> c) s))"

definition rpartition_on :: "char \<Rightarrow> string \<Rightarrow> string \<times> string" where
  "rpartition_on c s =
     (rev (drop 1 (dropWhile (\<lambda>x. x \<noteq> c) (rev s))), rev (takeWhile (\<lambda>x. x \<noteq> c) (rev s)))"

lemma split_on_not_Nil [simp]: "split_on c s \<noteq> []"
  by (induction s) (auto split: list.splits)

lemma split_on_no_sep [simp]: "c \<notin> set s \<Longrightarrow> split_on c s = [s]"
  by (induction s) auto

lemma split_on_append:
  assumes "c \<notin> set s"
  shows "split_on c (s @ c # t) = s # split_on c t"
  using assms by (induction s) auto

lemma takeWhile_neq_append [simp]:
  "c \<notin> set h \<Longrightarrow> takeWhile (\<lambda>x. x \<noteq> c) (h @ c # t) = h"
  by (induction h) auto

lemma dropWhile_neq_append [simp]:
  "c \<notin> set h \<Longrightarrow> dropWhile (\<lambda>x. x \<noteq> c) (h @ c # t) = c # t"
  by (induction h) auto

lemma partition_on_append: "c \<notin> set h \<Longrightarrow> partition_on c (h @ c # t) = (h, t)"
  by (simp add: partition_on_def)

lemma rpartition_on_append: "c \<notin> set t \<Longrightarrow> rpartition_on c (h @ c # t) = (h, t)"
  using takeWhile_neq_append[of c "rev t" "rev h"] dropWhile_neq_append[of c "rev t" "rev h"]
  by (simp add: rpartition_on_def)

lemma partition_on_eqD:
  assumes "partition_on c s = (a, b)" and "b \<noteq> []"
  shows "s = a @ c # b" and "c \<notin> set a"
proof -
  have "dropWhile (\<lambda>x. x \<noteq> c) s \<noteq> []"
    using assms unfolding partition_on_def by (metis Pair_inject drop_Nil)
  then have "hd (dropWhile (\<lambda>x. x \<noteq> c) s) = c" using hd_dropWhile by blast
  with \<open>dropWhile (\<lambda>x. x \<noteq> c) s \<noteq> []\<close> have d: "dropWhile (\<lambda>x. x \<noteq> c) s = c # b"
    using assms(1) by (cases "dropWhile (\<lambda>x. x \<noteq> c) s") (auto simp: partition_on_def)
  have "s = takeWhile (\<lambda>x. x \<noteq> c) s @ dropWhile (\<lambda>x. x \<noteq> c) s" by simp
  with d show "s = a @ c # b" using assms(1) by (auto simp: partition_on_def)
  show "c \<notin> set a" using assms(1) set_takeWhileD by (fastforce simp: partition_on_def)
qed

lemma rpartition_on_eqD:
  assumes "rpartition_on c s = (a, b)" and "a \<noteq> []"
  shows "s = a @ c # b" and "c \<notin> set b"
proof -
  have p: "partition_on c (rev s) = (rev b, rev a)"
    using assms(1) by (auto simp: rpartition_on_def partition_on_def)
  from partition_on_eqD[OF p] assms(2) have "rev s = rev b @ c # rev a" and "c \<notin> set b" by auto
  then have "s = rev (rev b @ c # rev a)" by (metis rev_rev_ident)
  then show "s = a @ c # b" by simp
  show "c \<notin> set b" by fact
qed

section \<open>Identifiers made safe for file names\<close>

text \<open>
  The expression ''c if c.isalnum() or c in -_ else _'' of the file stores, and the
  pattern [^A-Za-z0-9_-] of the task logs.
\<close>

definition safe_id :: "string \<Rightarrow> string" where
  "safe_id s = map (\<lambda>c. if py_isalnum c \<or> c = CHR ''-'' \<or> c = CHR ''_'' then c else CHR ''_'') s"

definition safe_log_id :: "string \<Rightarrow> string" where
  "safe_log_id s = map (\<lambda>c. if ascii_letter c \<or> ascii_digit c \<or> c = CHR ''_'' \<or> c = CHR ''-''
     then c else CHR ''_'') s"

definition id_safe :: "string \<Rightarrow> bool" where
  "id_safe s = list_all (\<lambda>c. py_isalnum c \<or> c = CHR ''-'' \<or> c = CHR ''_'') s"

lemma safe_id_safe [simp]: "id_safe (safe_id s)"
  by (auto simp: id_safe_def safe_id_def list_all_iff py_isalnum_def Let_def)

lemma safe_id_id: "id_safe s \<Longrightarrow> safe_id s = s"
  by (induction s) (auto simp: id_safe_def safe_id_def)

lemma length_safe_id [simp]: "length (safe_id s) = length s"
  by (simp add: safe_id_def)

section \<open>Numerals\<close>

definition digit_char :: "nat \<Rightarrow> char" where
  "digit_char d = (if d < 10 then char_of (48 + d) else char_of (87 + d))"

definition digit_val :: "char \<Rightarrow> nat option" where
  "digit_val c = (let n = code c in
     if 48 \<le> n \<and> n \<le> 57 then Some (n - 48)
     else if 97 \<le> n \<and> n \<le> 122 then Some (n - 87)
     else if 65 \<le> n \<and> n \<le> 90 then Some (n - 55) else None)"

text \<open>format of a natural number in base b (2 to 36), lower case.\<close>

fun show_base :: "nat \<Rightarrow> nat \<Rightarrow> string" where
  "show_base b n =
     (if n < b \<or> b < 2 then [digit_char n] else show_base b (n div b) @ [digit_char (n mod b)])"

declare show_base.simps [simp del]

definition show_int :: "int \<Rightarrow> string" where
  "show_int i = (if i < 0 then CHR ''-'' # show_base 10 (nat (- i)) else show_base 10 (nat i))"

definition show_hex :: "int \<Rightarrow> string" where
  "show_hex i = (if i < 0 then CHR ''-'' # show_base 16 (nat (- i)) else show_base 16 (nat i))"

text \<open>
  int(s, b): surrounding whitespace, a sign, for base 16 an optional 0x, and digits with
  single underscores between them.  None is ValueError.
\<close>

fun digits_val :: "nat \<Rightarrow> nat \<Rightarrow> string \<Rightarrow> nat option" where
  "digits_val b acc [] = Some acc"
| "digits_val b acc (c # cs) =
     (if c = CHR ''_'' then
        (case cs of [] \<Rightarrow> None | d # ds \<Rightarrow> if d = CHR ''_'' then None else digits_val b acc cs)
      else (case digit_val c of None \<Rightarrow> None
            | Some d \<Rightarrow> if d < b then digits_val b (acc * b + d) cs else None))"

definition unsigned_val :: "nat \<Rightarrow> string \<Rightarrow> nat option" where
  "unsigned_val b s =
     (let t = (case s of c # x # r \<Rightarrow>
                 if b = 16 \<and> c = CHR ''0'' \<and> (x = CHR ''x'' \<or> x = CHR ''X'')
                 then (case r of u # r' \<Rightarrow> if u = CHR ''_'' then r' else r | [] \<Rightarrow> []) else s
               | _ \<Rightarrow> s)
      in case t of [] \<Rightarrow> None | c # _ \<Rightarrow> if c = CHR ''_'' then None else digits_val b 0 t)"

definition py_int :: "nat \<Rightarrow> string \<Rightarrow> int option" where
  "py_int b s =
     (case py_strip s of [] \<Rightarrow> None
      | c # r \<Rightarrow>
          if c = CHR ''-'' then map_option (\<lambda>n. - int n) (unsigned_val b r)
          else if c = CHR ''+'' then map_option int (unsigned_val b r)
          else map_option int (unsigned_val b (c # r)))"

lemma code_digit_char: "d < 36 \<Longrightarrow> code (digit_char d) = (if d < 10 then 48 + d else 87 + d)"
  by (simp add: digit_char_def)

lemma digit_val_digit_char [codec_simps]: "d < 36 \<Longrightarrow> digit_val (digit_char d) = Some d"
  by (auto simp: digit_val_def code_digit_char)

lemma digit_char_facts:
  assumes "d < 36"
  shows "\<not> py_isspace (digit_char d)" and "digit_char d \<noteq> CHR ''_''"
    and "digit_char d \<noteq> CHR ''-''" and "digit_char d \<noteq> CHR ''+''" and "digit_char d \<noteq> colon"
proof -
  have "code (digit_char d) \<noteq> code (CHR ''_'')" "code (digit_char d) \<noteq> code (CHR ''-'')"
    "code (digit_char d) \<noteq> code (CHR ''+'')" "code (digit_char d) \<noteq> code colon"
    using assms by (simp_all add: code_digit_char) (simp_all add: code_def)
  then show "digit_char d \<noteq> CHR ''_''" "digit_char d \<noteq> CHR ''-''" "digit_char d \<noteq> CHR ''+''"
    "digit_char d \<noteq> colon" by auto
  show "\<not> py_isspace (digit_char d)"
    using assms by (auto simp: py_isspace_def code_digit_char)
qed

lemma show_base_digits:
  assumes "2 \<le> b" and "b \<le> 36"
  shows "\<exists>ds. show_base b n = map digit_char ds \<and> ds \<noteq> [] \<and> (\<forall>d \<in> set ds. d < b)"
proof (induction n rule: less_induct)
  case (less n)
  show ?case
  proof (cases "n < b")
    case True
    then show ?thesis using assms by (intro exI[of _ "[n]"]) (simp add: show_base.simps)
  next
    case False
    with assms have "n div b < n" by (intro div_less_dividend) auto
    from less[OF this] obtain ds where
      "show_base b (n div b) = map digit_char ds" "\<forall>d \<in> set ds. d < b" by auto
    with False assms show ?thesis
      by (intro exI[of _ "ds @ [n mod b]"]) (auto simp: show_base.simps[of b n])
  qed
qed

lemma digits_val_map:
  assumes "b \<le> 36" and "\<forall>d \<in> set ds. d < b"
  shows "digits_val b acc (map digit_char ds) = Some (foldl (\<lambda>a d. a * b + d) acc ds)"
  using assms(2)
proof (induction ds arbitrary: acc)
  case (Cons d ds)
  then have "d < 36" using assms(1) by auto
  then show ?case using Cons by (simp add: digit_char_facts digit_val_digit_char)
qed simp

lemma digits_val_append:
  assumes "b \<le> 36" and "\<forall>d \<in> set ds. d < b" and "e < b"
    and "digits_val b 0 (map digit_char ds) = Some m"
  shows "digits_val b 0 (map digit_char ds @ [digit_char e]) = Some (m * b + e)"
proof -
  have "map digit_char ds @ [digit_char e] = map digit_char (ds @ [e])" by simp
  then show ?thesis
    using assms digits_val_map[of b "ds @ [e]" 0] digits_val_map[of b ds 0] by auto
qed

lemma digits_val_show_base:
  assumes "2 \<le> b" and "b \<le> 36"
  shows "digits_val b 0 (show_base b n) = Some n"
proof (induction n rule: less_induct)
  case (less n)
  show ?case
  proof (cases "n < b")
    case True
    then show ?thesis using assms
      by (simp add: show_base.simps digit_char_facts digit_val_digit_char)
  next
    case False
    with assms have lt: "n div b < n" by (intro div_less_dividend) auto
    obtain ds where ds: "show_base b (n div b) = map digit_char ds" "\<forall>d \<in> set ds. d < b"
      using show_base_digits[OF assms] by blast
    have "digits_val b 0 (map digit_char ds @ [digit_char (n mod b)]) = Some (n div b * b + n mod b)"
      using ds less[OF lt] assms by (intro digits_val_append) auto
    with False ds assms show ?thesis by (simp add: show_base.simps[of b n])
  qed
qed

text \<open>The first digit of a hexadecimal numeral is never followed by an x.\<close>

lemma unsigned_val_show_base:
  assumes "2 \<le> b" and "b \<le> 16"
  shows "unsigned_val b (show_base b n) = Some n"
proof -
  obtain ds where ds: "show_base b n = map digit_char ds" "ds \<noteq> []" "\<forall>d \<in> set ds. d < b"
    using show_base_digits[of b n] assms by auto
  have no_x: "\<not> (e = CHR ''x'' \<or> e = CHR ''X'')" if "e \<in> set (map digit_char ds)" for e
  proof -
    from that obtain d where "e = digit_char d" "d < 16" using ds(3) assms by fastforce
    then have "code e \<noteq> code (CHR ''x'')" "code e \<noteq> code (CHR ''X'')"
      by (simp_all add: code_digit_char) (simp_all add: code_def)
    then show ?thesis by auto
  qed
  have first: "digit_char (hd ds) \<noteq> CHR ''_''"
    using ds(2,3) assms by (intro digit_char_facts) (metis hd_in_set le_trans less_le_trans numeral_le_iff semiring_norm)
  have "digits_val b 0 (map digit_char ds) = Some n"
    using digits_val_show_base[of b n] assms ds by simp
  then have val: "digits_val b 0 (show_base b n) = Some n" using ds(1) by simp
  obtain c cs where s: "show_base b n = c # cs" and c: "c \<noteq> CHR ''_''"
    using ds first by (cases ds) auto
  show ?thesis
  proof (cases cs)
    case Nil
    with s c val show ?thesis by (simp add: unsigned_val_def del: digits_val.simps)
  next
    case (Cons x r)
    then have "\<not> (x = CHR ''x'' \<or> x = CHR ''X'')" using no_x[of x] s ds(1) by (metis list.set_intros(1) list.set_intros(2))
    with Cons s c val show ?thesis by (simp add: unsigned_val_def del: digits_val.simps)
  qed
qed

lemma digit_char_not_sign:
  assumes "2 \<le> b" and "b \<le> 36" and "c \<in> set (show_base b n)"
  shows "\<not> py_isspace c \<and> c \<noteq> CHR ''-'' \<and> c \<noteq> CHR ''+'' \<and> c \<noteq> colon"
proof -
  obtain ds where "show_base b n = map digit_char ds" "\<forall>d \<in> set ds. d < b"
    using show_base_digits[OF assms(1,2)] by blast
  with assms obtain d where "c = digit_char d" "d < 36" by fastforce
  then show ?thesis by (simp add: digit_char_facts)
qed

lemma py_strip_no_space:
  assumes "\<forall>c \<in> set s. \<not> py_isspace c"
  shows "py_strip s = s"
proof -
  have "dropWhile py_isspace t = t" if "\<forall>c \<in> set t. \<not> py_isspace c" for t
    using that by (cases t) auto
  from this[of s] this[of "rev s"] show ?thesis using assms by (simp add: py_strip_def)
qed

text \<open>Formatting and reading back a natural number.\<close>

lemma py_int_show_base:
  assumes "2 \<le> b" and "b \<le> 16"
  shows "py_int b (show_base b n) = Some (int n)"
proof -
  have chars: "\<not> py_isspace c \<and> c \<noteq> CHR ''-'' \<and> c \<noteq> CHR ''+''" if "c \<in> set (show_base b n)" for c
    using digit_char_not_sign[of b c n] that assms by auto
  then have "py_strip (show_base b n) = show_base b n" by (intro py_strip_no_space) auto
  moreover obtain c r where "show_base b n = c # r"
    using show_base_digits[of b n] assms by (cases "show_base b n") auto
  ultimately show ?thesis
    using chars[of c] unsigned_val_show_base[OF assms, of n] by (simp add: py_int_def)
qed

lemma py_int_show_hex: "0 \<le> i \<Longrightarrow> py_int 16 (show_hex i) = Some i"
  by (simp add: show_hex_def py_int_show_base)

lemma colon_notin_show_int [simp]: "colon \<notin> set (show_int i)"
  using digit_char_not_sign[of 10 colon] by (auto simp: show_int_def)

lemma colon_notin_show_hex [simp]: "colon \<notin> set (show_hex i)"
  using digit_char_not_sign[of 16 colon] by (auto simp: show_hex_def)

lemma show_hex_not_Nil [simp]: "show_hex i \<noteq> []"
  using show_base_digits[of 16 "nat i"] by (auto simp: show_hex_def)

lemma show_base_inj: "2 \<le> b \<Longrightarrow> b \<le> 16 \<Longrightarrow> show_base b m = show_base b n \<Longrightarrow> m = n"
  by (metis of_nat_eq_iff option.inject py_int_show_base)

lemma show_int_inj: "show_int i = show_int j \<longleftrightarrow> i = j"
proof
  assume eq: "show_int i = show_int j"
  have minus: "CHR ''-'' \<notin> set (show_base 10 n)" for n
    using digit_char_not_sign[of 10 "CHR ''-''" n] by auto
  have "(i < 0) = (j < 0)"
    using eq minus[of "nat i"] minus[of "nat j"] unfolding show_int_def
    by (metis list.set_intros(1))
  then show "i = j"
    using eq show_base_inj[of 10 "nat (- i)" "nat (- j)"] show_base_inj[of 10 "nat i" "nat j"]
    by (auto simp: show_int_def split: if_splits)
qed simp

end
