(* ===== verification/File_Store.thy ===== *)
theory File_Store
  imports Py_Text "HOL-Library.Sublist"
begin

text \<open>
  The filesystem layer of store/filesystem/atomic.py and task_log.py.  A directory is an
  association list from file names to contents; glob lists it in the order of the list, so
  a result holds for every listing order.  Three kinds of content occur:
  byte strings (the atomic write and the task logs), one JSON document per file (the record
  stores) and append-only logs of one JSON document per line (the session store).
\<close>

type_synonym 'c dir = "(string \<times> 'c) list"

definition dir_ok :: "'c dir \<Rightarrow> bool" where
  "dir_ok d = distinct (map fst d)"

lemma dir_ok_update [simp]: "dir_ok d \<Longrightarrow> dir_ok (AList.update p c d)"
  by (simp add: dir_ok_def distinct_update)

lemma dir_ok_delete [simp]: "dir_ok d \<Longrightarrow> dir_ok (AList.delete p d)"
  by (simp add: dir_ok_def distinct_delete)

lemma dir_ok_filter [simp]: "dir_ok d \<Longrightarrow> dir_ok (filter P d)"
  by (simp add: dir_ok_def distinct_map_filter)

section \<open>Atomic writes\<close>

text \<open>
  atomic_write creates a temporary file in the directory (mkstemp: a fresh name), writes
  and syncs it and renames it over the target.  An exception closes and removes the
  temporary file and is raised again.
\<close>

datatype fs_step = Mkstemp string | Write string string | Fsync string | Rename string string
  | Unlink string

fun fs_exec :: "fs_step \<Rightarrow> string dir \<Rightarrow> string dir" where
  "fs_exec (Mkstemp t) d = AList.update t [] d"
| "fs_exec (Write t c) d = AList.update t c d"
| "fs_exec (Fsync t) d = d"
| "fs_exec (Rename t p) d =
     (case map_of d t of None \<Rightarrow> d | Some c \<Rightarrow> AList.update p c (AList.delete t d))"
| "fs_exec (Unlink t) d = AList.delete t d"

definition atomic_write_steps :: "string \<Rightarrow> string \<Rightarrow> string \<Rightarrow> fs_step list" where
  "atomic_write_steps t p c = [Mkstemp t, Write t c, Fsync t, Rename t p]"

datatype write_fault = NoFault | FailWrite nat | FailFsync | FailRename | ShortWrite nat

text \<open>
  FailWrite k is a write that raises after k bytes reached the file; ShortWrite k one that
  returns k, less than the length of the content: the code does not look at the result of
  os.write and goes on.
\<close>

definition atomic_write ::
  "write_fault \<Rightarrow> string \<Rightarrow> string \<Rightarrow> string \<Rightarrow> string dir \<Rightarrow> (exn + unit) \<times> string dir" where
  "atomic_write fault t p c d =
     (case fault of
        NoFault \<Rightarrow> (Inr (), fold fs_exec (atomic_write_steps t p c) d)
      | FailWrite k \<Rightarrow> (Inl OSError, fold fs_exec [Mkstemp t, Write t (take k c), Unlink t] d)
      | ShortWrite k \<Rightarrow>
          (Inr (), fold fs_exec [Mkstemp t, Write t (take k c), Fsync t, Rename t p] d)
      | FailFsync \<Rightarrow> (Inl OSError, fold fs_exec [Mkstemp t, Write t c, Unlink t] d)
      | FailRename \<Rightarrow> (Inl OSError, fold fs_exec [Mkstemp t, Write t c, Fsync t, Unlink t] d))"

text \<open>
  What a crash leaves on disk: n whole steps done and, when the write is in progress
  (n = 1), the first k bytes.
\<close>

definition atomic_write_crash :: "nat \<Rightarrow> nat \<Rightarrow> string \<Rightarrow> string \<Rightarrow> string \<Rightarrow> string dir \<Rightarrow> string dir" where
  "atomic_write_crash n k t p c d =
     (let d' = fold fs_exec (take n (atomic_write_steps t p c)) d
      in if n = 1 then fs_exec (Write t (take k c)) d' else d')"

lemma atomic_write_success:
  assumes "t \<noteq> p" and "map_of d t = None"
  shows "fst (atomic_write NoFault t p c d) = Inr ()"
    and "map_of (snd (atomic_write NoFault t p c d)) = (map_of d)(p \<mapsto> c)"
  using assms by (auto simp: atomic_write_def atomic_write_steps_def fun_eq_iff alist_simps)

lemma atomic_write_short:
  assumes "t \<noteq> p" and "map_of d t = None"
  shows "fst (atomic_write (ShortWrite k) t p c d) = Inr ()"
    and "map_of (snd (atomic_write (ShortWrite k) t p c d)) = (map_of d)(p \<mapsto> take k c)"
  using assms by (auto simp: atomic_write_def fun_eq_iff alist_simps)

lemma atomic_write_failure:
  assumes "fault \<in> {FailWrite k, FailFsync, FailRename}" and "t \<noteq> p" and "map_of d t = None"
  shows "fst (atomic_write fault t p c d) = Inl OSError"
    and "map_of (snd (atomic_write fault t p c d)) = map_of d"
  using assms
  by (auto simp: atomic_write_def fun_eq_iff alist_simps)+

lemma atomic_write_crash_cases:
  "atomic_write_crash n k t p c d =
     (if n = 0 then d
      else if n = 1 then fold fs_exec [Mkstemp t, Write t (take k c)] d
      else if n = 2 \<or> n = 3 then fold fs_exec [Mkstemp t, Write t c] d
      else fold fs_exec (atomic_write_steps t p c) d)"
proof -
  consider "n = 0" | "n = 1" | "n = 2" | "n = 3" | "n \<ge> 4" by linarith
  then show ?thesis
    by cases (simp_all add: atomic_write_crash_def atomic_write_steps_def)
qed

lemma atomic_write_crash_target:
  assumes "t \<noteq> p" and "map_of d t = None"
  shows "map_of (atomic_write_crash n k t p c d) p \<in> {map_of d p, Some c}"
  using assms by (simp add: atomic_write_crash_cases atomic_write_steps_def alist_simps)

text \<open>
  C40: atomic_write replaces the target completely or not at all.  After a failure of the
  write, the sync or the rename the error is raised, the directory is as before and the
  temporary file is gone; a crash at any point leaves the target with its old or its
  new content.  The one exception is a short write, whose result the code ignores: the call
  succeeds and the target holds a truncated content.
\<close>

theorem atomic_write_all_or_nothing:
  assumes "t \<noteq> p" and "map_of d t = None"
  shows "(case fault of
       NoFault \<Rightarrow> fst (atomic_write fault t p c d) = Inr ()
         \<and> map_of (snd (atomic_write fault t p c d)) = (map_of d)(p \<mapsto> c)
     | ShortWrite k \<Rightarrow> fst (atomic_write fault t p c d) = Inr ()
         \<and> map_of (snd (atomic_write fault t p c d)) = (map_of d)(p \<mapsto> take k c)
     | _ \<Rightarrow> fst (atomic_write fault t p c d) = Inl OSError
         \<and> map_of (snd (atomic_write fault t p c d)) = map_of d)
    \<and> map_of (atomic_write_crash n m t p c d) p \<in> {map_of d p, Some c}"
  using assms atomic_write_success[OF assms] atomic_write_short[OF assms]
    atomic_write_failure[OF _ assms] atomic_write_crash_target[OF assms]
  by (simp split: write_fault.split)

theorem atomic_write_all_or_nothing_witness:
  "map_of (snd (atomic_write (FailWrite 1) ''.tmp_a'' ''f'' ''new'' [(''f'', ''old'')])) ''f'' = Some ''old''"
  using atomic_write_all_or_nothing[of "''.tmp_a''" "''f''" "[(''f'', ''old'')]" "FailWrite 1" "''new''" 0 0]
  by simp

section \<open>One document per file\<close>

text \<open>
  The record stores name a file by a key, write a dictionary with atomic_write_text and
  read it back with a decoder; a missing file, text that is not JSON and a dictionary the
  decoder rejects all read as None.
\<close>

definition read_rec :: "(string \<Rightarrow> string) \<Rightarrow> (dict \<Rightarrow> 'r option) \<Rightarrow> doc dir \<Rightarrow> string \<Rightarrow> 'r option" where
  "read_rec path dec d k =
     (case map_of d (path k) of None \<Rightarrow> None | Some NotJson \<Rightarrow> None | Some (Obj v) \<Rightarrow> dec v)"

definition write_rec :: "(string \<Rightarrow> string) \<Rightarrow> ('r \<Rightarrow> dict) \<Rightarrow> doc dir \<Rightarrow> string \<Rightarrow> 'r \<Rightarrow> doc dir" where
  "write_rec path enc d k r = AList.update (path k) (Obj (enc r)) d"

definition file_exists :: "(string \<Rightarrow> string) \<Rightarrow> 'c dir \<Rightarrow> string \<Rightarrow> bool" where
  "file_exists path d k = (map_of d (path k) \<noteq> None)"

definition unlink :: "(string \<Rightarrow> string) \<Rightarrow> 'c dir \<Rightarrow> string \<Rightarrow> 'c dir" where
  "unlink path d k = AList.delete (path k) d"

definition decode :: "(dict \<Rightarrow> 'r option) \<Rightarrow> doc \<Rightarrow> 'r option" where
  "decode dec c = (case c of NotJson \<Rightarrow> None | Obj v \<Rightarrow> dec v)"

lemma decode_simps [simp]: "decode dec NotJson = None" "decode dec (Obj v) = dec v"
  by (simp_all add: decode_def)

lemma read_rec_decode: "read_rec path dec d k = Option.bind (map_of d (path k)) (decode dec)"
  by (auto simp: read_rec_def split: option.split doc.split)

locale record_file =
  fixes path :: "string \<Rightarrow> string"
    and enc :: "'r \<Rightarrow> dict"
    and dec :: "dict \<Rightarrow> 'r option"
  assumes dec_enc: "dec (enc r) = Some r"
begin

lemma read_write_same: "read_rec path dec (write_rec path enc d k r) k = Some r"
  by (simp add: read_rec_def write_rec_def dec_enc)

lemma read_write:
  "read_rec path dec (write_rec path enc d k r) k' =
     (if path k = path k' then Some r else read_rec path dec d k')"
  by (auto simp: read_rec_def write_rec_def dec_enc)

lemma read_unlink:
  "read_rec path dec (unlink path d k) k' =
     (if path k = path k' then None else read_rec path dec d k')"
  by (auto simp: read_rec_def unlink_def)

lemma exists_write:
  "file_exists path (write_rec path enc d k r) k' \<longleftrightarrow> path k = path k' \<or> file_exists path d k'"
  by (auto simp: file_exists_def write_rec_def alist_simps)

lemma dir_ok_write: "dir_ok d \<Longrightarrow> dir_ok (write_rec path enc d k r)"
  by (simp add: write_rec_def)

lemma read_exists: "read_rec path dec d k = Some r \<Longrightarrow> file_exists path d k"
  by (auto simp: read_rec_def file_exists_def split: option.splits)

lemma read_cong: "path k = path k' \<Longrightarrow> read_rec path dec d k = read_rec path dec d k'"
  by (simp add: read_rec_def)

end

lemma dir_ok_unlink [simp]: "dir_ok d \<Longrightarrow> dir_ok (unlink path d k)"
  by (simp add: unlink_def)

text \<open>Removing the files of a directory that satisfy a test, as the clean-up loops do.\<close>

lemma read_rec_filter:
  assumes "dir_ok d"
  shows "read_rec path dec (filter (\<lambda>e. \<not> (Q (fst e) \<and> P (snd e))) d) k =
    (case map_of d (path k) of None \<Rightarrow> None
     | Some c \<Rightarrow> if Q (path k) \<and> P c then None else decode dec c)"
proof -
  have "map_of (filter (\<lambda>e. \<not> (Q (fst e) \<and> P (snd e))) d) p =
    (case map_of d p of None \<Rightarrow> None | Some c \<Rightarrow> if Q p \<and> P c then None else Some c)" for p
    using assms
  proof (induction d)
    case (Cons e d)
    have "map_of d (fst e) = None"
      using Cons.prems by (auto simp: dir_ok_def map_of_eq_None_iff)
    moreover have "dir_ok d" using Cons.prems by (simp add: dir_ok_def)
    ultimately show ?case using Cons.IH by (cases e) (auto split: option.splits)
  qed simp
  then show ?thesis by (auto simp: read_rec_decode split: option.split)
qed

section \<open>Append-only logs\<close>

text \<open>
  A log file as its lines, each the document it parses to; log_torn says that the last line
  lacks its newline, which only a crash in the middle of an append leaves behind.  Appended
  text then continues that line, and two documents (or a part of one and a document) on one
  line are not JSON.
\<close>

record log_file =
  log_lines :: "doc list"
  log_torn :: bool

definition file_append_lines :: "dict list \<Rightarrow> log_file option \<Rightarrow> log_file" where
  "file_append_lines ds f =
     (case f of
        None \<Rightarrow> \<lparr>log_lines = map Obj ds, log_torn = False\<rparr>
      | Some g \<Rightarrow>
          if log_torn g \<and> log_lines g \<noteq> [] \<and> ds \<noteq> []
          then \<lparr>log_lines = butlast (log_lines g) @ NotJson # map Obj (tl ds), log_torn = False\<rparr>
          else g\<lparr>log_lines := log_lines g @ map Obj ds, log_torn := log_torn g \<and> ds = []\<rparr>)"

text \<open>
  A crash (or a short write, which the code does not notice) during the append of ds: k
  whole lines reached the disk, and then nothing, a part of the next line, or all of it but
  its newline.  Text after a torn line makes that line unreadable.
\<close>

datatype torn_tail = CleanCut | TornPart | TornWhole

definition torn_with :: "doc \<Rightarrow> log_file \<Rightarrow> log_file" where
  "torn_with l g =
     (if log_torn g \<and> log_lines g \<noteq> []
      then \<lparr>log_lines = butlast (log_lines g) @ [NotJson], log_torn = True\<rparr>
      else \<lparr>log_lines = log_lines g @ [l], log_torn = True\<rparr>)"

definition append_crash :: "dict list \<Rightarrow> nat \<Rightarrow> torn_tail \<Rightarrow> log_file option \<Rightarrow> log_file" where
  "append_crash ds k tail f =
     (let g = file_append_lines (take k ds) f
      in case tail of
           CleanCut \<Rightarrow> g
         | TornPart \<Rightarrow> torn_with NotJson g
         | TornWhole \<Rightarrow> torn_with (Obj (ds ! k)) g)"

definition log_ok :: "log_file \<Rightarrow> bool" where
  "log_ok g = (\<not> log_torn g)"

lemma log_ok_append: "ds \<noteq> [] \<Longrightarrow> log_ok (file_append_lines ds f)"
  by (auto simp: log_ok_def file_append_lines_def split: option.splits)

lemma log_lines_append_ok:
  "log_ok g \<Longrightarrow> log_lines (file_append_lines ds (Some g)) = log_lines g @ map Obj ds"
  by (simp add: log_ok_def file_append_lines_def)

section \<open>Task logs\<close>

text \<open>
  append_log_line rotates a log that outgrew the cap: the last half is kept, from the first
  line that starts in it.  The content is the bytes of the file and the line its UTF-8
  encoding; OSError is swallowed by the code and leaves the file as it was.
\<close>

definition max_log_bytes :: nat where
  "max_log_bytes = 2000000"

definition rotate_log :: "nat \<Rightarrow> string \<Rightarrow> string" where
  "rotate_log cap c =
     (let tail = drop (length c - cap div 2) c
      in if newline \<in> set tail then drop 1 (dropWhile (\<lambda>x. x \<noteq> newline) tail) else tail)"

definition append_log_line :: "nat \<Rightarrow> string option \<Rightarrow> string \<Rightarrow> string" where
  "append_log_line cap f line =
     (let c = (case f of None \<Rightarrow> [] | Some c \<Rightarrow> if length c > cap then rotate_log cap c else c)
      in c @ rstrip_newlines line @ [newline])"

fun universal_newlines :: "string \<Rightarrow> string" where
  "universal_newlines [] = []"
| "universal_newlines [c] = [if c = carriage then newline else c]"
| "universal_newlines (c # x # cs) =
     (if c = carriage \<and> x = newline then newline # universal_newlines cs
      else (if c = carriage then newline else c) # universal_newlines (x # cs))"

text \<open>Iterating over a text file: the lines, without a last empty one.\<close>

definition file_lines :: "string \<Rightarrow> string list" where
  "file_lines c =
     (let ls = split_on newline (universal_newlines c)
      in if last ls = [] then butlast ls else ls)"

definition read_log_tail :: "string option \<Rightarrow> nat \<Rightarrow> string list" where
  "read_log_tail f n =
     (case f of None \<Rightarrow> []
      | Some c \<Rightarrow> let ls = file_lines c in drop (length ls - n) ls)"

definition task_log_path :: "string \<Rightarrow> string" where
  "task_log_path task_id = safe_log_id task_id @ ''.log''"

lemma length_rotate_log: "length (rotate_log cap c) \<le> cap div 2"
proof -
  let ?t = "drop (length c - cap div 2) c"
  have "length (drop 1 (dropWhile (\<lambda>x. x \<noteq> newline) ?t)) \<le> length ?t"
    using length_dropWhile_le[of "\<lambda>x. x \<noteq> newline" ?t] unfolding length_drop by linarith
  moreover have "length ?t \<le> cap div 2" by simp
  ultimately show ?thesis unfolding rotate_log_def Let_def by (simp del: length_drop)
qed

lemma length_rstrip_newlines: "length (rstrip_newlines s) \<le> length s"
  using length_dropWhile_le[of "\<lambda>c. c = newline" "rev s"] by (simp add: rstrip_newlines_def)

lemma length_append_log_line:
  "length (append_log_line cap f line) \<le> cap + length line + 1"
proof -
  have "length (case f of None \<Rightarrow> [] | Some c \<Rightarrow> if length c > cap then rotate_log cap c else c) \<le> cap"
    using length_rotate_log[of cap] by (auto split: option.splits intro: order_trans[OF _ div_le_dividend])
  then show ?thesis
    using length_rstrip_newlines[of line] by (simp add: append_log_line_def Let_def)
qed

lemma suffix_rotate_log: "suffix (rotate_log cap c) c"
proof -
  let ?t = "drop (length c - cap div 2) c"
  have "suffix (drop 1 (dropWhile (\<lambda>x. x \<noteq> newline) ?t)) ?t"
    by (meson suffix_drop suffix_dropWhile suffix_order.trans)
  then show ?thesis
    by (auto simp: rotate_log_def Let_def intro: suffix_order.trans suffix_drop)
qed

lemma universal_newlines_no_cr: "carriage \<notin> set s \<Longrightarrow> universal_newlines s = s"
  by (induction s rule: universal_newlines.induct) auto

lemma split_on_append_last:
  "split_on c (s @ t) = butlast (split_on c s) @ (case split_on c t of [] \<Rightarrow> [] | y # ys \<Rightarrow>
     (last (split_on c s) @ y) # ys)"
proof (induction s)
  case Nil
  then show ?case by (simp split: list.split)
next
  case (Cons x s)
  show ?case
  proof (cases "split_on c s")
    case (Cons y ys)
    then show ?thesis using Cons.IH
      by (cases "split_on c t") (auto split: list.splits)
  qed simp
qed

text \<open>Appending a line to a log of complete lines adds one last line to its tail.\<close>

lemma file_lines_append:
  assumes "carriage \<notin> set c" and "c = [] \<or> last c = newline"
    and "carriage \<notin> set l" and "newline \<notin> set l"
  shows "file_lines (c @ l @ [newline]) = file_lines c @ [l]"
proof -
  have l: "split_on newline (l @ [newline]) = [l, []]"
    using split_on_append[OF assms(4), of "[]"] by simp
  have "last (split_on newline c) = []"
  proof (cases "c = []")
    case False
    with assms(2) obtain b where "c = b @ [newline]" by (metis append_butlast_last_id)
    then show ?thesis using split_on_append_last[of newline b "[newline]"] by simp
  qed simp
  then show ?thesis
    using assms l split_on_append_last[of newline c "l @ [newline]"]
    by (simp add: file_lines_def universal_newlines_no_cr butlast_append)
qed

end
