(* ===== verification/Lock_Coordinator.thy ===== *)
theory Lock_Coordinator
  imports File_Store
begin

text \<open>
  The lease locks of store/filesystem/lock.py and the administrative operations on them in
  store/runtime/manager.py.  A lock is a JSON document in a file named by the digest H of
  its key; a lock file that cannot be decoded counts as no lock.  Every coordinator
  operation runs under an asyncio lock and the manager's loops over the lock files do not
  await, so each is one step.  acquire reads the clock once for the expiry test (c1) and
  once for the new record (c2).
\<close>

record lock_record =
  lk_key :: string
  lk_owner :: string
  lk_acquired :: time
  lk_expires :: time

definition lock_path :: "(string \<Rightarrow> string) \<Rightarrow> string \<Rightarrow> string" where
  "lock_path H key = H key @ ''.lock''"

definition lock_to_dict :: "lock_record \<Rightarrow> dict" where
  "lock_to_dict r =
     [(''lock_key'', PStr (lk_key r)), (''owner_id'', PStr (lk_owner r)),
      (''acquired_at'', PTime (lk_acquired r)), (''expires_at'', PTime (lk_expires r))]"

definition lock_of_dict :: "dict \<Rightarrow> lock_record option" where
  "lock_of_dict d =
     (case (as_str (dget d ''lock_key''), as_str (dget d ''owner_id''),
            as_time (dget d ''acquired_at''), as_time (dget d ''expires_at'')) of
        (Some k, Some own, Some a, Some e) \<Rightarrow>
          Some \<lparr>lk_key = k, lk_owner = own, lk_acquired = a, lk_expires = e\<rparr>
      | _ \<Rightarrow> None)"

lemma lock_of_to_dict [codec_simps]: "lock_of_dict (lock_to_dict r) = Some r"
  by (simp add: lock_of_dict_def lock_to_dict_def)

interpretation lock_files: record_file "lock_path H" lock_to_dict lock_of_dict for H
  by unfold_locales (rule lock_of_to_dict)

section \<open>The coordinator\<close>

definition lock_read :: "(string \<Rightarrow> string) \<Rightarrow> doc dir \<Rightarrow> string \<Rightarrow> lock_record option" where
  "lock_read H d key = read_rec (lock_path H) lock_of_dict d key"

definition lock_write :: "(string \<Rightarrow> string) \<Rightarrow> doc dir \<Rightarrow> lock_record \<Rightarrow> doc dir" where
  "lock_write H d r = write_rec (lock_path H) lock_to_dict d (lk_key r) r"

definition lock_delete :: "(string \<Rightarrow> string) \<Rightarrow> doc dir \<Rightarrow> string \<Rightarrow> doc dir" where
  "lock_delete H d key = (if file_exists (lock_path H) d key then unlink (lock_path H) d key else d)"

definition lock_is_expired :: "lock_record \<Rightarrow> time \<Rightarrow> bool" where
  "lock_is_expired r now = (now \<ge> lk_expires r)"

definition lock_ttl :: "int \<Rightarrow> int option \<Rightarrow> int" where
  "lock_ttl dflt ttl = (case ttl of Some t \<Rightarrow> t | None \<Rightarrow> dflt)"

definition lock_refresh_unlocked ::
  "(string \<Rightarrow> string) \<Rightarrow> doc dir \<Rightarrow> string \<Rightarrow> string \<Rightarrow> int \<Rightarrow> lock_record \<Rightarrow> time \<Rightarrow> lock_record \<times> doc dir" where
  "lock_refresh_unlocked H d key owner ttl existing now =
     (let r = \<lparr>lk_key = key, lk_owner = owner, lk_acquired = lk_acquired existing,
               lk_expires = now + seconds ttl\<rparr>
      in (r, lock_write H d r))"

definition lock_acquire ::
  "(string \<Rightarrow> string) \<Rightarrow> int \<Rightarrow> doc dir \<Rightarrow> string \<Rightarrow> string \<Rightarrow> int option \<Rightarrow> time \<Rightarrow> time
    \<Rightarrow> lock_record option \<times> doc dir" where
  "lock_acquire H dflt d key owner ttl c1 c2 =
     (let fresh = \<lparr>lk_key = key, lk_owner = owner, lk_acquired = c2,
                   lk_expires = c2 + seconds (lock_ttl dflt ttl)\<rparr>
      in case lock_read H d key of
           None \<Rightarrow> (Some fresh, lock_write H d fresh)
         | Some e \<Rightarrow>
             if lk_owner e = owner then
               (let (r, d') = lock_refresh_unlocked H d key owner (lock_ttl dflt ttl) e c1
                in (Some r, d'))
             else if \<not> lock_is_expired e c1 then (None, d)
             else (Some fresh, lock_write H (lock_delete H d key) fresh))"

definition lock_release :: "(string \<Rightarrow> string) \<Rightarrow> doc dir \<Rightarrow> string \<Rightarrow> string \<Rightarrow> bool \<times> doc dir" where
  "lock_release H d key owner =
     (case lock_read H d key of
        None \<Rightarrow> (False, d)
      | Some e \<Rightarrow> if lk_owner e \<noteq> owner then (False, d) else (True, lock_delete H d key))"

definition lock_refresh ::
  "(string \<Rightarrow> string) \<Rightarrow> int \<Rightarrow> doc dir \<Rightarrow> string \<Rightarrow> string \<Rightarrow> int option \<Rightarrow> time
    \<Rightarrow> lock_record option \<times> doc dir" where
  "lock_refresh H dflt d key owner ttl now =
     (case lock_read H d key of
        None \<Rightarrow> (None, d)
      | Some e \<Rightarrow>
          if lk_owner e \<noteq> owner then (None, d)
          else (let (r, d') = lock_refresh_unlocked H d key owner (lock_ttl dflt ttl) e now
                in (Some r, d')))"

definition lock_is_locked :: "(string \<Rightarrow> string) \<Rightarrow> doc dir \<Rightarrow> string \<Rightarrow> time \<Rightarrow> bool" where
  "lock_is_locked H d key now =
     (case lock_read H d key of None \<Rightarrow> False | Some r \<Rightarrow> \<not> lock_is_expired r now)"

definition lock_info :: "(string \<Rightarrow> string) \<Rightarrow> doc dir \<Rightarrow> string \<Rightarrow> time \<Rightarrow> lock_record option" where
  "lock_info H d key now =
     (case lock_read H d key of
        None \<Rightarrow> None | Some r \<Rightarrow> if lock_is_expired r now then None else Some r)"

section \<open>Administrative operations\<close>

definition is_lock_name :: "string \<Rightarrow> bool" where
  "is_lock_name n = suffix ''.lock'' n"

text \<open>_read_lock_data needs only the expiry; the other fields are looked at later.\<close>

definition lock_read_data :: "doc \<Rightarrow> (dict \<times> time) option" where
  "lock_read_data c =
     (case c of NotJson \<Rightarrow> None
      | Obj v \<Rightarrow> map_option (Pair v) (as_time (dget v ''expires_at'')))"

definition lock_file_expired :: "time \<Rightarrow> doc \<Rightarrow> bool" where
  "lock_file_expired now c =
     (case lock_read_data c of None \<Rightarrow> False | Some (_, e) \<Rightarrow> now \<ge> e)"

definition cleanup_expired_locks :: "doc dir \<Rightarrow> time \<Rightarrow> nat \<times> doc dir" where
  "cleanup_expired_locks d now =
     (length (filter (\<lambda>f. is_lock_name (fst f) \<and> lock_file_expired now (snd f)) d),
      filter (\<lambda>f. \<not> (is_lock_name (fst f) \<and> lock_file_expired now (snd f))) d)"

definition force_release_lock :: "(string \<Rightarrow> string) \<Rightarrow> doc dir \<Rightarrow> string \<Rightarrow> bool \<times> doc dir" where
  "force_release_lock H d key =
     (if file_exists (lock_path H) d key then (True, unlink (lock_path H) d key) else (False, d))"

text \<open>
  list_active_locks builds a LockRecord from data[...]: a field that is missing raises
  KeyError, a field of a wrong type a validation error, and neither is caught.
\<close>

definition req_field :: "(pyval \<Rightarrow> 'a option) \<Rightarrow> dict \<Rightarrow> string \<Rightarrow> exn + 'a" where
  "req_field f v k =
     (case map_of v k of None \<Rightarrow> Inl (KeyError k)
      | Some x \<Rightarrow> (case f x of None \<Rightarrow> Inl (ValueError k) | Some y \<Rightarrow> Inr y))"

definition active_lock_record :: "dict \<Rightarrow> time \<Rightarrow> exn + lock_record" where
  "active_lock_record v e =
     (case req_field as_str v ''lock_key'' of Inl x \<Rightarrow> Inl x | Inr k \<Rightarrow>
      case req_field as_str v ''owner_id'' of Inl x \<Rightarrow> Inl x | Inr own \<Rightarrow>
      case req_field as_time v ''acquired_at'' of Inl x \<Rightarrow> Inl x | Inr a \<Rightarrow>
        Inr \<lparr>lk_key = k, lk_owner = own, lk_acquired = a, lk_expires = e\<rparr>)"

fun active_locks_loop :: "doc dir \<Rightarrow> time \<Rightarrow> lock_record list \<Rightarrow> exn + lock_record list" where
  "active_locks_loop [] now acc = Inr acc"
| "active_locks_loop ((n, c) # d) now acc =
     (if \<not> is_lock_name n then active_locks_loop d now acc
      else case lock_read_data c of
        None \<Rightarrow> active_locks_loop d now acc
      | Some (v, e) \<Rightarrow>
          if now < e then
            (case active_lock_record v e of
               Inl x \<Rightarrow> Inl x
             | Inr r \<Rightarrow> active_locks_loop d now (acc @ [r]))
          else active_locks_loop d now acc)"

definition list_active_locks :: "doc dir \<Rightarrow> time \<Rightarrow> exn + lock_record list" where
  "list_active_locks d now =
     (case active_locks_loop d now [] of Inl x \<Rightarrow> Inl x | Inr ls \<Rightarrow> Inr (py_sorted lk_acquired ls))"

record lock_diagnostics =
  ld_active :: nat
  ld_total :: nat
  ld_expired :: int
  ld_oldest_age :: "int option"
  ld_stale :: nat

text \<open>
  Ages in microseconds; min with a key returns the first least element, which in the
  sorted list is the head.
\<close>

definition get_lock_diagnostics :: "doc dir \<Rightarrow> time \<Rightarrow> time \<Rightarrow> exn + lock_diagnostics" where
  "get_lock_diagnostics d c1 c2 =
     (case list_active_locks d c1 of
        Inl x \<Rightarrow> Inl x
      | Inr active \<Rightarrow>
          (let total = length (filter (\<lambda>f. is_lock_name (fst f)) d)
           in Inr \<lparr>ld_active = length active, ld_total = total,
                   ld_expired = int total - int (length active),
                   ld_oldest_age = (case active of [] \<Rightarrow> None | l # _ \<Rightarrow> Some (c2 - lk_acquired l)),
                   ld_stale = length (filter (\<lambda>l. c2 - lk_acquired l > seconds 300) active)\<rparr>))"

record lock_contention =
  lc_total :: nat
  lc_long_held :: nat
  lc_stale :: nat
  lc_details :: "(string \<times> string \<times> int \<times> int) list"

definition detect_lock_contention :: "doc dir \<Rightarrow> int \<Rightarrow> time \<Rightarrow> time \<Rightarrow> exn + lock_contention" where
  "detect_lock_contention d window c1 c2 =
     (case list_active_locks d c1 of
        Inl x \<Rightarrow> Inl x
      | Inr active \<Rightarrow>
          (let long_held = filter (\<lambda>l. c2 - lk_acquired l > seconds window) active;
               stale = filter (\<lambda>l. c2 - lk_acquired l > seconds (window * 2)) long_held
           in Inr \<lparr>lc_total = length active, lc_long_held = length long_held,
                   lc_stale = length stale,
                   lc_details = map (\<lambda>l. (lk_key l, lk_owner l, c2 - lk_acquired l,
                     lk_expires l - c2)) long_held\<rparr>))"

datatype ttl_check = TtlOk | AcquireFailed | NotHeldImmediately | StillHeld

text \<open>
  verify_lock_ttl_behavior: acquire with a TTL of one second (clock readings c1, c2), test
  at c3, sleep, test at c4.
\<close>

definition verify_lock_ttl ::
  "(string \<Rightarrow> string) \<Rightarrow> int \<Rightarrow> doc dir \<Rightarrow> string \<Rightarrow> time \<Rightarrow> time \<Rightarrow> time \<Rightarrow> time \<Rightarrow> ttl_check \<times> doc dir" where
  "verify_lock_ttl H dflt d key c1 c2 c3 c4 =
     (case lock_acquire H dflt d key ''ttl_test_owner'' (Some 1) c1 c2 of
        (None, d1) \<Rightarrow> (AcquireFailed, d1)
      | (Some _, d1) \<Rightarrow>
          if \<not> lock_is_locked H d1 key c3
          then (NotHeldImmediately, snd (lock_release H d1 key ''ttl_test_owner''))
          else if lock_is_locked H d1 key c4
          then (StillHeld, snd (lock_release H d1 key ''ttl_test_owner''))
          else (TtlOk, d1))"

section \<open>Reading after each operation\<close>

lemma lock_read_write [store_simps]:
  "lock_read H (lock_write H d r) key =
     (if lock_path H (lk_key r) = lock_path H key then Some r else lock_read H d key)"
  by (simp add: lock_read_def lock_write_def lock_files.read_write)

lemma lock_read_delete [store_simps]:
  "lock_read H (lock_delete H d key) key' =
     (if lock_path H key = lock_path H key' then None else lock_read H d key')"
  by (auto simp: lock_read_def lock_delete_def file_exists_def read_rec_def unlink_def)

lemma lock_read_cong: "lock_path H k = lock_path H k' \<Longrightarrow> lock_read H d k = lock_read H d k'"
  unfolding lock_read_def by (rule lock_files.read_cong)

lemma lock_name_path [simp]: "is_lock_name (lock_path H key)"
  by (simp add: is_lock_name_def lock_path_def suffix_def)

lemma lock_read_cleanup:
  assumes "dir_ok d" and "lock_read H d key = Some r" and "now < lk_expires r"
  shows "lock_read H (snd (cleanup_expired_locks d now)) key = Some r"
proof -
  obtain v where v: "map_of d (lock_path H key) = Some (Obj v)" "lock_of_dict v = Some r"
    using assms(2) by (auto simp: lock_read_def read_rec_def split: option.splits doc.splits)
  then have "as_time (dget v ''expires_at'') = Some (lk_expires r)"
    by (auto simp: lock_of_dict_def split: option.splits)
  with v assms(3) show ?thesis
    using read_rec_filter[OF assms(1), of "lock_path H" lock_of_dict is_lock_name
        "lock_file_expired now" key]
    by (simp add: lock_read_def cleanup_expired_locks_def lock_file_expired_def lock_read_data_def)
qed

lemma lock_ops_ok [simp]:
  "dir_ok d \<Longrightarrow> dir_ok (lock_write H d r)"
  "dir_ok d \<Longrightarrow> dir_ok (lock_delete H d key)"
  by (simp_all add: lock_write_def lock_files.dir_ok_write lock_delete_def)

text \<open>Who holds a key at a time, and until when.\<close>

definition lock_holds :: "(string \<Rightarrow> string) \<Rightarrow> doc dir \<Rightarrow> string \<Rightarrow> string \<Rightarrow> time \<Rightarrow> bool" where
  "lock_holds H d key owner t =
     (\<exists>r. lock_read H d key = Some r \<and> lk_owner r = owner \<and> t < lk_expires r)"

lemma lock_holds_mono: "lock_holds H d key owner t \<Longrightarrow> t' \<le> t \<Longrightarrow> lock_holds H d key owner t'"
  by (auto simp: lock_holds_def)

section \<open>Leases\<close>

datatype lock_op =
    LAcquire string string "int option" time time
  | LRelease string string
  | LRefresh string string "int option" time
  | LCleanup time
  | LForce string

fun lock_exec :: "(string \<Rightarrow> string) \<Rightarrow> int \<Rightarrow> lock_op \<Rightarrow> doc dir \<Rightarrow> doc dir" where
  "lock_exec H dflt (LAcquire k own ttl c1 c2) d = snd (lock_acquire H dflt d k own ttl c1 c2)"
| "lock_exec H dflt (LRelease k own) d = snd (lock_release H d k own)"
| "lock_exec H dflt (LRefresh k own ttl c) d = snd (lock_refresh H dflt d k own ttl c)"
| "lock_exec H dflt (LCleanup now) d = snd (cleanup_expired_locks d now)"
| "lock_exec H dflt (LForce k) d = snd (force_release_lock H d k)"

text \<open>
  The operations that leave a lease of owner on key alone up to time t: those of other
  owners, on any key, and clean-ups, with their expiry tests at most at t, and forced releases of
  other files.
\<close>

fun lock_harmless :: "(string \<Rightarrow> string) \<Rightarrow> string \<Rightarrow> string \<Rightarrow> time \<Rightarrow> lock_op \<Rightarrow> bool" where
  "lock_harmless H key owner t (LAcquire k own ttl c1 c2) = (own \<noteq> owner \<and> c1 \<le> t)"
| "lock_harmless H key owner t (LRelease k own) = (own \<noteq> owner)"
| "lock_harmless H key owner t (LRefresh k own ttl c) = (own \<noteq> owner)"
| "lock_harmless H key owner t (LCleanup now) = (now \<le> t)"
| "lock_harmless H key owner t (LForce k) = (lock_path H k \<noteq> lock_path H key)"

text \<open>
  What a client of a lease lock relies on.  A grant holds the key until its expiry, no
  other owner is granted a held key, and only the holder, an expiry or a forced release ends
  a lease.
\<close>

locale lease_lock =
  fixes holds :: "'s \<Rightarrow> 'k \<Rightarrow> 'o \<Rightarrow> time \<Rightarrow> bool"
    and acquire :: "'s \<Rightarrow> 'k \<Rightarrow> 'o \<Rightarrow> 'a \<Rightarrow> time \<Rightarrow> time \<Rightarrow> 'r option \<times> 's"
    and expires :: "'r \<Rightarrow> time"
    and step :: "'op \<Rightarrow> 's \<Rightarrow> 's"
    and harmless :: "'k \<Rightarrow> 'o \<Rightarrow> time \<Rightarrow> 'op \<Rightarrow> bool"
    and inv :: "'s \<Rightarrow> bool"
  assumes acquire_holds:
      "acquire s k ow ttl c1 c2 = (Some r, s') \<Longrightarrow> t < expires r \<Longrightarrow> holds s' k ow t"
    and acquire_denied:
      "holds s k ow t \<Longrightarrow> ow' \<noteq> ow \<Longrightarrow> acquire s k ow' ttl t t' = (None, s)"
    and acquire_inv: "inv s \<Longrightarrow> inv (snd (acquire s k ow ttl c1 c2))"
    and step_holds: "inv s \<Longrightarrow> harmless k ow t p \<Longrightarrow> holds s k ow t \<Longrightarrow> holds (step p s) k ow t"
    and step_inv: "inv s \<Longrightarrow> inv (step p s)"
begin

lemma run_holds:
  assumes "inv s" and "\<forall>p \<in> set ps. harmless k ow t p" and "holds s k ow t"
  shows "holds (fold step ps s) k ow t"
  using assms by (induction ps arbitrary: s) (simp_all add: step_inv step_holds)

lemma lease_exclusive:
  assumes "inv s" and "acquire s k ow ttl c1 c2 = (Some r, s')" and "t < expires r"
    and "\<forall>p \<in> set ps. harmless k ow t p" and "ow' \<noteq> ow"
  shows "acquire (fold step ps s') k ow' ttl' t t' = (None, fold step ps s')"
proof (rule acquire_denied, rule run_holds)
  show "inv s'" using acquire_inv[OF assms(1), of k ow ttl c1 c2] assms(2) by simp
  show "holds s' k ow t" using assms(2,3) by (rule acquire_holds)
qed (use assms in auto)

end

lemma lock_acquire_cases:
  "lock_acquire H dflt d key owner ttl c1 c2 =
     (let fresh = \<lparr>lk_key = key, lk_owner = owner, lk_acquired = c2,
                   lk_expires = c2 + seconds (lock_ttl dflt ttl)\<rparr>;
          again = (\<lambda>e. \<lparr>lk_key = key, lk_owner = owner, lk_acquired = lk_acquired e,
                   lk_expires = c1 + seconds (lock_ttl dflt ttl)\<rparr>)
      in case lock_read H d key of
           None \<Rightarrow> (Some fresh, lock_write H d fresh)
         | Some e \<Rightarrow>
             if lk_owner e = owner then (Some (again e), lock_write H d (again e))
             else if c1 < lk_expires e then (None, d)
             else (Some fresh, lock_write H (lock_delete H d key) fresh))"
  by (auto simp: lock_acquire_def lock_refresh_unlocked_def lock_is_expired_def Let_def
      split: option.split)

lemma lock_acquire_ok: "dir_ok d \<Longrightarrow> dir_ok (snd (lock_acquire H dflt d key owner ttl c1 c2))"
  by (simp add: lock_acquire_cases Let_def split: option.split)

lemma lock_exec_ok: "dir_ok d \<Longrightarrow> dir_ok (lock_exec H dflt p d)"
  by (cases p) (auto simp: lock_acquire_ok lock_release_def lock_refresh_def force_release_lock_def
      lock_refresh_unlocked_def Let_def cleanup_expired_locks_def split: option.split)

lemma lock_acquire_other:
  assumes "lock_holds H d key owner t" and "own \<noteq> owner" and "c1 \<le> t"
  shows "lock_holds H (snd (lock_acquire H dflt d k own ttl c1 c2)) key owner t"
proof (cases "lock_path H k = lock_path H key")
  case True
  with assms show ?thesis
    using lock_read_cong[OF True, of d] by (auto simp: lock_holds_def lock_acquire_cases Let_def)
next
  case False
  then show ?thesis using assms(1)
    by (auto simp: lock_holds_def lock_acquire_cases Let_def store_simps split: option.split)
qed

lemma lock_exec_holds:
  assumes "dir_ok d" and "lock_harmless H key owner t p" and "lock_holds H d key owner t"
  shows "lock_holds H (lock_exec H dflt p d) key owner t"
proof (cases p)
  case (LAcquire k own ttl c1 c2)
  then show ?thesis using assms lock_acquire_other by simp
next
  case (LRelease k own)
  then show ?thesis using assms lock_read_cong[of H k key d]
    by (auto simp: lock_holds_def lock_release_def store_simps split: option.split)
next
  case (LRefresh k own ttl c)
  then show ?thesis using assms lock_read_cong[of H k key d]
    by (auto simp: lock_holds_def lock_refresh_def lock_refresh_unlocked_def Let_def store_simps
        split: option.split)
next
  case (LCleanup now)
  then show ?thesis using assms lock_read_cleanup[OF assms(1)] by (force simp: lock_holds_def)
next
  case (LForce k)
  then show ?thesis using assms
    by (auto simp: lock_holds_def force_release_lock_def lock_read_def lock_files.read_unlink)
qed

interpretation file_lease: lease_lock
  "lock_holds H" "lock_acquire H dflt" lk_expires "lock_exec H dflt" "lock_harmless H" dir_ok
  for H dflt
proof unfold_locales
  fix d k ow ttl c1 c2 r d' t
  show "lock_acquire H dflt d k ow ttl c1 c2 = (Some r, d') \<Longrightarrow> t < lk_expires r
    \<Longrightarrow> lock_holds H d' k ow t"
    by (auto simp: lock_acquire_cases lock_holds_def Let_def store_simps split: option.splits if_splits)
next
  fix d k ow t ow' ttl t'
  show "lock_holds H d k ow t \<Longrightarrow> ow' \<noteq> ow \<Longrightarrow> lock_acquire H dflt d k ow' ttl t t' = (None, d)"
    by (auto simp: lock_acquire_cases lock_holds_def Let_def)
qed (simp_all add: lock_acquire_ok lock_exec_ok lock_exec_holds)

section \<open>Properties\<close>

text \<open>
  C37: leases exclude each other.  After owner ow was granted a key with a record that
  expires at lk_expires r, an acquire of the key by any other owner at a time t before that
  returns None and changes nothing, whatever acquires, releases and refreshes of other
  owners (on any keys, colliding digests included), clean-up passes and forced releases of
  other locks ran in between.
\<close>

theorem lock_lease_exclusive:
  assumes "dir_ok d" and "lock_acquire H dflt d key ow ttl c1 c2 = (Some r, d')"
    and "t < lk_expires r" and "\<forall>p \<in> set ops. lock_harmless H key ow t p" and "ow' \<noteq> ow"
  shows "lock_acquire H dflt (fold (lock_exec H dflt) ops d') key ow' ttl' t t' =
    (None, fold (lock_exec H dflt) ops d')"
  using assms by (rule file_lease.lease_exclusive)

theorem lock_lease_exclusive_witness:
  "lock_acquire id 30 (fold (lock_exec id 30)
      [LAcquire ''k'' ''b'' None 5 5, LRelease ''k'' ''b'', LCleanup 9]
      (snd (lock_acquire id 30 [] ''k'' ''a'' None 0 0))) ''k'' ''b'' None 10 10 =
    (None, fold (lock_exec id 30)
      [LAcquire ''k'' ''b'' None 5 5, LRelease ''k'' ''b'', LCleanup 9]
      (snd (lock_acquire id 30 [] ''k'' ''a'' None 0 0)))"
proof (rule lock_lease_exclusive)
  show "lock_acquire id 30 [] ''k'' ''a'' None 0 0 =
    (Some \<lparr>lk_key = ''k'', lk_owner = ''a'', lk_acquired = 0, lk_expires = 30000000\<rparr>,
     snd (lock_acquire id 30 [] ''k'' ''a'' None 0 0))"
    by (simp add: lock_acquire_def lock_read_def read_rec_def lock_ttl_def Let_def)
qed (simp_all add: dir_ok_def)

text \<open>
  Re-entrancy of the lease: an owner whose record is still on disk, expired or not, is
  granted the key again, keeps the time of its first acquisition and gets a new expiry, and
  one release then frees the key, however often it was acquired.
\<close>

theorem lock_acquire_reentrant:
  assumes "lock_read H d key = Some e" and "lk_owner e = owner"
  shows "\<exists>r d'. lock_acquire H dflt d key owner ttl c1 c2 = (Some r, d') \<and>
    lk_acquired r = lk_acquired e \<and> lk_expires r = c1 + seconds (lock_ttl dflt ttl) \<and>
    fst (lock_release H d' key owner) \<and>
    \<not> lock_is_locked H (snd (lock_release H d' key owner)) key t"
  using assms
  by (simp add: lock_acquire_cases Let_def lock_release_def store_simps lock_is_locked_def)

theorem lock_acquire_reentrant_witness:
  "\<exists>r d'. lock_acquire id 30 (lock_write id []
        \<lparr>lk_key = ''k'', lk_owner = ''a'', lk_acquired = 7, lk_expires = 8\<rparr>) ''k'' ''a'' None 9 9 =
      (Some r, d') \<and> lk_acquired r = 7 \<and> lk_expires r = 9 + seconds (lock_ttl 30 None) \<and>
    fst (lock_release id d' ''k'' ''a'') \<and>
    \<not> lock_is_locked id (snd (lock_release id d' ''k'' ''a'')) ''k'' 10"
  using lock_acquire_reentrant[of id "lock_write id [] \<lparr>lk_key = ''k'', lk_owner = ''a'', lk_acquired = 7, lk_expires = 8\<rparr>"
    "''k''" "\<lparr>lk_key = ''k'', lk_owner = ''a'', lk_acquired = 7, lk_expires = 8\<rparr>" "''a''" 30 None 9 9 10]
  by (simp add: lock_read_write)

end
