(* ===== verification/Session_Log.thy ===== *)
theory Session_Log
  imports File_Store
begin

text \<open>
  The session records of store/models.py and the append-only session log of
  store/filesystem/session.py.  A session is a file of one JSON record per line, named by
  the sanitised session identifier; two identifiers with the same sanitised form share a
  file.  Lines that do not decode are skipped.  Each operation runs under the asyncio lock
  of its session and is one step; what a crash in the middle of a write leaves behind is
  append_crash and replace_crash.
\<close>

section \<open>Records\<close>

datatype record_type =
    UserMessage | AssistantMessage | AssistantToolCall | ToolResult | SystemMessage
  | TurnSummary | TurnTerminal | CompactionSummary

fun rt_value :: "record_type \<Rightarrow> string" where
  "rt_value UserMessage = ''user_message''"
| "rt_value AssistantMessage = ''assistant_message''"
| "rt_value AssistantToolCall = ''assistant_tool_call''"
| "rt_value ToolResult = ''tool_result''"
| "rt_value SystemMessage = ''system_message''"
| "rt_value TurnSummary = ''turn_summary''"
| "rt_value TurnTerminal = ''turn_terminal''"
| "rt_value CompactionSummary = ''compaction_summary''"

definition all_record_types :: "record_type list" where
  "all_record_types = [UserMessage, AssistantMessage, AssistantToolCall, ToolResult,
     SystemMessage, TurnSummary, TurnTerminal, CompactionSummary]"

text \<open>SessionRecordType(s); None is ValueError.\<close>

definition rt_of_value :: "string \<Rightarrow> record_type option" where
  "rt_of_value s = List.find (\<lambda>t. rt_value t = s) all_record_types"

lemma rt_of_value [codec_simps, simp]: "rt_of_value (rt_value t) = Some t"
  by (cases t) (simp_all add: rt_of_value_def all_record_types_def)

datatype terminal_status =
    Completed | Failed | Cancelled | TimedOut | Interrupted | Degraded | Suspended

fun ts_value :: "terminal_status \<Rightarrow> string" where
  "ts_value Completed = ''completed''"
| "ts_value Failed = ''failed''"
| "ts_value Cancelled = ''cancelled''"
| "ts_value TimedOut = ''timed_out''"
| "ts_value Interrupted = ''interrupted''"
| "ts_value Degraded = ''degraded''"
| "ts_value Suspended = ''suspended''"

record session_record =
  sr_session :: string
  sr_seq :: int
  sr_event :: string
  sr_turn :: string
  sr_time :: time
  sr_type :: record_type
  sr_payload :: dict

definition session_path :: "string \<Rightarrow> string" where
  "session_path session_id = safe_id session_id @ ''.jsonl''"

definition serialize_record :: "session_record \<Rightarrow> dict" where
  "serialize_record r =
     [(''session_id'', PStr (sr_session r)), (''sequence'', PInt (sr_seq r)),
      (''event_id'', PStr (sr_event r)), (''turn_id'', PStr (sr_turn r)),
      (''timestamp'', PTime (sr_time r)), (''record_type'', PStr (rt_value (sr_type r))),
      (''payload'', PDict (sr_payload r))]"

definition deserialize_record :: "dict \<Rightarrow> session_record option" where
  "deserialize_record d =
     (case (as_str (dget d ''session_id''), as_int (dget d ''sequence''),
            as_str (dget d ''event_id''), as_str (dget d ''turn_id''),
            as_time (dget d ''timestamp''),
            Option.bind (as_str (dget d ''record_type'')) rt_of_value,
            as_dict (dget d ''payload'')) of
        (Some s, Some n, Some e, Some t, Some tm, Some ty, Some p) \<Rightarrow>
          Some \<lparr>sr_session = s, sr_seq = n, sr_event = e, sr_turn = t, sr_time = tm,
                sr_type = ty, sr_payload = p\<rparr>
      | _ \<Rightarrow> None)"

lemma deserialize_serialize [codec_simps, simp]: "deserialize_record (serialize_record r) = Some r"
  by (simp add: deserialize_record_def serialize_record_def)

section \<open>The store\<close>

type_synonym sessions = "log_file dir"

text \<open>The records of a file in the order of its lines.\<close>

definition log_records :: "log_file \<Rightarrow> session_record list" where
  "log_records f = List.map_filter (decode deserialize_record) (log_lines f)"

definition read_all_records :: "sessions \<Rightarrow> string \<Rightarrow> session_record list" where
  "read_all_records d sid =
     (case map_of d (session_path sid) of
        None \<Rightarrow> [] | Some f \<Rightarrow> py_sorted sr_seq (log_records f))"

definition write_lines :: "sessions \<Rightarrow> string \<Rightarrow> session_record list \<Rightarrow> sessions" where
  "write_lines d sid rs =
     AList.update (session_path sid)
       (file_append_lines (map serialize_record rs) (map_of d (session_path sid))) d"

text \<open>The loop of append: skip known event ids, number the others.\<close>

fun assign_new :: "string set \<Rightarrow> int \<Rightarrow> session_record list \<Rightarrow> session_record list" where
  "assign_new ids n [] = []"
| "assign_new ids n (r # rs) =
     (if sr_event r \<in> ids then assign_new ids n rs
      else r\<lparr>sr_seq := n\<rparr> # assign_new (insert (sr_event r) ids) (n + 1) rs)"

definition next_seq :: "session_record list \<Rightarrow> int" where
  "next_seq rs = (if rs = [] then 0 else sr_seq (last rs) + 1)"

definition one_session :: "session_record list \<Rightarrow> bool" where
  "one_session rs = (\<forall>r \<in> set rs. sr_session r = sr_session (hd rs))"

definition session_append :: "session_record list \<Rightarrow> sessions \<Rightarrow> (exn + unit) \<times> sessions" where
  "session_append rs d =
     (if rs = [] then (Inr (), d)
      else if \<not> one_session rs
      then (Inl (ValueError ''All records must have the same session_id''), d)
      else
        (let sid = sr_session (hd rs);
             existing = read_all_records d sid;
             new = assign_new (sr_event ` set existing) (next_seq existing) rs
         in if new = [] then (Inr (), d) else (Inr (), write_lines d sid new)))"

definition session_append_raw :: "session_record list \<Rightarrow> sessions \<Rightarrow> (exn + unit) \<times> sessions" where
  "session_append_raw rs d =
     (if rs = [] then (Inr (), d)
      else if \<not> one_session rs
      then (Inl (ValueError ''All records must have the same session_id''), d)
      else (Inr (), write_lines d (sr_session (hd rs)) rs))"

definition read_session :: "sessions \<Rightarrow> string \<Rightarrow> session_record list" where
  "read_session d sid = read_all_records d sid"

definition read_window :: "sessions \<Rightarrow> string \<Rightarrow> int \<Rightarrow> session_record list" where
  "read_window d sid n =
     (let rs = read_session d sid
      in if n \<ge> int (length rs) then rs else slice_from rs (- n))"

definition get_next_sequence :: "sessions \<Rightarrow> string \<Rightarrow> int" where
  "get_next_sequence d sid =
     (let rs = read_session d sid in if rs = [] then 0 else sr_seq (last rs) + 1)"

definition session_exists :: "sessions \<Rightarrow> string \<Rightarrow> bool" where
  "session_exists d sid = file_exists session_path d sid"

definition first_session_id :: "string \<times> log_file \<Rightarrow> string option" where
  "first_session_id e =
     (if suffix ''.jsonl'' (fst e) then
        (case log_lines (snd e) of
           [] \<Rightarrow> None
         | l # _ \<Rightarrow> map_option sr_session (decode deserialize_record l))
      else None)"

definition list_sessions :: "sessions \<Rightarrow> string list" where
  "list_sessions d = List.map_filter first_session_id d"

definition clear_session :: "sessions \<Rightarrow> string \<Rightarrow> bool \<times> sessions" where
  "clear_session d sid =
     (if file_exists session_path d sid then (True, unlink session_path d sid) else (False, d))"

definition fresh_log :: "session_record list \<Rightarrow> log_file" where
  "fresh_log rs = \<lparr>log_lines = map (Obj \<circ> serialize_record) rs, log_torn = False\<rparr>"

text \<open>
  replace_session writes a temporary file .tmp_*.jsonl and renames it; an exception removes
  it again.  A crash before the rename leaves the temporary file with the first k lines.
\<close>

definition replace_session :: "string \<Rightarrow> session_record list \<Rightarrow> sessions \<Rightarrow> sessions" where
  "replace_session sid rs d = AList.update (session_path sid) (fresh_log rs) d"

definition replace_crash :: "string \<Rightarrow> nat \<Rightarrow> session_record list \<Rightarrow> sessions \<Rightarrow> sessions" where
  "replace_crash tmp k rs d = AList.update (''.tmp_'' @ tmp @ ''.jsonl'') (fresh_log (take k rs)) d"

record session_info =
  si_session :: string
  si_count :: nat
  si_first :: time
  si_last :: time
  si_last_seq :: int

definition get_session_metadata :: "sessions \<Rightarrow> string \<Rightarrow> session_info option" where
  "get_session_metadata d sid =
     (case read_session d sid of
        [] \<Rightarrow> None
      | r # rs \<Rightarrow>
          Some \<lparr>si_session = sid, si_count = length (r # rs), si_first = sr_time r,
                si_last = sr_time (last (r # rs)), si_last_seq = sr_seq (last (r # rs))\<rparr>)"

section \<open>The loop of append\<close>

lemma assign_new_seqs:
  "map sr_seq (assign_new ids n rs) = [n .. n + int (length (assign_new ids n rs)) - 1]"
  by (induction ids n rs rule: assign_new.induct) (simp_all add: upto_rec1 add.assoc)

lemma assign_new_fresh:
  "r \<in> set (assign_new ids n rs) \<Longrightarrow> sr_event r \<notin> ids"
  by (induction ids n rs rule: assign_new.induct) (auto split: if_splits)

lemma assign_new_disjoint: "sr_event ` set (assign_new ids n rs) \<inter> ids = {}"
  using assign_new_fresh by auto

lemma assign_new_distinct: "distinct (map sr_event (assign_new ids n rs))"
  by (induction ids n rs rule: assign_new.induct) (auto dest: assign_new_fresh)

lemma assign_new_known: "sr_event ` set rs \<subseteq> ids \<Longrightarrow> assign_new ids n rs = []"
  by (induction ids n rs rule: assign_new.induct) auto

lemma assign_new_events:
  "r \<in> set rs \<Longrightarrow> sr_event r \<in> ids \<union> sr_event ` set (assign_new ids n rs)"
  by (induction ids n rs rule: assign_new.induct) auto

lemma assign_new_from:
  "r \<in> set (assign_new ids n rs) \<Longrightarrow> \<exists>r0 \<in> set rs. \<exists>m. r = r0\<lparr>sr_seq := m\<rparr>"
  by (induction ids n rs rule: assign_new.induct) (auto split: if_splits)

lemma assign_new_all:
  assumes "distinct (map sr_event rs)" and "sr_event ` set rs \<inter> ids = {}"
  shows "map (sr_seq_update (\<lambda>_. 0)) (assign_new ids n rs) = map (sr_seq_update (\<lambda>_. 0)) rs"
  using assms by (induction ids n rs rule: assign_new.induct) auto

section \<open>Invariant of a log\<close>

text \<open>Sequence numbers increase along the file and no event is stored twice.\<close>

definition recs_ok :: "session_record list \<Rightarrow> bool" where
  "recs_ok rs = (sorted_wrt (<) (map sr_seq rs) \<and> distinct (map sr_event rs))"

definition sessions_wf :: "sessions \<Rightarrow> bool" where
  "sessions_wf d = (\<forall>f \<in> snd ` set d. recs_ok (log_records f))"

text \<open>Every log file ends in a newline, as it does unless a write was cut short.\<close>

definition sessions_healthy :: "sessions \<Rightarrow> bool" where
  "sessions_healthy d = (\<forall>f \<in> snd ` set d. log_ok f)"

definition stored :: "sessions \<Rightarrow> string \<Rightarrow> session_record list" where
  "stored d sid = (case map_of d (session_path sid) of None \<Rightarrow> [] | Some f \<Rightarrow> log_records f)"

lemma subseq_set: "subseq xs ys \<Longrightarrow> set xs \<subseteq> set ys"
  by (induction rule: list_emb.induct) auto

lemma recs_ok_Nil [simp]: "recs_ok []"
  by (simp add: recs_ok_def)

lemma recs_ok_subseq: "subseq xs ys \<Longrightarrow> recs_ok ys \<Longrightarrow> recs_ok xs"
proof (induction rule: list_emb.induct)
  case (list_emb_Cons2 x y xs ys)
  then show ?case using subseq_set[of xs ys] by (auto simp: recs_ok_def)
qed (auto simp: recs_ok_def)

lemma recs_ok_sorted: "recs_ok rs \<Longrightarrow> py_sorted sr_seq rs = rs"
  by (rule py_sorted_id) (auto simp: recs_ok_def intro: strict_sorted_imp_sorted)

lemma recs_ok_append_new:
  assumes "recs_ok rs" and "\<forall>r \<in> set rs. sr_seq r < n"
  shows "recs_ok (rs @ assign_new (sr_event ` set rs) n new)"
proof -
  let ?new = "assign_new (sr_event ` set rs) n new"
  have ge: "sr_seq x \<ge> n" if "x \<in> set ?new" for x
  proof -
    have "sr_seq x \<in> set (map sr_seq ?new)" using that by simp
    then show ?thesis unfolding assign_new_seqs by simp
  qed
  have sorted: "sorted_wrt (<) (map sr_seq ?new)"
    unfolding assign_new_seqs by (rule sorted_wrt_upto)
  have cross: "\<forall>x \<in> set (map sr_seq rs). \<forall>y \<in> set (map sr_seq ?new). x < y"
    using assms(2) ge by fastforce
  have disj: "set (map sr_event rs) \<inter> set (map sr_event ?new) = {}"
    using assign_new_disjoint[of "sr_event ` set rs" n new] by (simp add: Int_commute)
  from sorted cross disj show ?thesis
    using assms(1) assign_new_distinct[of "sr_event ` set rs" n new]
    unfolding recs_ok_def map_append sorted_wrt_append distinct_append by blast
qed

lemma next_seq_bound: "recs_ok rs \<Longrightarrow> \<forall>r \<in> set rs. sr_seq r < next_seq rs"
  by (cases rs rule: rev_cases) (fastforce simp: recs_ok_def next_seq_def sorted_wrt_append)+

lemma wf_stored: "sessions_wf d \<Longrightarrow> recs_ok (stored d sid)"
  by (auto simp: sessions_wf_def stored_def split: option.split dest: map_of_in_values)

lemma wf_read: "sessions_wf d \<Longrightarrow> read_all_records d sid = stored d sid"
  using wf_stored[of d sid] recs_ok_sorted
  by (auto simp: read_all_records_def stored_def split: option.splits)

lemma values_update: "snd ` set (AList.update k v al) \<subseteq> insert v (snd ` set al)"
  by (induction al) auto

lemma wf_update:
  "sessions_wf d \<Longrightarrow> recs_ok (log_records f) \<Longrightarrow> sessions_wf (AList.update p f d)"
  using values_update[of p f d] unfolding sessions_wf_def by blast

lemma healthy_update:
  "sessions_healthy d \<Longrightarrow> log_ok f \<Longrightarrow> sessions_healthy (AList.update p f d)"
  using values_update[of p f d] unfolding sessions_healthy_def by blast

section \<open>Writing lines\<close>

lemma log_records_lines [simp]:
  "List.map_filter (decode deserialize_record) (map (Obj \<circ> serialize_record) rs) = rs"
  by (rule map_filter_map_Some) simp

lemma log_records_map_map [simp]:
  "List.map_filter (decode deserialize_record) (map Obj (map serialize_record rs)) = rs"
  using log_records_lines[of rs] by (simp only: list.map_comp)

lemma log_records_fresh [simp]: "log_records (fresh_log rs) = rs"
  by (simp add: log_records_def fresh_log_def)

text \<open>
  Lines written after a complete line are read back; written after a torn line, the first
  of them and the torn line are lost.
\<close>

lemma log_records_append:
  "log_records (file_append_lines (map serialize_record rs) f) =
     (case f of
        None \<Rightarrow> rs
      | Some g \<Rightarrow>
          if log_torn g \<and> log_lines g \<noteq> [] \<and> rs \<noteq> []
          then log_records \<lparr>log_lines = butlast (log_lines g), log_torn = False\<rparr> @ tl rs
          else log_records g @ rs)"
proof -
  have "List.map_filter (decode deserialize_record) (NotJson # map Obj (tl (map serialize_record rs))) = tl rs"
    using log_records_map_map[of "tl rs"] by (simp add: map_filter_Cons map_tl)
  then show ?thesis
    using log_records_map_map[of rs]
    by (auto simp: log_records_def file_append_lines_def split: option.split)
qed

lemma subseq_append_records:
  "subseq (log_records (file_append_lines (map serialize_record rs) f))
     ((case f of None \<Rightarrow> [] | Some g \<Rightarrow> log_records g) @ rs)"
proof (cases f)
  case (Some g)
  have "subseq (log_records \<lparr>log_lines = butlast (log_lines g), log_torn = False\<rparr>) (log_records g)"
    if "log_lines g \<noteq> []"
  proof -
    have "log_lines g = butlast (log_lines g) @ [last (log_lines g)]" using that by simp
    then have "log_records g = log_records \<lparr>log_lines = butlast (log_lines g), log_torn = False\<rparr>
        @ List.map_filter (decode deserialize_record) [last (log_lines g)]"
      unfolding log_records_def by (metis map_filter_append log_file.select_convs(1))
    then show ?thesis by (metis prefixI prefix_imp_subseq)
  qed
  moreover have "subseq (tl rs) rs" by (cases rs) auto
  ultimately show ?thesis
    using Some by (auto simp: log_records_append intro: list_emb_append_mono)
qed (simp add: log_records_append)

lemma stored_write_lines:
  "stored (write_lines d sid rs) sid' =
     (if session_path sid = session_path sid'
      then log_records (file_append_lines (map serialize_record rs) (map_of d (session_path sid)))
      else stored d sid')"
  by (simp add: stored_def write_lines_def alist_simps)

lemma stored_write_healthy [store_simps]:
  assumes "sessions_healthy d"
  shows "stored (write_lines d sid rs) sid' =
    (if session_path sid = session_path sid' then stored d sid' @ rs else stored d sid')"
proof -
  have "log_ok f" if "map_of d (session_path sid) = Some f" for f
    using assms that by (auto simp: sessions_healthy_def dest: map_of_in_values)
  then have "session_path sid = session_path sid' \<Longrightarrow>
      log_records (file_append_lines (map serialize_record rs) (map_of d (session_path sid)))
        = stored d sid' @ rs"
    by (auto simp: log_records_append log_ok_def stored_def split: option.split)
  then show ?thesis by (simp add: stored_write_lines)
qed

lemma healthy_write_lines: "sessions_healthy d \<Longrightarrow> rs \<noteq> [] \<Longrightarrow> sessions_healthy (write_lines d sid rs)"
  unfolding write_lines_def by (intro healthy_update log_ok_append) auto

lemma wf_write_lines:
  assumes "sessions_wf d" and "recs_ok (stored d sid @ rs)"
  shows "sessions_wf (write_lines d sid rs)"
  unfolding write_lines_def
proof (rule wf_update)
  show "recs_ok (log_records (file_append_lines (map serialize_record rs) (map_of d (session_path sid))))"
    using subseq_append_records assms(2) unfolding stored_def by (rule recs_ok_subseq)
qed fact

section \<open>Operations on a well-formed store\<close>

lemma append_cases:
  "session_append rs d =
     (if rs = [] then (Inr (), d)
      else if \<not> one_session rs
      then (Inl (ValueError ''All records must have the same session_id''), d)
      else
        (let sid = sr_session (hd rs);
             new = assign_new (sr_event ` set (read_all_records d sid))
                     (next_seq (read_all_records d sid)) rs
         in (Inr (), if new = [] then d else write_lines d sid new)))"
  by (simp add: session_append_def Let_def)

lemma wf_append: "sessions_wf d \<Longrightarrow> sessions_wf (snd (session_append rs d))"
  by (auto simp: append_cases Let_def wf_read intro!: wf_write_lines recs_ok_append_new
      next_seq_bound wf_stored)

lemma healthy_append: "sessions_healthy d \<Longrightarrow> sessions_healthy (snd (session_append rs d))"
  by (auto simp: append_cases Let_def intro: healthy_write_lines)

text \<open>What a successful append adds to the session's records.\<close>

definition appended :: "session_record list \<Rightarrow> sessions \<Rightarrow> session_record list" where
  "appended rs d =
     (let old = stored d (sr_session (hd rs))
      in if rs = [] \<or> \<not> one_session rs then [] else assign_new (sr_event ` set old) (next_seq old) rs)"

lemma stored_append:
  assumes "sessions_wf d" and "sessions_healthy d"
  shows "stored (snd (session_append rs d)) sid =
    stored d sid @ (if session_path (sr_session (hd rs)) = session_path sid then appended rs d else [])"
  using assms by (simp add: append_cases appended_def Let_def wf_read store_simps)

lemma stored_cong: "session_path a = session_path b \<Longrightarrow> stored d a = stored d b"
  by (simp add: stored_def)

lemma appended_known:
  assumes "one_session rs" and "sr_event ` set rs \<subseteq> sr_event ` set (stored d (sr_session (hd rs)))"
  shows "appended rs d = []"
  using assms by (simp add: appended_def Let_def assign_new_known)

lemma append_known:
  assumes "sessions_wf d" and "one_session rs"
    and "sr_event ` set rs \<subseteq> sr_event ` set (stored d (sr_session (hd rs)))"
  shows "session_append rs d = (Inr (), d)"
  using assms by (simp add: append_cases Let_def wf_read assign_new_known)

lemma stored_append_events:
  assumes "sessions_wf d" and "sessions_healthy d" and "one_session rs" and "rs \<noteq> []"
  shows "sr_event ` set (stored (snd (session_append rs d)) (sr_session (hd rs))) =
    sr_event ` set (stored d (sr_session (hd rs))) \<union> sr_event ` set rs"
proof -
  let ?old = "stored d (sr_session (hd rs))"
  let ?new = "assign_new (sr_event ` set ?old) (next_seq ?old) rs"
  have "sr_event ` set ?new \<subseteq> sr_event ` set rs"
    by (auto dest!: assign_new_from)
  moreover have "sr_event ` set rs \<subseteq> sr_event ` set ?old \<union> sr_event ` set ?new"
    using assign_new_events[of _ rs "sr_event ` set ?old" "next_seq ?old"] by blast
  ultimately show ?thesis
    using assms by (auto simp: stored_append appended_def Let_def)
qed

section \<open>The interface of an event log\<close>

text \<open>
  What the clients of the session store rely on: an append only adds at the end, stores no
  event twice, and appending events the log has is a no-op, so that an append can be
  repeated after a failure.
\<close>

locale event_log =
  fixes records :: "'s \<Rightarrow> 'k \<Rightarrow> 'r list"
    and put :: "'r list \<Rightarrow> 's \<Rightarrow> 's"
    and batch :: "'k \<Rightarrow> 'r list \<Rightarrow> bool"
    and event :: "'r \<Rightarrow> 'e"
    and good :: "'s \<Rightarrow> bool"
  assumes put_good: "good s \<Longrightarrow> good (put rs s)"
    and put_extends: "good s \<Longrightarrow> \<exists>new. records (put rs s) k = records s k @ new"
    and put_events: "good s \<Longrightarrow> batch k rs \<Longrightarrow> event ` set rs \<subseteq> event ` set (records (put rs s) k)"
    and put_known: "good s \<Longrightarrow> batch k rs \<Longrightarrow> event ` set rs \<subseteq> event ` set (records s k) \<Longrightarrow> put rs s = s"
    and good_distinct: "good s \<Longrightarrow> distinct (map event (records s k))"
begin

lemma run_good: "good s \<Longrightarrow> good (fold put bs s)"
  by (induction bs arbitrary: s) (simp_all add: put_good)

lemma run_extends: "good s \<Longrightarrow> \<exists>new. records (fold put bs s) k = records s k @ new"
proof (induction bs arbitrary: s)
  case (Cons b bs)
  obtain n1 where "records (put b s) k = records s k @ n1" using put_extends Cons.prems by blast
  moreover obtain n2 where "records (fold put bs (put b s)) k = records (put b s) k @ n2"
    using Cons.IH Cons.prems put_good by blast
  ultimately show ?case by simp
qed simp

lemma retry_noop:
  assumes "good s" and "batch k rs"
  shows "put rs (fold put bs (put rs s)) = fold put bs (put rs s)"
proof (rule put_known[where k = k])
  have g: "good (put rs s)" using assms(1) by (rule put_good)
  obtain new where "records (fold put bs (put rs s)) k = records (put rs s) k @ new"
    using run_extends[OF g] by blast
  then show "event ` set rs \<subseteq> event ` set (records (fold put bs (put rs s)) k)"
    using put_events[OF assms] by auto
  show "good (fold put bs (put rs s))" using g by (rule run_good)
qed fact

end

definition session_put :: "session_record list \<Rightarrow> sessions \<Rightarrow> sessions" where
  "session_put rs d = snd (session_append rs d)"

definition batch_of :: "string \<Rightarrow> session_record list \<Rightarrow> bool" where
  "batch_of sid rs = (\<forall>r \<in> set rs. sr_session r = sid)"

lemma batch_one: "batch_of sid rs \<Longrightarrow> rs \<noteq> [] \<Longrightarrow> one_session rs \<and> sr_session (hd rs) = sid"
  by (simp add: batch_of_def one_session_def)

interpretation session_log: event_log stored session_put batch_of sr_event
  "\<lambda>d. sessions_wf d \<and> sessions_healthy d"
proof unfold_locales
  fix d rs sid
  assume d: "sessions_wf d \<and> sessions_healthy d"
  show "sessions_wf (session_put rs d) \<and> sessions_healthy (session_put rs d)"
    using d by (simp add: session_put_def wf_append healthy_append)
  show "\<exists>new. stored (session_put rs d) sid = stored d sid @ new"
    using d by (simp add: session_put_def stored_append)
  show "distinct (map sr_event (stored d sid))"
    using d wf_stored by (simp add: recs_ok_def)
  assume b: "batch_of sid rs"
  show "sr_event ` set rs \<subseteq> sr_event ` set (stored (session_put rs d) sid)"
    using d batch_one[OF b] stored_append_events[of d rs] by (cases "rs = []") (auto simp: session_put_def)
  assume "sr_event ` set rs \<subseteq> sr_event ` set (stored d sid)"
  then show "session_put rs d = d"
    using d batch_one[OF b] append_known[of d rs]
    by (cases "rs = []") (auto simp: session_put_def append_cases)
qed

section \<open>Reachable stores\<close>

text \<open>
  All that happens to the session directory: appends, appends cut short by a crash, rewrites
  with records in order (the compaction of a session), rewrites cut short, and clears.
\<close>

definition crash_append :: "session_record list \<Rightarrow> nat \<Rightarrow> torn_tail \<Rightarrow> sessions \<Rightarrow> sessions" where
  "crash_append rs k tail d =
     (let sid = sr_session (hd rs);
          new = assign_new (sr_event ` set (read_all_records d sid))
                  (next_seq (read_all_records d sid)) rs
      in AList.update (session_path sid)
           (append_crash (map serialize_record new) k tail (map_of d (session_path sid))) d)"

inductive session_step :: "sessions \<Rightarrow> sessions \<Rightarrow> bool" where
  step_append: "session_step d (session_put rs d)"
| step_crash: "one_session rs \<Longrightarrow> rs \<noteq> [] \<Longrightarrow>
     k < length (assign_new (sr_event ` set (read_all_records d (sr_session (hd rs))))
           (next_seq (read_all_records d (sr_session (hd rs)))) rs) \<Longrightarrow>
     session_step d (crash_append rs k tail d)"
| step_replace: "recs_ok rs \<Longrightarrow> session_step d (replace_session sid rs d)"
| step_replace_crash: "recs_ok rs \<Longrightarrow> session_step d (replace_crash tmp k rs d)"
| step_clear: "session_step d (snd (clear_session d sid))"

inductive_cases session_step_E: "session_step d d'"

lemma log_records_torn_with:
  "subseq (log_records (torn_with l g)) (log_records g @ List.map_filter (decode deserialize_record) [l])"
proof (cases "log_torn g \<and> log_lines g \<noteq> []")
  case True
  then have "log_lines g = butlast (log_lines g) @ [last (log_lines g)]" by simp
  then have "log_records g = List.map_filter (decode deserialize_record) (butlast (log_lines g))
      @ List.map_filter (decode deserialize_record) [last (log_lines g)]"
    unfolding log_records_def by (metis map_filter_append)
  moreover have "log_records (torn_with l g) =
      List.map_filter (decode deserialize_record) (butlast (log_lines g))"
    using True by (simp add: torn_with_def log_records_def map_filter_Cons map_filter_Nil)
  ultimately have "prefix (log_records (torn_with l g))
      (log_records g @ List.map_filter (decode deserialize_record) [l])"
    by (simp only: append.assoc prefix_def) blast
  then show ?thesis by (rule prefix_imp_subseq)
next
  case False
  then show ?thesis by (auto simp: torn_with_def log_records_def)
qed

text \<open>Whatever a cut append leaves is a part of what the whole append would have left.\<close>

lemma subseq_append_crash:
  assumes "k < length rs"
  shows "subseq (log_records (append_crash (map serialize_record rs) k tail f))
    ((case f of None \<Rightarrow> [] | Some g \<Rightarrow> log_records g) @ rs)"
proof -
  let ?old = "case f of None \<Rightarrow> [] | Some g \<Rightarrow> log_records g"
  let ?g = "file_append_lines (map serialize_record (take k rs)) f"
  have g: "subseq (log_records ?g) (?old @ take k rs)" by (rule subseq_append_records)
  have rs: "rs = take k rs @ rs ! k # drop (Suc k) rs"
    using assms by (simp add: id_take_nth_drop)
  have tail: "subseq (log_records ?g @ xs) (?old @ rs)" if "xs = [] \<or> xs = [rs ! k]" for xs
  proof -
    have "subseq xs (rs ! k # drop (Suc k) rs)" using that by auto
    then have "subseq (log_records ?g @ xs) ((?old @ take k rs) @ (rs ! k # drop (Suc k) rs))"
      by (rule list_emb_append_mono[OF g])
    then show ?thesis by (metis append.assoc rs)
  qed
  show ?thesis
  proof (cases tail)
    case CleanCut
    then show ?thesis using tail[of "[]"] by (simp add: append_crash_def Let_def take_map)
  next
    case TornPart
    then show ?thesis
      using subseq_order.trans[OF log_records_torn_with[of NotJson ?g]] tail[of "[]"]
      by (simp add: append_crash_def Let_def take_map map_filter_Cons map_filter_Nil)
  next
    case TornWhole
    then show ?thesis
      using subseq_order.trans[OF log_records_torn_with[of "Obj (serialize_record (rs ! k))" ?g]]
        tail[of "[rs ! k]"] assms
      by (simp add: append_crash_def Let_def take_map map_filter_Cons map_filter_Nil)
  qed
qed

lemma wf_step: "session_step d d' \<Longrightarrow> sessions_wf d \<Longrightarrow> sessions_wf d'"
proof (induction rule: session_step.induct)
  case (step_append d rs)
  then show ?case by (simp add: session_put_def wf_append)
next
  case (step_crash rs k d tail)
  let ?old = "stored d (sr_session (hd rs))"
  let ?new = "assign_new (sr_event ` set ?old) (next_seq ?old) rs"
  have "recs_ok (?old @ ?new)"
    using step_crash.prems by (intro recs_ok_append_new next_seq_bound wf_stored)
  moreover have "subseq (log_records (append_crash (map serialize_record ?new) k tail
      (map_of d (session_path (sr_session (hd rs)))))) (?old @ ?new)"
    using subseq_append_crash[of k ?new tail "map_of d (session_path (sr_session (hd rs)))"]
      step_crash by (simp add: wf_read stored_def)
  ultimately show ?case
    using step_crash.prems
    by (auto simp: crash_append_def Let_def wf_read intro: wf_update recs_ok_subseq)
next
  case (step_replace rs d sid)
  then show ?case by (simp add: replace_session_def wf_update)
next
  case (step_replace_crash rs d tmp k)
  have "subseq (take k rs) rs" by (simp add: prefix_imp_subseq take_is_prefix)
  with step_replace_crash have "recs_ok (take k rs)" by (blast intro: recs_ok_subseq)
  with step_replace_crash show ?case unfolding replace_crash_def by (intro wf_update) simp_all
next
  case (step_clear d sid)
  have "sessions_wf (AList.delete p d)" for p
    using step_clear by (auto simp: sessions_wf_def AList.delete_eq)
  then show ?case using step_clear by (simp add: clear_session_def unlink_def)
qed

section \<open>Properties\<close>

text \<open>
  C34: the log of a session stays consistent.  In every store reachable from the empty one by
  appends, appends and rewrites cut short at any byte, rewrites with ordered records and
  clears, read_session returns records with strictly increasing sequence numbers and
  pairwise different event ids, and get_next_sequence is above all of them.
\<close>

theorem session_reachable_consistent:
  assumes "session_step\<^sup>*\<^sup>* [] d"
  shows "sorted_wrt (<) (map sr_seq (read_session d sid)) \<and>
    distinct (map sr_event (read_session d sid)) \<and>
    list_all (\<lambda>r. sr_seq r < get_next_sequence d sid) (read_session d sid)"
proof -
  have "sessions_wf d"
    using assms by (induction rule: rtranclp_induct) (auto simp: sessions_wf_def[of "[]"] intro: wf_step)
  then have "read_session d sid = stored d sid" and "recs_ok (stored d sid)"
    by (simp_all add: read_session_def wf_read wf_stored)
  then show ?thesis
    using next_seq_bound[of "stored d sid"]
    by (simp add: recs_ok_def get_next_sequence_def next_seq_def list_all_iff Let_def)
qed

theorem session_reachable_consistent_witness:
  "distinct (map sr_event (read_session (session_put
     [\<lparr>sr_session = ''s'', sr_seq = 9, sr_event = ''e'', sr_turn = ''t'', sr_time = 0,
       sr_type = UserMessage, sr_payload = []\<rparr>] []) ''s''))"
proof -
  have "session_step\<^sup>*\<^sup>* [] (session_put rs [])" for rs
    by (rule r_into_rtranclp) (rule step_append)
  then show ?thesis using session_reachable_consistent by blast
qed

text \<open>
  append is idempotent.  On a store whose files end in newlines, a batch appended a
  second time, after any appends to any session in between, changes nothing, so a turn
  whose persistence is retried is stored once.
\<close>

theorem session_append_retry:
  assumes "sessions_wf d" and "sessions_healthy d" and "batch_of sid rs"
  shows "session_put rs (fold session_put bs (session_put rs d)) = fold session_put bs (session_put rs d)"
  using session_log.retry_noop[of d sid rs bs] assms by simp

theorem session_append_retry_witness:
  "session_put [\<lparr>sr_session = ''s'', sr_seq = 0, sr_event = ''e'', sr_turn = ''t'', sr_time = 0,
       sr_type = UserMessage, sr_payload = []\<rparr>] (fold session_put [] (session_put
     [\<lparr>sr_session = ''s'', sr_seq = 0, sr_event = ''e'', sr_turn = ''t'', sr_time = 0,
       sr_type = UserMessage, sr_payload = []\<rparr>] [])) =
   fold session_put [] (session_put
     [\<lparr>sr_session = ''s'', sr_seq = 0, sr_event = ''e'', sr_turn = ''t'', sr_time = 0,
       sr_type = UserMessage, sr_payload = []\<rparr>] [])"
  by (rule session_append_retry[where sid = "''s''"])
    (simp_all add: sessions_wf_def sessions_healthy_def batch_of_def)

text \<open>
  The abstract log: a set-like sequence of events without numbers, to which a batch adds
  the events it does not have yet, in order.
\<close>

definition spec_add :: "session_record list \<Rightarrow> session_record \<Rightarrow> session_record list" where
  "spec_add l r = (if sr_event r \<in> sr_event ` set l then l else l @ [r])"

abbreviation unnumbered :: "session_record \<Rightarrow> session_record" where
  "unnumbered \<equiv> sr_seq_update (\<lambda>_. 0)"

lemma event_unnumbered [simp]: "sr_event ` unnumbered ` A = sr_event ` A"
  by (simp add: image_image)

lemma assign_new_refines:
  "map unnumbered (old @ assign_new (sr_event ` set old) n rs) =
     foldl spec_add (map unnumbered old) (map unnumbered rs)"
proof (induction rs arbitrary: old n)
  case (Cons r rs)
  show ?case
  proof (cases "sr_event r \<in> sr_event ` set old")
    case True
    then show ?thesis using Cons.IH[of old n] by (simp add: spec_add_def)
  next
    case False
    then show ?thesis using Cons.IH[of "old @ [r\<lparr>sr_seq := n\<rparr>]" "n + 1"]
      by (simp add: spec_add_def)
  qed
qed simp

text \<open>
  C38: append implements the abstract log.  Assume that in every session file the sequence
  numbers increase and no event is stored twice, as appends keep it, and that every session file
  ends in a newline, as it does unless a write was cut short (after such a write the next append
  loses its first record).
  Reading the session afterwards gives the old
  records unchanged, followed by new ones that are numbered consecutively from the next
  sequence number; without the numbers the result is that of adding the batch to the abstract
  log.  A batch that mixes sessions raises ValueError and changes nothing.
\<close>

theorem session_append_refines:
  assumes "sessions_wf d" and "sessions_healthy d" and "rs \<noteq> []"
  shows "if one_session rs then
      (\<exists>new. read_session (session_put rs d) (sr_session (hd rs)) =
          read_session d (sr_session (hd rs)) @ new \<and>
        map sr_seq new = [get_next_sequence d (sr_session (hd rs)) ..
          get_next_sequence d (sr_session (hd rs)) + int (length new) - 1]) \<and>
      map unnumbered (read_session (session_put rs d) (sr_session (hd rs))) =
        foldl spec_add (map unnumbered (read_session d (sr_session (hd rs)))) (map unnumbered rs)
    else session_append rs d = (Inl (ValueError ''All records must have the same session_id''), d)"
proof (cases "one_session rs")
  case True
  let ?old = "stored d (sr_session (hd rs))"
  let ?new = "assign_new (sr_event ` set ?old) (next_seq ?old) rs"
  have read: "read_session (session_put rs d) (sr_session (hd rs)) = ?old @ ?new"
    using assms True
    by (simp add: read_session_def wf_read wf_append session_put_def stored_append appended_def Let_def)
  moreover have "map sr_seq ?new = [get_next_sequence d (sr_session (hd rs)) ..
      get_next_sequence d (sr_session (hd rs)) + int (length ?new) - 1]"
    unfolding assign_new_seqs
    using assms(1) by (simp add: get_next_sequence_def read_session_def wf_read next_seq_def Let_def)
  ultimately show ?thesis
    using True assms(1) assign_new_refines[of ?old "next_seq ?old" rs]
    by (auto simp: read_session_def wf_read)
qed (use assms in \<open>simp add: append_cases\<close>)

theorem session_append_refines_witness:
  "map unnumbered (read_session (session_put
     [\<lparr>sr_session = ''s'', sr_seq = 0, sr_event = ''e'', sr_turn = ''t'', sr_time = 0,
       sr_type = UserMessage, sr_payload = []\<rparr>] []) ''s'') =
   foldl spec_add (map unnumbered (read_session [] ''s''))
     (map unnumbered [\<lparr>sr_session = ''s'', sr_seq = 0, sr_event = ''e'', sr_turn = ''t'', sr_time = 0,
       sr_type = UserMessage, sr_payload = []\<rparr>])"
  using session_append_refines[of "[]" "[\<lparr>sr_session = ''s'', sr_seq = 0, sr_event = ''e'',
       sr_turn = ''t'', sr_time = 0, sr_type = UserMessage, sr_payload = []\<rparr>]"]
  by (simp add: sessions_wf_def sessions_healthy_def one_session_def)

text \<open>What a write cut in the middle of a line does to the next append.\<close>

lemma stored_crash_torn:
  assumes "sessions_wf d" and "sessions_healthy d" and "one_session rs" and "rs \<noteq> []"
  shows "map_of (crash_append rs k TornPart d) (session_path (sr_session (hd rs))) =
    Some \<lparr>log_lines = (case map_of d (session_path (sr_session (hd rs))) of None \<Rightarrow> [] | Some f \<Rightarrow> log_lines f)
      @ map (Obj \<circ> serialize_record) (take k (appended rs d)) @ [NotJson], log_torn = True\<rparr>"
proof -
  have "log_ok f" if "map_of d (session_path (sr_session (hd rs))) = Some f" for f
    using assms(2) that by (auto simp: sessions_healthy_def dest: map_of_in_values)
  then show ?thesis
    using assms
    by (auto simp: crash_append_def append_crash_def torn_with_def file_append_lines_def log_ok_def
        appended_def wf_read Let_def take_map split: option.splits)
qed

text \<open>
  An append cut in the middle of a line leaves the old records and the new ones before
  the cut readable; the next append of a batch of the session succeeds, but its first new
  record continues the torn line and is lost, only the others are stored.
\<close>

theorem torn_append_loses_first:
  assumes "sessions_wf d" and "sessions_healthy d" and "one_session rs" and "rs \<noteq> []"
    and "k < length (appended rs d)" and "d' = crash_append rs k TornPart d"
    and "one_session rs'" and "rs' \<noteq> []" and "sr_session (hd rs') = sr_session (hd rs)"
  shows "read_session d' (sr_session (hd rs)) =
      read_session d (sr_session (hd rs)) @ take k (appended rs d) \<and>
    fst (session_append rs' d') = Inr () \<and>
    read_session (session_put rs' d') (sr_session (hd rs)) =
      read_session d' (sr_session (hd rs)) @ tl (appended rs' d')"
proof -
  let ?sid = "sr_session (hd rs)"
  have wf': "sessions_wf d'"
    using wf_step[OF step_crash, OF assms(3,4)] assms(1,3,4,5,6)
    by (simp add: appended_def wf_read Let_def)
  have f: "map_of d' (session_path ?sid) = Some \<lparr>log_lines =
      (case map_of d (session_path ?sid) of None \<Rightarrow> [] | Some f \<Rightarrow> log_lines f)
      @ map (Obj \<circ> serialize_record) (take k (appended rs d)) @ [NotJson], log_torn = True\<rparr>"
    using stored_crash_torn[OF assms(1-4)] assms(6) by simp
  have old: "stored d' ?sid = stored d ?sid @ take k (appended rs d)"
    using f log_records_lines[of "take k (appended rs d)"]
    by (simp add: stored_def log_records_def map_filter_Cons map_filter_Nil split: option.split)
  have new: "stored (session_put rs' d') ?sid = stored d' ?sid @ tl (appended rs' d')"
  proof (cases "appended rs' d' = []")
    case True
    then show ?thesis
      using assms(7-9) wf' by (simp add: session_put_def append_cases appended_def wf_read Let_def)
  next
    case False
    then have "session_put rs' d' = write_lines d' ?sid (appended rs' d')"
      using assms(7-9) wf' by (simp add: session_put_def append_cases appended_def wf_read Let_def)
    moreover have "stored (write_lines d' ?sid (appended rs' d')) ?sid =
        stored d' ?sid @ tl (appended rs' d')"
      unfolding stored_write_lines log_records_append using f False
      by (simp add: stored_def butlast_append log_records_def map_filter_Cons map_filter_Nil)
    ultimately show ?thesis by simp
  qed
  have "sessions_wf (session_put rs' d')" using wf_step[OF step_append wf'] .
  with old new wf' assms show ?thesis
    by (simp add: read_session_def wf_read append_cases Let_def)
qed

theorem torn_append_loses_first_witness:
  "\<exists>r1 r2. sr_event r1 \<noteq> sr_event r2 \<and>
     fst (session_append [r2] (crash_append [r1] 0 TornPart [])) = Inr () \<and>
     read_session (session_put [r2] (crash_append [r1] 0 TornPart [])) ''s'' = []"
proof (intro exI conjI)
  let ?r = "\<lambda>e. \<lparr>sr_session = ''s'', sr_seq = 0, sr_event = e, sr_turn = ''t'', sr_time = 0,
    sr_type = UserMessage, sr_payload = []\<rparr>"
  let ?d = "crash_append [?r ''a''] 0 TornPart []"
  note t = torn_append_loses_first[of "[]" "[?r ''a'']" 0 ?d "[?r ''b'']"]
  have e: "read_session [] ''s'' = []" by (simp add: read_session_def read_all_records_def)
  have a: "appended [?r ''a''] [] = [?r ''a'']"
    by (simp add: appended_def stored_def next_seq_def one_session_def)
  show "sr_event (?r ''a'') \<noteq> sr_event (?r ''b'')" by simp
  show "fst (session_append [?r ''b''] ?d) = Inr ()"
    using t by (simp add: a sessions_wf_def sessions_healthy_def one_session_def)
  have tl: "tl (appended [?r ''b''] ?d) = []" by (simp add: appended_def Let_def)
  have d: "read_session ?d ''s'' = []"
    using t by (simp add: a e sessions_wf_def sessions_healthy_def one_session_def)
  show "read_session (session_put [?r ''b''] ?d) ''s'' = []"
    using t by (simp add: a d tl sessions_wf_def sessions_healthy_def one_session_def)
qed

text \<open>
  A rewrite of a session is atomic for its readers, but not for the listing.  A crash
  before the rename leaves every session as it was; the left-over temporary file matches
  the pattern of session files, so list_sessions from then on also lists the session of its
  first record, once more than before.
\<close>

theorem replace_session_crash:
  assumes "map_of d (''.tmp_'' @ tmp @ ''.jsonl'') = None" and "k > 0"
  shows "(\<forall>s. read_session (replace_crash tmp k (r # rs) d) s = read_session d s) \<and>
    list_sessions (replace_crash tmp k (r # rs) d) = list_sessions d @ [sr_session r] \<and>
    (\<forall>s. read_session (replace_session sid (r # rs) d) s =
       (if session_path s = session_path sid then py_sorted sr_seq (r # rs) else read_session d s))"
proof -
  have neq: "session_path s \<noteq> ''.tmp_'' @ tmp @ ''.jsonl''" for s
  proof (cases s)
    case (Cons c cs)
    have "hd (safe_id s) \<noteq> CHR ''.''"
      using Cons by (auto simp: safe_id_def py_isalnum_def code_def ascii_digit_def ascii_letter_def Let_def)
    then show ?thesis using Cons by (auto simp: session_path_def safe_id_def)
  qed (simp add: session_path_def safe_id_def)
  have new: "AList.update p v d = d @ [(p, v)]" if "map_of d p = None" for p and v :: log_file
    using that by (induction d) (auto split: if_splits)
  have "first_session_id (''.tmp_'' @ tmp @ ''.jsonl'', fresh_log (take k (r # rs))) = Some (sr_session r)"
    using assms(2) by (cases k) (simp_all add: first_session_id_def fresh_log_def suffix_def)
  then have "list_sessions (replace_crash tmp k (r # rs) d) = list_sessions d @ [sr_session r]"
    using new[OF assms(1)]
    by (simp add: replace_crash_def list_sessions_def map_filter_Cons map_filter_Nil)
  then show ?thesis
    using neq by (auto simp: read_session_def read_all_records_def replace_crash_def replace_session_def
        alist_simps)
qed

theorem replace_session_crash_witness:
  "\<exists>r. list_sessions (replace_crash ''x'' 1 [r] (replace_session ''s'' [r] [])) = [''s'', ''s'']"
proof
  let ?r = "\<lparr>sr_session = ''s'', sr_seq = 0, sr_event = ''e'', sr_turn = ''t'', sr_time = 0,
    sr_type = UserMessage, sr_payload = []\<rparr>"
  have "list_sessions (replace_session ''s'' [?r] []) = [''s'']"
    by (simp add: list_sessions_def replace_session_def first_session_id_def fresh_log_def
        session_path_def suffix_def map_filter_Cons map_filter_Nil)
  then show "list_sessions (replace_crash ''x'' 1 [?r] (replace_session ''s'' [?r] [])) = [''s'', ''s'']"
    using replace_session_crash[of "replace_session ''s'' [?r] []" "''x''" 1 ?r "[]"]
    by (simp add: replace_session_def session_path_def safe_id_def py_isalnum_def Let_def ascii_letter_def code_def)
qed

end
