(* ===== verification/Task_Store.thy ===== *)
theory Task_Store
  imports File_Store
begin

text \<open>
  The task records of store/models.py and the task store of store/filesystem/task.py: one
  JSON document per task in a file named by the sanitised identifier.  The asyncio lock
  makes each writing operation one step.  Times are read back from ISO strings; a falsy
  value in a time field reads as None.
\<close>

datatype task_status = Pending | Running | TaskCompleted | TaskFailed | TaskCancelled | Expired

fun status_value :: "task_status \<Rightarrow> string" where
  "status_value Pending = ''pending''"
| "status_value Running = ''running''"
| "status_value TaskCompleted = ''completed''"
| "status_value TaskFailed = ''failed''"
| "status_value TaskCancelled = ''cancelled''"
| "status_value Expired = ''expired''"

definition all_task_statuses :: "task_status list" where
  "all_task_statuses = [Pending, Running, TaskCompleted, TaskFailed, TaskCancelled, Expired]"

definition status_of_value :: "string \<Rightarrow> task_status option" where
  "status_of_value s = List.find (\<lambda>x. status_value x = s) all_task_statuses"

lemma status_of_value [codec_simps, simp]: "status_of_value (status_value x) = Some x"
  by (cases x) (simp_all add: status_of_value_def all_task_statuses_def)

text \<open>terminal_statuses of update_status and cleanup_expired.\<close>

definition terminal_statuses :: "task_status list" where
  "terminal_statuses = [TaskCompleted, TaskFailed, TaskCancelled, Expired]"

record task_record =
  tk_id :: string
  tk_session :: "string option"
  tk_turn :: "string option"
  tk_type :: string
  tk_status :: task_status
  tk_created :: time
  tk_updated :: time
  tk_started :: "time option"
  tk_completed :: "time option"
  tk_heartbeat :: "time option"
  tk_ttl :: "int option"
  tk_expires :: "time option"
  tk_result :: "dict option"
  tk_error :: "string option"
  tk_metadata :: dict

definition task_path :: "string \<Rightarrow> string" where
  "task_path task_id = safe_id task_id @ ''.json''"

definition serialize_task :: "task_record \<Rightarrow> dict" where
  "serialize_task t =
     [(''task_id'', PStr (tk_id t)),
      (''parent_session_id'', of_opt PStr (tk_session t)),
      (''parent_turn_id'', of_opt PStr (tk_turn t)),
      (''task_type'', PStr (tk_type t)),
      (''status'', PStr (status_value (tk_status t))),
      (''created_at'', PTime (tk_created t)),
      (''updated_at'', PTime (tk_updated t)),
      (''started_at'', of_opt PTime (tk_started t)),
      (''completed_at'', of_opt PTime (tk_completed t)),
      (''last_heartbeat_at'', of_opt PTime (tk_heartbeat t)),
      (''ttl_seconds'', of_opt PInt (tk_ttl t)),
      (''expires_at'', of_opt PTime (tk_expires t)),
      (''result'', of_opt PDict (tk_result t)),
      (''error'', of_opt PStr (tk_error t)),
      (''metadata'', PDict (tk_metadata t))]"

definition opt_time :: "pyval \<Rightarrow> time option option" where
  "opt_time v = (if truthy v then map_option Some (as_time v) else Some None)"

definition deserialize_task :: "dict \<Rightarrow> task_record option" where
  "deserialize_task d =
     (case (as_str (dget d ''task_id''), as_str (dget d ''task_type''),
            Option.bind (as_str (dget d ''status'')) status_of_value,
            as_time (dget d ''created_at''), as_time (dget d ''updated_at'')) of
        (Some i, Some ty, Some st, Some cr, Some up) \<Rightarrow>
          (case (opt_field as_str (dget d ''parent_session_id''),
                 opt_field as_str (dget d ''parent_turn_id''),
                 opt_time (dget d ''started_at''), opt_time (dget d ''completed_at''),
                 opt_time (dget d ''last_heartbeat_at''), opt_field as_int (dget d ''ttl_seconds''),
                 opt_time (dget d ''expires_at''), opt_field as_dict (dget d ''result''),
                 opt_field as_str (dget d ''error''),
                 as_dict (dget_or d ''metadata'' (PDict []))) of
             (Some ps, Some pt, Some sa, Some ca, Some hb, Some ttl, Some ex, Some re, Some er, Some me) \<Rightarrow>
               Some \<lparr>tk_id = i, tk_session = ps, tk_turn = pt, tk_type = ty, tk_status = st,
                     tk_created = cr, tk_updated = up, tk_started = sa, tk_completed = ca,
                     tk_heartbeat = hb, tk_ttl = ttl, tk_expires = ex, tk_result = re,
                     tk_error = er, tk_metadata = me\<rparr>
           | _ \<Rightarrow> None)
      | _ \<Rightarrow> None)"

lemma opt_time_of_opt [codec_simps, simp]: "opt_time (of_opt PTime v) = Some v"
  by (cases v) (simp_all add: opt_time_def)

lemma opt_fields_of_opt [codec_simps, simp]:
  "opt_field as_str (of_opt PStr s) = Some s"
  "opt_field as_int (of_opt PInt i) = Some i"
  "opt_field as_dict (of_opt PDict d) = Some d"
  by (simp_all add: opt_field_of_opt)

lemma deserialize_serialize_task [codec_simps, simp]:
  "deserialize_task (serialize_task t) = Some t"
  by (simp add: deserialize_task_def serialize_task_def)

interpretation task_file: record_file task_path serialize_task deserialize_task
  by unfold_locales simp

section \<open>Operations\<close>

record task_updates =
  up_status :: "task_status option"
  up_updated :: "time option"
  up_started :: "time option"
  up_completed :: "time option"
  up_heartbeat :: "time option"
  up_result :: "dict option"
  up_error :: "string option"

definition no_updates :: task_updates where
  "no_updates = \<lparr>up_status = None, up_updated = None, up_started = None, up_completed = None,
     up_heartbeat = None, up_result = None, up_error = None\<rparr>"

definition or_else :: "'a option \<Rightarrow> 'a \<Rightarrow> 'a" where
  "or_else x y = (case x of Some v \<Rightarrow> v | None \<Rightarrow> y)"

definition or_keep :: "'a option \<Rightarrow> 'a option \<Rightarrow> 'a option" where
  "or_keep x y = (case x of Some v \<Rightarrow> Some v | None \<Rightarrow> y)"

definition copy_task_with_updates :: "task_record \<Rightarrow> task_updates \<Rightarrow> task_record" where
  "copy_task_with_updates t u =
     t\<lparr>tk_status := or_else (up_status u) (tk_status t),
       tk_updated := or_else (up_updated u) (tk_updated t),
       tk_started := or_keep (up_started u) (tk_started t),
       tk_completed := or_keep (up_completed u) (tk_completed t),
       tk_heartbeat := or_keep (up_heartbeat u) (tk_heartbeat t),
       tk_result := or_keep (up_result u) (tk_result t),
       tk_error := or_keep (up_error u) (tk_error t)\<rparr>"

definition task_get :: "doc dir \<Rightarrow> string \<Rightarrow> task_record option" where
  "task_get d task_id = read_rec task_path deserialize_task d task_id"

definition task_write :: "doc dir \<Rightarrow> string \<Rightarrow> task_record \<Rightarrow> doc dir" where
  "task_write d task_id t = write_rec task_path serialize_task d task_id t"

definition task_create :: "doc dir \<Rightarrow> task_record \<Rightarrow> (exn + task_record) \<times> doc dir" where
  "task_create d t =
     (if file_exists task_path d (tk_id t)
      then (Inl (ValueError (''Task already exists: '' @ tk_id t)), d)
      else (Inr t, task_write d (tk_id t) t))"

definition task_update :: "doc dir \<Rightarrow> task_record \<Rightarrow> time \<Rightarrow> (exn + task_record) \<times> doc dir" where
  "task_update d t now =
     (if \<not> file_exists task_path d (tk_id t)
      then (Inl (ValueError (''Task not found: '' @ tk_id t)), d)
      else
        (let t' = copy_task_with_updates t (no_updates\<lparr>up_updated := Some now\<rparr>)
         in (Inr t', task_write d (tk_id t) t')))"

definition status_update ::
  "task_record \<Rightarrow> task_status \<Rightarrow> string option \<Rightarrow> dict option \<Rightarrow> time \<Rightarrow> task_record" where
  "status_update t status err res now =
     copy_task_with_updates t
       \<lparr>up_status = Some status, up_updated = Some now,
        up_started = (if status = Running \<and> tk_started t = None then Some now else None),
        up_completed = (if status \<in> set terminal_statuses then Some now else None),
        up_heartbeat = None, up_result = res, up_error = err\<rparr>"

definition task_update_status ::
  "doc dir \<Rightarrow> string \<Rightarrow> task_status \<Rightarrow> string option \<Rightarrow> dict option \<Rightarrow> time
    \<Rightarrow> task_record option \<times> doc dir" where
  "task_update_status d task_id status err res now =
     (case task_get d task_id of
        None \<Rightarrow> (None, d)
      | Some t \<Rightarrow>
          (let t' = status_update t status err res now in (Some t', task_write d task_id t')))"

definition task_heartbeat :: "doc dir \<Rightarrow> string \<Rightarrow> time \<Rightarrow> task_record option \<times> doc dir" where
  "task_heartbeat d task_id now =
     (case task_get d task_id of
        None \<Rightarrow> (None, d)
      | Some t \<Rightarrow>
          (let t' = copy_task_with_updates t
                 (no_updates\<lparr>up_updated := Some now, up_heartbeat := Some now\<rparr>)
           in (Some t', task_write d task_id t')))"

definition task_entry :: "string \<times> doc \<Rightarrow> task_record option" where
  "task_entry e = (if suffix ''.json'' (fst e) then decode deserialize_task (snd e) else None)"

definition task_list_by_status :: "doc dir \<Rightarrow> task_status \<Rightarrow> task_record list" where
  "task_list_by_status d status = filter (\<lambda>t. tk_status t = status) (List.map_filter task_entry d)"

definition task_list_by_session :: "doc dir \<Rightarrow> string \<Rightarrow> task_record list" where
  "task_list_by_session d sid = filter (\<lambda>t. tk_session t = Some sid) (List.map_filter task_entry d)"

definition task_overdue :: "time \<Rightarrow> task_record \<Rightarrow> bool" where
  "task_overdue now t =
     (tk_status t \<notin> set terminal_statuses \<and>
      (case tk_expires t of None \<Rightarrow> False | Some e \<Rightarrow> now \<ge> e))"

definition expire_task :: "time \<Rightarrow> task_record \<Rightarrow> task_record" where
  "expire_task now t =
     copy_task_with_updates t
       (no_updates\<lparr>up_status := Some Expired, up_updated := Some now, up_completed := Some now,
          up_error := Some ''Task expired''\<rparr>)"

text \<open>The clean-up writes an expired task back to the file it was read from.\<close>

definition task_cleanup_expired :: "doc dir \<Rightarrow> time \<Rightarrow> task_record list \<times> doc dir" where
  "task_cleanup_expired d now =
     (map (expire_task now) (filter (task_overdue now) (List.map_filter task_entry d)),
      map (\<lambda>e. case task_entry e of
             None \<Rightarrow> e
           | Some t \<Rightarrow>
               if task_overdue now t then (fst e, Obj (serialize_task (expire_task now t))) else e) d)"

section \<open>Reading after each operation\<close>

lemma task_get_write [store_simps]:
  "task_get (task_write d i t) j = (if task_path i = task_path j then Some t else task_get d j)"
  by (simp add: task_get_def task_write_def task_file.read_write)

lemma task_exists_write [store_simps]:
  "file_exists task_path (task_write d i t) j \<longleftrightarrow> task_path i = task_path j \<or> file_exists task_path d j"
  by (simp add: task_write_def task_file.exists_write)

lemma task_get_exists: "task_get d i = Some t \<Longrightarrow> file_exists task_path d i"
  unfolding task_get_def by (rule task_file.read_exists)

lemma json_task_path [simp]: "suffix ''.json'' (task_path i)"
  by (simp add: task_path_def suffix_def)

definition expire_entry :: "time \<Rightarrow> string \<times> doc \<Rightarrow> string \<times> doc" where
  "expire_entry now e =
     (case task_entry e of
        None \<Rightarrow> e
      | Some t \<Rightarrow> if task_overdue now t then (fst e, Obj (serialize_task (expire_task now t))) else e)"

lemma cleanup_entries: "snd (task_cleanup_expired d now) = map (expire_entry now) d"
  by (simp add: task_cleanup_expired_def expire_entry_def[abs_def])

lemma fst_expire_entry [simp]: "fst (expire_entry now e) = fst e"
  by (simp add: expire_entry_def split: option.split)

lemma task_entry_expire [simp]:
  "task_entry (expire_entry now e) =
     map_option (\<lambda>t. if task_overdue now t then expire_task now t else t) (task_entry e)"
  by (auto simp: expire_entry_def task_entry_def split: option.splits)

lemma expire_not_overdue [simp]: "\<not> task_overdue t' (expire_task now t)"
  by (simp add: task_overdue_def expire_task_def copy_task_with_updates_def or_else_def
      no_updates_def terminal_statuses_def)

lemma map_filter_cleanup:
  "List.map_filter task_entry (map (expire_entry now) d) =
     map (\<lambda>t. if task_overdue now t then expire_task now t else t) (List.map_filter task_entry d)"
  by (induction d) (auto simp: map_filter_Cons map_filter_Nil split: option.splits)

lemma map_of_map_entry:
  assumes "\<And>e. fst (f e) = fst e"
  shows "map_of (map f d) k = map_option (\<lambda>v. snd (f (k, v))) (map_of d k)"
proof (induction d)
  case (Cons e d)
  then show ?case using assms[of e] by (cases e; cases "f e") auto
qed simp

lemma task_get_entry: "task_get d i = Option.bind (map_of d (task_path i)) (\<lambda>c. task_entry (task_path i, c))"
  by (simp add: task_get_def read_rec_decode task_entry_def)

lemma task_get_cleanup [store_simps]:
  "task_get (snd (task_cleanup_expired d now)) i =
     map_option (\<lambda>t. if task_overdue now t then expire_task now t else t) (task_get d i)"
proof -
  have "task_entry (k, snd (expire_entry now (k, v))) = task_entry (expire_entry now (k, v))" for k v
    using fst_expire_entry[of now "(k, v)"] by (metis fst_conv prod.collapse)
  then show ?thesis
    by (simp add: cleanup_entries task_get_entry map_of_map_entry split: option.split)
      (cases "map_of d (task_path i)", simp_all)
qed

section \<open>Runs of the store\<close>

text \<open>
  A task in a final status has its completion time and a running one its start time.
\<close>

definition task_ok :: "task_record \<Rightarrow> bool" where
  "task_ok t =
     ((tk_status t \<in> set terminal_statuses \<longrightarrow> tk_completed t \<noteq> None) \<and>
      (tk_status t = Running \<longrightarrow> tk_started t \<noteq> None))"

definition tasks_ok :: "doc dir \<Rightarrow> bool" where
  "tasks_ok d = list_all task_ok (List.map_filter task_entry d)"

inductive task_step :: "doc dir \<Rightarrow> doc dir \<Rightarrow> bool" where
  ts_create: "task_ok t \<Longrightarrow> task_step d (snd (task_create d t))"
| ts_update: "task_ok t \<Longrightarrow> task_step d (snd (task_update d t now))"
| ts_status: "task_step d (snd (task_update_status d i st err res now))"
| ts_heartbeat: "task_step d (snd (task_heartbeat d i now))"
| ts_cleanup: "task_step d (snd (task_cleanup_expired d now))"

lemma tasks_ok_write:
  assumes "tasks_ok d" and "task_ok t"
  shows "tasks_ok (task_write d i t)"
proof -
  have "task_entry (task_path i, Obj (serialize_task t)) = Some t"
    by (simp add: task_entry_def)
  then have "set (List.map_filter task_entry (AList.update (task_path i) (Obj (serialize_task t)) d))
      \<subseteq> insert t (set (List.map_filter task_entry d))"
    by (induction d) (auto simp: map_filter_Cons map_filter_Nil split: option.splits)
  then show ?thesis
    using assms by (auto simp: tasks_ok_def task_write_def write_rec_def list_all_iff)
qed

lemma task_get_ok:
  assumes "tasks_ok d" and "task_get d i = Some t"
  shows "task_ok t"
proof -
  obtain c where "(task_path i, c) \<in> set d" and "task_entry (task_path i, c) = Some t"
    using assms(2) by (auto simp: task_get_entry bind_eq_Some_conv dest: map_of_SomeD)
  then have "t \<in> set (List.map_filter task_entry d)"
    by (force simp: List.map_filter_def)
  then show ?thesis using assms(1) by (simp add: tasks_ok_def list_all_iff)
qed

lemma status_update_ok: "task_ok t \<Longrightarrow> task_ok (status_update t st err res now)"
  by (auto simp: task_ok_def status_update_def copy_task_with_updates_def or_else_def or_keep_def
      split: option.splits)

lemma copy_times_ok:
  "task_ok t \<Longrightarrow> up_status u = None \<Longrightarrow> task_ok (copy_task_with_updates t u)"
  by (auto simp: task_ok_def copy_task_with_updates_def or_else_def or_keep_def split: option.splits)

lemma expire_task_ok: "task_ok (expire_task now t)"
  by (simp add: task_ok_def expire_task_def copy_task_with_updates_def or_else_def or_keep_def
      no_updates_def)

lemma task_step_ok: "task_step d d' \<Longrightarrow> tasks_ok d \<Longrightarrow> tasks_ok d'"
proof (induction rule: task_step.induct)
  case (ts_create t d)
  then show ?case by (simp add: task_create_def tasks_ok_write)
next
  case (ts_update t d now)
  then show ?case by (simp add: task_update_def Let_def tasks_ok_write copy_times_ok no_updates_def)
next
  case (ts_status d i st err res now)
  then show ?case
    by (auto simp: task_update_status_def Let_def split: option.split
        intro!: tasks_ok_write status_update_ok elim: task_get_ok)
next
  case (ts_heartbeat d i now)
  then show ?case
    by (auto simp: task_heartbeat_def Let_def no_updates_def split: option.split
        intro!: tasks_ok_write copy_times_ok elim: task_get_ok)
next
  case (ts_cleanup d now)
  then show ?case
    by (auto simp: tasks_ok_def cleanup_entries map_filter_cleanup list_all_iff expire_task_ok)
qed

section \<open>Properties\<close>

text \<open>
  The task life cycle keeps its times.  In every task store reached from the empty one
  by create and update (with consistent records), update_status, heartbeat and
  cleanup_expired in any order, each listed task in a final status has a completion time and
  each running task a start time, whatever status changes were made.
\<close>

theorem task_reachable_ok:
  assumes "task_step\<^sup>*\<^sup>* [] d"
  shows "list_all (\<lambda>t. tk_started t \<noteq> None) (task_list_by_status d Running) \<and>
    list_all (\<lambda>st. list_all (\<lambda>t. tk_completed t \<noteq> None) (task_list_by_status d st)) terminal_statuses"
proof -
  have "tasks_ok d"
    using assms
    by (induction rule: rtranclp_induct) (auto simp: tasks_ok_def[of "[]"] map_filter_Nil intro: task_step_ok)
  then show ?thesis
    by (auto simp: tasks_ok_def task_list_by_status_def list_all_iff task_ok_def)
qed

theorem task_reachable_ok_witness:
  "list_all (\<lambda>t. tk_started t \<noteq> None)
     (task_list_by_status (snd (task_update_status [] ''x'' Running None None 3)) Running)"
proof -
  have "task_step\<^sup>*\<^sup>* [] (snd (task_update_status [] ''x'' Running None None 3))"
    by (rule r_into_rtranclp) (rule ts_status)
  then show ?thesis using task_reachable_ok by blast
qed

text \<open>
  cleanup_expired expires exactly the overdue tasks.  It returns every listed task that
  is not in a final status and whose expiry has come, as EXPIRED with the error Task
  expired; reading any task afterwards gives the expired form for an overdue task and the
  task unchanged for any other; a second pass finds nothing and changes nothing.
\<close>

theorem task_cleanup_exact:
  "fst (task_cleanup_expired d now) =
     map (expire_task now) (filter (task_overdue now) (List.map_filter task_entry d)) \<and>
   task_get (snd (task_cleanup_expired d now)) i =
     (case task_get d i of None \<Rightarrow> None
      | Some t \<Rightarrow> if task_overdue now t then Some (expire_task now t) else Some t) \<and>
   task_cleanup_expired (snd (task_cleanup_expired d now)) now = ([], snd (task_cleanup_expired d now)) \<and>
   map fst (snd (task_cleanup_expired d now)) = map fst d"
proof -
  have none: "filter (task_overdue now) (map (\<lambda>t. if task_overdue now t then expire_task now t else t) ts) = []"
    for ts by (auto simp: filter_empty_conv)
  have "expire_entry now (expire_entry now e) = expire_entry now e" for e
    by (auto simp: expire_entry_def[of now "expire_entry now e"] split: option.splits)
  then have "map (expire_entry now) (map (expire_entry now) d) = map (expire_entry now) d"
    by simp
  moreover have "fst (task_cleanup_expired (map (expire_entry now) d) now) = []"
    unfolding task_cleanup_expired_def fst_conv map_filter_cleanup none by simp
  ultimately have "task_cleanup_expired (snd (task_cleanup_expired d now)) now =
      ([], snd (task_cleanup_expired d now))"
    by (metis cleanup_entries prod.collapse)
  moreover have "map fst (snd (task_cleanup_expired d now)) = map fst d"
    by (simp add: cleanup_entries)
  moreover have "fst (task_cleanup_expired d now) =
      map (expire_task now) (filter (task_overdue now) (List.map_filter task_entry d))"
    by (simp add: task_cleanup_expired_def)
  moreover have "task_get (snd (task_cleanup_expired d now)) i =
      (case task_get d i of None \<Rightarrow> None
       | Some t \<Rightarrow> if task_overdue now t then Some (expire_task now t) else Some t)"
    by (simp add: task_get_cleanup split: option.split)
  ultimately show ?thesis by blast
qed

text \<open>
  update_status does not look at the status it replaces.  A task that was cancelled (or
  completed, failed or expired) is put back to RUNNING by a later update_status RUNNING; it
  keeps its completion time, its start time if it had one, and its error.
\<close>

theorem update_status_revives:
  assumes "task_get d i = Some t"
  shows "\<exists>t' d'. task_update_status d i Running None None now = (Some t', d') \<and>
    task_get d' i = Some t' \<and> tk_status t' = Running \<and> tk_completed t' = tk_completed t \<and>
    tk_error t' = tk_error t \<and> tk_started t' = Some (or_else (tk_started t) now)"
  using assms
  by (simp add: task_update_status_def Let_def task_get_write status_update_def
      copy_task_with_updates_def or_else_def or_keep_def terminal_statuses_def split: option.split)

definition demo_task :: "string \<Rightarrow> task_status \<Rightarrow> task_record" where
  "demo_task i st = \<lparr>tk_id = i, tk_session = None, tk_turn = None, tk_type = ''delegation'',
     tk_status = st, tk_created = 0, tk_updated = 0, tk_started = None, tk_completed = Some 1,
     tk_heartbeat = None, tk_ttl = None, tk_expires = None, tk_result = None, tk_error = None,
     tk_metadata = []\<rparr>"

theorem update_status_revives_witness:
  "\<exists>t' d'. task_update_status (task_write [] ''a'' (demo_task ''a'' TaskCancelled)) ''a'' Running
      None None 5 = (Some t', d') \<and> tk_status t' = Running \<and> tk_completed t' = Some 1"
  using update_status_revives[of "task_write [] ''a'' (demo_task ''a'' TaskCancelled)" "''a''"
      "demo_task ''a'' TaskCancelled" 5]
  by (auto simp: task_get_write demo_task_def)

end
