(* ===== verification/Idempotency.thy ===== *)
theory Idempotency
  imports File_Store
begin

text \<open>
  The idempotency ledger (store/filesystem/idempotency.py) and the ingress service over it
  (store/idempotency/service.py).  The ledger keeps one JSON document per key in a file
  named by the first 32 hexadecimal digits of the SHA-256 of the key; the digest is the
  parameter H of the model, and nothing is assumed of it: keys whose digests collide share
  a file.  The asyncio lock makes each operation one step.  An operation that reads the
  clock twice takes both readings (c1 for the expiry test, c2 for the new record).
\<close>

record idem_record =
  ik_key :: string
  ik_source :: string
  ik_created :: time
  ik_ttl :: int

definition idem_path :: "(string \<Rightarrow> string) \<Rightarrow> string \<Rightarrow> string" where
  "idem_path H key = H key @ ''.json''"

definition idem_to_dict :: "idem_record \<Rightarrow> dict" where
  "idem_to_dict r =
     [(''key'', PStr (ik_key r)), (''source'', PStr (ik_source r)),
      (''created_at'', PTime (ik_created r)), (''ttl_seconds'', PInt (ik_ttl r))]"

definition idem_of_dict :: "dict \<Rightarrow> idem_record option" where
  "idem_of_dict d =
     (case (as_str (dget d ''key''), as_str (dget d ''source''), as_time (dget d ''created_at''),
            as_int (dget d ''ttl_seconds'')) of
        (Some k, Some s, Some c, Some t) \<Rightarrow>
          Some \<lparr>ik_key = k, ik_source = s, ik_created = c, ik_ttl = t\<rparr>
      | _ \<Rightarrow> None)"

lemma idem_of_to_dict [codec_simps]: "idem_of_dict (idem_to_dict r) = Some r"
  by (simp add: idem_of_dict_def idem_to_dict_def)

interpretation idem_file: record_file "idem_path H" idem_to_dict idem_of_dict for H
  by unfold_locales (rule idem_of_to_dict)

section \<open>Ledger operations\<close>

definition idem_read :: "(string \<Rightarrow> string) \<Rightarrow> doc dir \<Rightarrow> string \<Rightarrow> idem_record option" where
  "idem_read H d key = read_rec (idem_path H) idem_of_dict d key"

definition idem_write :: "(string \<Rightarrow> string) \<Rightarrow> doc dir \<Rightarrow> idem_record \<Rightarrow> doc dir" where
  "idem_write H d r = write_rec (idem_path H) idem_to_dict d (ik_key r) r"

definition idem_expiry :: "idem_record \<Rightarrow> time" where
  "idem_expiry r = ik_created r + seconds (ik_ttl r)"

definition idem_is_expired :: "idem_record \<Rightarrow> time \<Rightarrow> bool" where
  "idem_is_expired r now = (now \<ge> idem_expiry r)"

definition idem_check :: "(string \<Rightarrow> string) \<Rightarrow> doc dir \<Rightarrow> string \<Rightarrow> time \<Rightarrow> idem_record option" where
  "idem_check H d key now =
     (case idem_read H d key of
        None \<Rightarrow> None
      | Some r \<Rightarrow> if idem_is_expired r now then None else Some r)"

definition resolve_ttl :: "int \<Rightarrow> int option \<Rightarrow> int" where
  "resolve_ttl dflt ttl = (case ttl of Some t \<Rightarrow> t | None \<Rightarrow> dflt)"

definition idem_register ::
  "(string \<Rightarrow> string) \<Rightarrow> int \<Rightarrow> doc dir \<Rightarrow> string \<Rightarrow> string \<Rightarrow> int option \<Rightarrow> time \<Rightarrow> time
    \<Rightarrow> (exn + idem_record) \<times> doc dir" where
  "idem_register H dflt d key source ttl c1 c2 =
     (case idem_check H d key c1 of
        Some _ \<Rightarrow> (Inl (IdempotencyKeyExistsError (''Key already registered: '' @ key)), d)
      | None \<Rightarrow>
          let r = \<lparr>ik_key = key, ik_source = source, ik_created = c2, ik_ttl = resolve_ttl dflt ttl\<rparr>
          in (Inr r, idem_write H d r))"

definition idem_check_and_register ::
  "(string \<Rightarrow> string) \<Rightarrow> int \<Rightarrow> doc dir \<Rightarrow> string \<Rightarrow> string \<Rightarrow> int option \<Rightarrow> time \<Rightarrow> time
    \<Rightarrow> (bool \<times> idem_record option) \<times> doc dir" where
  "idem_check_and_register H dflt d key source ttl c1 c2 =
     (case idem_check H d key c1 of
        Some r \<Rightarrow> ((True, Some r), d)
      | None \<Rightarrow>
          let r = \<lparr>ik_key = key, ik_source = source, ik_created = c2, ik_ttl = resolve_ttl dflt ttl\<rparr>
          in ((False, None), idem_write H d r))"

definition idem_removable :: "time \<Rightarrow> doc \<Rightarrow> bool" where
  "idem_removable now c =
     (case decode idem_of_dict c of None \<Rightarrow> True | Some r \<Rightarrow> idem_is_expired r now)"

definition is_json_name :: "string \<Rightarrow> bool" where
  "is_json_name n = suffix ''.json'' n"

definition idem_cleanup_expired :: "doc dir \<Rightarrow> time \<Rightarrow> nat \<times> doc dir" where
  "idem_cleanup_expired d now =
     (length (filter (\<lambda>e. is_json_name (fst e) \<and> idem_removable now (snd e)) d),
      filter (\<lambda>e. \<not> (is_json_name (fst e) \<and> idem_removable now (snd e))) d)"

section \<open>What the operations do to the ledger\<close>

lemma idem_read_write:
  "idem_read H (idem_write H d r) key =
     (if idem_path H (ik_key r) = idem_path H key then Some r else idem_read H d key)"
  by (simp add: idem_read_def idem_write_def idem_file.read_write)

lemma idem_write_ok [simp]: "dir_ok d \<Longrightarrow> dir_ok (idem_write H d r)"
  by (simp add: idem_write_def idem_file.dir_ok_write)

lemma json_idem_path [simp]: "is_json_name (idem_path H key)"
  by (simp add: is_json_name_def idem_path_def suffix_def)

lemma idem_read_cleanup:
  assumes "dir_ok d"
  shows "idem_read H (snd (idem_cleanup_expired d now)) key =
    (case idem_read H d key of None \<Rightarrow> None
     | Some r \<Rightarrow> if idem_is_expired r now then None else Some r)"
  using read_rec_filter[OF assms, of "idem_path H" idem_of_dict is_json_name "idem_removable now" key]
  by (auto simp: idem_read_def idem_cleanup_expired_def read_rec_decode idem_removable_def
      split: option.splits)

text \<open>A key is taken at time t when its file holds a record that has not expired at t.\<close>

definition idem_live :: "(string \<Rightarrow> string) \<Rightarrow> doc dir \<Rightarrow> string \<Rightarrow> time \<Rightarrow> bool" where
  "idem_live H d key t = (idem_check H d key t \<noteq> None)"

lemma idem_live_iff:
  "idem_live H d key t \<longleftrightarrow> (\<exists>r. idem_read H d key = Some r \<and> t < idem_expiry r)"
  by (auto simp: idem_live_def idem_check_def idem_is_expired_def split: option.splits)

lemma idem_live_mono: "idem_live H d key t \<Longrightarrow> t' \<le> t \<Longrightarrow> idem_live H d key t'"
  by (auto simp: idem_live_iff)

section \<open>Ledger runs\<close>

datatype idem_op =
    OpRegister string string "int option" time time
  | OpCheckRegister string string "int option" time time
  | OpCleanup time

fun idem_exec :: "(string \<Rightarrow> string) \<Rightarrow> int \<Rightarrow> idem_op \<Rightarrow> doc dir \<Rightarrow> doc dir" where
  "idem_exec H dflt (OpRegister k s ttl c1 c2) d = snd (idem_register H dflt d k s ttl c1 c2)"
| "idem_exec H dflt (OpCheckRegister k s ttl c1 c2) d =
     snd (idem_check_and_register H dflt d k s ttl c1 c2)"
| "idem_exec H dflt (OpCleanup now) d = snd (idem_cleanup_expired d now)"

definition idem_run :: "(string \<Rightarrow> string) \<Rightarrow> int \<Rightarrow> idem_op list \<Rightarrow> doc dir \<Rightarrow> doc dir" where
  "idem_run H dflt ops d = fold (idem_exec H dflt) ops d"

text \<open>The time of the expiry test of an operation.\<close>

fun idem_op_time :: "idem_op \<Rightarrow> time" where
  "idem_op_time (OpRegister k s ttl c1 c2) = c1"
| "idem_op_time (OpCheckRegister k s ttl c1 c2) = c1"
| "idem_op_time (OpCleanup now) = now"

lemma idem_exec_ok: "dir_ok d \<Longrightarrow> dir_ok (idem_exec H dflt p d)"
  by (cases p) (auto simp: idem_register_def idem_check_and_register_def idem_cleanup_expired_def
      Let_def split: option.splits)

text \<open>
  The interface a client of a deduplication ledger relies on: a call with a key that is
  taken reports a duplicate and changes nothing, a call with a free key takes it until
  its expiry, and no other step of the ledger frees a key before its expiry.
\<close>

locale dedup_ledger =
  fixes live :: "'s \<Rightarrow> 'k \<Rightarrow> time \<Rightarrow> bool"
    and claim :: "'s \<Rightarrow> 'k \<Rightarrow> int \<Rightarrow> time \<Rightarrow> time \<Rightarrow> bool \<times> 's"
    and step :: "'op \<Rightarrow> 's \<Rightarrow> 's"
    and op_time :: "'op \<Rightarrow> time"
    and inv :: "'s \<Rightarrow> bool"
  assumes claim_taken: "live s k c1 \<Longrightarrow> claim s k ttl c1 c2 = (True, s)"
    and claim_free: "\<not> live s k c1 \<Longrightarrow>
      \<not> fst (claim s k ttl c1 c2) \<and> (t < c2 + seconds ttl \<longrightarrow> live (snd (claim s k ttl c1 c2)) k t)"
    and live_mono: "live s k t \<Longrightarrow> t' \<le> t \<Longrightarrow> live s k t'"
    and step_live: "inv s \<Longrightarrow> op_time p \<le> t \<Longrightarrow> live s k t \<Longrightarrow> live (step p s) k t"
    and step_inv: "inv s \<Longrightarrow> inv (step p s)"
    and claim_inv: "inv s \<Longrightarrow> inv (snd (claim s k ttl c1 c2))"
begin

lemma run_live:
  assumes "inv s" and "\<forall>p \<in> set ps. op_time p \<le> t" and "live s k t"
  shows "live (fold step ps s) k t"
  using assms
proof (induction ps arbitrary: s)
  case (Cons p ps)
  then show ?case by (simp add: step_inv step_live)
qed simp

text \<open>Of all claims of one key before the first one's expiry, only the first succeeds.\<close>

lemma claim_once:
  assumes "inv s" and "\<not> fst (claim s k ttl c1 c2)" and "\<forall>p \<in> set ps. op_time p \<le> t"
    and "t < c2 + seconds ttl"
  shows "claim (fold step ps (snd (claim s k ttl c1 c2))) k ttl' t t' =
    (True, fold step ps (snd (claim s k ttl c1 c2)))"
proof (rule claim_taken, rule run_live)
  show "inv (snd (claim s k ttl c1 c2))" using assms(1) by (rule claim_inv)
  show "\<forall>p \<in> set ps. op_time p \<le> t" by fact
  have "\<not> live s k c1" using assms(2) claim_taken by fastforce
  then show "live (snd (claim s k ttl c1 c2)) k t" using claim_free assms(4) by blast
qed

end

definition idem_claim ::
  "(string \<Rightarrow> string) \<Rightarrow> doc dir \<Rightarrow> string \<times> string \<Rightarrow> int \<Rightarrow> time \<Rightarrow> time \<Rightarrow> bool \<times> doc dir" where
  "idem_claim H d ks ttl c1 c2 =
     (let r = idem_check_and_register H ttl d (fst ks) (snd ks) (Some ttl) c1 c2 in (fst (fst r), snd r))"

lemma idem_exec_live:
  assumes "dir_ok d" and "idem_op_time p \<le> t" and "idem_live H d key t"
  shows "idem_live H (idem_exec H dflt p d) key t"
proof -
  have keep: "idem_live H (idem_write H d r) key t"
    if "idem_check H d (ik_key r) c = None" "c \<le> t" for r c
  proof (cases "idem_path H (ik_key r) = idem_path H key")
    case True
    then have "idem_check H d (ik_key r) c = idem_check H d key c"
      by (simp add: idem_check_def idem_read_def read_rec_def)
    with that idem_live_mono[OF assms(3) that(2)] show ?thesis by (simp add: idem_live_def)
  next
    case False
    then show ?thesis using assms(3) by (simp add: idem_live_iff idem_read_write)
  qed
  show ?thesis
    using assms
    by (cases p)
      (auto simp: idem_register_def idem_check_and_register_def Let_def idem_live_iff
        idem_read_cleanup idem_is_expired_def intro!: keep[unfolded idem_live_iff] split: option.splits)
qed

interpretation idem_dedup: dedup_ledger
  "\<lambda>d ks. idem_live H d (fst ks)" "idem_claim H" "idem_exec H dflt" idem_op_time dir_ok
  for H dflt
proof unfold_locales
  fix d ks ttl c1 c2 t
  show "idem_live H d (fst ks) c1 \<Longrightarrow> idem_claim H d ks ttl c1 c2 = (True, d)"
    by (auto simp: idem_claim_def idem_check_and_register_def idem_live_def Let_def)
  show "\<not> idem_live H d (fst ks) c1 \<Longrightarrow>
    \<not> fst (idem_claim H d ks ttl c1 c2) \<and>
    (t < c2 + seconds ttl \<longrightarrow> idem_live H (snd (idem_claim H d ks ttl c1 c2)) (fst ks) t)"
    unfolding idem_claim_def idem_check_and_register_def idem_live_def[of H d]
    by (simp add: Let_def idem_live_iff idem_read_write idem_expiry_def resolve_ttl_def)
  show "dir_ok d \<Longrightarrow> dir_ok (snd (idem_claim H d ks ttl c1 c2))"
    by (auto simp: idem_claim_def idem_check_and_register_def Let_def split: option.splits)
next
  fix d ks p t t'
  show "idem_live H d (fst ks) t \<Longrightarrow> t' \<le> t \<Longrightarrow> idem_live H d (fst ks) t'"
    by (rule idem_live_mono)
  show "dir_ok d \<Longrightarrow> idem_op_time p \<le> t \<Longrightarrow> idem_live H d (fst ks) t
    \<Longrightarrow> idem_live H (idem_exec H dflt p d) (fst ks) t"
    by (rule idem_exec_live)
  show "dir_ok d \<Longrightarrow> dir_ok (idem_exec H dflt p d)" by (rule idem_exec_ok)
qed

section \<open>The ingress service\<close>

definition build_key :: "string \<Rightarrow> string \<Rightarrow> string" where
  "build_key source event_id = source @ colon # event_id"

definition ingress_is_duplicate ::
  "(string \<Rightarrow> string) \<Rightarrow> doc dir \<Rightarrow> string \<Rightarrow> string \<Rightarrow> time \<Rightarrow> bool" where
  "ingress_is_duplicate H d source event_id now =
     (idem_check H d (build_key source event_id) now \<noteq> None)"

datatype ingress_error =
    DuplicateIngressError string "idem_record option"
  | LedgerError exn

text \<open>The error carries the record a second look-up (at time c3) finds.\<close>

definition ingress_register ::
  "(string \<Rightarrow> string) \<Rightarrow> int \<Rightarrow> doc dir \<Rightarrow> string \<Rightarrow> string \<Rightarrow> int option \<Rightarrow> time \<Rightarrow> time \<Rightarrow> time
    \<Rightarrow> (ingress_error + idem_record) \<times> doc dir" where
  "ingress_register H dflt d source event_id ttl c1 c2 c3 =
     (let key = build_key source event_id
      in case idem_register H dflt d key source (Some (resolve_ttl dflt ttl)) c1 c2 of
           (Inl (IdempotencyKeyExistsError _), d') \<Rightarrow>
             (Inl (DuplicateIngressError key (idem_check H d' key c3)), d')
         | (Inl e, d') \<Rightarrow> (Inl (LedgerError e), d')
         | (Inr r, d') \<Rightarrow> (Inr r, d'))"

definition ingress_check_and_register ::
  "(string \<Rightarrow> string) \<Rightarrow> int \<Rightarrow> doc dir \<Rightarrow> string \<Rightarrow> string \<Rightarrow> int option \<Rightarrow> time \<Rightarrow> time
    \<Rightarrow> (bool \<times> idem_record option) \<times> doc dir" where
  "ingress_check_and_register H dflt d source event_id ttl c1 c2 =
     idem_check_and_register H dflt d (build_key source event_id) source
       (Some (resolve_ttl dflt ttl)) c1 c2"

lemma ingress_as_claim:
  "(fst (fst (ingress_check_and_register H dflt d s e ttl c1 c2)),
    snd (ingress_check_and_register H dflt d s e ttl c1 c2)) =
   idem_claim H d (build_key s e, s) (resolve_ttl dflt ttl) c1 c2"
  by (simp add: ingress_check_and_register_def idem_claim_def idem_check_and_register_def
      resolve_ttl_def Let_def split: option.split)

lemma build_key_inj:
  assumes "colon \<notin> set s" and "colon \<notin> set s'"
  shows "build_key s e = build_key s' e' \<longleftrightarrow> s = s' \<and> e = e'"
  using assms by (metis build_key_def partition_on_append Pair_inject)

lemma ingress_claim_once:
  assumes "dir_ok d"
    and first: "ingress_check_and_register H dflt d s e ttl c1 c2 = ((False, prior), d')"
    and between: "\<forall>p \<in> set ops. idem_op_time p \<le> t"
    and time: "t < c2 + seconds (resolve_ttl dflt ttl)"
  shows "\<exists>r. ingress_check_and_register H dflt (idem_run H dflt ops d') s e ttl' t t' =
    ((True, Some r), idem_run H dflt ops d')"
proof -
  have c: "idem_claim H d (build_key s e, s) (resolve_ttl dflt ttl) c1 c2 = (False, d')"
    using ingress_as_claim[of H dflt d s e ttl c1 c2] first by simp
  have "idem_claim H (idem_run H dflt ops d') (build_key s e, s) (resolve_ttl dflt ttl') t t' =
      (True, idem_run H dflt ops d')"
    using idem_dedup.claim_once[OF assms(1), where H = H and dflt = dflt and k = "(build_key s e, s)"
        and ttl = "resolve_ttl dflt ttl" and ?c1.0 = c1 and ?c2.0 = c2 and ps = ops and t = t
        and ttl' = "resolve_ttl dflt ttl'" and t' = t'] between time c
    by (simp add: idem_run_def)
  then show ?thesis
    using ingress_as_claim[of H dflt "idem_run H dflt ops d'" s e ttl' t t']
    by (auto simp: ingress_check_and_register_def idem_check_and_register_def Let_def
        split: option.splits)
qed

section \<open>Properties\<close>

text \<open>
  C33: at most one delivery of an event is processed.  Once check_and_register has accepted
  an event (it reported no duplicate), every later delivery of the event before the
  registration expires is reported as a duplicate and leaves the ledger as it is, whatever
  other registrations and clean-up passes happened in between (their expiry tests not later
  than this one's), and even if digests of keys collide.
\<close>

theorem ingress_at_most_once:
  assumes "dir_ok d"
    and first: "ingress_check_and_register H dflt d s e ttl c1 c2 = ((False, prior), d')"
    and between: "\<forall>p \<in> set ops. idem_op_time p \<le> t"
    and time: "t < c2 + seconds (resolve_ttl dflt ttl)"
  shows "\<exists>r. ingress_check_and_register H dflt (idem_run H dflt ops d') s e ttl' t t' =
    ((True, Some r), idem_run H dflt ops d')"
  using assms by (rule ingress_claim_once)

theorem ingress_at_most_once_witness:
  "\<exists>r. ingress_check_and_register id 60
      (idem_run id 60 [OpCleanup 5, OpCheckRegister ''api:2'' ''api'' None 7 7]
        (snd (ingress_check_and_register id 60 [] ''api'' ''1'' None 0 0))) ''api'' ''1'' None 9 9 =
    ((True, Some r), idem_run id 60 [OpCleanup 5, OpCheckRegister ''api:2'' ''api'' None 7 7]
        (snd (ingress_check_and_register id 60 [] ''api'' ''1'' None 0 0)))"
proof (rule ingress_at_most_once[where d = "[]" and ?c1.0 = 0 and ?c2.0 = 0 and ttl = None and prior = None])
  show "ingress_check_and_register id 60 [] ''api'' ''1'' None 0 0 =
    ((False, None), snd (ingress_check_and_register id 60 [] ''api'' ''1'' None 0 0))"
    by (simp add: ingress_check_and_register_def idem_check_and_register_def idem_check_def
        idem_read_def read_rec_def Let_def)
qed (simp_all add: dir_ok_def resolve_ttl_def)

text \<open>
  An expired or removed registration does not block an event for ever: when the key has
  no unexpired record, register succeeds, stores the record it returns, and the event is
  then known as a duplicate exactly until the record's expiry; when it has one, register
  raises DuplicateIngressError and changes nothing.
\<close>

theorem ingress_register_cases:
  "if ingress_is_duplicate H d s e c1
   then ingress_register H dflt d s e ttl c1 c2 c3 =
     (Inl (DuplicateIngressError (build_key s e) (idem_check H d (build_key s e) c3)), d)
   else \<exists>r d'. ingress_register H dflt d s e ttl c1 c2 c3 = (Inr r, d') \<and>
     ik_key r = build_key s e \<and> ik_source r = s \<and>
     (\<forall>t. ingress_is_duplicate H d' s e t \<longleftrightarrow> t < c2 + seconds (resolve_ttl dflt ttl))"
proof (cases "idem_check H d (build_key s e) c1")
  case None
  let ?r = "\<lparr>ik_key = build_key s e, ik_source = s, ik_created = c2, ik_ttl = resolve_ttl dflt ttl\<rparr>"
  have "ingress_register H dflt d s e ttl c1 c2 c3 = (Inr ?r, idem_write H d ?r)"
    using None by (simp add: ingress_register_def idem_register_def Let_def resolve_ttl_def)
  moreover have "ingress_is_duplicate H (idem_write H d ?r) s e t \<longleftrightarrow>
      t < c2 + seconds (resolve_ttl dflt ttl)" for t
    unfolding ingress_is_duplicate_def idem_live_def[symmetric] idem_live_iff
    by (simp add: idem_read_write idem_expiry_def)
  ultimately show ?thesis using None by (simp add: ingress_is_duplicate_def)
next
  case (Some r)
  then show ?thesis
    by (simp add: ingress_is_duplicate_def ingress_register_def idem_register_def Let_def)
qed

end
