(* ===== verification/Recovery.thy ===== *)
theory Recovery
  imports Session_Log Task_Store Idempotency
begin

text \<open>
  The start-up recovery scan of store/facade.py: repair of interrupted turns and of tool
  calls without result, expiry of stale tasks, clean-up of the idempotency ledger, and the
  recovery marker.  The clock is a function from the number of readings made so far;
  fmt stands for the text of datetime.timestamp() in the event ids.  Tool call identifiers
  are strings, as all writers store them (another JSON value reads as the empty string).
\<close>

definition tool_call_id :: "session_record \<Rightarrow> string" where
  "tool_call_id r =
     (case dget_or (sr_payload r) ''tool_call_id'' (PStr []) of PStr s \<Rightarrow> s | _ \<Rightarrow> [])"

definition turn_ids :: "session_record list \<Rightarrow> string list" where
  "turn_ids rs = map sr_turn rs"

definition terminal_turns :: "session_record list \<Rightarrow> string list" where
  "terminal_turns rs = map sr_turn (filter (\<lambda>r. sr_type r = TurnTerminal) rs)"

text \<open>A set is a list without repetitions; the code sorts it before it is used.\<close>

definition incomplete_turns :: "session_record list \<Rightarrow> string list" where
  "incomplete_turns rs = remdups (filter (\<lambda>t. t \<notin> set (terminal_turns rs)) (turn_ids rs))"

fun synthetic_loop ::
  "(int \<Rightarrow> string \<Rightarrow> session_record) \<Rightarrow> int \<Rightarrow> string list \<Rightarrow> session_record list" where
  "synthetic_loop mk n [] = []"
| "synthetic_loop mk n (x # xs) = mk n x # synthetic_loop mk (n + 1) xs"

definition synthetic_terminal :: "(time \<Rightarrow> string) \<Rightarrow> time \<Rightarrow> string \<Rightarrow> int \<Rightarrow> string \<Rightarrow> session_record" where
  "synthetic_terminal fmt now sid n t =
     \<lparr>sr_session = sid, sr_seq = n, sr_event = ''recovery-terminal-'' @ t @ ''-'' @ fmt now,
      sr_turn = t, sr_time = now, sr_type = TurnTerminal,
      sr_payload = [(''status'', PStr (ts_value Interrupted)),
        (''error_message'', PStr ''Turn interrupted; recovered at startup'')]\<rparr>"

definition create_synthetic_terminals ::
  "(time \<Rightarrow> string) \<Rightarrow> time \<Rightarrow> string \<Rightarrow> session_record list \<Rightarrow> string list \<Rightarrow> session_record list" where
  "create_synthetic_terminals fmt now sid existing incomplete =
     synthetic_loop (synthetic_terminal fmt now sid) (next_seq existing) (py_sorted id incomplete)"

text \<open>The dictionary tool_calls and the set result_ids of _create_orphan_tool_results.\<close>

definition tool_calls :: "session_record list \<Rightarrow> (string \<times> session_record) list" where
  "tool_calls rs =
     fold (\<lambda>r calls. if sr_type r = AssistantToolCall \<and> tool_call_id r \<noteq> []
        then AList.update (tool_call_id r) r calls else calls) rs []"

definition result_ids :: "session_record list \<Rightarrow> string list" where
  "result_ids rs =
     filter (\<lambda>i. i \<noteq> []) (map tool_call_id (filter (\<lambda>r. sr_type r = ToolResult) rs))"

definition orphan_ids :: "session_record list \<Rightarrow> string list" where
  "orphan_ids rs = filter (\<lambda>i. i \<notin> set (result_ids rs)) (map fst (tool_calls rs))"

definition orphan_result ::
  "(time \<Rightarrow> string) \<Rightarrow> time \<Rightarrow> string \<Rightarrow> session_record \<Rightarrow> int \<Rightarrow> string \<Rightarrow> session_record" where
  "orphan_result fmt now sid src n i =
     \<lparr>sr_session = sid, sr_seq = n, sr_event = ''recovery-tool-result-'' @ i @ ''-'' @ fmt now,
      sr_turn = sr_turn src, sr_time = now, sr_type = ToolResult,
      sr_payload = [(''message_id'', PStr (''recovery-result-'' @ i)), (''tool_call_id'', PStr i),
        (''tool_name'', dget_or (sr_payload src) ''tool_name'' (PStr ''unknown'')),
        (''result'', PNone), (''error'', PStr ''interrupted'')]\<rparr>"

definition create_orphan_tool_results ::
  "(time \<Rightarrow> string) \<Rightarrow> time \<Rightarrow> string \<Rightarrow> session_record list \<Rightarrow> session_record list" where
  "create_orphan_tool_results fmt now sid rs =
     synthetic_loop (\<lambda>n i. orphan_result fmt now sid (the (map_of (tool_calls rs) i)) n i)
       (next_seq rs) (py_sorted id (orphan_ids rs))"

section \<open>The scan of the sessions\<close>

type_synonym scan_result = "nat \<times> nat \<times> string list"

definition no_issues :: scan_result where
  "no_issues = (0, 0, [])"

definition add_issues :: "scan_result \<Rightarrow> scan_result \<Rightarrow> scan_result" where
  "add_issues a b = (fst a + fst b, fst (snd a) + fst (snd b), snd (snd a) @ snd (snd b))"

text \<open>One iteration of _scan_sessions, in two halves: the turns, then the tool calls.\<close>

definition repair_turns ::
  "(time \<Rightarrow> string) \<Rightarrow> time \<Rightarrow> string \<Rightarrow> sessions \<Rightarrow> scan_result \<times> sessions" where
  "repair_turns fmt now sid d =
     (let rs = read_session d sid; inc = incomplete_turns rs
      in if inc = [] then (no_issues, d)
         else
           (let new = create_synthetic_terminals fmt now sid rs inc
            in if new = [] then ((length inc, 0, []), d)
               else ((length inc, length new,
                 [''Session '' @ sid @ '': repaired '' @ show_int (int (length new)) @ '' incomplete turns'']),
                 snd (session_append_raw new d))))"

definition repair_tools ::
  "(time \<Rightarrow> string) \<Rightarrow> time \<Rightarrow> string \<Rightarrow> sessions \<Rightarrow> scan_result \<times> sessions" where
  "repair_tools fmt now sid d =
     (let new = create_orphan_tool_results fmt now sid (read_session d sid)
      in if new = [] then (no_issues, d)
         else ((length new, length new,
           [''Session '' @ sid @ '': repaired '' @ show_int (int (length new)) @ '' orphan tool calls'']),
           snd (session_append_raw new d)))"

definition scan_session ::
  "(time \<Rightarrow> string) \<Rightarrow> time \<Rightarrow> time \<Rightarrow> string \<Rightarrow> sessions \<Rightarrow> scan_result \<times> sessions" where
  "scan_session fmt c1 c2 sid d =
     (if read_session d sid = [] then (no_issues, d)
      else
        (let (r1, d1) = repair_turns fmt c1 sid d;
             (r2, d2) = repair_tools fmt c2 sid d1
         in (add_issues r1 r2, d2)))"

fun scan_loop ::
  "(time \<Rightarrow> string) \<Rightarrow> (nat \<Rightarrow> time) \<Rightarrow> nat \<Rightarrow> string list \<Rightarrow> scan_result \<times> sessions \<Rightarrow> scan_result \<times> sessions" where
  "scan_loop fmt clk n [] acc = acc"
| "scan_loop fmt clk n (sid # sids) (r, d) =
     (let (r', d') = scan_session fmt (clk n) (clk (n + 1)) sid d
      in scan_loop fmt clk (n + 2) sids (add_issues r r', d'))"

definition scan_sessions ::
  "(time \<Rightarrow> string) \<Rightarrow> (nat \<Rightarrow> time) \<Rightarrow> sessions \<Rightarrow> scan_result \<times> sessions" where
  "scan_sessions fmt clk d = scan_loop fmt clk 0 (list_sessions d) (no_issues, d)"

section \<open>Tasks, ledger and marker\<close>

definition scan_tasks :: "doc dir \<Rightarrow> time \<Rightarrow> scan_result \<times> doc dir" where
  "scan_tasks d now =
     (let (ex, d') = task_cleanup_expired d now;
          stale = length (task_list_by_status d' Running) + length (task_list_by_status d' Pending);
          n = length ex
      in ((n, n, (if n > 0 then [''Expired '' @ show_int (int n) @ '' stale tasks''] else []) @
            (if stale > 0
             then [''Found '' @ show_int (int stale) @ '' tasks in running/pending state at startup'']
             else [])), d'))"

datatype recovery_status = Healthy | Recovered | RecoveryDegraded | RecoveryFailed

fun recovery_value :: "recovery_status \<Rightarrow> string" where
  "recovery_value Healthy = ''healthy''"
| "recovery_value Recovered = ''recovered''"
| "recovery_value RecoveryDegraded = ''degraded''"
| "recovery_value RecoveryFailed = ''failed''"

definition all_recovery :: "recovery_status list" where
  "all_recovery = [Healthy, Recovered, RecoveryDegraded, RecoveryFailed]"

definition recovery_of_value :: "string \<Rightarrow> recovery_status option" where
  "recovery_of_value s = List.find (\<lambda>x. recovery_value x = s) all_recovery"

record recovery_marker =
  rm_component :: string
  rm_scan_at :: time
  rm_status :: recovery_status
  rm_found :: int
  rm_repaired :: int
  rm_details :: "string list"

definition marker_to_dict :: "recovery_marker \<Rightarrow> dict" where
  "marker_to_dict m =
     [(''component'', PStr (rm_component m)), (''last_scan_at'', PTime (rm_scan_at m)),
      (''status'', PStr (recovery_value (rm_status m))), (''issues_found'', PInt (rm_found m)),
      (''issues_repaired'', PInt (rm_repaired m)), (''details'', PList (map PStr (rm_details m)))]"

fun strs_of :: "pyval list \<Rightarrow> string list option" where
  "strs_of [] = Some []"
| "strs_of (v # vs) =
     (case (as_str v, strs_of vs) of (Some s, Some ss) \<Rightarrow> Some (s # ss) | _ \<Rightarrow> None)"

fun as_str_list :: "pyval \<Rightarrow> string list option" where
  "as_str_list (PList vs) = strs_of vs"
| "as_str_list _ = None"

lemma strs_of_map [codec_simps, simp]: "strs_of (map PStr ss) = Some ss"
  by (induction ss) simp_all

definition marker_of_dict :: "dict \<Rightarrow> recovery_marker option" where
  "marker_of_dict d =
     (case (as_str (dget d ''component''), as_time (dget d ''last_scan_at''),
            Option.bind (as_str (dget d ''status'')) recovery_of_value,
            as_int (dget_or d ''issues_found'' (PInt 0)),
            as_int (dget_or d ''issues_repaired'' (PInt 0)),
            as_str_list (dget_or d ''details'' (PList []))) of
        (Some c, Some t, Some st, Some f, Some r, Some ds) \<Rightarrow>
          Some \<lparr>rm_component = c, rm_scan_at = t, rm_status = st, rm_found = f, rm_repaired = r,
                rm_details = ds\<rparr>
      | _ \<Rightarrow> None)"

lemma marker_of_to_dict [codec_simps, simp]: "marker_of_dict (marker_to_dict m) = Some m"
  by (cases "rm_status m") (simp_all add: marker_of_dict_def marker_to_dict_def
      recovery_of_value_def all_recovery_def)

text \<open>The files of the store facade and its two fields.\<close>

record store_state =
  st_sessions :: sessions
  st_tasks :: "doc dir"
  st_idem :: "doc dir"
  st_recovery :: "doc dir"
  st_last :: "recovery_marker option"
  st_init :: bool

definition recovery_path :: "string \<Rightarrow> string" where
  "recovery_path component = component @ ''.json''"

definition scan_status :: "nat \<Rightarrow> nat \<Rightarrow> recovery_status" where
  "scan_status found repaired =
     (if found = 0 then Healthy else if found = repaired then Recovered else RecoveryDegraded)"

text \<open>ct, ci and cm are the clock readings of the task scan, the ledger clean-up and the marker.\<close>

definition run_recovery_scan ::
  "(time \<Rightarrow> string) \<Rightarrow> (nat \<Rightarrow> time) \<Rightarrow> time \<Rightarrow> time \<Rightarrow> time \<Rightarrow> store_state
    \<Rightarrow> recovery_marker \<times> store_state" where
  "run_recovery_scan fmt clk ct ci cm st =
     (let (rs, sess) = scan_sessions fmt clk (st_sessions st);
          (rt, tasks) = scan_tasks (st_tasks st) ct;
          (n, idem) = idem_cleanup_expired (st_idem st) ci;
          (found, repaired, details) = add_issues rs rt;
          details' = details @ (if n > 0
            then [''Cleaned up '' @ show_int (int n) @ '' expired idempotency records''] else []);
          m = \<lparr>rm_component = ''store_facade'', rm_scan_at = cm, rm_status = scan_status found repaired,
               rm_found = int found, rm_repaired = int repaired, rm_details = details'\<rparr>
      in (m, st\<lparr>st_sessions := sess, st_tasks := tasks, st_idem := idem,
             st_recovery := write_rec recovery_path marker_to_dict (st_recovery st)
               (rm_component m) m\<rparr>))"

definition get_recovery_status :: "store_state \<Rightarrow> recovery_marker option" where
  "get_recovery_status st =
     (case st_last st of
        Some m \<Rightarrow> Some m
      | None \<Rightarrow> read_rec recovery_path marker_of_dict (st_recovery st) ''store_facade'')"

definition store_initialize ::
  "(time \<Rightarrow> string) \<Rightarrow> (nat \<Rightarrow> time) \<Rightarrow> time \<Rightarrow> time \<Rightarrow> time \<Rightarrow> store_state \<Rightarrow> store_state" where
  "store_initialize fmt clk ct ci cm st =
     (if st_init st then st
      else
        (let (m, st') = run_recovery_scan fmt clk ct ci cm st
         in st'\<lparr>st_last := Some m, st_init := True\<rparr>))"

definition store_shutdown :: "store_state \<Rightarrow> store_state" where
  "store_shutdown st = st\<lparr>st_init := False\<rparr>"

section \<open>What the repairs write\<close>

lemma length_synthetic [simp]: "length (synthetic_loop mk n xs) = length xs"
  by (induction xs arbitrary: n) simp_all

lemma synthetic_eq_Nil [simp]: "synthetic_loop mk n xs = [] \<longleftrightarrow> xs = []"
  by (cases xs) simp_all

lemma synthetic_mem: "x \<in> set (synthetic_loop mk n xs) \<Longrightarrow> \<exists>m. \<exists>y \<in> set xs. x = mk m y"
proof (induction xs arbitrary: n)
  case (Cons y xs)
  then show ?case by (cases "x = mk n y") (auto, blast)
qed simp

lemma synthetic_ex:
  "y \<in> set xs \<Longrightarrow> (\<And>m. P (mk m y)) \<Longrightarrow> \<exists>x \<in> set (synthetic_loop mk n xs). P x"
  by (induction xs arbitrary: n) auto

lemma incomplete_empty_iff:
  "incomplete_turns rs = [] \<longleftrightarrow> (\<forall>r \<in> set rs. \<exists>x \<in> set rs. sr_turn x = sr_turn r \<and> sr_type x = TurnTerminal)"
  by (auto simp: incomplete_turns_def terminal_turns_def turn_ids_def filter_empty_conv image_iff) metis+

lemma tool_calls_snoc:
  "tool_calls (rs @ [r]) = (if sr_type r = AssistantToolCall \<and> tool_call_id r \<noteq> []
     then AList.update (tool_call_id r) r (tool_calls rs) else tool_calls rs)"
  by (simp add: tool_calls_def)

lemma keys_tool_calls:
  "fst ` set (tool_calls rs) = tool_call_id ` {r \<in> set rs. sr_type r = AssistantToolCall \<and> tool_call_id r \<noteq> []}"
proof (induction rs rule: rev_induct)
  case (snoc r rs)
  then show ?case by (auto simp: tool_calls_snoc dom_update image_iff)
qed (simp add: tool_calls_def)

lemma result_ids_iff:
  "i \<in> set (result_ids rs) \<longleftrightarrow> i \<noteq> [] \<and> (\<exists>x \<in> set rs. sr_type x = ToolResult \<and> tool_call_id x = i)"
  by (auto simp: result_ids_def)

lemma orphan_iff:
  "i \<in> set (orphan_ids rs) \<longleftrightarrow> i \<noteq> [] \<and>
     (\<exists>r \<in> set rs. sr_type r = AssistantToolCall \<and> tool_call_id r = i) \<and>
     \<not> (\<exists>x \<in> set rs. sr_type x = ToolResult \<and> tool_call_id x = i)"
proof -
  have "i \<in> set (orphan_ids rs) \<longleftrightarrow> i \<in> fst ` set (tool_calls rs) \<and> i \<notin> set (result_ids rs)"
    by (simp add: orphan_ids_def)
  then show ?thesis unfolding keys_tool_calls result_ids_iff by auto
qed

text \<open>A session without anything to repair.\<close>

definition clean :: "session_record list \<Rightarrow> bool" where
  "clean rs = (incomplete_turns rs = [] \<and> orphan_ids rs = [])"

lemma clean_iff:
  "clean rs \<longleftrightarrow>
     (\<forall>r \<in> set rs. \<exists>x \<in> set rs. sr_turn x = sr_turn r \<and> sr_type x = TurnTerminal) \<and>
     (\<forall>r \<in> set rs. sr_type r = AssistantToolCall \<and> tool_call_id r \<noteq> [] \<longrightarrow>
        (\<exists>x \<in> set rs. sr_type x = ToolResult \<and> tool_call_id x = tool_call_id r))"
proof -
  have "orphan_ids rs = [] \<longleftrightarrow> (\<forall>i. i \<notin> set (orphan_ids rs))" by auto
  then show ?thesis unfolding clean_def incomplete_empty_iff orphan_iff by blast
qed

text \<open>Appending raw records of one session to a healthy store.\<close>

lemma write_raw:
  assumes "rs \<noteq> []" and "\<forall>r \<in> set rs. sr_session r = sid"
  shows "snd (session_append_raw rs d) = write_lines d sid rs"
  using assms by (auto simp: session_append_raw_def one_session_def)

lemma read_write_lines:
  assumes "sessions_healthy d"
  shows "set (read_session (write_lines d sid rs) sid') =
      (if session_path sid = session_path sid' then set (read_session d sid') \<union> set rs
       else set (read_session d sid'))"
    and "session_path sid \<noteq> session_path sid' \<Longrightarrow>
      read_session (write_lines d sid rs) sid' = read_session d sid'"
proof -
  have set: "set (read_session d' s) = set (stored d' s)" for d' s
    by (simp add: read_session_def read_all_records_def stored_def split: option.split)
  show "set (read_session (write_lines d sid rs) sid') =
      (if session_path sid = session_path sid' then set (read_session d sid') \<union> set rs
       else set (read_session d sid'))"
    unfolding set using assms by (simp add: store_simps)
  show "session_path sid \<noteq> session_path sid' \<Longrightarrow>
      read_session (write_lines d sid rs) sid' = read_session d sid'"
    by (simp add: read_session_def read_all_records_def write_lines_def)
qed

lemma map_filter_update:
  assumes "map_of d p = Some v" and "f (p, w) = f (p, v)"
  shows "List.map_filter f (AList.update p w d) = List.map_filter f d"
  using assms by (induction d) (auto simp: map_filter_Cons split: option.splits if_splits)

lemma list_write_lines:
  assumes "sessions_healthy d" and "read_session d sid \<noteq> []"
  shows "list_sessions (write_lines d sid rs) = list_sessions d"
proof -
  obtain f where f: "map_of d (session_path sid) = Some f" "log_records f \<noteq> []"
    using assms(2) by (auto simp: read_session_def read_all_records_def split: option.splits)
  then have "log_ok f" using assms(1) by (auto simp: sessions_healthy_def dest: map_of_in_values)
  moreover obtain l ls where "log_lines f = l # ls"
    using f(2) by (cases "log_lines f") (simp_all add: log_records_def map_filter_Nil)
  ultimately show ?thesis
    unfolding list_sessions_def write_lines_def f(1)
    by (intro map_filter_update[OF f(1)]) (simp add: first_session_id_def log_lines_append_ok)
qed

section \<open>One session\<close>

lemma terminals_facts:
  assumes "incomplete_turns rs \<noteq> []"
    and new_def: "new = create_synthetic_terminals fmt now sid rs (incomplete_turns rs)"
  shows "new \<noteq> []" and "\<forall>r \<in> set new. sr_session r = sid" and "length new = length (incomplete_turns rs)"
    and "set new' = set rs \<union> set new \<Longrightarrow> incomplete_turns new' = []"
proof -
  show "new \<noteq> []" "length new = length (incomplete_turns rs)"
    using assms by (simp_all add: create_synthetic_terminals_def)
  show "\<forall>r \<in> set new. sr_session r = sid"
    by (auto simp: new_def create_synthetic_terminals_def synthetic_terminal_def dest!: synthetic_mem)
  assume eq: "set new' = set rs \<union> set new"
  have covered: "\<exists>x \<in> set new. sr_turn x = t \<and> sr_type x = TurnTerminal" if "t \<in> set (incomplete_turns rs)" for t
    unfolding new_def create_synthetic_terminals_def
    by (rule synthetic_ex[of t]) (use that in \<open>simp_all add: synthetic_terminal_def\<close>)
  have from_inc: "sr_turn x \<in> set (incomplete_turns rs)" if "x \<in> set new" for x
    using that by (auto simp: new_def create_synthetic_terminals_def synthetic_terminal_def
        dest!: synthetic_mem)
  have "\<exists>x \<in> set rs. sr_turn x = sr_turn r \<and> sr_type x = TurnTerminal"
    if "r \<in> set rs" "sr_turn r \<notin> set (incomplete_turns rs)" for r
    using that by (force simp: incomplete_turns_def turn_ids_def terminal_turns_def)
  then show "incomplete_turns new' = []"
    unfolding incomplete_empty_iff eq using covered from_inc by blast
qed

lemma map_of_tool_calls:
  "map_of (tool_calls rs) i = Some r \<Longrightarrow> r \<in> set rs"
  by (induction rs rule: rev_induct)
    (auto simp: tool_calls_snoc alist_simps tool_calls_def[of "[]"] split: if_splits)

lemma orphan_result_facts:
  assumes "create_orphan_tool_results fmt now sid rs = new"
  shows "new = [] \<longleftrightarrow> orphan_ids rs = []" and "\<forall>r \<in> set new. sr_session r = sid"
    and "set new' = set rs \<union> set new \<Longrightarrow> orphan_ids new' = []"
    and "set new' = set rs \<union> set new \<Longrightarrow> incomplete_turns rs = [] \<Longrightarrow> incomplete_turns new' = []"
proof -
  show "new = [] \<longleftrightarrow> orphan_ids rs = []" using assms by (auto simp: create_orphan_tool_results_def)
  have mem: "\<exists>i \<in> set (orphan_ids rs). \<exists>n. x = orphan_result fmt now sid (the (map_of (tool_calls rs) i)) n i"
    if "x \<in> set new" for x
    using that assms by (auto simp: create_orphan_tool_results_def dest!: synthetic_mem)
  then show "\<forall>r \<in> set new. sr_session r = sid" by (fastforce simp: orphan_result_def)
  assume eq: "set new' = set rs \<union> set new"
  have res: "sr_type x = ToolResult" if "x \<in> set new" for x
    using mem[OF that] by (auto simp: orphan_result_def)
  have covered: "\<exists>x \<in> set new. sr_type x = ToolResult \<and> tool_call_id x = i" if "i \<in> set (orphan_ids rs)" for i
    unfolding assms[symmetric] create_orphan_tool_results_def
    by (rule synthetic_ex[of i]) (use that in \<open>simp_all add: orphan_result_def tool_call_id_def\<close>)
  have "i \<notin> set (orphan_ids new')" for i
    using covered[of i] res by (auto simp: orphan_iff eq)
  then show "orphan_ids new' = []" by (metis list.set_intros(1) neq_Nil_conv)
  have turn: "\<exists>r \<in> set rs. sr_turn r = sr_turn x" if "x \<in> set new" for x
  proof -
    from mem[OF that] obtain i n where i: "i \<in> set (orphan_ids rs)"
      and x: "x = orphan_result fmt now sid (the (map_of (tool_calls rs) i)) n i" by blast
    from i obtain r where "map_of (tool_calls rs) i = Some r"
      by (auto simp: orphan_ids_def) (metis map_of_eq_None_iff not_None_eq fst_conv image_eqI)
    then show ?thesis using map_of_tool_calls x by (auto simp: orphan_result_def)
  qed
  assume "incomplete_turns rs = []"
  then show "incomplete_turns new' = []"
    unfolding incomplete_empty_iff eq using turn by (metis Un_iff)
qed

lemma read_session_cong: "session_path a = session_path b \<Longrightarrow> read_session d a = read_session d b"
  by (simp add: read_session_def read_all_records_def)

text \<open>What a scan step keeps: health, the listing and the sessions of other files.\<close>

definition scan_keeps :: "string \<Rightarrow> sessions \<Rightarrow> sessions \<Rightarrow> bool" where
  "scan_keeps sid d d' =
     (sessions_healthy d' \<and> list_sessions d' = list_sessions d \<and>
      (read_session d sid \<noteq> [] \<longrightarrow> read_session d' sid \<noteq> []) \<and>
      (\<forall>s. session_path sid \<noteq> session_path s \<longrightarrow> read_session d' s = read_session d s))"

lemma scan_keeps_refl: "sessions_healthy d \<Longrightarrow> scan_keeps sid d d"
  by (simp add: scan_keeps_def)

lemma scan_keeps_write:
  assumes "sessions_healthy d" and "read_session d sid \<noteq> []" and "rs \<noteq> []"
  shows "scan_keeps sid d (write_lines d sid rs)"
proof -
  have "read_session (write_lines d sid rs) sid \<noteq> []"
    using read_write_lines(1)[OF assms(1), of sid rs sid] assms(3) by auto
  then show ?thesis
    using assms by (simp add: scan_keeps_def healthy_write_lines list_write_lines read_write_lines(2))
qed

lemma repair_turns_facts:
  assumes "sessions_healthy d" and "read_session d sid \<noteq> []"
    and "repair_turns fmt c sid d = (r, d')"
  shows "scan_keeps sid d d'" and "incomplete_turns (read_session d' sid) = []"
    and "fst r = fst (snd r)" and "incomplete_turns (read_session d sid) = [] \<Longrightarrow> (r, d') = (no_issues, d)"
proof -
  let ?rs = "read_session d sid"
  let ?new = "create_synthetic_terminals fmt c sid ?rs (incomplete_turns ?rs)"
  have "scan_keeps sid d d' \<and> incomplete_turns (read_session d' sid) = [] \<and> fst r = fst (snd r)"
  proof (cases "incomplete_turns ?rs = []")
    case True
    then show ?thesis
      using assms by (auto simp: repair_turns_def Let_def scan_keeps_refl no_issues_def)
  next
    case False
    note f = terminals_facts[OF False refl, where fmt = fmt and now = c and sid = sid]
    have d': "d' = write_lines d sid ?new" "fst r = length (incomplete_turns ?rs)"
      "fst (snd r) = length ?new"
      using assms(3) False f(1,2) by (auto simp: repair_turns_def Let_def write_raw)
    have "incomplete_turns (read_session d' sid) = []"
      using read_write_lines(1)[OF assms(1), of sid ?new sid] d'(1) by (intro f(4)) simp
    moreover have "scan_keeps sid d d'"
      unfolding d'(1) using assms(1,2) f(1) by (rule scan_keeps_write)
    ultimately show ?thesis using d'(2,3) f(3) by simp
  qed
  then show "scan_keeps sid d d'" "incomplete_turns (read_session d' sid) = []" "fst r = fst (snd r)"
    by auto
  show "incomplete_turns (read_session d sid) = [] \<Longrightarrow> (r, d') = (no_issues, d)"
    using assms(3) by (simp add: repair_turns_def Let_def)
qed

lemma repair_tools_facts:
  assumes "sessions_healthy d" and "read_session d sid \<noteq> []"
    and "repair_tools fmt c sid d = (r, d')" and "incomplete_turns (read_session d sid) = []"
  shows "scan_keeps sid d d'" and "clean (read_session d' sid)"
    and "fst r = fst (snd r)" and "orphan_ids (read_session d sid) = [] \<Longrightarrow> (r, d') = (no_issues, d)"
proof -
  let ?rs = "read_session d sid"
  let ?new = "create_orphan_tool_results fmt c sid ?rs"
  note f = orphan_result_facts[of fmt c sid ?rs ?new, OF refl]
  have "scan_keeps sid d d' \<and> clean (read_session d' sid) \<and> fst r = fst (snd r)"
  proof (cases "?new = []")
    case True
    then show ?thesis
      using assms f(1) by (auto simp: repair_tools_def Let_def scan_keeps_refl no_issues_def clean_def)
  next
    case False
    then have d': "d' = write_lines d sid ?new" "fst r = length ?new" "fst (snd r) = length ?new"
      using assms(3) f(2) by (auto simp: repair_tools_def Let_def write_raw)
    have "set (read_session d' sid) = set ?rs \<union> set ?new"
      using read_write_lines(1)[OF assms(1), of sid ?new sid] d'(1) by simp
    then have "clean (read_session d' sid)" unfolding clean_def using f(3,4) assms(4) by blast
    moreover have "scan_keeps sid d d'"
      unfolding d'(1) using assms(1,2) False by (rule scan_keeps_write)
    ultimately show ?thesis using d'(2,3) by simp
  qed
  then show "scan_keeps sid d d'" "clean (read_session d' sid)" "fst r = fst (snd r)" by auto
  show "orphan_ids (read_session d sid) = [] \<Longrightarrow> (r, d') = (no_issues, d)"
    using assms(3) f(1) by (simp add: repair_tools_def Let_def)
qed

lemma add_no_issues [simp]: "add_issues a no_issues = a" "add_issues no_issues a = a"
  by (simp_all add: add_issues_def no_issues_def)

lemma scan_session_facts:
  assumes "sessions_healthy d" and "scan_session fmt c1 c2 sid d = (r, d')"
  shows "scan_keeps sid d d'" and "clean (read_session d' sid)" and "fst r = fst (snd r)"
    and "clean (read_session d sid) \<Longrightarrow> (r, d') = (no_issues, d)"
proof -
  have "scan_keeps sid d d' \<and> clean (read_session d' sid) \<and> fst r = fst (snd r) \<and>
    (clean (read_session d sid) \<longrightarrow> (r, d') = (no_issues, d))"
  proof (cases "read_session d sid = []")
    case True
    then show ?thesis using assms
      by (auto simp: scan_session_def scan_keeps_refl no_issues_def clean_iff)
  next
    case False
    obtain r1 d1 where t: "repair_turns fmt c1 sid d = (r1, d1)" by fastforce
    obtain r2 d2 where u: "repair_tools fmt c2 sid d1 = (r2, d2)" by fastforce
    note t' = repair_turns_facts[OF assms(1) False t]
    have d1: "sessions_healthy d1" "read_session d1 sid \<noteq> []"
      using t'(1) False by (auto simp: scan_keeps_def)
    note u' = repair_tools_facts[OF d1 u t'(2)]
    have r: "r = add_issues r1 r2" "d' = d2"
      using assms(2) False t u by (auto simp: scan_session_def)
    have "scan_keeps sid d d2" using t'(1) u'(1) by (simp add: scan_keeps_def)
    moreover have "clean (read_session d sid) \<Longrightarrow> r1 = no_issues \<and> r2 = no_issues \<and> d2 = d"
      using t'(4) u'(4) by (auto simp: clean_def)
    ultimately show ?thesis using r t'(3) u'(2,3) by (auto simp: add_issues_def no_issues_def)
  qed
  then show "scan_keeps sid d d'" "clean (read_session d' sid)" "fst r = fst (snd r)"
    "clean (read_session d sid) \<Longrightarrow> (r, d') = (no_issues, d)" by auto
qed

section \<open>All sessions\<close>

lemma scan_loop_facts:
  assumes "sessions_healthy d" and "fst r0 = fst (snd r0)"
    and "scan_loop fmt clk n sids (r0, d) = (r, d')"
  shows "sessions_healthy d' \<and> list_sessions d' = list_sessions d \<and> fst r = fst (snd r) \<and>
    (\<forall>sid. sid \<in> set sids \<or> clean (read_session d sid) \<longrightarrow> clean (read_session d' sid))"
  using assms
proof (induction sids arbitrary: n r0 d)
  case (Cons sid sids)
  obtain r1 d1 where s: "scan_session fmt (clk n) (clk (n + 1)) sid d = (r1, d1)" by fastforce
  note f = scan_session_facts[OF Cons.prems(1) s]
  have clean: "clean (read_session d1 s)" if "clean (read_session d s) \<or> s = sid" for s
  proof (cases "session_path sid = session_path s")
    case True
    then show ?thesis using f(2) read_session_cong[OF True, of d1] by simp
  next
    case False
    then show ?thesis using that f(1) by (auto simp: scan_keeps_def)
  qed
  have "scan_loop fmt clk (n + 2) sids (add_issues r0 r1, d1) = (r, d')"
    using Cons.prems(3) s by simp
  from Cons.IH[OF _ _ this] f(1,3) Cons.prems(2) clean show ?case
    by (auto simp: scan_keeps_def add_issues_def)
qed simp

lemma scan_loop_clean:
  assumes "sessions_healthy d" and "\<forall>sid \<in> set sids. clean (read_session d sid)"
  shows "scan_loop fmt clk n sids (r0, d) = (r0, d)"
  using assms(2)
proof (induction sids arbitrary: n)
  case (Cons sid sids)
  then have "scan_session fmt (clk n) (clk (n + 1)) sid d = (no_issues, d)"
    using scan_session_facts(4)[OF assms(1) prod.collapse[symmetric]] by simp
  then show ?case using Cons by simp
qed simp

section \<open>Properties\<close>

text \<open>
  C35: recovery repairs every listed session.  If the log files end in newlines, then after
  the scan each record of each listed session belongs to a turn with a terminal record and
  each tool call has a result; the scan counts as many repairs as issues; and a second scan
  finds nothing and changes nothing.
\<close>

theorem recovery_repairs_all:
  assumes "sessions_healthy d" and "scan_sessions fmt clk d = (r, d')"
  shows "list_all (\<lambda>sid.
      (\<forall>x \<in> set (read_session d' sid). \<exists>y \<in> set (read_session d' sid).
         sr_turn y = sr_turn x \<and> sr_type y = TurnTerminal) \<and>
      (\<forall>x \<in> set (read_session d' sid). sr_type x = AssistantToolCall \<and> tool_call_id x \<noteq> [] \<longrightarrow>
         (\<exists>y \<in> set (read_session d' sid). sr_type y = ToolResult \<and> tool_call_id y = tool_call_id x)))
      (list_sessions d) \<and>
    fst r = fst (snd r) \<and> list_sessions d' = list_sessions d \<and>
    scan_sessions fmt clk' d' = (no_issues, d')"
proof -
  have f: "sessions_healthy d' \<and> list_sessions d' = list_sessions d \<and> fst r = fst (snd r) \<and>
    (\<forall>sid. sid \<in> set (list_sessions d) \<or> clean (read_session d sid) \<longrightarrow> clean (read_session d' sid))"
    using assms scan_loop_facts[of d no_issues fmt clk 0 "list_sessions d" r d']
    by (simp add: scan_sessions_def no_issues_def)
  then have "\<forall>sid \<in> set (list_sessions d). clean (read_session d' sid)" by blast
  moreover have "scan_sessions fmt clk' d' = (no_issues, d')"
    unfolding scan_sessions_def using f by (intro scan_loop_clean) auto
  ultimately show ?thesis using f unfolding list_all_iff clean_iff by blast
qed

theorem recovery_repairs_all_witness:
  "scan_sessions (\<lambda>_. ''0'') int (snd (scan_sessions (\<lambda>_. ''0'') int
     (session_put [\<lparr>sr_session = ''s'', sr_seq = 0, sr_event = ''e'', sr_turn = ''t'', sr_time = 0,
       sr_type = UserMessage, sr_payload = []\<rparr>] []))) =
   (no_issues, snd (scan_sessions (\<lambda>_. ''0'') int
     (session_put [\<lparr>sr_session = ''s'', sr_seq = 0, sr_event = ''e'', sr_turn = ''t'', sr_time = 0,
       sr_type = UserMessage, sr_payload = []\<rparr>] [])))"
proof -
  have "sessions_healthy []" by (simp add: sessions_healthy_def)
  then have "sessions_healthy (session_put rs [])" for rs
    unfolding session_put_def by (rule healthy_append)
  then show ?thesis using recovery_repairs_all[OF _ prod.collapse[symmetric]] by blast
qed

lemma repair_turns_counts: "fst (fst (repair_turns fmt c sid d)) = fst (snd (fst (repair_turns fmt c sid d)))"
  by (simp add: repair_turns_def Let_def no_issues_def create_synthetic_terminals_def)

lemma scan_session_counts:
  "fst (fst (scan_session fmt c1 c2 sid d)) = fst (snd (fst (scan_session fmt c1 c2 sid d)))"
  using repair_turns_counts[of fmt c1 sid d]
  by (auto simp: scan_session_def repair_tools_def Let_def no_issues_def add_issues_def
      split: prod.splits)

lemma scan_loop_counts:
  "fst r = fst (snd r) \<Longrightarrow>
    fst (fst (scan_loop fmt clk n sids (r, d))) = fst (snd (fst (scan_loop fmt clk n sids (r, d))))"
proof (induction sids arbitrary: n r d)
  case (Cons sid sids)
  then show ?case
    using scan_session_counts[of fmt "clk n" "clk (n + 1)" sid d]
    by (auto simp: add_issues_def split: prod.splits)
qed simp

text \<open>
  The recovery marker.  The scan always reports as many repairs as issues, so its status
  is HEALTHY (no issue) or RECOVERED and never DEGRADED or FAILED; the marker it writes is
  the one get_recovery_status reads after a restart; and initialize runs the scan once.
\<close>

theorem recovery_marker_status:
  "\<exists>m st'. run_recovery_scan fmt clk ct ci cm st = (m, st') \<and>
     rm_found m = rm_repaired m \<and>
     rm_status m = (if rm_found m = 0 then Healthy else Recovered) \<and>
     get_recovery_status (st'\<lparr>st_last := None\<rparr>) = Some m \<and>
     store_initialize fmt' clk' ct' ci' cm' (store_initialize fmt clk ct ci cm st) =
       store_initialize fmt clk ct ci cm st"
proof -
  obtain rs sess where s: "scan_sessions fmt clk (st_sessions st) = (rs, sess)" by fastforce
  obtain rt tasks where t: "scan_tasks (st_tasks st) ct = (rt, tasks)" by fastforce
  have "fst rs = fst (snd rs)"
    using s scan_loop_counts[of no_issues fmt clk 0 "list_sessions (st_sessions st)" "st_sessions st"]
    by (simp add: scan_sessions_def no_issues_def)
  moreover have "fst rt = fst (snd rt)"
    using t by (auto simp: scan_tasks_def Let_def split: prod.splits)
  ultimately show ?thesis
    using s t
    by (auto simp: run_recovery_scan_def scan_status_def add_issues_def Let_def get_recovery_status_def
        store_initialize_def read_rec_def write_rec_def split: prod.splits)
qed

text \<open>
  The repair of a log with a torn last line is lost.  When a crash cut the last line of
  a log and exactly one turn is unfinished, the scan reports one issue and one repair, but
  the synthetic terminal record continues the torn line: what is read afterwards is what
  was read before and the turn is still unfinished, until the next start.
\<close>

theorem recovery_torn_repair_lost:
  assumes "map_of d (session_path sid) =
      Some \<lparr>log_lines = map (Obj \<circ> serialize_record) rs @ [NotJson], log_torn = True\<rparr>"
    and "incomplete_turns (read_session d sid) = [t]" and "orphan_ids (read_session d sid) = []"
  shows "\<exists>msg d'. scan_session fmt c1 c2 sid d = ((1, 1, msg), d') \<and>
    read_session d' sid = read_session d sid \<and> incomplete_turns (read_session d' sid) = [t]"
proof -
  let ?rs = "read_session d sid"
  let ?new = "create_synthetic_terminals fmt c1 sid ?rs [t]"
  have new: "?new \<noteq> []" "\<forall>r \<in> set ?new. sr_session r = sid" "length ?new = 1"
    using terminals_facts[of ?rs ?new fmt c1 sid] assms(2) by auto
  then obtain r where r: "?new = [r]" by (cases ?new) auto
  let ?d = "write_lines d sid ?new"
  have "log_records (file_append_lines (map serialize_record ?new) (map_of d (session_path sid))) =
      log_records \<lparr>log_lines = map (Obj \<circ> serialize_record) rs @ [NotJson], log_torn = True\<rparr>"
    unfolding log_records_append assms(1) r
    by (simp add: butlast_append log_records_def map_filter_Cons map_filter_Nil)
  then have read: "read_session ?d sid = ?rs"
    using assms(1) by (simp add: read_session_def read_all_records_def write_lines_def)
  have turns: "repair_turns fmt c1 sid d = ((1, 1, [''Session '' @ sid @ '': repaired '' @ show_int 1 @ '' incomplete turns'']), ?d)"
    using assms(2) new write_raw[OF new(1,2), of d] by (simp add: repair_turns_def Let_def)
  have tools: "repair_tools fmt c2 sid ?d = (no_issues, ?d)"
    using orphan_result_facts(1)[of fmt c2 sid "read_session ?d sid", OF refl] read assms(3)
    by (simp add: repair_tools_def Let_def)
  have "?rs \<noteq> []" using assms(2) by (auto simp: incomplete_turns_def turn_ids_def)
  then show ?thesis
    using turns tools read assms(2)
    by (auto simp: scan_session_def add_issues_def no_issues_def)
qed

theorem recovery_torn_repair_lost_witness:
  "\<exists>rs msg d'. scan_session (\<lambda>_. ''0'') 0 0 ''s''
      [(session_path ''s'', \<lparr>log_lines = map (Obj \<circ> serialize_record) rs @ [NotJson], log_torn = True\<rparr>)]
    = ((1, 1, msg), d') \<and>
    incomplete_turns (read_session d' ''s'') = [''t'']"
proof -
  let ?rs = "[\<lparr>sr_session = ''s'', sr_seq = 0, sr_event = ''e'', sr_turn = ''t'', sr_time = 0,
       sr_type = UserMessage, sr_payload = []\<rparr>]"
  let ?d = "[(session_path ''s'', \<lparr>log_lines = map (Obj \<circ> serialize_record) ?rs @ [NotJson], log_torn = True\<rparr>)]"
  have read: "read_session ?d ''s'' = ?rs"
    by (simp add: read_session_def read_all_records_def log_records_def map_filter_Cons map_filter_Nil
        py_sorted_def)
  obtain msg d' where m: "scan_session (\<lambda>_. ''0'') 0 0 ''s'' ?d = ((1, 1, msg), d')"
    and inc: "incomplete_turns (read_session d' ''s'') = [''t'']"
    using recovery_torn_repair_lost[of ?d "''s''" ?rs "''t''" "\<lambda>_. ''0''" 0 0]
    unfolding read
    by (auto simp: incomplete_turns_def turn_ids_def terminal_turns_def orphan_ids_def tool_calls_def)
  with m inc show ?thesis by blast
qed

end
