(* ===== verification/Session_Context.thy ===== *)
theory Session_Context
  imports Py_Text
begin

text \<open>
  core/session_context: the per-context tables of the active session (service.py), the
  model override (model_context.py) and the capability override (capability_context.py).
  Each table lives in memory and is rewritten to a JSON file after a change; the file is
  None when it does not exist, and has_path is False for a service without a path.  A write that fails is
  swallowed and leaves the file as it was (parameter ok).  A JSON value that is no object
  loads as an empty table, like text that is not JSON.
\<close>

type_synonym table = "(string \<times> string) list"

record table_state =
  tb_map :: table
  tb_file :: "doc option"
  tb_path :: bool

definition table_file :: "table \<Rightarrow> doc" where
  "table_file m = Obj (map (\<lambda>(k, v). (k, PStr v)) m)"

text \<open>_load: strip keys and values, skip blanks and values that are no strings.\<close>

definition table_load :: "doc option \<Rightarrow> table" where
  "table_load f =
     (case f of
        Some (Obj d) \<Rightarrow>
          fold (\<lambda>(k, v) m. case v of
              PStr s \<Rightarrow> if py_strip k \<noteq> [] \<and> py_strip s \<noteq> []
                 then AList.update (py_strip k) (py_strip s) m else m
            | _ \<Rightarrow> m) d []
      | _ \<Rightarrow> [])"

definition table_save :: "bool \<Rightarrow> table_state \<Rightarrow> table_state" where
  "table_save ok st = (if tb_path st \<and> ok then st\<lparr>tb_file := Some (table_file (tb_map st))\<rparr> else st)"

definition table_start :: "bool \<Rightarrow> doc option \<Rightarrow> table_state" where
  "table_start has_path f =
     \<lparr>tb_map = (if has_path then table_load f else []), tb_file = f, tb_path = has_path\<rparr>"

definition table_set :: "bool \<Rightarrow> string \<Rightarrow> string \<Rightarrow> table_state \<Rightarrow> table_state" where
  "table_set ok k v st =
     (if py_strip k = [] \<or> py_strip v = [] then st
      else table_save ok (st\<lparr>tb_map := AList.update (py_strip k) (py_strip v) (tb_map st)\<rparr>))"

definition stripped :: "string option \<Rightarrow> string option" where
  "stripped v = (case v of None \<Rightarrow> None | Some s \<Rightarrow> if py_strip s \<noteq> [] then Some (py_strip s) else None)"

section \<open>Active sessions\<close>

definition get_active_session :: "table_state \<Rightarrow> string \<Rightarrow> string option" where
  "get_active_session st ctx = stripped (map_of (tb_map st) ctx)"

definition set_active_session :: "bool \<Rightarrow> string \<Rightarrow> string \<Rightarrow> table_state \<Rightarrow> table_state" where
  "set_active_session ok ctx sid st = table_set ok ctx sid st"

definition clear_active_session :: "bool \<Rightarrow> string \<Rightarrow> table_state \<Rightarrow> table_state" where
  "clear_active_session ok ctx st =
     (if py_strip ctx = [] then st
      else if map_of (tb_map st) (py_strip ctx) = None then st
      else table_save ok (st\<lparr>tb_map := AList.delete (py_strip ctx) (tb_map st)\<rparr>))"

definition list_context_ids :: "table_state \<Rightarrow> string list" where
  "list_context_ids st = map fst (tb_map st)"

section \<open>Model overrides\<close>

definition get_model_override :: "table_state \<Rightarrow> string \<Rightarrow> string option" where
  "get_model_override st ctx = stripped (map_of (tb_map st) (py_strip ctx))"

definition set_model_override :: "bool \<Rightarrow> string \<Rightarrow> string \<Rightarrow> table_state \<Rightarrow> table_state" where
  "set_model_override ok ctx mid st = table_set ok ctx mid st"

definition clear_model_override :: "bool \<Rightarrow> string \<Rightarrow> table_state \<Rightarrow> table_state" where
  "clear_model_override ok ctx st =
     (if py_strip ctx = [] then st
      else table_save ok (st\<lparr>tb_map := AList.delete (py_strip ctx) (tb_map st)\<rparr>))"

section \<open>Capability overrides\<close>

record cap_state =
  cp_caps :: "(string \<times> string list) list"
  cp_stamps :: "(string \<times> pyval) list"
  cp_file :: "doc option"
  cp_path :: bool

definition days :: "int \<Rightarrow> int" where
  "days n = seconds (n * 86400)"

definition cap_stale :: "time \<Rightarrow> (string \<times> pyval) list \<Rightarrow> string \<Rightarrow> bool" where
  "cap_stale cutoff stamps ctx =
     (case map_of stamps ctx of Some (PTime t) \<Rightarrow> t < cutoff | _ \<Rightarrow> True)"

definition cap_prune :: "int \<Rightarrow> time \<Rightarrow> cap_state \<Rightarrow> cap_state" where
  "cap_prune max_age now st =
     (let stale = filter (cap_stale (now - days max_age) (cp_stamps st)) (map fst (cp_caps st))
      in st\<lparr>cp_caps := filter (\<lambda>kv. fst kv \<notin> set stale) (cp_caps st),
            cp_stamps := filter (\<lambda>kv. fst kv \<notin> set stale) (cp_stamps st)\<rparr>)"

definition cap_list :: "pyval list \<Rightarrow> string list" where
  "cap_list vs = List.map_filter (\<lambda>v. case v of PStr s \<Rightarrow> if py_strip s \<noteq> [] then Some s else None | _ \<Rightarrow> None) vs"

definition cap_file :: "cap_state \<Rightarrow> doc" where
  "cap_file st =
     Obj [(''__version'', PInt 2),
          (''contexts'', PDict (map (\<lambda>(k, cs). (k, PList (map PStr cs))) (cp_caps st))),
          (''timestamps'', PDict (cp_stamps st))]"

definition cap_read :: "dict \<Rightarrow> dict \<Rightarrow> (string \<times> string list) list \<times> (string \<times> pyval) list" where
  "cap_read contexts stamps =
     fold (\<lambda>(k, v) (caps, ts). case v of
         PList vs \<Rightarrow>
           if py_strip k \<noteq> [] then
             (AList.update (py_strip k) (cap_list vs) caps,
              (case dget_or stamps k (PStr []) of
                 PTime t \<Rightarrow> AList.update (py_strip k) (PTime t) ts
               | PStr s \<Rightarrow> if s \<noteq> [] then AList.update (py_strip k) (PStr s) ts else ts
               | _ \<Rightarrow> ts))
           else (caps, ts)
       | _ \<Rightarrow> (caps, ts)) contexts ([], [])"

text \<open>
  c1 is the clock of the migration of the old format, c2 that of the pruning.  A
  timestamps field that is no object makes the code raise and is read as empty here.
\<close>

definition cap_load :: "int \<Rightarrow> time \<Rightarrow> time \<Rightarrow> bool \<Rightarrow> doc option \<Rightarrow> cap_state" where
  "cap_load max_age c1 c2 has_path f =
     (let empty = \<lparr>cp_caps = [], cp_stamps = [], cp_file = f, cp_path = has_path\<rparr>
      in if \<not> has_path then empty
         else case f of
           Some (Obj raw) \<Rightarrow>
             (let v2 = (dget raw ''__version'' = PInt 2);
                  contexts = (if v2 then dget_or raw ''contexts'' (PDict []) else PDict raw);
                  stamps = (if v2 then (case dget_or raw ''timestamps'' (PDict []) of PDict d \<Rightarrow> d | _ \<Rightarrow> [])
                            else map (\<lambda>kv. (fst kv, PTime c1)) raw)
              in case contexts of
                   PDict cs \<Rightarrow>
                     (let (caps, ts) = cap_read cs stamps
                      in cap_prune max_age c2 (empty\<lparr>cp_caps := caps, cp_stamps := ts\<rparr>))
                 | _ \<Rightarrow> empty)
         | _ \<Rightarrow> empty)"

definition cap_save :: "bool \<Rightarrow> cap_state \<Rightarrow> cap_state" where
  "cap_save ok st = (if cp_path st \<and> ok then st\<lparr>cp_file := Some (cap_file st)\<rparr> else st)"

definition get_capabilities :: "cap_state \<Rightarrow> string \<Rightarrow> string list option" where
  "get_capabilities st ctx = (if py_strip ctx = [] then None else map_of (cp_caps st) (py_strip ctx))"

definition set_capabilities :: "bool \<Rightarrow> string \<Rightarrow> string list \<Rightarrow> time \<Rightarrow> cap_state \<Rightarrow> cap_state" where
  "set_capabilities ok ctx caps now st =
     (if py_strip ctx = [] then st
      else cap_save ok (st\<lparr>cp_caps := AList.update (py_strip ctx) caps (cp_caps st),
             cp_stamps := AList.update (py_strip ctx) (PTime now) (cp_stamps st)\<rparr>))"

definition clear_capabilities :: "bool \<Rightarrow> string \<Rightarrow> cap_state \<Rightarrow> cap_state" where
  "clear_capabilities ok ctx st =
     (if py_strip ctx = [] then st
      else cap_save ok (st\<lparr>cp_caps := AList.delete (py_strip ctx) (cp_caps st),
             cp_stamps := AList.delete (py_strip ctx) (cp_stamps st)\<rparr>))"

section \<open>Restarts\<close>

text \<open>
  A service that keeps its state on disk: a restart from the file gives the state back,
  so restarts between operations cannot be observed.
\<close>

locale restartable =
  fixes step :: "'op \<Rightarrow> 's \<Rightarrow> 's"
    and restart :: "'s \<Rightarrow> 's"
    and durable :: "'s \<Rightarrow> bool"
  assumes restart_same: "durable s \<Longrightarrow> restart s = s"
    and step_durable: "durable s \<Longrightarrow> durable (step p s)"
begin

lemma run_durable: "durable s \<Longrightarrow> durable (fold step ps s)"
  by (induction ps arbitrary: s) (simp_all add: step_durable)

lemma restarts_invisible: "durable s \<Longrightarrow> fold (\<lambda>p s. step p (restart s)) ps s = fold step ps s"
  by (induction ps arbitrary: s) (simp_all add: restart_same step_durable)

end

datatype table_op =
    SetActive string string | ClearActive string | SetModel string string | ClearModel string

fun table_exec :: "table_op \<Rightarrow> table_state \<Rightarrow> table_state" where
  "table_exec (SetActive c s) st = set_active_session True c s st"
| "table_exec (ClearActive c) st = clear_active_session True c st"
| "table_exec (SetModel c m) st = set_model_override True c m st"
| "table_exec (ClearModel c) st = clear_model_override True c st"

definition table_restart :: "table_state \<Rightarrow> table_state" where
  "table_restart st = table_start (tb_path st) (tb_file st)"

definition clean_table :: "table \<Rightarrow> bool" where
  "clean_table m = (distinct (map fst m) \<and>
     list_all (\<lambda>(k, v). py_strip k = k \<and> k \<noteq> [] \<and> py_strip v = v \<and> v \<noteq> []) m)"

text \<open>The file holds the table; a service that never saved has an empty table.\<close>

definition table_durable :: "table_state \<Rightarrow> bool" where
  "table_durable st = (tb_path st \<and> clean_table (tb_map st) \<and> table_load (tb_file st) = tb_map st)"

lemma update_fresh: "k \<notin> fst ` set m \<Longrightarrow> AList.update k v m = m @ [(k, v)]"
  by (induction m) auto

lemma table_load_clean:
  assumes "clean_table m"
  shows "table_load (Some (table_file m)) = m"
proof -
  let ?f = "\<lambda>(k, v) m. case v of
              PStr s \<Rightarrow> if py_strip k \<noteq> [] \<and> py_strip s \<noteq> []
                 then AList.update (py_strip k) (py_strip s) m else m
            | _ \<Rightarrow> m"
  have "fold ?f (map (\<lambda>(k, v). (k, PStr v)) xs) acc = acc @ xs" if "clean_table (acc @ xs)" for xs acc
    using that
  proof (induction xs arbitrary: acc)
    case (Cons x xs)
    obtain k v where x: "x = (k, v)" by fastforce
    have "k \<notin> fst ` set acc" using Cons.prems x by (auto simp: clean_table_def)
    moreover have "py_strip k = k" "k \<noteq> []" "py_strip v = v" "v \<noteq> []"
      using Cons.prems x by (auto simp: clean_table_def)
    ultimately have "?f (k, PStr v) acc = acc @ [(k, v)]" by (simp add: update_fresh)
    then show ?case using Cons.IH[of "acc @ [x]"] Cons.prems x by simp
  qed simp
  from this[of "[]" m] assms show ?thesis by (simp add: table_load_def table_file_def)
qed

lemma clean_update:
  "clean_table m \<Longrightarrow> py_strip k \<noteq> [] \<Longrightarrow> py_strip v \<noteq> [] \<Longrightarrow> clean_table (AList.update (py_strip k) (py_strip v) m)"
proof (unfold clean_table_def, elim conjE, intro conjI)
  assume "list_all (\<lambda>(k, v). py_strip k = k \<and> k \<noteq> [] \<and> py_strip v = v \<and> v \<noteq> []) m"
    and "py_strip k \<noteq> []" "py_strip v \<noteq> []"
  then show "list_all (\<lambda>(k, v). py_strip k = k \<and> k \<noteq> [] \<and> py_strip v = v \<and> v \<noteq> [])
      (AList.update (py_strip k) (py_strip v) m)"
    by (induction m) auto
qed (simp add: distinct_update)

lemma clean_delete: "clean_table m \<Longrightarrow> clean_table (AList.delete k m)"
  by (simp add: clean_table_def distinct_delete list_all_iff) (simp add: AList.delete_eq)

lemma table_save_durable:
  "tb_path st \<Longrightarrow> clean_table (tb_map st) \<Longrightarrow> table_durable (table_save True st)"
  by (simp add: table_durable_def table_save_def table_load_clean)

lemma table_durable_facts: "table_durable st \<Longrightarrow> tb_path st \<and> clean_table (tb_map st)"
  by (simp add: table_durable_def)

lemma table_set_durable: "table_durable st \<Longrightarrow> table_durable (table_set True k v st)"
  using table_durable_facts[of st]
  by (auto simp: table_set_def intro!: table_save_durable clean_update)

lemma table_exec_durable: "table_durable st \<Longrightarrow> table_durable (table_exec p st)"
  using table_durable_facts[of st]
  by (cases p)
    (auto simp: set_active_session_def set_model_override_def table_set_durable clear_active_session_def
      clear_model_override_def intro!: table_save_durable clean_delete)

interpretation context_table: restartable table_exec table_restart table_durable
proof unfold_locales
  fix st
  show "table_durable st \<Longrightarrow> table_restart st = st"
    by (simp add: table_durable_def table_restart_def table_start_def)
qed (rule table_exec_durable)

section \<open>Properties\<close>

lemma table_load_update_clean: "clean_table (table_load f)"
proof (cases f)
  case (Some c)
  then show ?thesis
  proof (cases c)
    case (Obj d)
    have "clean_table (fold (\<lambda>(k, v) m. case v of
              PStr s \<Rightarrow> if py_strip k \<noteq> [] \<and> py_strip s \<noteq> []
                 then AList.update (py_strip k) (py_strip s) m else m
            | _ \<Rightarrow> m) d acc)" if "clean_table acc" for acc
      using that by (induction d arbitrary: acc) (auto simp: clean_update split: pyval.split)
    from this[of "[]"] Some Obj show ?thesis by (simp add: table_load_def clean_table_def)
  qed (simp add: table_load_def clean_table_def Some)
qed (simp add: table_load_def clean_table_def)

text \<open>
  Restarts do not change the context tables.  A service started on any readable or
  unreadable file, whose writes succeed, behaves the same when it is restarted from its
  file before every operation: set and clear of active sessions and of model overrides, in
  any order and with any texts.
\<close>

theorem context_restarts_invisible:
  "fold (\<lambda>p s. table_exec p (table_restart s)) ops (table_start True f) =
     fold table_exec ops (table_start True f)"
proof (rule context_table.restarts_invisible)
  show "table_durable (table_start True f)"
    by (simp add: table_durable_def table_start_def table_load_update_clean)
qed

text \<open>The capability table: clean keys and names, and a time for every override.\<close>

definition caps_ok :: "(string \<times> string list) list \<Rightarrow> (string \<times> pyval) list \<Rightarrow> bool" where
  "caps_ok caps ts =
     (distinct (map fst caps) \<and> set (map fst ts) = set (map fst caps) \<and>
      list_all (\<lambda>(k, cs). py_strip k = k \<and> k \<noteq> [] \<and> list_all (\<lambda>c. py_strip c \<noteq> []) cs) caps \<and>
      list_all (\<lambda>(k, v). \<exists>t. v = PTime t) ts)"

lemma map_of_filter_keys:
  "map_of (filter (\<lambda>kv. fst kv \<notin> K) al) k = (if k \<in> K then None else map_of al k)"
  by (induction al) auto

lemma cap_list_clean: "list_all (\<lambda>c. py_strip c \<noteq> []) cs \<Longrightarrow> cap_list (map PStr cs) = cs"
  by (induction cs) (auto simp: cap_list_def map_filter_Cons map_filter_Nil)

lemma cap_read_clean:
  assumes "distinct (map fst caps)" and "\<forall>k \<in> set (map fst caps). \<exists>t. map_of ts k = Some (PTime t)"
    and "list_all (\<lambda>(k, cs). py_strip k = k \<and> k \<noteq> [] \<and> list_all (\<lambda>c. py_strip c \<noteq> []) cs) caps"
  shows "fst (cap_read (map (\<lambda>(k, cs). (k, PList (map PStr cs))) caps) ts) = caps \<and>
    (\<forall>k \<in> set (map fst caps). map_of (snd (cap_read (map (\<lambda>(k, cs). (k, PList (map PStr cs))) caps) ts)) k = map_of ts k)"
  using assms
proof (induction caps rule: rev_induct)
  case (snoc x caps)
  obtain k cs where x: "x = (k, cs)" by fastforce
  obtain t where t: "map_of ts k = Some (PTime t)" using snoc.prems(2) x by auto
  let ?r = "cap_read (map (\<lambda>(k, cs). (k, PList (map PStr cs))) caps) ts"
  have IH: "fst ?r = caps" "\<forall>k \<in> set (map fst caps). map_of (snd ?r) k = map_of ts k"
    using snoc by auto
  have k: "py_strip k = k" "k \<noteq> []" "cap_list (map PStr cs) = cs" "k \<notin> fst ` set caps"
    using snoc.prems x by (auto simp: cap_list_clean)
  have "cap_read (map (\<lambda>(k, cs). (k, PList (map PStr cs))) (caps @ [x])) ts =
      (AList.update k cs (fst ?r), AList.update k (PTime t) (snd ?r))"
    using k t by (simp add: cap_read_def x dget_or_def split: prod.split)
  then show ?case using IH k t x by (auto simp: update_fresh alist_simps)
qed (simp add: cap_read_def)

lemma caps_ok_stamp:
  assumes "caps_ok caps ts" and "k \<in> fst ` set caps"
  shows "\<exists>t. map_of ts k = Some (PTime t)"
proof -
  have "k \<in> fst ` set ts" using assms by (auto simp: caps_ok_def)
  then obtain v where "map_of ts k = Some v" by (metis map_of_eq_None_iff not_None_eq)
  moreover have "(k, v) \<in> set ts" using calculation by (rule map_of_SomeD)
  ultimately show ?thesis using assms(1) by (auto simp: caps_ok_def list_all_iff)
qed

text \<open>
  What a restart does to capability overrides.  A service with clean entries (trimmed
  context ids, no blank capability names, a time for each) that is restarted from the file
  it saved at time c2 gives back exactly the overrides set within the last max_age days, an
  empty list included, and forgets the others.
\<close>

theorem capability_restart:
  assumes "caps_ok (cp_caps st) (cp_stamps st)"
  shows "get_capabilities (cap_load max_age c1 c2 True (Some (cap_file st))) ctx =
    (case map_of (cp_stamps st) (py_strip ctx) of
       Some (PTime t) \<Rightarrow> if t < c2 - days max_age then None else get_capabilities st ctx
     | _ \<Rightarrow> None)"
proof -
  let ?cs = "map (\<lambda>(k, cs). (k, PList (map PStr cs))) (cp_caps st)"
  obtain caps ts where r: "cap_read ?cs (cp_stamps st) = (caps, ts)" by fastforce
  have stamp: "\<forall>k \<in> set (map fst (cp_caps st)). \<exists>t. map_of (cp_stamps st) k = Some (PTime t)"
    using caps_ok_stamp[OF assms] by auto
  have ok: "caps = cp_caps st" "\<forall>k \<in> fst ` set (cp_caps st). map_of ts k = map_of (cp_stamps st) k"
    using cap_read_clean[OF _ stamp] assms r by (auto simp: caps_ok_def)
  have load: "cap_load max_age c1 c2 True (Some (cap_file st)) =
      cap_prune max_age c2 \<lparr>cp_caps = cp_caps st, cp_stamps = ts, cp_file = Some (cap_file st), cp_path = True\<rparr>"
    using r ok(1) by (simp add: cap_load_def cap_file_def Let_def)
  let ?k = "py_strip ctx"
  let ?stale = "filter (cap_stale (c2 - days max_age) ts) (map fst (cp_caps st))"
  have filt: "map_of (filter (\<lambda>kv. fst kv \<notin> set ?stale) (cp_caps st)) ?k =
      (if ?k \<in> set ?stale then None else map_of (cp_caps st) ?k)"
    by (rule map_of_filter_keys)
  show ?thesis
  proof (cases "?k \<in> fst ` set (cp_caps st)")
    case True
    then obtain t where "map_of (cp_stamps st) ?k = Some (PTime t)" using stamp by auto
    with True ok(2) filt show ?thesis
      by (auto simp: load cap_prune_def get_capabilities_def cap_stale_def Let_def)
  next
    case False
    then have "map_of (cp_caps st) ?k = None" by (simp add: map_of_eq_None_iff)
    moreover have "map_of (cp_stamps st) ?k = None"
      using False assms by (auto simp: caps_ok_def map_of_eq_None_iff)
    ultimately show ?thesis using filt by (simp add: load cap_prune_def get_capabilities_def Let_def)
  qed
qed

theorem capability_restart_witness:
  "get_capabilities (cap_load 30 0 (days 31) True (Some (cap_file
     \<lparr>cp_caps = [(''c'', [])], cp_stamps = [(''c'', PTime (days 5))], cp_file = None, cp_path = True\<rparr>))) ''c'' = Some []"
  using capability_restart[of "\<lparr>cp_caps = [(''c'', [])], cp_stamps = [(''c'', PTime (days 5))],
      cp_file = None, cp_path = True\<rparr>" 30 0 "days 31" "''c''"]
  by (simp add: caps_ok_def days_def get_capabilities_def py_strip_def py_isspace_def code_def Let_def)

end
