(* ===== verification/Session_Lifecycle.thy ===== *)
theory Session_Lifecycle
  imports Lock_Coordinator Session_Context
begin

text \<open>
  core/session (metadata.py, factory.py, context.py) and the metadata store of
  store/filesystem/metadata.py: one JSON file per session with its immutable metadata and
  its mutable state.  A lookup that fails because of a missing file, a missing key or text
  that is not JSON is None; a bad enum value or time string raises ValueError, which the
  store does not catch.  H is the digest used for identifiers that are not file names.
\<close>

datatype session_status = SessActive | SessSuspended | SessArchived
datatype session_type = Regular | LongRunning

fun sess_value :: "session_status \<Rightarrow> string" where
  "sess_value SessActive = ''active''"
| "sess_value SessSuspended = ''suspended''"
| "sess_value SessArchived = ''archived''"

fun sess_type_value :: "session_type \<Rightarrow> string" where
  "sess_type_value Regular = ''regular''"
| "sess_type_value LongRunning = ''long_running''"

definition sess_of_value :: "string \<Rightarrow> session_status option" where
  "sess_of_value s = List.find (\<lambda>x. sess_value x = s) [SessActive, SessSuspended, SessArchived]"

definition sess_type_of_value :: "string \<Rightarrow> session_type option" where
  "sess_type_of_value s = List.find (\<lambda>x. sess_type_value x = s) [Regular, LongRunning]"

lemma sess_values [codec_simps, simp]:
  "sess_of_value (sess_value x) = Some x" "sess_type_of_value (sess_type_value y) = Some y"
  by (cases x; simp add: sess_of_value_def) (cases y; simp add: sess_type_of_value_def)

record session_metadata =
  sm_session :: string
  sm_context :: string
  sm_created :: time
  sm_type :: session_type

record session_state =
  ss_status :: session_status
  ss_activity :: time
  ss_turns :: int

definition meta_to_dict :: "session_metadata \<Rightarrow> dict" where
  "meta_to_dict m =
     [(''session_id'', PStr (sm_session m)), (''context_id'', PStr (sm_context m)),
      (''created_at'', PTime (sm_created m)), (''session_type'', PStr (sess_type_value (sm_type m)))]"

definition state_to_dict :: "session_state \<Rightarrow> dict" where
  "state_to_dict s =
     [(''status'', PStr (sess_value (ss_status s))), (''last_activity_at'', PTime (ss_activity s)),
      (''turn_count'', PInt (ss_turns s))]"

text \<open>
  data[k] raises KeyError, the conversions ValueError; a value of another type than the
  writers produce is an OtherError here.
\<close>

definition need :: "dict \<Rightarrow> string \<Rightarrow> exn + pyval" where
  "need d k = (case map_of d k of None \<Rightarrow> Inl (KeyError k) | Some v \<Rightarrow> Inr v)"

definition to_str :: "pyval \<Rightarrow> exn + string" where
  "to_str v = (case v of PStr s \<Rightarrow> Inr s | _ \<Rightarrow> Inl (OtherError ''type''))"

definition to_time :: "pyval \<Rightarrow> exn + time" where
  "to_time v = (case v of PTime t \<Rightarrow> Inr t | PStr s \<Rightarrow> Inl (ValueError s) | _ \<Rightarrow> Inl (OtherError ''type''))"

definition to_dict :: "pyval \<Rightarrow> exn + dict" where
  "to_dict v = (case v of PDict d \<Rightarrow> Inr d | _ \<Rightarrow> Inl (OtherError ''type''))"

definition bind_sum :: "'e + 'a \<Rightarrow> ('a \<Rightarrow> 'e + 'b) \<Rightarrow> 'e + 'b" where
  "bind_sum r f = (case r of Inl e \<Rightarrow> Inl e | Inr x \<Rightarrow> f x)"

lemma bind_sum_simps [simp]: "bind_sum (Inl e) f = Inl e" "bind_sum (Inr x) f = f x"
  by (simp_all add: bind_sum_def)

definition of_enum :: "(string \<Rightarrow> 'a option) \<Rightarrow> pyval \<Rightarrow> exn + 'a" where
  "of_enum f v =
     (case v of
        PStr s \<Rightarrow> (case f s of None \<Rightarrow> Inl (ValueError s) | Some x \<Rightarrow> Inr x)
      | _ \<Rightarrow> Inl (ValueError []))"

definition meta_from_dict :: "dict \<Rightarrow> exn + session_metadata" where
  "meta_from_dict d =
     bind_sum (need d ''created_at'') (\<lambda>c. bind_sum (to_time c) (\<lambda>created.
     bind_sum (bind_sum (need d ''session_id'') to_str) (\<lambda>sid.
     bind_sum (bind_sum (need d ''context_id'') to_str) (\<lambda>ctx.
     bind_sum (of_enum sess_type_of_value (dget_or d ''session_type'' (PStr ''regular''))) (\<lambda>ty.
       Inr \<lparr>sm_session = sid, sm_context = ctx, sm_created = created, sm_type = ty\<rparr>)))))"

definition state_from_dict :: "time \<Rightarrow> dict \<Rightarrow> exn + session_state" where
  "state_from_dict now d =
     bind_sum (case dget d ''last_activity_at'' of PNone \<Rightarrow> Inr now | v \<Rightarrow> to_time v) (\<lambda>act.
     bind_sum (of_enum sess_of_value (dget_or d ''status'' (PStr ''active''))) (\<lambda>st.
     bind_sum (case dget_or d ''turn_count'' (PInt 0) of PInt n \<Rightarrow> Inr n | _ \<Rightarrow> Inl (OtherError ''type'')) (\<lambda>n.
       Inr \<lparr>ss_status = st, ss_activity = act, ss_turns = n\<rparr>)))"

lemma meta_round_trip [codec_simps, simp]: "meta_from_dict (meta_to_dict m) = Inr m"
  by (simp add: meta_from_dict_def meta_to_dict_def need_def to_time_def to_str_def of_enum_def)

lemma state_round_trip [codec_simps, simp]: "state_from_dict now (state_to_dict s) = Inr s"
  by (simp add: state_from_dict_def state_to_dict_def to_time_def of_enum_def)

section \<open>The metadata store\<close>

definition safe_session_char :: "char \<Rightarrow> bool" where
  "safe_session_char c = (ascii_letter c \<or> ascii_digit c \<or> c = CHR ''_'' \<or> c = colon \<or> c = CHR ''-'')"

text \<open>The pattern ends in $, which also matches before a newline at the end.\<close>

definition session_id_matches :: "string \<Rightarrow> bool" where
  "session_id_matches s =
     (let t = (if s \<noteq> [] \<and> last s = newline then butlast s else s)
      in t \<noteq> [] \<and> list_all safe_session_char t)"

definition sanitize_session_id :: "(string \<Rightarrow> string) \<Rightarrow> string \<Rightarrow> string" where
  "sanitize_session_id H s = (if session_id_matches s then s else ''hashed_'' @ H s)"

definition meta_path :: "(string \<Rightarrow> string) \<Rightarrow> string \<Rightarrow> string" where
  "meta_path H s = sanitize_session_id H s @ ''.meta.json''"

definition meta_file :: "session_metadata \<Rightarrow> session_state \<Rightarrow> dict" where
  "meta_file m s = [(''__version'', PInt 1), (''metadata'', PDict (meta_to_dict m)),
     (''state'', PDict (state_to_dict s))]"

definition meta_save ::
  "(string \<Rightarrow> string) \<Rightarrow> doc dir \<Rightarrow> session_metadata \<Rightarrow> session_state \<Rightarrow> doc dir" where
  "meta_save H d m s = AList.update (meta_path H (sm_session m)) (Obj (meta_file m s)) d"

text \<open>The exceptions load and the listings catch, KeyError among them, give None.\<close>

definition caught :: "exn + 'a \<Rightarrow> exn + 'a option" where
  "caught r = (case r of Inr x \<Rightarrow> Inr (Some x) | Inl (KeyError _) \<Rightarrow> Inr None | Inl e \<Rightarrow> Inl e)"

definition field_dict :: "dict \<Rightarrow> string \<Rightarrow> exn + dict" where
  "field_dict v k = bind_sum (need v k) to_dict"

definition read_meta_state :: "time \<Rightarrow> dict \<Rightarrow> exn + (session_metadata \<times> session_state)" where
  "read_meta_state now v =
     bind_sum (bind_sum (field_dict v ''metadata'') meta_from_dict) (\<lambda>m.
     bind_sum (bind_sum (field_dict v ''state'') (state_from_dict now)) (\<lambda>s. Inr (m, s)))"

definition stored_version :: "dict \<Rightarrow> int" where
  "stored_version v = (case dget_or v ''__version'' (PInt 1) of PInt n \<Rightarrow> n | _ \<Rightarrow> 1)"

definition meta_load ::
  "(string \<Rightarrow> string) \<Rightarrow> doc dir \<Rightarrow> string \<Rightarrow> time \<Rightarrow> exn + (session_metadata \<times> session_state) option" where
  "meta_load H d sid now =
     (case map_of d (meta_path H sid) of
        None \<Rightarrow> Inr None
      | Some NotJson \<Rightarrow> Inr None
      | Some (Obj v) \<Rightarrow>
          if stored_version v > 1 then Inr None else caught (read_meta_state now v))"

definition meta_update_state :: "(string \<Rightarrow> string) \<Rightarrow> doc dir \<Rightarrow> string \<Rightarrow> session_state \<Rightarrow> bool \<times> doc dir" where
  "meta_update_state H d sid s =
     (case map_of d (meta_path H sid) of
        None \<Rightarrow> (False, d)
      | Some NotJson \<Rightarrow> (False, d)
      | Some (Obj v) \<Rightarrow>
          (True, AList.update (meta_path H sid)
             (Obj (AList.update ''state'' (PDict (state_to_dict s)) v)) d))"

definition meta_delete :: "(string \<Rightarrow> string) \<Rightarrow> doc dir \<Rightarrow> string \<Rightarrow> bool \<times> doc dir" where
  "meta_delete H d sid =
     (if map_of d (meta_path H sid) = None then (False, d)
      else (True, AList.delete (meta_path H sid) d))"

definition is_meta_name :: "string \<Rightarrow> bool" where
  "is_meta_name n = suffix ''.meta.json'' n"

text \<open>sel decides on a document: an uncaught error, skip it, or take a result.\<close>

fun meta_loop :: "(dict \<Rightarrow> exn + 'a option) \<Rightarrow> doc dir \<Rightarrow> exn + 'a list" where
  "meta_loop sel [] = Inr []"
| "meta_loop sel ((n, c) # d) =
     (case (if is_meta_name n then c else NotJson) of
        NotJson \<Rightarrow> meta_loop sel d
      | Obj v \<Rightarrow> bind_sum (sel v) (\<lambda>x. bind_sum (meta_loop sel d) (\<lambda>xs.
           Inr (case x of None \<Rightarrow> xs | Some y \<Rightarrow> y # xs))))"

definition newest_first :: "session_metadata list \<Rightarrow> session_metadata list" where
  "newest_first ms = py_sorted_rev sm_created ms"

definition select_context :: "string \<Rightarrow> dict \<Rightarrow> exn + session_metadata option" where
  "select_context ctx v =
     bind_sum (caught (bind_sum (field_dict v ''metadata'') meta_from_dict)) (\<lambda>m.
       Inr (case m of Some x \<Rightarrow> if sm_context x = ctx then Some x else None | None \<Rightarrow> None))"

definition meta_list_by_context :: "doc dir \<Rightarrow> string \<Rightarrow> exn + session_metadata list" where
  "meta_list_by_context d ctx =
     bind_sum (meta_loop (select_context ctx) d) (\<lambda>ms. Inr (newest_first ms))"

definition select_status :: "session_status \<Rightarrow> string option \<Rightarrow> time \<Rightarrow> dict \<Rightarrow> exn + session_metadata option" where
  "select_status st ctx now v =
     bind_sum (caught (read_meta_state now v)) (\<lambda>ms.
       Inr (case ms of
              Some (m, s) \<Rightarrow>
                if ss_status s \<noteq> st then None
                else if (case ctx of Some c \<Rightarrow> sm_context m \<noteq> c | None \<Rightarrow> False) then None
                else Some m
            | None \<Rightarrow> None))"

definition meta_list_by_status ::
  "doc dir \<Rightarrow> string \<Rightarrow> string option \<Rightarrow> time \<Rightarrow> exn + session_metadata list" where
  "meta_list_by_status d status ctx now =
     (case sess_of_value status of
        None \<Rightarrow> Inl (ValueError status)
      | Some st \<Rightarrow> bind_sum (meta_loop (select_status st ctx now) d) (\<lambda>ms. Inr (newest_first ms)))"

text \<open>Whether cleanup_archived removes a document; the state is read first, then the id.\<close>

definition archived_old :: "time \<Rightarrow> time \<Rightarrow> dict \<Rightarrow> exn + bool" where
  "archived_old cutoff now v =
     bind_sum (caught (bind_sum (field_dict v ''state'') (state_from_dict now))) (\<lambda>so.
       case so of
         None \<Rightarrow> Inr False
       | Some s \<Rightarrow>
           if ss_status s \<noteq> SessArchived then Inr False
           else if ss_activity s < cutoff
           then bind_sum (caught (bind_sum (field_dict v ''metadata'') (\<lambda>m. need m ''session_id'')))
                  (\<lambda>i. Inr (i \<noteq> None))
           else Inr False)"

text \<open>An uncaught error stops the loop; what was removed before stays removed.\<close>

fun cleanup_archived_loop :: "time \<Rightarrow> time \<Rightarrow> doc dir \<Rightarrow> (exn + nat) \<times> doc dir" where
  "cleanup_archived_loop cutoff now [] = (Inr 0, [])"
| "cleanup_archived_loop cutoff now ((n, c) # d) =
     (case (if is_meta_name n then c else NotJson) of
        NotJson \<Rightarrow> (let (r, d') = cleanup_archived_loop cutoff now d in (r, (n, c) # d'))
      | Obj v \<Rightarrow>
          (case archived_old cutoff now v of
             Inl e \<Rightarrow> (Inl e, (n, c) # d)
           | Inr True \<Rightarrow>
               (let (r, d') = cleanup_archived_loop cutoff now d
                in (bind_sum r (\<lambda>k. Inr (k + 1)), d'))
           | Inr False \<Rightarrow>
               (let (r, d') = cleanup_archived_loop cutoff now d in (r, (n, c) # d'))))"

definition cleanup_archived :: "doc dir \<Rightarrow> int \<Rightarrow> time \<Rightarrow> (exn + nat) \<times> doc dir" where
  "cleanup_archived d max_age_days now = cleanup_archived_loop (now - days max_age_days) now d"

section \<open>Session contexts\<close>

record session_ctx =
  cx_meta :: session_metadata
  cx_state :: session_state
  cx_locked :: bool
  cx_owner :: string

definition new_ctx :: "session_metadata \<Rightarrow> session_state \<Rightarrow> session_ctx" where
  "new_ctx m s = \<lparr>cx_meta = m, cx_state = s, cx_locked = False, cx_owner = []\<rparr>"

definition cx_session :: "session_ctx \<Rightarrow> string" where
  "cx_session cx = sm_session (cx_meta cx)"

definition lock_key_of :: "string \<Rightarrow> string" where
  "lock_key_of sid = ''session:'' @ sid"

definition lock_owner_of :: "string \<Rightarrow> string" where
  "lock_owner_of sid = ''session_context:'' @ sid"

text \<open>c1 and c2 are the readings of acquire, c3 that of the context.\<close>

definition ctx_enter ::
  "(string \<Rightarrow> string) \<Rightarrow> int \<Rightarrow> doc dir \<Rightarrow> session_ctx \<Rightarrow> time \<Rightarrow> time \<Rightarrow> time \<Rightarrow> (exn + session_ctx) \<times> doc dir" where
  "ctx_enter H dflt locks cx c1 c2 c3 =
     (let sid = cx_session cx; cx1 = cx\<lparr>cx_owner := lock_owner_of sid\<rparr>
      in case lock_acquire H dflt locks (lock_key_of sid) (lock_owner_of sid) None c1 c2 of
           (None, l) \<Rightarrow> (Inl (LockAcquisitionError (''Failed to acquire lock: '' @ lock_key_of sid)), l)
         | (Some _, l) \<Rightarrow>
             (Inr (cx1\<lparr>cx_locked := True,
                cx_state := (cx_state cx)\<lparr>ss_status := SessActive, ss_activity := c3\<rparr>\<rparr>), l))"

definition ctx_exit ::
  "(string \<Rightarrow> string) \<Rightarrow> doc dir \<Rightarrow> session_ctx \<Rightarrow> bool \<Rightarrow> time \<Rightarrow> session_ctx \<times> doc dir" where
  "ctx_exit H locks cx raised now =
     (let l = (if cx_locked cx
               then snd (lock_release H locks (lock_key_of (cx_session cx)) (cx_owner cx)) else locks);
          st = (cx_state cx)\<lparr>ss_activity := now\<rparr>;
          st' = (if \<not> raised \<and> sm_type (cx_meta cx) = LongRunning
                 then st\<lparr>ss_status := SessSuspended\<rparr> else st)
      in (cx\<lparr>cx_locked := False, cx_state := st'\<rparr>, l))"

definition ctx_set_status :: "session_status \<Rightarrow> time \<Rightarrow> session_ctx \<Rightarrow> session_ctx" where
  "ctx_set_status st now cx = cx\<lparr>cx_state := (cx_state cx)\<lparr>ss_status := st, ss_activity := now\<rparr>\<rparr>"

definition increment_turn_count :: "time \<Rightarrow> session_ctx \<Rightarrow> session_ctx" where
  "increment_turn_count now cx =
     cx\<lparr>cx_state := (cx_state cx)\<lparr>ss_turns := ss_turns (cx_state cx) + 1, ss_activity := now\<rparr>\<rparr>"

section \<open>The factory\<close>

record session_world =
  w_meta :: "doc dir"
  w_active :: table_state
  w_locks :: "doc dir"

definition generate_session_id :: "string \<Rightarrow> string \<Rightarrow> string" where
  "generate_session_id ctx hex12 = map (\<lambda>c. if c = colon then CHR ''_'' else c) ctx @ colon # hex12"

definition factory_create ::
  "(string \<Rightarrow> string) \<Rightarrow> session_world \<Rightarrow> string \<Rightarrow> session_type \<Rightarrow> string option \<Rightarrow> string \<Rightarrow> time \<Rightarrow> time
    \<Rightarrow> session_ctx \<times> session_world" where
  "factory_create H w ctx ty sid hex12 c1 c2 =
     (let i = (case sid of Some s \<Rightarrow> if s \<noteq> [] then s else generate_session_id ctx hex12
               | None \<Rightarrow> generate_session_id ctx hex12);
          m = \<lparr>sm_session = i, sm_context = ctx, sm_created = c1, sm_type = ty\<rparr>;
          s = \<lparr>ss_status = SessActive, ss_activity = c2, ss_turns = 0\<rparr>
      in (new_ctx m s, w\<lparr>w_meta := meta_save H (w_meta w) m s,
            w_active := set_active_session True ctx i (w_active w)\<rparr>))"

definition factory_resume ::
  "(string \<Rightarrow> string) \<Rightarrow> session_world \<Rightarrow> string \<Rightarrow> time \<Rightarrow> time \<Rightarrow> exn + session_ctx" where
  "factory_resume H w sid c1 c2 =
     (case meta_load H (w_meta w) sid c1 of
        Inl e \<Rightarrow> Inl e
      | Inr None \<Rightarrow> Inl (SessionNotFoundError sid)
      | Inr (Some (m, s)) \<Rightarrow>
          Inr (new_ctx m (if ss_status s = SessSuspended
             then s\<lparr>ss_status := SessActive, ss_activity := c2\<rparr> else s)))"

definition factory_get_or_create ::
  "(string \<Rightarrow> string) \<Rightarrow> session_world \<Rightarrow> string \<Rightarrow> session_type \<Rightarrow> string \<Rightarrow> time \<Rightarrow> time \<Rightarrow> time \<Rightarrow> time
    \<Rightarrow> (exn + session_ctx) \<times> session_world" where
  "factory_get_or_create H w ctx ty hex12 c1 c2 c3 c4 =
     (let fresh = (case factory_create H w ctx ty None hex12 c3 c4 of (cx, w') \<Rightarrow> (Inr cx, w'))
      in case get_active_session (w_active w) ctx of
           None \<Rightarrow> fresh
         | Some sid \<Rightarrow>
             (case factory_resume H w sid c1 c2 of
                Inr cx \<Rightarrow> (Inr cx, w)
              | Inl (SessionNotFoundError _) \<Rightarrow> fresh
              | Inl e \<Rightarrow> (Inl e, w)))"

definition factory_archive ::
  "(string \<Rightarrow> string) \<Rightarrow> session_world \<Rightarrow> string \<Rightarrow> time \<Rightarrow> time \<Rightarrow> (exn + bool) \<times> session_world" where
  "factory_archive H w sid c1 c2 =
     (case meta_load H (w_meta w) sid c1 of
        Inl e \<Rightarrow> (Inl e, w)
      | Inr None \<Rightarrow> (Inr False, w)
      | Inr (Some (m, s)) \<Rightarrow>
          (let (ok, d) = meta_update_state H (w_meta w) sid (s\<lparr>ss_status := SessArchived, ss_activity := c2\<rparr>);
               w1 = w\<lparr>w_meta := d\<rparr>
           in (Inr ok,
               if ok \<and> get_active_session (w_active w1) (sm_context m) = Some sid
               then w1\<lparr>w_active := clear_active_session True (sm_context m) (w_active w1)\<rparr> else w1)))"

definition factory_persist_state :: "(string \<Rightarrow> string) \<Rightarrow> session_world \<Rightarrow> session_ctx \<Rightarrow> bool \<times> session_world" where
  "factory_persist_state H w cx =
     (let (ok, d) = meta_update_state H (w_meta w) (cx_session cx) (cx_state cx) in (ok, w\<lparr>w_meta := d\<rparr>))"

section \<open>Lemmas\<close>

lemma meta_load_save [store_simps]:
  "meta_load H (meta_save H d m s) sid now =
     (if meta_path H sid = meta_path H (sm_session m) then Inr (Some (m, s)) else meta_load H d sid now)"
  by (simp add: meta_load_def meta_save_def meta_file_def stored_version_def read_meta_state_def
      field_dict_def need_def to_dict_def caught_def)

lemma meta_load_update_state:
  assumes "meta_load H d sid now = Inr (Some (m, s))" and "meta_update_state H d sid s' = (ok, d')"
  shows "ok" and "meta_load H d' sid now' = Inr (Some (m, s'))"
proof -
  obtain v where v: "map_of d (meta_path H sid) = Some (Obj v)" "\<not> stored_version v > 1"
    "caught (read_meta_state now v) = Inr (Some (m, s))"
    using assms(1) by (auto simp: meta_load_def split: option.splits doc.splits if_splits)
  then have "read_meta_state now v = Inr (m, s)" by (auto simp: caught_def split: sum.splits exn.splits)
  then have m: "bind_sum (field_dict v ''metadata'') meta_from_dict = Inr m"
    by (auto simp: read_meta_state_def bind_sum_def split: sum.splits)
  let ?v = "AList.update ''state'' (PDict (state_to_dict s')) v"
  have d': "ok" "map_of d' (meta_path H sid) = Some (Obj ?v)"
    using assms(2) v(1) by (auto simp: meta_update_state_def alist_simps)
  moreover have "stored_version ?v = stored_version v"
    by (simp add: stored_version_def dget_or_def)
  moreover have "read_meta_state now' ?v = Inr (m, s')"
  proof -
    have "field_dict ?v ''metadata'' = field_dict v ''metadata''" by (simp add: field_dict_def need_def)
    moreover have "field_dict ?v ''state'' = Inr (state_to_dict s')" by (simp add: field_dict_def need_def to_dict_def)
    ultimately show ?thesis using m by (simp add: read_meta_state_def)
  qed
  ultimately show "ok" "meta_load H d' sid now' = Inr (Some (m, s'))"
    using v(2) by (simp_all add: meta_load_def caught_def)
qed

lemma py_strip_stripped: "stripped (Some (py_strip s)) = (if py_strip s = [] then None else Some (py_strip s))"
  by (simp add: stripped_def)

section \<open>Properties\<close>

text \<open>
  Creating, resuming and archiving a session.  After create for a trimmed context and
  session id the session is the active one of its context and get_or_create resumes it
  with the metadata and state that were stored; after archive_session it loads as ARCHIVED
  with the same metadata and is no longer the active session of its context.
\<close>

theorem session_create_archive:
  assumes "factory_create H w ctx ty (Some sid) hex c1 c2 = (cx, w1)"
    and "sid \<noteq> []" and "py_strip sid = sid" and "py_strip ctx = ctx" and "ctx \<noteq> []"
  shows "get_active_session (w_active w1) ctx = Some sid \<and>
    factory_get_or_create H w1 ctx ty' hex' c3 c4 c5 c6 = (Inr cx, w1) \<and>
    (\<exists>w2. factory_archive H w1 sid c7 c8 = (Inr True, w2) \<and>
       meta_load H (w_meta w2) sid c9 = Inr (Some (cx_meta cx,
         (cx_state cx)\<lparr>ss_status := SessArchived, ss_activity := c8\<rparr>)) \<and>
       get_active_session (w_active w2) ctx = None)"
proof -
  let ?m = "\<lparr>sm_session = sid, sm_context = ctx, sm_created = c1, sm_type = ty\<rparr>"
  let ?s = "\<lparr>ss_status = SessActive, ss_activity = c2, ss_turns = 0\<rparr>"
  have w1: "w_meta w1 = meta_save H (w_meta w) ?m ?s" "cx = new_ctx ?m ?s"
    "w_active w1 = set_active_session True ctx sid (w_active w)"
    using assms(1,2) by (auto simp: factory_create_def Let_def)
  have load: "meta_load H (w_meta w1) sid c = Inr (Some (?m, ?s))" for c
    by (simp add: w1(1) meta_load_save)
  have active: "get_active_session (w_active w1) ctx = Some sid"
    using assms(2-5) by (simp add: w1(3) get_active_session_def set_active_session_def table_set_def
        table_save_def stripped_def)
  then have goc: "factory_get_or_create H w1 ctx ty' hex' c3 c4 c5 c6 = (Inr cx, w1)"
    using load by (simp add: factory_get_or_create_def factory_resume_def w1(2) Let_def split: prod.split)
  obtain ok d where u: "meta_update_state H (w_meta w1) sid (?s\<lparr>ss_status := SessArchived, ss_activity := c8\<rparr>) = (ok, d)"
    by fastforce
  note u' = meta_load_update_state[OF load u]
  have "map_of (tb_map (w_active w1)) ctx \<noteq> None"
    using active by (simp add: get_active_session_def stripped_def split: option.splits)
  then have "get_active_session (clear_active_session True ctx (w_active w1)) ctx = None"
    using assms(4,5) by (simp add: get_active_session_def clear_active_session_def table_save_def stripped_def)
  then have "\<exists>w2. factory_archive H w1 sid c7 c8 = (Inr True, w2) \<and>
       meta_load H (w_meta w2) sid c9 = Inr (Some (cx_meta cx,
         (cx_state cx)\<lparr>ss_status := SessArchived, ss_activity := c8\<rparr>)) \<and>
       get_active_session (w_active w2) ctx = None"
    using load u u' active by (simp add: factory_archive_def w1(2) new_ctx_def)
  with active goc show ?thesis by blast
qed

definition empty_world :: session_world where
  "empty_world = \<lparr>w_meta = [], w_active = table_start True None, w_locks = []\<rparr>"

theorem session_create_archive_witness:
  "get_active_session (w_active (snd (factory_create id empty_world ''c'' Regular (Some ''s'') [] 0 0))) ''c'' = Some ''s''"
  using session_create_archive[OF prod.collapse[symmetric], of "''s''" "''c''"]
  by (simp add: py_strip_def py_isspace_def code_def Let_def)

text \<open>
  The session lock does not exclude a second context of the same session.  While one
  context is inside, another one of the session enters as well, since both use the same lock
  owner; and when the first leaves, the lock is free although the second is inside, so any
  other owner is then granted it.
\<close>

theorem session_lock_not_exclusive:
  assumes "ctx_enter H dflt locks a c1 c2 c3 = (Inr a', l1)" and "cx_session b = cx_session a"
  shows "\<exists>b' l2 a'' l3 rec l4. ctx_enter H dflt l1 b c4 c5 c6 = (Inr b', l2) \<and> cx_locked b' \<and>
    ctx_exit H l2 a' False c7 = (a'', l3) \<and>
    \<not> lock_is_locked H l3 (lock_key_of (cx_session b)) c8 \<and>
    lock_acquire H dflt l3 (lock_key_of (cx_session b)) other None c9 c10 = (Some rec, l4)"
proof -
  let ?k = "lock_key_of (cx_session a)" and ?o = "lock_owner_of (cx_session a)"
  obtain r where acq: "lock_acquire H dflt locks ?k ?o None c1 c2 = (Some r, l1)"
    using assms(1) by (auto simp: ctx_enter_def Let_def split: prod.splits option.splits)
  have a': "cx_locked a'" "cx_owner a' = ?o" "cx_session a' = cx_session a"
    using assms(1) by (auto simp: ctx_enter_def Let_def cx_session_def split: prod.splits option.splits)
  obtain e where e: "lock_read H l1 ?k = Some e" "lk_owner e = ?o"
    using acq by (auto simp: lock_acquire_cases Let_def store_simps split: option.splits if_splits)
  then obtain r2 l2 where r2: "lock_acquire H dflt l1 ?k ?o None c4 c5 = (Some r2, l2)"
    and l2: "\<exists>e. lock_read H l2 ?k = Some e \<and> lk_owner e = ?o"
    by (auto simp: lock_acquire_cases Let_def store_simps)
  let ?l3 = "snd (lock_release H l2 ?k ?o)"
  have free: "lock_read H ?l3 ?k = None"
    using l2 by (auto simp: lock_release_def store_simps)
  then obtain r4 l4 where "lock_acquire H dflt ?l3 ?k other None c9 c10 = (Some r4, l4)"
    by (simp add: lock_acquire_cases Let_def)
  moreover have "\<exists>b'. ctx_enter H dflt l1 b c4 c5 c6 = (Inr b', l2) \<and> cx_locked b'"
    using r2 assms(2) by (simp add: ctx_enter_def Let_def)
  moreover have "\<exists>a''. ctx_exit H l2 a' False c7 = (a'', ?l3)"
    using a' by (simp add: ctx_exit_def Let_def)
  ultimately show ?thesis using free assms(2) by (auto simp: lock_is_locked_def)
qed

theorem session_lock_not_exclusive_witness:
  "\<exists>a' l1 b' l2. ctx_enter id 30 [] (new_ctx \<lparr>sm_session = ''s'', sm_context = ''c'', sm_created = 0, sm_type = Regular\<rparr>
       \<lparr>ss_status = SessActive, ss_activity = 0, ss_turns = 0\<rparr>) 0 0 0 = (Inr a', l1) \<and>
     ctx_enter id 30 l1 (new_ctx \<lparr>sm_session = ''s'', sm_context = ''c'', sm_created = 0, sm_type = Regular\<rparr>
       \<lparr>ss_status = SessActive, ss_activity = 0, ss_turns = 0\<rparr>) 1 1 1 = (Inr b', l2)"
proof -
  let ?c = "new_ctx \<lparr>sm_session = ''s'', sm_context = ''c'', sm_created = 0, sm_type = Regular\<rparr>
       \<lparr>ss_status = SessActive, ss_activity = 0, ss_turns = 0\<rparr>"
  obtain a' l1 where e: "ctx_enter id 30 [] ?c 0 0 0 = (Inr a', l1)"
    by (simp add: ctx_enter_def lock_acquire_cases lock_read_def read_rec_def Let_def)
  from session_lock_not_exclusive[OF this refl, of 1 1 1] show ?thesis using e by blast
qed

end
