(* ===== verification/Replay.thy ===== *)
theory Replay
  imports Session_Log
begin

text \<open>
  store/filesystem/replay.py: the part of a session's history that goes into the model's
  context.  The dictionaries and lists of the loops are association lists in insertion
  order; tool call identifiers are the JSON values of the payload field (hashable ones, as
  the writers only store strings).
\<close>

definition model_turn_types :: "record_type list" where
  "model_turn_types = [UserMessage, AssistantMessage, AssistantToolCall, ToolResult, SystemMessage]"

definition is_session_system :: "session_record \<Rightarrow> bool" where
  "is_session_system r =
     (sr_type r = SystemMessage \<and> dget (sr_payload r) ''scope'' = PStr ''session'')"

definition find_latest_session_system_message :: "session_record list \<Rightarrow> session_record option" where
  "find_latest_session_system_message ordered =
     fold (\<lambda>r latest. if is_session_system r then Some r else latest) ordered None"

definition collect_compaction_summaries :: "session_record list \<Rightarrow> session_record list" where
  "collect_compaction_summaries ordered = filter (\<lambda>r. sr_type r = CompactionSummary) ordered"

text \<open>The dictionary turns of the code, whose insertion order is its turn_order.\<close>

definition group_turns :: "session_record list \<Rightarrow> (string \<times> session_record list) list" where
  "group_turns ordered =
     fold (\<lambda>r turns. AList.update (sr_turn r)
        ((case map_of turns (sr_turn r) of None \<Rightarrow> [] | Some rs \<Rightarrow> rs) @ [r]) turns) ordered []"

definition has_terminal :: "session_record list \<Rightarrow> bool" where
  "has_terminal rs = list_ex (\<lambda>r. sr_type r = TurnTerminal) rs"

definition collect_complete_turns :: "session_record list \<Rightarrow> session_record list list" where
  "collect_complete_turns ordered = filter has_terminal (map snd (group_turns ordered))"

definition tool_id :: "session_record \<Rightarrow> pyval" where
  "tool_id r = dget (sr_payload r) ''tool_call_id''"

definition tool_ids :: "record_type \<Rightarrow> session_record list \<Rightarrow> pyval set" where
  "tool_ids ty rs = set (filter truthy (map tool_id (filter (\<lambda>r. sr_type r = ty) rs)))"

definition model_records :: "session_record list \<Rightarrow> session_record list" where
  "model_records turn =
     filter (\<lambda>r. sr_type r \<in> set model_turn_types \<and> \<not> is_session_system r) turn"

definition filter_turn_records :: "session_record list \<Rightarrow> session_record list" where
  "filter_turn_records turn =
     (let ms = model_records turn;
          matched = tool_ids AssistantToolCall ms \<inter> tool_ids ToolResult ms
      in filter (\<lambda>r. sr_type r \<notin> {AssistantToolCall, ToolResult} \<or> tool_id r \<in> matched) ms)"

fun drop_oldest :: "int \<Rightarrow> 'a list list \<Rightarrow> 'a list list" where
  "drop_oldest remaining [] = []"
| "drop_oldest remaining (s # slots) =
     (if int (sum_list (map length (s # slots))) > remaining then drop_oldest remaining slots
      else s # slots)"

definition turn_slots :: "session_record list \<Rightarrow> session_record list list" where
  "turn_slots ordered = filter (\<lambda>s. s \<noteq> []) (map filter_turn_records (collect_complete_turns ordered))"

definition prepend_summaries ::
  "session_record list \<Rightarrow> session_record list \<times> int \<Rightarrow> session_record list \<times> int" where
  "prepend_summaries ss st =
     fold (\<lambda>s (res, room). if room > 0 then (res @ [s], room - 1) else (res, room)) ss st"

definition build_replay :: "session_record list \<Rightarrow> int \<Rightarrow> session_record list" where
  "build_replay records budget =
     (if records = [] then []
      else
        (let ordered = py_sorted sr_seq records;
             start = (case find_latest_session_system_message ordered of
                        Some m \<Rightarrow> if budget > 0 then ([m], budget - 1) else ([], budget)
                      | None \<Rightarrow> ([], budget));
             (front, remaining) = prepend_summaries (collect_compaction_summaries ordered) start
         in front @ concat (drop_oldest remaining (turn_slots ordered))))"

definition replay_for_turn :: "sessions \<Rightarrow> string \<Rightarrow> int \<Rightarrow> session_record list" where
  "replay_for_turn d sid budget = build_replay (read_session d sid) budget"

section \<open>Lemmas\<close>

lemma prepend_summaries_eq:
  "prepend_summaries ss (res, room) =
     (res @ take (nat room) ss, max (min room 0) (room - int (length ss)))"
proof (induction ss arbitrary: res room)
  case (Cons s ss)
  show ?case
  proof (cases "room > 0")
    case True
    then have "nat room = Suc (nat (room - 1))" by simp
    then show ?thesis using Cons.IH[of "res @ [s]" "room - 1"] True
      by (auto simp: prepend_summaries_def)
  next
    case False
    then show ?thesis using Cons.IH[of res room] by (auto simp: prepend_summaries_def)
  qed
qed (simp add: prepend_summaries_def)

lemma drop_oldest_suffix: "\<exists>k \<le> length slots. drop_oldest room slots = drop k slots \<and>
    (int (sum_list (map length (drop k slots))) \<le> room \<or> k = length slots) \<and>
    (\<forall>j < k. int (sum_list (map length (drop j slots))) > room)"
proof (induction slots)
  case (Cons s slots)
  show ?case
  proof (cases "int (sum_list (map length (s # slots))) > room")
    case True
    from Cons.IH obtain k where k: "k \<le> length slots" "drop_oldest room slots = drop k slots"
      "int (sum_list (map length (drop k slots))) \<le> room \<or> k = length slots"
      "\<forall>j < k. int (sum_list (map length (drop j slots))) > room" by blast
    have "int (sum_list (map length (drop j (s # slots)))) > room" if "j < Suc k" for j
      using that True k(4) by (cases j) auto
    with k True show ?thesis by (intro exI[of _ "Suc k"]) auto
  qed (intro exI[of _ 0], simp)
qed simp

lemma drop_oldest_length: "room \<ge> 0 \<Longrightarrow> int (length (concat (drop_oldest room slots))) \<le> room"
proof (induction slots)
  case (Cons s slots)
  then show ?case by (auto simp: length_concat)
qed simp

lemma drop_oldest_negative: "room < 0 \<Longrightarrow> drop_oldest room slots = []"
  by (induction slots) (auto intro: order_less_le_trans)

lemma drop_oldest_subset: "set (drop_oldest room slots) \<subseteq> set slots"
  by (induction slots) auto

text \<open>What group_turns computes: one entry per turn, its records in order.\<close>

lemma group_turns_snoc:
  "group_turns (rs @ [r]) =
     AList.update (sr_turn r)
       ((case map_of (group_turns rs) (sr_turn r) of None \<Rightarrow> [] | Some ts \<Rightarrow> ts) @ [r]) (group_turns rs)"
  by (simp add: group_turns_def)

lemma map_of_group_turns:
  "map_of (group_turns rs) t =
     (if t \<in> sr_turn ` set rs then Some (filter (\<lambda>r. sr_turn r = t) rs) else None)"
proof (induction rs rule: rev_induct)
  case (snoc r rs)
  then show ?case by (auto simp: group_turns_snoc alist_simps empty_filter_conv) (metis imageI)
qed (simp add: group_turns_def)

lemma distinct_group_turns: "distinct (map fst (group_turns rs))"
  by (induction rs rule: rev_induct) (simp_all add: group_turns_snoc distinct_update, simp add: group_turns_def)

lemma complete_turn_cases:
  assumes "ts \<in> set (collect_complete_turns rs)"
  obtains t where "ts = filter (\<lambda>r. sr_turn r = t) rs" and "has_terminal ts"
proof -
  from assms obtain t where "(t, ts) \<in> set (group_turns rs)" "has_terminal ts"
    by (auto simp: collect_complete_turns_def)
  moreover have "map_of (group_turns rs) t = Some ts"
    using calculation(1) distinct_group_turns by simp
  ultimately show ?thesis using that by (auto simp: map_of_group_turns split: if_splits)
qed

lemma turn_slot_cases:
  assumes "s \<in> set (turn_slots rs)"
  obtains t where "s = filter_turn_records (filter (\<lambda>r. sr_turn r = t) rs)"
    and "\<exists>r \<in> set rs. sr_turn r = t \<and> sr_type r = TurnTerminal"
proof -
  from assms obtain ts where ts: "s = filter_turn_records ts" "ts \<in> set (collect_complete_turns rs)"
    by (auto simp: turn_slots_def)
  from ts(2) show ?thesis
    by (rule complete_turn_cases) (use ts(1) that in \<open>auto simp: has_terminal_def list_ex_iff\<close>)
qed

lemma tool_ids_iff:
  "v \<in> tool_ids ty rs \<longleftrightarrow> truthy v \<and> (\<exists>r \<in> set rs. sr_type r = ty \<and> tool_id r = v)"
  by (auto simp: tool_ids_def)

lemma filter_turn_mem:
  "r \<in> set (filter_turn_records turn) \<longleftrightarrow> r \<in> set (model_records turn) \<and>
     (sr_type r \<in> {AssistantToolCall, ToolResult} \<longrightarrow>
        tool_id r \<in> tool_ids AssistantToolCall (model_records turn) \<inter> tool_ids ToolResult (model_records turn))"
  by (auto simp: filter_turn_records_def Let_def)

text \<open>In a filtered turn each tool call has its result and each result its call.\<close>

lemma filter_turn_paired:
  assumes "r \<in> set (filter_turn_records turn)" and "sr_type r \<in> {AssistantToolCall, ToolResult}"
    and ty: "ty \<in> {AssistantToolCall, ToolResult}"
  obtains r' where "r' \<in> set (filter_turn_records turn)" and "sr_type r' = ty"
    and "tool_id r' = tool_id r"
proof -
  let ?ids = "\<lambda>ty. tool_ids ty (model_records turn)"
  have m: "tool_id r \<in> ?ids AssistantToolCall \<inter> ?ids ToolResult"
    using assms(1,2) unfolding filter_turn_mem by blast
  then have "tool_id r \<in> ?ids ty" using ty by auto
  then obtain r' where r': "r' \<in> set (model_records turn)" "sr_type r' = ty" "tool_id r' = tool_id r"
    unfolding tool_ids_iff by blast
  then have "r' \<in> set (filter_turn_records turn)" unfolding filter_turn_mem using m by simp
  with r' that show ?thesis by blast
qed

lemma filter_turn_subset: "set (filter_turn_records turn) \<subseteq> set (model_records turn)"
  by (auto simp: filter_turn_records_def Let_def)

lemma find_latest_some:
  "find_latest_session_system_message rs = Some m \<Longrightarrow> m \<in> set rs \<and> is_session_system m"
proof (induction rs rule: rev_induct)
  case (snoc r rs)
  then show ?case by (auto simp: find_latest_session_system_message_def split: if_splits)
qed (simp add: find_latest_session_system_message_def)

text \<open>The records before the turns: the system message and the summaries, as the budget allows.\<close>

definition replay_front :: "session_record list \<Rightarrow> int \<Rightarrow> session_record list" where
  "replay_front records budget =
     (let ordered = py_sorted sr_seq records
      in take (nat budget) ((case find_latest_session_system_message ordered of Some m \<Rightarrow> [m] | None \<Rightarrow> [])
           @ collect_compaction_summaries ordered))"

lemma build_replay_eq:
  "build_replay records budget =
     (if records = [] then []
      else replay_front records budget @
        concat (drop_oldest (budget - int (length (replay_front records budget)))
          (turn_slots (py_sorted sr_seq records))))"
proof (cases "find_latest_session_system_message (py_sorted sr_seq records)")
  case None
  then show ?thesis
    by (auto simp: build_replay_def replay_front_def Let_def prepend_summaries_eq min_def max_def
        intro!: arg_cong[where f = concat] arg_cong2[where f = drop_oldest])
next
  case (Some m)
  show ?thesis
  proof (cases "budget > 0")
    case True
    then have "nat budget = Suc (nat (budget - 1))" by simp
    with Some True show ?thesis
      by (auto simp: build_replay_def replay_front_def Let_def prepend_summaries_eq min_def max_def
          intro!: arg_cong[where f = concat] arg_cong2[where f = drop_oldest])
  next
    case False
    with Some show ?thesis
      by (auto simp: build_replay_def replay_front_def Let_def prepend_summaries_eq min_def max_def
          intro!: arg_cong[where f = concat] arg_cong2[where f = drop_oldest])
  qed
qed

section \<open>Properties\<close>

text \<open>
  The history handed to the model never has more records than the budget (none for a
  budget that is not positive), whatever the stored records.
\<close>

theorem build_replay_budget: "int (length (build_replay records budget)) \<le> max 0 budget"
proof (cases "records = [] \<or> budget < 0")
  case False
  let ?f = "replay_front records budget"
  have "length ?f \<le> nat budget" unfolding replay_front_def Let_def length_take by (rule min.cobounded2)
  then have f: "int (length ?f) \<le> budget" using False by linarith
  have "int (length (concat (drop_oldest (budget - int (length ?f))
      (turn_slots (py_sorted sr_seq records))))) \<le> budget - int (length ?f)"
    using f by (intro drop_oldest_length) simp
  then show ?thesis using False by (simp add: build_replay_eq)
next
  case True
  then show ?thesis by (auto simp: build_replay_eq replay_front_def Let_def drop_oldest_negative)
qed

lemma build_replay_mem:
  assumes "r \<in> set (build_replay records budget)"
  shows "is_session_system r \<and> r \<in> set records \<or> sr_type r = CompactionSummary \<and> r \<in> set records
    \<or> (\<exists>t. r \<in> set (filter_turn_records (filter (\<lambda>x. sr_turn x = t) (py_sorted sr_seq records)))
        \<and> (\<exists>x \<in> set records. sr_turn x = t \<and> sr_type x = TurnTerminal)
        \<and> set (filter_turn_records (filter (\<lambda>x. sr_turn x = t) (py_sorted sr_seq records)))
            \<subseteq> set (build_replay records budget))"
proof -
  let ?o = "py_sorted sr_seq records"
  from assms have "r \<in> set (replay_front records budget) \<or>
      (\<exists>s \<in> set (drop_oldest (budget - int (length (replay_front records budget))) (turn_slots ?o)).
        r \<in> set s)"
    by (auto simp: build_replay_eq split: if_splits)
  then show ?thesis
  proof
    assume "r \<in> set (replay_front records budget)"
    then show ?thesis
      by (auto simp: replay_front_def Let_def collect_compaction_summaries_def
          dest!: in_set_takeD find_latest_some split: option.splits)
  next
    assume "\<exists>s \<in> set (drop_oldest (budget - int (length (replay_front records budget))) (turn_slots ?o)).
        r \<in> set s"
    then obtain s where s: "s \<in> set (drop_oldest (budget - int (length (replay_front records budget))) (turn_slots ?o))"
      "r \<in> set s" by blast
    then have "s \<in> set (turn_slots ?o)" using drop_oldest_subset by blast
    moreover have "set s \<subseteq> set (build_replay records budget)"
      using s assms by (auto simp: build_replay_eq)
    ultimately show ?thesis
    proof (elim turn_slot_cases)
      fix t assume "s = filter_turn_records (filter (\<lambda>r. sr_turn r = t) ?o)"
        and "\<exists>r \<in> set ?o. sr_turn r = t \<and> sr_type r = TurnTerminal"
        and "set s \<subseteq> set (build_replay records budget)"
      then show ?thesis using s(2) by (intro disjI2 exI[of _ t]) simp
    qed
  qed
qed

lemma model_records_type:
  "r \<in> set (model_records ts) \<Longrightarrow> r \<in> set ts \<and> sr_type r \<in> set model_turn_types \<and> \<not> is_session_system r"
  by (simp add: model_records_def)

lemma filter_turn_mem_filter:
  "r \<in> set (filter_turn_records (filter (\<lambda>x. sr_turn x = t) (py_sorted sr_seq rs))) \<Longrightarrow>
     r \<in> set rs \<and> sr_turn r = t \<and> sr_type r \<in> set model_turn_types"
  using filter_turn_subset model_records_type by fastforce

lemma build_replay_partner:
  assumes "r \<in> set (build_replay records budget)" and "sr_type r \<in> {AssistantToolCall, ToolResult}"
    and "ty \<in> {AssistantToolCall, ToolResult}"
  shows "list_ex (\<lambda>r'. sr_type r' = ty \<and> tool_id r' = tool_id r \<and> sr_turn r' = sr_turn r)
    (build_replay records budget)"
proof -
  from build_replay_mem[OF assms(1)] assms(2) obtain t where
    t: "r \<in> set (filter_turn_records (filter (\<lambda>x. sr_turn x = t) (py_sorted sr_seq records)))"
    "set (filter_turn_records (filter (\<lambda>x. sr_turn x = t) (py_sorted sr_seq records)))
      \<subseteq> set (build_replay records budget)"
    by (auto simp: is_session_system_def)
  from filter_turn_paired[OF t(1) assms(2,3)] obtain r' where
    r': "r' \<in> set (filter_turn_records (filter (\<lambda>x. sr_turn x = t) (py_sorted sr_seq records)))"
    "sr_type r' = ty" "tool_id r' = tool_id r" .
  have "sr_turn r' = t" "sr_turn r = t"
    using filter_turn_mem_filter[OF r'(1)] filter_turn_mem_filter[OF t(1)] by auto
  then show ?thesis unfolding list_ex_iff using r' t(2) by (intro bexI[of _ r']) auto
qed

text \<open>
  The model sees no dangling tool call.  Every tool call record of the replayed history
  has a tool result with its identifier in the history and in the same turn, and every tool
  result its call.
\<close>

theorem build_replay_paired:
  "list_all (\<lambda>r.
     (sr_type r = AssistantToolCall \<longrightarrow> list_ex (\<lambda>r'. sr_type r' = ToolResult \<and> tool_id r' = tool_id r
        \<and> sr_turn r' = sr_turn r) (build_replay records budget)) \<and>
     (sr_type r = ToolResult \<longrightarrow> list_ex (\<lambda>r'. sr_type r' = AssistantToolCall \<and> tool_id r' = tool_id r
        \<and> sr_turn r' = sr_turn r) (build_replay records budget)))
   (build_replay records budget)"
  unfolding list_all_iff using build_replay_partner by blast

text \<open>An example: turn a fits the budget of two, turn b has a call without a result and no terminal.\<close>

definition demo_record :: "int \<Rightarrow> string \<Rightarrow> record_type \<Rightarrow> session_record" where
  "demo_record n t ty = \<lparr>sr_session = ''s'', sr_seq = n, sr_event = show_int n, sr_turn = t,
     sr_time = 0, sr_type = ty, sr_payload = [(''tool_call_id'', PStr ''c'')]\<rparr>"

definition demo_turns :: "session_record list" where
  "demo_turns = [demo_record 0 ''a'' AssistantToolCall, demo_record 1 ''a'' ToolResult,
     demo_record 2 ''a'' TurnTerminal, demo_record 3 ''b'' AssistantToolCall]"

theorem build_replay_paired_witness:
  "list_ex (\<lambda>r. sr_type r = ToolResult \<and> sr_turn r = ''a'') (build_replay demo_turns 2)"
proof -
  have type: "sr_type (demo_record 0 ''a'' AssistantToolCall) = AssistantToolCall"
    by (simp add: demo_record_def)
  have "demo_record 0 ''a'' AssistantToolCall \<in> set (build_replay demo_turns 2)"
    by code_simp
  then have "list_ex (\<lambda>r'. sr_type r' = ToolResult \<and> tool_id r' = tool_id (demo_record 0 ''a'' AssistantToolCall)
        \<and> sr_turn r' = sr_turn (demo_record 0 ''a'' AssistantToolCall)) (build_replay demo_turns 2)"
    using build_replay_paired[of demo_turns 2] type unfolding list_all_iff by blast
  then show ?thesis by (auto simp: list_ex_iff demo_record_def)
qed

text \<open>
  Replay keeps a block of the newest complete turns.  The history is the system message
  and summaries that fit, followed by the filtered complete turns without the k oldest ones,
  where k is the least number that makes them fit; all its records are stored records, and a
  record that is no session-wide system message and no summary belongs to a turn with a
  terminal record and is of a model-facing type.
\<close>

theorem build_replay_newest_turns:
  assumes "records \<noteq> []"
  shows "(\<exists>k. build_replay records budget = replay_front records budget
        @ concat (drop k (turn_slots (py_sorted sr_seq records))) \<and>
      (\<forall>j < k. int (length (replay_front records budget)
        + length (concat (drop j (turn_slots (py_sorted sr_seq records))))) > budget)) \<and>
    list_all (\<lambda>r. r \<in> set records \<and> (is_session_system r \<or> sr_type r = CompactionSummary \<or>
        (sr_type r \<in> set model_turn_types \<and>
         list_ex (\<lambda>x. sr_turn x = sr_turn r \<and> sr_type x = TurnTerminal) records)))
      (build_replay records budget)"
proof
  obtain k where "drop_oldest (budget - int (length (replay_front records budget)))
      (turn_slots (py_sorted sr_seq records)) = drop k (turn_slots (py_sorted sr_seq records))"
    and "\<forall>j < k. int (sum_list (map length (drop j (turn_slots (py_sorted sr_seq records)))))
      > budget - int (length (replay_front records budget))"
    using drop_oldest_suffix by blast
  then show "\<exists>k. build_replay records budget = replay_front records budget
        @ concat (drop k (turn_slots (py_sorted sr_seq records))) \<and>
      (\<forall>j < k. int (length (replay_front records budget)
        + length (concat (drop j (turn_slots (py_sorted sr_seq records))))) > budget)"
    using assms by (intro exI[of _ k]) (auto simp: build_replay_eq length_concat)
  have "r \<in> set records \<and> (is_session_system r \<or> sr_type r = CompactionSummary \<or>
        (sr_type r \<in> set model_turn_types \<and>
         list_ex (\<lambda>x. sr_turn x = sr_turn r \<and> sr_type x = TurnTerminal) records))"
    if "r \<in> set (build_replay records budget)" for r
    using build_replay_mem[OF that] by (auto simp: list_ex_iff dest!: filter_turn_mem_filter)
  then show "list_all (\<lambda>r. r \<in> set records \<and> (is_session_system r \<or> sr_type r = CompactionSummary \<or>
        (sr_type r \<in> set model_turn_types \<and>
         list_ex (\<lambda>x. sr_turn x = sr_turn r \<and> sr_type x = TurnTerminal) records)))
      (build_replay records budget)" by (simp add: list_all_iff)
qed

theorem build_replay_newest_turns_witness:
  "list_all (\<lambda>r. r \<in> set demo_turns \<and> (is_session_system r \<or> sr_type r = CompactionSummary \<or>
        (sr_type r \<in> set model_turn_types \<and>
         list_ex (\<lambda>x. sr_turn x = sr_turn r \<and> sr_type x = TurnTerminal) demo_turns)))
      (build_replay demo_turns 2)"
  using build_replay_newest_turns[of demo_turns 2] by (simp add: demo_turns_def)

end
