(* ===== verification/Turn_Records.thy ===== *)
theory Turn_Records
  imports Replay
begin

text \<open>
  The conversions between the messages of one agent run, the session records and the
  messages of the next model call: agent/session_record_builder.py, the two message
  converters, agent/ask_question_extractor.py, agent/webapp_button_extractor.py, the helpers
  of agent/pydantic_ai_agent.py and records_to_messages of core/orchestrator/payloads.py.
  The message classes of pydantic_ai are datatypes with the fields the code reads; parse
  and dumps stand for json.loads (None for JSONDecodeError) and json.dumps, and pstr for str
  on a JSON value.  Payload fields that hold text are strings, as all writers store them.
\<close>

datatype response_part =
    TextPart string
  | ToolCallPart string string string
  | OtherResponsePart

text \<open>A tool call carries its identifier, its name and its arguments as JSON text.\<close>

datatype request_part =
    ToolReturnPart string string pyval string
  | OtherRequestPart

text \<open>A tool return carries identifier, name, content and outcome.\<close>

datatype model_message =
    ModelResponse "response_part list"
  | ModelRequest "request_part list"

definition memory_tool :: string where
  "memory_tool = ''memory_propose_update''"

definition ask_question_tool :: string where
  "ask_question_tool = ''ask_question''"

fun join :: "string \<Rightarrow> string list \<Rightarrow> string" where
  "join sep [] = []"
| "join sep [x] = x"
| "join sep (x # y # xs) = x @ sep @ join sep (y # xs)"

definition str_field :: "dict \<Rightarrow> string \<Rightarrow> string" where
  "str_field d k = (case dget_or d k (PStr []) of PStr s \<Rightarrow> s | _ \<Rightarrow> [])"

section \<open>Tool results\<close>

fun coerce_tool_result :: "pyval \<Rightarrow> dict" where
  "coerce_tool_result (PDict d) = d"
| "coerce_tool_result (PList xs) = [(''results'', PList xs)]"
| "coerce_tool_result v = [(''result'', v)]"

definition parse_tool_result_content :: "(string \<Rightarrow> pyval option) \<Rightarrow> pyval \<Rightarrow> dict" where
  "parse_tool_result_content parse v =
     (case v of
        PDict d \<Rightarrow> d
      | PStr s \<Rightarrow> (case parse s of None \<Rightarrow> [(''result'', PStr s)] | Some x \<Rightarrow> coerce_tool_result x)
      | _ \<Rightarrow> coerce_tool_result v)"

section \<open>Records of a turn\<close>

definition text_contents :: "response_part list \<Rightarrow> string list" where
  "text_contents ps = List.map_filter (\<lambda>p. case p of TextPart s \<Rightarrow> Some s | _ \<Rightarrow> None) ps"

definition call_parts :: "response_part list \<Rightarrow> (string \<times> string \<times> string) list" where
  "call_parts ps =
     List.map_filter (\<lambda>p. case p of ToolCallPart i n a \<Rightarrow> Some (i, n, a) | _ \<Rightarrow> None) ps"

definition return_parts :: "request_part list \<Rightarrow> (string \<times> string \<times> pyval \<times> string) list" where
  "return_parts ps =
     List.map_filter (\<lambda>p. case p of ToolReturnPart i n c oc \<Rightarrow> Some (i, n, c, oc) | _ \<Rightarrow> None) ps"

text \<open>What all records of one conversion share.\<close>

record turn_info =
  ti_session :: string
  ti_turn :: string
  ti_now :: time

definition mk_record :: "turn_info \<Rightarrow> string \<Rightarrow> record_type \<Rightarrow> dict \<Rightarrow> session_record" where
  "mk_record ti event ty payload =
     \<lparr>sr_session = ti_session ti, sr_seq = 0, sr_event = event, sr_turn = ti_turn ti,
      sr_time = ti_now ti, sr_type = ty, sr_payload = payload\<rparr>"

definition assistant_record ::
  "turn_info \<Rightarrow> string \<Rightarrow> string option \<Rightarrow> dict option \<Rightarrow> string option \<Rightarrow> string list \<Rightarrow> nat \<Rightarrow> session_record" where
  "assistant_record ti amid model usage uid texts idx =
     (let mid = (if idx = 0 then amid else amid @ ''-'' @ show_int (int idx));
          content = py_strip (join '' '' (filter (\<lambda>s. s \<noteq> []) texts))
      in mk_record ti mid AssistantMessage
           ([(''message_id'', PStr mid), (''content'', PStr content)]
            @ (case model of Some m \<Rightarrow> if m \<noteq> [] then [(''model_id'', PStr m)] else [] | None \<Rightarrow> [])
            @ (case usage of
                 Some u \<Rightarrow>
                   if idx = 0
                   then (''usage'', PDict u) # (case uid of Some x \<Rightarrow> [(''user_id'', PStr x)] | None \<Rightarrow> [])
                   else []
               | None \<Rightarrow> [])))"

definition call_record :: "turn_info \<Rightarrow> string \<times> string \<times> string \<Rightarrow> session_record" where
  "call_record ti c =
     (let (i, n, a) = c
      in mk_record ti (''assistant-tool-call-'' @ i) AssistantToolCall
           [(''message_id'', PStr (''msg-'' @ i)), (''tool_call_id'', PStr i),
            (''tool_name'', PStr n), (''arguments_json'', PStr a)])"

definition result_record ::
  "(string \<Rightarrow> pyval option) \<Rightarrow> turn_info \<Rightarrow> string \<times> string \<times> pyval \<times> string \<Rightarrow> session_record" where
  "result_record parse ti c =
     (let (i, n, v, oc) = c
      in mk_record ti (''tool-result-'' @ i) ToolResult
           [(''message_id'', PStr (''msg-result-'' @ i)), (''tool_call_id'', PStr i),
            (''tool_name'', PStr n), (''result'', PDict (parse_tool_result_content parse v)),
            (''error'', PNone)])"

definition kept_returns :: "bool \<Rightarrow> request_part list \<Rightarrow> (string \<times> string \<times> pyval \<times> string) list" where
  "kept_returns skip_memory ps =
     filter (\<lambda>(i, n, v, oc). oc \<noteq> ''retried'' \<and> \<not> (skip_memory \<and> n = memory_tool)) (return_parts ps)"

fun message_records ::
  "(string \<Rightarrow> pyval option) \<Rightarrow> turn_info \<Rightarrow> string \<Rightarrow> string option \<Rightarrow> dict option \<Rightarrow> string option \<Rightarrow> bool
    \<Rightarrow> model_message list \<Rightarrow> nat \<Rightarrow> session_record list" where
  "message_records parse ti amid model usage uid skip [] idx = []"
| "message_records parse ti amid model usage uid skip (ModelResponse ps # ms) idx =
     (let texts = text_contents ps
      in (if texts \<noteq> [] then [assistant_record ti amid model usage uid texts idx] else [])
         @ map (call_record ti) (call_parts ps)
         @ message_records parse ti amid model usage uid skip ms
             (if texts \<noteq> [] then idx + 1 else idx))"
| "message_records parse ti amid model usage uid skip (ModelRequest ps # ms) idx =
     map (result_record parse ti) (kept_returns skip ps)
     @ message_records parse ti amid model usage uid skip ms idx"

definition new_messages_to_session_records ::
  "(string \<Rightarrow> pyval option) \<Rightarrow> turn_info \<Rightarrow> string \<Rightarrow> string option \<Rightarrow> dict option \<Rightarrow> string option \<Rightarrow> bool
    \<Rightarrow> model_message list \<Rightarrow> session_record list" where
  "new_messages_to_session_records parse ti amid model usage uid skip ms =
     message_records parse ti amid model usage uid skip ms 0"

section \<open>Helpers of the adapter\<close>

definition completed_ids :: "model_message list \<Rightarrow> string list" where
  "completed_ids ms =
     concat (map (\<lambda>m. case m of ModelRequest ps \<Rightarrow> map fst (return_parts ps) | _ \<Rightarrow> []) ms)"

definition all_calls :: "model_message list \<Rightarrow> (string \<times> string \<times> string) list" where
  "all_calls ms = concat (map (\<lambda>m. case m of ModelResponse ps \<Rightarrow> call_parts ps | _ \<Rightarrow> []) ms)"

definition inject_cancellation_results :: "model_message list \<Rightarrow> model_message list" where
  "inject_cancellation_results ms =
     (let pending = filter (\<lambda>c. fst c \<notin> set (completed_ids ms)) (all_calls ms)
      in if pending = [] then ms
         else ms @ [ModelRequest (map (\<lambda>(i, n, a). ToolReturnPart i n
             (PStr (''{'' @ [CHR 0x22] @ ''status'' @ [CHR 0x22] @ '': '' @ [CHR 0x22] @ ''cancelled'' @ [CHR 0x22]
                @ '', '' @ [CHR 0x22] @ ''reason'' @ [CHR 0x22] @ '': '' @ [CHR 0x22] @ ''user_cancelled'' @ [CHR 0x22]
                @ ''}'')) ''denied'') pending)])"

definition extract_recovered_text :: "model_message list \<Rightarrow> string" where
  "extract_recovered_text ms =
     fold (\<lambda>m acc. case m of
         ModelResponse ps \<Rightarrow> fold (\<lambda>s acc. if s \<noteq> [] then py_strip s else acc) (text_contents ps) acc
       | ModelRequest _ \<Rightarrow> acc) ms []"

definition last_tool_call_name :: "model_message list \<Rightarrow> string option" where
  "last_tool_call_name ms =
     (if all_calls ms = [] then None else Some (fst (snd (last (all_calls ms)))))"

text \<open>The final text of PydanticAITurnAdapter.run_turn, from the result's output.\<close>

definition sub_string :: "string \<Rightarrow> string \<Rightarrow> bool" where
  "sub_string s t = list_ex (\<lambda>k. take (length s) (drop k t) = s) [0 ..< Suc (length t)]"

definition ask_question_asked :: "model_message list \<Rightarrow> bool" where
  "ask_question_asked ms =
     list_ex (\<lambda>m. case m of
         ModelRequest ps \<Rightarrow> list_ex (\<lambda>(i, n, v, oc). n = ask_question_tool \<and>
           (case v of PStr s \<Rightarrow> sub_string ([CHR 0x22] @ ''question_asked'' @ [CHR 0x22]) s | _ \<Rightarrow> False))
           (return_parts ps)
       | _ \<Rightarrow> False) ms"

definition intermediate_texts :: "model_message list \<Rightarrow> string list" where
  "intermediate_texts ms =
     List.map_filter (\<lambda>m. case m of
         ModelResponse ps \<Rightarrow>
           (let ts = filter (\<lambda>s. s \<noteq> []) (text_contents ps)
            in if ts \<noteq> [] \<and> call_parts ps \<noteq> [] then Some (py_strip (join '' '' ts)) else None)
       | _ \<Rightarrow> None) ms"

text \<open>streamed is None without a notifier, else the texts already sent.\<close>

definition final_response_text :: "string list option \<Rightarrow> string \<Rightarrow> model_message list \<Rightarrow> string" where
  "final_response_text streamed output ms =
     (let nl = [newline, newline];
          inter = (case streamed of Some _ \<Rightarrow> [] | None \<Rightarrow> intermediate_texts ms);
          text = (case streamed of
                    Some ts \<Rightarrow> if output \<noteq> [] \<and> py_strip output \<in> set (map py_strip ts) then [] else output
                  | None \<Rightarrow> output)
      in if ask_question_asked ms then (if inter \<noteq> [] then join nl inter else [])
         else if inter \<noteq> [] then (if text \<noteq> [] then join nl inter @ nl @ text else join nl inter)
         else text)"

section \<open>Questions and buttons for the user\<close>

record pending_ask =
  pa_question_id :: string
  pa_question :: string
  pa_options :: "(string \<times> string) list"
  pa_session :: string
  pa_turn :: string

definition ask_results ::
  "(string \<Rightarrow> pyval option) \<Rightarrow> model_message list \<Rightarrow> (string \<times> dict) list" where
  "ask_results parse ms =
     fold (\<lambda>m acc. case m of
         ModelRequest ps \<Rightarrow> fold (\<lambda>(i, n, v, oc) acc.
             if n = ask_question_tool then AList.update i (parse_tool_result_content parse v) acc else acc)
           (return_parts ps) acc
       | ModelResponse _ \<Rightarrow> acc) ms []"

definition ask_options :: "(pyval \<Rightarrow> string) \<Rightarrow> pyval \<Rightarrow> (string \<times> string) list" where
  "ask_options pstr v =
     (case v of
        PList os \<Rightarrow> List.map_filter (\<lambda>(i, x). case x of
            PDict d \<Rightarrow> Some (pstr (dget_or d ''id'' (PInt (int i))), pstr (dget_or d ''label'' (PStr [])))
          | _ \<Rightarrow> None) (enumerate 0 os)
      | _ \<Rightarrow> [])"

definition extract_pending_ask ::
  "(pyval \<Rightarrow> string) \<Rightarrow> (string \<Rightarrow> pyval option) \<Rightarrow> string \<Rightarrow> string \<Rightarrow> model_message list \<Rightarrow> pending_ask option" where
  "extract_pending_ask pstr parse sid turn ms =
     (case List.find (\<lambda>(i, d). dget d ''status'' = PStr ''question_asked'') (ask_results parse ms) of
        None \<Rightarrow> None
      | Some (i, d) \<Rightarrow>
          Some \<lparr>pa_question_id = i,
            pa_question = pstr (dget_or d ''question'' (PStr ''Please choose an option.'')),
            pa_options = ask_options pstr (dget_or d ''options'' (PList [])),
            pa_session = sid, pa_turn = turn\<rparr>)"

definition webapp_buttons :: "(pyval \<Rightarrow> string) \<Rightarrow> dict \<Rightarrow> (string \<times> string \<times> string \<times> string) list" where
  "webapp_buttons pstr result =
     (case dget result ''actions'' of
        PList as \<Rightarrow> List.map_filter (\<lambda>a. case a of
            PDict d \<Rightarrow>
              if truthy (dget d ''web_app_url'')
              then Some (pstr (dget_or d ''label'' (PStr [])), pstr (dget d ''web_app_url''),
                pstr (dget_or d ''callback_id'' (PStr [])), pstr (dget_or d ''callback_data'' (PStr [])))
              else None
          | _ \<Rightarrow> None) as
      | _ \<Rightarrow> [])"

definition extract_webapp_buttons ::
  "(pyval \<Rightarrow> string) \<Rightarrow> (string \<Rightarrow> pyval option) \<Rightarrow> model_message list
    \<Rightarrow> ((string \<times> string \<times> string \<times> string) list \<times> string) option" where
  "extract_webapp_buttons pstr parse ms =
     (case List.find (\<lambda>d. webapp_buttons pstr d \<noteq> [])
         (concat (map (\<lambda>m. case m of
             ModelRequest ps \<Rightarrow> map (\<lambda>(i, n, v, oc). parse_tool_result_content parse v) (return_parts ps)
           | _ \<Rightarrow> []) ms)) of
        None \<Rightarrow> None
      | Some d \<Rightarrow> Some (webapp_buttons pstr d, pstr (dget_or d ''message'' (PStr []))))"

section \<open>Messages for the model\<close>

datatype role = RoleUser | RoleAssistant

datatype block =
    TextBlock string
  | ToolUseBlock string string pyval
  | ToolResultBlock string string string bool

record llm_message =
  lm_role :: role
  lm_content :: string
  lm_blocks :: "block list option"

definition tool_name :: "session_record \<Rightarrow> string" where
  "tool_name r = str_field (sr_payload r) ''tool_name''"

definition call_id :: "session_record \<Rightarrow> string" where
  "call_id r = str_field (sr_payload r) ''tool_call_id''"

definition content_of :: "session_record \<Rightarrow> string" where
  "content_of r = str_field (sr_payload r) ''content''"

definition record_to_tool_use_block ::
  "(string \<Rightarrow> pyval option) \<Rightarrow> session_record \<Rightarrow> block option" where
  "record_to_tool_use_block parse r =
     (if tool_name r = memory_tool then None
      else
        (let args = (case dget_or (sr_payload r) ''arguments_json'' (PStr ''{}'') of PStr s \<Rightarrow> s | _ \<Rightarrow> [])
         in Some (ToolUseBlock (call_id r) (tool_name r)
              (case parse args of None \<Rightarrow> PDict [] | Some v \<Rightarrow> v))))"

definition tool_use_blocks :: "(string \<Rightarrow> pyval option) \<Rightarrow> session_record list \<Rightarrow> block list" where
  "tool_use_blocks parse rs = List.map_filter (record_to_tool_use_block parse) rs"

definition result_block :: "(pyval \<Rightarrow> string) \<Rightarrow> session_record \<Rightarrow> block" where
  "result_block dumps r =
     (let result = dget (sr_payload r) ''result''
      in ToolResultBlock (call_id r) (tool_name r) (if result \<noteq> PNone then dumps result else [])
           (dget (sr_payload r) ''error'' \<noteq> PNone))"

text \<open>The dictionary seen: the last result of each identifier, in order of first occurrence.\<close>

definition seen_results :: "(pyval \<Rightarrow> string) \<Rightarrow> session_record list \<Rightarrow> (string \<times> block) list" where
  "seen_results dumps rs =
     fold (\<lambda>r seen. if tool_name r = memory_tool then seen
        else AList.update (call_id r) (result_block dumps r) seen) rs []"

definition user_text_message :: "string \<Rightarrow> llm_message list" where
  "user_text_message c =
     (if c \<noteq> [] then [\<lparr>lm_role = RoleUser, lm_content = c, lm_blocks = None\<rparr>] else [])"

definition blocks_message :: "role \<Rightarrow> block list \<Rightarrow> llm_message list" where
  "blocks_message ro bs =
     (if bs \<noteq> [] then [\<lparr>lm_role = ro, lm_content = [], lm_blocks = Some bs\<rparr>] else [])"

definition assistant_message :: "block list \<Rightarrow> llm_message list" where
  "assistant_message bs =
     (case bs of
        [TextBlock t] \<Rightarrow> [\<lparr>lm_role = RoleAssistant, lm_content = t, lm_blocks = None\<rparr>]
      | _ \<Rightarrow> blocks_message RoleAssistant bs)"

definition is_type :: "record_type \<Rightarrow> session_record \<Rightarrow> bool" where
  "is_type ty r = (sr_type r = ty)"

function (sequential) records_to_messages ::
  "(string \<Rightarrow> pyval option) \<Rightarrow> (pyval \<Rightarrow> string) \<Rightarrow> session_record list \<Rightarrow> llm_message list" where
  "records_to_messages parse dumps [] = []"
| "records_to_messages parse dumps (r # rs) =
     (case sr_type r of
        UserMessage \<Rightarrow> user_text_message (content_of r) @ records_to_messages parse dumps rs
      | CompactionSummary \<Rightarrow> user_text_message (content_of r) @ records_to_messages parse dumps rs
      | AssistantMessage \<Rightarrow>
          assistant_message ((if content_of r \<noteq> [] then [TextBlock (content_of r)] else [])
             @ tool_use_blocks parse (takeWhile (is_type AssistantToolCall) rs))
          @ records_to_messages parse dumps (dropWhile (is_type AssistantToolCall) rs)
      | AssistantToolCall \<Rightarrow>
          blocks_message RoleAssistant
             (tool_use_blocks parse (r # takeWhile (is_type AssistantToolCall) rs))
          @ records_to_messages parse dumps (dropWhile (is_type AssistantToolCall) rs)
      | ToolResult \<Rightarrow>
          blocks_message RoleUser
             (map snd (seen_results dumps (r # takeWhile (is_type ToolResult) rs)))
          @ records_to_messages parse dumps (dropWhile (is_type ToolResult) rs)
      | _ \<Rightarrow> records_to_messages parse dumps rs)"
  by pat_completeness auto
termination
  by (relation "measure (\<lambda>(p, d, rs). length rs)")
    (auto simp: less_Suc_eq_le length_dropWhile_le)

text \<open>The identifiers of the tool uses and of the tool results in a list of messages.\<close>

definition message_blocks :: "llm_message list \<Rightarrow> block list" where
  "message_blocks ms = concat (map (\<lambda>m. case lm_blocks m of None \<Rightarrow> [] | Some bs \<Rightarrow> bs) ms)"

definition use_ids :: "block list \<Rightarrow> string list" where
  "use_ids bs = List.map_filter (\<lambda>b. case b of ToolUseBlock i n a \<Rightarrow> Some i | _ \<Rightarrow> None) bs"

definition answer_ids :: "block list \<Rightarrow> string list" where
  "answer_ids bs = List.map_filter (\<lambda>b. case b of ToolResultBlock i n c e \<Rightarrow> Some i | _ \<Rightarrow> None) bs"

section \<open>Lemmas on the messages\<close>

lemma message_blocks_append [simp]: "message_blocks (a @ b) = message_blocks a @ message_blocks b"
  by (simp add: message_blocks_def)

lemma message_blocks_simps [simp]:
  "message_blocks [] = []" "message_blocks (user_text_message c) = []"
  "message_blocks (blocks_message ro bs) = bs"
  by (simp_all add: message_blocks_def user_text_message_def blocks_message_def)

lemma message_blocks_assistant: "set (message_blocks (assistant_message bs)) \<subseteq> set bs"
  by (auto simp: assistant_message_def message_blocks_def blocks_message_def split: list.splits block.splits if_splits)

lemma ids_append [simp]:
  "use_ids (a @ b) = use_ids a @ use_ids b" "answer_ids (a @ b) = answer_ids a @ answer_ids b"
  by (simp_all add: use_ids_def answer_ids_def)

lemma ids_text [simp]:
  "use_ids [] = []" "answer_ids [] = []"
  "use_ids (TextBlock t # bs) = use_ids bs" "answer_ids (TextBlock t # bs) = answer_ids bs"
  by (simp_all add: use_ids_def answer_ids_def map_filter_Cons map_filter_Nil)

definition open_calls :: "session_record list \<Rightarrow> string set" where
  "open_calls rs = call_id ` {r \<in> set rs. sr_type r = AssistantToolCall \<and> tool_name r \<noteq> memory_tool}"

definition answered_calls :: "session_record list \<Rightarrow> string set" where
  "answered_calls rs = call_id ` {r \<in> set rs. sr_type r = ToolResult \<and> tool_name r \<noteq> memory_tool}"

lemma calls_append [simp]:
  "open_calls (a @ b) = open_calls a \<union> open_calls b"
  "answered_calls (a @ b) = answered_calls a \<union> answered_calls b"
  by (auto simp: open_calls_def answered_calls_def)

lemma tool_use_blocks_ids:
  "set (use_ids (tool_use_blocks parse rs)) = call_id ` {r \<in> set rs. tool_name r \<noteq> memory_tool}"
  "answer_ids (tool_use_blocks parse rs) = []"
  by (induction rs) (auto simp: tool_use_blocks_def use_ids_def answer_ids_def map_filter_Cons
      map_filter_Nil record_to_tool_use_block_def Let_def split: if_splits)

text \<open>Every entry of seen is a result block with the identifier it is keyed by.\<close>

lemma seen_results_snoc:
  "seen_results dumps (rs @ [r]) = (if tool_name r = memory_tool then seen_results dumps rs
     else AList.update (call_id r) (result_block dumps r) (seen_results dumps rs))"
  by (simp add: seen_results_def)

lemma seen_results_keys:
  "fst ` set (seen_results dumps rs) = call_id ` {r \<in> set rs. tool_name r \<noteq> memory_tool}"
proof (induction rs rule: rev_induct)
  case (snoc r rs)
  then show ?case by (auto simp: seen_results_snoc dom_update)
qed (simp add: seen_results_def)

lemma seen_results_blocks:
  "e \<in> set (seen_results dumps rs) \<Longrightarrow> \<exists>n c x. snd e = ToolResultBlock (fst e) n c x"
proof (induction rs rule: rev_induct)
  case (snoc r rs)
  have "set (AList.update k v al) \<subseteq> insert (k, v) (set al)" for k v and al :: "(string \<times> block) list"
    by (induction al) auto
  then have "e \<in> insert (call_id r, result_block dumps r) (set (seen_results dumps rs))"
    using snoc.prems by (auto simp: seen_results_snoc split: if_splits)
  then show ?case using snoc.IH by (auto simp: result_block_def Let_def)
qed (simp add: seen_results_def)

lemma result_blocks_ids:
  assumes "\<And>e. e \<in> set al \<Longrightarrow> \<exists>n c x. snd e = ToolResultBlock (fst e) n c x"
  shows "use_ids (map snd al) = []" and "set (answer_ids (map snd al)) = fst ` set al"
proof -
  have "use_ids (map snd al) = [] \<and> set (answer_ids (map snd al)) = fst ` set al"
    using assms
  proof (induction al)
    case (Cons e al)
    obtain n c x where e: "snd e = ToolResultBlock (fst e) n c x" using Cons.prems by fastforce
    moreover have "use_ids (map snd al) = [] \<and> set (answer_ids (map snd al)) = fst ` set al"
      using Cons by simp
    ultimately show ?case by (simp add: use_ids_def answer_ids_def map_filter_Cons)
  qed simp
  then show "use_ids (map snd al) = []" "set (answer_ids (map snd al)) = fst ` set al" by auto
qed

lemma seen_results_ids:
  "use_ids (map snd (seen_results dumps rs)) = []"
  "set (answer_ids (map snd (seen_results dumps rs))) = call_id ` {r \<in> set rs. tool_name r \<noteq> memory_tool}"
  using result_blocks_ids[OF seen_results_blocks] seen_results_keys by auto

lemma assistant_message_ids:
  "use_ids (message_blocks (assistant_message bs)) = use_ids bs"
  "answer_ids (message_blocks (assistant_message bs)) = answer_ids bs"
proof -
  have "use_ids (message_blocks (assistant_message bs)) = use_ids bs \<and>
      answer_ids (message_blocks (assistant_message bs)) = answer_ids bs"
  proof (cases "\<exists>t. bs = [TextBlock t]")
    case True
    then show ?thesis by (auto simp: assistant_message_def message_blocks_def)
  next
    case False
    then have "assistant_message bs = blocks_message RoleAssistant bs"
      by (auto simp: assistant_message_def split: list.split block.split)
    then show ?thesis by simp
  qed
  then show "use_ids (message_blocks (assistant_message bs)) = use_ids bs"
    "answer_ids (message_blocks (assistant_message bs)) = answer_ids bs" by auto
qed

lemma run_calls:
  "open_calls rs = call_id ` {r \<in> set (takeWhile (is_type AssistantToolCall) rs). tool_name r \<noteq> memory_tool}
     \<union> open_calls (dropWhile (is_type AssistantToolCall) rs)"
  "answered_calls rs = answered_calls (dropWhile (is_type AssistantToolCall) rs)"
  "open_calls rs = open_calls (dropWhile (is_type ToolResult) rs)"
  "answered_calls rs = call_id ` {r \<in> set (takeWhile (is_type ToolResult) rs). tool_name r \<noteq> memory_tool}
     \<union> answered_calls (dropWhile (is_type ToolResult) rs)"
proof -
  have ty: "sr_type r = ty" if "r \<in> set (takeWhile (is_type ty) rs)" for r ty
    using set_takeWhileD[OF that] by (simp add: is_type_def)
  have split: "open_calls rs = open_calls (takeWhile (is_type ty) rs) \<union> open_calls (dropWhile (is_type ty) rs)"
    "answered_calls rs = answered_calls (takeWhile (is_type ty) rs) \<union> answered_calls (dropWhile (is_type ty) rs)" for ty
    by (metis calls_append takeWhile_dropWhile_id)+
  have c: "open_calls (takeWhile (is_type AssistantToolCall) rs) =
      call_id ` {r \<in> set (takeWhile (is_type AssistantToolCall) rs). tool_name r \<noteq> memory_tool}"
    "answered_calls (takeWhile (is_type AssistantToolCall) rs) = {}"
    using ty[of _ AssistantToolCall] by (auto simp: open_calls_def answered_calls_def)
  have r: "answered_calls (takeWhile (is_type ToolResult) rs) =
      call_id ` {r \<in> set (takeWhile (is_type ToolResult) rs). tool_name r \<noteq> memory_tool}"
    "open_calls (takeWhile (is_type ToolResult) rs) = {}"
    using ty[of _ ToolResult] by (auto simp: open_calls_def answered_calls_def)
  show "open_calls rs = call_id ` {r \<in> set (takeWhile (is_type AssistantToolCall) rs). tool_name r \<noteq> memory_tool}
     \<union> open_calls (dropWhile (is_type AssistantToolCall) rs)"
    using split(1)[of AssistantToolCall] c(1) by simp
  show "answered_calls rs = answered_calls (dropWhile (is_type AssistantToolCall) rs)"
    using split(2)[of AssistantToolCall] c(2) by simp
  show "open_calls rs = open_calls (dropWhile (is_type ToolResult) rs)"
    using split(1)[of ToolResult] r(2) by simp
  show "answered_calls rs = call_id ` {r \<in> set (takeWhile (is_type ToolResult) rs). tool_name r \<noteq> memory_tool}
     \<union> answered_calls (dropWhile (is_type ToolResult) rs)"
    using split(2)[of ToolResult] r(1) by simp
qed

lemma calls_Cons:
  "open_calls (r # rs) = (if sr_type r = AssistantToolCall \<and> tool_name r \<noteq> memory_tool
     then {call_id r} else {}) \<union> open_calls rs"
  "answered_calls (r # rs) = (if sr_type r = ToolResult \<and> tool_name r \<noteq> memory_tool
     then {call_id r} else {}) \<union> answered_calls rs"
  by (auto simp: open_calls_def answered_calls_def)

lemma records_to_messages_ids:
  "set (use_ids (message_blocks (records_to_messages parse dumps rs))) = open_calls rs \<and>
   set (answer_ids (message_blocks (records_to_messages parse dumps rs))) = answered_calls rs"
proof (induction parse dumps rs rule: records_to_messages.induct)
  case (1 parse dumps)
  then show ?case by (simp add: open_calls_def answered_calls_def)
next
  case (2 parse dumps r rs)
  show ?case
  proof (cases "sr_type r")
    case AssistantMessage
    then show ?thesis
      using 2 run_calls(1,2)[of rs]
      by (simp add: calls_Cons assistant_message_ids tool_use_blocks_ids)
  next
    case AssistantToolCall
    then show ?thesis
      using 2 run_calls(1,2)[of rs] tool_use_blocks_ids[of parse "r # takeWhile (is_type AssistantToolCall) rs"]
      by (auto simp: calls_Cons)
  next
    case ToolResult
    then show ?thesis
      using 2 run_calls(3,4)[of rs] seen_results_ids[of dumps "r # takeWhile (is_type ToolResult) rs"]
      by (auto simp: calls_Cons)
  qed (use 2 in \<open>simp_all add: calls_Cons\<close>)
qed

section \<open>Cancelled turns\<close>

lemma completed_ids_append [simp]: "completed_ids (a @ b) = completed_ids a @ completed_ids b"
  by (simp add: completed_ids_def)

lemma all_calls_append [simp]: "all_calls (a @ b) = all_calls a @ all_calls b"
  by (simp add: all_calls_def)

lemma return_parts_map: "map fst (return_parts (map (\<lambda>(i, n, a). ToolReturnPart i n c oc) cs)) = map fst cs"
  by (induction cs) (auto simp: return_parts_def map_filter_Cons map_filter_Nil)

lemma inject_completes:
  "fst ` set (all_calls (inject_cancellation_results ms)) \<subseteq> set (completed_ids (inject_cancellation_results ms))"
proof (cases "filter (\<lambda>c. fst c \<notin> set (completed_ids ms)) (all_calls ms) = []")
  case True
  then show ?thesis by (force simp: inject_cancellation_results_def filter_empty_conv)
next
  case False
  let ?p = "filter (\<lambda>c. fst c \<notin> set (completed_ids ms)) (all_calls ms)"
  have "all_calls (inject_cancellation_results ms) = all_calls ms"
    using False by (simp add: inject_cancellation_results_def Let_def) (simp add: all_calls_def)
  moreover have "set (completed_ids (inject_cancellation_results ms)) = set (completed_ids ms) \<union> fst ` set ?p"
  proof -
    have "completed_ids [ModelRequest ps] = map fst (return_parts ps)" for ps
      by (simp add: completed_ids_def)
    then show ?thesis
      using False by (simp add: inject_cancellation_results_def Let_def return_parts_map)
  qed
  ultimately show ?thesis by auto
qed

section \<open>Properties\<close>

text \<open>
  Replayed conversations are well paired for the provider.  In the messages built from a
  replayed history every tool use has a tool result and every tool result a tool use,
  memory proposals left out on both sides, provided a call and its result agree on being a
  memory proposal and tool identifiers are stored as strings.
\<close>

theorem replay_messages_paired:
  assumes ids: "\<forall>r \<in> set records. sr_type r \<in> {AssistantToolCall, ToolResult} \<longrightarrow> tool_id r = PStr (call_id r)"
    and agree: "\<forall>r \<in> set records. \<forall>r' \<in> set records. call_id r = call_id r' \<and>
      sr_type r = AssistantToolCall \<and> sr_type r' = ToolResult \<longrightarrow> (tool_name r = memory_tool) = (tool_name r' = memory_tool)"
  shows "set (use_ids (message_blocks (records_to_messages parse dumps (build_replay records budget)))) =
    set (answer_ids (message_blocks (records_to_messages parse dumps (build_replay records budget))))"
proof -
  let ?h = "build_replay records budget"
  have sub: "r \<in> set records" if "r \<in> set ?h" for r
    using build_replay_mem[OF that] filter_turn_mem_filter by blast
  have partner: "\<exists>r' \<in> set ?h. sr_type r' = ty \<and> call_id r' = call_id r"
    if r: "r \<in> set ?h" and ty: "sr_type r \<in> {AssistantToolCall, ToolResult}" "ty \<in> {AssistantToolCall, ToolResult}" for r ty
  proof -
    obtain r' where r': "r' \<in> set ?h" "sr_type r' = ty" "tool_id r' = tool_id r"
      using build_replay_partner[OF r ty] unfolding list_ex_iff by blast
    have "tool_id r = PStr (call_id r)" "tool_id r' = PStr (call_id r')"
      using ids sub[OF r] sub[OF r'(1)] ty r'(2) by auto
    with r' show ?thesis by auto
  qed
  have "open_calls ?h = answered_calls ?h"
  proof (intro equalityI subsetI)
    fix i assume "i \<in> open_calls ?h"
    then obtain r where r: "r \<in> set ?h" "sr_type r = AssistantToolCall" "tool_name r \<noteq> memory_tool" "i = call_id r"
      by (auto simp: open_calls_def)
    then obtain r' where "r' \<in> set ?h" "sr_type r' = ToolResult" "call_id r' = call_id r"
      using partner[of r ToolResult] by auto
    moreover have "tool_name r' \<noteq> memory_tool"
      using agree[rule_format, of r r'] sub r calculation by simp
    ultimately show "i \<in> answered_calls ?h" using r(4) unfolding answered_calls_def by (intro image_eqI[of _ _ r']) auto
  next
    fix i assume "i \<in> answered_calls ?h"
    then obtain r where r: "r \<in> set ?h" "sr_type r = ToolResult" "tool_name r \<noteq> memory_tool" "i = call_id r"
      by (auto simp: answered_calls_def)
    then obtain r' where "r' \<in> set ?h" "sr_type r' = AssistantToolCall" "call_id r' = call_id r"
      using partner[of r AssistantToolCall] by auto
    moreover have "tool_name r' \<noteq> memory_tool"
      using agree[rule_format, of r' r] sub r calculation by simp
    ultimately show "i \<in> open_calls ?h" using r(4) unfolding open_calls_def by (intro image_eqI[of _ _ r']) auto
  qed
  then show ?thesis using records_to_messages_ids[of parse dumps ?h] by simp
qed

theorem replay_messages_paired_witness:
  "set (use_ids (message_blocks (records_to_messages (\<lambda>_. None) (\<lambda>_. []) (build_replay demo_turns 2)))) =
    set (answer_ids (message_blocks (records_to_messages (\<lambda>_. None) (\<lambda>_. []) (build_replay demo_turns 2))))"
  by (rule replay_messages_paired)
    (simp_all add: demo_turns_def demo_record_def tool_id_def call_id_def tool_name_def str_field_def)

text \<open>
  A cancelled turn leaves no open tool call.  The messages that are persisted when the
  user stops a turn extend the captured ones, and every tool call in them has a tool return.
\<close>

theorem cancelled_calls_answered:
  "prefix ms (inject_cancellation_results ms) \<and>
   set (map fst (all_calls (inject_cancellation_results ms)))
     \<subseteq> set (completed_ids (inject_cancellation_results ms)) \<and>
   all_calls (inject_cancellation_results ms) = all_calls ms"
  using inject_completes[of ms]
  by (auto simp: inject_cancellation_results_def Let_def prefix_def all_calls_def)

end
