(* ===== verification/Memory_Intents.thy ===== *)
theory Memory_Intents
  imports Turn_Records
begin

text \<open>
  Memory proposals of the model: extensions/first_party/memory/capability.py, the tool
  agent/tools/memory_propose_update.py, agent/memory_intent_processor.py and
  core/orchestrator/memory.py.  validate stands for the pydantic constructor of the
  intent ('i), which returns the error text or the intent; writer for the memory writer,
  which returns the error text or the audit and the new memory state.
\<close>

definition valid_actions :: "string list" where
  "valid_actions = [''upsert'', ''delete'', ''touch'']"

definition valid_types :: "string list" where
  "valid_types = [''profile'', ''preferences'', ''projects'', ''tasks'', ''facts'', ''summaries'']"

definition valid_sources :: "string list" where
  "valid_sources = [''explicit_user_request'', ''agent_inferred'', ''capability_output'', ''scheduler'']"

definition str_in :: "pyval \<Rightarrow> string list \<Rightarrow> bool" where
  "str_in v xs = (case v of PStr s \<Rightarrow> s \<in> set xs | _ \<Rightarrow> False)"

definition canonicalize_memory_args :: "(pyval \<Rightarrow> string) \<Rightarrow> dict \<Rightarrow> dict" where
  "canonicalize_memory_args pstr args =
     (let a1 = (if str_in (dget args ''action'') valid_actions then args
                else AList.update ''action'' (PStr ''upsert'') args);
          a2 = (if str_in (dget a1 ''memory_type'') valid_types then a1
                else AList.update ''memory_type'' (PStr ''facts'') a1)
      in if str_in (dget a2 ''source'') valid_sources then a2
         else
           (let s = py_lower (pstr (dget_or a2 ''source'' (PStr [])))
            in AList.update ''source''
                 (PStr (if list_ex (\<lambda>x. sub_string x s) [''user'', ''explicit'', ''stated'']
                    then ''explicit_user_request'' else ''agent_inferred'')) a2))"

definition blank_value :: "pyval \<Rightarrow> bool" where
  "blank_value v = (v \<in> {PNone, PStr [], PList [], PDict []})"

definition reserved_keys :: "string list" where
  "reserved_keys = [''tags'', ''entities'', ''priority'', ''confidence'', ''body_markdown'']"

definition is_blank_text :: "pyval \<Rightarrow> bool" where
  "is_blank_text v = (case v of PStr s \<Rightarrow> py_strip s = [] | _ \<Rightarrow> True)"

definition as_list :: "pyval \<Rightarrow> pyval list" where
  "as_list v = (case v of PList xs \<Rightarrow> xs | _ \<Rightarrow> [])"

definition normalize_candidate :: "(pyval \<Rightarrow> string) \<Rightarrow> dict \<Rightarrow> dict" where
  "normalize_candidate pstr payload =
     (if \<not> is_blank_text (dget payload ''body_markdown'')
      then AList.update ''body_markdown''
             (PStr (py_strip (case dget payload ''body_markdown'' of PStr s \<Rightarrow> s | _ \<Rightarrow> []))) payload
      else
        (let details = filter (\<lambda>kv. fst kv \<notin> set reserved_keys \<and> \<not> blank_value (snd kv)) payload;
             p1 = AList.update ''body_markdown''
               (PStr (if details \<noteq> []
                  then join [newline] (map (\<lambda>kv. ''- '' @ fst kv @ '': '' @ pstr (snd kv)) details)
                  else ''[missing details]'')) payload;
             p2 = AList.update ''tags'' (PList (as_list (dget p1 ''tags''))) p1;
             p3 = AList.update ''entities'' (PList (as_list (dget p2 ''entities''))) p2;
             ents = as_list (dget p3 ''entities'');
             p4 = (case dget p3 ''name'' of
                     PStr n \<Rightarrow>
                       if py_strip n \<noteq> [] \<and> PStr n \<notin> set ents
                       then AList.update ''entities'' (PList (ents @ [PStr (py_strip n)])) p3 else p3
                   | _ \<Rightarrow> p3)
         in if as_list (dget p4 ''tags'') = []
            then AList.update ''tags'' (PList [PStr ''user_profile'']) p4 else p4))"

definition memory_propose_validate ::
  "(pyval \<Rightarrow> string) \<Rightarrow> (dict \<Rightarrow> string + 'i) \<Rightarrow> dict \<Rightarrow> string + 'i" where
  "memory_propose_validate pstr validate arguments =
     (let args = canonicalize_memory_args pstr arguments
      in validate
           (if dget args ''action'' = PStr ''upsert'' then
              (case dget args ''candidate'' of
                 PDict c \<Rightarrow> AList.update ''candidate'' (PDict (normalize_candidate pstr c)) args
               | _ \<Rightarrow> args)
            else args))"

section \<open>The tool of the agent\<close>

record memory_deps =
  md_seen :: "string list"
  md_approved :: nat

definition max_memory_writes :: nat where
  "max_memory_writes = 3"

definition tool_answer :: "string \<Rightarrow> string \<Rightarrow> bool \<Rightarrow> dict" where
  "tool_answer status reason confirm =
     [(''status'', PStr status), (''reason'', PStr reason), (''requires_user_confirmation'', PBool confirm)]"

text \<open>
  The tool sets requires_user_confirmation itself, whatever the model passed;
  check stands for the constructor of the proposal, an error text or the intent id.
\<close>

definition propose_memory_update ::
  "(pyval \<Rightarrow> string) \<Rightarrow> (dict \<Rightarrow> string + string) \<Rightarrow> (dict \<Rightarrow> string + 'i) \<Rightarrow> dict \<Rightarrow> memory_deps
    \<Rightarrow> dict \<times> memory_deps" where
  "propose_memory_update pstr check validate args deps =
     (let confirm = True;
          d1 = canonicalize_memory_args pstr (AList.update ''requires_user_confirmation'' (PBool True) args);
          d2 = (if dget d1 ''action'' = PStr ''upsert''
                then AList.update ''candidate'' (PDict (normalize_candidate pstr
                       (case dget d1 ''candidate'' of PDict c \<Rightarrow> c | _ \<Rightarrow> []))) d1
                else d1)
      in case check d2 of
           Inl e \<Rightarrow> (tool_answer ''rejected_invalid'' e confirm, deps)
         | Inr iid \<Rightarrow>
             if iid \<in> set (md_seen deps)
             then (tool_answer ''rejected_duplicate_intent'' ''duplicate intent_id in turn payload'' confirm, deps)
             else
               (let deps1 = deps\<lparr>md_seen := iid # md_seen deps\<rparr>
                in if confirm
                   then (tool_answer ''pending_confirmation'' ''requires_user_confirmation=true'' True, deps1)
                   else if md_approved deps1 \<ge> max_memory_writes
                   then (tool_answer ''rejected_write_limit''
                          (''exceeds max writes per turn ('' @ show_int (int max_memory_writes) @ '')'') False, deps1)
                   else (case memory_propose_validate pstr validate d2 of
                           Inl e \<Rightarrow> (tool_answer ''rejected_invalid'' e confirm, deps1)
                         | Inr _ \<Rightarrow> (tool_answer ''approved_pending_apply'' [] False,
                             deps1\<lparr>md_approved := md_approved deps1 + 1\<rparr>))))"

section \<open>Plans\<close>

record 'i memory_plan =
  mp_call_id :: string
  mp_args :: dict
  mp_status :: string
  mp_confirm :: bool
  mp_intent :: "'i option"
  mp_reason :: string

definition canonicalize_intent_id :: "pyval \<Rightarrow> string \<Rightarrow> string" where
  "canonicalize_intent_id v call =
     (case v of PStr s \<Rightarrow> (if py_strip s \<noteq> [] then py_strip s else ''intent'') | _ \<Rightarrow> ''intent'')
     @ colon # call"

text \<open>
  raw_args is what the provider's part carries: a dictionary or None for anything else
  (part.args that is no dictionary is dropped).
\<close>

definition memory_calls ::
  "(string \<Rightarrow> dict option) \<Rightarrow> model_message list \<Rightarrow> (string \<times> dict) list" where
  "memory_calls raw_args ms =
     fold (\<lambda>(i, n, a) acc. if n = memory_tool
         then AList.update i (case raw_args a of Some d \<Rightarrow> d | None \<Rightarrow> []) acc else acc) (all_calls ms) []"

definition memory_results ::
  "(string \<Rightarrow> pyval option) \<Rightarrow> model_message list \<Rightarrow> (string \<times> dict) list" where
  "memory_results parse ms =
     fold (\<lambda>(i, n, v, oc) acc. if n = memory_tool \<and> oc \<noteq> ''retried''
         then AList.update i (parse_tool_result_content parse v) acc else acc)
       (concat (map (\<lambda>m. case m of ModelRequest ps \<Rightarrow> return_parts ps | _ \<Rightarrow> []) ms)) []"

definition effective_memory_args :: "(pyval \<Rightarrow> string) \<Rightarrow> string \<Rightarrow> dict \<Rightarrow> dict" where
  "effective_memory_args pstr call args =
     (let a1 = AList.update ''intent_id'' (PStr (canonicalize_intent_id (dget args ''intent_id'') call)) args;
          a2 = AList.update ''requires_user_confirmation'' (PBool True) a1
      in if dget a2 ''action'' = PStr ''upsert''
         then AList.update ''candidate'' (PDict (normalize_candidate pstr
                (case dget a2 ''candidate'' of PDict c \<Rightarrow> c | _ \<Rightarrow> []))) a2
         else a2)"

definition build_memory_plan ::
  "(pyval \<Rightarrow> string) \<Rightarrow> (dict \<Rightarrow> string + 'i) \<Rightarrow> string \<Rightarrow> dict \<Rightarrow> dict \<Rightarrow> 'i memory_plan" where
  "build_memory_plan pstr validate call args result =
     (let status = (case dget_or result ''status'' (PStr ''failed'') of PStr s \<Rightarrow> s | _ \<Rightarrow> []);
          reason = (case dget_or result ''reason'' (PStr []) of PStr s \<Rightarrow> s | _ \<Rightarrow> []);
          confirm = truthy (dget_or result ''requires_user_confirmation'' (PBool False));
          plan = \<lparr>mp_call_id = call, mp_args = args, mp_status = status, mp_confirm = confirm,
                  mp_intent = None, mp_reason = reason\<rparr>
      in if status = ''approved_pending_apply''
         then (case memory_propose_validate pstr validate args of
                 Inl e \<Rightarrow> plan\<lparr>mp_status := ''rejected_invalid'', mp_reason := e,
                   mp_confirm := truthy (dget_or args ''requires_user_confirmation'' (PBool False))\<rparr>
               | Inr i \<Rightarrow> plan\<lparr>mp_intent := Some i\<rparr>)
         else plan)"

definition new_messages_to_plans ::
  "(pyval \<Rightarrow> string) \<Rightarrow> (string \<Rightarrow> pyval option) \<Rightarrow> (string \<Rightarrow> dict option) \<Rightarrow> (dict \<Rightarrow> string + 'i)
    \<Rightarrow> model_message list \<Rightarrow> 'i memory_plan list" where
  "new_messages_to_plans pstr parse raw_args validate ms =
     map (\<lambda>(i, args). build_memory_plan pstr validate i (effective_memory_args pstr i args)
         (case map_of (memory_results parse ms) i of
            Some r \<Rightarrow> r
          | None \<Rightarrow> [(''status'', PStr ''failed''), (''reason'', PStr ''missing tool result'')]))
       (memory_calls raw_args ms)"

text \<open>build_memory_intent_plans of the orchestrator, over proposals (call id, intent id, confirmation flag).\<close>

record proposal =
  pr_call :: string
  pr_intent :: string
  pr_confirm :: bool
  pr_args :: dict

fun build_plans_loop ::
  "(dict \<Rightarrow> string + 'i) \<Rightarrow> string list \<Rightarrow> nat \<Rightarrow> proposal list \<Rightarrow> 'i memory_plan list" where
  "build_plans_loop propose seen approved [] = []"
| "build_plans_loop propose seen approved (p # ps) =
     (let plan = \<lambda>st confirm intent reason. \<lparr>mp_call_id = pr_call p, mp_args = pr_args p, mp_status = st,
            mp_confirm = confirm, mp_intent = intent, mp_reason = reason\<rparr>
      in if pr_intent p \<in> set seen
         then plan ''rejected_duplicate_intent'' (pr_confirm p) None ''duplicate intent_id in turn payload''
              # build_plans_loop propose seen approved ps
         else if pr_confirm p
         then plan ''pending_confirmation'' True None ''requires_user_confirmation=true''
              # build_plans_loop propose (pr_intent p # seen) approved ps
         else if approved \<ge> max_memory_writes
         then plan ''rejected_write_limit'' False None
                (''exceeds max writes per turn ('' @ show_int (int max_memory_writes) @ '')'')
              # build_plans_loop propose (pr_intent p # seen) approved ps
         else (case propose (pr_args p) of
                 Inl e \<Rightarrow> plan ''rejected_invalid'' (pr_confirm p) None e
                   # build_plans_loop propose (pr_intent p # seen) approved ps
               | Inr i \<Rightarrow> plan ''approved_pending_apply'' False (Some i) []
                   # build_plans_loop propose (pr_intent p # seen) (approved + 1) ps))"

definition build_memory_intent_plans ::
  "(dict \<Rightarrow> string + 'i) \<Rightarrow> proposal list \<Rightarrow> 'i memory_plan list" where
  "build_memory_intent_plans propose ps = build_plans_loop propose [] 0 ps"

section \<open>Applying plans\<close>

record memory_outcome =
  mo_call :: string
  mo_result :: dict
  mo_error :: "string option"

fun apply_approved ::
  "('i \<Rightarrow> 'm \<Rightarrow> (string + dict) \<times> 'm) option \<Rightarrow> 'i memory_plan list \<Rightarrow> 'm \<Rightarrow> memory_outcome list \<times> 'm" where
  "apply_approved writer [] m = ([], m)"
| "apply_approved writer (p # ps) m =
     (let (o1, m1) =
        (if mp_status p \<noteq> ''approved_pending_apply''
         then (\<lparr>mo_call = mp_call_id p, mo_result = [(''status'', PStr (mp_status p)),
                  (''reason'', PStr (mp_reason p)), (''requires_user_confirmation'', PBool (mp_confirm p))],
                mo_error = None\<rparr>, m)
         else (case (writer, mp_intent p) of
                 (Some w, Some i) \<Rightarrow>
                   (case w i m of
                      (Inl e, m') \<Rightarrow> (\<lparr>mo_call = mp_call_id p, mo_result = [(''status'', PStr ''failed''),
                         (''reason'', PStr e)], mo_error = Some e\<rparr>, m')
                    | (Inr audit, m') \<Rightarrow> (\<lparr>mo_call = mp_call_id p, mo_result = audit, mo_error = None\<rparr>, m'))
               | _ \<Rightarrow> (\<lparr>mo_call = mp_call_id p, mo_result = [(''status'', PStr ''failed''),
                         (''reason'', PStr ''memory writer unavailable'')],
                       mo_error = Some ''memory writer unavailable''\<rparr>, m)));
          (os, m2) = apply_approved writer ps m1
      in (o1 # os, m2))"

section \<open>Properties\<close>

lemma map_of_update_str: "dget (AList.update k v d) k' = (if k = k' then v else dget d k')"
  by (simp add: dget_def alist_simps)

lemma apply_not_approved:
  "\<forall>p \<in> set ps. mp_status p \<noteq> ''approved_pending_apply'' \<Longrightarrow> snd (apply_approved writer ps m) = m"
  by (induction ps) (auto split: prod.splits)

text \<open>What the tool answers.\<close>

lemma tool_answers:
  "dget (fst (propose_memory_update pstr check validate args deps)) ''status'' \<in>
     {PStr ''rejected_invalid'', PStr ''rejected_duplicate_intent'', PStr ''pending_confirmation''}"
  by (auto simp: propose_memory_update_def tool_answer_def Let_def split: sum.split)

lemma calls_keys:
  "map_of (memory_calls raw_args ms) i \<noteq> None \<longleftrightarrow> (\<exists>a. (i, memory_tool, a) \<in> set (all_calls ms))"
  "distinct (map fst (memory_calls raw_args ms))"
proof -
  let ?f = "\<lambda>(i, n, a) acc. if n = memory_tool then AList.update i (case raw_args a of Some d \<Rightarrow> d | None \<Rightarrow> []) acc else acc"
  have "map_of (fold ?f cs acc) i \<noteq> None \<longleftrightarrow> map_of acc i \<noteq> None \<or> (\<exists>a. (i, memory_tool, a) \<in> set cs)" for cs acc
    by (induction cs arbitrary: acc) (auto simp: update_conv' split: if_splits)
  then show "map_of (memory_calls raw_args ms) i \<noteq> None \<longleftrightarrow> (\<exists>a. (i, memory_tool, a) \<in> set (all_calls ms))"
    by (simp add: memory_calls_def)
  have "distinct (map fst acc) \<Longrightarrow> distinct (map fst (fold ?f cs acc))" for cs acc
    by (induction cs arbitrary: acc) (auto simp: distinct_update)
  from this[of "[]" "all_calls ms"] show "distinct (map fst (memory_calls raw_args ms))" by (simp add: memory_calls_def)
qed

text \<open>Plans that are not approved: the outcomes repeat their statuses.\<close>

lemma outcomes_not_approved:
  "\<forall>p \<in> set ps. mp_status p \<noteq> ''approved_pending_apply'' \<Longrightarrow>
     fst (apply_approved writer ps m) =
       map (\<lambda>p. \<lparr>mo_call = mp_call_id p, mo_result = [(''status'', PStr (mp_status p)), (''reason'', PStr (mp_reason p)),
                   (''requires_user_confirmation'', PBool (mp_confirm p))], mo_error = None\<rparr>) ps"
  by (induction ps) (auto split: prod.splits)

lemma plan_call: "mp_call_id (build_memory_plan pstr validate i args r) = i"
  by (simp add: build_memory_plan_def Let_def split: sum.split)

lemma plans_calls: "map mp_call_id (new_messages_to_plans pstr parse raw_args validate ms) = map fst (memory_calls raw_args ms)"
  by (simp add: new_messages_to_plans_def comp_def case_prod_unfold plan_call)

text \<open>
  C39: nothing is written to the memory without the user's confirmation.  The tool answers
  every proposal with rejected_invalid, rejected_duplicate_intent or pending_confirmation;
  and when the results of the memory calls of a turn are such answers, applying the turn's
  plans leaves the memory as it is, whatever the writer does, and reports one outcome for every
  call id the model used for a proposal, in which the status is one of these three, or failed
  where the result is missing.
\<close>

theorem memory_needs_confirmation:
  assumes "\<forall>(i, r) \<in> set (memory_results parse ms).
    \<exists>args deps. r = fst (propose_memory_update pstr check validate args deps)"
  shows "dget (fst (propose_memory_update pstr check validate args deps)) ''status'' \<in>
      {PStr ''rejected_invalid'', PStr ''rejected_duplicate_intent'', PStr ''pending_confirmation''} \<and>
    snd (apply_approved writer (new_messages_to_plans pstr' parse raw_args validate' ms) m) = m \<and>
    distinct (map mo_call (fst (apply_approved writer (new_messages_to_plans pstr' parse raw_args validate' ms) m))) \<and>
    (\<forall>i. i \<in> mo_call ` set (fst (apply_approved writer (new_messages_to_plans pstr' parse raw_args validate' ms) m)) \<longleftrightarrow>
       (\<exists>a. (i, memory_tool, a) \<in> set (all_calls ms))) \<and>
    (\<forall>q \<in> set (fst (apply_approved writer (new_messages_to_plans pstr' parse raw_args validate' ms) m)).
       dget (mo_result q) ''status'' \<in>
         {PStr ''rejected_invalid'', PStr ''rejected_duplicate_intent'', PStr ''pending_confirmation'', PStr ''failed''})"
proof -
  let ?ps = "new_messages_to_plans pstr' parse raw_args validate' ms"
  have st: "mp_status p \<in> {''rejected_invalid'', ''rejected_duplicate_intent'', ''pending_confirmation'', ''failed''}"
    if p: "p \<in> set ?ps" for p
  proof -
    obtain i args r where p: "p = build_memory_plan pstr' validate' i args r"
      and r: "map_of (memory_results parse ms) i = Some r \<or>
        r = [(''status'', PStr ''failed''), (''reason'', PStr ''missing tool result'')]"
      using p by (auto simp: new_messages_to_plans_def split: option.splits)
    have "dget r ''status'' \<in> {PStr ''rejected_invalid'', PStr ''rejected_duplicate_intent'',
        PStr ''pending_confirmation'', PStr ''failed''}"
      using r
    proof
      assume "map_of (memory_results parse ms) i = Some r"
      then have "(i, r) \<in> set (memory_results parse ms)" by (rule map_of_SomeD)
      then obtain a deps where "r = fst (propose_memory_update pstr check validate a deps)"
        using assms by auto
      then show ?thesis using tool_answers[of pstr check validate a deps] by auto
    qed simp
    then have "(case dget_or r ''status'' (PStr ''failed'') of PStr s \<Rightarrow> s | _ \<Rightarrow> []) \<in>
        {''rejected_invalid'', ''rejected_duplicate_intent'', ''pending_confirmation'', ''failed''}"
      by (auto simp: dget_def dget_or_def split: option.splits)
    then show ?thesis by (auto simp: p build_memory_plan_def Let_def split: sum.split)
  qed
  then have na: "\<forall>p \<in> set ?ps. mp_status p \<noteq> ''approved_pending_apply''" by fastforce
  have outs: "map mo_call (fst (apply_approved writer ?ps m)) = map fst (memory_calls raw_args ms)"
    unfolding outcomes_not_approved[OF na] by (simp add: comp_def plans_calls[unfolded comp_def])
  have "i \<in> mo_call ` set (fst (apply_approved writer ?ps m)) \<longleftrightarrow> (\<exists>a. (i, memory_tool, a) \<in> set (all_calls ms))" for i
    unfolding calls_keys(1)[where raw_args = raw_args, symmetric] set_map[symmetric] outs by (simp add: map_of_eq_None_iff)
  moreover have "distinct (map mo_call (fst (apply_approved writer ?ps m)))" unfolding outs by (rule calls_keys(2))
  moreover have "dget (mo_result q) ''status'' \<in>
      {PStr ''rejected_invalid'', PStr ''rejected_duplicate_intent'', PStr ''pending_confirmation'', PStr ''failed''}"
    if "q \<in> set (fst (apply_approved writer ?ps m))" for q
  proof -
    obtain p where p: "p \<in> set ?ps" "dget (mo_result q) ''status'' = PStr (mp_status p)"
      using \<open>q \<in> _\<close> unfolding outcomes_not_approved[OF na] by (auto simp: dget_def)
    show ?thesis using st[OF p(1)] unfolding p(2) by blast
  qed
  ultimately show ?thesis using tool_answers[of pstr check validate args deps] apply_not_approved[OF na] by (intro conjI ballI allI) auto
qed

theorem memory_needs_confirmation_witness:
  "snd (apply_approved (Some (\<lambda>i m. (Inr [], Suc m)))
     (new_messages_to_plans (\<lambda>_. []) (\<lambda>_. None) (\<lambda>_. None) (\<lambda>d. Inr d)
       [ModelResponse [ToolCallPart ''c'' memory_tool ''{}''],
        ModelRequest [ToolReturnPart ''c'' memory_tool
          (PDict (tool_answer ''pending_confirmation'' ''requires_user_confirmation=true'' True)) ''success'']]) 0) = 0"
proof (rule conjunct1[OF conjunct2[OF memory_needs_confirmation[where pstr = "\<lambda>_. []" and check = "\<lambda>_. Inr ''i''" and
      validate = "\<lambda>d. Inr d :: string + dict"]]])
  have "fst (propose_memory_update (\<lambda>_. []) (\<lambda>_. Inr ''i'') (\<lambda>d. Inr d :: string + dict) []
      \<lparr>md_seen = [], md_approved = 0\<rparr>) = tool_answer ''pending_confirmation'' ''requires_user_confirmation=true'' True"
    by (simp add: propose_memory_update_def Let_def)
  then show "\<forall>(i, r) \<in> set (memory_results (\<lambda>_. None)
      [ModelResponse [ToolCallPart ''c'' memory_tool ''{}''],
        ModelRequest [ToolReturnPart ''c'' memory_tool
          (PDict (tool_answer ''pending_confirmation'' ''requires_user_confirmation=true'' True)) ''success'']]).
      \<exists>args deps. r = fst (propose_memory_update (\<lambda>_. []) (\<lambda>_. Inr ''i'') (\<lambda>d. Inr d :: string + dict) args deps)"
    by (auto simp: memory_results_def return_parts_def map_filter_Cons map_filter_Nil
        parse_tool_result_content_def) metis
qed

definition approved_plans :: "'i memory_plan list \<Rightarrow> 'i memory_plan list" where
  "approved_plans ps = filter (\<lambda>p. mp_status p = ''approved_pending_apply'') ps"

lemma build_plans_bound:
  "length (approved_plans (build_plans_loop propose seen n ps)) + min n max_memory_writes \<le> max_memory_writes"
proof (induction propose seen n ps rule: build_plans_loop.induct)
  case (2 propose seen approved p ps)
  then show ?case
    by (auto simp: approved_plans_def Let_def split: sum.splits)
qed (simp add: approved_plans_def)

end
