(* ===== verification/Turn_Persistence.thy ===== *)
theory Turn_Persistence
  imports Memory_Intents
begin

text \<open>
  How a turn is stored: core/orchestrator/persistence.py, and the part of
  Orchestrator._run_turn_pydantic_ai after the adapter's run, with its error paths.  An
  append to the session log either runs as in Session_Log or, when the next element of the
  fault list is True, raises OSError before it writes.  The outcome of the adapter
  (an external agent run) is a parameter.  clk n is the clock of the n-th reading.
\<close>

type_synonym io_state = "sessions \<times> bool list"

definition io_append :: "session_record list \<Rightarrow> io_state \<Rightarrow> (exn + unit) \<times> io_state" where
  "io_append rs st =
     (case st of
        (d, True # fs) \<Rightarrow> (Inl OSError, (d, fs))
      | (d, fs) \<Rightarrow> (let (r, d') = session_append rs d in (r, (d', tl fs))))"

definition assistant_msg_id :: "string \<Rightarrow> string" where
  "assistant_msg_id turn = ''msg-'' @ turn @ ''-assistant''"

definition user_record :: "turn_info \<Rightarrow> string \<Rightarrow> pyval list \<Rightarrow> string option \<Rightarrow> session_record" where
  "user_record ti text atts uid =
     mk_record ti (ti_turn ti) UserMessage
       [(''message_id'', PStr (''msg-'' @ ti_turn ti @ ''-user'')), (''content'', PStr text),
        (''attachments'', PList atts), (''source_event_id'', PStr (ti_turn ti)),
        (''user_id'', of_opt PStr uid)]"

definition summary_record :: "turn_info \<Rightarrow> dict \<Rightarrow> session_record" where
  "summary_record ti audit =
     mk_record ti (''turn-summary-'' @ ti_turn ti) TurnSummary
       [(''summary_text'', PStr ''turn diagnostics''), (''retrieval_audit'', PNone),
        (''capability_audit'', PDict audit)]"

definition capability_audit :: "int \<Rightarrow> dict option \<Rightarrow> dict" where
  "capability_audit invalid trace =
     (if invalid > 0 then [(''invalid_memory_intents'', PInt invalid)] else [])
     @ (case trace of Some t \<Rightarrow> [(''prompt_trace'', PDict t)] | None \<Rightarrow> [])"

definition initial_records ::
  "turn_info \<Rightarrow> string \<Rightarrow> session_record list \<Rightarrow> pyval list \<Rightarrow> int \<Rightarrow> dict option \<Rightarrow> string option
    \<Rightarrow> session_record list" where
  "initial_records ti text arecs atts invalid trace uid =
     user_record ti text atts uid # arecs @
     (if capability_audit invalid trace \<noteq> [] then [summary_record ti (capability_audit invalid trace)] else [])"

definition persist_turn_initial ::
  "turn_info \<Rightarrow> string \<Rightarrow> session_record list \<Rightarrow> pyval list \<Rightarrow> int \<Rightarrow> dict option \<Rightarrow> string option
    \<Rightarrow> io_state \<Rightarrow> (exn + unit) \<times> io_state" where
  "persist_turn_initial ti text arecs atts invalid trace uid st =
     io_append (initial_records ti text arecs atts invalid trace uid) st"

definition outcome_record :: "turn_info \<Rightarrow> memory_outcome \<Rightarrow> int \<Rightarrow> session_record" where
  "outcome_record ti oc n =
     (mk_record ti (''tool-result-final-'' @ mo_call oc) ToolResult
       [(''message_id'', PStr (''msg-final-result-'' @ mo_call oc)), (''tool_call_id'', PStr (mo_call oc)),
        (''tool_name'', PStr memory_tool), (''result'', PDict (mo_result oc)),
        (''error'', of_opt PStr (mo_error oc))])\<lparr>sr_seq := n\<rparr>"

fun outcome_records :: "turn_info \<Rightarrow> int \<Rightarrow> memory_outcome list \<Rightarrow> session_record list" where
  "outcome_records ti n [] = []"
| "outcome_records ti n (oc # os) = outcome_record ti oc n # outcome_records ti (n + 1) os"

definition terminal_record :: "turn_info \<Rightarrow> int \<Rightarrow> dict \<Rightarrow> session_record" where
  "terminal_record ti n payload =
     (mk_record ti (''terminal-'' @ ti_turn ti) TurnTerminal payload)\<lparr>sr_seq := n\<rparr>"

text \<open>terminal_payload: None or an empty dictionary give the status alone.\<close>

definition terminal_payload :: "terminal_status \<Rightarrow> dict option \<Rightarrow> dict" where
  "terminal_payload status p =
     (case p of
        Some d \<Rightarrow>
          if d = [] then [(''status'', PStr (ts_value status))]
          else if map_of d ''status'' = None then AList.update ''status'' (PStr (ts_value status)) d else d
      | None \<Rightarrow> [(''status'', PStr (ts_value status))])"

definition persist_turn_outcomes ::
  "turn_info \<Rightarrow> memory_outcome list \<Rightarrow> terminal_status \<Rightarrow> dict option \<Rightarrow> io_state \<Rightarrow> (exn + unit) \<times> io_state" where
  "persist_turn_outcomes ti os status payload st =
     (let n = get_next_sequence (fst st) (ti_session ti)
      in io_append (outcome_records ti n os @
           [terminal_record ti (n + int (length os)) (terminal_payload status payload)]) st)"

definition failed_records ::
  "turn_info \<Rightarrow> string \<Rightarrow> int \<Rightarrow> string \<Rightarrow> string option \<Rightarrow> terminal_status \<Rightarrow> string option \<Rightarrow> session_record list" where
  "failed_records ti default_model n text uid status content =
     [(user_record ti text [] uid)\<lparr>sr_seq := n\<rparr>,
      (mk_record ti (assistant_msg_id (ti_turn ti)) AssistantMessage
        [(''message_id'', PStr (assistant_msg_id (ti_turn ti))),
         (''content'', PStr (case content of Some c \<Rightarrow> c | None \<Rightarrow> ''[Request failed]'')),
         (''model_id'', PStr default_model)])\<lparr>sr_seq := n + 1\<rparr>,
      terminal_record ti (n + 2) [(''status'', PStr (ts_value status))]]"

definition persist_turn_failed ::
  "turn_info \<Rightarrow> string \<Rightarrow> string \<Rightarrow> string option \<Rightarrow> terminal_status \<Rightarrow> string option \<Rightarrow> io_state
    \<Rightarrow> (exn + unit) \<times> io_state" where
  "persist_turn_failed ti default_model text uid status content st =
     io_append (failed_records ti default_model (get_next_sequence (fst st) (ti_session ti)) text uid
       status content) st"

definition persist_turn_terminal_failed ::
  "turn_info \<Rightarrow> terminal_status \<Rightarrow> io_state \<Rightarrow> (exn + unit) \<times> io_state" where
  "persist_turn_terminal_failed ti status st =
     io_append [terminal_record ti (get_next_sequence (fst st) (ti_session ti))
       [(''status'', PStr (ts_value status))]] st"

section \<open>After the adapter\<close>

datatype adapter_outcome =
    RunOk string "model_message list" "dict option"
  | RunCancelled "model_message list"
  | RunToolFailed string "model_message list"
  | RunUnexpected string
  | RunHttpError int
  | RunRaises exn

text \<open>
  RunOk has the response text, the new messages and the usage; RunCancelled the partial
  messages (none for a cancellation outside the agent loop); RunToolFailed the recovered
  text and the partial messages.
\<close>

datatype turn_error = TurnCancelledError | UnexpectedModelBehavior string | ModelHTTPError int | TurnError exn

record turn_result =
  tr_text :: string
  tr_ask :: "pending_ask option"
  tr_buttons :: "((string \<times> string \<times> string \<times> string) list \<times> string) option"

text \<open>The request and the external functions of one turn.\<close>

record 'i turn_env =
  te_session :: string
  te_turn :: string
  te_text :: string
  te_user :: "string option"
  te_model :: string
  te_default_model :: string
  te_trace :: "dict option"
  te_attachments :: "pyval list"
  te_clk :: "nat \<Rightarrow> time"
  te_parse :: "string \<Rightarrow> pyval option"
  te_str :: "pyval \<Rightarrow> string"
  te_args :: "string \<Rightarrow> dict option"
  te_validate :: "dict \<Rightarrow> string + 'i"

definition te_info :: "'i turn_env \<Rightarrow> nat \<Rightarrow> turn_info" where
  "te_info e n = \<lparr>ti_session = te_session e, ti_turn = te_turn e, ti_now = te_clk e n\<rparr>"

definition partial_records :: "'i turn_env \<Rightarrow> string \<Rightarrow> model_message list \<Rightarrow> session_record list" where
  "partial_records e content ms =
     (let ti = te_info e 0; amid = assistant_msg_id (te_turn e);
          rs = new_messages_to_session_records (te_parse e) ti amid (Some (te_model e)) None (te_user e) True ms
      in if list_ex (is_type AssistantMessage) rs then rs
         else rs @ [mk_record ti amid AssistantMessage
           [(''message_id'', PStr amid), (''content'', PStr content), (''model_id'', PStr (te_model e))]])"

text \<open>Persisting a partial turn; an exception is logged and dropped.\<close>

definition persist_partial ::
  "'i turn_env \<Rightarrow> string \<Rightarrow> model_message list \<Rightarrow> terminal_status \<Rightarrow> io_state \<Rightarrow> io_state" where
  "persist_partial e content ms status st =
     (case persist_turn_initial (te_info e 1) (te_text e) (partial_records e content ms) [] 0 None (te_user e) st of
        (Inl _, st1) \<Rightarrow> st1
      | (Inr _, st1) \<Rightarrow> snd (persist_turn_outcomes (te_info e 2) [] status None st1))"

definition persist_failed_quietly ::
  "'i turn_env \<Rightarrow> terminal_status \<Rightarrow> string \<Rightarrow> io_state \<Rightarrow> io_state" where
  "persist_failed_quietly e status content st =
     snd (persist_turn_failed (te_info e 0) (te_default_model e) (te_text e) (te_user e) status (Some content) st)"

definition ok_records :: "'i turn_env \<Rightarrow> string \<Rightarrow> model_message list \<Rightarrow> dict option \<Rightarrow> session_record list" where
  "ok_records e text ms usage =
     (let ti = te_info e 0; amid = assistant_msg_id (te_turn e);
          rs = new_messages_to_session_records (te_parse e) ti amid (Some (te_model e)) usage (te_user e) True ms
      in if rs \<noteq> [] then rs
         else [mk_record ti amid AssistantMessage
           ([(''message_id'', PStr amid), (''content'', PStr text), (''model_id'', PStr (te_model e))]
            @ (case usage of Some u \<Rightarrow> [(''usage'', PDict u)] | None \<Rightarrow> [])
            @ (case te_user e of Some u \<Rightarrow> [(''user_id'', PStr u)] | None \<Rightarrow> []))])"

text \<open>A completed run: initial records, memory intents, outcomes, and the two error paths.\<close>

definition complete_turn ::
  "('i \<Rightarrow> 'm \<Rightarrow> (string + dict) \<times> 'm) option \<Rightarrow> 'i turn_env \<Rightarrow> string \<Rightarrow> model_message list \<Rightarrow> dict option
    \<Rightarrow> io_state \<times> 'm \<Rightarrow> (turn_error + turn_result) \<times> io_state \<times> 'm" where
  "complete_turn writer e text ms usage s =
     (let (st, m) = s;
          plans = new_messages_to_plans (te_str e) (te_parse e) (te_args e) (te_validate e) ms;
          result = \<lparr>tr_text = text,
            tr_ask = extract_pending_ask (te_str e) (te_parse e) (te_session e) (te_turn e) ms,
            tr_buttons = extract_webapp_buttons (te_str e) (te_parse e) ms\<rparr>
      in case persist_turn_initial (te_info e 1) (te_text e) (ok_records e text ms usage)
                (te_attachments e) 0 (te_trace e) (te_user e) st of
           (Inl x, st1) \<Rightarrow>
             (case persist_turn_failed (te_info e 2) (te_default_model e) (te_text e) (te_user e) Failed None st1 of
                (Inl y, st2) \<Rightarrow> (Inl (TurnError y), st2, m)
              | (Inr _, st2) \<Rightarrow> (Inl (TurnError x), st2, m))
         | (Inr _, st1) \<Rightarrow>
             (let (outcomes, m1) = apply_approved writer plans m
              in case persist_turn_outcomes (te_info e 2) outcomes Completed None st1 of
                   (Inr _, st2) \<Rightarrow> (Inr result, st2, m1)
                 | (Inl x, st2) \<Rightarrow>
                     (case persist_turn_terminal_failed (te_info e 3) Failed st2 of
                        (Inl y, st3) \<Rightarrow> (Inl (TurnError y), st3, m1)
                      | (Inr _, st3) \<Rightarrow> (Inl (TurnError x), st3, m1))))"

definition tool_failed_text :: string where
  "tool_failed_text = ''I encountered a tool error and could not complete the action. '' @
     ''Please try again or rephrase your request.''"

definition run_adapter_turn ::
  "('i \<Rightarrow> 'm \<Rightarrow> (string + dict) \<times> 'm) option \<Rightarrow> 'i turn_env \<Rightarrow> adapter_outcome \<Rightarrow> io_state \<times> 'm
    \<Rightarrow> (turn_error + turn_result) \<times> io_state \<times> 'm" where
  "run_adapter_turn writer e oc s =
     (case oc of
        RunOk text ms usage \<Rightarrow> complete_turn writer e text ms usage s
      | RunCancelled ms \<Rightarrow>
          (Inl TurnCancelledError,
           (if ms \<noteq> [] then persist_partial e ''[Turn cancelled by user]'' ms Cancelled (fst s)
            else persist_failed_quietly e Cancelled ''[Turn cancelled by user]'' (fst s)), snd s)
      | RunToolFailed recovered ms \<Rightarrow>
          (let text = (if recovered \<noteq> [] then recovered else tool_failed_text)
           in (Inr \<lparr>tr_text = text, tr_ask = None, tr_buttons = None\<rparr>,
               persist_partial e text ms Degraded (fst s), snd s))
      | RunUnexpected x \<Rightarrow>
          (Inl (UnexpectedModelBehavior x),
           persist_failed_quietly e Failed (''[Tool call failed: '' @ x @ '']'') (fst s), snd s)
      | RunHttpError status \<Rightarrow>
          (Inl (ModelHTTPError status),
           persist_failed_quietly e Failed (''[API error '' @ show_int status @ '']'') (fst s), snd s)
      | RunRaises x \<Rightarrow> (Inl (TurnError x), fst s, snd s))"

section \<open>Storing one batch\<close>

lemma assign_new_has:
  assumes "r \<in> set rs" and "sr_event r \<notin> ids" and "\<forall>x \<in> set rs. sr_event x = sr_event r \<longrightarrow> x = r"
  shows "\<exists>m. r\<lparr>sr_seq := m\<rparr> \<in> set (assign_new ids n rs)"
  using assms
proof (induction ids n rs rule: assign_new.induct)
  case (2 ids n x rs)
  show ?case
  proof (cases "x = r")
    case True
    then show ?thesis using "2.prems"(2) by auto
  next
    case False
    then have "sr_event x \<noteq> sr_event r" using "2.prems"(3) by auto
    with False 2 show ?thesis by auto
  qed
qed simp

abbreviation good_store :: "sessions \<Rightarrow> bool" where
  "good_store d \<equiv> sessions_wf d \<and> sessions_healthy d"

lemma append_stores:
  assumes "good_store d" and "batch_of sid rs" and "r \<in> set rs"
    and "sr_event r \<notin> sr_event ` set (stored d sid)" and "\<forall>x \<in> set rs. sr_event x = sr_event r \<longrightarrow> x = r"
  shows "\<exists>m. r\<lparr>sr_seq := m\<rparr> \<in> set (stored (session_put rs d) sid)"
proof -
  have "rs \<noteq> []" using assms(3) by auto
  then have rs: "rs \<noteq> []" "one_session rs" "sr_session (hd rs) = sid"
    using batch_one[OF assms(2)] by auto
  then have "stored (session_put rs d) sid =
      stored d sid @ assign_new (sr_event ` set (stored d sid)) (next_seq (stored d sid)) rs"
    using assms(1) stored_append[of d rs sid] by (simp add: session_put_def appended_def Let_def)
  then show ?thesis using assign_new_has[OF assms(3,4,5)] by auto
qed

lemma put_events:
  assumes "good_store d" and "batch_of sid rs"
  shows "sr_event ` set (stored (session_put rs d) sid) = sr_event ` set (stored d sid) \<union> sr_event ` set rs"
proof (cases "rs = []")
  case False
  then show ?thesis
    using stored_append_events[of d rs] assms batch_one[OF assms(2)] by (simp add: session_put_def)
qed (simp add: session_put_def append_cases)

lemma io_append_ok:
  assumes "batch_of sid rs" and "fs = [] \<or> \<not> hd fs"
  shows "io_append rs (d, fs) = (Inr (), (session_put rs d, tl fs))"
proof -
  have "fst (session_append rs d) = Inr ()"
    using batch_one[OF assms(1)] by (cases "rs = []") (auto simp: append_cases Let_def)
  then show ?thesis
    using assms(2) by (cases fs) (auto simp: io_append_def session_put_def split: prod.split bool.split)
qed

lemma io_append_fault: "io_append rs (d, True # fs) = (Inl OSError, (d, fs))"
  by (simp add: io_append_def)

section \<open>Terminal records\<close>

definition terminated :: "sessions \<Rightarrow> string \<Rightarrow> string \<Rightarrow> terminal_status \<Rightarrow> bool" where
  "terminated d sid turn status =
     list_ex (\<lambda>r. sr_turn r = turn \<and> sr_type r = TurnTerminal \<and>
       dget (sr_payload r) ''status'' = PStr (ts_value status)) (read_session d sid)"

definition unterminated :: "sessions \<Rightarrow> string \<Rightarrow> string \<Rightarrow> bool" where
  "unterminated d sid turn = (''terminal-'' @ turn \<notin> sr_event ` set (stored d sid))"

lemma mk_record_simps [simp]:
  "sr_session (mk_record ti ev ty p) = ti_session ti" "sr_event (mk_record ti ev ty p) = ev"
  "sr_turn (mk_record ti ev ty p) = ti_turn ti" "sr_type (mk_record ti ev ty p) = ty"
  "sr_payload (mk_record ti ev ty p) = p"
  by (simp_all add: mk_record_def)

lemma terminal_stored:
  assumes "good_store d" and "batch_of (ti_session ti) rs" and "unterminated d (ti_session ti) (ti_turn ti)"
    and "terminal_record ti n [(''status'', PStr (ts_value status))] \<in> set rs"
    and "\<forall>x \<in> set rs. sr_event x = ''terminal-'' @ ti_turn ti \<longrightarrow>
      x = terminal_record ti n [(''status'', PStr (ts_value status))]"
  shows "terminated (session_put rs d) (ti_session ti) (ti_turn ti) status"
proof -
  let ?t = "terminal_record ti n [(''status'', PStr (ts_value status))]"
  have ev: "sr_event ?t = ''terminal-'' @ ti_turn ti" by (simp add: terminal_record_def)
  obtain m where m: "?t\<lparr>sr_seq := m\<rparr> \<in> set (stored (session_put rs d) (ti_session ti))"
    using append_stores[OF assms(1,2,4)] assms(3,5) ev by (auto simp: unterminated_def)
  have "sessions_wf (session_put rs d)" using assms(1) by (simp add: session_put_def wf_append)
  then have "read_session (session_put rs d) (ti_session ti) = stored (session_put rs d) (ti_session ti)"
    by (simp add: read_session_def wf_read)
  then show ?thesis
    using m unfolding terminated_def list_ex_iff
    by (intro bexI[of _ "?t\<lparr>sr_seq := m\<rparr>"]) (simp_all add: terminal_record_def)
qed

lemma put_good: "good_store d \<Longrightarrow> good_store (session_put rs d)"
  by (simp add: session_put_def wf_append healthy_append)

text \<open>No other record of a turn is named like its terminal record.\<close>

lemma outcome_records_facts:
  "x \<in> set (outcome_records ti n os) \<Longrightarrow> sr_session x = ti_session ti \<and> sr_event x \<noteq> ''terminal-'' @ ti_turn ti"
  by (induction ti n os rule: outcome_records.induct) (auto simp: outcome_record_def)

lemma message_records_facts:
  "x \<in> set (message_records parse ti amid model usage uid skip ms idx) \<Longrightarrow> sr_session x = ti_session ti \<and>
     (sr_event x = amid \<or> (\<exists>s. sr_event x = amid @ s) \<or> (\<exists>s. sr_event x = ''assistant-tool-call-'' @ s) \<or>
      (\<exists>s. sr_event x = ''tool-result-'' @ s))"
  by (induction parse ti amid model usage uid skip ms idx rule: message_records.induct)
    (auto simp: assistant_record_def call_record_def result_record_def Let_def split: if_splits prod.splits)

lemma new_records_facts:
  "x \<in> set (new_messages_to_session_records parse ti (assistant_msg_id turn) model usage uid skip ms) \<Longrightarrow>
     sr_session x = ti_session ti \<and> sr_event x \<noteq> ''terminal-'' @ turn'"
  unfolding new_messages_to_session_records_def
  using message_records_facts[of x parse ti "assistant_msg_id turn" model usage uid skip ms 0]
  by (auto simp: assistant_msg_id_def)

lemma te_info_simps [simp]: "ti_session (te_info e n) = te_session e" "ti_turn (te_info e n) = te_turn e"
  by (simp_all add: te_info_def)

lemma not_own_prefix: "s \<noteq> ''terminal-'' @ s"
proof
  assume "s = ''terminal-'' @ s"
  then have "length s = length (''terminal-'' @ s)" by (rule arg_cong)
  then show False by simp
qed

lemma initial_facts:
  assumes "x \<in> set (initial_records (te_info e n) text arecs atts invalid trace uid)"
    and "\<forall>r \<in> set arecs. sr_session r = te_session e \<and> sr_event r \<noteq> ''terminal-'' @ te_turn e"
  shows "sr_session x = te_session e \<and> sr_event x \<noteq> ''terminal-'' @ te_turn e"
  using assms not_own_prefix[of "te_turn e"]
  by (auto simp: initial_records_def user_record_def summary_record_def split: if_splits)

lemma ok_records_facts: "\<forall>r \<in> set (ok_records e text ms usage). sr_session r = te_session e \<and> sr_event r \<noteq> ''terminal-'' @ te_turn e"
  using new_records_facts[of _ "te_parse e" "te_info e 0" "te_turn e" "Some (te_model e)" usage "te_user e" True ms]
  by (auto simp: ok_records_def Let_def assistant_msg_id_def)

lemma partial_records_facts: "\<forall>r \<in> set (partial_records e c ms). sr_session r = te_session e \<and> sr_event r \<noteq> ''terminal-'' @ te_turn e"
  using new_records_facts[of _ "te_parse e" "te_info e 0" "te_turn e" "Some (te_model e)" None "te_user e" True ms]
  by (auto simp: partial_records_def Let_def assistant_msg_id_def)

section \<open>Each way of storing a turn ends it\<close>

lemma batch_initial:
  assumes "\<forall>r \<in> set arecs. sr_session r = te_session e \<and> sr_event r \<noteq> ''terminal-'' @ te_turn e"
  shows "batch_of (te_session e) (initial_records (te_info e n) text arecs atts invalid trace uid)"
  using initial_facts[OF _ assms] by (auto simp: batch_of_def)

lemma unterminated_put:
  assumes "good_store d" and "batch_of sid rs" and "unterminated d sid turn"
    and "\<forall>r \<in> set rs. sr_event r \<noteq> ''terminal-'' @ turn"
  shows "unterminated (session_put rs d) sid turn"
  using assms unfolding unterminated_def put_events[OF assms(1,2)] by auto

text \<open>Without a fault the initial records are stored and leave the turn open.\<close>

lemma initial_ok:
  assumes "good_store d" and "fs = [] \<or> \<not> hd fs" and "unterminated d (te_session e) (te_turn e)"
    and "\<forall>r \<in> set arecs. sr_session r = te_session e \<and> sr_event r \<noteq> ''terminal-'' @ te_turn e"
  obtains d1 where "persist_turn_initial (te_info e n) text arecs atts invalid trace uid (d, fs) = (Inr (), (d1, tl fs))"
    and "good_store d1" and "unterminated d1 (te_session e) (te_turn e)"
proof
  let ?rs = "initial_records (te_info e n) text arecs atts invalid trace uid"
  note b = batch_initial[OF assms(4), of n "text" atts invalid trace uid]
  show "persist_turn_initial (te_info e n) text arecs atts invalid trace uid (d, fs) =
      (Inr (), (session_put ?rs d, tl fs))"
    unfolding persist_turn_initial_def by (rule io_append_ok[OF b assms(2)])
  show "good_store (session_put ?rs d)" using assms(1) by (rule put_good)
  show "unterminated (session_put ?rs d) (te_session e) (te_turn e)"
    by (rule unterminated_put[OF assms(1) b assms(3)]) (use initial_facts[OF _ assms(4)] in blast)
qed

lemma terminal_appended:
  assumes "good_store d" and "fs = [] \<or> \<not> hd fs" and "unterminated d (te_session e) (te_turn e)"
    and "\<forall>r \<in> set rs. sr_session r = te_session e \<and> sr_event r \<noteq> ''terminal-'' @ te_turn e"
  shows "\<exists>d1. io_append (rs @ [terminal_record (te_info e n) k [(''status'', PStr (ts_value status))]]) (d, fs) =
      (Inr (), (d1, tl fs)) \<and> good_store d1 \<and> terminated d1 (te_session e) (te_turn e) status"
proof -
  let ?t = "terminal_record (te_info e n) k [(''status'', PStr (ts_value status))]"
  let ?rs = "rs @ [?t]"
  have b: "batch_of (te_session e) ?rs"
    using assms(4) by (auto simp: batch_of_def terminal_record_def)
  have "terminated (session_put ?rs d) (ti_session (te_info e n)) (ti_turn (te_info e n)) status"
    by (rule terminal_stored[where n = k]) (use assms b in \<open>auto simp: terminal_record_def\<close>)
  then show ?thesis
    using io_append_ok[OF b assms(2)] put_good[OF assms(1)] by simp
qed

lemma outcomes_ok:
  assumes "good_store d" and "fs = [] \<or> \<not> hd fs" and "unterminated d (te_session e) (te_turn e)"
  shows "\<exists>d1. persist_turn_outcomes (te_info e n) os status None (d, fs) = (Inr (), (d1, tl fs)) \<and>
    good_store d1 \<and> terminated d1 (te_session e) (te_turn e) status"
proof -
  have "\<forall>r \<in> set (outcome_records (te_info e n) k os). sr_session r = te_session e \<and>
      sr_event r \<noteq> ''terminal-'' @ te_turn e" for k
    using outcome_records_facts[of _ "te_info e n" k os] by simp
  from terminal_appended[OF assms this] show ?thesis
    by (simp add: persist_turn_outcomes_def terminal_payload_def Let_def)
qed

lemma terminal_failed_ok:
  assumes "good_store d" and "fs = [] \<or> \<not> hd fs" and "unterminated d (te_session e) (te_turn e)"
  shows "\<exists>d1. persist_turn_terminal_failed (te_info e n) status (d, fs) = (Inr (), (d1, tl fs)) \<and>
    good_store d1 \<and> terminated d1 (te_session e) (te_turn e) status"
  using terminal_appended[OF assms, of "[]" n "get_next_sequence d (te_session e)" status]
  by (simp add: persist_turn_terminal_failed_def)

lemma failed_ok:
  assumes "good_store d" and "fs = [] \<or> \<not> hd fs" and "unterminated d (te_session e) (te_turn e)"
  shows "\<exists>d1. persist_turn_failed (te_info e n) dm text uid status c (d, fs) = (Inr (), (d1, tl fs)) \<and>
    good_store d1 \<and> terminated d1 (te_session e) (te_turn e) status"
proof -
  let ?k = "get_next_sequence d (te_session e)"
  let ?ab = "butlast (failed_records (te_info e n) dm ?k text uid status c)"
  have "failed_records (te_info e n) dm ?k text uid status c =
      ?ab @ [terminal_record (te_info e n) (?k + 2) [(''status'', PStr (ts_value status))]]"
    by (simp add: failed_records_def)
  moreover have "\<forall>r \<in> set ?ab. sr_session r = te_session e \<and> sr_event r \<noteq> ''terminal-'' @ te_turn e"
    using not_own_prefix[of "te_turn e"]
    by (simp add: failed_records_def user_record_def assistant_msg_id_def)
  ultimately show ?thesis
    using terminal_appended[OF assms, of ?ab n "?k + 2" status]
    by (simp add: persist_turn_failed_def)
qed

lemma partial_ok:
  assumes "good_store d" and "unterminated d (te_session e) (te_turn e)"
  shows "\<exists>d1. persist_partial e c ms status (d, []) = (d1, []) \<and>
    good_store d1 \<and> terminated d1 (te_session e) (te_turn e) status"
proof -
  obtain d1 where d1: "persist_turn_initial (te_info e 1) (te_text e) (partial_records e c ms) [] 0 None
      (te_user e) (d, []) = (Inr (), (d1, tl []))" "good_store d1" "unterminated d1 (te_session e) (te_turn e)"
    by (rule initial_ok[OF assms(1) _ assms(2) partial_records_facts, where fs = "[]"]) simp_all
  from outcomes_ok[OF d1(2) _ d1(3), of "[]" 2 "[]" status] d1(1) show ?thesis
    by (auto simp: persist_partial_def)
qed

lemma quiet_ok:
  assumes "good_store d" and "unterminated d (te_session e) (te_turn e)"
  shows "\<exists>d1. persist_failed_quietly e status c (d, []) = (d1, []) \<and>
    good_store d1 \<and> terminated d1 (te_session e) (te_turn e) status"
  using failed_ok[OF assms(1) _ assms(2), of "[]" 0 "te_default_model e" "te_text e" "te_user e" status "Some c"]
  by (auto simp: persist_failed_quietly_def)

text \<open>A fault of the first or of the second write leaves a partial turn open.\<close>

lemma initial_fault: "persist_turn_initial ti t rs atts k trace uid (d, [True]) = (Inl OSError, (d, []))"
  by (simp add: persist_turn_initial_def io_append_fault)

lemma partial_fault:
  assumes "good_store d" and "unterminated d (te_session e) (te_turn e)" and "fs \<in> {[True], [False, True]}"
  shows "\<exists>d1. persist_partial e c ms status (d, fs) = (d1, []) \<and> good_store d1 \<and> unterminated d1 (te_session e) (te_turn e)"
proof (cases "fs = [True]")
  case True
  then show ?thesis using assms(1,2) by (simp add: persist_partial_def initial_fault)
next
  case False
  then have fs: "fs = [False, True]" using assms(3) by simp
  obtain d1 where d1: "persist_turn_initial (te_info e 1) (te_text e) (partial_records e c ms) [] 0 None
      (te_user e) (d, fs) = (Inr (), (d1, tl fs))" "good_store d1" "unterminated d1 (te_session e) (te_turn e)"
    by (rule initial_ok[OF assms(1) _ assms(2) partial_records_facts, where fs = fs]) (simp_all add: fs)
  have "persist_turn_outcomes (te_info e 2) [] status None (d1, [True]) = (Inl OSError, (d1, []))"
    by (simp add: persist_turn_outcomes_def io_append_fault Let_def)
  then show ?thesis using d1 by (simp add: persist_partial_def fs)
qed

lemma quiet_result:
  assumes "good_store d" and "unterminated d (te_session e) (te_turn e)" and "fs \<in> {[], [True], [False, True]}"
  shows "\<exists>d1 gs. persist_failed_quietly e status c (d, fs) = (d1, gs) \<and> good_store d1 \<and>
    (if fs = [] \<or> \<not> hd fs then terminated d1 (te_session e) (te_turn e) status
     else unterminated d1 (te_session e) (te_turn e))"
proof (cases "fs = [] \<or> \<not> hd fs")
  case True
  then show ?thesis
    using failed_ok[OF assms(1) True assms(2), of 0 "te_default_model e" "te_text e" "te_user e" status "Some c"]
    by (auto simp: persist_failed_quietly_def)
next
  case False
  then have "fs = [True]" using assms(3) by auto
  then show ?thesis using assms(1,2) by (simp add: persist_failed_quietly_def persist_turn_failed_def io_append_fault)
qed

section \<open>Properties\<close>

text \<open>
  The status a turn ends with, by the ending of the run and the faults of the writes; None when the
  turn stays open until the next start-up scan.
\<close>

fun closing_status :: "adapter_outcome \<Rightarrow> bool list \<Rightarrow> terminal_status option" where
  "closing_status (RunOk _ _ _) fs = Some (if fs = [] then Completed else Failed)"
| "closing_status (RunCancelled ms) fs = (if fs = [] \<or> ms = [] \<and> \<not> hd fs then Some Cancelled else None)"
| "closing_status (RunToolFailed _ _) fs = (if fs = [] then Some Degraded else None)"
| "closing_status (RunUnexpected _) fs = (if fs = [] \<or> \<not> hd fs then Some Failed else None)"
| "closing_status (RunHttpError _) fs = (if fs = [] \<or> \<not> hd fs then Some Failed else None)"
| "closing_status (RunRaises _) fs = None"

fun replies :: "adapter_outcome \<Rightarrow> bool list \<Rightarrow> bool" where
  "replies (RunOk _ _ _) fs = (fs = [])"
| "replies (RunToolFailed _ _) fs = True"
| "replies _ fs = False"

text \<open>
  C2: how every turn is closed.  The turn has no terminal record in a consistent log whose files
  end in a newline, and of its writes to the log none fails, the first, or the second.  Then for
  every ending of the agent run the log stays consistent, and the turn has a terminal record of
  the status closing_status gives or has none.  A completed run is closed in all these cases: as
  COMPLETED, or as FAILED when a write failed.  A cancellation, an exhausted tool retry, an
  unexpected behaviour and an HTTP error are closed as CANCELLED, DEGRADED and FAILED unless a write
  they need fails; then, and when the run raises any other error, the turn stays open.  A reply is
  returned exactly for a completed run whose writes succeed and for an exhausted tool retry; the
  latter replies even when the turn could not be stored.
\<close>

theorem turn_always_closed:
  assumes "good_store d" and "unterminated d (te_session e) (te_turn e)"
    and "fs \<in> {[], [True], [False, True]}"
    and "run_adapter_turn writer e oc ((d, fs), m) = (r, (d', fs'), m')"
  shows "good_store d' \<and>
    (case closing_status oc fs of
       Some status \<Rightarrow> terminated d' (te_session e) (te_turn e) status
     | None \<Rightarrow> unterminated d' (te_session e) (te_turn e)) \<and>
    ((\<exists>x. r = Inr x) \<longleftrightarrow> replies oc fs)"
proof (cases oc)
  case (RunOk answer ms usage)
  let ?sid = "te_session e" and ?turn = "te_turn e"
  consider "fs = []" | "fs = [True]" | "fs = [False, True]" using assms(3) by blast
  then show ?thesis
  proof cases
    case 1
    obtain d1 where d1: "persist_turn_initial (te_info e 1) (te_text e) (ok_records e answer ms usage)
        (te_attachments e) 0 (te_trace e) (te_user e) (d, []) = (Inr (), (d1, tl []))"
      "good_store d1" "unterminated d1 ?sid ?turn"
      by (rule initial_ok[OF assms(1) _ assms(2) ok_records_facts, where fs = "[]"]) simp_all
    obtain os m1 where os: "apply_approved writer (new_messages_to_plans (te_str e) (te_parse e)
        (te_args e) (te_validate e) ms) m = (os, m1)" by fastforce
    obtain d2 where d2: "persist_turn_outcomes (te_info e 2) os Completed None (d1, []) = (Inr (), (d2, tl []))"
      "good_store d2" "terminated d2 ?sid ?turn Completed"
      using outcomes_ok[OF d1(2) _ d1(3), of "[]" 2 os Completed] by auto
    show ?thesis
      using assms(4) RunOk 1 d1(1) d2 os
      by (auto simp: run_adapter_turn_def complete_turn_def Let_def)
  next
    case 2
    have "persist_turn_initial (te_info e 1) (te_text e) (ok_records e answer ms usage)
        (te_attachments e) 0 (te_trace e) (te_user e) (d, [True]) = (Inl OSError, (d, []))"
      by (simp add: persist_turn_initial_def io_append_fault)
    moreover obtain d2 where "persist_turn_failed (te_info e 2) (te_default_model e) (te_text e) (te_user e)
        Failed None (d, []) = (Inr (), (d2, tl []))" "good_store d2" "terminated d2 ?sid ?turn Failed"
      using failed_ok[OF assms(1) _ assms(2), of "[]" 2 "te_default_model e" "te_text e" "te_user e" Failed None]
      by auto
    ultimately show ?thesis
      using assms(4) RunOk 2 by (auto simp: run_adapter_turn_def complete_turn_def Let_def)
  next
    case 3
    obtain d1 where d1: "persist_turn_initial (te_info e 1) (te_text e) (ok_records e answer ms usage)
        (te_attachments e) 0 (te_trace e) (te_user e) (d, [False, True]) = (Inr (), (d1, tl [False, True]))"
      "good_store d1" "unterminated d1 ?sid ?turn"
      by (rule initial_ok[OF assms(1) _ assms(2) ok_records_facts, where fs = "[False, True]"]) simp_all
    have "persist_turn_outcomes (te_info e 2) os Completed None (d1, [True]) = (Inl OSError, (d1, []))" for os
      by (simp add: persist_turn_outcomes_def io_append_fault Let_def)
    moreover obtain d2 where "persist_turn_terminal_failed (te_info e 3) Failed (d1, []) = (Inr (), (d2, tl []))"
      "good_store d2" "terminated d2 ?sid ?turn Failed"
      using terminal_failed_ok[OF d1(2) _ d1(3), of "[]" 3 Failed] by auto
    ultimately show ?thesis
      using assms(4) RunOk 3 d1(1)
      by (auto simp: run_adapter_turn_def complete_turn_def Let_def split: prod.splits)
  qed
next
  case (RunCancelled ms)
  show ?thesis
  proof (cases "ms = []")
    case True
    then show ?thesis
      using assms(4) RunCancelled quiet_result[OF assms(1-3), of Cancelled "''[Turn cancelled by user]''"]
      by (auto simp: run_adapter_turn_def split: if_splits)
  next
    case False
    then show ?thesis
      using assms(3,4) RunCancelled partial_ok[OF assms(1,2), of "''[Turn cancelled by user]''" ms Cancelled]
        partial_fault[OF assms(1,2), of fs "''[Turn cancelled by user]''" ms Cancelled]
      by (cases "fs = []") (auto simp: run_adapter_turn_def)
  qed
next
  case (RunToolFailed t ms)
  let ?c = "if t \<noteq> [] then t else tool_failed_text"
  show ?thesis
    using assms(3,4) RunToolFailed partial_ok[OF assms(1,2), of ?c ms Degraded]
      partial_fault[OF assms(1,2), of fs ?c ms Degraded]
    by (cases "fs = []") (auto simp: run_adapter_turn_def Let_def)
next
  case (RunUnexpected x)
  then show ?thesis
    using assms(4) quiet_result[OF assms(1-3), of Failed "''[Tool call failed: '' @ x @ '']''"]
    by (auto simp: run_adapter_turn_def split: if_splits)
next
  case (RunHttpError x)
  then show ?thesis
    using assms(4) quiet_result[OF assms(1-3), of Failed "''[API error '' @ show_int x @ '']''"]
    by (auto simp: run_adapter_turn_def split: if_splits)
next
  case (RunRaises x)
  then show ?thesis using assms(1,2,4) by (auto simp: run_adapter_turn_def)
qed

definition demo_env :: "nat turn_env" where
  "demo_env = \<lparr>te_session = ''s'', te_turn = ''t'', te_text = ''hi'', te_user = None, te_model = ''m'',
     te_default_model = ''m'', te_trace = None, te_attachments = [], te_clk = int, te_parse = \<lambda>_. None,
     te_str = \<lambda>_. [], te_args = \<lambda>_. None, te_validate = \<lambda>_. Inr 0\<rparr>"

theorem turn_always_closed_witness:
  "terminated (fst (fst (snd (run_adapter_turn (None :: (nat \<Rightarrow> nat \<Rightarrow> (string + dict) \<times> nat) option) demo_env
     (RunOk ''hello'' [] None) (([], [False, True]), 0))))) ''s'' ''t'' Failed"
proof -
  obtain r d' fs' m' where run: "run_adapter_turn (None :: (nat \<Rightarrow> nat \<Rightarrow> (string + dict) \<times> nat) option) demo_env
     (RunOk ''hello'' [] None) (([], [False, True]), 0) = (r, (d', fs'), m')"
    by (metis prod.collapse)
  have "terminated d' (te_session demo_env) (te_turn demo_env) Failed"
    using turn_always_closed[OF _ _ _ run]
    by (simp add: sessions_wf_def sessions_healthy_def unterminated_def stored_def)
  then show ?thesis using run by (simp add: demo_env_def)
qed

end
