(* ===== verification/Turn_Input.thy ===== *)
theory Turn_Input
  imports Turn_Records
begin

text \<open>
  What a turn hands to the agent: the input side of core/orchestrator/payloads.py and the
  checks _memory_search, _detect_tool_mismatch and _with_still_running_hint of
  core/orchestrator/service.py, with the events of core/events/models.py.  The decoding of
  bytes as UTF-8 and base64 are parameters, like the attachment downloader (None for no data
  or an exception) and the memory retrieval.  File sizes are not negative.
\<close>

record attachment =
  at_file :: string
  at_mime :: string
  at_size :: int
  at_name :: "string option"
  at_caption :: "string option"

record orch_event =
  ev_id :: string
  ev_source :: string
  ev_session :: string
  ev_user :: string
  ev_text :: "string option"
  ev_transcript :: "string option"
  ev_attachment :: "attachment option"
  ev_callback :: "string option"
  ev_attachments :: "attachment list"
  ev_model :: "string option"

definition placeholder_empty :: string where
  "placeholder_empty = ''[Empty or unsupported input]''"

text \<open>if x: for an optional text, that is None or empty.\<close>

definition nonempty :: "string option \<Rightarrow> string option" where
  "nonempty s = (case s of Some t \<Rightarrow> if t \<noteq> [] then Some t else None | None \<Rightarrow> None)"

definition extract_text_from_event :: "orch_event \<Rightarrow> string option \<Rightarrow> string option" where
  "extract_text_from_event ev fallback =
     (let typed = py_strip (case ev_text ev of Some t \<Rightarrow> t | None \<Rightarrow> [])
      in if typed \<noteq> [] then Some typed
         else
           (case nonempty (ev_transcript ev) of
              Some t \<Rightarrow> Some (py_strip t)
            | None \<Rightarrow>
                (case Option.bind (ev_attachment ev) (nonempty \<circ> at_caption) of
                   Some t \<Rightarrow> Some (py_strip t)
                 | None \<Rightarrow>
                     (case List.map_filter (nonempty \<circ> at_caption) (ev_attachments ev) of
                        t # _ \<Rightarrow> Some (py_strip t)
                      | [] \<Rightarrow>
                          (case ev_callback ev of
                             Some c \<Rightarrow> Some (''[Callback: '' @ slice_to c 100 @ '']'')
                           | None \<Rightarrow> fallback)))))"

definition extract_user_text :: "orch_event \<Rightarrow> string" where
  "extract_user_text ev =
     (case nonempty (extract_text_from_event ev (Some placeholder_empty)) of
        Some t \<Rightarrow> t | None \<Rightarrow> placeholder_empty)"

definition extract_raw_text :: "orch_event \<Rightarrow> string option" where
  "extract_raw_text ev = extract_text_from_event ev None"

definition gather_attachments :: "orch_event \<Rightarrow> attachment list" where
  "gather_attachments ev =
     (if ev_attachments ev \<noteq> [] then filter (\<lambda>a. at_file a \<noteq> []) (ev_attachments ev)
      else (case ev_attachment ev of Some a \<Rightarrow> if at_file a \<noteq> [] then [a] else [] | None \<Rightarrow> []))"

text \<open>n / 1024 with one decimal: the quotient is exact, ties are rounded to even.\<close>

definition kb_tenths :: "int \<Rightarrow> int" where
  "kb_tenths n =
     (let q = n * 10 div 1024; r = n * 10 mod 1024
      in if r > 512 \<or> (r = 512 \<and> odd q) then q + 1 else q)"

definition size_text :: "int \<Rightarrow> string" where
  "size_text n =
     (if n \<noteq> 0 then show_int (kb_tenths n div 10) @ ''.'' @ show_int (kb_tenths n mod 10) @ '' KB''
      else ''unknown size'')"

definition attachment_part :: "attachment \<Rightarrow> string" where
  "attachment_part a =
     (if prefix ''image/'' (at_mime a) then ''image'' else ''file'') @ '' ('' @ at_mime a @ '', ''
     @ size_text (at_size a)
     @ (case nonempty (at_name a) of Some n \<Rightarrow> '', name='' @ n | None \<Rightarrow> []) @ '')''"

definition format_attachment_context :: "attachment list \<Rightarrow> string" where
  "format_attachment_context as =
     (if as = [] then []
      else [newline, newline] @ ''[User attached: '' @ join ''; '' (map attachment_part as) @ '']'')"

text \<open>The text of the user message of a turn.\<close>

definition user_content :: "orch_event \<Rightarrow> string" where
  "user_content ev =
     (let t = py_strip (extract_user_text ev @ format_attachment_context (gather_attachments ev))
      in if t \<noteq> [] then t else placeholder_empty)"

section \<open>Content blocks\<close>

definition image_mimes :: "string list" where
  "image_mimes = [''image/jpeg'', ''image/png'', ''image/gif'', ''image/webp'']"

definition pdf_mime :: string where
  "pdf_mime = ''application/pdf''"

definition text_mimes :: "string list" where
  "text_mimes = [''application/json'', ''application/xml'', ''application/yaml'', ''application/x-yaml'',
     ''application/javascript'', ''application/x-javascript'']"

definition text_extensions :: "string list" where
  "text_extensions = [''.txt'', ''.md'', ''.markdown'', ''.rst'', ''.py'', ''.js'', ''.ts'', ''.tsx'', ''.json'',
     ''.yaml'', ''.yml'', ''.xml'', ''.csv'', ''.ini'', ''.toml'', ''.log'']"

definition fallback_mime :: string where
  "fallback_mime = ''application/octet-stream''"

definition text_budget :: int where
  "text_budget = 12000"

definition is_multimodal :: "string \<Rightarrow> bool" where
  "is_multimodal m = (m \<in> set image_mimes \<or> m = pdf_mime)"

definition is_text_attachment :: "attachment \<Rightarrow> bool" where
  "is_text_attachment a =
     (if prefix ''text/'' (at_mime a) \<or> at_mime a \<in> set text_mimes then True
      else (case nonempty (at_name a) of
              Some n \<Rightarrow> at_mime a = fallback_mime \<and> list_ex (\<lambda>e. suffix e (py_lower n)) text_extensions
            | None \<Rightarrow> False))"

datatype user_block =
    UserText string
  | UserImage string string
  | UserDocument string

definition build_text_attachment_block ::
  "(string \<Rightarrow> string) \<Rightarrow> attachment \<Rightarrow> string \<Rightarrow> user_block option" where
  "build_text_attachment_block utf8 a content =
     (if content = [] then None
      else if at_mime a = fallback_mime \<and> CHR 0x00 \<in> set (slice_to content 2048) then None
      else
        (let decoded = py_strip (utf8 content);
             clipped = slice_to decoded text_budget
               @ (if int (length decoded) > text_budget
                  then [newline, newline] @ ''[Attachment text truncated]'' else []);
             label = at_mime a @ (case nonempty (at_name a) of Some n \<Rightarrow> '' ('' @ n @ '')'' | None \<Rightarrow> [])
         in if decoded = [] then None
            else Some (UserText (''[Attachment content: '' @ label @ '']'' @ [newline] @ clipped))))"

definition attachment_block ::
  "(string \<Rightarrow> string) \<Rightarrow> (string \<Rightarrow> string) \<Rightarrow> (attachment \<Rightarrow> string option) \<Rightarrow> attachment \<Rightarrow> user_block option" where
  "attachment_block utf8 b64 download a =
     (if \<not> is_multimodal (at_mime a) \<and> \<not> is_text_attachment a then None
      else
        (case download a of
           None \<Rightarrow> None
         | Some content \<Rightarrow>
             if at_mime a \<in> set image_mimes then Some (UserImage (at_mime a) (b64 content))
             else if at_mime a = pdf_mime then Some (UserDocument (b64 content))
             else build_text_attachment_block utf8 a content))"

definition build_user_content_blocks ::
  "(string \<Rightarrow> string) \<Rightarrow> (string \<Rightarrow> string) \<Rightarrow> (attachment \<Rightarrow> string option) option \<Rightarrow> string option
    \<Rightarrow> attachment list \<Rightarrow> user_block list option" where
  "build_user_content_blocks utf8 b64 downloader raw as =
     (case downloader of
        None \<Rightarrow> None
      | Some download \<Rightarrow>
          (let typed = (case raw of
                 Some t \<Rightarrow> if py_strip t \<noteq> [] \<and> t \<noteq> placeholder_empty then [UserText (py_strip t)] else []
               | None \<Rightarrow> []);
               payload = List.map_filter (attachment_block utf8 b64 download) as
           in if as = [] \<or> payload = [] then None else Some (typed @ payload)))"

section \<open>Memory search, model and tool checks\<close>

definition memory_types :: "string list" where
  "memory_types = [''profile'', ''preferences'', ''projects'', ''tasks'', ''facts'', ''summaries'']"

definition match_body_max :: int where
  "match_body_max = 12000"

definition match_body :: "string \<Rightarrow> string" where
  "match_body body =
     (if int (length (py_strip body)) > match_body_max
      then slice_to (py_strip body) match_body_max @ ''... [truncated]'' else py_strip body)"

text \<open>retrieve gives the bodies of the scored artifacts for a query text and memory types.\<close>

definition memory_search ::
  "(string \<Rightarrow> string list \<Rightarrow> string list) option \<Rightarrow> string \<Rightarrow> int \<Rightarrow> string list option \<Rightarrow> dict" where
  "memory_search retrieval query limit types =
     (case retrieval of
        None \<Rightarrow> [(''status'', PStr ''unavailable''), (''reason'', PStr ''memory retrieval unavailable''),
                 (''matches'', PList [])]
      | Some retrieve \<Rightarrow>
          (let wanted = filter (\<lambda>t. t \<in> set memory_types) (case types of Some ts \<Rightarrow> ts | None \<Rightarrow> []);
               bodies = slice_to (retrieve (py_strip query) wanted) (max 1 (min limit 5))
           in [(''status'', PStr ''ok''), (''query'', PStr query),
               (''matches'', PList (map (\<lambda>b. PDict [(''body'', PStr (match_body b))]) bodies))]))"

definition resolve_model :: "string option \<Rightarrow> string \<Rightarrow> string list \<Rightarrow> string" where
  "resolve_model override dflt allowlist =
     (let m = (case nonempty override of Some x \<Rightarrow> x | None \<Rightarrow> dflt)
      in if m \<in> set allowlist then m else dflt)"

definition mcp_prefixes :: "string list" where
  "mcp_prefixes = [''mcp_'', ''cap_mcp_'', ''cap.mcp.'']"

definition historical_tools :: "session_record list \<Rightarrow> string list" where
  "historical_tools rs =
     (if rs = [] then []
      else filter (\<lambda>n. n \<noteq> [] \<and> \<not> list_ex (\<lambda>p. prefix p n) mcp_prefixes)
        (map tool_name (filter (\<lambda>r. sr_type r = AssistantToolCall \<and> sr_turn r = sr_turn (last rs)) rs)))"

definition missing_tools :: "session_record list \<Rightarrow> string list \<Rightarrow> string list" where
  "missing_tools rs enabled = sort (remdups (filter (\<lambda>n. n \<notin> set enabled) (historical_tools rs)))"

text \<open>warn stands for the warning sign in front of the message.\<close>

definition detect_tool_mismatch :: "string \<Rightarrow> session_record list \<Rightarrow> string list \<Rightarrow> string option" where
  "detect_tool_mismatch warn rs enabled =
     (let missing = missing_tools rs enabled
      in if missing = [] then None
         else Some (warn @ '' Your session history references tools that are not currently active: ''
           @ join '', '' (map (\<lambda>t. ''`'' @ t @ ''`'') missing)
           @ ''. Please re-enable the required capability before continuing.''))"

definition with_still_running_hint :: "string \<Rightarrow> dict \<Rightarrow> dict" where
  "with_still_running_hint hint payload =
     (if dget payload ''status'' \<in> {PStr ''pending'', PStr ''running''}
      then AList.update ''hint'' (PStr hint) payload else payload)"

section \<open>Properties\<close>

lemma placeholder_nonempty [simp]: "placeholder_empty \<noteq> []"
  by (simp add: placeholder_empty_def)

lemma user_content_nonempty: "user_content ev \<noteq> []"
  by (simp add: user_content_def Let_def)

lemma slice_to_length: "0 \<le> n \<Longrightarrow> int (length (slice_to xs n)) \<le> n"
  by (rule length_slice_to)

lemma attachment_block_kinds:
  "attachment_block utf8 b64 download a = Some b \<Longrightarrow>
     (case b of
        UserImage m x \<Rightarrow> m = at_mime a \<and> m \<in> set image_mimes
      | UserDocument x \<Rightarrow> at_mime a = pdf_mime
      | UserText t \<Rightarrow> is_text_attachment a)"
  by (auto simp: attachment_block_def build_text_attachment_block_def Let_def is_multimodal_def
      split: if_splits option.splits user_block.splits)

lemma sort_nil_iff: "sort xs = [] \<longleftrightarrow> xs = []"
  by (metis length_0_conv length_sort)

text \<open>
  The tool check blocks a turn exactly when it should.  A turn is stopped with a warning
  if and only if the last turn of the replayed history called a first-party tool that is not
  enabled now; tools of MCP servers and tools of earlier turns never stop it.
\<close>

theorem tool_mismatch_iff:
  "detect_tool_mismatch warn rs enabled \<noteq> None \<longleftrightarrow>
     list_ex (\<lambda>r. sr_type r = AssistantToolCall \<and> sr_turn r = sr_turn (last rs) \<and> tool_name r \<noteq> [] \<and>
       \<not> list_ex (\<lambda>p. prefix p (tool_name r)) mcp_prefixes \<and> tool_name r \<notin> set enabled) rs"
  by (auto simp: detect_tool_mismatch_def missing_tools_def historical_tools_def list_ex_iff
      filter_empty_conv Let_def sort_nil_iff)

lemma short_slice: "length (slice_to xs (max 1 (min limit 5))) \<le> 5"
proof -
  have "int (length (slice_to xs (max 1 (min limit 5)))) \<le> max 1 (min limit 5)"
    by (rule length_slice_to) simp
  also have "\<dots> \<le> 5" by simp
  finally show ?thesis by simp
qed

lemma memory_search_bounded:
  assumes "map_of (memory_search retrieval query limit types) ''matches'' = Some (PList ms)"
  shows "length ms \<le> 5"
  using assms by (auto simp: memory_search_def Let_def short_slice split: option.splits)

end
