(* ===== verification/Compaction.thy ===== *)
theory Compaction
  imports Turn_Records
begin

text \<open>
  Compaction of a long session: core/orchestrator/token_usage.py, compaction.py and the
  methods _should_compact_session and _compact_session of core/orchestrator/service.py.
  The summary model is a parameter that returns None when its call raises; the archiving of
  usage statistics is a separate component whose errors are swallowed.  The clock and the
  two uuids are arguments (now as the text in the turn id and as the time of the record).
\<close>

section \<open>Token usage\<close>

text \<open>int(x) on a token count; counts are stored as integers, other values raise.\<close>

definition usage_tokens :: "session_record \<Rightarrow> int option" where
  "usage_tokens r =
     (if sr_type r = AssistantMessage
      then (case dget_or (sr_payload r) ''usage'' (PDict []) of
              PDict u \<Rightarrow> (case map_of u ''input_tokens'' of Some (PInt n) \<Rightarrow> Some n | _ \<Rightarrow> None)
            | _ \<Rightarrow> None)
      else None)"

definition session_total_tokens :: "session_record list \<Rightarrow> int" where
  "session_total_tokens rs =
     snd (fold (\<lambda>r (seq, n). case usage_tokens r of
            Some m \<Rightarrow> if sr_seq r > seq then (sr_seq r, m) else (seq, n)
          | None \<Rightarrow> (seq, n)) rs (-1, 0))"

section \<open>The decision\<close>

record compaction_config =
  cc_enabled :: bool
  cc_threshold :: int
  cc_min_turns :: nat
  cc_max :: nat
  cc_keep :: nat

definition compaction_turn :: "string \<Rightarrow> bool" where
  "compaction_turn t = prefix ''compaction-'' t"

definition chat_turn :: "session_record \<Rightarrow> bool" where
  "chat_turn r = (sr_turn r \<noteq> [] \<and> \<not> compaction_turn (sr_turn r))"

definition chat_turn_ids :: "session_record list \<Rightarrow> string list" where
  "chat_turn_ids rs = remdups (map sr_turn (filter chat_turn rs))"

definition should_compact_session :: "compaction_config \<Rightarrow> sessions \<Rightarrow> string \<Rightarrow> session_record list option" where
  "should_compact_session cfg d sid =
     (let records = read_session d sid
      in if \<not> cc_enabled cfg then None
         else if session_total_tokens records < cc_threshold cfg then None
         else if length (chat_turn_ids records) \<ge> cc_min_turns cfg + cc_keep cfg then Some records
         else None)"

section \<open>The rewrite\<close>

text \<open>The last keep turn identifiers in the order of their first record.\<close>

definition first_turns :: "session_record list \<Rightarrow> string list" where
  "first_turns rs =
     fold (\<lambda>r ordered. if \<not> chat_turn r \<or> sr_turn r \<in> set ordered then ordered
                        else ordered @ [sr_turn r]) rs []"

definition ordered_recent_turn_ids :: "session_record list \<Rightarrow> nat \<Rightarrow> string list" where
  "ordered_recent_turn_ids chat keep =
     (if keep = 0 then []
      else slice_from (first_turns (py_sorted sr_seq chat)) (- int keep))"

definition role_upper :: "role \<Rightarrow> string" where
  "role_upper r = (case r of RoleUser \<Rightarrow> ''USER'' | RoleAssistant \<Rightarrow> ''ASSISTANT'')"

definition block_text :: "block \<Rightarrow> string" where
  "block_text b = (case b of
       TextBlock t \<Rightarrow> t
     | ToolUseBlock i n v \<Rightarrow> ''[Tool call: '' @ n @ '']''
     | ToolResultBlock i n c e \<Rightarrow> ''[Tool result for '' @ n @ '']'')"

definition summary_line :: "llm_message \<Rightarrow> string option" where
  "summary_line m =
     (let content = (case lm_blocks m of
            Some bs \<Rightarrow> if bs \<noteq> [] then join [newline] (map block_text bs) else lm_content m
          | None \<Rightarrow> lm_content m)
      in if py_strip content \<noteq> [] then Some (role_upper (lm_role m) @ '': '' @ py_strip content) else None)"

definition format_for_summary :: "llm_message list \<Rightarrow> string" where
  "format_for_summary ms = join [newline, newline] (List.map_filter summary_line ms)"

definition is_chat :: "session_record \<Rightarrow> bool" where
  "is_chat r = (sr_type r \<noteq> CompactionSummary \<and> sr_type r \<noteq> SystemMessage)"

record compact_env =
  ce_iso :: string
  ce_time :: time
  ce_uuid1 :: string
  ce_uuid2 :: string

definition new_summary :: "string \<Rightarrow> compact_env \<Rightarrow> nat \<Rightarrow> nat \<Rightarrow> string \<Rightarrow> session_record" where
  "new_summary sid e systems previous summary =
     \<lparr>sr_session = sid, sr_seq = int (systems + previous), sr_event = ''compaction-'' @ ce_uuid1 e,
      sr_turn = ''compaction-'' @ ce_iso e, sr_time = ce_time e, sr_type = CompactionSummary,
      sr_payload = [(''message_id'', PStr (''summary-'' @ ce_uuid2 e)),
        (''content'', PStr (''[System Context Summary]'' @ [newline] @ ''[Session Compacted - Pass ''
           @ show_int (int (previous + 1)) @ '']'' @ [newline, newline] @ summary)),
        (''scope'', PStr ''session'')]\<rparr>"

definition kept_turns :: "compaction_config \<Rightarrow> session_record list \<Rightarrow> string list" where
  "kept_turns cfg records = ordered_recent_turn_ids (filter is_chat records) (cc_keep cfg)"

definition older_records :: "compaction_config \<Rightarrow> session_record list \<Rightarrow> session_record list" where
  "older_records cfg records =
     filter (\<lambda>r. is_chat r \<and> sr_turn r \<notin> set (kept_turns cfg records)) records"

definition recent_records :: "compaction_config \<Rightarrow> session_record list \<Rightarrow> session_record list" where
  "recent_records cfg records =
     filter (\<lambda>r. is_chat r \<and> sr_turn r \<in> set (kept_turns cfg records)) records"

text \<open>
  The service passes the records it has read for the decision, or reads them.  summarize gets
  the formatted messages.
\<close>

definition compact_session ::
  "(string \<Rightarrow> pyval option) \<Rightarrow> (pyval \<Rightarrow> string) \<Rightarrow> (string \<Rightarrow> string option) \<Rightarrow> compaction_config
    \<Rightarrow> compact_env \<Rightarrow> string \<Rightarrow> session_record list option \<Rightarrow> bool \<Rightarrow> sessions \<Rightarrow> bool \<times> sessions" where
  "compact_session parse dumps summarize cfg e sid loaded enforce d =
     (if \<not> cc_enabled cfg then (False, d)
      else
        (let records = (case loaded of Some rs \<Rightarrow> rs | None \<Rightarrow> read_session d sid);
             previous = filter (is_type CompactionSummary) records;
             systems = filter (is_type SystemMessage) records
         in if enforce \<and> length previous \<ge> cc_max cfg then (False, d)
            else if older_records cfg records = [] then (False, d)
            else
              (case summarize (format_for_summary
                  (records_to_messages parse dumps (older_records cfg records))) of
                 None \<Rightarrow> (False, d)
               | Some summary \<Rightarrow>
                   (True, replace_session sid
                      (systems @ previous @ [new_summary sid e (length systems) (length previous) summary]
                         @ recent_records cfg records) d))))"


section \<open>Turns in the order of their first record\<close>

lemma first_turns_snoc:
  "first_turns (rs @ [r]) =
     (if \<not> chat_turn r \<or> sr_turn r \<in> set (first_turns rs) then first_turns rs
      else first_turns rs @ [sr_turn r])"
  by (simp add: first_turns_def)

lemma first_turns_Nil [simp]: "first_turns [] = []"
  by (simp add: first_turns_def)

lemma set_first_turns: "set (first_turns rs) = sr_turn ` {r \<in> set rs. chat_turn r}"
proof (induction rs rule: rev_induct)
  case (snoc r rs)
  have "{x \<in> set (rs @ [r]). chat_turn x} =
      (if chat_turn r then insert r {x \<in> set rs. chat_turn x} else {x \<in> set rs. chat_turn x})" by auto
  then show ?case using snoc by (auto simp: first_turns_snoc)
qed simp

lemma distinct_first_turns: "distinct (first_turns rs)"
  by (induction rs rule: rev_induct) (simp_all add: first_turns_snoc)

lemma chat_turn_cong: "sr_turn x = sr_turn r \<Longrightarrow> chat_turn x = chat_turn r"
  by (simp add: chat_turn_def)

lemma first_turns_order:
  assumes "sorted_wrt (<) (map sr_seq rs)" and "first_turns rs = as @ bs" and "t \<in> set as"
    and "r \<in> set rs" and "sr_turn r \<in> set bs"
  shows "\<exists>x \<in> set rs. sr_turn x = t \<and> chat_turn x \<and> sr_seq x < sr_seq r"
  using assms
proof (induction rs arbitrary: as bs rule: rev_induct)
  case (snoc z rs)
  have sorted: "sorted_wrt (<) (map sr_seq rs)" and below: "\<forall>x \<in> set rs. sr_seq x < sr_seq z"
    using snoc.prems(1) by (auto simp: sorted_wrt_append)
  have old: "\<exists>x \<in> set rs. sr_turn x = t \<and> chat_turn x" if "t \<in> set (first_turns rs)"
    using that by (auto simp: set_first_turns)
  show ?case
  proof (cases "\<not> chat_turn z \<or> sr_turn z \<in> set (first_turns rs)")
    case True
    then have eq: "first_turns rs = as @ bs" using snoc.prems(2) by (simp add: first_turns_snoc)
    show ?thesis
    proof (cases "r = z")
      case True
      then show ?thesis using old below eq snoc.prems(3) by fastforce
    next
      case False
      then show ?thesis using snoc.IH[OF sorted eq snoc.prems(3)] snoc.prems(4,5) by auto
    qed
  next
    case new: False
    then have eq: "first_turns rs @ [sr_turn z] = as @ bs" using snoc.prems(2) by (simp add: first_turns_snoc)
    obtain bs' where bs: "bs = bs' @ [sr_turn z]" and old_eq: "first_turns rs = as @ bs'"
      using eq snoc.prems(5) by (cases bs rule: rev_cases) auto
    show ?thesis
    proof (cases "r = z")
      case True
      then show ?thesis using old below old_eq snoc.prems(3) by fastforce
    next
      case False
      then have r: "r \<in> set rs" using snoc.prems(4) by simp
      have "sr_turn r \<noteq> sr_turn z"
      proof
        assume eq: "sr_turn r = sr_turn z"
        then have "chat_turn r" using new chat_turn_cong[of r z] by simp
        then have "sr_turn r \<in> set (first_turns rs)" using r by (simp add: set_first_turns)
        then show False using new eq by simp
      qed
      then have "sr_turn r \<in> set bs'" using snoc.prems(5) bs by simp
      then show ?thesis using snoc.IH[OF sorted old_eq snoc.prems(3) r] by auto
    qed
  qed
qed simp

lemma recent_split:
  "\<exists>as. first_turns (py_sorted sr_seq chat) = as @ ordered_recent_turn_ids chat keep \<and>
     length (ordered_recent_turn_ids chat keep) \<le> keep"
proof (cases "keep = 0")
  case False
  let ?f = "first_turns (py_sorted sr_seq chat)"
  have "?f = take (length ?f - keep) ?f @ ordered_recent_turn_ids chat keep"
    using False by (simp add: ordered_recent_turn_ids_def slice_from_def nat_diff_distrib')
  moreover have "length (ordered_recent_turn_ids chat keep) \<le> keep"
    using False by (simp add: ordered_recent_turn_ids_def slice_from_def)
  ultimately show ?thesis by blast
qed (simp add: ordered_recent_turn_ids_def)

section \<open>The layout of a compacted session\<close>

text \<open>
  Summaries are numbered from zero, stand in front and have turns of their own; the rest are
  records of real turns with higher numbers.  The layout holds for a session without summaries, and appends keep it.
\<close>

definition compact_layout :: "session_record list \<Rightarrow> bool" where
  "compact_layout rs =
     (let p = int (length (filter (is_type CompactionSummary) rs))
      in recs_ok rs \<and> filter (is_type SystemMessage) rs = [] \<and>
         map sr_seq (filter (is_type CompactionSummary) rs) = [0 .. p - 1] \<and>
         list_all (\<lambda>r. is_chat r \<longrightarrow> p \<le> sr_seq r \<and> chat_turn r) rs \<and>
         list_all (\<lambda>r. compaction_turn (sr_turn r)) (filter (is_type CompactionSummary) rs))"

lemma filter_not_is: "filter P xs = [] \<longleftrightarrow> (\<forall>x \<in> set xs. \<not> P x)"
  by (simp add: filter_empty_conv)

lemma layout_append:
  assumes "compact_layout rs" and "recs_ok (rs @ new)"
    and "list_all (\<lambda>r. is_chat r \<and> chat_turn r \<and> 0 \<le> sr_seq r) new"
  shows "compact_layout (rs @ new)"
proof -
  let ?p = "int (length (filter (is_type CompactionSummary) rs))"
  have n: "filter (is_type CompactionSummary) new = []" "filter (is_type SystemMessage) new = []"
    using assms(3) by (auto simp: list_all_iff filter_empty_conv is_type_def is_chat_def)
  have "?p \<le> sr_seq r" if "r \<in> set new" for r
  proof (cases "?p = 0")
    case True
    then show ?thesis using assms(3) that by (simp add: list_all_iff)
  next
    case False
    then have "?p - 1 \<in> set (map sr_seq (filter (is_type CompactionSummary) rs))"
      using assms(1) by (simp add: compact_layout_def Let_def)
    then have "?p - 1 \<in> sr_seq ` set rs" by auto
    then have "?p - 1 < sr_seq r" using assms(2) that by (auto simp: recs_ok_def sorted_wrt_append)
    then show ?thesis by simp
  qed
  then show ?thesis using assms n by (auto simp: compact_layout_def Let_def list_all_iff)
qed

lemma recent_above:
  assumes "compact_layout rs" and "older_records cfg rs \<noteq> []" and "r \<in> set (recent_records cfg rs)"
  shows "int (length (filter (is_type CompactionSummary) rs)) < sr_seq r"
proof -
  let ?chat = "filter is_chat rs"
  have ok: "recs_ok rs" using assms(1) by (simp add: compact_layout_def Let_def)
  then have ok_chat: "recs_ok ?chat" using recs_ok_subseq[of ?chat rs] by simp
  then have sorted: "py_sorted sr_seq ?chat = ?chat" by (rule recs_ok_sorted)
  obtain as where split: "first_turns ?chat = as @ kept_turns cfg rs"
    using recent_split[of ?chat "cc_keep cfg"] sorted by (auto simp: kept_turns_def)
  obtain x where x: "x \<in> set rs" "is_chat x" "sr_turn x \<notin> set (kept_turns cfg rs)"
    using assms(2) by (auto simp: older_records_def filter_empty_conv)
  then have "chat_turn x" using assms(1) by (auto simp: compact_layout_def Let_def list_all_iff)
  then have "sr_turn x \<in> set (first_turns ?chat)" using x by (auto simp: set_first_turns)
  then have "sr_turn x \<in> set as" using x(3) split by simp
  moreover have "r \<in> set ?chat" "sr_turn r \<in> set (kept_turns cfg rs)"
    using assms(3) by (auto simp: recent_records_def)
  moreover have "sorted_wrt (<) (map sr_seq ?chat)" using ok_chat by (simp add: recs_ok_def)
  ultimately obtain y where "y \<in> set ?chat" "sr_seq y < sr_seq r"
    using first_turns_order[OF _ split] by blast
  then show ?thesis using assms(1) by (fastforce simp: compact_layout_def Let_def list_all_iff)
qed


lemma read_replace:
  "read_session (replace_session sid rs d) sid = py_sorted sr_seq rs"
  by (simp add: read_session_def read_all_records_def replace_session_def)

lemma wf_replace: "sessions_wf d \<Longrightarrow> recs_ok rs \<Longrightarrow> sessions_wf (replace_session sid rs d)"
  unfolding replace_session_def by (rule wf_update) simp_all

lemma recs_ok_compacted:
  assumes "compact_layout rs" and "older_records cfg rs \<noteq> []"
    and "\<forall>r \<in> set rs. sr_event r \<noteq> sr_event s"
    and "sr_seq s = int (length (filter (is_type CompactionSummary) rs))"
  shows "recs_ok (filter (is_type CompactionSummary) rs @ s # recent_records cfg rs)"
proof -
  let ?prev = "filter (is_type CompactionSummary) rs"
  have ok: "recs_ok rs" and prev: "map sr_seq ?prev = [0 .. int (length ?prev) - 1]"
    using assms(1) by (simp_all add: compact_layout_def Let_def)
  have parts: "recs_ok ?prev" "recs_ok (recent_records cfg rs)"
    using ok recs_ok_subseq[of _ rs] by (auto simp: recent_records_def)
  have below: "sr_seq x < sr_seq s" if "x \<in> set ?prev" for x
  proof -
    have "sr_seq x \<in> set (map sr_seq ?prev)" using that by simp
    then show ?thesis unfolding prev by (simp add: assms(4))
  qed
  have above: "sr_seq s < sr_seq y" if "y \<in> set (recent_records cfg rs)" for y
    using recent_above[OF assms(1,2) that] by (simp add: assms(4))
  have cross: "sr_seq x < sr_seq y" if "x \<in> set ?prev" "y \<in> set (recent_records cfg rs)" for x y
    using below[OF that(1)] above[OF that(2)] by simp
  have "sorted_wrt (<) (map sr_seq ?prev)" "sorted_wrt (<) (map sr_seq (recent_records cfg rs))"
    using parts by (simp_all only: recs_ok_def)
  then have seqs: "sorted_wrt (<) (map sr_seq (?prev @ s # recent_records cfg rs))"
    using below above cross unfolding map_append list.map sorted_wrt_append sorted_wrt.simps
    by (simp del: set_filter)
  have inj: "x = y" if "x \<in> set rs" "y \<in> set rs" "sr_event x = sr_event y" for x y
    using ok that by (auto simp: recs_ok_def distinct_map dest: inj_onD)
  have "sr_event ` set ?prev \<inter> sr_event ` set (recent_records cfg rs) = {}"
  proof (rule ccontr)
    assume "\<not> ?thesis"
    then obtain x y where xy: "x \<in> set ?prev" "y \<in> set (recent_records cfg rs)" "sr_event x = sr_event y"
      by auto
    then have "x = y" using inj[of x y] by (simp add: recent_records_def)
    then show False using xy by (simp add: recent_records_def is_type_def is_chat_def)
  qed
  then have "distinct (map sr_event (?prev @ s # recent_records cfg rs))"
    using parts assms(3) unfolding recs_ok_def by (auto simp: recent_records_def)
  with seqs show ?thesis by (simp add: recs_ok_def)
qed

lemma layout_compacted:
  assumes "compact_layout rs" and "older_records cfg rs \<noteq> []"
    and "recs_ok (filter (is_type CompactionSummary) rs @ s # recent_records cfg rs)"
    and "sr_seq s = int (length (filter (is_type CompactionSummary) rs))" and "sr_type s = CompactionSummary"
    and "compaction_turn (sr_turn s)"
  shows "compact_layout (filter (is_type CompactionSummary) rs @ s # recent_records cfg rs)"
proof -
  have chat: "is_chat r \<and> chat_turn r \<and> int (length (filter (is_type CompactionSummary) rs)) + 1 \<le> sr_seq r"
    if "r \<in> set (recent_records cfg rs)" for r
    using that recent_above[OF assms(1,2) that] assms(1)
    by (auto simp: recent_records_def compact_layout_def Let_def list_all_iff)
  then have none: "filter (is_type CompactionSummary) (recent_records cfg rs) = []"
    "filter (is_type SystemMessage) (recent_records cfg rs) = []"
    by (fastforce simp: filter_empty_conv is_type_def is_chat_def)+
  have sys: "filter (is_type SystemMessage) (filter (is_type CompactionSummary) rs) = []"
    by (simp add: filter_empty_conv is_type_def)
  have sum: "is_type CompactionSummary s" "\<not> is_type SystemMessage s" "\<not> is_chat s"
    using assms(5) by (simp_all add: is_type_def is_chat_def)
  have prev: "map sr_seq (filter (is_type CompactionSummary) rs)
      = [0 .. int (length (filter (is_type CompactionSummary) rs)) - 1]"
    using assms(1) by (simp add: compact_layout_def Let_def)
  have turns: "list_all (\<lambda>r. compaction_turn (sr_turn r)) (filter (is_type CompactionSummary) rs)"
    using assms(1) by (simp add: compact_layout_def Let_def)
  have no_chat: "\<not> is_chat r" if "r \<in> set (filter (is_type CompactionSummary) rs)" for r
    using that by (simp add: is_type_def is_chat_def)
  show ?thesis
    unfolding compact_layout_def Let_def
  proof (intro conjI)
    show "list_all (\<lambda>r. is_chat r \<longrightarrow>
        int (length (filter (is_type CompactionSummary) (filter (is_type CompactionSummary) rs @ s # recent_records cfg rs))) \<le> sr_seq r
        \<and> chat_turn r) (filter (is_type CompactionSummary) rs @ s # recent_records cfg rs)"
      using none sum chat no_chat by (auto simp: list_all_iff add.commute)
  qed (use assms(3,4,6) none sys sum prev turns in \<open>simp_all add: upto_rec2\<close>)
qed

lemma chat_turns_compacted:
  "set (chat_turn_ids (filter (is_type CompactionSummary) rs @ s # recent_records cfg rs))
    \<subseteq> set (kept_turns cfg rs)"
  if "sr_type s = CompactionSummary \<and> compaction_turn (sr_turn s)" and "compact_layout rs"
  using that by (auto simp: chat_turn_ids_def recent_records_def chat_turn_def compact_layout_def Let_def list_all_iff)

lemma compact_session_success:
  assumes "compact_session parse dumps summarize cfg e sid loaded enforce d = (True, d')"
    and "rs = (case loaded of Some l \<Rightarrow> l | None \<Rightarrow> read_session d sid)"
  shows "\<exists>text. older_records cfg rs \<noteq> [] \<and> (enforce \<longrightarrow> length (filter (is_type CompactionSummary) rs) < cc_max cfg) \<and>
    d' = replace_session sid (filter (is_type SystemMessage) rs @ filter (is_type CompactionSummary) rs
      @ [new_summary sid e (length (filter (is_type SystemMessage) rs))
           (length (filter (is_type CompactionSummary) rs)) text] @ recent_records cfg rs) d"
  using assms by (auto simp: compact_session_def Let_def split: if_splits option.splits)

lemma chat_turn_ids_distinct: "distinct (chat_turn_ids rs)"
  by (simp add: chat_turn_ids_def)

lemma short_distinct:
  assumes "distinct xs" and "set xs \<subseteq> set ys" and "length ys \<le> n"
  shows "length xs \<le> n"
  using assms card_mono[OF finite_set assms(2)] distinct_card[OF assms(1)] card_length[of ys] by simp

section \<open>Properties\<close>

text \<open>
  Compaction keeps what it must.  When a session whose summaries stand in front is
  compacted, reading it gives the earlier summaries, one new summary and, unchanged and in
  order, exactly the records of the last keep turns; there was an older turn to replace; the
  log stays consistent and in the same layout; no other log file changes; and the next turn
  does not compact again, although the token count of the kept turns is unchanged.
\<close>

theorem compaction_keeps_recent:
  assumes "sessions_wf d" and "rs = read_session d sid" and "compact_layout rs"
    and "\<forall>r \<in> set rs. sr_event r \<noteq> ''compaction-'' @ ce_uuid1 e"
    and "compact_session parse dumps summarize cfg e sid loaded enforce d = (True, d')"
    and "loaded \<in> {None, Some rs}"
  shows "(\<exists>s. sr_type s = CompactionSummary \<and>
      read_session d' sid = filter (is_type CompactionSummary) rs @ s # recent_records cfg rs) \<and>
    length (kept_turns cfg rs) \<le> cc_keep cfg \<and> older_records cfg rs \<noteq> [] \<and>
    sessions_wf d' \<and> compact_layout (read_session d' sid) \<and>
    (\<forall>s. session_path s \<noteq> session_path sid \<longrightarrow> read_session d' s = read_session d s) \<and>
    (cc_min_turns cfg > 0 \<longrightarrow> should_compact_session cfg d' sid = None)"
proof -
  let ?prev = "filter (is_type CompactionSummary) rs"
  have sys: "filter (is_type SystemMessage) rs = []"
    using assms(3) by (simp add: compact_layout_def Let_def)
  have rs: "rs = (case loaded of Some l \<Rightarrow> l | None \<Rightarrow> read_session d sid)"
    using assms(2,6) by auto
  obtain t where older: "older_records cfg rs \<noteq> []"
    and d': "d' = replace_session sid (?prev @ new_summary sid e 0 (length ?prev) t # recent_records cfg rs) d"
    using compact_session_success[OF assms(5) rs] sys by auto
  let ?s = "new_summary sid e 0 (length ?prev) t"
  have s: "sr_type ?s = CompactionSummary" "sr_seq ?s = int (length ?prev)"
      "sr_event ?s = ''compaction-'' @ ce_uuid1 e" "compaction_turn (sr_turn ?s)"
    by (simp_all add: new_summary_def compaction_turn_def)
  have ok: "recs_ok (?prev @ ?s # recent_records cfg rs)"
    using recs_ok_compacted[OF assms(3) older _ s(2)] assms(4) s(3) by simp
  have read: "read_session d' sid = ?prev @ ?s # recent_records cfg rs"
    unfolding d' read_replace by (rule recs_ok_sorted[OF ok])
  have kept: "length (kept_turns cfg rs) \<le> cc_keep cfg"
    using recent_split unfolding kept_turns_def by blast
  have layout: "compact_layout (read_session d' sid)"
    unfolding read by (rule layout_compacted[OF assms(3) older ok s(2,1,4)])
  have "length (chat_turn_ids (read_session d' sid)) \<le> cc_keep cfg"
    unfolding read
    by (rule short_distinct[OF chat_turn_ids_distinct chat_turns_compacted kept]) (simp_all add: s assms(3))
  then have "cc_min_turns cfg > 0 \<longrightarrow> should_compact_session cfg d' sid = None"
    by (auto simp: should_compact_session_def Let_def)
  moreover have "read_session d' s = read_session d s" if "session_path s \<noteq> session_path sid" for s
    using that unfolding d' by (simp add: read_session_def read_all_records_def replace_session_def)
  ultimately show ?thesis
    using wf_replace[OF assms(1) ok] older s(1) read d' kept layout by blast
qed


text \<open>An example: three one-record turns of which one is kept.\<close>

definition demo_log :: "session_record list" where
  "demo_log = [demo_record 0 ''a'' UserMessage, demo_record 1 ''b'' UserMessage, demo_record 2 ''c'' UserMessage]"

definition demo_compaction :: "compaction_config" where
  "demo_compaction = \<lparr>cc_enabled = True, cc_threshold = 0, cc_min_turns = 2, cc_max = 3, cc_keep = 1\<rparr>"

definition demo_compact_env :: compact_env where
  "demo_compact_env = \<lparr>ce_iso = ''i'', ce_time = 7, ce_uuid1 = ''u'', ce_uuid2 = ''v''\<rparr>"

definition demo_compact :: "session_record list option \<Rightarrow> sessions \<Rightarrow> bool \<times> sessions" where
  "demo_compact loaded = compact_session (\<lambda>_. None) (\<lambda>_. []) Some demo_compaction demo_compact_env ''s'' loaded True"

definition demo_store :: sessions where
  "demo_store = [(session_path ''s'', fresh_log demo_log)]"

lemma demo_compact_runs:
  "sessions_wf demo_store" "sessions_healthy demo_store" "read_session demo_store ''s'' = demo_log"
  "compact_layout demo_log" "fst (demo_compact (Some demo_log) d)"
proof -
  have ok: "recs_ok demo_log" by code_simp
  then show "sessions_wf demo_store" by (simp add: sessions_wf_def demo_store_def)
  show "sessions_healthy demo_store" by (simp add: sessions_healthy_def demo_store_def fresh_log_def log_ok_def)
  show "read_session demo_store ''s'' = demo_log"
    using recs_ok_sorted[OF ok] by (simp add: read_session_def read_all_records_def demo_store_def)
  show "compact_layout demo_log" by code_simp
  have "older_records demo_compaction demo_log \<noteq> []" by code_simp
  moreover have "filter (is_type CompactionSummary) demo_log = []" by code_simp
  ultimately show "fst (demo_compact (Some demo_log) d)"
    by (simp add: demo_compact_def compact_session_def Let_def demo_compaction_def)
qed

theorem compaction_keeps_recent_witness:
  "\<exists>s. read_session (snd (demo_compact (Some demo_log) demo_store)) ''s'' = [s, demo_record 2 ''c'' UserMessage] \<and>
     sr_type s = CompactionSummary"
proof -
  let ?d' = "snd (demo_compact (Some demo_log) demo_store)"
  have run: "demo_compact (Some demo_log) demo_store = (True, ?d')"
    using demo_compact_runs(5)[of demo_store] by (simp add: prod_eq_iff)
  have "\<forall>r \<in> set demo_log. sr_event r \<noteq> ''compaction-'' @ ce_uuid1 demo_compact_env" by code_simp
  from compaction_keeps_recent[OF demo_compact_runs(1) demo_compact_runs(3)[symmetric] demo_compact_runs(4) this
      run[unfolded demo_compact_def]]
  obtain s where "sr_type s = CompactionSummary" and "read_session ?d' ''s'' =
      filter (is_type CompactionSummary) demo_log @ s # recent_records demo_compaction demo_log"
    by (auto simp: demo_compact_def)
  moreover have "filter (is_type CompactionSummary) demo_log = []"
    "recent_records demo_compaction demo_log = [demo_record 2 ''c'' UserMessage]" by code_simp+
  ultimately show ?thesis by auto
qed

text \<open>
  Compaction can lose a record.  The records are read before the summary model is called
  and the file is rewritten from them afterwards: an event appended to the session by
  another task in between (a confirmed memory proposal, or a second context of the session,
  which the session lock does not keep out) is readable before the rewrite and gone after it.
\<close>

theorem compaction_loses_append:
  assumes "sessions_wf d" and "sessions_healthy d" and "rs = read_session d sid"
    and "sr_session x = sid" and "sr_event x \<notin> sr_event ` set rs" and "sr_event x \<noteq> ''compaction-'' @ ce_uuid1 e"
    and "compact_session parse dumps summarize cfg e sid (Some rs) enforce (session_put [x] d) = (True, d')"
  shows "sr_event x \<in> sr_event ` set (read_session (session_put [x] d) sid) \<and>
    sr_event x \<notin> sr_event ` set (read_session d' sid)"
proof
  have "sr_event ` set (stored (session_put [x] d) sid) = sr_event ` set (stored d sid) \<union> sr_event ` set [x]"
    using stored_append_events[OF assms(1,2), of "[x]"]
    by (simp add: one_session_def assms(4) session_put_def)
  then show "sr_event x \<in> sr_event ` set (read_session (session_put [x] d) sid)"
    using wf_append[OF assms(1)] by (simp add: read_session_def wf_read session_put_def)
  show "sr_event x \<notin> sr_event ` set (read_session d' sid)"
    using compact_session_success[OF assms(7), of rs] assms(5,6)
    by (auto simp: read_replace recent_records_def new_summary_def)
qed

theorem compaction_loses_append_witness:
  "sr_event (demo_record 9 ''z'' ToolResult) \<notin> sr_event ` set (read_session (snd (demo_compact (Some demo_log)
     (session_put [demo_record 9 ''z'' ToolResult] demo_store))) ''s'')"
proof -
  let ?d = "session_put [demo_record 9 ''z'' ToolResult] demo_store"
  have run: "demo_compact (Some demo_log) ?d = (True, snd (demo_compact (Some demo_log) ?d))"
    using demo_compact_runs(5)[of ?d] by (simp add: prod_eq_iff)
  have "sr_session (demo_record 9 ''z'' ToolResult) = ''s''"
    "sr_event (demo_record 9 ''z'' ToolResult) \<notin> sr_event ` set demo_log"
    "sr_event (demo_record 9 ''z'' ToolResult) \<noteq> ''compaction-'' @ ce_uuid1 demo_compact_env" by code_simp+
  from compaction_loses_append[OF demo_compact_runs(1,2) demo_compact_runs(3)[symmetric] this
      run[unfolded demo_compact_def]]
  show ?thesis by (simp add: demo_compact_def)
qed

end
