(* ===== verification/Orchestrator.thy ===== *)
theory Orchestrator
  imports Turn_Input Compaction Turn_Persistence Idempotency Session_Lifecycle
begin

text \<open>
  A whole turn: execute_turn and _run_turn of core/orchestrator/service.py, composed from the
  ledger, the session factory and context, compaction, replay, the tool check and the
  persistence of the turn.  The agent run is a function of the replayed messages, the user's
  input and the model; the clock is a function of the number of readings, in the order of
  the code.  A rewrite by compaction does not fail here.
\<close>

record 'm world =
  ow_idem :: "doc dir"
  ow_sessions :: session_world
  ow_store :: io_state
  ow_memory :: 'm

record ('i, 'm) orch_env =
  oe_H :: "string \<Rightarrow> string"
  oe_idem_ttl :: int
  oe_retention :: int
  oe_lock_ttl :: int
  oe_clk :: "nat \<Rightarrow> time"
  oe_cfg :: compaction_config
  oe_compact :: compact_env
  oe_summarize :: "string \<Rightarrow> string option"
  oe_parse :: "string \<Rightarrow> pyval option"
  oe_dumps :: "pyval \<Rightarrow> string"
  oe_str :: "pyval \<Rightarrow> string"
  oe_args :: "string \<Rightarrow> dict option"
  oe_validate :: "dict \<Rightarrow> string + 'i"
  oe_writer :: "('i \<Rightarrow> 'm \<Rightarrow> (string + dict) \<times> 'm) option"
  oe_default_model :: string
  oe_allowlist :: "string list"
  oe_trace :: "dict option"
  oe_enabled :: "string list"
  oe_warn :: string
  oe_utf8 :: "string \<Rightarrow> string"
  oe_b64 :: "string \<Rightarrow> string"
  oe_download :: "(attachment \<Rightarrow> string option) option"
  oe_agent :: "llm_message list \<Rightarrow> string + user_block list \<Rightarrow> string \<Rightarrow> adapter_outcome"

definition replay_budget :: int where
  "replay_budget = 50"

definition attachment_dump :: "attachment \<Rightarrow> pyval" where
  "attachment_dump a = PDict [(''file_id'', PStr (at_file a)), (''mime_type'', PStr (at_mime a)),
     (''file_size_bytes'', PInt (at_size a)), (''file_name'', of_opt PStr (at_name a)),
     (''caption'', of_opt PStr (at_caption a))]"

definition turn_env_of :: "('i, 'm) orch_env \<Rightarrow> orch_event \<Rightarrow> 'i turn_env" where
  "turn_env_of e ev =
     \<lparr>te_session = ev_session ev, te_turn = ev_id ev, te_text = user_content ev, te_user = Some (ev_user ev),
      te_model = resolve_model (ev_model ev) (oe_default_model e) (oe_allowlist e),
      te_default_model = oe_default_model e, te_trace = oe_trace e,
      te_attachments = map attachment_dump (gather_attachments ev), te_clk = (\<lambda>n. oe_clk e (7 + n)),
      te_parse = oe_parse e, te_str = oe_str e, te_args = oe_args e, te_validate = oe_validate e\<rparr>"

definition user_input :: "('i, 'm) orch_env \<Rightarrow> orch_event \<Rightarrow> string + user_block list" where
  "user_input e ev =
     (case build_user_content_blocks (oe_utf8 e) (oe_b64 e) (oe_download e) (extract_raw_text ev)
        (gather_attachments ev) of
        Some bs \<Rightarrow> Inr bs | None \<Rightarrow> Inl (user_content ev))"

definition maybe_compact :: "('i, 'm) orch_env \<Rightarrow> string \<Rightarrow> sessions \<Rightarrow> sessions" where
  "maybe_compact e sid d =
     (case should_compact_session (oe_cfg e) d sid of
        None \<Rightarrow> d
      | Some rs \<Rightarrow> snd (compact_session (oe_parse e) (oe_dumps e) (oe_summarize e) (oe_cfg e) (oe_compact e)
                     sid (Some rs) True d))"

text \<open>A turn stopped by the tool check returns the warning and stores nothing.\<close>

definition run_turn ::
  "('i, 'm) orch_env \<Rightarrow> orch_event \<Rightarrow> io_state \<times> 'm \<Rightarrow> (turn_error + turn_result) \<times> io_state \<times> 'm" where
  "run_turn e ev s =
     (let ((d, fs), m) = s;
          d1 = maybe_compact e (ev_session ev) d;
          records = replay_for_turn d1 (ev_session ev) replay_budget;
          messages = records_to_messages (oe_parse e) (oe_dumps e) records;
          te = turn_env_of e ev
      in case detect_tool_mismatch (oe_warn e) records (oe_enabled e) of
           Some msg \<Rightarrow> (Inr \<lparr>tr_text = msg, tr_ask = None, tr_buttons = None\<rparr>, (d1, fs), m)
         | None \<Rightarrow> run_adapter_turn (oe_writer e) te
             (oe_agent e messages (user_input e ev) (te_model te)) ((d1, fs), m))"

text \<open>The body of async with: the turn, the turn count and the stored state, then the exit.\<close>

definition run_in_context ::
  "('i, 'm) orch_env \<Rightarrow> orch_event \<Rightarrow> session_ctx \<Rightarrow> 'm world
    \<Rightarrow> (turn_error + turn_result option) \<times> 'm world" where
  "run_in_context e ev cx w =
     (case run_turn e ev (ow_store w, ow_memory w) of
        (r, st, m) \<Rightarrow>
          (let w1 = w\<lparr>ow_store := st, ow_memory := m\<rparr>;
               cx1 = (case r of Inr _ \<Rightarrow> increment_turn_count (oe_clk e 11) cx | Inl _ \<Rightarrow> cx);
               sw = (case r of
                       Inr _ \<Rightarrow> snd (factory_persist_state (oe_H e) (ow_sessions w1) cx1)
                     | Inl _ \<Rightarrow> ow_sessions w1);
               l = snd (ctx_exit (oe_H e) (w_locks sw) cx1 (isl r) (oe_clk e 12))
           in ((case r of Inr x \<Rightarrow> Inr (Some x) | Inl x \<Rightarrow> Inl x), w1\<lparr>ow_sessions := sw\<lparr>w_locks := l\<rparr>\<rparr>)))"

definition execute_turn ::
  "('i, 'm) orch_env \<Rightarrow> orch_event \<Rightarrow> 'm world \<Rightarrow> (turn_error + turn_result option) \<times> 'm world" where
  "execute_turn e ev w =
     (let clk = oe_clk e;
          ((dup, prior), idem) = ingress_check_and_register (oe_H e) (oe_idem_ttl e) (ow_idem w) (ev_source ev)
            (ev_id ev) (Some (oe_retention e)) (clk 0) (clk 1);
          w1 = w\<lparr>ow_idem := idem\<rparr>
      in if dup then (Inr None, w1)
         else
           (case factory_resume (oe_H e) (ow_sessions w1) (ev_session ev) (clk 2) (clk 3) of
              Inl x \<Rightarrow> (Inl (TurnError x), w1)
            | Inr cx \<Rightarrow>
                (case ctx_enter (oe_H e) (oe_lock_ttl e) (w_locks (ow_sessions w1)) cx (clk 4) (clk 5) (clk 6) of
                   (Inl x, l) \<Rightarrow> (Inl (TurnError x), w1\<lparr>ow_sessions := (ow_sessions w1)\<lparr>w_locks := l\<rparr>\<rparr>)
                 | (Inr cx1, l) \<Rightarrow>
                     run_in_context e ev cx1 (w1\<lparr>ow_sessions := (ow_sessions w1)\<lparr>w_locks := l\<rparr>\<rparr>))))"


section \<open>Lemmas\<close>

lemma execute_turn_idem:
  assumes "execute_turn e ev w = (r, w1)"
  shows "ow_idem w1 = snd (ingress_check_and_register (oe_H e) (oe_idem_ttl e) (ow_idem w) (ev_source ev)
      (ev_id ev) (Some (oe_retention e)) (oe_clk e 0) (oe_clk e 1))"
    and "r = Inr None \<longleftrightarrow> fst (fst (ingress_check_and_register (oe_H e) (oe_idem_ttl e) (ow_idem w) (ev_source ev)
      (ev_id ev) (Some (oe_retention e)) (oe_clk e 0) (oe_clk e 1)))"
  using assms
  by (auto simp: execute_turn_def run_in_context_def Let_def
      split: prod.splits if_splits sum.splits)

lemma resume_loaded:
  assumes "meta_load H (w_meta sw) sid c2 = Inr (Some (m, s))"
  shows "\<exists>s'. factory_resume H sw sid c2 c3 = Inr (new_ctx m s') \<and> ss_turns s' = ss_turns s"
  using assms
  by (intro exI[of _ "if ss_status s = SessSuspended then s\<lparr>ss_status := SessActive, ss_activity := c3\<rparr> else s"])
    (simp add: factory_resume_def)

lemma enter_cases:
  assumes "ctx_enter H dflt locks (new_ctx m s) c1 c2 c3 = (Inr cx, l)"
  shows "cx_meta cx = m" "cx_state cx = s\<lparr>ss_status := SessActive, ss_activity := c3\<rparr>" "cx_locked cx"
    "cx_owner cx = lock_owner_of (sm_session m)"
    "\<exists>x. lock_read H l (lock_key_of (sm_session m)) = Some x \<and> lk_owner x = lock_owner_of (sm_session m)"
  using assms
  by (auto simp: ctx_enter_def Let_def new_ctx_def cx_session_def lock_acquire_cases store_simps
      split: prod.splits option.splits if_splits)

lemma exit_frees:
  assumes "cx_locked cx" and "cx_owner cx = lock_owner_of (cx_session cx)"
    and "lock_read H l (lock_key_of (cx_session cx)) = Some x" and "lk_owner x = lock_owner_of (cx_session cx)"
  shows "\<not> lock_is_locked H (snd (ctx_exit H l cx raised now)) (lock_key_of (cx_session cx)) t"
  using assms by (simp add: ctx_exit_def lock_release_def store_simps lock_is_locked_def Let_def)

lemma increment_simps [simp]:
  "cx_meta (increment_turn_count now cx) = cx_meta cx" "cx_session (increment_turn_count now cx) = cx_session cx"
  "cx_locked (increment_turn_count now cx) = cx_locked cx" "cx_owner (increment_turn_count now cx) = cx_owner cx"
  "cx_state (increment_turn_count now cx) =
     (cx_state cx)\<lparr>ss_turns := ss_turns (cx_state cx) + 1, ss_activity := now\<rparr>"
  by (simp_all add: increment_turn_count_def cx_session_def)

lemma persist_state_loads:
  assumes "meta_load H (w_meta sw) (cx_session cx) c = Inr (Some (m, s))"
  shows "meta_load H (w_meta (snd (factory_persist_state H sw cx))) (cx_session cx) c' = Inr (Some (m, cx_state cx))"
    and "w_locks (snd (factory_persist_state H sw cx)) = w_locks sw"
proof -
  obtain ok d where u: "meta_update_state H (w_meta sw) (cx_session cx) (cx_state cx) = (ok, d)" by fastforce
  then show "meta_load H (w_meta (snd (factory_persist_state H sw cx))) (cx_session cx) c' = Inr (Some (m, cx_state cx))"
    using meta_load_update_state(2)[OF assms u] by (simp add: factory_persist_state_def)
  show "w_locks (snd (factory_persist_state H sw cx)) = w_locks sw"
    by (simp add: factory_persist_state_def split: prod.split)
qed

section \<open>Properties\<close>

text \<open>
  C1: an event is executed at most once.  After execute_turn has taken an event, with
  whatever result (a reply, a missing session, a lock time-out, a cancellation or an error
  of the agent), every later delivery of the event within the retention time returns None and
  changes nothing, whatever other registrations and clean-ups happened in between.
\<close>

theorem execute_turn_once:
  assumes "dir_ok (ow_idem w)" and "execute_turn e ev w = (r, w1)" and "r \<noteq> Inr None"
    and "\<forall>p \<in> set ops. idem_op_time p \<le> oe_clk e' 0"
    and "oe_clk e' 0 < oe_clk e 1 + seconds (oe_retention e)"
    and "oe_H e' = oe_H e" and "oe_idem_ttl e' = oe_idem_ttl e"
    and "ev_id ev' = ev_id ev" and "ev_source ev' = ev_source ev"
    and "ow_idem w2 = idem_run (oe_H e) (oe_idem_ttl e) ops (ow_idem w1)"
  shows "execute_turn e' ev' w2 = (Inr None, w2)"
proof -
  obtain dup prior d where first: "ingress_check_and_register (oe_H e) (oe_idem_ttl e) (ow_idem w) (ev_source ev)
      (ev_id ev) (Some (oe_retention e)) (oe_clk e 0) (oe_clk e 1) = ((dup, prior), d)"
    by (metis prod.collapse)
  have "dup = False" "d = ow_idem w1"
    using execute_turn_idem[OF assms(2)] first assms(3) by auto
  then have "\<exists>x. ingress_check_and_register (oe_H e') (oe_idem_ttl e') (ow_idem w2) (ev_source ev') (ev_id ev')
      (Some (oe_retention e')) (oe_clk e' 0) (oe_clk e' 1) = ((True, Some x), ow_idem w2)"
    using ingress_claim_once[OF assms(1), of "oe_H e" "oe_idem_ttl e" "ev_source ev" "ev_id ev"
        "Some (oe_retention e)" "oe_clk e 0" "oe_clk e 1" prior d ops "oe_clk e' 0"] first assms(4-10)
    by (simp add: resolve_ttl_def)
  then show ?thesis by (auto simp: execute_turn_def Let_def)
qed

text \<open>
  What a turn leaves of its session.  When an event that is no duplicate finds its session
  and gets its lock, then afterwards the lock is free, whatever happened in the turn; the
  stored state is untouched after an error, and after a result it has one more turn and the
  status ACTIVE: an archived session is active again, and a long-running one, which the
  exit of the context suspends, is never stored as SUSPENDED.
\<close>

theorem execute_turn_session:
  assumes "execute_turn e ev w = (r, w1)" and "r \<noteq> Inr None"
    and "meta_load (oe_H e) (w_meta (ow_sessions w)) (ev_session ev) (oe_clk e 2) = Inr (Some (m, s))"
    and "sm_session m = ev_session ev"
    and "lock_acquire (oe_H e) (oe_lock_ttl e) (w_locks (ow_sessions w)) (lock_key_of (ev_session ev))
      (lock_owner_of (ev_session ev)) None (oe_clk e 4) (oe_clk e 5) = (Some rec, l)"
  shows "\<not> lock_is_locked (oe_H e) (w_locks (ow_sessions w1)) (lock_key_of (ev_session ev)) t \<and>
    meta_load (oe_H e) (w_meta (ow_sessions w1)) (ev_session ev) (oe_clk e 2) = Inr (Some (m,
      (if isl r then s else \<lparr>ss_status = SessActive, ss_activity = oe_clk e 11, ss_turns = ss_turns s + 1\<rparr>)))"
proof -
  let ?H = "oe_H e" and ?sid = "ev_session ev"
  obtain idem where check: "\<exists>prior. ingress_check_and_register ?H (oe_idem_ttl e) (ow_idem w) (ev_source ev)
      (ev_id ev) (Some (oe_retention e)) (oe_clk e 0) (oe_clk e 1) = ((False, prior), idem)"
    using execute_turn_idem(2)[OF assms(1)] assms(2) by (metis prod.collapse)
  obtain s0 where resume: "factory_resume ?H (ow_sessions w) ?sid (oe_clk e 2) (oe_clk e 3) = Inr (new_ctx m s0)"
    and s0: "ss_turns s0 = ss_turns s"
    using resume_loaded[OF assms(3)] by blast
  obtain cx where enter: "ctx_enter ?H (oe_lock_ttl e) (w_locks (ow_sessions w)) (new_ctx m s0)
      (oe_clk e 4) (oe_clk e 5) (oe_clk e 6) = (Inr cx, l)"
    using assms(4,5) by (simp add: ctx_enter_def Let_def new_ctx_def cx_session_def)
  note cx = enter_cases[OF enter]
  have sid: "cx_session cx = ?sid" using cx(1) assms(4) by (simp add: cx_session_def)
  let ?w = "w\<lparr>ow_idem := idem, ow_sessions := (ow_sessions w)\<lparr>w_locks := l\<rparr>\<rparr>"
  have run: "run_in_context e ev cx ?w = (r, w1)"
    using assms(1) check resume enter by (auto simp: execute_turn_def Let_def)
  have loaded: "meta_load ?H (w_meta ((ow_sessions w)\<lparr>w_locks := l\<rparr>)) (cx_session (increment_turn_count (oe_clk e 11) cx))
      (oe_clk e 2) = Inr (Some (m, s))"
    using assms(3) sid by simp
  note stored = persist_state_loads[OF loaded]
  have free: "\<not> lock_is_locked ?H (snd (ctx_exit ?H l cx' b c)) (lock_key_of ?sid) t"
    if "cx' \<in> {cx, increment_turn_count (oe_clk e 11) cx}" for cx' b c
    using exit_frees[of cx' ?H l] that cx(3,4,5) assms(4) sid by auto
  obtain r' st m' where turn: "run_turn e ev (ow_store ?w, ow_memory ?w) = (r', st, m')" by (metis prod.collapse)
  show ?thesis
  proof (cases r')
    case (Inl x)
    then show ?thesis
      using run turn free assms(3) by (auto simp: run_in_context_def Let_def)
  next
    case (Inr x)
    have state: "cx_state (increment_turn_count (oe_clk e 11) cx) =
        \<lparr>ss_status = SessActive, ss_activity = oe_clk e 11, ss_turns = ss_turns s + 1\<rparr>"
      using cx(2) s0 by simp
    show ?thesis
      using run turn free stored Inr state sid by (auto simp: run_in_context_def Let_def)
  qed
qed


text \<open>An example: one session, and an agent that answers ok.\<close>

definition demo_orch_env :: "time \<Rightarrow> (dict, nat) orch_env" where
  "demo_orch_env t =
     \<lparr>oe_H = id, oe_idem_ttl = 60, oe_retention = 60, oe_lock_ttl = 30, oe_clk = (\<lambda>n. t + int n),
      oe_cfg = \<lparr>cc_enabled = False, cc_threshold = 0, cc_min_turns = 2, cc_max = 3, cc_keep = 1\<rparr>,
      oe_compact = \<lparr>ce_iso = [], ce_time = 0, ce_uuid1 = [], ce_uuid2 = []\<rparr>, oe_summarize = (\<lambda>_. None),
      oe_parse = (\<lambda>_. None), oe_dumps = (\<lambda>_. []), oe_str = (\<lambda>_. []), oe_args = (\<lambda>_. None),
      oe_validate = Inr, oe_writer = None, oe_default_model = ''m'', oe_allowlist = [''m''], oe_trace = None,
      oe_enabled = [], oe_warn = [], oe_utf8 = id, oe_b64 = id, oe_download = None,
      oe_agent = (\<lambda>_ _ _. RunOk ''ok'' [] None)\<rparr>"

definition demo_event :: orch_event where
  "demo_event = \<lparr>ev_id = ''e'', ev_source = ''api'', ev_session = ''s'', ev_user = ''u'', ev_text = Some ''hi'',
     ev_transcript = None, ev_attachment = None, ev_callback = None, ev_attachments = [], ev_model = None\<rparr>"

definition demo_meta :: session_metadata where
  "demo_meta = \<lparr>sm_session = ''s'', sm_context = ''c'', sm_created = 0, sm_type = Regular\<rparr>"

definition demo_world :: "nat world" where
  "demo_world = \<lparr>ow_idem = [], ow_sessions = \<lparr>w_meta = meta_save id [] demo_meta
       \<lparr>ss_status = SessArchived, ss_activity = 0, ss_turns = 4\<rparr>, w_active = table_start True None, w_locks = []\<rparr>,
     ow_store = ([], []), ow_memory = 0\<rparr>"

lemma demo_not_duplicate: "fst (execute_turn (demo_orch_env 0) demo_event demo_world) \<noteq> Inr None"
proof
  assume "fst (execute_turn (demo_orch_env 0) demo_event demo_world) = Inr None"
  then have "fst (fst (ingress_check_and_register id 60 [] ''api'' ''e'' (Some 60) 0 1))"
    using execute_turn_idem(2)[OF prod.collapse[symmetric], of "demo_orch_env 0" demo_event demo_world]
    by (simp add: demo_orch_env_def demo_event_def demo_world_def)
  then show False
    by (simp add: ingress_check_and_register_def idem_check_and_register_def idem_check_def idem_read_def
        read_rec_def Let_def)
qed

theorem execute_turn_once_witness:
  "fst (execute_turn (demo_orch_env 1000) demo_event (snd (execute_turn (demo_orch_env 0) demo_event demo_world))) = Inr None"
proof -
  let ?w1 = "snd (execute_turn (demo_orch_env 0) demo_event demo_world)"
  have "execute_turn (demo_orch_env 1000) demo_event ?w1 = (Inr None, ?w1)"
    by (rule execute_turn_once[OF _ prod.collapse[symmetric] demo_not_duplicate, where ops = "[]"])
      (simp_all add: demo_world_def demo_orch_env_def dir_ok_def idem_run_def)
  then show ?thesis by simp
qed

theorem execute_turn_session_witness:
  "\<exists>s. meta_load id (w_meta (ow_sessions (snd (execute_turn (demo_orch_env 0) demo_event demo_world)))) ''s'' 2 =
     Inr (Some (demo_meta, s)) \<and> ss_turns s \<ge> 4"
proof -
  have env: "oe_H (demo_orch_env 0) = id" "oe_lock_ttl (demo_orch_env 0) = 30" "oe_clk (demo_orch_env 0) = int"
    by (simp_all add: demo_orch_env_def fun_eq_iff)
  have ev: "ev_session demo_event = ''s''" by (simp add: demo_event_def)
  obtain rec l where lock: "lock_acquire (oe_H (demo_orch_env 0)) (oe_lock_ttl (demo_orch_env 0))
      (w_locks (ow_sessions demo_world)) (lock_key_of (ev_session demo_event)) (lock_owner_of (ev_session demo_event))
      None (oe_clk (demo_orch_env 0) 4) (oe_clk (demo_orch_env 0) 5) = (Some rec, l)"
    by (simp add: lock_acquire_cases lock_read_def read_rec_def Let_def demo_world_def)
  have meta: "sm_session demo_meta = ev_session demo_event"
    "meta_load (oe_H (demo_orch_env 0)) (w_meta (ow_sessions demo_world)) (ev_session demo_event)
      (oe_clk (demo_orch_env 0) 2) = Inr (Some (demo_meta, \<lparr>ss_status = SessArchived, ss_activity = 0, ss_turns = 4\<rparr>))"
    unfolding env ev by (simp_all add: demo_world_def meta_load_save) (simp_all add: demo_meta_def)
  show ?thesis
    using execute_turn_session[OF prod.collapse[symmetric] demo_not_duplicate meta(2,1) lock, of 0]
    unfolding env ev by (intro exI conjI) auto
qed

end
