(* ===== verification/Confirmation.thy ===== *)
theory Confirmation
  imports Turn_Persistence
begin

text \<open>
  Pending memory proposals and the decisions of the user: core/orchestrator/confirmation.py.
  A proposal is pending while the last result of its call in the session log has the status
  pending_confirmation.  check stands for the validation of the stored arguments, validate
  and writer for the constructor of the intent and the memory writer (their exceptions are
  texts), os_text for the text of an OSError.  Appends fail as in Turn_Persistence.
\<close>

definition pending_status :: string where
  "pending_status = ''pending_confirmation''"

record 'p pending =
  pm_session :: string
  pm_turn :: string
  pm_call :: string
  pm_proposal :: 'p
  pm_raw :: string

definition is_memory :: "record_type \<Rightarrow> session_record \<Rightarrow> bool" where
  "is_memory ty r = (sr_type r = ty \<and> tool_name r = memory_tool)"

definition memory_call_records :: "session_record list \<Rightarrow> (string \<times> session_record) list" where
  "memory_call_records rs =
     fold (\<lambda>r m. if is_memory AssistantToolCall r then AList.update (call_id r) r m else m) rs []"

definition result_status :: "session_record \<Rightarrow> string option" where
  "result_status r =
     (case dget (sr_payload r) ''result'' of
        PDict d \<Rightarrow> as_str (dget d ''status'')
      | _ \<Rightarrow> None)"

definition status_by_call :: "session_record list \<Rightarrow> (string \<times> string) list" where
  "status_by_call rs =
     fold (\<lambda>r m. if is_memory ToolResult r
                then (case result_status r of Some s \<Rightarrow> AList.update (call_id r) s m | None \<Rightarrow> m)
                else m) rs []"

definition raw_arguments :: "session_record \<Rightarrow> string" where
  "raw_arguments r = (case dget_or (sr_payload r) ''arguments_json'' (PStr ''{}'') of PStr s \<Rightarrow> s | _ \<Rightarrow> [])"

text \<open>json.loads of the arguments; a value that is no object makes the canonicalisation raise.\<close>

definition load_arguments :: "(string \<Rightarrow> pyval option) \<Rightarrow> string \<Rightarrow> dict option" where
  "load_arguments parse s = (case parse s of Some (PDict d) \<Rightarrow> Some d | _ \<Rightarrow> None)"

definition pending_of ::
  "(string \<Rightarrow> pyval option) \<Rightarrow> (pyval \<Rightarrow> string) \<Rightarrow> (dict \<Rightarrow> 'p option) \<Rightarrow> string
    \<Rightarrow> (string \<times> string) list \<Rightarrow> string \<times> session_record \<Rightarrow> 'p pending option" where
  "pending_of parse pstr check sid statuses cr =
     (if map_of statuses (fst cr) \<noteq> Some pending_status then None
      else
        (case load_arguments parse (raw_arguments (snd cr)) of
           None \<Rightarrow> None
         | Some d \<Rightarrow>
             (case check (canonicalize_memory_args pstr d) of
                None \<Rightarrow> None
              | Some p \<Rightarrow> Some \<lparr>pm_session = sid, pm_turn = sr_turn (snd cr), pm_call = fst cr,
                  pm_proposal = p, pm_raw = raw_arguments (snd cr)\<rparr>)))"

definition list_pending ::
  "(string \<Rightarrow> pyval option) \<Rightarrow> (pyval \<Rightarrow> string) \<Rightarrow> (dict \<Rightarrow> 'p option) \<Rightarrow> sessions \<Rightarrow> string
    \<Rightarrow> 'p pending list" where
  "list_pending parse pstr check d sid =
     (let rs = read_session d sid
      in List.map_filter (pending_of parse pstr check sid (status_by_call rs)) (memory_call_records rs))"

section \<open>Decisions\<close>

definition confirmation_record ::
  "string \<Rightarrow> string \<Rightarrow> string \<Rightarrow> dict \<Rightarrow> string option \<Rightarrow> int \<Rightarrow> time \<Rightarrow> string \<Rightarrow> session_record" where
  "confirmation_record sid turn call result err n now uuid8 =
     \<lparr>sr_session = sid, sr_seq = n, sr_event = ''memory-confirmation-'' @ call @ ''-'' @ uuid8,
      sr_turn = turn, sr_time = now, sr_type = ToolResult,
      sr_payload = [(''message_id'', PStr (''msg-confirmation-result-'' @ call)), (''tool_call_id'', PStr call),
        (''tool_name'', PStr memory_tool), (''result'', PDict result), (''error'', of_opt PStr err)]\<rparr>"

definition append_result ::
  "string \<Rightarrow> string \<Rightarrow> string \<Rightarrow> dict \<Rightarrow> string option \<Rightarrow> time \<Rightarrow> string \<Rightarrow> io_state
    \<Rightarrow> (exn + unit) \<times> io_state" where
  "append_result sid turn call result err now uuid8 st =
     io_append [confirmation_record sid turn call result err (get_next_sequence (fst st) sid) now uuid8] st"

definition apply_failed_text :: string where
  "apply_failed_text = ''Memory update could not be applied. Please try again later.''"

text \<open>The names u1 and u2 of a decision's records and the times t1 and t2.\<close>

record decision =
  dc_call :: string
  dc_approve :: bool
  dc_user :: "string option"
  dc_t1 :: time
  dc_t2 :: time
  dc_u1 :: string
  dc_u2 :: string

record ('p, 'i, 'm) confirm_env =
  ce_parse :: "string \<Rightarrow> pyval option"
  ce_str :: "pyval \<Rightarrow> string"
  ce_check :: "dict \<Rightarrow> 'p option"
  ce_validate :: "dict \<Rightarrow> string + 'i"
  ce_writer :: "'i \<Rightarrow> string \<Rightarrow> 'm \<Rightarrow> (string + dict) \<times> 'm"
  ce_os_text :: string

definition fail_result :: "string \<Rightarrow> dict" where
  "fail_result e = [(''status'', PStr ''failed''), (''reason'', PStr e),
     (''requires_user_confirmation'', PBool False)]"

definition record_failure ::
  "string \<Rightarrow> string \<Rightarrow> string \<Rightarrow> decision \<Rightarrow> io_state \<Rightarrow> (exn + (bool \<times> string)) \<times> io_state" where
  "record_failure sid turn e dc st =
     (case append_result sid turn (dc_call dc) (fail_result e) (Some e) (dc_t2 dc) (dc_u2 dc) st of
        (Inl x, st') \<Rightarrow> (Inl x, st')
      | (Inr _, st') \<Rightarrow> (Inr (True, apply_failed_text), st'))"

text \<open>The approving branch: the try block and its handler.\<close>

definition approve_pending ::
  "('p, 'i, 'm) confirm_env \<Rightarrow> string \<Rightarrow> decision \<Rightarrow> 'p pending \<Rightarrow> io_state \<Rightarrow> 'm
    \<Rightarrow> (exn + (bool \<times> string)) \<times> (io_state \<times> 'm)" where
  "approve_pending e sid dc p st m =
     (let failure = (\<lambda>x st m'. case record_failure sid (pm_turn p) x dc st of (r, st') \<Rightarrow> (r, (st', m')))
      in case memory_propose_validate (ce_str e) (ce_validate e)
           (AList.update ''intent_id'' (PStr (dc_call dc))
             (case load_arguments (ce_parse e) (pm_raw p) of Some d \<Rightarrow> d | None \<Rightarrow> [])) of
           Inl x \<Rightarrow> failure x st m
         | Inr i \<Rightarrow>
             (case ce_writer e i (case dc_user dc of Some u \<Rightarrow> if u \<noteq> [] then u else sid | None \<Rightarrow> sid) m of
                (Inl x, m') \<Rightarrow> failure x st m'
              | (Inr audit, m') \<Rightarrow>
                  (case append_result sid (pm_turn p) (dc_call dc) audit None (dc_t1 dc) (dc_u1 dc) st of
                     (Inr _, st') \<Rightarrow> (Inr (True, ''Memory update confirmed and applied.''), (st', m'))
                   | (Inl _, st') \<Rightarrow> failure (ce_os_text e) st' m')))"

definition resolve_pending ::
  "('p, 'i, 'm) confirm_env \<Rightarrow> string \<Rightarrow> decision \<Rightarrow> io_state \<times> 'm
    \<Rightarrow> (exn + (bool \<times> string)) \<times> (io_state \<times> 'm)" where
  "resolve_pending e sid dc w =
     (case w of (st, m) \<Rightarrow>
       (case find (\<lambda>p. pm_call p = dc_call dc)
            (list_pending (ce_parse e) (ce_str e) (ce_check e) (fst st) sid) of
          None \<Rightarrow> (Inr (False, ''Confirmation expired or already resolved.''), (st, m))
        | Some p \<Rightarrow>
            if \<not> dc_approve dc then
              (case append_result sid (pm_turn p) (dc_call dc)
                  [(''status'', PStr ''rejected_by_user''), (''reason'', PStr ''User rejected memory update'')]
                  None (dc_t1 dc) (dc_u1 dc) st of
                 (Inl x, st') \<Rightarrow> (Inl x, (st', m))
               | (Inr _, st') \<Rightarrow> (Inr (True, ''Memory update rejected.''), (st', m)))
            else approve_pending e sid dc p st m))"

definition resolve_run :: "('p, 'i, 'm) confirm_env \<Rightarrow> string \<Rightarrow> decision list \<Rightarrow> io_state \<times> 'm \<Rightarrow> io_state \<times> 'm" where
  "resolve_run e sid dcs w = fold (\<lambda>dc w. snd (resolve_pending e sid dc w)) dcs w"

section \<open>The status of a call\<close>

lemma status_by_call_snoc:
  "map_of (status_by_call (rs @ [r])) c =
     (if is_memory ToolResult r \<and> call_id r = c \<and> result_status r \<noteq> None then result_status r
      else map_of (status_by_call rs) c)"
  by (auto simp: status_by_call_def alist_simps split: option.split)

lemma status_by_call_other:
  assumes "\<forall>r \<in> set new. is_memory ToolResult r \<longrightarrow> call_id r \<noteq> c"
  shows "map_of (status_by_call (rs @ new)) c = map_of (status_by_call rs) c"
  using assms
proof (induction new rule: rev_induct)
  case (snoc r new)
  then show ?case using status_by_call_snoc[of "rs @ new" r c] by auto
qed simp

lemma pending_call:
  assumes "p \<in> set (list_pending parse pstr check d sid)"
  shows "map_of (status_by_call (read_session d sid)) (pm_call p) = Some pending_status"
  using assms
  by (auto simp: list_pending_def Let_def List.map_filter_def pending_of_def split: if_splits option.splits)

lemma not_pending_resolve:
  assumes "map_of (status_by_call (read_session (fst st) sid)) (dc_call dc) \<noteq> Some pending_status"
  shows "resolve_pending e sid dc (st, m) = (Inr (False, ''Confirmation expired or already resolved.''), (st, m))"
proof -
  have "find (\<lambda>p. pm_call p = dc_call dc) (list_pending (ce_parse e) (ce_str e) (ce_check e) (fst st) sid) = None"
    using assms pending_call by (fastforce simp: find_None_iff)
  then show ?thesis by (simp add: resolve_pending_def)
qed

lemma confirmation_record_simps [simp]:
  "sr_session (confirmation_record sid turn call result err n now u) = sid"
  "sr_event (confirmation_record sid turn call result err n now u) = ''memory-confirmation-'' @ call @ ''-'' @ u"
  "is_memory ToolResult ((confirmation_record sid turn call result err n now u)\<lparr>sr_seq := k\<rparr>)"
  "call_id ((confirmation_record sid turn call result err n now u)\<lparr>sr_seq := k\<rparr>) = call"
  "result_status ((confirmation_record sid turn call result err n now u)\<lparr>sr_seq := k\<rparr>) = as_str (dget result ''status'')"
  by (simp_all add: confirmation_record_def is_memory_def tool_name_def call_id_def str_field_def
      dget_def dget_or_def result_status_def memory_tool_def)


lemma read_good: "good_store d \<Longrightarrow> read_session d sid = stored d sid"
  by (simp add: read_session_def wf_read)

lemma append_result_new:
  assumes "good_store d"
    and "append_result sid turn call result err now u (d, fs) = (r, (d', fs'))"
  shows "good_store d' \<and> (\<exists>new. read_session d' sid = read_session d sid @ new \<and>
      (\<forall>x \<in> set new. call_id x = call) \<and>
      (r = Inr () \<and> ''memory-confirmation-'' @ call @ ''-'' @ u \<notin> sr_event ` set (read_session d sid) \<longrightarrow>
        (\<exists>n k. new = [(confirmation_record sid turn call result err n now u)\<lparr>sr_seq := k\<rparr>]))) \<and>
    (fs = [] \<or> \<not> hd fs \<longrightarrow> r = Inr ())"
proof (cases "fs = [] \<or> \<not> hd fs")
  case False
  then obtain fs1 where "fs = True # fs1" by (cases fs) auto
  then show ?thesis using assms by (auto simp: append_result_def io_append_def)
next
  case True
  let ?x = "confirmation_record sid turn call result err (get_next_sequence d sid) now u"
  have batch: "batch_of sid [?x]" by (simp add: batch_of_def)
  have run: "r = Inr ()" "d' = session_put [?x] d"
    using assms(2) io_append_ok[OF batch True, of d] by (simp_all add: append_result_def)
  have good: "good_store d'" unfolding run(2) by (rule put_good[OF assms(1)])
  have "stored d' sid = stored d sid @ assign_new (sr_event ` set (stored d sid)) (next_seq (stored d sid)) [?x]"
    using assms(1) stored_append[of d "[?x]" sid] by (simp add: run(2) session_put_def appended_def one_session_def Let_def)
  then have "read_session d' sid = read_session d sid @
      (if sr_event ?x \<in> sr_event ` set (read_session d sid) then [] else [?x\<lparr>sr_seq := next_seq (stored d sid)\<rparr>])"
    using good assms(1) by (simp add: read_good)
  then show ?thesis using good run(1) by auto
qed

lemma append_result_status:
  assumes "good_store d" and "append_result sid turn call result err now u (d, fs) = (r, (d', fs'))"
  shows "good_store d'"
    and "c \<noteq> call \<Longrightarrow> map_of (status_by_call (read_session d' sid)) c = map_of (status_by_call (read_session d sid)) c"
    and "r = Inr () \<Longrightarrow> ''memory-confirmation-'' @ call @ ''-'' @ u \<notin> sr_event ` set (read_session d sid) \<Longrightarrow>
      as_str (dget result ''status'') = Some s \<Longrightarrow> map_of (status_by_call (read_session d' sid)) call = Some s"
    and "fs = [] \<Longrightarrow> r = Inr ()"
proof -
  note n = append_result_new[OF assms]
  then obtain new where new: "read_session d' sid = read_session d sid @ new" "\<forall>x \<in> set new. call_id x = call"
    "r = Inr () \<and> ''memory-confirmation-'' @ call @ ''-'' @ u \<notin> sr_event ` set (read_session d sid) \<longrightarrow>
        (\<exists>n k. new = [(confirmation_record sid turn call result err n now u)\<lparr>sr_seq := k\<rparr>])" by blast
  show "good_store d'" using n by blast
  show "map_of (status_by_call (read_session d' sid)) c = map_of (status_by_call (read_session d sid)) c" if "c \<noteq> call"
    unfolding new(1) using new(2) that by (intro status_by_call_other) auto
  show "map_of (status_by_call (read_session d' sid)) call = Some s"
    if "r = Inr ()" "''memory-confirmation-'' @ call @ ''-'' @ u \<notin> sr_event ` set (read_session d sid)"
      "as_str (dget result ''status'') = Some s"
    using new(3) that unfolding new(1) by (auto simp: status_by_call_snoc)
  show "r = Inr ()" if "fs = []" using n that by simp
qed

lemma record_failure_status:
  assumes "good_store d" and "record_failure sid turn e dc (d, fs) = (r, (d', fs'))"
  shows "good_store d'"
    and "c \<noteq> dc_call dc \<Longrightarrow> map_of (status_by_call (read_session d' sid)) c = map_of (status_by_call (read_session d sid)) c"
    and "fs = [] \<Longrightarrow> ''memory-confirmation-'' @ dc_call dc @ ''-'' @ dc_u2 dc \<notin> sr_event ` set (read_session d sid) \<Longrightarrow>
      map_of (status_by_call (read_session d' sid)) (dc_call dc) = Some ''failed''"
    and "fs = [] \<Longrightarrow> r = Inr (True, apply_failed_text)"
proof -
  obtain r1 where run: "append_result sid turn (dc_call dc) (fail_result e) (Some e) (dc_t2 dc) (dc_u2 dc) (d, fs)
      = (r1, (d', fs'))" and r: "r = (case r1 of Inl x \<Rightarrow> Inl x | Inr _ \<Rightarrow> Inr (True, apply_failed_text))"
    using assms(2) by (auto simp: record_failure_def split: prod.splits sum.splits)
  note s = append_result_status[OF assms(1) run]
  show "good_store d'" by (rule s(1))
  show "c \<noteq> dc_call dc \<Longrightarrow> map_of (status_by_call (read_session d' sid)) c = map_of (status_by_call (read_session d sid)) c"
    by (rule s(2))
  show "map_of (status_by_call (read_session d' sid)) (dc_call dc) = Some ''failed''"
    if "fs = []" "''memory-confirmation-'' @ dc_call dc @ ''-'' @ dc_u2 dc \<notin> sr_event ` set (read_session d sid)"
    by (rule s(3)[OF s(4)[OF that(1)] that(2)]) (simp add: fail_result_def)
  show "r = Inr (True, apply_failed_text)" if "fs = []" using r s(4)[OF that] by simp
qed


lemma resolve_other:
  assumes "good_store d" and "resolve_pending e sid dc ((d, fs), m) = (r, ((d', fs'), m'))"
    and "map_of (status_by_call (read_session d sid)) c \<noteq> Some pending_status"
  shows "good_store d' \<and> map_of (status_by_call (read_session d' sid)) c \<noteq> Some pending_status"
proof (cases "map_of (status_by_call (read_session d sid)) (dc_call dc) = Some pending_status")
  case False
  then show ?thesis using assms not_pending_resolve[of "(d, fs)" sid dc e m] by simp
next
  case True
  then have c: "c \<noteq> dc_call dc" using assms(3) by auto
  note app = append_result_status(1)[OF assms(1)] append_result_status(2)[OF assms(1) _ c]
  note fail = record_failure_status(1)[OF assms(1)] record_failure_status(2)[OF assms(1) _ c]
  have two: "good_store d2 \<and> map_of (status_by_call (read_session d2 sid)) c = map_of (status_by_call (read_session d sid)) c"
    if "append_result sid turn (dc_call dc) a None t u (d, fs) = (r1, (d1, fs1))"
      "record_failure sid turn x dc (d1, fs1) = (r2, (d2, fs2))" for turn a t u r1 d1 fs1 x r2 d2 fs2
    using app[OF that(1)] record_failure_status(1)[OF _ that(2)] record_failure_status(2)[OF _ that(2) c] by auto
  show ?thesis
    using assms
    by (auto simp: resolve_pending_def approve_pending_def Let_def
        split: option.splits if_splits sum.splits prod.splits dest: app fail two)
qed

lemma run_other:
  assumes "good_store d" and "map_of (status_by_call (read_session d sid)) c \<noteq> Some pending_status"
    and "resolve_run e sid dcs ((d, fs), m) = ((d', fs'), m')"
  shows "good_store d' \<and> map_of (status_by_call (read_session d' sid)) c \<noteq> Some pending_status"
  using assms
proof (induction dcs arbitrary: d fs m)
  case (Cons dc dcs)
  obtain r d1 fs1 m1 where run: "resolve_pending e sid dc ((d, fs), m) = (r, ((d1, fs1), m1))"
    by (metis prod.collapse)
  show ?case
    using Cons.IH[of d1 fs1 m1] resolve_other[OF Cons.prems(1) run Cons.prems(2)] Cons.prems(3) run
    by (simp add: resolve_run_def)
qed (simp add: resolve_run_def)


lemma resolve_decides:
  assumes "good_store d" and "resolve_pending e sid dc ((d, []), m) = (Inr (True, msg), ((d', fs'), m'))"
    and "\<forall>u \<in> {dc_u1 dc, dc_u2 dc}. ''memory-confirmation-'' @ dc_call dc @ ''-'' @ u \<notin> sr_event ` set (read_session d sid)"
    and "\<forall>i u n audit n'. ce_writer e i u n = (Inr audit, n') \<longrightarrow>
      (\<exists>s. dget audit ''status'' = PStr s \<and> s \<noteq> pending_status)"
  shows "good_store d' \<and> map_of (status_by_call (read_session d' sid)) (dc_call dc) \<noteq> Some pending_status"
proof -
  let ?c = "dc_call dc"
  have ok: "good_store d1 \<and> map_of (status_by_call (read_session d1 sid)) ?c \<noteq> Some pending_status \<and> (\<exists>u. r1 = Inr u)"
    if "append_result sid turn ?c a None t (dc_u1 dc) (d, []) = (r1, (d1, fs1))"
      "dget a ''status'' = PStr s" "s \<noteq> pending_status" for turn a t r1 d1 fs1 s
    using append_result_status(1,3,4)[OF assms(1) that(1)] assms(3) that(2,3) by auto
  have fail: "good_store d1 \<and> map_of (status_by_call (read_session d1 sid)) ?c \<noteq> Some pending_status"
    if "record_failure sid turn x dc (d, []) = (r1, (d1, fs1))" for turn x r1 d1 fs1
    using record_failure_status(1,3)[OF assms(1) that] assms(3) by (simp add: pending_status_def)
  have rejected: "''rejected_by_user'' \<noteq> pending_status" by (simp add: pending_status_def)
  obtain p where p: "find (\<lambda>p. pm_call p = ?c) (list_pending (ce_parse e) (ce_str e) (ce_check e) d sid) = Some p"
    using assms(2) by (cases "find (\<lambda>p. pm_call p = ?c) (list_pending (ce_parse e) (ce_str e) (ce_check e) d sid)")
      (simp_all add: resolve_pending_def)
  show ?thesis
  proof (cases "dc_approve dc")
    case False
    then show ?thesis
      using assms(2) p rejected
      by (auto simp: resolve_pending_def split: prod.splits sum.splits dest!: ok)
  next
    case True
    let ?args = "AList.update ''intent_id'' (PStr ?c)
        (case load_arguments (ce_parse e) (pm_raw p) of Some d \<Rightarrow> d | None \<Rightarrow> [])"
    let ?user = "case dc_user dc of Some u \<Rightarrow> if u \<noteq> [] then u else sid | None \<Rightarrow> sid"
    have run: "approve_pending e sid dc p (d, []) m = (Inr (True, msg), ((d', fs'), m'))"
      using assms(2) p True by (simp add: resolve_pending_def)
    show ?thesis
    proof (cases "memory_propose_validate (ce_str e) (ce_validate e) ?args")
      case (Inl x)
      then show ?thesis using run by (auto simp: approve_pending_def Let_def split: prod.splits dest: fail)
    next
      case (Inr i)
      obtain w m2 where w: "ce_writer e i ?user m = (w, m2)" by fastforce
      show ?thesis
      proof (cases w)
        case (Inl x)
        then show ?thesis using run Inr w by (auto simp: approve_pending_def Let_def split: prod.splits dest: fail)
      next
        case (Inr audit)
        obtain s where s: "dget audit ''status'' = PStr s" "s \<noteq> pending_status" using assms(4) w Inr by blast
        obtain r1 d1 fs1 where a: "append_result sid (pm_turn p) ?c audit None (dc_t1 dc) (dc_u1 dc) (d, []) = (r1, (d1, fs1))"
          by (metis prod.collapse)
        have "d' = d1"
          using run w Inr \<open>memory_propose_validate (ce_str e) (ce_validate e) ?args = Inr i\<close> a ok[OF a s]
          by (auto simp: approve_pending_def Let_def)
        then show ?thesis using ok[OF a s] by simp
      qed
    qed
  qed
qed

section \<open>Properties\<close>

text \<open>
  A proposal is decided once.  After a decision on a pending proposal was recorded, every
  later decision on it, approving or not, answers that it is already resolved and changes
  neither the memory nor the log, whatever decisions on this and other proposals of the
  session ran in between, even with failing appends; so an approved proposal is applied once.
  Names of new records are fresh and the writer's audits do not say pending_confirmation.
\<close>

theorem confirmation_decided_once:
  assumes "good_store d" and "resolve_pending e sid dc ((d, []), m) = (Inr (True, msg), ((d1, fs1), m1))"
    and "\<forall>u \<in> {dc_u1 dc, dc_u2 dc}. ''memory-confirmation-'' @ dc_call dc @ ''-'' @ u \<notin> sr_event ` set (read_session d sid)"
    and "\<forall>i u n audit n'. ce_writer e i u n = (Inr audit, n') \<longrightarrow>
      (\<exists>s. dget audit ''status'' = PStr s \<and> s \<noteq> pending_status)"
    and "dc_call dc' = dc_call dc"
  shows "resolve_pending e sid dc' (resolve_run e sid dcs ((d1, fs), m1)) =
    (Inr (False, ''Confirmation expired or already resolved.''), resolve_run e sid dcs ((d1, fs), m1))"
proof -
  obtain d2 fs2 m2 where run: "resolve_run e sid dcs ((d1, fs), m1) = ((d2, fs2), m2)"
    by (metis prod.collapse)
  have "good_store d1 \<and> map_of (status_by_call (read_session d1 sid)) (dc_call dc') \<noteq> Some pending_status"
    using resolve_decides[OF assms(1-4)] assms(5) by simp
  then have "map_of (status_by_call (read_session d2 sid)) (dc_call dc') \<noteq> Some pending_status"
    using run_other[of d1 sid "dc_call dc'" e dcs fs m1 d2 fs2 m2] run by simp
  then show ?thesis unfolding run by (intro not_pending_resolve) simp
qed

text \<open>An example: the call c of turn t is pending in session s.\<close>

definition demo_call :: session_record where
  "demo_call = \<lparr>sr_session = ''s'', sr_seq = 0, sr_event = ''call'', sr_turn = ''t'', sr_time = 0,
     sr_type = AssistantToolCall, sr_payload = [(''tool_call_id'', PStr ''c''), (''tool_name'', PStr memory_tool),
       (''arguments_json'', PStr ''{}'')]\<rparr>"

definition demo_answer :: session_record where
  "demo_answer = \<lparr>sr_session = ''s'', sr_seq = 1, sr_event = ''answer'', sr_turn = ''t'', sr_time = 0,
     sr_type = ToolResult, sr_payload = [(''tool_call_id'', PStr ''c''), (''tool_name'', PStr memory_tool),
       (''result'', PDict (tool_answer ''pending_confirmation'' [] True))]\<rparr>"

definition demo_pending :: sessions where
  "demo_pending = [(session_path ''s'', fresh_log [demo_call, demo_answer])]"

definition demo_confirm :: "(dict, dict, nat) confirm_env" where
  "demo_confirm = \<lparr>ce_parse = (\<lambda>_. Some (PDict [])), ce_str = (\<lambda>_. []), ce_check = Some,
     ce_validate = Inr, ce_writer = (\<lambda>_ _ n. (Inr [(''status'', PStr ''written'')], Suc n)), ce_os_text = []\<rparr>"

definition demo_decision :: "bool \<Rightarrow> decision" where
  "demo_decision ok = \<lparr>dc_call = ''c'', dc_approve = ok, dc_user = None, dc_t1 = 5, dc_t2 = 6,
     dc_u1 = ''u'', dc_u2 = ''v''\<rparr>"

lemma demo_pending_good: "good_store demo_pending" "read_session demo_pending ''s'' = [demo_call, demo_answer]"
proof -
  have ok: "recs_ok [demo_call, demo_answer]" by code_simp
  then show "good_store demo_pending"
    by (simp add: sessions_wf_def sessions_healthy_def demo_pending_def fresh_log_def log_ok_def log_records_def)
  show "read_session demo_pending ''s'' = [demo_call, demo_answer]"
    using recs_ok_sorted[OF ok] by (simp add: read_session_def read_all_records_def demo_pending_def)
qed


lemma demo_pending_find:
  "find (\<lambda>p. pm_call p = ''c'') (list_pending (\<lambda>_. Some (PDict [])) (\<lambda>_. []) Some demo_pending ''s'') =
     Some \<lparr>pm_session = ''s'', pm_turn = ''t'', pm_call = ''c'',
       pm_proposal = canonicalize_memory_args (\<lambda>_. []) [], pm_raw = ''{}''\<rparr>"
proof -
  have "status_by_call [demo_call, demo_answer] = [(''c'', pending_status)]"
    "memory_call_records [demo_call, demo_answer] = [(''c'', demo_call)]" by code_simp+
  then show ?thesis
    by (simp add: list_pending_def demo_pending_good(2) Let_def pending_of_def load_arguments_def
        map_filter_Cons map_filter_Nil raw_arguments_def demo_call_def dget_or_def)
qed

lemma demo_resolves:
  "\<exists>d1 fs1. resolve_pending demo_confirm ''s'' (demo_decision False) ((demo_pending, []), 0) =
     (Inr (True, ''Memory update rejected.''), ((d1, fs1), 0))"
proof -
  obtain r d1 fs1 where a: "append_result ''s'' ''t'' ''c'' [(''status'', PStr ''rejected_by_user''),
      (''reason'', PStr ''User rejected memory update'')] None 5 ''u'' (demo_pending, []) = (r, (d1, fs1))"
    by (metis prod.collapse)
  have "r = Inr ()" using append_result_status(4)[OF demo_pending_good(1) a] by simp
  then show ?thesis
    using a demo_pending_find by (simp add: resolve_pending_def demo_confirm_def demo_decision_def)
qed

lemma demo_fresh:
  "\<forall>u \<in> {dc_u1 (demo_decision b), dc_u2 (demo_decision b)}.
     ''memory-confirmation-'' @ dc_call (demo_decision b) @ ''-'' @ u \<notin> sr_event ` set (read_session demo_pending ''s'')"
  by (simp add: demo_decision_def demo_pending_good(2) demo_call_def demo_answer_def)

lemma demo_writer_status:
  "\<forall>i u n audit n'. ce_writer demo_confirm i u n = (Inr audit, n') \<longrightarrow>
     (\<exists>s. dget audit ''status'' = PStr s \<and> s \<noteq> pending_status)"
  by (auto simp: demo_confirm_def pending_status_def)

theorem confirmation_decided_once_witness:
  "\<exists>d1 fs1. resolve_pending demo_confirm ''s'' (demo_decision False) ((demo_pending, []), 0) =
      (Inr (True, ''Memory update rejected.''), ((d1, fs1), 0)) \<and>
    fst (resolve_pending demo_confirm ''s'' (demo_decision True) ((d1, []), 0)) =
      Inr (False, ''Confirmation expired or already resolved.'')"
proof -
  obtain d1 fs1 where run: "resolve_pending demo_confirm ''s'' (demo_decision False) ((demo_pending, []), 0) =
      (Inr (True, ''Memory update rejected.''), ((d1, fs1), 0))" using demo_resolves by blast
  have "dc_call (demo_decision True) = dc_call (demo_decision False)" by (simp add: demo_decision_def)
  from confirmation_decided_once[OF demo_pending_good(1) run demo_fresh demo_writer_status this, of "[]" "[]"]
  show ?thesis using run by (auto simp: resolve_run_def)
qed

text \<open>
  An approved update can be reported as failed.  When the memory writer has applied an
  approved proposal and then the append of its result to the session log fails, the handler
  records the status failed and tells the user that the update could not be applied,
  although the memory has changed.
\<close>

theorem confirmation_applied_reported_failed:
  assumes "good_store d" and "dc_approve dc"
    and "find (\<lambda>p. pm_call p = dc_call dc) (list_pending (ce_parse e) (ce_str e) (ce_check e) d sid) = Some p"
    and "memory_propose_validate (ce_str e) (ce_validate e) (AList.update ''intent_id'' (PStr (dc_call dc))
      (case load_arguments (ce_parse e) (pm_raw p) of Some a \<Rightarrow> a | None \<Rightarrow> [])) = Inr i"
    and "ce_writer e i (case dc_user dc of Some u \<Rightarrow> if u \<noteq> [] then u else sid | None \<Rightarrow> sid) m = (Inr audit, m')"
    and "''memory-confirmation-'' @ dc_call dc @ ''-'' @ dc_u2 dc \<notin> sr_event ` set (read_session d sid)"
  shows "\<exists>d' fs. resolve_pending e sid dc ((d, [True]), m) = (Inr (True, apply_failed_text), ((d', fs), m')) \<and>
    map_of (status_by_call (read_session d' sid)) (dc_call dc) = Some ''failed''"
proof -
  have a: "append_result sid (pm_turn p) (dc_call dc) audit None (dc_t1 dc) (dc_u1 dc) (d, [True]) = (Inl OSError, (d, []))"
    by (simp add: append_result_def io_append_fault)
  obtain r d' fs where f: "record_failure sid (pm_turn p) (ce_os_text e) dc (d, []) = (r, (d', fs))"
    by (metis prod.collapse)
  then show ?thesis
    using assms a record_failure_status(3,4)[OF assms(1) f]
    by (simp add: resolve_pending_def approve_pending_def Let_def)
qed

theorem confirmation_applied_reported_failed_witness:
  "\<exists>w. resolve_pending demo_confirm ''s'' (demo_decision True) ((demo_pending, [True]), 0) =
     (Inr (True, apply_failed_text), (w, 1))"
proof -
  let ?p = "\<lparr>pm_session = ''s'', pm_turn = ''t'', pm_call = ''c'',
       pm_proposal = canonicalize_memory_args (\<lambda>_. []) [], pm_raw = ''{}''\<rparr>"
  let ?args = "AList.update ''intent_id'' (PStr (dc_call (demo_decision True)))
    (case load_arguments (ce_parse demo_confirm) (pm_raw ?p) of Some a \<Rightarrow> a | None \<Rightarrow> [])"
  obtain i where "memory_propose_validate (ce_str demo_confirm) (ce_validate demo_confirm) ?args = Inr i"
    by (simp add: memory_propose_validate_def demo_confirm_def Let_def)
  then have "\<exists>d' fs. resolve_pending demo_confirm ''s'' (demo_decision True) ((demo_pending, [True]), 0) =
      (Inr (True, apply_failed_text), ((d', fs), 1)) \<and>
      map_of (status_by_call (read_session d' ''s'')) (dc_call (demo_decision True)) = Some ''failed''"
    using demo_pending_find demo_fresh[of True]
    by (intro confirmation_applied_reported_failed[OF demo_pending_good(1), where p = ?p and i = i
        and audit = "[(''status'', PStr ''written'')]"])
      (simp_all add: demo_confirm_def demo_decision_def)
  then show ?thesis by blast
qed

end
