(* ===== verification/Delegation_Policy.thy ===== *)
theory Delegation_Policy
  imports Task_Store
begin

text \<open>
  Admission of delegated tasks: enqueue_from_tool of subagents/coordinator.py and the policy
  functions it calls.  A request and the tool parameters are JSON values; pstr stands for
  str() on a value that is no string.  int() raises TypeError or ValueError on what has no
  integer value; float values here are rational, so infinities do not occur.  The awaits of
  the method do not suspend (the store's operations are synchronous inside), so the method is
  one step.
\<close>

definition str_of :: "(pyval \<Rightarrow> string) \<Rightarrow> pyval \<Rightarrow> string" where
  "str_of pstr v = (case v of PStr s \<Rightarrow> s | _ \<Rightarrow> pstr v)"

fun py_int_of :: "pyval \<Rightarrow> int option" where
  "py_int_of (PInt i) = Some i"
| "py_int_of (PBool b) = Some (if b then 1 else 0)"
| "py_int_of (PReal q) = Some (if q \<ge> 0 then \<lfloor>q\<rfloor> else - \<lfloor>- q\<rfloor>)"
| "py_int_of (PStr s) = py_int 10 s"
| "py_int_of _ = None"

definition coerce_int :: "pyval \<Rightarrow> int option" where
  "coerce_int v = (case py_int_of v of Some n \<Rightarrow> if n > 0 then Some n else None | None \<Rightarrow> None)"

definition parse_positive_int :: "pyval \<Rightarrow> int option" where
  "parse_positive_int v =
     (case (if v = PNone then None else py_int_of v) of
        Some n \<Rightarrow> if n > 0 then Some n else None | None \<Rightarrow> None)"

text \<open>A field of the tool parameters, None for parameters that are no object.\<close>

definition param :: "pyval \<Rightarrow> string \<Rightarrow> pyval" where
  "param params k = (case params of PDict d \<Rightarrow> dget d k | _ \<Rightarrow> PNone)"

definition stripped_text :: "(pyval \<Rightarrow> string) \<Rightarrow> pyval \<Rightarrow> string" where
  "stripped_text pstr v = (if v = PNone then [] else py_strip (str_of pstr v))"

definition resolve_backend :: "(pyval \<Rightarrow> string) \<Rightarrow> dict \<Rightarrow> string" where
  "resolve_backend pstr req =
     (let b = stripped_text pstr (dget req ''backend'') in if b \<noteq> [] then b else ''claude_code'')"

definition attempted_model_id :: "(pyval \<Rightarrow> string) \<Rightarrow> string \<Rightarrow> dict \<Rightarrow> pyval \<Rightarrow> string" where
  "attempted_model_id pstr default_model req params =
     (let m1 = stripped_text pstr (dget req ''model_id'');
          m2 = (if m1 \<noteq> [] then m1 else stripped_text pstr (param params ''delegation_default_model_id''))
      in if m2 \<noteq> [] then m2 else default_model)"

definition resolve_model_id ::
  "(pyval \<Rightarrow> string) \<Rightarrow> string \<Rightarrow> string list \<Rightarrow> dict \<Rightarrow> pyval \<Rightarrow> string option" where
  "resolve_model_id pstr default_model allowlist req params =
     (let m = attempted_model_id pstr default_model req params
      in if m \<in> set allowlist then Some m else None)"

definition listed :: "(pyval \<Rightarrow> string) \<Rightarrow> string \<Rightarrow> pyval \<Rightarrow> bool" where
  "listed pstr x allow =
     (case allow of PList vs \<Rightarrow> vs = [] \<or> x \<in> set (map (str_of pstr) vs) | _ \<Rightarrow> True)"

definition backend_allowed :: "(pyval \<Rightarrow> string) \<Rightarrow> string \<Rightarrow> pyval \<Rightarrow> bool" where
  "backend_allowed pstr backend params = listed pstr backend (param params ''delegation_allowed_backends'')"

definition model_allowed :: "(pyval \<Rightarrow> string) \<Rightarrow> string \<Rightarrow> pyval \<Rightarrow> bool" where
  "model_allowed pstr model params = listed pstr model (param params ''delegation_model_allowlist'')"

definition int_or :: "int \<Rightarrow> pyval \<Rightarrow> int" where
  "int_or n v = (if v = PNone then n else (case py_int_of v of Some i \<Rightarrow> i | None \<Rightarrow> n))"

definition resolve_ttl_seconds :: "pyval \<Rightarrow> int" where
  "resolve_ttl_seconds params =
     (let ttl = int_or 3600 (param params ''delegation_default_ttl_seconds'');
          max_ttl = int_or ttl (param params ''delegation_max_ttl_seconds'')
      in max (if max_ttl > 0 then min ttl max_ttl else ttl) 1)"

definition resolve_positive :: "dict \<Rightarrow> string \<Rightarrow> pyval \<Rightarrow> string \<Rightarrow> int \<Rightarrow> int" where
  "resolve_positive req k params k' dflt =
     (case parse_positive_int (dget req k) of
        Some n \<Rightarrow> n
      | None \<Rightarrow> (case parse_positive_int (param params k') of Some n \<Rightarrow> n | None \<Rightarrow> dflt))"

definition resolve_max_turns :: "dict \<Rightarrow> pyval \<Rightarrow> int" where
  "resolve_max_turns req params = resolve_positive req ''max_turns'' params ''delegation_default_max_turns'' 8"

definition resolve_timeout_seconds :: "dict \<Rightarrow> pyval \<Rightarrow> int" where
  "resolve_timeout_seconds req params =
     resolve_positive req ''timeout_seconds'' params ''delegation_default_timeout_seconds'' 300"

definition text_value :: "pyval \<Rightarrow> string" where
  "text_value v = (case v of PStr s \<Rightarrow> py_strip s | _ \<Rightarrow> [])"

definition resolve_backend_params :: "dict \<Rightarrow> pyval \<Rightarrow> dict" where
  "resolve_backend_params req params =
     (let bp = (case dget req ''backend_params'' of PDict d \<Rightarrow> d | _ \<Rightarrow> []);
          effort = text_value (param params ''delegation_default_effort'')
      in if text_value (dget bp ''effort'') \<noteq> [] then bp
         else (let bp1 = AList.delete ''effort'' bp
               in if effort \<noteq> [] then AList.update ''effort'' (PStr effort) bp1 else bp1))"

definition delegation :: string where
  "delegation = ''delegation''"

definition delegation_tasks :: "doc dir \<Rightarrow> task_status \<Rightarrow> task_record list" where
  "delegation_tasks d st = filter (\<lambda>t. tk_type t = delegation) (task_list_by_status d st)"

definition open_delegations :: "doc dir \<Rightarrow> nat" where
  "open_delegations d = length (delegation_tasks d Running) + length (delegation_tasks d Pending)"

definition reaches_concurrency_limit :: "doc dir \<Rightarrow> pyval \<Rightarrow> bool" where
  "reaches_concurrency_limit d params =
     (let limit = int_or 0 (param params ''delegation_max_concurrent_tasks'')
      in limit > 0 \<and> int (open_delegations d) \<ge> limit)"

section \<open>Token budget\<close>

definition projected_tokens :: "int \<Rightarrow> pyval \<Rightarrow> int" where
  "projected_tokens max_turns params =
     max max_turns 1 * (case coerce_int (param params ''delegation_estimated_tokens_per_turn'') of
       Some n \<Rightarrow> n | None \<Rightarrow> 2000)"

text \<open>isinstance(x, int) holds for booleans too.\<close>

fun int_instance :: "pyval \<Rightarrow> int option" where
  "int_instance (PInt i) = Some i"
| "int_instance (PBool b) = Some (if b then 1 else 0)"
| "int_instance _ = None"

definition task_token_usage :: "task_record \<Rightarrow> int" where
  "task_token_usage t =
     (let used = (case tk_result t of
            Some r \<Rightarrow> (case dget r ''usage'' of PDict u \<Rightarrow> int_instance (dget u ''total_tokens'') | _ \<Rightarrow> None)
          | None \<Rightarrow> None)
      in case used of
           Some n \<Rightarrow> n
         | None \<Rightarrow> (case int_instance (dget (tk_metadata t) ''projected_tokens'') of Some n \<Rightarrow> n | None \<Rightarrow> 0))"

definition list_all_delegation_tasks :: "doc dir \<Rightarrow> task_record list" where
  "list_all_delegation_tasks d =
     fold (\<lambda>t ts. if tk_type t \<noteq> delegation \<or> tk_id t \<in> set (map tk_id ts) then ts else ts @ [t])
       (concat (map (task_list_by_status d)
          [Pending, Running, TaskCompleted, TaskFailed, TaskCancelled, Expired])) []"

definition recent_usage :: "doc dir \<Rightarrow> time \<Rightarrow> (task_record \<Rightarrow> bool) \<Rightarrow> int" where
  "recent_usage d cutoff P =
     sum_list (map task_token_usage
       (filter (\<lambda>t. tk_updated t \<ge> cutoff \<and> P t) (list_all_delegation_tasks d)))"

definition over_cap :: "pyval \<Rightarrow> string \<Rightarrow> int \<Rightarrow> bool" where
  "over_cap params k n = (case coerce_int (param params k) of Some cap \<Rightarrow> n > cap | None \<Rightarrow> False)"

definition budget_cutoff :: "pyval \<Rightarrow> time \<Rightarrow> time" where
  "budget_cutoff params now =
     now - seconds (case coerce_int (param params ''delegation_budget_window_seconds'') of
       Some n \<Rightarrow> n | None \<Rightarrow> 86400)"

definition check_budget :: "doc dir \<Rightarrow> string \<Rightarrow> int \<Rightarrow> pyval \<Rightarrow> time \<Rightarrow> string option \<times> int" where
  "check_budget d sid max_turns params now =
     (let projected = projected_tokens max_turns params;
          cutoff = budget_cutoff params now
      in if projected \<le> 0 then (None, projected)
         else if over_cap params ''delegation_per_task_token_cap'' projected
         then (Some ''task token budget exceeded'', projected)
         else if over_cap params ''delegation_per_session_token_cap''
             (recent_usage d cutoff (\<lambda>t. tk_session t = Some sid) + projected)
         then (Some ''session token budget exceeded'', projected)
         else if over_cap params ''delegation_global_token_cap'' (recent_usage d cutoff (\<lambda>_. True) + projected)
         then (Some ''global token budget exceeded'', projected)
         else (None, projected))"


section \<open>Admission\<close>

text \<open>The coordinator's configuration: backends, the models of the runtime and the uuid.\<close>

record enqueue_env =
  qe_str :: "pyval \<Rightarrow> string"
  qe_backends :: "string list"
  qe_default_model :: string
  qe_allowlist :: "string list"
  qe_hex12 :: string

definition accept_result :: "bool \<Rightarrow> string \<Rightarrow> string \<Rightarrow> string option \<Rightarrow> time option \<Rightarrow> dict" where
  "accept_result accepted task_id status reason expires =
     [(''accepted'', PBool accepted), (''task_id'', PStr task_id), (''status'', PStr status),
      (''rejection_reason'', of_opt PStr reason), (''expires_at'', of_opt PTime expires)]"

definition rejected :: "string \<Rightarrow> string \<Rightarrow> dict" where
  "rejected status reason = accept_result False [] status (Some reason) None"

definition chat_id_from_session :: "string \<Rightarrow> int option" where
  "chat_id_from_session sid =
     (case split_on colon sid of
        h # x # _ \<Rightarrow> if h = ''tg'' then py_int 10 x else None
      | _ \<Rightarrow> None)"

definition pending_question_key :: "string \<Rightarrow> string" where
  "pending_question_key sid =
     (case split_on colon sid of
        h # x # _ \<Rightarrow> if h = ''tg'' then x else sid
      | _ \<Rightarrow> sid)"

definition delegation_metadata ::
  "enqueue_env \<Rightarrow> dict \<Rightarrow> pyval \<Rightarrow> string \<Rightarrow> string \<Rightarrow> string \<Rightarrow> string \<Rightarrow> string option \<Rightarrow> int \<Rightarrow> dict" where
  "delegation_metadata e req params objective model sid trace user projected =
     [(''kind'', PStr delegation), (''backend'', PStr (resolve_backend (qe_str e) req)),
      (''objective'', PStr objective), (''model_id'', PStr model),
      (''max_turns'', PInt (resolve_max_turns req params)),
      (''timeout_seconds'', PInt (resolve_timeout_seconds req params)),
      (''requested_by_user_id'', of_opt PStr user), (''trace_id'', PStr trace),
      (''chat_id'', of_opt PInt (chat_id_from_session sid)), (''projected_tokens'', PInt projected),
      (''backend_params'', PDict (resolve_backend_params req params))]
     @ (case dget req ''logfire_context'' of
          PDict c \<Rightarrow> if c \<noteq> [] then [(''logfire_context'', PDict c)] else []
        | _ \<Rightarrow> [])"

definition quoted :: "string \<Rightarrow> string" where
  "quoted s = CHR 0x27 # s @ [CHR 0x27]"

text \<open>The checks in their order; Inr has the model and the projected tokens.\<close>

definition admission_check ::
  "enqueue_env \<Rightarrow> string \<Rightarrow> dict \<Rightarrow> time \<Rightarrow> doc dir \<Rightarrow> dict + (string \<times> int)" where
  "admission_check e sid req now d =
     (let params = dget_or req ''tool_params'' (PDict []);
          objective = py_strip (str_of (qe_str e) (dget_or req ''objective'' (PStr [])));
          backend = resolve_backend (qe_str e) req
      in if objective = [] then Inl (rejected ''rejected_invalid'' ''objective is required'')
         else if backend \<notin> set (qe_backends e)
         then Inl (rejected ''rejected_invalid'' (''backend '' @ quoted backend @ '' is not available''))
         else (case resolve_model_id (qe_str e) (qe_default_model e) (qe_allowlist e) req params of
                 None \<Rightarrow> Inl (rejected ''rejected_policy''
                   (''model_id '' @ quoted (attempted_model_id (qe_str e) (qe_default_model e) req params)
                     @ '' is not allowed''))
               | Some model \<Rightarrow>
                   if \<not> backend_allowed (qe_str e) backend params
                   then Inl (rejected ''rejected_policy''
                     (''backend '' @ quoted backend @ '' is not in delegation_allowed_backends''))
                   else if \<not> model_allowed (qe_str e) model params
                   then Inl (rejected ''rejected_policy'' ''model_id is not in delegation_model_allowlist'')
                   else if reaches_concurrency_limit d params
                   then Inl (rejected ''rejected_policy'' ''max concurrent delegation tasks reached'')
                   else (case check_budget d sid (resolve_max_turns req params) params now of
                           (Some reason, _) \<Rightarrow> Inl (rejected ''rejected_policy'' reason)
                         | (None, projected) \<Rightarrow> Inr (model, projected))))"

definition delegated_task ::
  "enqueue_env \<Rightarrow> string \<Rightarrow> string \<Rightarrow> string \<Rightarrow> string option \<Rightarrow> dict \<Rightarrow> time \<Rightarrow> string \<Rightarrow> int \<Rightarrow> task_record" where
  "delegated_task e sid turn trace user req now model projected =
     (let params = dget_or req ''tool_params'' (PDict []);
          ttl = resolve_ttl_seconds params;
          objective = py_strip (str_of (qe_str e) (dget_or req ''objective'' (PStr [])))
      in \<lparr>tk_id = (if truthy (dget req ''task_id'') then str_of (qe_str e) (dget req ''task_id'')
                   else ''dlg-'' @ qe_hex12 e),
          tk_session = Some sid, tk_turn = Some turn, tk_type = delegation, tk_status = Pending,
          tk_created = now, tk_updated = now, tk_started = None, tk_completed = None, tk_heartbeat = None,
          tk_ttl = Some ttl, tk_expires = Some (now + seconds ttl), tk_result = None, tk_error = None,
          tk_metadata = delegation_metadata e req params objective model sid trace user projected\<rparr>)"

text \<open>c1 is the clock of the budget check, c2 that of the task.\<close>

definition enqueue_from_tool ::
  "enqueue_env \<Rightarrow> string \<Rightarrow> string \<Rightarrow> string \<Rightarrow> string option \<Rightarrow> dict \<Rightarrow> time \<Rightarrow> time \<Rightarrow> doc dir
    \<Rightarrow> (exn + dict) \<times> doc dir" where
  "enqueue_from_tool e sid turn trace user req c1 c2 d =
     (case admission_check e sid req c1 d of
        Inl answer \<Rightarrow> (Inr answer, d)
      | Inr (model, projected) \<Rightarrow>
          (let t = delegated_task e sid turn trace user req c2 model projected
           in case task_create d t of
                (Inl x, d') \<Rightarrow> (Inl x, d')
              | (Inr _, d') \<Rightarrow> (Inr (accept_result True (tk_id t) (status_value Pending) None (tk_expires t)), d')))"


section \<open>Properties\<close>

lemma create_lists:
  assumes "task_create d t = (Inr t', d')"
  shows "t' = t" "task_list_by_status d' st = task_list_by_status d st @ (if tk_status t = st then [t] else [])"
    "task_get d' i = (if task_path (tk_id t) = task_path i then Some t else task_get d i)"
proof -
  have new: "map_of d (task_path (tk_id t)) = None" and d': "d' = task_write d (tk_id t) t" and "t' = t"
    using assms by (auto simp: task_create_def file_exists_def split: if_splits)
  then show "t' = t" "task_get d' i = (if task_path (tk_id t) = task_path i then Some t else task_get d i)"
    by (auto simp: store_simps)
  have "AList.update (task_path (tk_id t)) (Obj (serialize_task t)) d = d @ [(task_path (tk_id t), Obj (serialize_task t))]"
    using new by (induction d) (auto split: if_splits)
  moreover have "task_entry (task_path (tk_id t), Obj (serialize_task t)) = Some t" by (simp add: task_entry_def)
  ultimately show "task_list_by_status d' st = task_list_by_status d st @ (if tk_status t = st then [t] else [])"
    by (simp add: d' task_write_def write_rec_def task_list_by_status_def map_filter_Cons map_filter_Nil)
qed

lemma admission_inr:
  assumes "admission_check e sid req now d = Inr (model, projected)"
  defines "params \<equiv> dget_or req ''tool_params'' (PDict [])"
  shows "resolve_backend (qe_str e) req \<in> set (qe_backends e)"
    "backend_allowed (qe_str e) (resolve_backend (qe_str e) req) params"
    "model \<in> set (qe_allowlist e)" "model_allowed (qe_str e) model params"
    "\<not> reaches_concurrency_limit d params"
    "check_budget d sid (resolve_max_turns req params) params now = (None, projected)"
  using assms(1) unfolding params_def[symmetric] admission_check_def
  by (auto simp: Let_def resolve_model_id_def split: if_splits option.splits prod.splits)

lemma resolve_ttl_bounds:
  "1 \<le> resolve_ttl_seconds params \<and>
   (coerce_int (param params ''delegation_max_ttl_seconds'') = Some m \<longrightarrow> resolve_ttl_seconds params \<le> m)"
  by (auto simp: resolve_ttl_seconds_def coerce_int_def int_or_def Let_def split: option.splits if_splits)

lemma projected_positive: "projected_tokens n params > 0"
  by (auto simp: projected_tokens_def coerce_int_def split: option.split if_splits)

lemma check_budget_ok:
  assumes "check_budget d sid n params now = (None, projected)"
  shows "projected = projected_tokens n params"
    "coerce_int (param params ''delegation_per_task_token_cap'') = Some cap \<Longrightarrow> projected \<le> cap"
    "coerce_int (param params ''delegation_per_session_token_cap'') = Some cap \<Longrightarrow>
       recent_usage d (budget_cutoff params now) (\<lambda>t. tk_session t = Some sid) + projected \<le> cap"
    "coerce_int (param params ''delegation_global_token_cap'') = Some cap \<Longrightarrow>
       recent_usage d (budget_cutoff params now) (\<lambda>_. True) + projected \<le> cap"
  using assms projected_positive[of n params]
  by (auto simp: check_budget_def Let_def over_cap_def split: if_splits)

text \<open>
  C4: a delegated task is admitted only within the policy.  When enqueue accepts a request, the
  backend is registered and allowed, the model is on the runtime's list and on the tool's, at
  most limit delegated tasks are open afterwards, the task's projected tokens with those used
  in the window stay within the task, session and global caps that are set, and exactly one
  task is new: pending, with a time to live of at least a second that the set maximum bounds.
  A request that is not accepted leaves the tasks as they are.
\<close>

theorem delegation_admission:
  assumes "enqueue_from_tool e sid turn trace user req c1 c2 d = (r, d')"
  defines "params \<equiv> dget_or req ''tool_params'' (PDict [])"
  shows "if \<exists>a. r = Inr a \<and> dget a ''accepted'' = PBool True then
    (\<exists>t. resolve_backend (qe_str e) req \<in> set (qe_backends e) \<and>
      backend_allowed (qe_str e) (resolve_backend (qe_str e) req) params \<and>
      (\<exists>m \<in> set (qe_allowlist e). model_allowed (qe_str e) m params \<and> dget (tk_metadata t) ''model_id'' = PStr m) \<and>
      (int_or 0 (param params ''delegation_max_concurrent_tasks'') > 0 \<longrightarrow>
        int (open_delegations d') \<le> int_or 0 (param params ''delegation_max_concurrent_tasks'')) \<and>
      task_token_usage t = projected_tokens (resolve_max_turns req params) params \<and>
      (\<forall>cap. coerce_int (param params ''delegation_per_task_token_cap'') = Some cap \<longrightarrow> task_token_usage t \<le> cap) \<and>
      (\<forall>cap. coerce_int (param params ''delegation_per_session_token_cap'') = Some cap \<longrightarrow>
        recent_usage d (budget_cutoff params c1) (\<lambda>t. tk_session t = Some sid) + task_token_usage t \<le> cap) \<and>
      (\<forall>cap. coerce_int (param params ''delegation_global_token_cap'') = Some cap \<longrightarrow>
        recent_usage d (budget_cutoff params c1) (\<lambda>_. True) + task_token_usage t \<le> cap) \<and>
      tk_status t = Pending \<and> tk_session t = Some sid \<and> (\<exists>ttl. tk_expires t = Some (c2 + seconds ttl) \<and> 1 \<le> ttl \<and>
        (\<forall>m. coerce_int (param params ''delegation_max_ttl_seconds'') = Some m \<longrightarrow> ttl \<le> m)) \<and>
      (\<forall>i. task_get d' i = (if task_path (tk_id t) = task_path i then Some t else task_get d i)))
    else d' = d"
proof (cases "admission_check e sid req c1 d")
  case (Inl answer)
  then have "dget answer ''accepted'' = PBool False"
    by (auto simp: admission_check_def Let_def rejected_def accept_result_def split: if_splits option.splits prod.splits)
  then show ?thesis using assms(1) Inl by (auto simp: enqueue_from_tool_def)
next
  case (Inr mp)
  obtain model projected where mp: "mp = (model, projected)" by fastforce
  let ?t = "delegated_task e sid turn trace user req c2 model projected"
  note adm = admission_inr[OF Inr[unfolded mp], folded params_def]
  note bud = check_budget_ok[OF adm(6)]
  have t: "tk_status ?t = Pending" "tk_session ?t = Some sid" "tk_type ?t = delegation"
    "tk_expires ?t = Some (c2 + seconds (resolve_ttl_seconds params))"
    "dget (tk_metadata ?t) ''model_id'' = PStr model" "task_token_usage ?t = projected"
    by (simp_all add: delegated_task_def Let_def params_def delegation_metadata_def task_token_usage_def dget_def)
  show ?thesis
  proof (cases "task_create d ?t")
    case (Pair c d1)
    show ?thesis
    proof (cases c)
      case (Inl x)
      then have "d1 = d" using Pair by (auto simp: task_create_def split: if_splits)
      then show ?thesis using assms(1) \<open>admission_check e sid req c1 d = Inr mp\<close> mp Pair Inl
        by (auto simp: enqueue_from_tool_def Let_def)
    next
      case (Inr t')
      note cl = create_lists[OF Pair[unfolded Inr]]
      have d': "d' = d1" "\<exists>a. r = Inr a \<and> dget a ''accepted'' = PBool True"
        using assms(1) \<open>admission_check e sid req c1 d = Inr mp\<close> mp Pair Inr
        by (auto simp: enqueue_from_tool_def Let_def accept_result_def)
      have count: "open_delegations d1 = open_delegations d + 1"
        by (simp add: open_delegations_def delegation_tasks_def cl(2) t(1,3))
      have limit: "int_or 0 (param params ''delegation_max_concurrent_tasks'') > 0 \<longrightarrow>
          int (open_delegations d1) \<le> int_or 0 (param params ''delegation_max_concurrent_tasks'')"
        using adm(5) by (auto simp: reaches_concurrency_limit_def Let_def count)
      show ?thesis
        unfolding if_P[OF d'(2)] d'(1)
        by (intro exI[of _ ?t] conjI) (use adm bud limit t cl(3) resolve_ttl_bounds[of params] in \<open>auto simp: t\<close>)
    qed
  qed
qed


definition demo_enqueue_env :: enqueue_env where
  "demo_enqueue_env = \<lparr>qe_str = (\<lambda>_. []), qe_backends = [''claude_code''], qe_default_model = ''m'',
     qe_allowlist = [''m''], qe_hex12 = ''1''\<rparr>"

definition demo_enqueue :: "(exn + dict) \<times> doc dir" where
  "demo_enqueue = enqueue_from_tool demo_enqueue_env ''s'' ''t'' ''r'' None
     [(''objective'', PStr ''x''), (''tool_params'', PDict [(''delegation_max_concurrent_tasks'', PInt 1)])] 0 0 []"

theorem delegation_admission_witness:
  "\<exists>i t. task_get (snd demo_enqueue) i = Some t \<and> tk_status t = Pending \<and> open_delegations (snd demo_enqueue) \<le> 1"
proof -
  let ?req = "[(''objective'', PStr ''x''), (''tool_params'', PDict [(''delegation_max_concurrent_tasks'', PInt 1)])]"
  have run: "enqueue_from_tool demo_enqueue_env ''s'' ''t'' ''r'' None ?req 0 0 [] = (fst demo_enqueue, snd demo_enqueue)"
    by (simp add: demo_enqueue_def)
  have limit: "int_or 0 (param (dget_or ?req ''tool_params'' (PDict [])) ''delegation_max_concurrent_tasks'') = 1"
    by (simp add: int_or_def param_def)
  have "case fst demo_enqueue of Inr a \<Rightarrow> dget a ''accepted'' = PBool True | Inl _ \<Rightarrow> False" by code_simp
  then have ok: "\<exists>a. fst demo_enqueue = Inr a \<and> dget a ''accepted'' = PBool True" by (simp split: sum.splits)
  from delegation_admission[OF run] limit show ?thesis unfolding if_P[OF ok] by auto
qed

end
