(* ===== verification/Delegation.thy ===== *)
theory Delegation
  imports Delegation_Policy
begin

text \<open>
  The delegation coordinator of subagents/coordinator.py as a state machine: the polling loop,
  the workers, cancellation and the recovery after a restart.  A worker is claimed (its
  asyncio task exists but has not run), executing (it awaits backend.execute) or finished.
  The code between two awaits that can suspend is one step; the backend is a parameter that
  gives the result of a run.  A cancelled worker ends at its await with CancelledError.
\<close>

datatype phase = Claimed | Executing | Finished

record coordinator =
  co_tasks :: "doc dir"
  co_inflight :: "(string \<times> phase) list"
  co_sent :: "task_record list"

definition live_workers :: "(string \<times> phase) list \<Rightarrow> (string \<times> phase) list" where
  "live_workers ws = filter (\<lambda>w. snd w \<noteq> Finished) ws"

text \<open>The loop over the pending tasks, while slots are free.\<close>

fun claim_loop :: "nat \<Rightarrow> (string \<times> phase) list \<Rightarrow> task_record list \<Rightarrow> (string \<times> phase) list" where
  "claim_loop slots ws [] = ws"
| "claim_loop slots ws (t # ts) =
     (if slots = 0 then ws
      else if tk_type t \<noteq> delegation \<or> tk_id t \<in> fst ` set ws then claim_loop slots ws ts
      else claim_loop (slots - 1) (ws @ [(tk_id t, Claimed)]) ts)"

definition poll :: "nat \<Rightarrow> coordinator \<Rightarrow> coordinator" where
  "poll max_workers c =
     (let ws = live_workers (co_inflight c)
      in c\<lparr>co_inflight := claim_loop (max_workers - length ws) ws (task_list_by_status (co_tasks c) Pending)\<rparr>)"

definition set_phase :: "string \<Rightarrow> phase \<Rightarrow> coordinator \<Rightarrow> coordinator" where
  "set_phase i p c = c\<lparr>co_inflight := map (\<lambda>w. if fst w = i then (i, p) else w) (co_inflight c)\<rparr>"

text \<open>A status change of the worker and, when the task was found, the completion callback.\<close>

definition settle ::
  "string \<Rightarrow> task_status \<Rightarrow> string option \<Rightarrow> dict option \<Rightarrow> time \<Rightarrow> bool \<Rightarrow> coordinator \<Rightarrow> coordinator" where
  "settle i st err res now notify c =
     (case task_update_status (co_tasks c) i st err res now of
        (None, d) \<Rightarrow> c\<lparr>co_tasks := d\<rparr>
      | (Some t, d) \<Rightarrow> c\<lparr>co_tasks := d, co_sent := (if notify then co_sent c @ [t] else co_sent c)\<rparr>)"

definition backend_of :: "(pyval \<Rightarrow> string) \<Rightarrow> task_record \<Rightarrow> string" where
  "backend_of pstr t = py_strip (str_of pstr (dget_or (tk_metadata t) ''backend'' (PStr [])))"

text \<open>
  Whether the run handed to the backend can be made: int() of the stored limits, and the bounds of
  DelegationRun.  When not, an exception ends the worker.
\<close>

definition limit_at_least_one :: "pyval \<Rightarrow> bool" where
  "limit_at_least_one v = (case py_int_of v of Some n \<Rightarrow> 1 \<le> n | None \<Rightarrow> False)"

definition run_limits :: "task_record \<Rightarrow> bool" where
  "run_limits t =
     (limit_at_least_one (dget_or (tk_metadata t) ''timeout_seconds'' (PInt 300))
      \<and> limit_at_least_one (dget_or (tk_metadata t) ''max_turns'' (PInt 8)))"

text \<open>
  The first step of a worker: it looks the task up, fails it when its backend is not
  registered, marks it running, looks again whether it was cancelled, and starts the backend.
  Making the run is outside the try statement, so a worker that fails there leaves its task running.
\<close>

definition begin_task :: "(pyval \<Rightarrow> string) \<Rightarrow> string list \<Rightarrow> string \<Rightarrow> time \<Rightarrow> time \<Rightarrow> coordinator \<Rightarrow> coordinator" where
  "begin_task pstr backends i t1 t2 c =
     (case task_get (co_tasks c) i of
        None \<Rightarrow> set_phase i Finished c
      | Some t \<Rightarrow>
          if backend_of pstr t \<notin> set backends
          then set_phase i Finished (settle (tk_id t) TaskFailed
            (Some (''backend '' @ quoted (backend_of pstr t) @ '' unavailable'')) None t1 True c)
          else
            (let c1 = settle (tk_id t) Running None None t1 False c;
                 c2 = c1\<lparr>co_tasks := snd (task_heartbeat (co_tasks c1) (tk_id t) t2)\<rparr>
             in if (case task_get (co_tasks c1) (tk_id t) of Some t' \<Rightarrow> tk_status t' = TaskCancelled | None \<Rightarrow> False)
                then set_phase i Finished c1
                else set_phase i (if run_limits t then Executing else Finished) c2))"

datatype run_outcome =
    BackendOk string dict dict
  | BackendFailed "string option" dict dict
  | BackendCrashed string

definition finish_task :: "string \<Rightarrow> run_outcome \<Rightarrow> time \<Rightarrow> coordinator \<Rightarrow> coordinator" where
  "finish_task i oc now c =
     set_phase i Finished (case oc of
        BackendOk summary usage artifacts \<Rightarrow>
          settle i TaskCompleted None (Some [(''summary'', PStr summary), (''usage'', PDict usage),
            (''artifacts'', PDict artifacts)]) now True c
      | BackendFailed err usage artifacts \<Rightarrow>
          settle i TaskFailed (Some (case err of Some x \<Rightarrow> if x \<noteq> [] then x else ''delegation run failed''
              | None \<Rightarrow> ''delegation run failed''))
            (Some [(''usage'', PDict usage), (''artifacts'', PDict artifacts)]) now True c
      | BackendCrashed x \<Rightarrow> settle i TaskFailed (Some (''backend crashed: '' @ x)) None now True c)"

text \<open>CancelledError at the worker's await, requested by cancel_task or not.\<close>

definition abort_worker :: "string \<Rightarrow> bool \<Rightarrow> time \<Rightarrow> coordinator \<Rightarrow> coordinator" where
  "abort_worker i requested now c =
     (case map_of (co_inflight c) i of
        Some Executing \<Rightarrow>
          set_phase i Finished (settle i (if requested then TaskCancelled else TaskFailed)
            (Some (if requested then ''Cancelled by user'' else ''cancelled'')) None now False c)
      | Some Claimed \<Rightarrow> set_phase i Finished c
      | _ \<Rightarrow> c)"

definition get_task :: "doc dir \<Rightarrow> string \<Rightarrow> string option \<Rightarrow> task_record option" where
  "get_task d i sid =
     (case task_get d i of
        None \<Rightarrow> None
      | Some t \<Rightarrow> if sid \<noteq> None \<and> tk_session t \<noteq> sid then None else Some t)"

definition cancel_task ::
  "string \<Rightarrow> string option \<Rightarrow> time \<Rightarrow> time \<Rightarrow> coordinator \<Rightarrow> task_record option \<times> coordinator" where
  "cancel_task i sid t1 t2 c =
     (case get_task (co_tasks c) i sid of
        None \<Rightarrow> (None, c)
      | Some t \<Rightarrow>
          if tk_status t \<in> set terminal_statuses then (Some t, c)
          else
            (let c1 = abort_worker i True t1 c
             in case task_get (co_tasks c1) i of
                  None \<Rightarrow> (None, c1)
                | Some f \<Rightarrow>
                    if tk_status f \<in> set terminal_statuses then (Some f, c1)
                    else (case task_update_status (co_tasks c1) i TaskCancelled (Some ''Cancelled by user'') None t2 of
                            (r, d) \<Rightarrow> (r, c1\<lparr>co_tasks := d\<rparr>))))"

definition recover_inflight :: "time \<Rightarrow> coordinator \<Rightarrow> coordinator" where
  "recover_inflight now c =
     fold (\<lambda>t c. settle (tk_id t) TaskFailed (Some ''Task interrupted by process restart'') None now False c)
       (delegation_tasks (co_tasks c) Running) c"

text \<open>A crash of the process forgets the workers; start recovers before it polls again.\<close>

definition restart :: "time \<Rightarrow> coordinator \<Rightarrow> coordinator" where
  "restart now c = recover_inflight now (c\<lparr>co_inflight := []\<rparr>)"

section \<open>Logs and questions\<close>

text \<open>f is the content of the task's activity log.\<close>

definition read_log_lines :: "string option \<Rightarrow> int \<Rightarrow> string list" where
  "read_log_lines f n = read_log_tail f (nat (max 1 (min n 2000)))"

definition read_task_log ::
  "doc dir \<Rightarrow> (string \<Rightarrow> string option) \<Rightarrow> string \<Rightarrow> string option \<Rightarrow> int \<Rightarrow> dict option" where
  "read_task_log d logs i sid n =
     (case get_task d i sid of
        None \<Rightarrow> None
      | Some t \<Rightarrow> Some [(''task_id'', PStr i), (''status'', PStr (status_value (tk_status t))),
          (''lines'', PList (map PStr (read_log_lines (logs (task_log_path i)) n)))])"

text \<open>
  Questions of a running task to the user: one future per question, and the table of the
  question that waits in a chat.  ask runs after the question was sent, settle_question when
  the wait ended with an answer or a time-out.
\<close>

record relay =
  rl_pending :: "(string \<times> nat) list"
  rl_answers :: "(nat \<times> string) list"

definition ask_question :: "string \<Rightarrow> nat \<Rightarrow> relay \<Rightarrow> relay" where
  "ask_question sid future r = r\<lparr>rl_pending := AList.update (pending_question_key sid) future (rl_pending r)\<rparr>"

definition has_pending_question :: "string \<Rightarrow> relay \<Rightarrow> bool" where
  "has_pending_question sid r = (map_of (rl_pending r) (pending_question_key sid) \<noteq> None)"

definition submit_delegation_answer :: "string \<Rightarrow> string \<Rightarrow> relay \<Rightarrow> bool \<times> relay" where
  "submit_delegation_answer sid answer r =
     (case map_of (rl_pending r) (pending_question_key sid) of
        None \<Rightarrow> (False, r)
      | Some f \<Rightarrow>
          if map_of (rl_answers r) f = None then (True, r\<lparr>rl_answers := AList.update f answer (rl_answers r)\<rparr>)
          else (False, r))"

definition settle_question :: "string \<Rightarrow> nat \<Rightarrow> relay \<Rightarrow> string \<times> relay" where
  "settle_question sid future r =
     ((case map_of (rl_answers r) future of Some a \<Rightarrow> a | None \<Rightarrow> []),
      r\<lparr>rl_pending := AList.delete (pending_question_key sid) (rl_pending r)\<rparr>)"

section \<open>Tasks by their identifier\<close>

text \<open>Every task file is named after its task, and own d i t says that t is the task i.\<close>

definition tasks_named :: "doc dir \<Rightarrow> bool" where
  "tasks_named d = (dir_ok d \<and> list_all (\<lambda>e. case task_entry e of None \<Rightarrow> True | Some t \<Rightarrow> fst e = task_path (tk_id t)) d)"

definition own :: "doc dir \<Rightarrow> string \<Rightarrow> task_record \<Rightarrow> bool" where
  "own d i t = (task_get d i = Some t \<and> tk_id t = i)"

lemma named_write:
  assumes "tasks_named d" and "tk_id t = i"
  shows "tasks_named (task_write d i t)"
proof -
  have "task_entry (task_path i, Obj (serialize_task t)) = Some t" by (simp add: task_entry_def)
  then have "list_all (\<lambda>e. case task_entry e of None \<Rightarrow> True | Some t \<Rightarrow> fst e = task_path (tk_id t))
      (AList.update (task_path i) (Obj (serialize_task t)) d)"
    using assms unfolding tasks_named_def by (induction d) (auto simp: dir_ok_def)
  then show ?thesis
    using assms(1) by (simp add: tasks_named_def task_write_def write_rec_def dir_ok_def distinct_update)
qed

lemma listed_own:
  assumes "tasks_named d"
  shows "t \<in> set (task_list_by_status d st) \<longleftrightarrow> own d (tk_id t) t \<and> tk_status t = st"
proof
  assume "t \<in> set (task_list_by_status d st)"
  then obtain n x where e: "(n, x) \<in> set d" "task_entry (n, x) = Some t" "tk_status t = st"
    by (auto simp: task_list_by_status_def List.map_filter_def)
  then have n: "n = task_path (tk_id t)" using assms by (fastforce simp: tasks_named_def list_all_iff)
  have "map_of d n = Some x" using e(1) assms by (simp add: tasks_named_def dir_ok_def)
  then show "own d (tk_id t) t \<and> tk_status t = st" using e n by (simp add: own_def task_get_entry)
next
  assume "own d (tk_id t) t \<and> tk_status t = st"
  then show "t \<in> set (task_list_by_status d st)"
    by (force simp: own_def task_get_entry task_list_by_status_def List.map_filter_def bind_eq_Some_conv
        dest: map_of_SomeD)
qed

lemma listed_distinct:
  assumes "tasks_named d"
  shows "distinct (map tk_id (task_list_by_status d st))"
proof -
  have "distinct (map tk_id (filter (\<lambda>t. tk_status t = st) (List.map_filter task_entry d))) \<and>
      (\<forall>t \<in> set (List.map_filter task_entry d). task_path (tk_id t) \<in> fst ` set d)"
    using assms unfolding tasks_named_def dir_ok_def
    by (induction d) (fastforce simp: map_filter_Cons map_filter_Nil split: option.splits)+
  then show ?thesis by (simp add: task_list_by_status_def)
qed

lemma own_write_other:
  assumes "own d i t" and "own d j u" and "i \<noteq> j"
  shows "own (task_write d i t') j u"
proof (cases "task_path i = task_path j")
  case True
  then have "task_get d j = task_get d i" by (simp add: task_get_def read_rec_def)
  then show ?thesis using assms by (simp add: own_def)
next
  case False
  then show ?thesis using assms(2) by (simp add: own_def task_get_write)
qed

lemma terminal_write_other:
  assumes "own d i t" and "tk_status t \<notin> set terminal_statuses"
    and "task_get d j = Some u" and "tk_status u \<in> set terminal_statuses"
  shows "task_get (task_write d i t') j = Some u"
proof (cases "task_path i = task_path j")
  case True
  then have "task_get d j = task_get d i" by (simp add: task_get_def read_rec_def)
  then show ?thesis using assms by (simp add: own_def)
qed (simp add: task_get_write assms(3))


section \<open>The invariant\<close>

definition worker_ok :: "doc dir \<Rightarrow> string \<times> phase \<Rightarrow> bool" where
  "worker_ok d w =
     (case snd w of
        Claimed \<Rightarrow> \<exists>t. own d (fst w) t \<and> tk_type t = delegation \<and> tk_status t = Pending
      | Executing \<Rightarrow> \<exists>t. own d (fst w) t \<and> tk_type t = delegation \<and> tk_status t = Running \<and> run_limits t
      | Finished \<Rightarrow> True)"

definition sent_ok :: "coordinator \<Rightarrow> bool" where
  "sent_ok c = (distinct (map tk_id (co_sent c)) \<and>
     list_all (\<lambda>s. \<exists>t. own (co_tasks c) (tk_id s) t \<and> tk_status t \<in> set terminal_statuses) (co_sent c))"

definition base_ok :: "nat \<Rightarrow> coordinator \<Rightarrow> bool" where
  "base_ok n c = (tasks_named (co_tasks c) \<and> distinct (map fst (co_inflight c)) \<and>
     length (live_workers (co_inflight c)) \<le> n \<and> list_all (worker_ok (co_tasks c)) (co_inflight c) \<and> sent_ok c)"

definition no_ghosts :: "coordinator \<Rightarrow> bool" where
  "no_ghosts c = (\<forall>i t. own (co_tasks c) i t \<and> tk_type t = delegation \<and> tk_status t = Running \<and> run_limits t
     \<longrightarrow> (i, Executing) \<in> set (co_inflight c))"

definition limits_ok :: "doc dir \<Rightarrow> bool" where
  "limits_ok d = (\<forall>i t. own d i t \<and> tk_type t = delegation \<longrightarrow> run_limits t)"

text \<open>Settled tasks stay, and good limits stay good.\<close>

definition keeps_terminal :: "doc dir \<Rightarrow> doc dir \<Rightarrow> bool" where
  "keeps_terminal d d' = ((\<forall>i t. task_get d i = Some t \<and> tk_status t \<in> set terminal_statuses \<longrightarrow> task_get d' i = Some t)
     \<and> (limits_ok d \<longrightarrow> limits_ok d'))"

lemma keeps_refl [simp]: "keeps_terminal d d"
  by (simp add: keeps_terminal_def)

lemma keeps_trans: "keeps_terminal a b \<Longrightarrow> keeps_terminal b c \<Longrightarrow> keeps_terminal a c"
  by (simp add: keeps_terminal_def)

lemma set_phase_simps [simp]:
  "co_tasks (set_phase i p c) = co_tasks c" "co_sent (set_phase i p c) = co_sent c"
  "map fst (co_inflight (set_phase i p c)) = map fst (co_inflight c)"
  by (simp_all add: set_phase_def)

lemma live_set_phase:
  assumes "p = Finished \<or> (i, Claimed) \<in> set (co_inflight c) \<or> (i, Executing) \<in> set (co_inflight c)"
    and "distinct (map fst (co_inflight c))"
  shows "length (live_workers (co_inflight (set_phase i p c))) \<le> length (live_workers (co_inflight c))"
proof -
  have "length (filter (\<lambda>w. snd w \<noteq> Finished) (map (\<lambda>w. if fst w = i then (i, p) else w) ws))
      \<le> length (filter (\<lambda>w. snd w \<noteq> Finished) ws)"
    if "p = Finished \<or> (\<forall>w \<in> set ws. fst w = i \<longrightarrow> snd w \<noteq> Finished)" for ws :: "(string \<times> phase) list"
    using that by (induction ws) auto
  moreover have "p = Finished \<or> (\<forall>w \<in> set (co_inflight c). fst w = i \<longrightarrow> snd w \<noteq> Finished)"
    using assms by (auto dest: eq_key_imp_eq_value)
  ultimately show ?thesis by (simp add: live_workers_def set_phase_def)
qed

text \<open>One write to a task that is not in a final status, with the new phase of its worker.\<close>

lemma write_step:
  assumes "base_ok n c" and "own (co_tasks c) i t" and "tk_status t \<notin> set terminal_statuses"
    and "tk_id t' = i" and "tk_type t' = tk_type t \<and> tk_metadata t' = tk_metadata t"
    and "(p = Finished \<and> tk_status t' \<in> set terminal_statuses) \<or>
      (p = Finished \<and> tk_status t' = Running \<and> \<not> run_limits t) \<or>
      (p = Executing \<and> tk_status t' = Running \<and> tk_type t = delegation \<and> run_limits t \<and>
        ((i, Claimed) \<in> set (co_inflight c) \<or> (i, Executing) \<in> set (co_inflight c)))"
    and "sent = co_sent c \<or> (tk_status t' \<in> set terminal_statuses \<and> sent = co_sent c @ [t'])"
    and "c' = set_phase i p (c\<lparr>co_tasks := task_write (co_tasks c) i t', co_sent := sent\<rparr>)"
  shows "base_ok n c' \<and> keeps_terminal (co_tasks c) (co_tasks c') \<and> (no_ghosts c \<longrightarrow> no_ghosts c')"
proof -
  let ?d = "co_tasks c" and ?d' = "task_write (co_tasks c) i t'"
  have tasks: "co_tasks c' = ?d'" by (simp add: assms(8))
  have limits: "run_limits t' = run_limits t" using assms(5) by (simp add: run_limits_def)
  have new: "own ?d' i t'" using assms(4) by (simp add: own_def task_get_write)
  have other: "own ?d' j u" if "own ?d j u" "j \<noteq> i" for j u
    using own_write_other[OF assms(2) that(1)] that(2) by simp
  have named: "tasks_named ?d'" using named_write assms(1,4) by (simp add: base_ok_def)
  have workers: "list_all (worker_ok ?d') (co_inflight c')"
    unfolding list_all_iff
  proof
    fix w assume "w \<in> set (co_inflight c')"
    then have "w \<in> (\<lambda>v. if fst v = i then (i, p) else v) ` set (co_inflight c)"
      by (simp add: assms(8) set_phase_def)
    then obtain v where v: "v \<in> set (co_inflight c)" "w = (if fst v = i then (i, p) else v)" by blast
    show "worker_ok ?d' w"
    proof (cases "fst v = i")
      case True
      then show ?thesis using v(2) new assms(5,6) limits by (auto simp: worker_ok_def)
    next
      case False
      have "worker_ok ?d v" using assms(1) v(1) by (simp add: base_ok_def list_all_iff)
      then show ?thesis using v(2) False other[of "fst v"] by (auto simp: worker_ok_def split: phase.splits)
    qed
  qed
  have sent_old: "tk_id s \<noteq> i \<and> (\<exists>u. own ?d' (tk_id s) u \<and> tk_status u \<in> set terminal_statuses)"
    if s: "s \<in> set (co_sent c)" for s
  proof -
    obtain u where u: "own ?d (tk_id s) u" "tk_status u \<in> set terminal_statuses"
      using assms(1) s by (auto simp: base_ok_def sent_ok_def list_all_iff)
    then have "tk_id s \<noteq> i" using assms(2,3) by (auto simp: own_def)
    then show ?thesis using u other by blast
  qed
  have "i \<notin> tk_id ` set (co_sent c)" using sent_old by blast
  then have "sent_ok c'"
    using assms(1,4,7) sent_old new
    by (auto simp: sent_ok_def base_ok_def list_all_iff tasks assms(8))
  moreover have "length (live_workers (co_inflight c')) \<le> n"
  proof -
    have "length (live_workers (co_inflight (set_phase i p c))) \<le> length (live_workers (co_inflight c))"
      using live_set_phase[of p i c] assms(1,6) by (auto simp: base_ok_def)
    moreover have "co_inflight c' = co_inflight (set_phase i p c)" by (simp add: assms(8) set_phase_def)
    ultimately show ?thesis using assms(1) by (simp add: base_ok_def)
  qed
  moreover have "distinct (map fst (co_inflight c'))"
    using assms(1) by (simp add: base_ok_def assms(8))
  ultimately have base: "base_ok n c'" using named workers by (simp add: base_ok_def tasks)
  have "limits_ok ?d'" if ok: "limits_ok ?d"
    unfolding limits_ok_def
  proof (intro allI impI)
    fix j u assume u: "own ?d' j u \<and> tk_type u = delegation"
    show "run_limits u"
    proof (cases "task_path i = task_path j")
      case True
      then have "u = t'" using u by (simp add: own_def task_get_write)
      then show ?thesis using ok u assms(2,5) limits unfolding limits_ok_def by auto
    next
      case False
      then have "own ?d j u" using u by (simp add: own_def task_get_write)
      then show ?thesis using ok u unfolding limits_ok_def by blast
    qed
  qed
  then have keep: "keeps_terminal ?d (co_tasks c')"
    using terminal_write_other[OF assms(2,3)] by (simp add: keeps_terminal_def tasks)
  have ghosts: "no_ghosts c'" if "no_ghosts c"
    unfolding no_ghosts_def tasks
  proof (intro allI impI)
    fix j u assume u: "own ?d' j u \<and> tk_type u = delegation \<and> tk_status u = Running \<and> run_limits u"
    show "(j, Executing) \<in> set (co_inflight c')"
    proof (cases "j = i")
      case True
      then have "u = t'" using u new by (simp add: own_def)
      then have "p = Executing" "i \<in> fst ` set (co_inflight c)"
        using assms(6) u limits by (auto simp: terminal_statuses_def) force+
      then show ?thesis using True by (auto simp: assms(8) set_phase_def image_iff)
    next
      case False
      have "task_path i \<noteq> task_path j"
      proof
        assume "task_path i = task_path j"
        then have "u = t'" using u by (simp add: own_def task_get_write)
        then show False using False u assms(4) by (simp add: own_def)
      qed
      then have "own ?d j u" using u by (simp add: own_def task_get_write)
      then have "(j, Executing) \<in> set (co_inflight c)" using that u unfolding no_ghosts_def by blast
      then show ?thesis using False by (force simp: assms(8) set_phase_def)
    qed
  qed
  show ?thesis using base keep ghosts by blast
qed


section \<open>The steps\<close>

inductive coord_step :: "nat \<Rightarrow> (pyval \<Rightarrow> string) \<Rightarrow> string list \<Rightarrow> coordinator \<Rightarrow> coordinator \<Rightarrow> bool"
  for n :: nat and pstr :: "pyval \<Rightarrow> string" and backends :: "string list" where
  cs_poll: "coord_step n pstr backends c (poll n c)"
| cs_begin: "(i, Claimed) \<in> set (co_inflight c) \<Longrightarrow> coord_step n pstr backends c (begin_task pstr backends i t1 t2 c)"
| cs_finish: "(i, Executing) \<in> set (co_inflight c) \<Longrightarrow> coord_step n pstr backends c (finish_task i oc now c)"
| cs_abort: "coord_step n pstr backends c (abort_worker i False now c)"
| cs_cancel: "(\<forall>t. task_get (co_tasks c) i = Some t \<longrightarrow> tk_id t = i) \<Longrightarrow>
    coord_step n pstr backends c (snd (cancel_task i sid t1 t2 c))"
| cs_enqueue: "coord_step n pstr backends c
    (c\<lparr>co_tasks := snd (enqueue_from_tool e sid turn trace user req c1 c2 (co_tasks c))\<rparr>)"
| cs_restart: "coord_step n pstr backends c (restart now c)"

inductive_cases coord_step_E: "coord_step n pstr backends c c'"

text \<open>
  cancel_task is called with the identifier of a task, not with another text that has the
  same file name.
\<close>

definition coord_ok :: "nat \<Rightarrow> coordinator \<Rightarrow> bool" where
  "coord_ok n c = (base_ok n c \<and> no_ghosts c)"

lemma status_update_simps [simp]:
  "tk_id (status_update t st err res now) = tk_id t" "tk_type (status_update t st err res now) = tk_type t"
  "tk_metadata (status_update t st err res now) = tk_metadata t"
  "tk_status (status_update t st err res now) = st" "tk_session (status_update t st err res now) = tk_session t"
  by (simp_all add: status_update_def copy_task_with_updates_def or_else_def)

lemma settle_own:
  assumes "own (co_tasks c) i t"
  shows "settle i st err res now notify c =
    c\<lparr>co_tasks := task_write (co_tasks c) i (status_update t st err res now),
      co_sent := (if notify then co_sent c @ [status_update t st err res now] else co_sent c)\<rparr>"
  using assms by (simp add: settle_def task_update_status_def own_def Let_def)

lemma set_phase_absent:
  assumes "distinct (map fst (co_inflight c))" and "map_of (co_inflight c) i \<in> {None, Some p}"
  shows "set_phase i p c = c"
proof -
  have "map (\<lambda>w. if fst w = i then (i, p) else w) (co_inflight c) = co_inflight c"
  proof (rule map_idI)
    fix w assume w: "w \<in> set (co_inflight c)"
    then have "map_of (co_inflight c) (fst w) = Some (snd w)"
      using map_of_is_SomeI[OF assms(1), of "fst w" "snd w"] by simp
    then show "(if fst w = i then (i, p) else w) = w" using assms(2) by (cases w) auto
  qed
  then show ?thesis by (simp add: set_phase_def)
qed

lemma finish_step:
  assumes "base_ok n c" and "own (co_tasks c) i t" and "tk_status t \<notin> set terminal_statuses"
    and "st \<in> set terminal_statuses"
    and "c' = set_phase i Finished (settle i st err res now notify c)"
  shows "base_ok n c' \<and> keeps_terminal (co_tasks c) (co_tasks c') \<and> (no_ghosts c \<longrightarrow> no_ghosts c')"
proof (rule write_step[OF assms(1-3), of "status_update t st err res now" Finished])
  show "c' = set_phase i Finished (c\<lparr>co_tasks := task_write (co_tasks c) i (status_update t st err res now),
      co_sent := (if notify then co_sent c @ [status_update t st err res now] else co_sent c)\<rparr>)"
    by (simp add: assms(5) settle_own[OF assms(2)])
qed (use assms(2,4) in \<open>auto simp: own_def\<close>)

lemma worker_own:
  assumes "base_ok n c" and "(i, p) \<in> set (co_inflight c)"
  shows "p = Claimed \<Longrightarrow> \<exists>t. own (co_tasks c) i t \<and> tk_type t = delegation \<and> tk_status t = Pending"
    and "p = Executing \<Longrightarrow> \<exists>t. own (co_tasks c) i t \<and> tk_type t = delegation \<and> tk_status t = Running \<and> run_limits t"
proof -
  have "worker_ok (co_tasks c) (i, p)" using assms by (simp add: base_ok_def list_all_iff)
  then show "p = Claimed \<Longrightarrow> \<exists>t. own (co_tasks c) i t \<and> tk_type t = delegation \<and> tk_status t = Pending"
    and "p = Executing \<Longrightarrow> \<exists>t. own (co_tasks c) i t \<and> tk_type t = delegation \<and> tk_status t = Running \<and> run_limits t"
    by (simp_all add: worker_ok_def)
qed

lemma not_terminal [simp]: "Pending \<notin> set terminal_statuses" "Running \<notin> set terminal_statuses"
  by (simp_all add: terminal_statuses_def)

lemma terminal_mem [simp]: "TaskFailed \<in> set terminal_statuses" "TaskCompleted \<in> set terminal_statuses"
  "TaskCancelled \<in> set terminal_statuses"
  by (simp_all add: terminal_statuses_def)

lemma drop_worker:
  assumes "coord_ok n c" and "(i, Claimed) \<in> set (co_inflight c)"
  shows "coord_ok n (set_phase i Finished c)"
proof -
  have dist: "distinct (map fst (co_inflight c))" using assms(1) by (simp add: coord_ok_def base_ok_def)
  have "length (live_workers (co_inflight (set_phase i Finished c))) \<le> length (live_workers (co_inflight c))"
    by (rule live_set_phase) (simp_all add: dist)
  moreover have "list_all (worker_ok (co_tasks c)) (co_inflight (set_phase i Finished c))"
    using assms(1) by (auto simp: coord_ok_def base_ok_def list_all_iff set_phase_def worker_ok_def)
  moreover have "no_ghosts (set_phase i Finished c)"
    unfolding no_ghosts_def
  proof (intro allI impI)
    fix j t assume t: "own (co_tasks (set_phase i Finished c)) j t \<and> tk_type t = delegation \<and> tk_status t = Running \<and> run_limits t"
    then have "own (co_tasks c) j t" by (simp add: set_phase_def)
    then have j: "(j, Executing) \<in> set (co_inflight c)"
      using assms(1) t unfolding coord_ok_def no_ghosts_def by blast
    then have "j \<noteq> i" using assms(2) dist by (auto dest: eq_key_imp_eq_value)
    then show "(j, Executing) \<in> set (co_inflight (set_phase i Finished c))" using j by (force simp: set_phase_def)
  qed
  ultimately show ?thesis using assms(1) by (simp add: coord_ok_def base_ok_def sent_ok_def)
qed

section \<open>Every step keeps the invariant\<close>

definition step_ok :: "nat \<Rightarrow> coordinator \<Rightarrow> coordinator \<Rightarrow> bool" where
  "step_ok n c c' = (coord_ok n c' \<and> keeps_terminal (co_tasks c) (co_tasks c'))"

lemma step_ok_finish:
  assumes "coord_ok n c" and "own (co_tasks c) i t" and "tk_status t \<notin> set terminal_statuses"
    and "st \<in> set terminal_statuses"
  shows "step_ok n c (set_phase i Finished (settle i st err res now notify c))"
  using finish_step[OF _ assms(2-4) refl, of n] assms(1) by (simp add: step_ok_def coord_ok_def)

lemma set_phase_twice:
  "set_phase i p (set_phase i p c\<lparr>co_tasks := d\<rparr>) = set_phase i p (c\<lparr>co_tasks := d\<rparr>)"
  by (simp add: set_phase_def comp_def cong: if_cong)

lemma begin_step:
  assumes "coord_ok n c" and claimed: "(i, Claimed) \<in> set (co_inflight c)"
  shows "step_ok n c (begin_task pstr backends i t1 t2 c)"
proof -
  have base: "base_ok n c" using assms(1) by (simp add: coord_ok_def)
  obtain t where t: "own (co_tasks c) i t" "tk_type t = delegation" "tk_status t = Pending"
    using worker_own(1)[OF base claimed] by blast
  have get: "task_get (co_tasks c) i = Some t" "tk_id t = i" using t(1) by (simp_all add: own_def)
  show ?thesis
  proof (cases "backend_of pstr t \<in> set backends")
    case False
    then show ?thesis
      using step_ok_finish[OF assms(1) t(1), of TaskFailed] t(3) by (simp add: begin_task_def get)
  next
    case True
    let ?u = "status_update t Running None None t1"
    let ?v = "copy_task_with_updates ?u (no_updates\<lparr>up_updated := Some t2, up_heartbeat := Some t2\<rparr>)"
    let ?p = "if run_limits t then Executing else Finished"
    let ?c1 = "set_phase i ?p (c\<lparr>co_tasks := task_write (co_tasks c) i ?u\<rparr>)"
    let ?c2 = "set_phase i ?p (c\<lparr>co_tasks := task_write (task_write (co_tasks c) i ?u) i ?v\<rparr>)"
    have u: "own (co_tasks ?c1) i ?u" "tk_status ?u = Running"
      using get(2) by (simp_all add: own_def task_get_write)
    have v: "tk_id ?v = i" "tk_type ?v = delegation" "tk_status ?v = Running" "tk_metadata ?v = tk_metadata t"
      using get(2) t(2) by (simp_all add: copy_task_with_updates_def no_updates_def or_else_def)
    have in1: "(i, ?p) \<in> set (co_inflight ?c1)" using claimed by (force simp: set_phase_def)
    have lim: "run_limits ?u = run_limits t" by (simp add: run_limits_def)
    have s1: "base_ok n ?c1 \<and> keeps_terminal (co_tasks c) (co_tasks ?c1) \<and> (no_ghosts c \<longrightarrow> no_ghosts ?c1)"
      by (rule write_step[OF base t(1), of ?u ?p "co_sent c"]) (use t get claimed in auto)
    have "?c2 = set_phase i ?p (?c1\<lparr>co_tasks := task_write (co_tasks ?c1) i ?v, co_sent := co_sent ?c1\<rparr>)"
      by (simp add: set_phase_def comp_def cong: if_cong)
    then have s2: "base_ok n ?c2 \<and> keeps_terminal (co_tasks ?c1) (co_tasks ?c2) \<and> (no_ghosts ?c1 \<longrightarrow> no_ghosts ?c2)"
      by (intro write_step[OF conjunct1[OF s1] u(1), of ?v ?p "co_sent ?c1"]) (use u(2) v t(2) in1 lim in auto)
    have "begin_task pstr backends i t1 t2 c = ?c2"
      using True u by (simp add: begin_task_def get settle_own[OF t(1)] task_heartbeat_def own_def Let_def task_get_write)
    then show ?thesis using s1 s2 assms(1) keeps_trans by (auto simp: step_ok_def coord_ok_def)
  qed
qed

lemma finish_task_step:
  assumes "coord_ok n c" and "(i, Executing) \<in> set (co_inflight c)"
  shows "step_ok n c (finish_task i oc now c)"
proof -
  obtain t where t: "own (co_tasks c) i t" "tk_status t = Running"
    using worker_own(2)[of n c i Executing] assms by (auto simp: coord_ok_def)
  then show ?thesis
    using step_ok_finish[OF assms(1) t(1)] by (cases oc) (simp_all add: finish_task_def)
qed

lemma abort_step:
  assumes "coord_ok n c"
  shows "step_ok n c (abort_worker i requested now c)"
proof (cases "map_of (co_inflight c) i")
  case (Some p)
  then have p: "(i, p) \<in> set (co_inflight c)" by (rule map_of_SomeD)
  show ?thesis
  proof (cases p)
    case Claimed
    then show ?thesis using drop_worker[OF assms] p Some by (simp add: abort_worker_def step_ok_def)
  next
    case Executing
    then obtain t where t: "own (co_tasks c) i t" "tk_status t = Running"
      using worker_own(2)[of n c i Executing] assms p by (auto simp: coord_ok_def)
    then show ?thesis using step_ok_finish[OF assms t(1)] Some Executing by (simp add: abort_worker_def)
  qed (use Some assms in \<open>simp add: abort_worker_def step_ok_def\<close>)
qed (use assms in \<open>simp add: abort_worker_def step_ok_def\<close>)

lemma step_ok_trans: "step_ok n a b \<Longrightarrow> step_ok n b c \<Longrightarrow> step_ok n a c"
  by (auto simp: step_ok_def intro: keeps_trans)

lemma map_of_set_phase:
  "map_of ws i = Some p \<Longrightarrow> map_of (map (\<lambda>w. if fst w = i then (i, q) else w) ws) i = Some q"
  by (induction ws) (auto split: if_splits)

lemma abort_get_other:
  assumes "coord_ok n c" and "own (co_tasks c) i t" and "tk_status t \<notin> set terminal_statuses"
  shows "\<exists>f. own (co_tasks (abort_worker i True now c)) i f \<and>
    (tk_status f = TaskCancelled \<or>
      (f = t \<and> map_of (co_inflight (abort_worker i True now c)) i \<in> {None, Some Finished}))"
proof (cases "map_of (co_inflight c) i")
  case (Some p)
  have "map_of (co_inflight (set_phase i Finished c)) i = Some Finished"
    using map_of_set_phase[of "co_inflight c" i p Finished] Some by (simp add: set_phase_def)
  then show ?thesis
    using Some assms(2) by (cases p) (auto simp: abort_worker_def settle_own own_def task_get_write)
qed (use assms(2) in \<open>auto simp: abort_worker_def\<close>)

text \<open>What cancel_task returns and leaves, for a task that is not settled yet.\<close>

lemma cancel_step:
  assumes "coord_ok n c" and "own (co_tasks c) i t" and "tk_status t \<notin> set terminal_statuses"
    and "get_task (co_tasks c) i sid = Some t"
  shows "step_ok n c (snd (cancel_task i sid t1 t2 c)) \<and>
    (\<exists>f. fst (cancel_task i sid t1 t2 c) = Some f \<and> tk_status f = TaskCancelled \<and>
      own (co_tasks (snd (cancel_task i sid t1 t2 c))) i f)"
proof -
  let ?c1 = "abort_worker i True t1 c"
  have ok: "step_ok n c ?c1" by (rule abort_step[OF assms(1)])
  obtain f where f: "own (co_tasks ?c1) i f"
    "tk_status f = TaskCancelled \<or> (f = t \<and> map_of (co_inflight ?c1) i \<in> {None, Some Finished})"
    using abort_get_other[OF assms(1-3)] by blast
  show ?thesis
  proof (cases "tk_status f = TaskCancelled")
    case True
    then have "cancel_task i sid t1 t2 c = (Some f, ?c1)"
      using f(1) assms(3,4) by (simp add: cancel_task_def Let_def own_def)
    then show ?thesis using ok f True by simp
  next
    case False
    let ?g = "status_update f TaskCancelled (Some ''Cancelled by user'') None t2"
    let ?c2 = "?c1\<lparr>co_tasks := task_write (co_tasks ?c1) i ?g\<rparr>"
    have ft: "f = t" "map_of (co_inflight ?c1) i \<in> {None, Some Finished}" using f(2) False by auto
    have run: "cancel_task i sid t1 t2 c = (Some ?g, ?c2)"
      using f(1) ft(1) assms(3,4) by (simp add: cancel_task_def Let_def own_def task_update_status_def)
    have "distinct (map fst (co_inflight ?c1))" using ok by (simp add: step_ok_def coord_ok_def base_ok_def)
    then have "set_phase i Finished ?c2 = ?c2" using ft(2) by (simp add: set_phase_absent)
    moreover have "settle i TaskCancelled (Some ''Cancelled by user'') None t2 False ?c1 = ?c2"
      by (simp add: settle_own[OF f(1)])
    ultimately have "step_ok n ?c1 ?c2"
      using step_ok_finish[OF _ f(1), of n TaskCancelled "Some ''Cancelled by user''" None t2 False] ok ft(1) assms(3)
      by (simp add: step_ok_def)
    then show ?thesis
      using run step_ok_trans[OF ok] f(1) by (simp add: own_def task_get_write)
  qed
qed

lemma cancel_any_step:
  assumes "coord_ok n c" and "\<forall>t. task_get (co_tasks c) i = Some t \<longrightarrow> tk_id t = i"
  shows "step_ok n c (snd (cancel_task i sid t1 t2 c))"
proof (cases "get_task (co_tasks c) i sid")
  case (Some t)
  then have "own (co_tasks c) i t" using assms(2) by (auto simp: get_task_def own_def split: option.splits if_splits)
  then show ?thesis
    using cancel_step[OF assms(1) _ _ Some] Some assms(1)
    by (cases "tk_status t \<in> set terminal_statuses") (auto simp: cancel_task_def step_ok_def)
qed (simp add: cancel_task_def step_ok_def assms(1))

lemma claim_loop_extends:
  assumes "distinct (map fst ws)"
  shows "\<exists>new. claim_loop slots ws ts = ws @ map (\<lambda>t. (tk_id t, Claimed)) new \<and>
    set new \<subseteq> {t \<in> set ts. tk_type t = delegation} \<and> length new \<le> slots \<and>
    distinct (map fst (ws @ map (\<lambda>t. (tk_id t, Claimed)) new))"
  using assms
proof (induction slots ws ts rule: claim_loop.induct)
  case (2 slots ws t ts)
  consider "slots = 0" | "slots \<noteq> 0" "tk_type t \<noteq> delegation \<or> tk_id t \<in> fst ` set ws"
    | "slots \<noteq> 0" "\<not> (tk_type t \<noteq> delegation \<or> tk_id t \<in> fst ` set ws)" by blast
  then show ?case
  proof cases
    case 1
    then show ?thesis using 2(3) by (intro exI[of _ "[]"]) simp
  next
    case c: 2
    obtain new where "claim_loop slots ws ts = ws @ map (\<lambda>t. (tk_id t, Claimed)) new"
      "set new \<subseteq> {t \<in> set ts. tk_type t = delegation}" "length new \<le> slots"
      "distinct (map fst (ws @ map (\<lambda>t. (tk_id t, Claimed)) new))"
      using 2(1)[OF c 2(3)] by blast
    then show ?thesis using c by (intro exI[of _ new]) auto
  next
    case c: 3
    have "distinct (map fst (ws @ [(tk_id t, Claimed)]))" using 2(3) c(2) by simp
    from 2(2)[OF c this] obtain new where new: "claim_loop (slots - 1) (ws @ [(tk_id t, Claimed)]) ts =
        (ws @ [(tk_id t, Claimed)]) @ map (\<lambda>t. (tk_id t, Claimed)) new"
      "set new \<subseteq> {t \<in> set ts. tk_type t = delegation}" "length new \<le> slots - 1"
      "distinct (map fst ((ws @ [(tk_id t, Claimed)]) @ map (\<lambda>t. (tk_id t, Claimed)) new))"
      by blast
    then show ?thesis using c by (intro exI[of _ "t # new"]) auto
  qed
qed (auto intro: exI[of _ "[]"])

lemma poll_step:
  assumes "coord_ok n c"
  shows "step_ok n c (poll n c)"
proof -
  let ?ws = "live_workers (co_inflight c)" and ?ts = "task_list_by_status (co_tasks c) Pending"
  have base: "base_ok n c" and named: "tasks_named (co_tasks c)" using assms by (simp_all add: coord_ok_def base_ok_def)
  have "distinct (map fst ?ws)" using base by (auto simp: base_ok_def live_workers_def intro: distinct_map_filter)
  then obtain new where new: "co_inflight (poll n c) = ?ws @ map (\<lambda>t. (tk_id t, Claimed)) new"
    "set new \<subseteq> {t \<in> set ?ts. tk_type t = delegation}" "length new \<le> n - length ?ws"
    "distinct (map fst (co_inflight (poll n c)))"
    using claim_loop_extends[of ?ws "n - length ?ws" ?ts] by (auto simp: poll_def Let_def)
  have "length (live_workers (co_inflight (poll n c))) \<le> length (co_inflight (poll n c))"
    by (simp add: live_workers_def)
  also have "\<dots> \<le> n"
  proof -
    have "length ?ws \<le> n" using base by (simp add: base_ok_def)
    then show ?thesis using new(3) by (simp add: new(1))
  qed
  finally have len: "length (live_workers (co_inflight (poll n c))) \<le> n" .
  have "worker_ok (co_tasks c) (tk_id t, Claimed)" if "t \<in> set new" for t
    using that new(2) listed_own[OF named] by (auto simp: worker_ok_def)
  then have workers: "list_all (worker_ok (co_tasks c)) (co_inflight (poll n c))"
    using base by (auto simp: new(1) list_all_iff base_ok_def live_workers_def)
  have same: "co_tasks (poll n c) = co_tasks c" "co_sent (poll n c) = co_sent c" by (simp_all add: poll_def Let_def)
  have "no_ghosts (poll n c)"
    using assms by (auto simp: coord_ok_def no_ghosts_def same new(1) live_workers_def)
  then show ?thesis
    using base len workers new(4) by (simp add: step_ok_def coord_ok_def base_ok_def sent_ok_def same)
qed

lemma create_own:
  assumes "task_create d t = (Inr t', d')" and "own d j u"
  shows "own d' j u" and "task_path (tk_id t) \<noteq> task_path j"
proof -
  have "\<not> file_exists task_path d (tk_id t)" using assms(1) by (auto simp: task_create_def split: if_splits)
  moreover have "file_exists task_path d j" using assms(2) task_get_exists by (simp add: own_def)
  ultimately show "task_path (tk_id t) \<noteq> task_path j" by (auto simp: file_exists_def)
  then show "own d' j u" using assms(2) by (simp add: own_def create_lists(3)[OF assms(1)])
qed

lemma create_step:
  assumes "coord_ok n c" and "task_create (co_tasks c) t = (Inr t', d)" and "tk_status t = Pending" and "run_limits t"
  shows "step_ok n c (c\<lparr>co_tasks := d\<rparr>)"
proof -
  note keep = create_own[OF assms(2)] and get = create_lists(3)[OF assms(2)]
  have base: "base_ok n c" and g: "no_ghosts c" using assms(1) by (simp_all add: coord_ok_def)
  have "d = task_write (co_tasks c) (tk_id t) t" using assms(2) by (auto simp: task_create_def split: if_splits)
  then have "tasks_named d" using named_write base by (simp add: base_ok_def)
  moreover have "list_all (worker_ok d) (co_inflight c)"
    using base keep(1) by (fastforce simp: base_ok_def list_all_iff worker_ok_def split: phase.splits)
  moreover have "sent_ok (c\<lparr>co_tasks := d\<rparr>)"
    using base keep(1) by (fastforce simp: base_ok_def sent_ok_def list_all_iff)
  ultimately have "base_ok n (c\<lparr>co_tasks := d\<rparr>)" using base by (simp add: base_ok_def)
  moreover have "no_ghosts (c\<lparr>co_tasks := d\<rparr>)"
    unfolding no_ghosts_def
  proof (intro allI impI)
    fix j u assume u: "own (co_tasks (c\<lparr>co_tasks := d\<rparr>)) j u \<and> tk_type u = delegation \<and> tk_status u = Running \<and> run_limits u"
    then have "own (co_tasks c) j u" using assms(3) by (auto simp: own_def get split: if_splits)
    then show "(j, Executing) \<in> set (co_inflight (c\<lparr>co_tasks := d\<rparr>))"
      using g u unfolding no_ghosts_def by auto
  qed
  moreover have "keeps_terminal (co_tasks c) d"
  proof -
    have "task_path (tk_id t) \<noteq> task_path j" if "task_get (co_tasks c) j = Some u" for j u
      using assms(2) task_get_exists[OF that] by (auto simp: task_create_def file_exists_def split: if_splits)
    then show ?thesis using assms(4) by (auto simp: keeps_terminal_def get limits_ok_def own_def)
  qed
  ultimately show ?thesis by (simp add: step_ok_def coord_ok_def)
qed

lemma enqueued_limits: "run_limits (delegated_task e sid turn trace user req now model projected)"
proof -
  have pos: "1 \<le> resolve_positive req k params k' n" if "1 \<le> n" for k params k' n
    using that by (auto simp: resolve_positive_def parse_positive_int_def split: option.splits if_splits)
  let ?m = "tk_metadata (delegated_task e sid turn trace user req now model projected)"
  obtain ps where "map_of ?m ''timeout_seconds'' = Some (PInt (resolve_timeout_seconds req ps))"
    "map_of ?m ''max_turns'' = Some (PInt (resolve_max_turns req ps))"
    by (simp add: delegated_task_def delegation_metadata_def Let_def)
  then show ?thesis
    by (simp add: run_limits_def limit_at_least_one_def dget_or_def resolve_max_turns_def resolve_timeout_seconds_def pos)
qed

lemma enqueue_step:
  assumes "coord_ok n c"
  shows "step_ok n c (c\<lparr>co_tasks := snd (enqueue_from_tool e sid turn trace user req c1 c2 (co_tasks c))\<rparr>)"
proof -
  have same: "step_ok n c c" using assms by (simp add: step_ok_def)
  have create: "step_ok n c (c\<lparr>co_tasks := snd (task_create (co_tasks c) t)\<rparr>)" if "tk_status t = Pending" "run_limits t" for t
  proof (cases "fst (task_create (co_tasks c) t)")
    case (Inl x)
    then show ?thesis using same by (simp add: task_create_def split: if_splits)
  next
    case (Inr t')
    then show ?thesis using create_step[OF assms _ that, of t'] by (simp add: prod_eq_iff)
  qed
  show ?thesis
  proof (cases "admission_check e sid req c1 (co_tasks c)")
    case (Inl a)
    then show ?thesis using same by (simp add: enqueue_from_tool_def)
  next
    case (Inr mp)
    obtain model projected where mp: "mp = (model, projected)" by fastforce
    let ?t = "delegated_task e sid turn trace user req c2 model projected"
    have "snd (enqueue_from_tool e sid turn trace user req c1 c2 (co_tasks c)) = snd (task_create (co_tasks c) ?t)"
      using Inr mp by (simp add: enqueue_from_tool_def Let_def split: prod.split sum.split)
    moreover have "tk_status ?t = Pending" by (simp add: delegated_task_def Let_def)
    moreover have "run_limits ?t" by (rule enqueued_limits)
    ultimately show ?thesis using create by metis
  qed
qed

lemma recover_fold:
  assumes "base_ok n c" and "co_inflight c = []" and "distinct (map tk_id ts)"
    and "\<forall>t \<in> set ts. own (co_tasks c) (tk_id t) t \<and> tk_status t = Running"
    and "\<forall>j u. own (co_tasks c) j u \<and> tk_type u = delegation \<and> tk_status u = Running \<longrightarrow> u \<in> set ts"
  shows "step_ok n c (fold (\<lambda>t c. settle (tk_id t) TaskFailed (Some msg) None now False c) ts c)"
  using assms
proof (induction ts arbitrary: c)
  case Nil
  then show ?case by (auto simp: step_ok_def coord_ok_def no_ghosts_def)
next
  case (Cons t ts)
  let ?t' = "status_update t TaskFailed (Some msg) None now"
  let ?c' = "settle (tk_id t) TaskFailed (Some msg) None now False c"
  have t: "own (co_tasks c) (tk_id t) t" "tk_status t = Running" using Cons.prems(4) by simp_all
  have eq: "?c' = c\<lparr>co_tasks := task_write (co_tasks c) (tk_id t) ?t'\<rparr>" by (simp add: settle_own[OF t(1)])
  have "?c' = set_phase (tk_id t) Finished ?c'" using Cons.prems(2) by (simp add: eq set_phase_def)
  then have s: "base_ok n ?c' \<and> keeps_terminal (co_tasks c) (co_tasks ?c') \<and> (no_ghosts c \<longrightarrow> no_ghosts ?c')"
    by (intro finish_step[OF Cons.prems(1) t(1)]) (use t(2) in auto)
  have "step_ok n ?c' (fold (\<lambda>t c. settle (tk_id t) TaskFailed (Some msg) None now False c) ts ?c')"
  proof (rule Cons.IH)
    show "base_ok n ?c'" and "co_inflight ?c' = []" and "distinct (map tk_id ts)"
      using s Cons.prems(2,3) by (simp_all add: eq)
    show "\<forall>u \<in> set ts. own (co_tasks ?c') (tk_id u) u \<and> tk_status u = Running"
    proof
      fix u assume u: "u \<in> set ts"
      then have "tk_id t \<noteq> tk_id u" using Cons.prems(3) by force
      then show "own (co_tasks ?c') (tk_id u) u \<and> tk_status u = Running"
        using own_write_other[OF t(1)] Cons.prems(4) u by (simp add: eq)
    qed
    show "\<forall>j u. own (co_tasks ?c') j u \<and> tk_type u = delegation \<and> tk_status u = Running \<longrightarrow> u \<in> set ts"
    proof (intro allI impI)
      fix j u assume u: "own (co_tasks ?c') j u \<and> tk_type u = delegation \<and> tk_status u = Running"
      then have "u \<noteq> ?t'" by auto
      then have "task_path (tk_id t) \<noteq> task_path j" using u by (auto simp: eq own_def task_get_write split: if_splits)
      then have "own (co_tasks c) j u" "u \<noteq> t" using u by (auto simp: eq own_def task_get_write)
      then show "u \<in> set ts" using Cons.prems(5) u by force
    qed
  qed
  then show ?case using s keeps_trans by (auto simp: step_ok_def)
qed

lemma recover_ok:
  assumes "base_ok n c" and "co_inflight c = []"
  shows "step_ok n c (recover_inflight now c)"
  unfolding recover_inflight_def
proof (rule recover_fold[OF assms])
  have named: "tasks_named (co_tasks c)" using assms(1) by (simp add: base_ok_def)
  show "distinct (map tk_id (delegation_tasks (co_tasks c) Running))"
    using listed_distinct[OF named] by (auto simp: delegation_tasks_def intro: distinct_map_filter)
  show "\<forall>t \<in> set (delegation_tasks (co_tasks c) Running). own (co_tasks c) (tk_id t) t \<and> tk_status t = Running"
    using listed_own[OF named] by (auto simp: delegation_tasks_def)
  show "\<forall>j u. own (co_tasks c) j u \<and> tk_type u = delegation \<and> tk_status u = Running
      \<longrightarrow> u \<in> set (delegation_tasks (co_tasks c) Running)"
    using listed_own[OF named] by (auto simp: delegation_tasks_def own_def)
qed

lemma restart_step:
  assumes "coord_ok n c"
  shows "step_ok n c (restart now c)"
proof -
  let ?c = "c\<lparr>co_inflight := []\<rparr>"
  have "base_ok n ?c"
    using assms by (simp add: coord_ok_def base_ok_def live_workers_def sent_ok_def)
  then have "step_ok n ?c (restart now c)" unfolding restart_def by (rule recover_ok) simp
  then show ?thesis by (simp add: step_ok_def)
qed

lemma coord_step_ok: "coord_step n pstr backends c c' \<Longrightarrow> coord_ok n c \<Longrightarrow> step_ok n c c'"
  by (cases rule: coord_step.cases)
    (auto intro: poll_step begin_step finish_task_step abort_step cancel_any_step enqueue_step restart_step)

section \<open>Properties\<close>

abbreviation coord_steps :: "nat \<Rightarrow> (pyval \<Rightarrow> string) \<Rightarrow> string list \<Rightarrow> coordinator \<Rightarrow> coordinator \<Rightarrow> bool" where
  "coord_steps n pstr backends \<equiv> (coord_step n pstr backends)\<^sup>*\<^sup>*"

definition coord_start :: "doc dir \<Rightarrow> time \<Rightarrow> coordinator" where
  "coord_start d now = restart now \<lparr>co_tasks = d, co_inflight = [], co_sent = []\<rparr>"

lemma start_step:
  assumes "tasks_named d"
  shows "step_ok n \<lparr>co_tasks = d, co_inflight = [], co_sent = []\<rparr> (coord_start d now)"
proof -
  let ?c = "\<lparr>co_tasks = d, co_inflight = [], co_sent = []\<rparr>"
  have base: "base_ok n ?c" using assms by (simp add: base_ok_def live_workers_def sent_ok_def)
  have "step_ok n ?c (recover_inflight now ?c)" by (rule recover_ok[OF base]) simp
  then show ?thesis by (simp add: coord_start_def restart_def)
qed

lemma start_ok: "tasks_named d \<Longrightarrow> coord_ok n (coord_start d now)"
  using start_step by (auto simp: step_ok_def)

lemma start_limits: "tasks_named d \<Longrightarrow> limits_ok d \<Longrightarrow> limits_ok (co_tasks (coord_start d now))"
  using start_step[of d 0 now] by (auto simp: step_ok_def keeps_terminal_def)

lemma steps_ok:
  assumes "coord_steps n pstr backends c c'" and "coord_ok n c"
  shows "step_ok n c c'"
  using assms(1)
proof (induction rule: rtranclp_induct)
  case base
  then show ?case using assms(2) by (simp add: step_ok_def)
next
  case (step a b)
  then show ?case using coord_step_ok step_ok_trans by (auto simp: step_ok_def intro: keeps_trans)
qed

lemmas reached_ok = steps_ok[OF _ start_ok, unfolded step_ok_def, THEN conjunct1]

text \<open>
  C3: the coordinator never runs two workers for one task nor more than n at a time, and the
  stored status tells what runs: in every state reached after a start, by polling, starting,
  finishing, aborting, cancelling, enqueueing and restarting in any order, a delegated task
  is RUNNING with limits a run can be made of exactly when a worker awaits its backend, and each
  completion callback is for another task, which is in a final status.  Enqueueing only stores
  such limits: when all delegated tasks had them at the start, every delegated task that is RUNNING
  has its worker.  Without that, a task whose stored limits are no positive numbers stays RUNNING
  when its worker fails on them.  Operations of the task store do not fail here, and every task file
  is named after its task.
\<close>

theorem coordinator_no_ghosts:
  assumes "tasks_named d" and "coord_steps n pstr backends (coord_start d now) c"
  shows "distinct (map fst (co_inflight c)) \<and> length (live_workers (co_inflight c)) \<le> n \<and>
    (\<forall>i. (i, Executing) \<in> set (co_inflight c) \<longleftrightarrow>
      (\<exists>t. task_get (co_tasks c) i = Some t \<and> tk_id t = i \<and> tk_type t = delegation \<and> tk_status t = Running \<and> run_limits t)) \<and>
    (limits_ok d \<longrightarrow> (\<forall>i t. task_get (co_tasks c) i = Some t \<and> tk_id t = i \<and> tk_type t = delegation \<and> tk_status t = Running \<longrightarrow>
      (i, Executing) \<in> set (co_inflight c))) \<and>
    distinct (map tk_id (co_sent c)) \<and>
    (\<forall>s \<in> set (co_sent c). \<exists>t. task_get (co_tasks c) (tk_id s) = Some t \<and> tk_status t \<in> set terminal_statuses)"
proof -
  have ok: "base_ok n c" "no_ghosts c" using reached_ok[OF assms(2,1)] by (simp_all add: coord_ok_def)
  have exec: "(i, Executing) \<in> set (co_inflight c) \<longleftrightarrow>
      (\<exists>t. task_get (co_tasks c) i = Some t \<and> tk_id t = i \<and> tk_type t = delegation \<and> tk_status t = Running \<and> run_limits t)" for i
    using worker_own(2)[OF ok(1), of i Executing] ok(2) by (auto simp: no_ghosts_def own_def)
  have "limits_ok (co_tasks c)" if "limits_ok d"
    using steps_ok[OF assms(2) start_ok[OF assms(1)]] start_limits[OF assms(1) that]
    by (auto simp: step_ok_def keeps_terminal_def)
  then have "limits_ok d \<longrightarrow> (\<forall>i t. task_get (co_tasks c) i = Some t \<and> tk_id t = i \<and> tk_type t = delegation \<and> tk_status t = Running \<longrightarrow>
      (i, Executing) \<in> set (co_inflight c))"
    using exec by (auto simp: limits_ok_def own_def)
  then show ?thesis
    using ok(1) exec by (auto simp: base_ok_def sent_ok_def list_all_iff own_def)
qed

text \<open>A worker that fails on the stored limits leaves its task running.\<close>

lemma bad_limits_ghost:
  assumes "own (co_tasks c) i t" and "backend_of pstr t \<in> set backends" and "\<not> run_limits t"
  shows "\<exists>u. own (co_tasks (begin_task pstr backends i t1 t2 c)) i u \<and> tk_status u = Running
    \<and> (i, Executing) \<notin> set (co_inflight (begin_task pstr backends i t1 t2 c))"
  using assms
  by (simp add: begin_task_def settle_own[OF assms(1)] own_def task_heartbeat_def Let_def task_get_write
      copy_task_with_updates_def no_updates_def or_else_def set_phase_def) auto

text \<open>
  A settled delegation stays as it is.  Once a task is completed, failed, cancelled or
  expired, no later step of the coordinator, a restart included, changes its record.
\<close>

theorem settled_task_final:
  assumes "tasks_named d" and "coord_steps n pstr backends (coord_start d now) c"
    and "coord_steps n pstr backends c c'"
    and "task_get (co_tasks c) i = Some t" and "tk_status t \<in> set terminal_statuses"
  shows "task_get (co_tasks c') i = Some t"
  using steps_ok[OF assms(3) reached_ok[OF assms(2,1)]] assms(4,5)
  by (auto simp: step_ok_def keeps_terminal_def)

text \<open>
  Cancelling is definite.  cancel_task on a task the caller may see returns it in a final
  status, CANCELLED when it was not settled before, and whatever runs afterwards (the worker
  that was executing it included) leaves the task as it was returned.
\<close>

theorem cancel_is_final:
  assumes "tasks_named d" and "coord_steps n pstr backends (coord_start d now) c"
    and "get_task (co_tasks c) i sid = Some t" and "tk_id t = i"
  shows "\<exists>f. fst (cancel_task i sid t1 t2 c) = Some f \<and> tk_status f \<in> set terminal_statuses \<and>
    (if tk_status t \<in> set terminal_statuses then f = t else tk_status f = TaskCancelled) \<and>
    (\<forall>c'. coord_steps n pstr backends (snd (cancel_task i sid t1 t2 c)) c' \<longrightarrow> task_get (co_tasks c') i = Some f)"
proof -
  have ok: "coord_ok n c" by (rule reached_ok[OF assms(2,1)])
  have own: "own (co_tasks c) i t"
    using assms(3,4) by (auto simp: get_task_def own_def split: option.splits if_splits)
  let ?c1 = "snd (cancel_task i sid t1 t2 c)"
  have "step_ok n c ?c1 \<and> (\<exists>f. fst (cancel_task i sid t1 t2 c) = Some f \<and>
      (if tk_status t \<in> set terminal_statuses then f = t else tk_status f = TaskCancelled) \<and> own (co_tasks ?c1) i f)"
    using cancel_step[OF ok own _ assms(3), of t1 t2] ok own assms(3)
    by (cases "tk_status t \<in> set terminal_statuses") (auto simp: cancel_task_def step_ok_def)
  then obtain f where f: "step_ok n c ?c1" "fst (cancel_task i sid t1 t2 c) = Some f"
    "if tk_status t \<in> set terminal_statuses then f = t else tk_status f = TaskCancelled" "own (co_tasks ?c1) i f"
    by blast
  then have settled: "tk_status f \<in> set terminal_statuses" by (auto split: if_splits)
  have "task_get (co_tasks c') i = Some f" if "coord_steps n pstr backends ?c1 c'" for c'
    using steps_ok[OF that] f(1,4) settled by (auto simp: step_ok_def keeps_terminal_def own_def)
  then show ?thesis using f settled by blast
qed

text \<open>
  What a waiting question gets.  With no other question asked in the chat meanwhile, the
  answer the user submits is the result of the question that waits, and its wait ends with an
  empty table entry.  A second question in the same chat takes the entry over: the answer
  goes to it, the first one ends empty, and when the first one's wait ends it removes the
  entry of the second, so that a later answer finds no question.
\<close>

theorem question_answered:
  assumes "f \<noteq> g" and "map_of (rl_answers r) f = None" and "map_of (rl_answers r) g = None"
  shows "let r1 = ask_question sid f r; r2 = ask_question sid g r1 in
    fst (submit_delegation_answer sid a r1) \<and>
    fst (settle_question sid f (snd (submit_delegation_answer sid a r1))) = a \<and>
    \<not> has_pending_question sid (snd (settle_question sid f (snd (submit_delegation_answer sid a r1)))) \<and>
    fst (settle_question sid g (snd (submit_delegation_answer sid a r2))) = a \<and>
    fst (settle_question sid f r2) = [] \<and>
    submit_delegation_answer sid a (snd (settle_question sid f r2)) = (False, snd (settle_question sid f r2))"
  using assms
  by (simp add: Let_def ask_question_def submit_delegation_answer_def settle_question_def
      has_pending_question_def update_conv delete_conv)

definition demo_id :: string where
  "demo_id = ''dlg-1''"

text \<open>A run of the coordinator with one backend: enqueue, poll, begin, finish.\<close>

definition demo_run :: "nat \<Rightarrow> coordinator" where
  "demo_run k =
     (let c0 = coord_start [] 0;
          c1 = c0\<lparr>co_tasks := snd (enqueue_from_tool demo_enqueue_env ''s'' ''t'' ''r'' None
                 [(''objective'', PStr ''x'')] 0 0 (co_tasks c0))\<rparr>;
          c2 = poll 1 c1;
          c3 = begin_task (\<lambda>_. []) [''claude_code''] demo_id 1 2 c2;
          c4 = finish_task demo_id (BackendOk ''done'' [] []) 3 c3
      in [c0, c1, c2, c3, c4] ! k)"

lemma demo_done: "\<exists>t. task_get (co_tasks (demo_run 4)) demo_id = Some t \<and> tk_status t = TaskCompleted"
proof -
  have "map_option tk_status (task_get (co_tasks (demo_run 4)) demo_id) = Some TaskCompleted" by code_simp
  then show ?thesis by auto
qed

lemma demo_running:
  "\<exists>t. get_task (co_tasks (demo_run 3)) demo_id None = Some t \<and> tk_id t = demo_id \<and> tk_status t = Running"
proof -
  have "map_option (\<lambda>t. (tk_id t, tk_status t)) (get_task (co_tasks (demo_run 3)) demo_id None) = Some (demo_id, Running)"
    by code_simp
  then show ?thesis by auto
qed

lemma demo_workers:
  "(demo_id, Claimed) \<in> set (co_inflight (demo_run 2))"
  "(demo_id, Executing) \<in> set (co_inflight (demo_run 3))"
  by code_simp+

lemma demo_steps:
  "coord_steps 1 (\<lambda>_. []) [''claude_code''] (coord_start [] 0) (demo_run 3)"
  "coord_steps 1 (\<lambda>_. []) [''claude_code''] (demo_run 3) (demo_run 4)"
proof -
  let ?S = "coord_step 1 (\<lambda>_. []) [''claude_code'']"
  have "?S (coord_start [] 0) (demo_run 1)" by (simp add: demo_run_def Let_def cs_enqueue)
  moreover have "?S (demo_run 1) (demo_run 2)" by (simp add: demo_run_def Let_def cs_poll)
  moreover have "?S (demo_run 2) (demo_run 3)"
    using cs_begin[OF demo_workers(1), of 1 "\<lambda>_. []" "[''claude_code'']" 1 2] by (simp add: demo_run_def Let_def numeral_eq_Suc)
  ultimately show "coord_steps 1 (\<lambda>_. []) [''claude_code''] (coord_start [] 0) (demo_run 3)" by simp
  have "?S (demo_run 3) (demo_run 4)"
    using cs_finish[OF demo_workers(2), of 1 "\<lambda>_. []" "[''claude_code'']" "BackendOk ''done'' [] []" 3]
    by (simp add: demo_run_def Let_def numeral_eq_Suc)
  then show "coord_steps 1 (\<lambda>_. []) [''claude_code''] (demo_run 3) (demo_run 4)" by simp
qed

lemma named_empty: "tasks_named []"
  by (simp add: tasks_named_def dir_ok_def)

theorem coordinator_no_ghosts_witness:
  "length (live_workers (co_inflight (demo_run 3))) = 1 \<and>
   (\<exists>t. task_get (co_tasks (demo_run 3)) demo_id = Some t \<and> tk_status t = Running)"
proof -
  have "length (live_workers (co_inflight (demo_run 3))) = 1" by code_simp
  then show ?thesis using coordinator_no_ghosts[OF named_empty demo_steps(1)] demo_workers(2) by auto
qed

theorem settled_task_final_witness:
  "map_option tk_status (task_get (co_tasks (restart 9 (demo_run 4))) demo_id) = Some TaskCompleted"
proof -
  obtain t where t: "task_get (co_tasks (demo_run 4)) demo_id = Some t" "tk_status t = TaskCompleted"
    using demo_done by blast
  have "coord_steps 1 (\<lambda>_. []) [''claude_code''] (coord_start [] 0) (demo_run 4)" using demo_steps by simp
  moreover have "coord_steps 1 (\<lambda>_. []) [''claude_code''] (demo_run 4) (restart 9 (demo_run 4))"
    by (simp add: r_into_rtranclp cs_restart)
  ultimately show ?thesis using settled_task_final[OF named_empty _ _ t(1)] t(2) by simp
qed

theorem cancel_is_final_witness:
  "map_option tk_status (fst (cancel_task demo_id None 5 6 (demo_run 3))) = Some TaskCancelled"
proof -
  obtain t where t: "get_task (co_tasks (demo_run 3)) demo_id None = Some t" "tk_id t = demo_id" "tk_status t = Running"
    using demo_running by blast
  show ?thesis using cancel_is_final[OF named_empty demo_steps(1) t(1,2), of 5 6] t(3) by auto
qed

theorem question_answered_witness:
  "fst (settle_question ''tg:1'' 2 (ask_question ''tg:1'' 2 (ask_question ''tg:1:x'' 1 \<lparr>rl_pending = [], rl_answers = []\<rparr>))) = []"
  using question_answered[of 2 3 "\<lparr>rl_pending = [], rl_answers = []\<rparr>" "''tg:1''" "''a''"]
  by (simp add: Let_def ask_question_def settle_question_def)

end
