(* ===== verification/Memory_Store.thy ===== *)
theory Memory_Store
  imports File_Store
begin

text \<open>
  The files of the memory store: store/models.py, store/paths.py and store/parser.py of
  assistant/memory.  An artifact is a markdown file with a YAML header; the YAML library and
  the pydantic validation of the header are the two functions of a yaml_codec, a path is a
  list of its components.
\<close>

section \<open>Artifacts\<close>

datatype mem_type = Profile | Preferences | Projects | Tasks | Facts | Summaries

fun mem_type_value :: "mem_type \<Rightarrow> string" where
  "mem_type_value Profile = ''profile''"
| "mem_type_value Preferences = ''preferences''"
| "mem_type_value Projects = ''projects''"
| "mem_type_value Tasks = ''tasks''"
| "mem_type_value Facts = ''facts''"
| "mem_type_value Summaries = ''summaries''"

definition memory_categories :: "mem_type list" where
  "memory_categories = [Profile, Preferences, Projects, Tasks, Facts, Summaries]"

lemma memory_categories_all [simp]: "c \<in> set memory_categories"
  by (cases c) (simp_all add: memory_categories_def)

lemma mem_type_value_inj [simp]: "mem_type_value a = mem_type_value b \<longleftrightarrow> a = b"
  by (cases a; cases b) simp_all

record frontmatter =
  fm_id :: string
  fm_type :: mem_type
  fm_tags :: "string list"
  fm_entities :: "string list"
  fm_priority :: int
  fm_confidence :: rat
  fm_updated :: time
  fm_used :: "time option"
  fm_created :: "time option"

record artifact =
  ar_fm :: frontmatter
  ar_body :: string

definition id_char :: "char \<Rightarrow> bool" where
  "id_char c = (ascii_letter c \<or> ascii_digit c \<or> c \<in> set ''_-.'')"

text \<open>The field validators of MemoryFrontmatter.\<close>

definition memory_id_path_safe :: "string \<Rightarrow> bool" where
  "memory_id_path_safe v = (v \<noteq> [] \<and> list_all id_char v)"

definition frontmatter_valid :: "frontmatter \<Rightarrow> bool" where
  "frontmatter_valid f = (memory_id_path_safe (fm_id f) \<and> 0 \<le> fm_priority f \<and> fm_priority f \<le> 10
     \<and> 0 \<le> fm_confidence f \<and> fm_confidence f \<le> 1)"


section \<open>Paths\<close>

text \<open>Path.resolve on a path without symbolic links, and Path.relative_to.\<close>

fun resolve_from :: "string list \<Rightarrow> string list \<Rightarrow> string list" where
  "resolve_from acc [] = acc"
| "resolve_from acc (p # ps) =
     (if p = ''.'' \<or> p = [] then resolve_from acc ps
      else if p = ''..'' then resolve_from (butlast acc) ps
      else resolve_from (acc @ [p]) ps)"

definition resolve_path :: "string list \<Rightarrow> string list" where
  "resolve_path p = resolve_from [] p"

definition validate_path_safe :: "string \<Rightarrow> (exn + unit)" where
  "validate_path_safe i =
     (if CHR ''/'' \<in> set i \<or> CHR 0x5C \<in> set i \<or> sublist ''..'' i
      then Inl (ValueError ''memory_id must not contain path separators or ..'')
      else if i = [] \<or> \<not> list_all id_char i
      then Inl (ValueError ''memory_id must be path-safe (alphanumeric, underscore, hyphen, dot)'')
      else Inr ())"

definition category_dir :: "string list \<Rightarrow> mem_type \<Rightarrow> string list" where
  "category_dir base c = base @ [''memory'', mem_type_value c]"

text \<open>A path is joined from text, so a name with separators has several components.\<close>

definition artifact_path :: "string list \<Rightarrow> mem_type \<Rightarrow> string \<Rightarrow> exn + string list" where
  "artifact_path base c i =
     (case validate_path_safe i of
        Inl x \<Rightarrow> Inl x
      | Inr _ \<Rightarrow>
          (let p = category_dir base c @ split_on (CHR ''/'') (i @ ''.md'')
           in if prefix (resolve_path (category_dir base c)) (resolve_path p) then Inr p
              else Inl (ValueError ''memory_id would escape category directory'')))"


section \<open>Parsing and printing\<close>

fun join_lines :: "string list \<Rightarrow> string" where
  "join_lines [] = []"
| "join_lines [l] = l"
| "join_lines (l # ls) = l @ newline # join_lines ls"

definition delimiter :: "string \<Rightarrow> bool" where
  "delimiter l = (py_strip l = ''---'')"

record yaml_codec =
  yl_load :: "string \<Rightarrow> frontmatter option"
  yl_dump :: "frontmatter \<Rightarrow> string"

text \<open>None is ValueError.\<close>

definition parse_memory_content :: "yaml_codec \<Rightarrow> string \<Rightarrow> artifact option" where
  "parse_memory_content y content =
     (let lines = split_on newline content
      in if \<not> delimiter (hd lines) then None
         else
           (let head = takeWhile (\<lambda>l. \<not> delimiter l) (tl lines);
                rest = dropWhile (\<lambda>l. \<not> delimiter l) (tl lines)
            in case rest of
                 [] \<Rightarrow> None
               | _ # body \<Rightarrow>
                   (let body1 = (case body of [] \<Rightarrow> [] | b # bs \<Rightarrow> if b = [] then bs else body)
                    in map_option (\<lambda>f. \<lparr>ar_fm = f, ar_body = join_lines body1\<rparr>) (yl_load y (join_lines head)))))"

text \<open>read_text opens in text mode, which turns every kind of line end into a newline.\<close>

definition parse_memory_file :: "yaml_codec \<Rightarrow> string \<Rightarrow> artifact option" where
  "parse_memory_file y file = parse_memory_content y (universal_newlines file)"

definition serialize_memory_artifact :: "yaml_codec \<Rightarrow> artifact \<Rightarrow> string" where
  "serialize_memory_artifact y a =
     ''---'' @ [newline] @ yl_dump y (ar_fm a) @ ''---'' @ [newline, newline] @ ar_body a"

text \<open>
  How PyYAML writes a mapping in block style: the text ends with a newline and has no carriage return,
  which it writes as an escape.
\<close>

definition dump_shape :: "yaml_codec \<Rightarrow> frontmatter \<Rightarrow> string \<Rightarrow> bool" where
  "dump_shape y f s = (yl_dump y f = s @ [newline] \<and> carriage \<notin> set s)"

text \<open>
  The operations below read and write files through a codec, whose contents need not be
  text; text_codec is the one of the program.
\<close>

record 'f mem_codec =
  mc_parse :: "'f \<Rightarrow> artifact option"
  mc_print :: "artifact \<Rightarrow> 'f"

definition text_codec :: "yaml_codec \<Rightarrow> string mem_codec" where
  "text_codec y = \<lparr>mc_parse = parse_memory_file y, mc_print = serialize_memory_artifact y\<rparr>"

text \<open>
  Only valid headers are read, which is what pydantic does with the loaded mapping; and whether an
  artifact reads back with its header, which YAML does not give for every header (a tag with a line of
  dashes, or with the line end of U+0085).
\<close>

definition codec_ok :: "'f mem_codec \<Rightarrow> bool" where
  "codec_ok k = (\<forall>x b. mc_parse k x = Some b \<longrightarrow> frontmatter_valid (ar_fm b))"

definition keeps_header :: "'f mem_codec \<Rightarrow> artifact \<Rightarrow> bool" where
  "keeps_header k a = (\<exists>b. mc_parse k (mc_print k a) = Some b \<and> ar_fm b = ar_fm a)"


section \<open>Lemmas\<close>

lemma join_split [simp]: "join_lines (split_on newline s) = s"
proof (induction s)
  case (Cons c s)
  obtain l ls where "split_on newline s = l # ls" by (cases "split_on newline s") simp_all
  then show ?case using Cons by (cases ls) auto
qed simp

lemma split_on_lines:
  "split_on newline (s @ newline # t) = split_on newline s @ split_on newline t"
  by (induction s) (auto split: list.splits)

lemma delimiter_dashes [simp]: "delimiter ''---''" "\<not> delimiter []"
  by (simp_all add: delimiter_def py_strip_no_space py_isspace_def code_def)

lemma universal_newlines_append:
  "universal_newlines (s @ newline # t) = universal_newlines (s @ [newline]) @ universal_newlines t"
proof (induction s rule: universal_newlines.induct)
  case 1
  then show ?case by (cases t) simp_all
next
  case (2 c)
  then show ?case by (cases t) simp_all
next
  case (3 c x cs)
  then show ?case by (cases cs) auto
qed

lemma serialized_lines:
  assumes "dump_shape y (ar_fm a) s"
  shows "split_on newline (serialize_memory_artifact y a) =
      ''---'' # split_on newline s @ ''---'' # [] # split_on newline (ar_body a)"
  using split_on_append[of newline "''---''" "s @ newline # ''---'' @ newline # newline # ar_body a"]
    split_on_append[of newline "''---''" "newline # ar_body a"] assms
  by (simp add: serialize_memory_artifact_def dump_shape_def split_on_lines)

lemma serialize_newlines:
  assumes "dump_shape y (ar_fm a) s"
  shows "universal_newlines (serialize_memory_artifact y a) =
    serialize_memory_artifact y (a\<lparr>ar_body := universal_newlines (ar_body a)\<rparr>)"
proof -
  let ?h = "''---'' @ newline # s @ newline # ''---'' @ [newline]"
  have "carriage \<notin> set (?h @ [newline])" using assms by (simp add: dump_shape_def)
  then have "universal_newlines (?h @ [newline]) = ?h @ [newline]" by (rule universal_newlines_no_cr)
  then show ?thesis
    using universal_newlines_append[of ?h "ar_body a"] assms by (simp add: serialize_memory_artifact_def dump_shape_def)
qed

text \<open>
  The text between the delimiters as the reader finds them: the whole dump when no line of it reads as
  a delimiter, and otherwise what is before the first such line.
\<close>

lemma parse_serialized [codec_simps]:
  assumes "dump_shape y (ar_fm a) s"
  shows "list_all (\<lambda>l. \<not> delimiter l) (split_on newline s) \<Longrightarrow>
      parse_memory_file y (serialize_memory_artifact y a) =
        map_option (\<lambda>f. \<lparr>ar_fm = f, ar_body = universal_newlines (ar_body a)\<rparr>) (yl_load y s)"
    and "\<not> list_all (\<lambda>l. \<not> delimiter l) (split_on newline s) \<Longrightarrow>
      (\<exists>rest. parse_memory_file y (serialize_memory_artifact y a) =
        map_option (\<lambda>f. \<lparr>ar_fm = f, ar_body = rest\<rparr>)
          (yl_load y (join_lines (takeWhile (\<lambda>l. \<not> delimiter l) (split_on newline s)))))"
proof -
  let ?b = "a\<lparr>ar_body := universal_newlines (ar_body a)\<rparr>"
  have read: "parse_memory_file y (serialize_memory_artifact y a) = parse_memory_content y (serialize_memory_artifact y ?b)"
    by (simp add: parse_memory_file_def serialize_newlines[OF assms])
  have lines: "split_on newline (serialize_memory_artifact y ?b) =
      ''---'' # split_on newline s @ ''---'' # [] # split_on newline (ar_body ?b)"
    by (rule serialized_lines) (simp add: assms)
  {
    assume "list_all (\<lambda>l. \<not> delimiter l) (split_on newline s)"
    then have "takeWhile (\<lambda>l. \<not> delimiter l) (split_on newline s @ ''---'' # rest) = split_on newline s"
      and "dropWhile (\<lambda>l. \<not> delimiter l) (split_on newline s @ ''---'' # rest) = ''---'' # rest" for rest
      by (simp_all add: list_all_iff takeWhile_append2 dropWhile_append2)
    then show "parse_memory_file y (serialize_memory_artifact y a) =
        map_option (\<lambda>f. \<lparr>ar_fm = f, ar_body = universal_newlines (ar_body a)\<rparr>) (yl_load y s)"
      by (simp add: read parse_memory_content_def lines Let_def)
  next
    assume "\<not> list_all (\<lambda>l. \<not> delimiter l) (split_on newline s)"
    then obtain l where l: "l \<in> set (split_on newline s)" "delimiter l" by (auto simp: list_all_iff)
    then have take: "takeWhile (\<lambda>l. \<not> delimiter l) (split_on newline s @ rest) = takeWhile (\<lambda>l. \<not> delimiter l) (split_on newline s)"
      and drop: "dropWhile (\<lambda>l. \<not> delimiter l) (split_on newline s @ rest) = dropWhile (\<lambda>l. \<not> delimiter l) (split_on newline s) @ rest" for rest
      by (simp_all add: takeWhile_append1 dropWhile_append1)
    have "dropWhile (\<lambda>l. \<not> delimiter l) (split_on newline s) \<noteq> []" using l by (auto simp: dropWhile_eq_Nil_conv)
    then obtain m ms where "dropWhile (\<lambda>l. \<not> delimiter l) (split_on newline s) = m # ms" by (meson neq_Nil_conv)
    then show "\<exists>rest. parse_memory_file y (serialize_memory_artifact y a) =
        map_option (\<lambda>f. \<lparr>ar_fm = f, ar_body = rest\<rparr>)
          (yl_load y (join_lines (takeWhile (\<lambda>l. \<not> delimiter l) (split_on newline s))))"
      by (auto simp: read parse_memory_content_def lines Let_def take drop)
  }
qed

lemma resolve_from_append: "resolve_from acc (ps @ qs) = resolve_from (resolve_from acc ps) qs"
  by (induction acc ps rule: resolve_from.induct) auto

lemma safe_name:
  assumes "validate_path_safe i = Inr ()"
  shows "split_on (CHR ''/'') (i @ ''.md'') = [i @ ''.md'']" and "i @ ''.md'' \<notin> {''.'', ''..'', []}"
proof -
  have "CHR ''/'' \<notin> set i" "i \<noteq> []" using assms by (auto simp: validate_path_safe_def split: if_splits)
  then show "split_on (CHR ''/'') (i @ ''.md'') = [i @ ''.md'']" by (intro split_on_no_sep) simp
  show "i @ ''.md'' \<notin> {''.'', ''..'', []}" using \<open>i \<noteq> []\<close> by (auto simp: append_eq_Cons_conv)
qed

text \<open>
  C8: an artifact never leaves its category.  An identifier that artifact_path accepts names
  one file directly in the directory of its category, the containment check never fires after
  the character checks, and different identifiers or categories have different files.
\<close>

theorem artifact_path_confined:
  "artifact_path base c i = (case validate_path_safe i of
       Inl x \<Rightarrow> Inl x | Inr _ \<Rightarrow> Inr (category_dir base c @ [i @ ''.md''])) \<and>
   (artifact_path base c i = Inr p \<longrightarrow>
      resolve_path p = resolve_path (category_dir base c) @ [i @ ''.md''] \<and>
      (artifact_path base c' j = Inr p \<longrightarrow> c' = c \<and> j = i))"
proof -
  have eq: "artifact_path base c i = (case validate_path_safe i of
       Inl x \<Rightarrow> Inl x | Inr _ \<Rightarrow> Inr (category_dir base c @ [i @ ''.md'']))" for c i
  proof (cases "validate_path_safe i")
    case (Inr u)
    then show ?thesis using safe_name[of i]
      by (simp add: artifact_path_def Let_def resolve_path_def resolve_from_append)
  qed (simp add: artifact_path_def)
  moreover have "resolve_path p = resolve_path (category_dir base c) @ [i @ ''.md'']" if "artifact_path base c i = Inr p"
    using that safe_name[of i] unfolding eq
    by (auto simp: resolve_path_def resolve_from_append split: sum.splits)
  moreover have "c' = c \<and> j = i" if "artifact_path base c i = Inr p" "artifact_path base c' j = Inr p"
    using that unfolding eq by (auto simp: category_dir_def split: sum.splits)
  ultimately show ?thesis by blast
qed

theorem artifact_path_confined_witness:
  "artifact_path [''data''] Facts ''facts-1'' = Inr [''data'', ''memory'', ''facts'', ''facts-1.md''] \<and>
   resolve_path [''data'', ''memory'', ''facts'', ''facts-1.md''] = [''data'', ''memory'', ''facts'', ''facts-1.md'']"
proof -
  have "validate_path_safe ''facts-1'' = Inr ()" by code_simp
  then show ?thesis
    using artifact_path_confined[of "[''data'']" Facts "''facts-1''" "[''data'', ''memory'', ''facts'', ''facts-1.md'']"]
    by (simp add: category_dir_def resolve_path_def)
qed

text \<open>
  C9: what is written is what is read.  The file of an artifact is split where it was put
  together: when the YAML dump of the header ends with a newline, has no carriage return and no line
  that reads as the delimiter, exactly that dump is handed to YAML again, so the header read is the
  one YAML loads from its own dump (and the file is refused when YAML refuses that), and the body is
  the written one with every line end as a newline, unchanged when it has no carriage return.  When a
  line of the dump reads as the delimiter, the header is cut there.
\<close>

theorem memory_file_roundtrip:
  assumes "dump_shape y (ar_fm a) s"
  shows "if list_all (\<lambda>l. \<not> delimiter l) (split_on newline s)
    then parse_memory_file y (serialize_memory_artifact y a) =
        map_option (\<lambda>f. \<lparr>ar_fm = f, ar_body = universal_newlines (ar_body a)\<rparr>) (yl_load y s) \<and>
      (carriage \<notin> set (ar_body a) \<longrightarrow> universal_newlines (ar_body a) = ar_body a)
    else (\<exists>rest. parse_memory_file y (serialize_memory_artifact y a) =
        map_option (\<lambda>f. \<lparr>ar_fm = f, ar_body = rest\<rparr>)
          (yl_load y (join_lines (takeWhile (\<lambda>l. \<not> delimiter l) (split_on newline s)))))"
  using parse_serialized[OF assms] by (simp add: universal_newlines_no_cr)

definition demo_frontmatter :: "string \<Rightarrow> frontmatter" where
  "demo_frontmatter i = \<lparr>fm_id = i, fm_type = Facts, fm_tags = [''x''], fm_entities = [], fm_priority = 5,
     fm_confidence = 1, fm_updated = 0, fm_used = None, fm_created = None\<rparr>"

definition demo_yaml :: yaml_codec where
  "demo_yaml = \<lparr>yl_load = (\<lambda>s. if prefix ''memory_id: '' s then Some (demo_frontmatter (drop 11 s)) else None),
     yl_dump = (\<lambda>f. ''memory_id: '' @ fm_id f @ [newline])\<rparr>"

theorem memory_file_roundtrip_witness:
  "parse_memory_file demo_yaml (serialize_memory_artifact demo_yaml \<lparr>ar_fm = demo_frontmatter ''f-1'', ar_body = ''hi''\<rparr>) =
     Some \<lparr>ar_fm = demo_frontmatter ''f-1'', ar_body = ''hi''\<rparr>"
proof -
  let ?s = "''memory_id: f-1''"
  have shape: "dump_shape demo_yaml (demo_frontmatter ''f-1'') ?s" by code_simp
  have "list_all (\<lambda>l. \<not> delimiter l) (split_on newline ?s)" "yl_load demo_yaml ?s = Some (demo_frontmatter ''f-1'')"
    by code_simp+
  then show ?thesis
    using memory_file_roundtrip[of demo_yaml "\<lparr>ar_fm = demo_frontmatter ''f-1'', ar_body = ''hi''\<rparr>" ?s] shape by simp
qed

lemma codec_ok_text:
  assumes "\<forall>s f. yl_load y s = Some f \<longrightarrow> frontmatter_valid f"
  shows "codec_ok (text_codec y)"
  unfolding codec_ok_def
proof (intro allI impI)
  fix x b assume "mc_parse (text_codec y) x = Some b"
  then have "\<exists>s. yl_load y s = Some (ar_fm b)"
    by (auto simp: text_codec_def parse_memory_file_def parse_memory_content_def Let_def split: if_splits list.splits)
  then show "frontmatter_valid (ar_fm b)" using assms by blast
qed

lemma keeps_header_text:
  assumes "dump_shape y (ar_fm a) s" and "list_all (\<lambda>l. \<not> delimiter l) (split_on newline s)" and "yl_load y s = Some (ar_fm a)"
  shows "keeps_header (text_codec y) a"
  using parse_serialized(1)[OF assms(1,2)] assms(3) by (simp add: keeps_header_def text_codec_def)

end
