(* ===== verification/Memory_Index.thy ===== *)
theory Memory_Index
  imports Memory_Store
begin

text \<open>
  The indexes of the memory store: memory/indexing/indexer.py and the maintenance service.
  The files of a store are keyed by category and stem in the order a directory listing gives
  them.  An index file is missing, unreadable, or holds its table.  Time stamps are instants,
  whose order is that of the ISO texts the code sorts.
\<close>

type_synonym 'f mem_files = "((mem_type \<times> string) \<times> 'f) list"

text \<open>The glob of every category; files that do not parse are skipped.\<close>

definition category_artifacts :: "'f mem_codec \<Rightarrow> 'f mem_files \<Rightarrow> mem_type \<Rightarrow> artifact list" where
  "category_artifacts k files c = List.map_filter (\<lambda>f. if fst (fst f) = c then mc_parse k (snd f) else None) files"

definition scan_artifacts :: "'f mem_codec \<Rightarrow> 'f mem_files \<Rightarrow> artifact list" where
  "scan_artifacts k files = concat (map (category_artifacts k files) memory_categories)"

abbreviation ar_id :: "artifact \<Rightarrow> string" where
  "ar_id a \<equiv> fm_id (ar_fm a)"

section \<open>The tables\<close>

type_synonym id_table = "(string \<times> string list) list"

record indexes =
  ix_type :: id_table
  ix_tag :: id_table
  ix_entity :: id_table
  ix_project :: id_table
  ix_recency :: "(string \<times> time) list"

definition no_indexes :: indexes where
  "no_indexes = \<lparr>ix_type = [], ix_tag = [], ix_entity = [], ix_project = [], ix_recency = []\<rparr>"

text \<open>d.setdefault(k, []).append(m), and the loop over several keys.\<close>

definition enter :: "string \<Rightarrow> string \<Rightarrow> id_table \<Rightarrow> id_table" where
  "enter m k d = AList.update k ((case map_of d k of Some l \<Rightarrow> l | None \<Rightarrow> []) @ [m]) d"

definition recency_ts :: "artifact \<Rightarrow> time" where
  "recency_ts a = (case fm_used (ar_fm a) of Some t \<Rightarrow> t | None \<Rightarrow> fm_updated (ar_fm a))"

definition enter_project :: "artifact \<Rightarrow> id_table \<Rightarrow> id_table" where
  "enter_project a d =
     fold (enter (ar_id a)) (map py_lower (fm_entities (ar_fm a)))
       (if fm_type (ar_fm a) = Projects then enter (ar_id a) (ar_id a) d else d)"

definition enter_artifact :: "artifact \<Rightarrow> indexes \<Rightarrow> indexes" where
  "enter_artifact a ix =
     \<lparr>ix_type = enter (ar_id a) (mem_type_value (fm_type (ar_fm a))) (ix_type ix),
      ix_tag = fold (enter (ar_id a)) (map py_lower (fm_tags (ar_fm a))) (ix_tag ix),
      ix_entity = fold (enter (ar_id a)) (map py_lower (fm_entities (ar_fm a))) (ix_entity ix),
      ix_project = enter_project a (ix_project ix),
      ix_recency = ix_recency ix @ [(ar_id a, recency_ts a)]\<rparr>"

definition sort_recency :: "indexes \<Rightarrow> indexes" where
  "sort_recency ix = ix\<lparr>ix_recency := py_sorted_rev snd (ix_recency ix)\<rparr>"

definition build_indexes :: "artifact list \<Rightarrow> indexes" where
  "build_indexes as = sort_recency (fold enter_artifact as no_indexes)"

text \<open>The entries of m leave the lists of the keys, and lists that become empty go too.\<close>

definition drop_entry :: "string \<Rightarrow> string \<Rightarrow> id_table \<Rightarrow> id_table" where
  "drop_entry m k d =
     (case map_of d k of
        None \<Rightarrow> d
      | Some l \<Rightarrow> (let l' = filter (\<lambda>x. x \<noteq> m) l in if l' = [] then AList.delete k d else AList.update k l' d))"

definition drop_artifact :: "mem_type \<Rightarrow> string \<Rightarrow> string list \<Rightarrow> string list \<Rightarrow> indexes \<Rightarrow> indexes" where
  "drop_artifact c m tags entities ix =
     \<lparr>ix_type = drop_entry m (mem_type_value c) (ix_type ix),
      ix_tag = fold (drop_entry m) (map py_lower tags) (ix_tag ix),
      ix_entity = fold (drop_entry m) (map py_lower entities) (ix_entity ix),
      ix_project = fold (drop_entry m) (map py_lower entities) (AList.delete m (ix_project ix)),
      ix_recency = filter (\<lambda>x. fst x \<noteq> m) (ix_recency ix)\<rparr>"

section \<open>The index files\<close>

datatype 'a index_file = NoFile | Unreadable | Table 'a

record index_store =
  is_type :: "id_table index_file"
  is_tag :: "id_table index_file"
  is_entity :: "id_table index_file"
  is_project :: "id_table index_file"
  is_recency :: "(string \<times> time) list index_file"
  is_manifest :: "int index_file"

definition load_index :: "'a list index_file \<Rightarrow> 'a list" where
  "load_index f = (case f of Table d \<Rightarrow> d | _ \<Rightarrow> [])"

definition load_all_indexes :: "index_store \<Rightarrow> indexes" where
  "load_all_indexes s = \<lparr>ix_type = load_index (is_type s), ix_tag = load_index (is_tag s),
     ix_entity = load_index (is_entity s), ix_project = load_index (is_project s),
     ix_recency = load_index (is_recency s)\<rparr>"

definition indexes_exist :: "index_store \<Rightarrow> bool" where
  "indexes_exist s = (is_type s \<noteq> NoFile \<and> is_tag s \<noteq> NoFile \<and> is_entity s \<noteq> NoFile
     \<and> is_project s \<noteq> NoFile \<and> is_recency s \<noteq> NoFile)"

definition write_indexes :: "indexes \<Rightarrow> index_store \<Rightarrow> index_store" where
  "write_indexes ix s = s\<lparr>is_type := Table (ix_type ix), is_tag := Table (ix_tag ix),
     is_entity := Table (ix_entity ix), is_project := Table (ix_project ix), is_recency := Table (ix_recency ix)\<rparr>"

definition index_version :: int where
  "index_version = 1"

definition index_build :: "'f mem_codec \<Rightarrow> 'f mem_files \<Rightarrow> index_store \<Rightarrow> index_store" where
  "index_build k files s =
     (write_indexes (build_indexes (scan_artifacts k files)) s)\<lparr>is_manifest := Table index_version\<rparr>"

definition add_artifact :: "artifact \<Rightarrow> index_store \<Rightarrow> index_store" where
  "add_artifact a s = write_indexes (sort_recency (enter_artifact a (load_all_indexes s))) s"

definition remove_artifact ::
  "mem_type \<Rightarrow> string \<Rightarrow> string list \<Rightarrow> string list \<Rightarrow> index_store \<Rightarrow> index_store" where
  "remove_artifact c m tags entities s =
     (if \<not> indexes_exist s then s else write_indexes (drop_artifact c m tags entities (load_all_indexes s)) s)"

section \<open>Maintenance\<close>

definition table_ids :: "id_table \<Rightarrow> string list" where
  "table_ids d = concat (map snd d)"

definition gather_indexed_ids :: "indexes \<Rightarrow> string list" where
  "gather_indexed_ids ix = remdups (table_ids (ix_type ix) @ table_ids (ix_tag ix) @ table_ids (ix_entity ix)
     @ table_ids (ix_project ix) @ map fst (ix_recency ix))"

definition index_health :: "string \<Rightarrow> 'a index_file \<Rightarrow> string option" where
  "index_health name f = (case f of NoFile \<Rightarrow> Some (''index_missing:'' @ name)
     | Unreadable \<Rightarrow> Some (''index_parse_failure:'' @ name) | Table _ \<Rightarrow> None)"

text \<open>The reason why the indexes are degraded, None when they are healthy.\<close>

definition check_integrity :: "index_store \<Rightarrow> string option" where
  "check_integrity s =
     (case is_manifest s of
        NoFile \<Rightarrow> Some ''index_manifest_missing''
      | Unreadable \<Rightarrow> Some ''index_manifest_corrupt''
      | Table v \<Rightarrow>
          if v \<noteq> index_version
          then Some (''index_version_mismatch: expected '' @ show_int index_version @ '', got '' @ show_int v)
          else find (\<lambda>_. True) (List.map_filter id
            [index_health ''index_by_type.json'' (is_type s), index_health ''index_by_tag.json'' (is_tag s),
             index_health ''index_by_entity.json'' (is_entity s), index_health ''index_by_project.json'' (is_project s),
             index_health ''index_by_recency.json'' (is_recency s)]))"

record consistency_report =
  cr_indexed :: "string list"
  cr_scanned :: "string list"
  cr_orphaned :: "string list"
  cr_missing :: "string list"

definition cr_consistent :: "consistency_report \<Rightarrow> bool" where
  "cr_consistent r = (cr_orphaned r = [] \<and> cr_missing r = [])"

definition run_consistency_scan :: "'f mem_codec \<Rightarrow> 'f mem_files \<Rightarrow> index_store \<Rightarrow> consistency_report" where
  "run_consistency_scan k files s =
     (let indexed = gather_indexed_ids (load_all_indexes s);
          scanned = remdups (map ar_id (scan_artifacts k files))
      in \<lparr>cr_indexed = indexed, cr_scanned = scanned,
          cr_orphaned = filter (\<lambda>i. i \<notin> set scanned) indexed,
          cr_missing = filter (\<lambda>i. i \<notin> set indexed) scanned\<rparr>)"

text \<open>The status of a repair, the number of artifacts, the issues, and the indexes.\<close>

definition rebuild :: "'f mem_codec \<Rightarrow> 'f mem_files \<Rightarrow> index_store \<Rightarrow> (string \<times> nat \<times> string list) \<times> index_store" where
  "rebuild k files s = ((''full_rebuild'', length (scan_artifacts k files), []), index_build k files s)"

definition repair :: "'f mem_codec \<Rightarrow> 'f mem_files \<Rightarrow> index_store \<Rightarrow> (string \<times> nat \<times> string list) \<times> index_store" where
  "repair k files s =
     (case check_integrity s of
        Some reason \<Rightarrow> (case rebuild k files s of ((st, n, issues), s') \<Rightarrow> ((st, n, issues @ [reason]), s'))
      | None \<Rightarrow>
          (let r = run_consistency_scan k files s
           in if cr_consistent r then ((''no_action'', length (cr_scanned r), []), s)
              else (case rebuild k files s of ((_, n, _), s') \<Rightarrow>
                ((''repair'', n, [''orphaned:'' @ show_int (int (length (cr_orphaned r))),
                   ''missing:'' @ show_int (int (length (cr_missing r)))]), s'))))"


section \<open>Entries of a table\<close>

definition entry :: "id_table \<Rightarrow> string \<Rightarrow> string \<Rightarrow> bool" where
  "entry d k m = (\<exists>l. map_of d k = Some l \<and> m \<in> set l)"

lemma entry_Nil [simp]: "\<not> entry [] k m"
  by (simp add: entry_def)

lemma distinct_enter: "distinct (map fst d) \<Longrightarrow> distinct (map fst (enter m k d))"
  by (simp add: enter_def distinct_update)

lemma entry_any:
  assumes "distinct (map fst d)"
  shows "(\<exists>l \<in> snd ` set d. m \<in> set l) \<longleftrightarrow> (\<exists>k. entry d k m)"
proof
  assume "\<exists>l \<in> snd ` set d. m \<in> set l"
  then obtain k l where "(k, l) \<in> set d" "m \<in> set l" by auto
  then show "\<exists>k. entry d k m" using assms by (auto simp: entry_def)
next
  assume "\<exists>k. entry d k m"
  then obtain k l where "map_of d k = Some l" "m \<in> set l" by (auto simp: entry_def)
  then show "\<exists>l \<in> snd ` set d. m \<in> set l" using map_of_in_values by fast
qed

lemma entry_enter [store_simps]: "entry (enter x j d) k m \<longleftrightarrow> entry d k m \<or> (k = j \<and> m = x)"
  by (cases "map_of d j"; cases "k = j") (auto simp: entry_def enter_def)

lemma entry_enters [store_simps]: "entry (fold (enter x) js d) k m \<longleftrightarrow> entry d k m \<or> (k \<in> set js \<and> m = x)"
  by (induction js arbitrary: d) (auto simp: entry_enter)

lemma entry_drop [store_simps]: "entry (drop_entry x j d) k m \<longleftrightarrow> entry d k m \<and> \<not> (k = j \<and> m = x)"
proof (cases "map_of d j")
  case None
  then show ?thesis by (auto simp: entry_def drop_entry_def)
next
  case (Some l)
  then show ?thesis
    by (cases "k = j"; cases "filter (\<lambda>y. y \<noteq> x) l = []")
      (auto simp: entry_def drop_entry_def Let_def filter_empty_conv)
qed

lemma entry_drops [store_simps]:
  "entry (fold (drop_entry x) js d) k m \<longleftrightarrow> entry d k m \<and> \<not> (k \<in> set js \<and> m = x)"
  by (induction js arbitrary: d) (auto simp: entry_drop)

lemma entry_delete [store_simps]: "entry (AList.delete j d) k m \<longleftrightarrow> entry d k m \<and> k \<noteq> j"
  by (cases "k = j") (auto simp: entry_def)

section \<open>What the indexes say\<close>

definition has_tag :: "artifact \<Rightarrow> string \<Rightarrow> bool" where
  "has_tag a k = (k \<in> py_lower ` set (fm_tags (ar_fm a)))"

definition has_entity :: "artifact \<Rightarrow> string \<Rightarrow> bool" where
  "has_entity a k = (k \<in> py_lower ` set (fm_entities (ar_fm a)))"

text \<open>
  The tables describe the artifacts A: those by type, tag, entity and time exactly, and the
  one by project has every project under its own identifier and no entry without a reason.
\<close>

definition index_spec :: "artifact set \<Rightarrow> indexes \<Rightarrow> bool" where
  "index_spec A ix =
     (distinct (map fst (ix_type ix)) \<and> (\<forall>k m. entry (ix_type ix) k m \<longleftrightarrow> (\<exists>a \<in> A. ar_id a = m \<and> mem_type_value (fm_type (ar_fm a)) = k)) \<and>
      (\<forall>k m. entry (ix_tag ix) k m \<longleftrightarrow> (\<exists>a \<in> A. ar_id a = m \<and> has_tag a k)) \<and>
      (\<forall>k m. entry (ix_entity ix) k m \<longleftrightarrow> (\<exists>a \<in> A. ar_id a = m \<and> has_entity a k)) \<and>
      (\<forall>k m. entry (ix_project ix) k m \<longrightarrow>
         (\<exists>a \<in> A. ar_id a = m \<and> (has_entity a k \<or> (k = m \<and> fm_type (ar_fm a) = Projects)))) \<and>
      (\<forall>a \<in> A. fm_type (ar_fm a) = Projects \<longrightarrow> entry (ix_project ix) (ar_id a) (ar_id a)) \<and>
      (\<forall>m t. (m, t) \<in> set (ix_recency ix) \<longleftrightarrow> (\<exists>a \<in> A. ar_id a = m \<and> recency_ts a = t)))"

lemma spec_sort [simp]: "index_spec A (sort_recency ix) \<longleftrightarrow> index_spec A ix"
  by (simp add: index_spec_def sort_recency_def)

lemma spec_empty: "index_spec {} no_indexes"
  by (simp add: index_spec_def no_indexes_def)

lemma entry_project:
  "entry (enter_project a d) k m \<longleftrightarrow> entry d k m \<or> (m = ar_id a \<and> (has_entity a k \<or> (k = m \<and> fm_type (ar_fm a) = Projects)))"
  by (auto simp: enter_project_def store_simps has_entity_def)

lemma spec_enter:
  assumes "index_spec A ix"
  shows "index_spec (insert a A) (enter_artifact a ix)"
  using assms unfolding index_spec_def enter_artifact_def
  by (auto simp: store_simps entry_project has_tag_def has_entity_def distinct_enter)

lemma spec_build: "index_spec (set as) (build_indexes as)"
proof -
  have "index_spec (A \<union> set as) (fold enter_artifact as ix)" if "index_spec A ix" for A ix
    using that
  proof (induction as arbitrary: A ix)
    case (Cons a as)
    then show ?case using Cons.IH[OF spec_enter[OF Cons.prems, of a]] by simp
  qed simp
  from this[OF spec_empty] show ?thesis by (simp add: build_indexes_def)
qed

text \<open>
  Removing the entries of m, with the category, tags and entities of the artifact it names,
  leaves the description of the other artifacts.
\<close>

lemma spec_drop:
  assumes "index_spec A ix"
    and "\<forall>a \<in> A. ar_id a = m \<longrightarrow> fm_type (ar_fm a) = c \<and> fm_tags (ar_fm a) = tags \<and> fm_entities (ar_fm a) = entities"
  shows "index_spec {a \<in> A. ar_id a \<noteq> m} (drop_artifact c m tags entities ix)"
proof -
  note s = assms(1)[unfolded index_spec_def]
  let ?B = "{a \<in> A. ar_id a \<noteq> m}" and ?jx = "drop_artifact c m tags entities ix"
  have ty: "entry (ix_type ?jx) k i \<longleftrightarrow> (\<exists>a \<in> ?B. ar_id a = i \<and> mem_type_value (fm_type (ar_fm a)) = k)" for k i
    using s assms(2) by (auto simp: drop_artifact_def store_simps)
  have tag: "entry (ix_tag ?jx) k i \<longleftrightarrow> (\<exists>a \<in> ?B. ar_id a = i \<and> has_tag a k)" for k i
    using s assms(2) by (auto simp: drop_artifact_def store_simps has_tag_def)
  have ent: "entry (ix_entity ?jx) k i \<longleftrightarrow> (\<exists>a \<in> ?B. ar_id a = i \<and> has_entity a k)" for k i
    using s assms(2) by (auto simp: drop_artifact_def store_simps has_entity_def)
  have pr: "\<exists>a \<in> ?B. ar_id a = i \<and> (has_entity a k \<or> (k = i \<and> fm_type (ar_fm a) = Projects))"
    if "entry (ix_project ?jx) k i" for k i
  proof -
    from that have e: "entry (ix_project ix) k i" "k \<noteq> m" "\<not> (k \<in> py_lower ` set entities \<and> i = m)"
      by (auto simp: drop_artifact_def store_simps)
    then obtain a where a: "a \<in> A" "ar_id a = i" "has_entity a k \<or> (k = i \<and> fm_type (ar_fm a) = Projects)"
      using s by blast
    then have "i \<noteq> m" using e assms(2) by (auto simp: has_entity_def)
    then show ?thesis using a by blast
  qed
  have own: "entry (ix_project ?jx) (ar_id a) (ar_id a)" if "a \<in> ?B" "fm_type (ar_fm a) = Projects" for a
    using that s by (auto simp: drop_artifact_def store_simps)
  have rec: "(i, t) \<in> set (ix_recency ?jx) \<longleftrightarrow> (\<exists>a \<in> ?B. ar_id a = i \<and> recency_ts a = t)" for i t
    using s by (auto simp: drop_artifact_def)
  have dist: "distinct (map fst (ix_type ?jx))"
    using s by (simp add: drop_artifact_def drop_entry_def Let_def distinct_update distinct_delete split: option.split)
  show ?thesis unfolding index_spec_def by (intro conjI allI ballI impI dist ty tag ent pr own rec)
qed

lemma write_indexes_simps [simp]:
  "load_all_indexes (write_indexes ix s) = ix" "indexes_exist (write_indexes ix s)"
  "load_all_indexes (s\<lparr>is_manifest := v\<rparr>) = load_all_indexes s" "indexes_exist (s\<lparr>is_manifest := v\<rparr>) = indexes_exist s"
  by (simp_all add: load_all_indexes_def write_indexes_def load_index_def indexes_exist_def)

lemma set_map_filter: "set (List.map_filter f xs) = {y. \<exists>x \<in> set xs. f x = Some y}"
  by (induction xs) (auto simp: map_filter_Nil map_filter_Cons split: option.splits)

lemma set_scan: "set (scan_artifacts k files) = {a. \<exists>f \<in> set files. mc_parse k (snd f) = Some a}"
  by (auto simp: scan_artifacts_def category_artifacts_def set_map_filter split: if_splits)

lemma build_loads [simp]:
  "load_all_indexes (index_build k files s) = build_indexes (scan_artifacts k files)" "indexes_exist (index_build k files s)"
  by (simp_all add: index_build_def)

end
