(* ===== verification/Memory_Write.thy ===== *)
theory Memory_Write
  imports Memory_Index "HOL-Library.Product_Lexorder"
begin

text \<open>
  The controlled writes of the memory store: memory/write/service.py, dedup.py and
  intent_audit.py.  The state is the files, the indexes, the intents the running service has
  seen and the audit log on disk.  The clock, the fresh hexadecimal suffix and the texts of
  errors and floats are parameters.
\<close>

section \<open>Intents and answers\<close>

record candidate =
  cd_tags :: "string list"
  cd_entities :: "string list"
  cd_priority :: int
  cd_confidence :: rat
  cd_body :: string

definition candidate_valid :: "candidate \<Rightarrow> bool" where
  "candidate_valid c = (0 \<le> cd_priority c \<and> cd_priority c \<le> 10 \<and> 0 \<le> cd_confidence c \<and> cd_confidence c \<le> 1)"

datatype update_action = Upsert | DeleteMemory | Touch

record update_intent =
  in_id :: string
  in_action :: update_action
  in_type :: mem_type
  in_memory :: "string option"
  in_candidate :: "candidate option"

datatype write_status =
    Written | Updated | Deleted | Touched | SkippedLowConfidence | IdempotentNoop | RejectedInvalid

fun write_status_value :: "write_status \<Rightarrow> string" where
  "write_status_value Written = ''written''"
| "write_status_value Updated = ''updated''"
| "write_status_value Deleted = ''deleted''"
| "write_status_value Touched = ''touched''"
| "write_status_value SkippedLowConfidence = ''skipped_low_confidence''"
| "write_status_value IdempotentNoop = ''idempotent_noop''"
| "write_status_value RejectedInvalid = ''rejected_invalid''"

record write_audit =
  au_intent :: string
  au_status :: write_status
  au_memory :: "string option"
  au_reason :: string

section \<open>Consolidation\<close>

definition lower_set :: "string list \<Rightarrow> string set" where
  "lower_set xs = py_lower ` set xs"

definition overlap :: "string list \<Rightarrow> string list \<Rightarrow> frontmatter \<Rightarrow> nat" where
  "overlap tags entities f =
     card (lower_set tags \<inter> lower_set (fm_tags f)) + card (lower_set entities \<inter> lower_set (fm_entities f))"

text \<open>The artifact of the category with the largest overlap, then confidence, first in the listing.\<close>

definition find_dedup_target ::
  "'f mem_codec \<Rightarrow> 'f mem_files \<Rightarrow> mem_type \<Rightarrow> string list \<Rightarrow> string list \<Rightarrow> string option" where
  "find_dedup_target k files c tags entities =
     (case py_sorted_rev (\<lambda>a. (overlap tags entities (ar_fm a), fm_confidence (ar_fm a)))
        (filter (\<lambda>a. overlap tags entities (ar_fm a) > 0) (category_artifacts k files c)) of
        [] \<Rightarrow> None | a # _ \<Rightarrow> Some (ar_id a))"

definition stable_union :: "string list \<Rightarrow> string list \<Rightarrow> string list" where
  "stable_union a b =
     snd (fold (\<lambda>x (seen, result). if py_lower x \<in> set seen then (seen, result)
            else (py_lower x # seen, result @ [x])) (a @ b) ([], []))"

definition body_sep :: string where
  "body_sep = [newline, newline] @ ''---'' @ [newline, newline]"

definition merge_artifact :: "artifact \<Rightarrow> candidate \<Rightarrow> time \<Rightarrow> artifact" where
  "merge_artifact existing c now =
     (let f = ar_fm existing; old = py_strip (ar_body existing); new = py_strip (cd_body c)
      in \<lparr>ar_fm = \<lparr>fm_id = fm_id f, fm_type = fm_type f, fm_tags = stable_union (fm_tags f) (cd_tags c),
            fm_entities = stable_union (fm_entities f) (cd_entities c),
            fm_priority = max (fm_priority f) (cd_priority c), fm_confidence = max (fm_confidence f) (cd_confidence c),
            fm_updated = now, fm_used = fm_used f, fm_created = fm_created f\<rparr>,
          ar_body = (if new \<noteq> [] then (if old \<noteq> [] then old @ body_sep @ new else new) else old)\<rparr>)"

section \<open>The service\<close>

record 'f memory =
  me_files :: "'f mem_files"
  me_index :: index_store
  me_seen :: "string list"
  me_log :: "log_file option"

record 'f write_env =
  we_codec :: "'f mem_codec"
  we_base :: "string list"
  we_min :: rat
  we_dedup :: bool
  we_show :: "rat \<Rightarrow> string"
  we_parse_error :: "'f \<Rightarrow> string"
  we_pieces :: "dict \<Rightarrow> pyval option list"

definition rejected_audit :: "update_intent \<Rightarrow> string option \<Rightarrow> string \<Rightarrow> write_audit" where
  "rejected_audit i m reason = \<lparr>au_intent = in_id i, au_status = RejectedInvalid, au_memory = m, au_reason = reason\<rparr>"

definition done_audit :: "update_intent \<Rightarrow> write_status \<Rightarrow> string \<Rightarrow> string \<Rightarrow> write_audit" where
  "done_audit i st m reason = \<lparr>au_intent = in_id i, au_status = st, au_memory = Some m, au_reason = reason\<rparr>"

definition given_memory :: "update_intent \<Rightarrow> string option" where
  "given_memory i = (case in_memory i of Some m \<Rightarrow> if m \<noteq> [] then Some m else None | None \<Rightarrow> None)"

definition generate_memory_id :: "mem_type \<Rightarrow> string \<Rightarrow> string" where
  "generate_memory_id c hex12 = mem_type_value c @ ''-'' @ hex12"

definition read_artifact :: "'f mem_codec \<Rightarrow> 'f mem_files \<Rightarrow> mem_type \<Rightarrow> string \<Rightarrow> artifact option" where
  "read_artifact k files c m = Option.bind (map_of files (c, m)) (mc_parse k)"

definition fresh_artifact :: "string \<Rightarrow> mem_type \<Rightarrow> candidate \<Rightarrow> time \<Rightarrow> time option \<Rightarrow> time option \<Rightarrow> artifact" where
  "fresh_artifact m c cand now used created =
     \<lparr>ar_fm = \<lparr>fm_id = m, fm_type = c, fm_tags = cd_tags cand, fm_entities = cd_entities cand,
        fm_priority = cd_priority cand, fm_confidence = cd_confidence cand, fm_updated = now,
        fm_used = used, fm_created = created\<rparr>, ar_body = cd_body cand\<rparr>"

text \<open>The artifact an upsert writes: merged into the old one, replacing it, or new.\<close>

definition upsert_artifact ::
  "'f mem_codec \<Rightarrow> 'f mem_files \<Rightarrow> update_intent \<Rightarrow> candidate \<Rightarrow> string \<Rightarrow> bool \<Rightarrow> bool \<Rightarrow> time \<Rightarrow> artifact" where
  "upsert_artifact k files i cand m is_update is_merge now =
     (let there = map_of files (in_type i, m) \<noteq> None; existing = read_artifact k files (in_type i) m
      in if is_merge \<and> there then
           (case existing of Some e \<Rightarrow> merge_artifact e cand now
            | None \<Rightarrow> fresh_artifact m (in_type i) cand now None None)
         else if is_update \<and> there then
           (case existing of
              Some e \<Rightarrow> fresh_artifact m (in_type i) cand now (fm_used (ar_fm e)) (fm_created (ar_fm e))
            | None \<Rightarrow> fresh_artifact m (in_type i) cand now None (Some now))
         else fresh_artifact m (in_type i) cand now None (if \<not> is_update then Some now else None))"

definition old_tags :: "artifact option \<Rightarrow> string list" where
  "old_tags e = (case e of Some a \<Rightarrow> fm_tags (ar_fm a) | None \<Rightarrow> [])"

definition old_entities :: "artifact option \<Rightarrow> string list" where
  "old_entities e = (case e of Some a \<Rightarrow> fm_entities (ar_fm a) | None \<Rightarrow> [])"

text \<open>The indexes after the file of an artifact was written.\<close>

definition index_written ::
  "'f write_env \<Rightarrow> 'f mem_files \<Rightarrow> update_intent \<Rightarrow> string \<Rightarrow> bool \<Rightarrow> artifact option \<Rightarrow> artifact
    \<Rightarrow> index_store \<Rightarrow> index_store" where
  "index_written e files i m is_update existing a ix =
     (if indexes_exist ix then
        add_artifact a (if is_update then remove_artifact (in_type i) m (old_tags existing) (old_entities existing) ix else ix)
      else index_build (we_codec e) files ix)"

text \<open>The identifier, whether it exists, and whether deduplication found it.\<close>

definition upsert_target ::
  "'f write_env \<Rightarrow> 'f mem_files \<Rightarrow> update_intent \<Rightarrow> candidate \<Rightarrow> string \<Rightarrow> exn + (string \<times> bool \<times> bool)" where
  "upsert_target e files i cand hex12 =
     (case given_memory i of
        Some m \<Rightarrow>
          (case artifact_path (we_base e) (in_type i) m of
             Inl x \<Rightarrow> Inl x
           | Inr _ \<Rightarrow> Inr (m, map_of files (in_type i, m) \<noteq> None, False))
      | None \<Rightarrow>
          (let found = (if we_dedup e
                        then find_dedup_target (we_codec e) files (in_type i) (cd_tags cand) (cd_entities cand) else None);
               m = (case found of Some d \<Rightarrow> d | None \<Rightarrow> generate_memory_id (in_type i) hex12)
           in case artifact_path (we_base e) (in_type i) m of
                Inl x \<Rightarrow> Inl x
              | Inr _ \<Rightarrow> Inr (m, found \<noteq> None, found \<noteq> None)))"

definition upsert_memory ::
  "'f write_env \<Rightarrow> string \<Rightarrow> time \<Rightarrow> update_intent \<Rightarrow> 'f memory \<Rightarrow> (exn + write_audit) \<times> 'f memory" where
  "upsert_memory e hex12 now i s =
     (case in_candidate i of
        None \<Rightarrow> (Inr (rejected_audit i None ''upsert requires candidate''), s)
      | Some cand \<Rightarrow>
          if cd_confidence cand < we_min e then
            (Inr \<lparr>au_intent = in_id i, au_status = SkippedLowConfidence, au_memory = None,
               au_reason = ''confidence '' @ we_show e (cd_confidence cand) @ '' below threshold '' @ we_show e (we_min e)\<rparr>, s)
          else
            (case upsert_target e (me_files s) i cand hex12 of
               Inl x \<Rightarrow> (Inl x, s)
             | Inr (m, is_update, is_merge) \<Rightarrow>
                 (let existing = (if is_update then read_artifact (we_codec e) (me_files s) (in_type i) m else None);
                      a = upsert_artifact (we_codec e) (me_files s) i cand m is_update is_merge now;
                      files = AList.update (in_type i, m) (mc_print (we_codec e) a) (me_files s)
                  in (Inr (done_audit i (if is_update then Updated else Written) m []),
                      s\<lparr>me_files := files, me_index := index_written e files i m is_update existing a (me_index s)\<rparr>))))"

definition delete_memory :: "'f write_env \<Rightarrow> update_intent \<Rightarrow> 'f memory \<Rightarrow> (exn + write_audit) \<times> 'f memory" where
  "delete_memory e i s =
     (case given_memory i of
        None \<Rightarrow> (Inr (rejected_audit i None ''delete requires memory_id''), s)
      | Some m \<Rightarrow>
          (case artifact_path (we_base e) (in_type i) m of
             Inl x \<Rightarrow> (Inl x, s)
           | Inr _ \<Rightarrow>
               if map_of (me_files s) (in_type i, m) = None then (Inr (done_audit i Deleted m ''already absent''), s)
               else
                 (let existing = read_artifact (we_codec e) (me_files s) (in_type i) m
                  in (Inr (done_audit i Deleted m []),
                      s\<lparr>me_files := AList.delete (in_type i, m) (me_files s),
                        me_index := remove_artifact (in_type i) m (old_tags existing) (old_entities existing) (me_index s)\<rparr>))))"

definition touch_memory ::
  "'f write_env \<Rightarrow> time \<Rightarrow> update_intent \<Rightarrow> 'f memory \<Rightarrow> (exn + write_audit) \<times> 'f memory" where
  "touch_memory e now i s =
     (case given_memory i of
        None \<Rightarrow> (Inr (rejected_audit i None ''touch requires memory_id''), s)
      | Some m \<Rightarrow>
          (case artifact_path (we_base e) (in_type i) m of
             Inl x \<Rightarrow> (Inl x, s)
           | Inr _ \<Rightarrow>
               (case map_of (me_files s) (in_type i, m) of
                  None \<Rightarrow> (Inr (rejected_audit i (Some m) ''artifact not found''), s)
                | Some f \<Rightarrow>
                    (case mc_parse (we_codec e) f of
                       None \<Rightarrow> (Inr (rejected_audit i (Some m) (we_parse_error e f)), s)
                     | Some old \<Rightarrow>
                         (let a = old\<lparr>ar_fm := (ar_fm old)\<lparr>fm_used := Some now\<rparr>\<rparr>;
                              files = AList.update (in_type i, m) (mc_print (we_codec e) a) (me_files s)
                          in (Inr (done_audit i Touched m []),
                              s\<lparr>me_files := files, me_index := index_written e files i m True (Some old) a (me_index s)\<rparr>))))))"

definition apply_intent_impl ::
  "'f write_env \<Rightarrow> string \<Rightarrow> time \<Rightarrow> update_intent \<Rightarrow> 'f memory \<Rightarrow> (exn + write_audit) \<times> 'f memory" where
  "apply_intent_impl e hex12 now i s =
     (case in_action i of
        Upsert \<Rightarrow> upsert_memory e hex12 now i s
      | DeleteMemory \<Rightarrow> delete_memory e i s
      | Touch \<Rightarrow> touch_memory e now i s)"

definition audit_line :: "write_audit \<Rightarrow> dict" where
  "audit_line a = [(''intent_id'', PStr (au_intent a)), (''status'', PStr (write_status_value (au_status a))),
     (''memory_id'', of_opt PStr (au_memory a))]"

definition apply_intent ::
  "'f write_env \<Rightarrow> string \<Rightarrow> time \<Rightarrow> update_intent \<Rightarrow> 'f memory \<Rightarrow> (exn + write_audit) \<times> 'f memory" where
  "apply_intent e hex12 now i s =
     (if in_id i \<in> set (me_seen s)
      then (Inr \<lparr>au_intent = in_id i, au_status = IdempotentNoop, au_memory = None, au_reason = ''duplicate intent_id''\<rparr>, s)
      else
        (case apply_intent_impl e hex12 now i s of
           (Inr a, s') \<Rightarrow>
             (Inr a, if au_status a \<in> {RejectedInvalid, IdempotentNoop} then s'
                     else s'\<lparr>me_seen := in_id i # me_seen s', me_log := Some (file_append_lines [audit_line a] (me_log s'))\<rparr>)
         | r \<Rightarrow> r))"

text \<open>
  A new service reads the audit log.  The lines are written without escapes beyond the control
  characters, and str.splitlines also breaks at U+0085, so a record with that character falls into
  pieces; pieces gives what json.loads makes of each, None for text it rejects.  A line that is no
  JSON is skipped as a whole, and a piece that is JSON but no object raises.
\<close>

fun nel_free :: "pyval \<Rightarrow> bool" where
  "nel_free (PStr s) = (CHR 0x85 \<notin> set s)"
| "nel_free (PList vs) = (\<forall>v \<in> set vs. nel_free v)"
| "nel_free (PDict d) = (\<forall>e \<in> set d. CHR 0x85 \<notin> set (fst e) \<and> nel_free (snd e))"
| "nel_free _ = True"

definition line_values :: "(dict \<Rightarrow> pyval option list) \<Rightarrow> doc \<Rightarrow> pyval option list" where
  "line_values pieces l =
     (case l of NotJson \<Rightarrow> [None] | Obj d \<Rightarrow> if nel_free (PDict d) then [Some (PDict d)] else pieces d)"

fun collect_ids :: "pyval option list \<Rightarrow> exn + string list" where
  "collect_ids [] = Inr []"
| "collect_ids (None # vs) = collect_ids vs"
| "collect_ids (Some v # vs) =
     (case v of
        PDict d \<Rightarrow> map_sum id (\<lambda>ids. case as_str (dget d ''intent_id'') of Some i \<Rightarrow> i # ids | None \<Rightarrow> ids) (collect_ids vs)
      | _ \<Rightarrow> Inl (OtherError ''AttributeError''))"

definition load_seen_intent_ids :: "(dict \<Rightarrow> pyval option list) \<Rightarrow> log_file option \<Rightarrow> exn + string list" where
  "load_seen_intent_ids pieces f =
     (case f of None \<Rightarrow> Inr [] | Some g \<Rightarrow> collect_ids (concat (map (line_values pieces) (log_lines g))))"

definition restart_memory :: "'f write_env \<Rightarrow> 'f memory \<Rightarrow> exn + 'f memory" where
  "restart_memory e s = map_sum id (\<lambda>ids. s\<lparr>me_seen := ids\<rparr>) (load_seen_intent_ids (we_pieces e) (me_log s))"

section \<open>The files and the indexes stay in step\<close>

text \<open>
  Every file is named after the artifact in it and lies in its category, and no two
  categories have files of one name.
\<close>

definition files_ok :: "'f mem_codec \<Rightarrow> 'f mem_files \<Rightarrow> bool" where
  "files_ok k files = (distinct (map fst files) \<and>
     (\<forall>f \<in> set files. \<forall>a. mc_parse k (snd f) = Some a \<longrightarrow> fst f = (fm_type (ar_fm a), ar_id a)) \<and>
     (\<forall>f \<in> set files. \<forall>g \<in> set files. snd (fst f) = snd (fst g) \<longrightarrow> fst f = fst g))"

definition memory_ok :: "'f mem_codec \<Rightarrow> 'f memory \<Rightarrow> bool" where
  "memory_ok k s = (files_ok k (me_files s) \<and>
     (indexes_exist (me_index s) \<longrightarrow>
        index_spec (set (scan_artifacts k (me_files s))) (load_all_indexes (me_index s))))"

text \<open>An identifier that no other category uses.\<close>

definition own_name :: "'f mem_files \<Rightarrow> mem_type \<Rightarrow> string \<Rightarrow> bool" where
  "own_name files c m = (\<forall>f \<in> set files. snd (fst f) = m \<longrightarrow> fst (fst f) = c)"

lemma files_ok_update:
  assumes "files_ok k files" and "own_name files c m"
    and "mc_parse k x = Some a" and "ar_id a = m" and "fm_type (ar_fm a) = c"
  shows "files_ok k (AList.update (c, m) x files)"
  using assms by (force simp: files_ok_def own_name_def set_update distinct_update)

lemma files_ok_delete: "files_ok k files \<Longrightarrow> files_ok k (AList.delete key files)"
  by (simp add: files_ok_def set_delete distinct_delete)

lemma scan_others:
  assumes "files_ok k files" and "own_name files c m"
  shows "{a. \<exists>f \<in> set files. fst f \<noteq> (c, m) \<and> mc_parse k (snd f) = Some a} =
    {a \<in> set (scan_artifacts k files). ar_id a \<noteq> m}"
proof (intro set_eqI iffI)
  fix a assume "a \<in> {a. \<exists>f \<in> set files. fst f \<noteq> (c, m) \<and> mc_parse k (snd f) = Some a}"
  then obtain f where f: "f \<in> set files" "fst f \<noteq> (c, m)" "mc_parse k (snd f) = Some a" by blast
  then have "fst f = (fm_type (ar_fm a), ar_id a)" using assms(1) by (simp add: files_ok_def)
  then have "ar_id a \<noteq> m" using f(1,2) assms(2) by (auto simp: own_name_def)
  then show "a \<in> {a \<in> set (scan_artifacts k files). ar_id a \<noteq> m}" using f by (auto simp: set_scan)
next
  fix a assume a: "a \<in> {a \<in> set (scan_artifacts k files). ar_id a \<noteq> m}"
  then obtain f where f: "f \<in> set files" "mc_parse k (snd f) = Some a" by (auto simp: set_scan)
  then have "fst f = (fm_type (ar_fm a), ar_id a)" using assms(1) by (simp add: files_ok_def)
  then have "fst f \<noteq> (c, m)" using a by simp
  then show "a \<in> {a. \<exists>f \<in> set files. fst f \<noteq> (c, m) \<and> mc_parse k (snd f) = Some a}" using f by blast
qed

lemma scan_update:
  assumes "files_ok k files" and "own_name files c m" and "mc_parse k x = Some a"
  shows "set (scan_artifacts k (AList.update (c, m) x files)) =
    insert a {b \<in> set (scan_artifacts k files). ar_id b \<noteq> m}"
proof -
  have "set (AList.update (c, m) x files) = insert ((c, m), x) {f \<in> set files. fst f \<noteq> (c, m)}"
    using assms(1) by (simp add: files_ok_def set_update)
  then have "set (scan_artifacts k (AList.update (c, m) x files)) =
      {b. \<exists>f \<in> insert ((c, m), x) {f \<in> set files. fst f \<noteq> (c, m)}. mc_parse k (snd f) = Some b}"
    by (simp only: set_scan)
  also have "\<dots> = insert a {b. \<exists>f \<in> set files. fst f \<noteq> (c, m) \<and> mc_parse k (snd f) = Some b}"
    using assms(3) by (auto simp del: split_paired_Ex)
  finally show ?thesis by (simp only: scan_others[OF assms(1,2)])
qed

lemma scan_delete:
  assumes "files_ok k files" and "own_name files c m"
  shows "set (scan_artifacts k (AList.delete (c, m) files)) = {b \<in> set (scan_artifacts k files). ar_id b \<noteq> m}"
proof -
  have "set (scan_artifacts k (AList.delete (c, m) files)) =
      {a. \<exists>f \<in> set files. fst f \<noteq> (c, m) \<and> mc_parse k (snd f) = Some a}"
    unfolding set_scan set_delete by blast
  then show ?thesis by (simp only: scan_others[OF assms])
qed

lemma scan_named:
  assumes "files_ok k files" and "own_name files c m" and "a \<in> set (scan_artifacts k files)" and "ar_id a = m"
  shows "read_artifact k files c m = Some a" and "fm_type (ar_fm a) = c"
proof -
  obtain f where f: "f \<in> set files" "mc_parse k (snd f) = Some a" using assms(3) by (auto simp: set_scan)
  then have "fst f = (fm_type (ar_fm a), m)" using assms(1,4) by (auto simp: files_ok_def)
  moreover from this show "fm_type (ar_fm a) = c" using assms(2) f(1) by (auto simp: own_name_def)
  ultimately have "map_of files (c, m) = Some (snd f)"
    using assms(1) f(1) map_of_is_SomeI[of files "(c, m)" "snd f"] by (cases f) (simp add: files_ok_def)
  then show "read_artifact k files c m = Some a" using f(2) by (simp add: read_artifact_def)
qed

lemma enter_cong: "ar_fm a = ar_fm b \<Longrightarrow> enter_artifact a ix = enter_artifact b ix"
  by (simp add: enter_artifact_def enter_project_def recency_ts_def cong: option.case_cong)

lemma remove_exists [simp]: "indexes_exist (remove_artifact c m tags ents ix) = indexes_exist ix"
  by (simp add: remove_artifact_def)

lemma remove_spec:
  assumes "files_ok k files" and "own_name files c m" and "indexes_exist ix"
    and "index_spec (set (scan_artifacts k files)) (load_all_indexes ix)"
    and "existing = read_artifact k files c m"
  shows "index_spec {a \<in> set (scan_artifacts k files). ar_id a \<noteq> m}
    (load_all_indexes (remove_artifact c m (old_tags existing) (old_entities existing) ix))"
proof -
  have "fm_type (ar_fm a) = c \<and> fm_tags (ar_fm a) = old_tags existing \<and> fm_entities (ar_fm a) = old_entities existing"
    if "a \<in> set (scan_artifacts k files)" "ar_id a = m" for a
    using scan_named[OF assms(1,2) that] by (simp add: assms(5) old_tags_def old_entities_def)
  then show ?thesis
    using spec_drop[OF assms(4), of m c "old_tags existing" "old_entities existing"] assms(3)
    by (simp add: remove_artifact_def)
qed

text \<open>After the file of an artifact is written and the indexes follow, both agree again.\<close>

lemma written_ok:
  assumes ok: "memory_ok k s" and k: "we_codec e = k" and own: "own_name (me_files s) (in_type i) m"
    and parse: "mc_parse k x = Some b" and "ar_fm b = ar_fm a" and id: "ar_id a = m" "fm_type (ar_fm a) = in_type i"
    and old: "if is_update then existing = read_artifact k (me_files s) (in_type i) m else map_of (me_files s) (in_type i, m) = None"
    and s': "s' = s\<lparr>me_files := AList.update (in_type i, m) x (me_files s),
      me_index := index_written e (AList.update (in_type i, m) x (me_files s)) i m is_update existing a (me_index s)\<rparr>"
  shows "memory_ok k s'"
proof -
  let ?fs = "me_files s" and ?fs' = "AList.update (in_type i, m) x (me_files s)"
  have files: "files_ok k ?fs" using ok by (simp add: memory_ok_def)
  have files': "files_ok k ?fs'" using files_ok_update[OF files own parse] id assms(5) by simp
  have scan: "set (scan_artifacts k ?fs') = insert b {c \<in> set (scan_artifacts k ?fs). ar_id c \<noteq> m}"
    by (rule scan_update[OF files own parse])
  show ?thesis
  proof (cases "indexes_exist (me_index s)")
    case False
    then show ?thesis using files' spec_build by (simp add: memory_ok_def s' index_written_def k)
  next
    case True
    then have spec: "index_spec (set (scan_artifacts k ?fs)) (load_all_indexes (me_index s))"
      using ok by (simp add: memory_ok_def)
    let ?ix = "if is_update then remove_artifact (in_type i) m (old_tags existing) (old_entities existing) (me_index s)
      else me_index s"
    have "index_spec {c \<in> set (scan_artifacts k ?fs). ar_id c \<noteq> m} (load_all_indexes ?ix)"
    proof (cases is_update)
      case True
      then show ?thesis using remove_spec[OF files own \<open>indexes_exist (me_index s)\<close> spec] old by simp
    next
      case False
      then have "ar_id c \<noteq> m" if "c \<in> set (scan_artifacts k ?fs)" for c
        using scan_named(1)[OF files own that] old by (auto simp: read_artifact_def)
      then have "{c \<in> set (scan_artifacts k ?fs). ar_id c \<noteq> m} = set (scan_artifacts k ?fs)" by blast
      then show ?thesis using False spec by simp
    qed
    then have "index_spec (set (scan_artifacts k ?fs')) (load_all_indexes (add_artifact a ?ix))"
      unfolding scan add_artifact_def using spec_enter[of _ "load_all_indexes ?ix" b] enter_cong[OF assms(5)] by simp
    then show ?thesis using files' True by (simp add: memory_ok_def s' index_written_def)
  qed
qed

definition intent_fits :: "'f mem_files \<Rightarrow> string \<Rightarrow> update_intent \<Rightarrow> bool" where
  "intent_fits files hex12 i =
     ((\<forall>c. in_candidate i = Some c \<longrightarrow> candidate_valid c) \<and>
      (\<forall>m. given_memory i = Some m \<longrightarrow> own_name files (in_type i) m) \<and>
      (\<forall>f \<in> set files. snd (fst f) \<noteq> generate_memory_id (in_type i) hex12))"

text \<open>The artifact an intent writes, if any.\<close>

definition written_artifact :: "'f write_env \<Rightarrow> string \<Rightarrow> time \<Rightarrow> update_intent \<Rightarrow> 'f memory \<Rightarrow> artifact option" where
  "written_artifact e hex12 now i s =
     (case in_action i of
        Upsert \<Rightarrow> Option.bind (in_candidate i) (\<lambda>cand.
          case upsert_target e (me_files s) i cand hex12 of
            Inl x \<Rightarrow> None
          | Inr (m, is_update, is_merge) \<Rightarrow> Some (upsert_artifact (we_codec e) (me_files s) i cand m is_update is_merge now))
      | Touch \<Rightarrow> Option.bind (given_memory i) (\<lambda>m.
          map_option (\<lambda>old. old\<lparr>ar_fm := (ar_fm old)\<lparr>fm_used := Some now\<rparr>\<rparr>) (read_artifact (we_codec e) (me_files s) (in_type i) m))
      | DeleteMemory \<Rightarrow> None)"

definition write_kept :: "'f write_env \<Rightarrow> string \<Rightarrow> time \<Rightarrow> update_intent \<Rightarrow> 'f memory \<Rightarrow> bool" where
  "write_kept e hex12 now i s = pred_option (keeps_header (we_codec e)) (written_artifact e hex12 now i s)"

text \<open>
  The steps of the store: an intent whose identifier, if it names one, is not used by another
  category, whose fresh identifier is unused, and whose artifact reads back with its header; and a
  restart of the service.
\<close>

inductive mem_step :: "'f write_env \<Rightarrow> 'f memory \<Rightarrow> 'f memory \<Rightarrow> bool" for e :: "'f write_env" where
  ms_apply: "intent_fits (me_files s) hex12 i \<Longrightarrow> write_kept e hex12 now i s \<Longrightarrow>
    mem_step e s (snd (apply_intent e hex12 now i s))"
| ms_restart: "restart_memory e s = Inr s' \<Longrightarrow> mem_step e s s'"

inductive_cases mem_step_E: "mem_step e s s'"

abbreviation mem_steps :: "'f write_env \<Rightarrow> 'f memory \<Rightarrow> 'f memory \<Rightarrow> bool" where
  "mem_steps e \<equiv> (mem_step e)\<^sup>*\<^sup>*"

lemma category_file:
  assumes "files_ok k files" and "a \<in> set (category_artifacts k files c)"
  shows "own_name files c (ar_id a)" and "map_of files (c, ar_id a) \<noteq> None" and "fm_type (ar_fm a) = c"
proof -
  obtain f where f: "f \<in> set files" "fst (fst f) = c" "mc_parse k (snd f) = Some a"
    using assms(2) by (auto simp: category_artifacts_def set_map_filter split: if_splits)
  have key: "fst f = (c, ar_id a)" "fm_type (ar_fm a) = c" using assms(1) f by (auto simp: files_ok_def)
  then show "fm_type (ar_fm a) = c" by simp
  have "fst g = fst f" if "g \<in> set files" "snd (fst g) = ar_id a" for g
  proof -
    have "snd (fst g) = snd (fst f)" using that(2) key(1) by simp
    then show ?thesis using assms(1) f(1) that(1) by (simp add: files_ok_def)
  qed
  then show "own_name files c (ar_id a)" using key(1) by (auto simp: own_name_def)
  have "fst f \<in> fst ` set files" using f(1) by simp
  then show "map_of files (c, ar_id a) \<noteq> None" by (simp add: key(1) map_of_eq_None_iff)
qed

lemma dedup_target_file:
  assumes "files_ok k files" and "find_dedup_target k files c tags ents = Some m"
  shows "own_name files c m" and "map_of files (c, m) \<noteq> None"
proof -
  let ?l = "filter (\<lambda>a. overlap tags ents (ar_fm a) > 0) (category_artifacts k files c)"
  obtain a as where s: "py_sorted_rev (\<lambda>a. (overlap tags ents (ar_fm a), fm_confidence (ar_fm a))) ?l = a # as" "m = ar_id a"
    using assms(2) by (auto simp: find_dedup_target_def split: list.splits)
  then have "a \<in> set ?l" by (metis list.set_intros(1) set_py_sorted_rev)
  then show "own_name files c m" and "map_of files (c, m) \<noteq> None"
    using category_file[OF assms(1), of a c] s(2) by simp_all
qed

lemma artifact_path_safe: "artifact_path b c m = Inr p \<Longrightarrow> memory_id_path_safe m"
  by (auto simp: artifact_path_def validate_path_safe_def memory_id_path_safe_def split: if_splits)

lemma upsert_target_ok:
  assumes "files_ok (we_codec e) files" and "intent_fits files hex12 i"
    and "upsert_target e files i cand hex12 = Inr (m, is_update, is_merge)"
  shows "own_name files (in_type i) m" "memory_id_path_safe m" "is_update \<longleftrightarrow> map_of files (in_type i, m) \<noteq> None"
    "is_merge \<longrightarrow> is_update"
proof -
  have fresh: "map_of files (in_type i, generate_memory_id (in_type i) hex12) = None"
    "own_name files (in_type i) (generate_memory_id (in_type i) hex12)"
    using assms(2) by (force simp: intent_fits_def map_of_eq_None_iff own_name_def)+
  show "own_name files (in_type i) m" "memory_id_path_safe m" "is_update \<longleftrightarrow> map_of files (in_type i, m) \<noteq> None"
    "is_merge \<longrightarrow> is_update"
    using assms(2,3) fresh dedup_target_file[OF assms(1), of "in_type i" "cd_tags cand" "cd_entities cand"]
    by (auto simp: upsert_target_def Let_def intent_fits_def dest: artifact_path_safe split: option.splits sum.splits if_splits)
qed

lemma upsert_artifact_ok:
  assumes "codec_ok k" and "files_ok k files" and "own_name files (in_type i) m" and "memory_id_path_safe m"
    and "candidate_valid cand"
  shows "ar_id (upsert_artifact k files i cand m is_update is_merge now) = m"
    "fm_type (ar_fm (upsert_artifact k files i cand m is_update is_merge now)) = in_type i"
    "frontmatter_valid (ar_fm (upsert_artifact k files i cand m is_update is_merge now))"
proof -
  have read: "ar_id a = m \<and> fm_type (ar_fm a) = in_type i \<and> frontmatter_valid (ar_fm a)"
    if r: "read_artifact k files (in_type i) m = Some a" for a
  proof -
    obtain x where x: "((in_type i, m), x) \<in> set files" "mc_parse k x = Some a"
      using r by (auto simp: read_artifact_def bind_eq_Some_conv dest: map_of_SomeD)
    then show ?thesis using assms(1,2) by (fastforce simp: files_ok_def codec_ok_def)
  qed
  show "ar_id (upsert_artifact k files i cand m is_update is_merge now) = m"
    "fm_type (ar_fm (upsert_artifact k files i cand m is_update is_merge now)) = in_type i"
    "frontmatter_valid (ar_fm (upsert_artifact k files i cand m is_update is_merge now))"
    using assms(4,5) read
    by (auto simp: upsert_artifact_def Let_def fresh_artifact_def merge_artifact_def frontmatter_valid_def
        candidate_valid_def split: option.splits)
qed

lemma upsert_keeps:
  assumes "codec_ok (we_codec e)" and ok: "memory_ok (we_codec e) s" and fits: "intent_fits (me_files s) hex12 i"
    and kept: "write_kept e hex12 now i s" and act: "in_action i = Upsert"
  shows "memory_ok (we_codec e) (snd (upsert_memory e hex12 now i s))"
proof (cases "in_candidate i")
  case (Some cand)
  show ?thesis
  proof (cases "cd_confidence cand < we_min e \<or> isl (upsert_target e (me_files s) i cand hex12)")
    case True
    then show ?thesis using ok Some by (auto simp: upsert_memory_def isl_def)
  next
    case False
    then obtain m upd mg where t: "upsert_target e (me_files s) i cand hex12 = Inr (m, upd, mg)"
      by (cases "upsert_target e (me_files s) i cand hex12") auto
    let ?k = "we_codec e" and ?a = "upsert_artifact (we_codec e) (me_files s) i cand m upd mg now"
    have files: "files_ok ?k (me_files s)" using ok by (simp add: memory_ok_def)
    note tok = upsert_target_ok[OF files fits t]
    have "candidate_valid cand" using fits Some by (simp add: intent_fits_def)
    note aok = upsert_artifact_ok[OF assms(1) files tok(1,2) this, of upd mg now]
    obtain b where b: "mc_parse ?k (mc_print ?k ?a) = Some b" "ar_fm b = ar_fm ?a"
      using kept Some t act by (auto simp: write_kept_def written_artifact_def keeps_header_def)
    let ?old = "if upd then read_artifact ?k (me_files s) (in_type i) m else None"
    have "memory_ok ?k (s\<lparr>me_files := AList.update (in_type i, m) (mc_print ?k ?a) (me_files s),
        me_index := index_written e (AList.update (in_type i, m) (mc_print ?k ?a) (me_files s)) i m upd ?old ?a (me_index s)\<rparr>)"
      by (rule written_ok[OF ok refl tok(1) b aok(1,2) _ refl]) (use tok(3) in auto)
    then show ?thesis using False Some t by (simp add: upsert_memory_def Let_def)
  qed
qed (use ok in \<open>simp add: upsert_memory_def\<close>)

lemma delete_keeps:
  assumes "memory_ok (we_codec e) s" and "intent_fits (me_files s) hex12 i"
  shows "memory_ok (we_codec e) (snd (delete_memory e i s))"
proof (cases "given_memory i")
  case (Some m)
  show ?thesis
  proof (cases "isl (artifact_path (we_base e) (in_type i) m) \<or> map_of (me_files s) (in_type i, m) = None")
    case True
    then show ?thesis using assms(1) Some by (auto simp: delete_memory_def isl_def split: sum.splits)
  next
    case False
    let ?k = "we_codec e" and ?x = "read_artifact (we_codec e) (me_files s) (in_type i) m"
    let ?ix = "remove_artifact (in_type i) m (old_tags ?x) (old_entities ?x) (me_index s)"
    have files: "files_ok ?k (me_files s)" using assms(1) by (simp add: memory_ok_def)
    have own: "own_name (me_files s) (in_type i) m" using assms(2) Some by (simp add: intent_fits_def)
    have "index_spec (set (scan_artifacts ?k (AList.delete (in_type i, m) (me_files s)))) (load_all_indexes ?ix)"
      if "indexes_exist ?ix"
      using remove_spec[OF files own _ _ refl] that assms(1) by (simp add: scan_delete[OF files own] memory_ok_def)
    then have "memory_ok ?k (s\<lparr>me_files := AList.delete (in_type i, m) (me_files s), me_index := ?ix\<rparr>)"
      using files_ok_delete[OF files] by (simp add: memory_ok_def)
    then show ?thesis using False Some by (auto simp: delete_memory_def Let_def isl_def split: sum.splits)
  qed
qed (use assms(1) in \<open>simp add: delete_memory_def\<close>)

lemma touch_keeps:
  assumes "codec_ok (we_codec e)" and "memory_ok (we_codec e) s" and "intent_fits (me_files s) hex12 i"
    and kept: "write_kept e hex12 now i s" and act: "in_action i = Touch"
  shows "memory_ok (we_codec e) (snd (touch_memory e now i s))"
proof (cases "given_memory i")
  case (Some m)
  let ?k = "we_codec e"
  show ?thesis
  proof (cases "isl (artifact_path (we_base e) (in_type i) m) \<or> read_artifact ?k (me_files s) (in_type i) m = None")
    case True
    then show ?thesis using assms(2) Some
      by (auto simp: touch_memory_def isl_def read_artifact_def bind_eq_None_conv split: sum.splits option.splits)
  next
    case False
    then obtain x old where x: "map_of (me_files s) (in_type i, m) = Some x" "mc_parse ?k x = Some old"
      by (auto simp: read_artifact_def bind_eq_Some_conv)
    let ?a = "old\<lparr>ar_fm := (ar_fm old)\<lparr>fm_used := Some now\<rparr>\<rparr>"
    have files: "files_ok ?k (me_files s)" using assms(2) by (simp add: memory_ok_def)
    have own: "own_name (me_files s) (in_type i) m" using assms(3) Some by (simp add: intent_fits_def)
    have fm: "ar_id old = m" "fm_type (ar_fm old) = in_type i"
      using files x by (fastforce simp: files_ok_def dest: map_of_SomeD)+
    obtain b where b: "mc_parse ?k (mc_print ?k ?a) = Some b" "ar_fm b = ar_fm ?a"
      using kept Some x act by (auto simp: write_kept_def written_artifact_def keeps_header_def read_artifact_def)
    have "memory_ok ?k (s\<lparr>me_files := AList.update (in_type i, m) (mc_print ?k ?a) (me_files s),
        me_index := index_written e (AList.update (in_type i, m) (mc_print ?k ?a) (me_files s)) i m True (Some old) ?a (me_index s)\<rparr>)"
      by (rule written_ok[OF assms(2) refl own b _ _ _ refl]) (use fm x in \<open>auto simp: read_artifact_def\<close>)
    then show ?thesis using False Some x by (auto simp: touch_memory_def Let_def isl_def split: sum.splits)
  qed
qed (use assms(2) in \<open>simp add: touch_memory_def\<close>)

lemma apply_keeps:
  assumes "codec_ok (we_codec e)" and "memory_ok (we_codec e) s" and "intent_fits (me_files s) hex12 i"
    and "write_kept e hex12 now i s"
  shows "memory_ok (we_codec e) (snd (apply_intent e hex12 now i s))"
proof -
  have "memory_ok (we_codec e) (snd (apply_intent_impl e hex12 now i s))"
    using upsert_keeps[OF assms] delete_keeps[OF assms(2,3)] touch_keeps[OF assms]
    by (cases "in_action i") (simp_all add: apply_intent_impl_def)
  then show ?thesis using assms(2)
    by (auto simp: apply_intent_def memory_ok_def split: prod.splits sum.splits)
qed

lemma mem_steps_ok:
  assumes "mem_steps e s s'" and "codec_ok (we_codec e)" and "memory_ok (we_codec e) s"
  shows "memory_ok (we_codec e) s'"
  using assms(1)
proof (induction rule: rtranclp_induct)
  case (step a b)
  from step(2) show ?case
  proof (cases rule: mem_step.cases)
    case (ms_apply hex12 i now)
    then show ?thesis using apply_keeps[OF assms(2) step(3)] by simp
  next
    case ms_restart
    then show ?thesis using step(3)
      by (cases "load_seen_intent_ids (we_pieces e) (me_log a)") (auto simp: restart_memory_def memory_ok_def)
  qed
qed (rule assms(3))

section \<open>Services that apply an intent once\<close>

text \<open>
  The intents a later start finds in the log: those of records without U+0085.  A service of intents
  remembers the intents it took and logs them; an operation is a restart (None), which may raise, or
  an intent with the circumstances it meets.
\<close>

definition logged_ids :: "log_file option \<Rightarrow> string set" where
  "logged_ids f = {i. \<exists>g d. f = Some g \<and> Obj d \<in> set (log_lines g) \<and> nel_free (PDict d) \<and> as_str (dget d ''intent_id'') = Some i}"

fun service_run ::
  "('e \<Rightarrow> 'i \<Rightarrow> 's \<Rightarrow> (exn + write_audit) \<times> 's) \<Rightarrow> ('s \<Rightarrow> exn + 's) \<Rightarrow> ('e \<times> 'i) option list \<Rightarrow> 's \<Rightarrow> exn + 's" where
  "service_run run reload [] s = Inr s"
| "service_run run reload (None # ops) s =
     (case reload s of Inl x \<Rightarrow> Inl x | Inr s' \<Rightarrow> service_run run reload ops s')"
| "service_run run reload (Some (e, i) # ops) s = service_run run reload ops (snd (run e i s))"

locale intent_service =
  fixes run :: "'e \<Rightarrow> 'i \<Rightarrow> 's \<Rightarrow> (exn + write_audit) \<times> 's"
    and reload :: "'s \<Rightarrow> exn + 's"
    and ident :: "'i \<Rightarrow> string"
    and seen :: "'s \<Rightarrow> string set"
    and logf :: "'s \<Rightarrow> log_file option"
  assumes known: "ident i \<in> seen s \<Longrightarrow> \<exists>n. run e i s = (Inr n, s) \<and> au_status n = IdempotentNoop"
    and remembers: "pred_option log_ok (logf s) \<Longrightarrow> run e i s = (Inr a, s') \<Longrightarrow> au_status a \<notin> {RejectedInvalid, IdempotentNoop} \<Longrightarrow>
      ident i \<in> seen s' \<and> (nel_free (PDict (audit_line a)) \<longrightarrow> ident i \<in> logged_ids (logf s'))"
    and keeps: "pred_option log_ok (logf s) \<Longrightarrow> pred_option log_ok (logf (snd (run e i s))) \<and>
      seen s \<subseteq> seen (snd (run e i s)) \<and> logged_ids (logf s) \<subseteq> logged_ids (logf (snd (run e i s)))"
    and reloads: "reload s = Inr s' \<Longrightarrow> logf s' = logf s \<and> logged_ids (logf s) \<subseteq> seen s'"
begin

lemma run_keeps:
  "pred_option log_ok (logf s) \<Longrightarrow> i \<in> seen s \<inter> logged_ids (logf s) \<Longrightarrow> service_run run reload ops s = Inr s' \<Longrightarrow>
     i \<in> seen s'"
proof (induction ops arbitrary: s)
  case (Cons x ops)
  show ?case
  proof (cases x)
    case None
    then obtain t where t: "reload s = Inr t" "service_run run reload ops t = Inr s'"
      using Cons.prems(3) by (auto split: sum.splits)
    then show ?thesis using Cons.IH[of t] reloads[OF t(1)] Cons.prems(1,2) by auto
  next
    case (Some ei)
    then show ?thesis
      using Cons.IH[of "snd (run (fst ei) (snd ei) s)"] keeps[OF Cons.prems(1), of "fst ei" "snd ei"] Cons.prems(2,3)
      by (cases ei) auto
  qed
qed simp

lemma applied_once:
  assumes "pred_option log_ok (logf s)" and "run e i s = (Inr a, s1)"
    and "au_status a \<notin> {RejectedInvalid, IdempotentNoop}" and "nel_free (PDict (audit_line a))"
    and "service_run run reload ops s1 = Inr s2" and "ident j = ident i"
  shows "\<exists>n. run e' j s2 = (Inr n, s2) \<and> au_status n = IdempotentNoop"
proof -
  have "ident i \<in> seen s1 \<inter> logged_ids (logf s1)" using remembers[OF assms(1,2,3)] assms(4) by simp
  moreover have "pred_option log_ok (logf s1)" using keeps[OF assms(1), of e i] assms(2) by simp
  ultimately have "ident j \<in> seen s2" using run_keeps assms(5,6) by metis
  then show ?thesis by (rule known)
qed

end

section \<open>Intents are applied once\<close>

text \<open>The operations do not touch the seen intents and the log; apply_intent records at the end.\<close>

lemma impl_log [simp]:
  "me_seen (snd (apply_intent_impl e hex12 now i s)) = me_seen s"
  "me_log (snd (apply_intent_impl e hex12 now i s)) = me_log s"
  by (auto simp: apply_intent_impl_def upsert_memory_def delete_memory_def touch_memory_def Let_def
      split: update_action.splits option.splits sum.splits prod.splits)

lemma collect_found:
  "collect_ids vs = Inr ids \<Longrightarrow> Some (PDict d) \<in> set vs \<Longrightarrow> as_str (dget d ''intent_id'') = Some i \<Longrightarrow> i \<in> set ids"
proof (induction vs arbitrary: ids rule: collect_ids.induct)
  case (3 v vs)
  from 3(2) obtain e js where v: "v = PDict e" "collect_ids vs = Inr js"
    "ids = (case as_str (dget e ''intent_id'') of Some i \<Rightarrow> i # js | None \<Rightarrow> js)"
    by (cases v; cases "collect_ids vs") auto
  then show ?case using 3 by (cases "d = e") (auto split: option.splits)
qed auto

lemma load_logged: "load_seen_intent_ids pieces f = Inr ids \<Longrightarrow> logged_ids f \<subseteq> set ids"
proof
  fix i assume load: "load_seen_intent_ids pieces f = Inr ids" and "i \<in> logged_ids f"
  then obtain g d where g: "f = Some g" "Obj d \<in> set (log_lines g)" "nel_free (PDict d)" "as_str (dget d ''intent_id'') = Some i"
    by (auto simp: logged_ids_def)
  then have "line_values pieces (Obj d) = [Some (PDict d)]" by (simp add: line_values_def)
  then have "Some (PDict d) \<in> set (concat (map (line_values pieces) (log_lines g)))"
    using g(2) by (auto intro!: bexI[of _ "Obj d"])
  then show "i \<in> set ids" using collect_found load g(1,4) by (simp add: load_seen_intent_ids_def)
qed

lemma load_appended:
  assumes "pred_option log_ok f"
  shows "logged_ids f \<subseteq> logged_ids (Some (file_append_lines [audit_line a] f))"
    and "nel_free (PDict (audit_line a)) \<Longrightarrow> au_intent a \<in> logged_ids (Some (file_append_lines [audit_line a] f))"
    and "log_ok (file_append_lines [audit_line a] f)"
proof -
  have lines: "log_lines (file_append_lines [audit_line a] f) =
      (case f of None \<Rightarrow> [] | Some g \<Rightarrow> log_lines g) @ [Obj (audit_line a)]"
    and "log_ok (file_append_lines [audit_line a] f)"
    using assms by (cases f; simp add: file_append_lines_def log_ok_def)+
  then show "log_ok (file_append_lines [audit_line a] f)" by simp
  show "logged_ids f \<subseteq> logged_ids (Some (file_append_lines [audit_line a] f))"
    unfolding logged_ids_def using lines by auto
  have "as_str (dget (audit_line a) ''intent_id'') = Some (au_intent a)" by (simp add: audit_line_def dget_def)
  then show "nel_free (PDict (audit_line a)) \<Longrightarrow> au_intent a \<in> logged_ids (Some (file_append_lines [audit_line a] f))"
    unfolding logged_ids_def mem_Collect_eq using lines
    by (intro exI[of _ "file_append_lines [audit_line a] f"] exI[of _ "audit_line a"]) simp
qed

text \<open>A record with U+0085 none of whose pieces is an object is not found.\<close>

lemma nel_record_lost:
  assumes "\<not> nel_free (PDict d)" and "\<forall>v \<in> set (pieces d). v = None"
  shows "load_seen_intent_ids pieces (Some \<lparr>log_lines = [Obj d], log_torn = False\<rparr>) = Inr []"
proof -
  have "collect_ids vs = Inr []" if "\<forall>v \<in> set vs. v = None" for vs using that by (induction vs) auto
  then show ?thesis using assms by (simp add: load_seen_intent_ids_def line_values_def)
qed

text \<open>And a piece that is a number stops the start.\<close>

lemma nel_record_raises:
  assumes "\<not> nel_free (PDict d)" and "pieces d = [None, Some (PInt n), None]"
  shows "load_seen_intent_ids pieces (Some \<lparr>log_lines = [Obj d], log_torn = False\<rparr>) = Inl (OtherError ''AttributeError'')"
  using assms by (simp add: load_seen_intent_ids_def line_values_def)

lemma impl_audit_intent: "fst (apply_intent_impl e hex12 now i s) = Inr a \<Longrightarrow> au_intent a = in_id i"
  by (auto simp: apply_intent_impl_def upsert_memory_def delete_memory_def touch_memory_def Let_def rejected_audit_def
      done_audit_def split: update_action.splits option.splits sum.splits prod.splits if_splits)

lemma apply_intent_cases:
  assumes "apply_intent e hex12 now i s = (r, s')"
  obtains (known) n where "in_id i \<in> set (me_seen s)" "r = Inr n" "au_status n = IdempotentNoop" "s' = s"
  | (same) "in_id i \<notin> set (me_seen s)" "me_seen s' = me_seen s" "me_log s' = me_log s" "\<forall>a. r = Inr a \<longrightarrow> au_status a = RejectedInvalid"
  | (applied) a where "in_id i \<notin> set (me_seen s)" "r = Inr a" "au_intent a = in_id i" "au_status a \<notin> {RejectedInvalid, IdempotentNoop}"
      "me_seen s' = in_id i # me_seen s" "me_log s' = Some (file_append_lines [audit_line a] (me_log s))"
proof (cases "in_id i \<in> set (me_seen s)")
  case True
  then show ?thesis using assms by (intro known) (auto simp: apply_intent_def)
next
  case False
  obtain q t where impl: "apply_intent_impl e hex12 now i s = (q, t)" by fastforce
  have log: "me_seen t = me_seen s" "me_log t = me_log s"
    using impl_log[of e hex12 now i s] by (simp_all add: impl)
  have eq: "apply_intent e hex12 now i s = (case (q, t) of (Inr a, s') \<Rightarrow>
             (Inr a, if au_status a \<in> {RejectedInvalid, IdempotentNoop} then s'
                     else s'\<lparr>me_seen := in_id i # me_seen s', me_log := Some (file_append_lines [audit_line a] (me_log s'))\<rparr>)
         | r \<Rightarrow> r)"
    using False by (simp add: apply_intent_def impl)
  show ?thesis
  proof (cases q)
    case (Inl x)
    then show ?thesis using eq assms False log by (intro same) auto
  next
    case (Inr a)
    have noop: "au_status a \<noteq> IdempotentNoop"
      using impl Inr by (auto simp: apply_intent_impl_def upsert_memory_def delete_memory_def touch_memory_def Let_def
          rejected_audit_def done_audit_def split: update_action.splits option.splits sum.splits prod.splits if_splits)
    have ai: "au_intent a = in_id i" using impl_audit_intent[of e hex12 now i s a] impl Inr by simp
    show ?thesis
    proof (cases "au_status a = RejectedInvalid")
      case True
      then show ?thesis using eq assms False log Inr by (intro same) auto
    next
      case no: False
      then show ?thesis using eq assms False log Inr noop ai by (intro applied[of a]) auto
    qed
  qed
qed

interpretation file_service: intent_service
  "\<lambda>(hex12, now) i s. apply_intent e hex12 now i s" "restart_memory e" in_id "\<lambda>s. set (me_seen s)" me_log
  for e :: "'f write_env"
proof (unfold_locales, goal_cases)
  case (1 i s c)
  then show ?case by (cases c) (simp add: apply_intent_def)
next
  case (2 s c i a s')
  then show ?case by (cases c) (auto elim!: apply_intent_cases dest: load_appended(2))
next
  case (3 s c i)
  obtain r s' where r: "apply_intent e (fst c) (snd c) i s = (r, s')" by (metis surj_pair)
  from r have "pred_option log_ok (me_log s') \<and> set (me_seen s) \<subseteq> set (me_seen s') \<and> logged_ids (me_log s) \<subseteq> logged_ids (me_log s')"
    using 3 load_appended[of "me_log s"] by (cases rule: apply_intent_cases) auto
  then show ?case using r by (simp add: case_prod_unfold)
next
  case (4 s s')
  then show ?case
    by (cases "load_seen_intent_ids (we_pieces e) (me_log s)") (auto simp: restart_memory_def dest: load_logged[THEN subsetD])
qed

text \<open>
  C5: an intent takes effect at most once.  The audit log ends in a newline, and neither the
  intent's identifier nor the memory id of the answer has the character U+0085.  Then after
  apply_intent applied the intent (or skipped it for its confidence), every later intent of the same
  identifier is answered idempotent_noop and changes nothing, whatever other intents are applied and
  however often the service is restarted in between, as long as the restarts do not raise.  Appending
  to the log does not fail here.
\<close>

theorem intent_applied_once:
  assumes "pred_option log_ok (me_log s)" and "apply_intent e hex12 now i s = (Inr a, s1)"
    and "au_status a \<notin> {RejectedInvalid, IdempotentNoop}" and "nel_free (PDict (audit_line a))"
    and "service_run (\<lambda>(hex12, now) i s. apply_intent e hex12 now i s) (restart_memory e) ops s1 = Inr s2"
    and "in_id j = in_id i"
  shows "\<exists>n. apply_intent e hex12' now' j s2 = (Inr n, s2) \<and> au_status n = IdempotentNoop"
  using file_service.applied_once[of s e "(hex12, now)" i a s1 ops s2 j "(hex12', now')"] assms by simp

text \<open>
  A refused intent leaves no trace.  When apply_intent raises or answers rejected_invalid
  the whole state is as before, so the intent may be sent again; an intent below the
  confidence threshold leaves the files and the indexes alone but is remembered as seen.
\<close>

theorem intent_refused:
  "case apply_intent e hex12 now i s of
     (Inl x, s') \<Rightarrow> s' = s
   | (Inr a, s') \<Rightarrow>
       if au_status a = RejectedInvalid then s' = s
       else if au_status a = SkippedLowConfidence
       then me_files s' = me_files s \<and> me_index s' = me_index s \<and> in_id i \<in> set (me_seen s')
       else True"
  by (auto simp: apply_intent_def apply_intent_impl_def upsert_memory_def delete_memory_def touch_memory_def Let_def
      rejected_audit_def done_audit_def split: update_action.splits option.splits sum.splits prod.splits)

end
