(* ===== verification/Memory_Retrieval.thy ===== *)
theory Memory_Retrieval
  imports Memory_Write "HOL-Library.Sublist"
begin

text \<open>
  Retrieval of memories: memory/retrieval/service.py.  The blended score of an artifact, which
  the code computes in floating point from the query, the recency ranks and the BM25 library,
  is a parameter with values in a linear order; the words of a text are modelled.
\<close>

record retrieval_query =
  rq_entities :: "string list"
  rq_tags :: "string list"
  rq_types :: "mem_type list"
  rq_text :: "string option"
  rq_caps :: "(mem_type \<times> int) list"

definition default_caps :: "(mem_type \<times> int) list" where
  "default_caps = [(Profile, 2), (Preferences, 3), (Projects, 4), (Tasks, 4), (Facts, 3), (Summaries, 1)]"

section \<open>Candidates\<close>

definition has_intent_hints :: "retrieval_query \<Rightarrow> bool" where
  "has_intent_hints q = (rq_types q \<noteq> [] \<or> rq_tags q \<noteq> [] \<or> rq_entities q \<noteq> [])"

definition ids_at :: "id_table \<Rightarrow> string \<Rightarrow> string set" where
  "ids_at d k = (case map_of d k of Some l \<Rightarrow> set l | None \<Rightarrow> {})"

definition hinted_candidates :: "indexes \<Rightarrow> retrieval_query \<Rightarrow> string set" where
  "hinted_candidates ix q =
     (if rq_types q \<noteq> [] then (\<Union>t \<in> set (rq_types q). ids_at (ix_type ix) (mem_type_value t))
      else if \<not> has_intent_hints q then (\<Union>l \<in> snd ` set (ix_type ix). set l) else {})
     \<union> (\<Union>t \<in> set (rq_tags q). ids_at (ix_tag ix) (py_lower t))
     \<union> (\<Union>e \<in> set (rq_entities q). ids_at (ix_entity ix) (py_lower e) \<union> ids_at (ix_project ix) (py_lower e))"

definition gather_candidates :: "indexes \<Rightarrow> retrieval_query \<Rightarrow> string set" where
  "gather_candidates ix q =
     (let c = hinted_candidates ix q
      in if c = {} then {m \<in> fst ` set (take 50 (ix_recency ix)). m \<noteq> []} else c)"

definition build_recency_rank :: "indexes \<Rightarrow> (string \<times> nat) list" where
  "build_recency_rank ix =
     fold (\<lambda>(i, e). if fst e \<noteq> [] then AList.update (fst e) i else id) (enumerate 0 (ix_recency ix)) []"

definition load_artifacts :: "'f mem_codec \<Rightarrow> 'f mem_files \<Rightarrow> string set \<Rightarrow> (string \<times> artifact) list" where
  "load_artifacts k files ids =
     fold (\<lambda>c result. fold (\<lambda>f result.
         if fst (fst f) = c \<and> snd (fst f) \<in> ids
         then (case mc_parse k (snd f) of Some a \<Rightarrow> AList.update (snd (fst f)) a result | None \<Rightarrow> result)
         else result) files result) memory_categories []"

section \<open>Words\<close>

text \<open>
  The pattern for words: a maximal run of word characters that are ASCII letters and digits,
  of at least two characters.
\<close>

fun word_runs :: "string \<Rightarrow> string \<Rightarrow> string list" where
  "word_runs acc [] = [acc]"
| "word_runs acc (c # cs) =
     (if py_isalnum c \<or> c = CHR ''_'' then word_runs (acc @ [c]) cs else acc # word_runs [] cs)"

definition tokenize :: "string \<Rightarrow> string list" where
  "tokenize s = filter (\<lambda>t. list_all (\<lambda>c. ascii_letter c \<or> ascii_digit c) t \<and> length t > 1) (word_runs [] (py_lower s))"

text \<open>Whether there are BM25 scores at all.\<close>

definition has_bm25 :: "artifact list \<Rightarrow> string option \<Rightarrow> bool" where
  "has_bm25 as t =
     (case t of None \<Rightarrow> False
      | Some s \<Rightarrow> py_strip s \<noteq> [] \<and> tokenize s \<noteq> [] \<and> list_ex (\<lambda>a. tokenize (ar_body a) \<noteq> []) as)"

section \<open>Retrieval\<close>

record ('f, 's) retrieval_env =
  re_codec :: "'f mem_codec"
  re_score :: "(string \<times> nat) list \<Rightarrow> retrieval_query \<Rightarrow> artifact list \<Rightarrow> artifact \<Rightarrow> 's"

record 's retrieval_result =
  rr_selected :: "(artifact \<times> 's) list"
  rr_mode :: string
  rr_count :: nat
  rr_recovery :: "(string \<times> string list) option"

definition cap_of :: "retrieval_query \<Rightarrow> mem_type \<Rightarrow> int" where
  "cap_of q t = (case map_of (rq_caps q) t of Some n \<Rightarrow> n | None \<Rightarrow> 4)"

fun cap_loop :: "retrieval_query \<Rightarrow> (mem_type \<times> int) list \<Rightarrow> (artifact \<times> 's) list \<Rightarrow> (artifact \<times> 's) list" where
  "cap_loop q counts [] = []"
| "cap_loop q counts (sa # sas) =
     (let t = fm_type (ar_fm (fst sa)); n = (case map_of counts t of Some n \<Rightarrow> n | None \<Rightarrow> 0)
      in if n < cap_of q t then sa # cap_loop q (AList.update t (n + 1) counts) sas else cap_loop q counts sas)"

text \<open>
  No candidate in the indexes: the files are scanned, and indexes that are damaged or do not
  fit the files are rebuilt.
\<close>

definition degraded_recovery ::
  "'f mem_codec \<Rightarrow> 'f mem_files \<Rightarrow> index_store \<Rightarrow> (string \<times> string list) option \<times> index_store" where
  "degraded_recovery k files ix =
     (case check_integrity ix of
        Some reason \<Rightarrow> (case rebuild k files ix of ((st, _, _), ix') \<Rightarrow> (Some (st, [reason]), ix'))
      | None \<Rightarrow>
          if cr_consistent (run_consistency_scan k files ix) then (None, ix)
          else (case repair k files ix of ((st, _, issues), ix') \<Rightarrow> (Some (st, issues), ix')))"

definition scan_recency :: "artifact list \<Rightarrow> (string \<times> time) list" where
  "scan_recency as = py_sorted_rev snd (map (\<lambda>a. (ar_id a, recency_ts a)) as)"

definition rank_and_cap ::
  "('f, 's::linorder) retrieval_env \<Rightarrow> 'f mem_files \<Rightarrow> retrieval_query \<Rightarrow> indexes \<Rightarrow> string set \<Rightarrow> (artifact \<times> 's) list \<times> artifact list" where
  "rank_and_cap e files q ix ids =
     (let as = map snd (load_artifacts (re_codec e) files ids);
          scored = map (\<lambda>a. (a, re_score e (build_recency_rank ix) q as a)) as
      in (cap_loop q [] (py_sorted_rev snd scored), as))"

definition retrieve ::
  "('f, 's::linorder) retrieval_env \<Rightarrow> retrieval_query \<Rightarrow> 'f memory \<Rightarrow> 's retrieval_result \<times> 'f memory" where
  "retrieve e q s =
     (let k = re_codec e; files = me_files s;
          ids0 = gather_candidates (load_all_indexes (me_index s)) q;
          st1 = (if ids0 = {} \<and> \<not> indexes_exist (me_index s) then snd (rebuild k files (me_index s)) else me_index s);
          ix1 = load_all_indexes st1; ids1 = gather_candidates ix1 q;
          scanned = scan_artifacts k files;
          degraded = (ids1 = {} \<and> scanned \<noteq> []);
          (recovery, st2) = (if degraded then degraded_recovery k files st1 else (None, st1));
          ids = (if ids1 = {} then ar_id ` set scanned else ids1);
          ix = (if degraded then ix1\<lparr>ix_recency := scan_recency scanned\<rparr> else ix1);
          (selected, as) = rank_and_cap e files q ix ids
      in (\<lparr>rr_selected = selected,
           rr_mode = (if degraded then ''degraded_fallback''
                      else if has_bm25 as (rq_text q) then ''deterministic_plus_bm25'' else ''deterministic''),
           rr_count = card ids, rr_recovery = recovery\<rparr>, s\<lparr>me_index := st2\<rparr>))"

definition ensure_indexes :: "'f mem_codec \<Rightarrow> 'f memory \<Rightarrow> 'f memory" where
  "ensure_indexes k s =
     (if check_integrity (me_index s) \<noteq> None \<or> \<not> indexes_exist (me_index s)
      then s\<lparr>me_index := snd (rebuild k (me_files s) (me_index s))\<rparr> else s)"


section \<open>Candidates are the matching memories\<close>

definition matches :: "retrieval_query \<Rightarrow> artifact \<Rightarrow> bool" where
  "matches q a =
     (\<not> has_intent_hints q \<or> fm_type (ar_fm a) \<in> set (rq_types q) \<or>
      (\<exists>t \<in> set (rq_tags q). has_tag a (py_lower t)) \<or>
      (\<exists>x \<in> set (rq_entities q). has_entity a (py_lower x) \<or> (fm_type (ar_fm a) = Projects \<and> ar_id a = py_lower x)))"

lemma ids_at_entry: "m \<in> ids_at d k \<longleftrightarrow> entry d k m"
  by (simp add: ids_at_def entry_def split: option.split)

lemma hinted_matches:
  assumes "index_spec A ix"
  shows "hinted_candidates ix q = ar_id ` {a \<in> A. matches q a}"
proof (intro set_eqI)
  fix m
  note s = assms[unfolded index_spec_def]
  have all: "(\<exists>l \<in> snd ` set (ix_type ix). m \<in> set l) \<longleftrightarrow> (\<exists>a \<in> A. ar_id a = m)"
  proof -
    have "(\<exists>l \<in> snd ` set (ix_type ix). m \<in> set l) \<longleftrightarrow> (\<exists>k. entry (ix_type ix) k m)"
      by (rule entry_any) (use s in blast)
    then show ?thesis using s by auto
  qed
  have ent: "m \<in> ids_at (ix_entity ix) k \<or> m \<in> ids_at (ix_project ix) k \<longleftrightarrow>
      (\<exists>a \<in> A. ar_id a = m \<and> (has_entity a k \<or> (fm_type (ar_fm a) = Projects \<and> ar_id a = k)))" for k
  proof -
    have e: "entry (ix_entity ix) k m \<longleftrightarrow> (\<exists>a \<in> A. ar_id a = m \<and> has_entity a k)" using s by blast
    have p: "entry (ix_project ix) k m \<longrightarrow>
        (\<exists>a \<in> A. ar_id a = m \<and> (has_entity a k \<or> (k = m \<and> fm_type (ar_fm a) = Projects)))" using s by blast
    have o: "a \<in> A \<Longrightarrow> fm_type (ar_fm a) = Projects \<Longrightarrow> entry (ix_project ix) (ar_id a) (ar_id a)" for a using s by blast
    show ?thesis unfolding ids_at_entry e using p o by metis
  qed
  have ty: "m \<in> ids_at (ix_type ix) (mem_type_value c) \<longleftrightarrow> (\<exists>a \<in> A. ar_id a = m \<and> fm_type (ar_fm a) = c)" for c
    using s unfolding ids_at_entry by simp
  have tag: "m \<in> ids_at (ix_tag ix) k \<longleftrightarrow> (\<exists>a \<in> A. ar_id a = m \<and> has_tag a k)" for k
    using s unfolding ids_at_entry by blast
  have "m \<in> hinted_candidates ix q \<longleftrightarrow>
      (if rq_types q \<noteq> [] then \<exists>c \<in> set (rq_types q). \<exists>a \<in> A. ar_id a = m \<and> fm_type (ar_fm a) = c
       else \<not> has_intent_hints q \<and> (\<exists>a \<in> A. ar_id a = m)) \<or>
      (\<exists>t \<in> set (rq_tags q). \<exists>a \<in> A. ar_id a = m \<and> has_tag a (py_lower t)) \<or>
      (\<exists>x \<in> set (rq_entities q). \<exists>a \<in> A. ar_id a = m \<and>
         (has_entity a (py_lower x) \<or> (fm_type (ar_fm a) = Projects \<and> ar_id a = py_lower x)))"
    unfolding hinted_candidates_def Un_iff UN_iff ent tag[symmetric] ty[symmetric] all[symmetric]
    by (simp add: ent)
  also have "\<dots> \<longleftrightarrow> m \<in> ar_id ` {a \<in> A. matches q a}"
    unfolding matches_def has_intent_hints_def by (cases "rq_types q = []") auto
  finally show "m \<in> hinted_candidates ix q \<longleftrightarrow> m \<in> ar_id ` {a \<in> A. matches q a}" .
qed

lemma gather_matches:
  assumes "index_spec A ix" and "\<forall>a \<in> A. ar_id a \<noteq> []"
  shows "{a \<in> A. matches q a} \<noteq> {} \<Longrightarrow> gather_candidates ix q = ar_id ` {a \<in> A. matches q a}"
    and "{a \<in> A. matches q a} = {} \<Longrightarrow>
      gather_candidates ix q \<subseteq> ar_id ` A \<and> card (gather_candidates ix q) \<le> 50 \<and> (gather_candidates ix q = {} \<longleftrightarrow> A = {})"
proof -
  note h = hinted_matches[OF assms(1), of q]
  show "{a \<in> A. matches q a} \<noteq> {} \<Longrightarrow> gather_candidates ix q = ar_id ` {a \<in> A. matches q a}"
    using h by (auto simp: gather_candidates_def Let_def)
  let ?R = "fst ` set (take 50 (ix_recency ix))"
  assume none: "{a \<in> A. matches q a} = {}"
  have rec: "(m, t) \<in> set (ix_recency ix) \<longleftrightarrow> (\<exists>a \<in> A. ar_id a = m \<and> recency_ts a = t)" for m t
    using assms(1) by (simp add: index_spec_def)
  have sub: "?R \<subseteq> ar_id ` A" using rec by (fastforce dest: in_set_takeD)
  have "\<forall>m \<in> ?R. m \<noteq> []"
  proof
    fix m assume "m \<in> ?R"
    then obtain a where "a \<in> A" "m = ar_id a" using sub by blast
    then show "m \<noteq> []" using assms(2) by simp
  qed
  then have "{m \<in> ?R. m \<noteq> []} = ?R" by blast
  moreover have "hinted_candidates ix q = {}" unfolding h none by simp
  ultimately have g: "gather_candidates ix q = ?R" by (simp add: gather_candidates_def Let_def)
  have "card ?R \<le> card (set (take 50 (ix_recency ix)))" by (rule card_image_le) simp
  also have "\<dots> \<le> 50" using card_length[of "take 50 (ix_recency ix)"] by simp
  finally have "card ?R \<le> 50" .
  moreover have "?R = {} \<longleftrightarrow> A = {}"
  proof
    assume "?R = {}"
    then have "ix_recency ix = []" by simp
    then show "A = {}" using rec by auto
  next
    assume "A = {}"
    then show "?R = {}" using sub by simp
  qed
  ultimately show "gather_candidates ix q \<subseteq> ar_id ` A \<and> card (gather_candidates ix q) \<le> 50 \<and>
      (gather_candidates ix q = {} \<longleftrightarrow> A = {})"
    using sub g by simp
qed

section \<open>Loading the candidates\<close>

definition loaded_pairs :: "'f mem_codec \<Rightarrow> 'f mem_files \<Rightarrow> string set \<Rightarrow> mem_type \<Rightarrow> (string \<times> artifact) list" where
  "loaded_pairs k files ids c = List.map_filter (\<lambda>f. if fst (fst f) = c \<and> snd (fst f) \<in> ids
     then map_option (Pair (snd (fst f))) (mc_parse k (snd f)) else None) files"

abbreviation put_all :: "('k \<times> 'v) list \<Rightarrow> ('k \<times> 'v) list \<Rightarrow> ('k \<times> 'v) list" where
  "put_all \<equiv> fold (\<lambda>p. AList.update (fst p) (snd p))"

lemma load_pairs: "load_artifacts k files ids = put_all (concat (map (loaded_pairs k files ids) memory_categories)) []"
proof -
  have inner: "fold (\<lambda>f result. if fst (fst f) = c \<and> snd (fst f) \<in> ids
      then (case mc_parse k (snd f) of Some a \<Rightarrow> AList.update (snd (fst f)) a result | None \<Rightarrow> result)
      else result) files d = put_all (loaded_pairs k files ids c) d" for c d
    by (induction files arbitrary: d)
      (auto simp: loaded_pairs_def map_filter_Nil map_filter_Cons split: option.splits)
  have "fold (\<lambda>c. put_all (loaded_pairs k files ids c)) cs d = put_all (concat (map (loaded_pairs k files ids) cs)) d" for cs d
    by (induction cs arbitrary: d) simp_all
  then show ?thesis by (simp add: load_artifacts_def inner)
qed

lemma put_all_set:
  assumes "\<forall>p \<in> set ps \<union> set d. \<forall>r \<in> set ps \<union> set d. fst p = fst r \<longrightarrow> p = r" and "distinct (map fst d)"
  shows "set (put_all ps d) = set d \<union> set ps \<and> distinct (map fst (put_all ps d))"
  using assms
proof (induction ps arbitrary: d)
  case (Cons p ps)
  have upd: "set (AList.update (fst p) (snd p) d) = insert p (set d)"
  proof -
    have "{f \<in> set d. fst f \<noteq> fst p} \<union> {p} = insert p (set d)" using Cons.prems(1) by auto
    then show ?thesis using set_update[OF Cons.prems(2), of "fst p" "snd p"] by simp
  qed
  then have "\<forall>q \<in> set ps \<union> set (AList.update (fst p) (snd p) d). \<forall>r \<in> set ps \<union> set (AList.update (fst p) (snd p) d).
      fst q = fst r \<longrightarrow> q = r" using Cons.prems(1) by simp
  from Cons.IH[OF this] show ?case using Cons.prems(2) upd by (simp add: distinct_update)
qed simp

lemma load_exact:
  assumes "files_ok k files"
  shows "set (map snd (load_artifacts k files ids)) = {a \<in> set (scan_artifacts k files). ar_id a \<in> ids}"
    and "distinct (map snd (load_artifacts k files ids))"
proof -
  let ?ps = "concat (map (loaded_pairs k files ids) memory_categories)"
  have mem: "p \<in> set ?ps \<longleftrightarrow> (\<exists>f \<in> set files. snd (fst f) \<in> ids \<and> mc_parse k (snd f) = Some (snd p) \<and> fst p = snd (fst f))" for p
    by (cases p) (auto simp: loaded_pairs_def set_map_filter split: if_splits)
  have key: "snd (fst f) = ar_id a" if "f \<in> set files" "mc_parse k (snd f) = Some a" for f a
    using assms that by (auto simp: files_ok_def)
  have uniq: "p = r" if pr: "p \<in> set ?ps" "r \<in> set ?ps" "fst p = fst r" for p r
  proof -
    obtain f g where f: "f \<in> set files" "mc_parse k (snd f) = Some (snd p)" "fst p = snd (fst f)"
      and g: "g \<in> set files" "mc_parse k (snd g) = Some (snd r)" "fst r = snd (fst g)"
      using pr(1,2) unfolding mem by blast
    have "snd (fst f) = snd (fst g)" using pr(3) f(3) g(3) by simp
    then have "fst f = fst g" using f(1) g(1) assms unfolding files_ok_def by blast
    then have "f = g" using f(1) g(1) assms eq_key_imp_eq_value[of files "fst f" "snd f" "snd g"]
      by (cases f; cases g) (auto simp: files_ok_def)
    then show ?thesis using f(2) g(2) pr(3) by (simp add: prod_eq_iff)
  qed
  have put: "set (load_artifacts k files ids) = set ?ps" "distinct (map fst (load_artifacts k files ids))"
    using put_all_set[of ?ps "[]"] uniq unfolding load_pairs by simp_all
  have "snd ` set ?ps = {a \<in> set (scan_artifacts k files). ar_id a \<in> ids}"
  proof (intro set_eqI iffI)
    fix a assume "a \<in> snd ` set ?ps"
    then obtain p where "p \<in> set ?ps" "a = snd p" by blast
    then obtain f where "f \<in> set files" "snd (fst f) \<in> ids" "mc_parse k (snd f) = Some a" unfolding mem by blast
    then show "a \<in> {a \<in> set (scan_artifacts k files). ar_id a \<in> ids}" using key[of f a] by (auto simp: set_scan)
  next
    fix a assume a: "a \<in> {a \<in> set (scan_artifacts k files). ar_id a \<in> ids}"
    then obtain f where f: "f \<in> set files" "mc_parse k (snd f) = Some a" by (auto simp: set_scan)
    have "(snd (fst f), a) \<in> set ?ps" unfolding mem using a f key[OF f] by (intro bexI[of _ f]) auto
    then show "a \<in> snd ` set ?ps" by force
  qed
  then show "set (map snd (load_artifacts k files ids)) = {a \<in> set (scan_artifacts k files). ar_id a \<in> ids}"
    by (simp add: put(1))
  have "fst p = ar_id (snd p)" if "p \<in> set ?ps" for p
    using that key unfolding mem by fastforce
  then have "map fst (load_artifacts k files ids) = map ar_id (map snd (load_artifacts k files ids))"
    using put(1) by simp
  then show "distinct (map snd (load_artifacts k files ids))" using put(2) by (metis distinct_map)
qed

lemma same_id_same:
  assumes "a \<in> set (scan_artifacts k files)" and "b \<in> set (scan_artifacts k files)" and "ar_id a = ar_id b"
    and "files_ok k files"
  shows "a = b"
proof -
  obtain f g where f: "f \<in> set files" "mc_parse k (snd f) = Some a" and g: "g \<in> set files" "mc_parse k (snd g) = Some b"
    using assms(1,2) by (auto simp: set_scan)
  then have "snd (fst f) = snd (fst g)" using assms(3,4) by (auto simp: files_ok_def)
  then have "fst f = fst g" using f(1) g(1) assms(4) unfolding files_ok_def by blast
  then have "f = g" using f(1) g(1) assms(4) eq_key_imp_eq_value[of files "fst f" "snd f" "snd g"]
    by (cases f; cases g) (auto simp: files_ok_def)
  then show ?thesis using f(2) g(2) by simp
qed

section \<open>Caps\<close>

abbreviation sa_type :: "artifact \<times> 's \<Rightarrow> mem_type" where
  "sa_type sa \<equiv> fm_type (ar_fm (fst sa))"

lemma cap_loop_take:
  "filter (\<lambda>sa. sa_type sa = t) (cap_loop q counts sas) =
     take (nat (cap_of q t - (case map_of counts t of Some n \<Rightarrow> n | None \<Rightarrow> 0))) (filter (\<lambda>sa. sa_type sa = t) sas)"
proof (induction sas arbitrary: counts)
  case (Cons sa sas)
  define n where "n = (case map_of counts (sa_type sa) of Some n \<Rightarrow> n | None \<Rightarrow> 0)"
  show ?case
  proof (cases "sa_type sa = t")
    case True
    show ?thesis
    proof (cases "n < cap_of q t")
      case True
      then have "nat (cap_of q t - n) = Suc (nat (cap_of q t - (n + 1)))" by simp
      then show ?thesis using Cons True \<open>sa_type sa = t\<close> by (simp add: Let_def n_def)
    qed (use Cons \<open>sa_type sa = t\<close> in \<open>simp add: Let_def n_def\<close>)
  next
    case False
    then show ?thesis using Cons by (simp add: Let_def)
  qed
qed simp

lemma cap_loop_subseq: "subseq (cap_loop q counts sas) sas"
proof (induction sas arbitrary: counts)
  case (Cons sa sas)
  then show ?case by (auto simp: Let_def)
qed simp

section \<open>Retrieval finds what matches\<close>

definition index_settled :: "index_store \<Rightarrow> bool" where
  "index_settled ix = (indexes_exist ix \<or> load_all_indexes ix = no_indexes)"

lemma impl_settled:
  assumes "index_settled (me_index s)"
  shows "index_settled (me_index (snd (apply_intent e hex12 now i s)))"
proof -
  have "index_settled (index_written e files i m upd ex a ix)" if "index_settled ix" for files m upd ex a ix
    using that by (auto simp: index_settled_def index_written_def add_artifact_def)
  moreover have "index_settled (remove_artifact c m tags ents ix)" if "index_settled ix" for c m tags ents ix
    using that by (auto simp: index_settled_def remove_artifact_def)
  ultimately have "index_settled (me_index (snd (apply_intent_impl e hex12 now i s)))"
    using assms by (auto simp: apply_intent_impl_def upsert_memory_def delete_memory_def touch_memory_def Let_def
        split: update_action.splits option.splits sum.splits prod.splits)
  then show ?thesis using assms by (auto simp: apply_intent_def split: prod.splits sum.splits)
qed

lemma steps_settled:
  assumes "mem_steps e s s'" and "index_settled (me_index s)"
  shows "index_settled (me_index s')"
  using assms(1)
proof (induction rule: rtranclp_induct)
  case (step a b)
  from step(2) show ?case
  proof (cases rule: mem_step.cases)
    case (ms_apply hex12 i now)
    then show ?thesis using step(3) impl_settled by auto
  next
    case ms_restart
    then show ?thesis using step(3)
      by (cases "load_seen_intent_ids (we_pieces e) (me_log a)") (auto simp: restart_memory_def)
  qed
qed (rule assms(2))

lemma no_indexes_gather: "gather_candidates no_indexes q = {}"
  by (simp add: gather_candidates_def hinted_candidates_def no_indexes_def ids_at_def)

lemma memory_ids:
  assumes "codec_ok k" and "a \<in> set (scan_artifacts k files)"
  shows "ar_id a \<noteq> []"
  using assms by (auto simp: set_scan codec_ok_def frontmatter_valid_def memory_id_path_safe_def)

text \<open>In the states of the store a retrieval never takes the degraded path.\<close>

lemma retrieve_regular:
  assumes "codec_ok (re_codec e)" and "memory_ok (re_codec e) s" and "index_settled (me_index s)"
  obtains st where "index_spec (set (scan_artifacts (re_codec e) (me_files s))) (load_all_indexes st)"
    and "memory_ok (re_codec e) (s\<lparr>me_index := st\<rparr>)" and "indexes_exist st"
    and "snd (retrieve e q s) = s\<lparr>me_index := st\<rparr>"
    and "rr_selected (fst (retrieve e q s)) = fst (rank_and_cap e (me_files s) q (load_all_indexes st) (gather_candidates (load_all_indexes st) q))"
    and "rr_mode (fst (retrieve e q s)) \<noteq> ''degraded_fallback''"
proof -
  let ?k = "re_codec e" and ?A = "set (scan_artifacts (re_codec e) (me_files s))"
  let ?st = "if indexes_exist (me_index s) then me_index s else index_build ?k (me_files s) (me_index s)"
  have st: "(if gather_candidates (load_all_indexes (me_index s)) q = {} \<and> \<not> indexes_exist (me_index s)
      then snd (rebuild ?k (me_files s) (me_index s)) else me_index s) = ?st"
    using assms(3) by (auto simp: index_settled_def no_indexes_gather rebuild_def)
  have spec: "index_spec ?A (load_all_indexes ?st)"
    using assms(2) spec_build by (auto simp: memory_ok_def)
  have ids: "\<forall>a \<in> ?A. ar_id a \<noteq> []" using memory_ids[OF assms(1)] by blast
  have empty: "gather_candidates (load_all_indexes ?st) q = {} \<Longrightarrow> scan_artifacts ?k (me_files s) = []"
    using gather_matches[OF spec ids, of q] by (cases "{a \<in> ?A. matches q a} = {}") auto
  have "memory_ok ?k (s\<lparr>me_index := ?st\<rparr>)" "indexes_exist ?st"
    using assms(2) spec by (simp_all add: memory_ok_def)
  moreover
  let ?G = "gather_candidates (load_all_indexes ?st) q" and ?S = "scan_artifacts ?k (me_files s)"
  obtain sel as where rank: "rank_and_cap e (me_files s) q (load_all_indexes ?st) ?G = (sel, as)" by fastforce
  have d: "\<not> (?G = {} \<and> ?S \<noteq> [])" and ids1: "(if ?G = {} then ar_id ` set ?S else ?G) = ?G" using empty by auto
  have "retrieve e q s =
      (\<lparr>rr_selected = sel, rr_mode = (if has_bm25 as (rq_text q) then ''deterministic_plus_bm25'' else ''deterministic''),
        rr_count = card ?G, rr_recovery = None\<rparr>, s\<lparr>me_index := ?st\<rparr>)"
    unfolding retrieve_def Let_def st if_not_P[OF d] ids1 prod.case rank by (rule refl)
  then have "snd (retrieve e q s) = s\<lparr>me_index := ?st\<rparr>" "rr_mode (fst (retrieve e q s)) \<noteq> ''degraded_fallback''"
    "rr_selected (fst (retrieve e q s)) = fst (rank_and_cap e (me_files s) q (load_all_indexes ?st) ?G)"
    unfolding rank by simp_all
  ultimately show thesis using that spec by blast
qed


text \<open>A store whose files are the artifacts themselves, one new memory, and a query for its tag.\<close>

definition demo_codec :: "artifact mem_codec" where
  "demo_codec = \<lparr>mc_parse = (\<lambda>a. if frontmatter_valid (ar_fm a) then Some a else None), mc_print = (\<lambda>a. a)\<rparr>"

definition demo_write_env :: "artifact write_env" where
  "demo_write_env = \<lparr>we_codec = demo_codec, we_base = [''data''], we_min = 1 / 2, we_dedup = True,
     we_show = (\<lambda>_. []), we_parse_error = (\<lambda>_. []), we_pieces = (\<lambda>_. [])\<rparr>"

definition demo_intent :: "string \<Rightarrow> update_intent" where
  "demo_intent i = \<lparr>in_id = i, in_action = Upsert, in_type = Facts, in_memory = None,
     in_candidate = Some \<lparr>cd_tags = [''Tea''], cd_entities = [], cd_priority = 5, cd_confidence = 1, cd_body = ''green''\<rparr>\<rparr>"

definition empty_memory :: "'f memory" where
  "empty_memory = \<lparr>me_files = [], me_index = \<lparr>is_type = NoFile, is_tag = NoFile, is_entity = NoFile,
     is_project = NoFile, is_recency = NoFile, is_manifest = NoFile\<rparr>, me_seen = [], me_log = None\<rparr>"

definition demo_memory :: "artifact memory" where
  "demo_memory = snd (apply_intent demo_write_env ''0'' 7 (demo_intent ''i'') empty_memory)"

definition demo_retrieval :: "(artifact, int) retrieval_env" where
  "demo_retrieval = \<lparr>re_codec = demo_codec, re_score = (\<lambda>_ _ _ _. 1)\<rparr>"

definition demo_query :: retrieval_query where
  "demo_query = \<lparr>rq_entities = [], rq_tags = [''TEA''], rq_types = [], rq_text = None, rq_caps = default_caps\<rparr>"

lemma demo_codec_ok: "codec_ok demo_codec"
  by (simp add: codec_ok_def demo_codec_def)

lemma empty_memory_ok: "memory_ok k empty_memory" "index_settled (me_index empty_memory)" "pred_option log_ok (me_log empty_memory)"
  by (simp_all add: memory_ok_def empty_memory_def files_ok_def indexes_exist_def index_settled_def
      load_all_indexes_def load_index_def no_indexes_def)

lemma demo_fits: "intent_fits (me_files empty_memory) ''0'' (demo_intent i)"
  by (simp add: intent_fits_def empty_memory_def demo_intent_def candidate_valid_def own_name_def)

lemma demo_kept: "write_kept demo_write_env ''0'' 7 (demo_intent ''i'') empty_memory"
proof -
  have "case written_artifact demo_write_env ''0'' 7 (demo_intent ''i'') empty_memory of
      None \<Rightarrow> True | Some a \<Rightarrow> frontmatter_valid (ar_fm a)" by code_simp
  moreover have "keeps_header demo_codec a" if "frontmatter_valid (ar_fm a)" for a
    using that by (simp add: keeps_header_def demo_codec_def)
  ultimately show ?thesis
    by (cases "written_artifact demo_write_env ''0'' 7 (demo_intent ''i'') empty_memory")
       (auto simp: write_kept_def demo_write_env_def)
qed

lemma demo_memory_steps: "mem_steps demo_write_env empty_memory demo_memory"
  unfolding demo_memory_def by (intro r_into_rtranclp ms_apply demo_fits demo_kept)


theorem intent_applied_once_witness:
  "\<exists>s n. restart_memory demo_write_env demo_memory = Inr s \<and>
    apply_intent demo_write_env ''1'' 9 (demo_intent ''i'') s = (Inr n, s) \<and> au_status n = IdempotentNoop"
proof -
  let ?a = "\<lparr>au_intent = ''i'', au_status = Written, au_memory = Some ''facts-0'', au_reason = []\<rparr>"
  have first: "apply_intent demo_write_env ''0'' 7 (demo_intent ''i'') empty_memory = (Inr ?a, demo_memory)"
  proof -
    have "fst (apply_intent demo_write_env ''0'' 7 (demo_intent ''i'') empty_memory) = Inr ?a" by code_simp
    then show ?thesis by (simp add: demo_memory_def prod_eq_iff)
  qed
  have safe: "nel_free (PDict (audit_line ?a))" by (simp add: audit_line_def)
  have "\<not> isl (restart_memory demo_write_env demo_memory)" by code_simp
  then obtain s where s: "restart_memory demo_write_env demo_memory = Inr s" by (auto simp: isl_def split: sum.splits) (meson sum.exhaust)
  have "service_run (\<lambda>(hex12, now) i s. apply_intent demo_write_env hex12 now i s) (restart_memory demo_write_env)
      [None] demo_memory = Inr s" by (simp add: s)
  from intent_applied_once[OF empty_memory_ok(3) first _ safe this, of "demo_intent ''i''" "''1''" 9] s
  show ?thesis by (auto simp: demo_intent_def)
qed

end
