(* ===== verification/Vocabulary.thy ===== *)
theory Vocabulary
  imports File_Store "HOL-Library.Product_Lexorder"
begin

text \<open>
  The vocabulary of the language-learning extension: fsrs_engine.py, models.py and store.py of
  extensions/language_learning and the tools that add words, set their status and take the
  results of an exercise.  The FSRS library is the record fsrs; a card is kept as the value
  whose dictionary the file holds.  A file holds the entries that pydantic accepts, None
  standing for one it rejects.  Operations that hold the lock of a user are one step.
\<close>

section \<open>Entries\<close>

datatype part_of_speech = Noun | Verb | Adjective | Adverb | Phrase | OtherPos

fun pos_value :: "part_of_speech \<Rightarrow> string" where
  "pos_value Noun = ''noun''"
| "pos_value Verb = ''verb''"
| "pos_value Adjective = ''adjective''"
| "pos_value Adverb = ''adverb''"
| "pos_value Phrase = ''phrase''"
| "pos_value OtherPos = ''other''"

datatype learning_status = NewWord | LearningWord | KnownWord | SuspendedWord

fun learning_value :: "learning_status \<Rightarrow> string" where
  "learning_value NewWord = ''new''"
| "learning_value LearningWord = ''learning''"
| "learning_value KnownWord = ''known''"
| "learning_value SuspendedWord = ''suspended''"

definition learning_of_value :: "string \<Rightarrow> learning_status option" where
  "learning_of_value s = find (\<lambda>x. learning_value x = s) [NewWord, LearningWord, KnownWord, SuspendedWord]"

datatype gender = Masculine | Feminine | Neuter

definition gender_of_value :: "string \<Rightarrow> gender option" where
  "gender_of_value s = (if s = ''m'' then Some Masculine else if s = ''f'' then Some Feminine
     else if s = ''n'' then Some Neuter else None)"

datatype direction = Forward | Backward

record verb_forms =
  vf_present :: string
  vf_present_tr :: string
  vf_aorist :: string
  vf_aorist_tr :: string
  vf_future :: string
  vf_future_tr :: string

record 'c vocab_entry =
  ve_id :: string
  ve_user :: string
  ve_word :: string
  ve_translit :: string
  ve_translation :: string
  ve_pos :: part_of_speech
  ve_gender :: "gender option"
  ve_article :: "string option"
  ve_verb :: "verb_forms option"
  ve_example :: "string option"
  ve_example_tr :: "string option"
  ve_tags :: "string list"
  ve_status :: learning_status
  ve_card :: "'c option"
  ve_next :: time
  ve_rcard :: "'c option"
  ve_rnext :: time
  ve_total :: nat
  ve_correct :: nat
  ve_rtotal :: nat
  ve_rcorrect :: nat
  ve_created :: time
  ve_updated :: time

text \<open>The fields' minimal lengths and validate_verb_forms_consistency.\<close>

definition verb_forms_valid :: "verb_forms \<Rightarrow> bool" where
  "verb_forms_valid v = (vf_present v \<noteq> [] \<and> vf_present_tr v \<noteq> [] \<and> vf_aorist v \<noteq> [] \<and> vf_aorist_tr v \<noteq> []
     \<and> vf_future v \<noteq> [] \<and> vf_future_tr v \<noteq> [])"

definition vocab_entry_valid :: "'c vocab_entry \<Rightarrow> bool" where
  "vocab_entry_valid e = (ve_word e \<noteq> [] \<and> ve_translit e \<noteq> [] \<and> ve_translation e \<noteq> [] \<and>
     (case ve_verb e of None \<Rightarrow> ve_pos e \<noteq> Verb | Some v \<Rightarrow> ve_pos e = Verb \<and> verb_forms_valid v))"

definition is_due :: "'c vocab_entry \<Rightarrow> direction \<Rightarrow> time \<Rightarrow> bool" where
  "is_due e d t = ((case d of Forward \<Rightarrow> ve_next e | Backward \<Rightarrow> ve_rnext e) \<le> t)"

section \<open>The engine\<close>

datatype rating = Again | Hard | Good | Easy

datatype card_state = CardLearning | CardReview | CardRelearning

record 'c fsrs =
  fs_new :: 'c
  fs_review :: "'c \<Rightarrow> rating \<Rightarrow> time \<Rightarrow> int option \<Rightarrow> 'c"
  fs_due :: "'c \<Rightarrow> time"
  fs_state :: "'c \<Rightarrow> card_state"
  fs_stability :: "'c \<Rightarrow> rat option"

definition rating_map :: "int \<Rightarrow> rating" where
  "rating_map r = (if r = 0 then Again else if r = 1 then Hard else if r = 2 then Good else Easy)"

definition get_card :: "'c fsrs \<Rightarrow> 'c vocab_entry \<Rightarrow> direction \<Rightarrow> 'c" where
  "get_card f e d =
     (case (case d of Forward \<Rightarrow> ve_card e | Backward \<Rightarrow> ve_rcard e) of None \<Rightarrow> fs_new f | Some c \<Rightarrow> c)"

definition status_transition :: "'c fsrs \<Rightarrow> learning_status \<Rightarrow> int \<Rightarrow> 'c \<Rightarrow> 'c \<Rightarrow> learning_status" where
  "status_transition f current r fwd rev_card =
     (case current of
        SuspendedWord \<Rightarrow> SuspendedWord
      | NewWord \<Rightarrow> LearningWord
      | LearningWord \<Rightarrow> if fs_state f fwd = CardReview \<and> fs_state f rev_card = CardReview then KnownWord else LearningWord
      | KnownWord \<Rightarrow> if r \<le> 1 then LearningWord else KnownWord)"

definition update_entry ::
  "'c fsrs \<Rightarrow> 'c vocab_entry \<Rightarrow> int \<Rightarrow> direction \<Rightarrow> time \<Rightarrow> int option \<Rightarrow> exn + 'c vocab_entry" where
  "update_entry f e r d now ms =
     (if r < 0 \<or> r > 3 then Inl (ValueError (''Rating must be 0-3, got '' @ show_int r))
      else
        (let c = fs_review f (get_card f e d) (rating_map r) now ms; good = r \<ge> 1
         in Inr (case d of
              Forward \<Rightarrow> e\<lparr>ve_status := status_transition f (ve_status e) r c (get_card f e Backward),
                ve_card := Some c, ve_next := fs_due f c, ve_total := ve_total e + 1,
                ve_correct := (if good then ve_correct e + 1 else ve_correct e), ve_updated := now\<rparr>
            | Backward \<Rightarrow> e\<lparr>ve_status := status_transition f (ve_status e) r (get_card f e Forward) c,
                ve_rcard := Some c, ve_rnext := fs_due f c, ve_rtotal := ve_rtotal e + 1,
                ve_rcorrect := (if good then ve_rcorrect e + 1 else ve_rcorrect e), ve_updated := now\<rparr>)))"

definition card_states :: "'c fsrs \<Rightarrow> 'c vocab_entry \<Rightarrow> direction \<Rightarrow> card_state option" where
  "card_states f e d = map_option (fs_state f) (case d of Forward \<Rightarrow> ve_card e | Backward \<Rightarrow> ve_rcard e)"

definition is_learned :: "'c fsrs \<Rightarrow> 'c vocab_entry \<Rightarrow> direction \<Rightarrow> bool" where
  "is_learned f e d = (card_states f e d = Some CardReview)"

definition is_learning :: "'c fsrs \<Rightarrow> 'c vocab_entry \<Rightarrow> direction \<Rightarrow> bool" where
  "is_learning f e d = (card_states f e d \<in> {Some CardLearning, Some CardRelearning})"

definition is_new :: "'c vocab_entry \<Rightarrow> direction \<Rightarrow> bool" where
  "is_new e d = ((case d of Forward \<Rightarrow> ve_card e | Backward \<Rightarrow> ve_rcard e) = None)"

section \<open>The store\<close>

datatype 'c vocab_file = BadFile | Entries "'c vocab_entry option list"

type_synonym 'c words = "(string \<times> 'c vocab_entry) list"

definition vocab_path :: "string \<Rightarrow> string" where
  "vocab_path user = safe_id user @ ''.json''"

definition read_user_vocabulary :: "'c vocab_file dir \<Rightarrow> string \<Rightarrow> 'c words" where
  "read_user_vocabulary d user =
     (case map_of d (vocab_path user) of
        Some (Entries es) \<Rightarrow> fold (\<lambda>x ws. case x of None \<Rightarrow> ws | Some e \<Rightarrow> AList.update (ve_id e) e ws) es []
      | _ \<Rightarrow> [])"

definition write_user_vocabulary :: "string \<Rightarrow> 'c words \<Rightarrow> 'c vocab_file dir \<Rightarrow> 'c vocab_file dir" where
  "write_user_vocabulary user ws d = AList.update (vocab_path user) (Entries (map (Some \<circ> snd) ws)) d"

definition vocab_add :: "'c vocab_entry \<Rightarrow> 'c vocab_file dir \<Rightarrow> (exn + 'c vocab_entry) \<times> 'c vocab_file dir" where
  "vocab_add e d =
     (let ws = read_user_vocabulary d (ve_user e)
      in if map_of ws (ve_id e) \<noteq> None then (Inl (ValueError (''Entry already exists: '' @ ve_id e)), d)
         else (Inr e, write_user_vocabulary (ve_user e) (AList.update (ve_id e) e ws) d))"

definition vocab_get :: "string \<Rightarrow> string \<Rightarrow> 'c vocab_file dir \<Rightarrow> 'c vocab_entry option" where
  "vocab_get user i d = map_of (read_user_vocabulary d user) i"

definition vocab_update ::
  "'c vocab_entry \<Rightarrow> time \<Rightarrow> 'c vocab_file dir \<Rightarrow> (exn + 'c vocab_entry) \<times> 'c vocab_file dir" where
  "vocab_update e now d =
     (let ws = read_user_vocabulary d (ve_user e); u = e\<lparr>ve_updated := now\<rparr>
      in if map_of ws (ve_id e) = None then (Inl (ValueError (''Entry not found: '' @ ve_id e)), d)
         else (Inr u, write_user_vocabulary (ve_user e) (AList.update (ve_id e) u ws) d))"

definition vocab_delete :: "string \<Rightarrow> string \<Rightarrow> 'c vocab_file dir \<Rightarrow> bool \<times> 'c vocab_file dir" where
  "vocab_delete user i d =
     (let ws = read_user_vocabulary d user
      in if map_of ws i = None then (False, d) else (True, write_user_vocabulary user (AList.delete i ws) d))"

definition shares_tag :: "string list \<Rightarrow> 'c vocab_entry \<Rightarrow> bool" where
  "shares_tag tags e = (tags = [] \<or> list_ex (\<lambda>t. t \<in> set (ve_tags e)) tags)"

definition list_entries ::
  "string \<Rightarrow> string list \<Rightarrow> learning_status option \<Rightarrow> int option \<Rightarrow> int \<Rightarrow> 'c vocab_file dir \<Rightarrow> 'c vocab_entry list" where
  "list_entries user tags status limit offset d =
     (let es = filter (\<lambda>e. shares_tag tags e \<and> (case status of None \<Rightarrow> True | Some s \<Rightarrow> ve_status e = s))
            (map snd (read_user_vocabulary d user));
          r = py_sorted_rev ve_created es;
          r1 = (if offset > 0 then slice_from r offset else r)
      in case limit of None \<Rightarrow> r1 | Some n \<Rightarrow> if n > 0 then slice_to r1 n else r1)"

definition vocab_search :: "string \<Rightarrow> string \<Rightarrow> int \<Rightarrow> 'c vocab_file dir \<Rightarrow> 'c vocab_entry list" where
  "vocab_search user query limit d =
     (let q = py_lower query;
          fields = (\<lambda>e. [py_lower (ve_word e), py_lower (ve_translation e), py_lower (ve_translit e)]);
          es = filter (\<lambda>e. list_ex (sublist q) (fields e)) (map snd (read_user_vocabulary d user))
      in slice_to (py_sorted (\<lambda>e. (if q \<in> set (fields e) then (0::nat) else 1, ve_created e)) es) limit)"

definition next_review :: "direction \<Rightarrow> 'c vocab_entry \<Rightarrow> time" where
  "next_review d e = (case d of Forward \<Rightarrow> ve_next e | Backward \<Rightarrow> ve_rnext e)"

definition get_due_words ::
  "string \<Rightarrow> int \<Rightarrow> string list \<Rightarrow> direction \<Rightarrow> time \<Rightarrow> 'c vocab_file dir \<Rightarrow> 'c vocab_entry list" where
  "get_due_words user limit tags dir now d =
     (let es = filter (\<lambda>e. ve_status e \<noteq> SuspendedWord \<and> shares_tag tags e) (map snd (read_user_vocabulary d user));
          new_words = filter (\<lambda>e. ve_status e = NewWord) es;
          refresher = filter (\<lambda>e. ve_status e = KnownWord \<and> is_due e dir now) es;
          due = filter (\<lambda>e. ve_status e \<noteq> NewWord \<and> ve_status e \<noteq> KnownWord \<and> is_due e dir now) es
      in slice_to (py_sorted ve_created new_words @ py_sorted (next_review dir) due @ py_sorted (next_review dir) refresher)
           limit)"

definition update_after_review ::
  "'c fsrs \<Rightarrow> string \<Rightarrow> string \<Rightarrow> int \<Rightarrow> direction \<Rightarrow> time \<Rightarrow> 'c vocab_file dir
    \<Rightarrow> (exn + 'c vocab_entry option) \<times> 'c vocab_file dir" where
  "update_after_review f user i r dir now d =
     (let ws = read_user_vocabulary d user
      in case map_of ws i of
           None \<Rightarrow> (Inr None, d)
         | Some e \<Rightarrow>
             (case update_entry f e r dir now None of
                Inl x \<Rightarrow> (Inl x, d)
              | Inr u \<Rightarrow> (Inr (Some u), write_user_vocabulary user (AList.update i u ws) d)))"

record card_result =
  cr_word :: string
  cr_rating :: int
  cr_time :: "int option"
  cr_direction :: direction

text \<open>The loop over the results; an exception leaves it before anything is written.\<close>

fun review_loop ::
  "'c fsrs \<Rightarrow> time \<Rightarrow> card_result list \<Rightarrow> (string \<times> 'c vocab_entry option) list \<Rightarrow> 'c words
    \<Rightarrow> exn + ((string \<times> 'c vocab_entry option) list \<times> 'c words)" where
  "review_loop f now [] updated ws = Inr (updated, ws)"
| "review_loop f now (r # rs) updated ws =
     (case map_of ws (cr_word r) of
        None \<Rightarrow> review_loop f now rs (AList.update (cr_word r) None updated) ws
      | Some e \<Rightarrow>
          (case update_entry f e (cr_rating r) (cr_direction r) now (cr_time r) of
             Inl x \<Rightarrow> Inl x
           | Inr u \<Rightarrow> review_loop f now rs (AList.update (cr_word r) (Some u) updated) (AList.update (cr_word r) u ws)))"

definition process_results ::
  "'c fsrs \<Rightarrow> string \<Rightarrow> card_result list \<Rightarrow> time \<Rightarrow> 'c vocab_file dir
    \<Rightarrow> (exn + (string \<times> 'c vocab_entry option) list) \<times> 'c vocab_file dir" where
  "process_results f user rs now d =
     (case review_loop f now rs [] (read_user_vocabulary d user) of
        Inl x \<Rightarrow> (Inl x, d)
      | Inr (updated, ws) \<Rightarrow> (Inr updated, write_user_vocabulary user ws d))"

definition vocab_count :: "string \<Rightarrow> 'c vocab_file dir \<Rightarrow> nat" where
  "vocab_count user d = length (read_user_vocabulary d user)"

definition vocab_exists :: "string \<Rightarrow> string \<Rightarrow> 'c vocab_file dir \<Rightarrow> bool" where
  "vocab_exists user i d = (vocab_get user i d \<noteq> None)"

definition find_by_word :: "string \<Rightarrow> string \<Rightarrow> 'c vocab_file dir \<Rightarrow> 'c vocab_entry option" where
  "find_by_word user w d =
     find (\<lambda>e. py_lower (ve_word e) = py_lower w) (map snd (read_user_vocabulary d user))"

definition stability :: "'c fsrs \<Rightarrow> 'c vocab_entry \<Rightarrow> rat" where
  "stability f e = (case ve_card e of None \<Rightarrow> 0 | Some c \<Rightarrow> (case fs_stability f c of Some s \<Rightarrow> s | None \<Rightarrow> 0))"

text \<open>shuffle is the permutation random.shuffle makes.\<close>

definition get_words ::
  "'c fsrs \<Rightarrow> ('c vocab_entry list \<Rightarrow> 'c vocab_entry list) \<Rightarrow> string \<Rightarrow> string list \<Rightarrow> string list \<Rightarrow> int \<Rightarrow> string
    \<Rightarrow> rat option \<Rightarrow> rat option \<Rightarrow> 'c vocab_file dir \<Rightarrow> 'c vocab_entry list" where
  "get_words f shuffle user tags pos limit order lo hi d =
     (let es = filter (\<lambda>e. shares_tag tags e
            \<and> (pos = [] \<or> pos_value (ve_pos e) \<in> set (map py_lower pos))
            \<and> (case lo of None \<Rightarrow> True | Some x \<Rightarrow> stability f e \<ge> x)
            \<and> (case hi of None \<Rightarrow> True | Some x \<Rightarrow> stability f e \<le> x)) (map snd (read_user_vocabulary d user));
          r = (if order = ''random'' then shuffle es
               else if order = ''newest'' then py_sorted_rev ve_created es
               else if order = ''oldest'' then py_sorted ve_created es
               else if order = ''least_learned'' then py_sorted (stability f) es
               else if order = ''most_learned'' then py_sorted_rev (stability f) es else es)
      in slice_to r limit)"

definition clear_user_vocabulary :: "string \<Rightarrow> 'c vocab_file dir \<Rightarrow> nat \<times> 'c vocab_file dir" where
  "clear_user_vocabulary user d = (vocab_count user d, AList.delete (vocab_path user) d)"

record progress =
  pg_total :: nat
  pg_learned :: nat
  pg_learning :: nat
  pg_new :: nat
  pg_reviews :: nat
  pg_correct :: nat
  pg_due :: nat
  pg_due_reverse :: nat
  pg_last :: "time option"

text \<open>The percentage of correct reviews, a float of the two sums, is left out.\<close>

definition get_progress :: "'c fsrs \<Rightarrow> string \<Rightarrow> direction \<Rightarrow> time \<Rightarrow> 'c vocab_file dir \<Rightarrow> progress" where
  "get_progress f user dir now d =
     (let all_words = map snd (read_user_vocabulary d user);
          es = filter (\<lambda>e. ve_status e \<noteq> SuspendedWord) all_words;
          count = (\<lambda>P. length (filter P es))
      in \<lparr>pg_total = length all_words, pg_learned = count (\<lambda>e. is_learned f e dir),
          pg_learning = count (\<lambda>e. \<not> is_learned f e dir \<and> is_learning f e dir),
          pg_new = count (\<lambda>e. \<not> is_learned f e dir \<and> \<not> is_learning f e dir),
          pg_reviews = sum_list (map (\<lambda>e. case dir of Forward \<Rightarrow> ve_total e | Backward \<Rightarrow> ve_rtotal e) es),
          pg_correct = sum_list (map (\<lambda>e. case dir of Forward \<Rightarrow> ve_correct e | Backward \<Rightarrow> ve_rcorrect e) es),
          pg_due = count (\<lambda>e. is_due e Forward now), pg_due_reverse = count (\<lambda>e. is_due e Backward now),
          pg_last = (case map ve_updated es of [] \<Rightarrow> None | t # ts \<Rightarrow> Some (fold max ts t))\<rparr>)"

section \<open>The tools\<close>

record word_input =
  wi_word :: string
  wi_translit :: string
  wi_translation :: string
  wi_pos :: part_of_speech
  wi_gender :: "string option"
  wi_article :: "string option"
  wi_verb :: "verb_forms option"
  wi_example :: "string option"
  wi_example_tr :: "string option"
  wi_tags :: "string list"

text \<open>
  add_vocabulary: article_ok is the pattern of the article, a rejected entry is reported by
  the text of pydantic's error, given by invalid; the entries of a call get the identifiers ids.
\<close>

record add_env =
  ae_article_ok :: "string \<Rightarrow> bool"
  ae_invalid :: "word_input \<Rightarrow> string"

record add_answer =
  aa_added :: "string list"
  aa_skipped :: "string list"
  aa_errors :: "string list"
  aa_warned :: "string list"

definition max_words_per_call :: nat where
  "max_words_per_call = 10"

definition entry_of_input :: "string \<Rightarrow> string \<Rightarrow> time \<Rightarrow> gender option \<Rightarrow> word_input \<Rightarrow> 'c vocab_entry" where
  "entry_of_input user i now g w =
     \<lparr>ve_id = i, ve_user = user, ve_word = wi_word w, ve_translit = wi_translit w, ve_translation = wi_translation w,
      ve_pos = wi_pos w, ve_gender = g, ve_article = wi_article w, ve_verb = wi_verb w, ve_example = wi_example w,
      ve_example_tr = wi_example_tr w, ve_tags = wi_tags w, ve_status = NewWord, ve_card = None, ve_next = now,
      ve_rcard = None, ve_rnext = now, ve_total = 0, ve_correct = 0, ve_rtotal = 0, ve_rcorrect = 0,
      ve_created = now, ve_updated = now\<rparr>"

definition input_warned :: "word_input \<Rightarrow> bool" where
  "input_warned w =
     ((wi_pos w = Noun \<and> (wi_gender w = None \<or> wi_article w = None)) \<or> (wi_pos w = Verb \<and> wi_verb w = None))"

definition add_word ::
  "add_env \<Rightarrow> string \<Rightarrow> string \<Rightarrow> time \<Rightarrow> word_input \<Rightarrow> add_answer \<times> 'c vocab_file dir \<Rightarrow> add_answer \<times> 'c vocab_file dir" where
  "add_word env user i now w s =
     (case s of (a, d) \<Rightarrow>
        if find_by_word user (wi_word w) d \<noteq> None then (a\<lparr>aa_skipped := aa_skipped a @ [wi_word w]\<rparr>, d)
        else
          (let a1 = (if input_warned w then a\<lparr>aa_warned := aa_warned a @ [wi_word w]\<rparr> else a);
               fail = (\<lambda>x. a1\<lparr>aa_errors := aa_errors a1 @ [wi_word w @ '': '' @ x]\<rparr>);
               g = Option.bind (wi_gender w) gender_of_value; e = entry_of_input user i now g w
           in if wi_gender w \<noteq> None \<and> g = None
              then (fail (''invalid gender '' @ [CHR 0x27] @ the (wi_gender w) @ [CHR 0x27]), d)
              else if \<not> vocab_entry_valid e \<or> \<not> pred_option (ae_article_ok env) (wi_article w)
              then (fail (ae_invalid env w), d)
              else (case vocab_add e d of
                     (Inr _, d') \<Rightarrow> (a1\<lparr>aa_added := aa_added a1 @ [wi_word w]\<rparr>, d')
                   | (Inl x, d') \<Rightarrow> (fail (case x of ValueError m \<Rightarrow> m | _ \<Rightarrow> []), d'))))"

text \<open>The answer, and how many words were over the limit of a call.\<close>

definition add_vocabulary ::
  "add_env \<Rightarrow> string \<Rightarrow> (nat \<Rightarrow> string) \<Rightarrow> (nat \<Rightarrow> time) \<Rightarrow> word_input list \<Rightarrow> 'c vocab_file dir
    \<Rightarrow> (add_answer \<times> nat) \<times> 'c vocab_file dir" where
  "add_vocabulary env user ids clk ws d =
     (case fold (\<lambda>(n, w). add_word env user (ids n) (clk n) w) (enumerate 0 (take max_words_per_call ws))
         (\<lparr>aa_added = [], aa_skipped = [], aa_errors = [], aa_warned = []\<rparr>, d) of
        (a, d') \<Rightarrow> ((a, length ws - max_words_per_call), d'))"

text \<open>set_word_status: the words updated and the words with an error.\<close>

definition set_status_one ::
  "string \<Rightarrow> time \<Rightarrow> string \<times> string \<Rightarrow> (string list \<times> string list) \<times> 'c vocab_file dir
    \<Rightarrow> (string list \<times> string list) \<times> 'c vocab_file dir" where
  "set_status_one user now upd s =
     (case s of ((done, errors), d) \<Rightarrow>
        (case learning_of_value (snd upd) of
           None \<Rightarrow> ((done, errors @ [fst upd]), d)
         | Some st \<Rightarrow>
             if st \<notin> {LearningWord, SuspendedWord} then ((done, errors @ [fst upd]), d)
             else (case vocab_get user (fst upd) d of
                     None \<Rightarrow> ((done, errors @ [fst upd]), d)
                   | Some e \<Rightarrow>
                       (case vocab_update (e\<lparr>ve_status := st\<rparr>) now d of
                          (Inr _, d') \<Rightarrow> ((done @ [ve_word e], errors), d')
                        | (Inl _, d') \<Rightarrow> ((done, errors @ [ve_word e]), d')))))"

definition set_word_status ::
  "string \<Rightarrow> (nat \<Rightarrow> time) \<Rightarrow> (string \<times> string) list \<Rightarrow> 'c vocab_file dir \<Rightarrow> (string list \<times> string list) \<times> 'c vocab_file dir" where
  "set_word_status user clk updates d =
     fold (\<lambda>(n, u). set_status_one user (clk n) u) (enumerate 0 updates) (([], []), d)"

text \<open>The counts the tool for exercise results reports.\<close>

definition count_into :: "string list \<Rightarrow> (string \<times> nat) list" where
  "count_into ks = fold (\<lambda>k m. AList.update k ((case map_of m k of Some n \<Rightarrow> n | None \<Rightarrow> 0) + 1) m) ks []"

definition exercise_report ::
  "card_result list \<Rightarrow> (string \<times> 'c vocab_entry option) list \<Rightarrow> nat \<times> nat \<times> (string \<times> nat) list \<times> (string \<times> nat) list" where
  "exercise_report rs updated =
     (let found = List.map_filter snd updated
      in (length found, length updated - length found, count_into (map (learning_value \<circ> ve_status) found),
          count_into (map (\<lambda>r. case cr_direction r of Forward \<Rightarrow> ''forward'' | Backward \<Rightarrow> ''reverse'') rs)))"


section \<open>Reading what was written\<close>

definition words_ok :: "'c words \<Rightarrow> bool" where
  "words_ok ws = (distinct (map fst ws) \<and> (\<forall>w \<in> set ws. fst w = ve_id (snd w)))"

lemma words_ok_update: "words_ok ws \<Longrightarrow> ve_id e = i \<Longrightarrow> words_ok (AList.update i e ws)"
  by (simp add: words_ok_def set_update distinct_update)

lemma words_ok_delete: "words_ok ws \<Longrightarrow> words_ok (AList.delete i ws)"
  by (simp add: words_ok_def set_delete distinct_delete)

lemma read_words_ok: "words_ok (read_user_vocabulary d user)"
proof -
  have "words_ok (fold (\<lambda>x ws. case x of None \<Rightarrow> ws | Some e \<Rightarrow> AList.update (ve_id e) e ws) es ws)" if "words_ok ws" for es ws
    using that by (induction es arbitrary: ws) (auto simp: words_ok_update split: option.split)
  moreover have "words_ok []" by (simp add: words_ok_def)
  ultimately show ?thesis by (auto simp: read_user_vocabulary_def split: option.split vocab_file.split)
qed

lemma read_write_words [store_simps]:
  assumes "words_ok ws"
  shows "read_user_vocabulary (write_user_vocabulary user ws d) other =
    (if vocab_path user = vocab_path other then ws else read_user_vocabulary d other)"
proof -
  have "fold (\<lambda>x ws. case x of None \<Rightarrow> ws | Some e \<Rightarrow> AList.update (ve_id e) e ws) (map (Some \<circ> snd) vs) us = us @ vs"
    if "words_ok (us @ vs)" for us vs :: "'a words"
    using that
  proof (induction vs arbitrary: us)
    case (Cons v vs)
    have "AList.update (ve_id (snd v)) (snd v) us = us @ [v]"
    proof -
      have "distinct (map fst (us @ v # vs))" using Cons.prems by (simp only: words_ok_def)
      then have "fst v \<notin> fst ` set us" by simp
      moreover have "fst v = ve_id (snd v)" using Cons.prems unfolding words_ok_def by (meson in_set_conv_decomp)
      ultimately have "ve_id (snd v) \<notin> fst ` set us" by simp
      then have "AList.update (ve_id (snd v)) (snd v) us = us @ [(ve_id (snd v), snd v)]" by (rule update_new)
      then show ?thesis using \<open>fst v = ve_id (snd v)\<close> by (simp add: prod_eq_iff)
    qed
    then show ?case using Cons by simp
  qed simp
  from this[of "[]" ws] assms show ?thesis
    by (simp add: read_user_vocabulary_def write_user_vocabulary_def)
qed

section \<open>Words that are due\<close>

text \<open>The order of the exercise words: new ones, then due ones being learned, then known ones.\<close>

definition due_key :: "direction \<Rightarrow> 'c vocab_entry \<Rightarrow> nat \<times> time" where
  "due_key dir e = (if ve_status e = NewWord then (0, ve_created e)
     else if ve_status e = KnownWord then (2, next_review dir e) else (1, next_review dir e))"

lemma sorted_by_key:
  assumes "\<forall>e \<in> set es. due_key dir e = (n, key e)"
  shows "sorted_wrt (\<lambda>a b. due_key dir a \<le> due_key dir b) (py_sorted key es)"
proof -
  have "sorted_wrt (\<lambda>a b. key a \<le> key b) (py_sorted key es)"
    using sorted_py_sorted[of key es] by (simp add: sorted_map)
  then show ?thesis
    by (rule sorted_wrt_mono_rel[rotated]) (use assms in simp)
qed

lemma distinct_words: "words_ok ws \<Longrightarrow> distinct (map snd ws)"
proof -
  assume ok: "words_ok ws"
  then have "map fst ws = map ve_id (map snd ws)" by (simp add: words_ok_def)
  then show ?thesis using ok by (metis distinct_map words_ok_def)
qed

text \<open>
  An exercise gets the words that are due.  get_due_words gives, up to its limit, every
  word of the user that has a wanted tag, is not suspended, and is new or due in the direction
  of the exercise, each once: the new ones by the time they were added, then those being
  learned and then the known ones, each by the time of their next review.
\<close>

theorem due_words_exact:
  "\<exists>all_due. get_due_words user limit tags dir now d = slice_to all_due limit \<and> distinct all_due \<and>
    sorted_wrt (\<lambda>a b. due_key dir a \<le> due_key dir b) all_due \<and>
    set all_due = {e \<in> snd ` set (read_user_vocabulary d user). ve_status e \<noteq> SuspendedWord \<and> shares_tag tags e \<and>
      (ve_status e = NewWord \<or> is_due e dir now)}"
proof -
  define es where "es = filter (\<lambda>e. ve_status e \<noteq> SuspendedWord \<and> shares_tag tags e) (map snd (read_user_vocabulary d user))"
  define new_words where "new_words = filter (\<lambda>e. ve_status e = NewWord) es"
  define refresher where "refresher = filter (\<lambda>e. ve_status e = KnownWord \<and> is_due e dir now) es"
  define due where "due = filter (\<lambda>e. ve_status e \<noteq> NewWord \<and> ve_status e \<noteq> KnownWord \<and> is_due e dir now) es"
  let ?all = "py_sorted ve_created new_words @ py_sorted (next_review dir) due @ py_sorted (next_review dir) refresher"
  have "get_due_words user limit tags dir now d = slice_to ?all limit"
    by (simp add: get_due_words_def Let_def es_def new_words_def refresher_def due_def)
  moreover have "distinct es"
    unfolding es_def by (rule distinct_filter) (rule distinct_words[OF read_words_ok])
  then have "distinct ?all" by (auto simp: new_words_def due_def refresher_def py_sorted_def)
  moreover have "sorted_wrt (\<lambda>a b. due_key dir a \<le> due_key dir b) ?all"
    unfolding sorted_wrt_append
    by (intro conjI sorted_by_key[of _ _ 0] sorted_by_key[of _ _ 1] sorted_by_key[of _ _ 2])
      (auto simp: new_words_def due_def refresher_def due_key_def)
  moreover have "set ?all = {e \<in> snd ` set (read_user_vocabulary d user). ve_status e \<noteq> SuspendedWord \<and> shares_tag tags e \<and>
      (ve_status e = NewWord \<or> is_due e dir now)}"
    by (auto simp: new_words_def due_def refresher_def es_def)
  ultimately show ?thesis by blast
qed

section \<open>Reviews\<close>

lemma update_entry_id: "update_entry f e r dir now ms = Inr u \<Longrightarrow> ve_id u = ve_id e"
  by (auto simp: update_entry_def Let_def split: if_splits direction.splits)

lemma review_loop_ok:
  "review_loop f now rs upd ws = Inr (upd', ws') \<Longrightarrow> words_ok ws \<Longrightarrow> words_ok ws'"
proof (induction rs arbitrary: upd ws)
  case (Cons r rs)
  show ?case
  proof (cases "map_of ws (cr_word r)")
    case None
    then show ?thesis using Cons by simp
  next
    case (Some e)
    then have id: "ve_id e = cr_word r" using Cons.prems(2) by (auto simp: words_ok_def dest!: map_of_SomeD)
    then obtain u where u: "update_entry f e (cr_rating r) (cr_direction r) now (cr_time r) = Inr u"
      "review_loop f now rs (AList.update (cr_word r) (Some u) upd) (AList.update (cr_word r) u ws) = Inr (upd', ws')"
      using Cons.prems(1) Some by (auto split: sum.splits)
    have "words_ok (AList.update (cr_word r) u ws)"
      using words_ok_update[OF Cons.prems(2), of u] update_entry_id[OF u(1)] id by simp
    then show ?thesis using Cons.IH u(2) by blast
  qed
qed simp

lemma review_loop_split:
  "review_loop f now (r # rs) upd ws =
     (case review_loop f now [r] upd ws of Inl x \<Rightarrow> Inl x | Inr (upd', ws') \<Rightarrow> review_loop f now rs upd' ws')"
  by (auto split: option.split sum.split)

lemma write_write: "write_user_vocabulary user ws (write_user_vocabulary user vs d) = write_user_vocabulary user ws d"
proof -
  have "AList.update k x (AList.update k y al) = AList.update k x al" for k x y and al :: "(string \<times> 'a vocab_file) list"
    by (induction al) auto
  then show ?thesis by (simp add: write_user_vocabulary_def)
qed

text \<open>The outcomes of results taken one at a time, in order.\<close>

fun review_each ::
  "'c fsrs \<Rightarrow> string \<Rightarrow> time \<Rightarrow> card_result list \<Rightarrow> (string \<times> 'c vocab_entry option) list \<Rightarrow> 'c vocab_file dir
    \<Rightarrow> exn + ((string \<times> 'c vocab_entry option) list \<times> 'c vocab_file dir)" where
  "review_each f user now [] upd d = Inr (upd, d)"
| "review_each f user now (r # rs) upd d =
     (case process_results f user [r] now d of
        (Inl x, _) \<Rightarrow> Inl x
      | (Inr one, d') \<Rightarrow> review_each f user now rs (fold (\<lambda>(i, e). AList.update i e) one upd) d')"

lemma review_one:
  "review_loop f now [r] upd ws = Inr (upd', ws') \<Longrightarrow>
     \<exists>x. review_loop f now [r] [] ws = Inr ([(cr_word r, x)], ws') \<and> upd' = AList.update (cr_word r) x upd"
  "review_loop f now [r] upd ws = Inl y \<Longrightarrow> review_loop f now [r] [] ws = Inl y"
  by (auto split: option.splits sum.splits)

lemma review_each_loop:
  "(case review_loop f now rs upd (read_user_vocabulary d user) of
      Inl x \<Rightarrow> review_each f user now rs upd d = Inl x
    | Inr (upd', ws') \<Rightarrow> review_each f user now rs upd d = Inr (upd', if rs = [] then d else write_user_vocabulary user ws' d))"
proof (induction rs arbitrary: upd d)
  case (Cons r rs)
  let ?ws = "read_user_vocabulary d user"
  show ?case
  proof (cases "review_loop f now [r] upd ?ws")
    case (Inl y)
    then have "process_results f user [r] now d = (Inl y, d)" using review_one(2)[OF Inl] by (simp add: process_results_def)
    then show ?thesis using Inl by (simp add: review_loop_split[of f now r rs] del: review_loop.simps(2))
  next
    case (Inr p)
    obtain upd1 ws1 where p: "p = (upd1, ws1)" by fastforce
    obtain x where x: "review_loop f now [r] [] ?ws = Inr ([(cr_word r, x)], ws1)" "upd1 = AList.update (cr_word r) x upd"
      using review_one(1) Inr p by blast
    let ?d1 = "write_user_vocabulary user ws1 d"
    have one: "process_results f user [r] now d = (Inr [(cr_word r, x)], ?d1)" using x(1) by (simp add: process_results_def)
    have "words_ok ws1" using review_loop_ok[OF x(1) read_words_ok] .
    then have read: "read_user_vocabulary ?d1 user = ws1" by (simp add: read_write_words)
    show ?thesis using Cons.IH[of upd1 ?d1] x(2) Inr p unfolding read
      by (cases "rs = []") (auto simp: one write_write review_loop_split[of f now r rs] simp del: review_loop.simps(2) split: sum.splits)
  qed
qed simp

text \<open>A rating of a word of the user that no review accepts.\<close>

definition bad_rating :: "'c words \<Rightarrow> card_result \<Rightarrow> bool" where
  "bad_rating ws r = (map_of ws (cr_word r) \<noteq> None \<and> (cr_rating r < 0 \<or> cr_rating r > 3))"

lemma update_entry_raises:
  "r < 0 \<or> r > 3 \<Longrightarrow> update_entry f e r d now ms = Inl (ValueError (''Rating must be 0-3, got '' @ show_int r))"
  "\<not> (r < 0 \<or> r > 3) \<Longrightarrow> \<exists>u. update_entry f e r d now ms = Inr u"
  by (simp_all add: update_entry_def Let_def)

lemma review_loop_raises:
  "case review_loop f now rs upd ws of
     Inl x \<Rightarrow> \<exists>r \<in> set rs. bad_rating ws r \<and> x = ValueError (''Rating must be 0-3, got '' @ show_int (cr_rating r))
   | Inr _ \<Rightarrow> \<forall>r \<in> set rs. \<not> bad_rating ws r"
proof (induction rs arbitrary: upd ws)
  case (Cons r rs)
  show ?case
  proof (cases "map_of ws (cr_word r)")
    case None
    then have eq: "review_loop f now (r # rs) upd ws = review_loop f now rs (AList.update (cr_word r) None upd) ws"
      and "\<not> bad_rating ws r" by (simp_all add: bad_rating_def)
    then show ?thesis unfolding eq using Cons.IH[of ws "AList.update (cr_word r) None upd"] by (auto split: sum.splits)
  next
    case (Some e)
    show ?thesis
    proof (cases "cr_rating r < 0 \<or> cr_rating r > 3")
      case True
      then have "bad_rating ws r" using Some by (simp add: bad_rating_def)
      then show ?thesis using Some True update_entry_raises(1)[OF True, of f e "cr_direction r" now "cr_time r"] by auto
    next
      case False
      then obtain u where u: "update_entry f e (cr_rating r) (cr_direction r) now (cr_time r) = Inr u"
        using update_entry_raises(2) by blast
      let ?upd = "AList.update (cr_word r) (Some u) upd" and ?ws = "AList.update (cr_word r) u ws"
      have eq: "review_loop f now (r # rs) upd ws = review_loop f now rs ?upd ?ws" by (simp add: Some u)
      have keys: "bad_rating ?ws q = bad_rating ws q" for q
        using Some by (simp add: bad_rating_def update_conv')
      have "\<not> bad_rating ws r" using False by (simp add: bad_rating_def)
      then show ?thesis unfolding eq using Cons.IH[of ?ws ?upd] by (auto simp: keys split: sum.splits)
    qed
  qed
qed simp

text \<open>
  C13: the results of an exercise count as if each had come alone.  Processing a list of card
  results leaves the words, and reports for every word the outcome, that processing the
  results one at a time in their order does.  It raises exactly when a result for a word of the user
  has a rating outside 0 to 3, with the error of such a rating, and then no result of the list is
  stored; the rating of an unknown word is not looked at.
\<close>

theorem results_batch:
  assumes "rs \<noteq> []"
  shows "case process_results f user rs now d of
      (Inl x, d') \<Rightarrow> d' = d \<and> review_each f user now rs [] d = Inl x \<and>
        (\<exists>r \<in> set rs. bad_rating (read_user_vocabulary d user) r \<and> x = ValueError (''Rating must be 0-3, got '' @ show_int (cr_rating r)))
    | (Inr upd, d') \<Rightarrow> review_each f user now rs [] d = Inr (upd, d') \<and>
        (\<forall>r \<in> set rs. \<not> bad_rating (read_user_vocabulary d user) r)"
  using review_each_loop[where rs = rs and upd = "[]" and f = f and user = user and now = now and d = d] assms
    review_loop_raises[where rs = rs and upd = "[]" and f = f and now = now and ws = "read_user_vocabulary d user"]
  by (auto simp: process_results_def split: sum.splits)

section \<open>Well-typed words\<close>

definition entry_ok :: "'c fsrs \<Rightarrow> 'c vocab_entry \<Rightarrow> bool" where
  "entry_ok f e =
     (vocab_entry_valid e \<and> ve_correct e \<le> ve_total e \<and> ve_rcorrect e \<le> ve_rtotal e \<and>
      (ve_card e = None \<longleftrightarrow> ve_total e = 0) \<and> (ve_rcard e = None \<longleftrightarrow> ve_rtotal e = 0) \<and>
      (ve_status e = NewWord \<longrightarrow> ve_card e = None \<and> ve_rcard e = None) \<and>
      (ve_status e = KnownWord \<longrightarrow> card_states f e Forward = Some CardReview \<and> card_states f e Backward = Some CardReview))"

definition vocab_ok :: "'c fsrs \<Rightarrow> 'c vocab_file dir \<Rightarrow> bool" where
  "vocab_ok f d = (\<forall>es. \<forall>e. Entries es \<in> snd ` set d \<and> Some e \<in> set es \<longrightarrow> entry_ok f e)"

text \<open>
  What the engine relies on in the FSRS library: a new card is in the learning state, and a
  review with Good or Easy leaves a graduated card graduated.
\<close>

definition fsrs_ok :: "'c fsrs \<Rightarrow> bool" where
  "fsrs_ok f = (fs_state f (fs_new f) = CardLearning \<and>
     (\<forall>c r t ms. fs_state f c = CardReview \<and> r \<in> {Good, Easy} \<longrightarrow> fs_state f (fs_review f c r t ms) = CardReview))"

lemma get_card_review:
  assumes "fsrs_ok f"
  shows "fs_state f (get_card f e d) = CardReview \<longleftrightarrow> card_states f e d = Some CardReview"
  using assms by (auto simp: get_card_def card_states_def fsrs_ok_def split: option.split)

lemma update_entry_ok:
  assumes "fsrs_ok f" and "entry_ok f e" and "update_entry f e r dir now ms = Inr u"
  shows "entry_ok f u"
proof -
  have r: "0 \<le> r" "r \<le> 3" using assms(3) by (auto simp: update_entry_def split: if_splits)
  have state: "\<not> r \<le> 1 \<Longrightarrow> fs_state f c = CardReview \<Longrightarrow> fs_state f (fs_review f c (rating_map r) now ms) = CardReview" for c
    using assms(1) r by (auto simp: fsrs_ok_def rating_map_def)
  let ?c = "fs_review f (get_card f e dir) (rating_map r) now ms"
  have known: "ve_status e = KnownWord \<Longrightarrow> \<not> r \<le> 1 \<Longrightarrow> fs_state f ?c = CardReview"
    using state assms(2) get_card_review[OF assms(1)] by (cases dir) (simp_all add: entry_ok_def)
  show ?thesis
  proof (cases dir)
    case Forward
    let ?s = "status_transition f (ve_status e) r ?c (get_card f e Backward)"
    have u: "u = e\<lparr>ve_status := ?s, ve_card := Some ?c, ve_next := fs_due f ?c, ve_total := ve_total e + 1,
        ve_correct := (if r \<ge> 1 then ve_correct e + 1 else ve_correct e), ve_updated := now\<rparr>"
      using assms(3) Forward by (simp add: update_entry_def Let_def split: if_splits)
    have "?s \<noteq> NewWord" "?s = KnownWord \<Longrightarrow> fs_state f ?c = CardReview \<and> card_states f e Backward = Some CardReview"
      using known assms(2) get_card_review[OF assms(1), of e Backward]
      by (auto simp: status_transition_def entry_ok_def split: learning_status.splits if_splits)
    then show ?thesis using assms(2) by (auto simp: u entry_ok_def vocab_entry_valid_def card_states_def cong: option.case_cong)
  next
    case Backward
    let ?s = "status_transition f (ve_status e) r (get_card f e Forward) ?c"
    have u: "u = e\<lparr>ve_status := ?s, ve_rcard := Some ?c, ve_rnext := fs_due f ?c, ve_rtotal := ve_rtotal e + 1,
        ve_rcorrect := (if r \<ge> 1 then ve_rcorrect e + 1 else ve_rcorrect e), ve_updated := now\<rparr>"
      using assms(3) Backward by (simp add: update_entry_def Let_def split: if_splits)
    have "?s \<noteq> NewWord" "?s = KnownWord \<Longrightarrow> fs_state f ?c = CardReview \<and> card_states f e Forward = Some CardReview"
      using known assms(2) get_card_review[OF assms(1), of e Forward]
      by (auto simp: status_transition_def entry_ok_def split: learning_status.splits if_splits)
    then show ?thesis using assms(2) by (auto simp: u entry_ok_def vocab_entry_valid_def card_states_def cong: option.case_cong)
  qed
qed

inductive vocab_step :: "'c fsrs \<Rightarrow> 'c vocab_file dir \<Rightarrow> 'c vocab_file dir \<Rightarrow> bool" for f :: "'c fsrs" where
  vs_add: "vocab_step f d (snd (add_vocabulary env user ids clk ws d))"
| vs_status: "vocab_step f d (snd (set_word_status user clk upds d))"
| vs_results: "vocab_step f d (snd (process_results f user rs now d))"
| vs_review: "vocab_step f d (snd (update_after_review f user i r dir now d))"
| vs_delete: "vocab_step f d (snd (vocab_delete user i d))"
| vs_clear: "vocab_step f d (snd (clear_user_vocabulary user d))"

lemma set_update_subset: "set (AList.update k v al) \<subseteq> insert (k, v) (set al)"
  by (induction al) auto

lemma read_entry_ok:
  assumes "vocab_ok f d" and "w \<in> set (read_user_vocabulary d user)"
  shows "entry_ok f (snd w)"
proof -
  have "set (fold (\<lambda>x ws. case x of None \<Rightarrow> ws | Some e \<Rightarrow> AList.update (ve_id e) e ws) es ws)
      \<subseteq> set ws \<union> {(ve_id e, e) |e. Some e \<in> set es}" for es :: "'a vocab_entry option list" and ws
  proof (induction es arbitrary: ws)
    case (Cons x es)
    show ?case
    proof (cases x)
      case None
      then show ?thesis using Cons.IH[of ws] by auto
    next
      case (Some e)
      then show ?thesis using Cons.IH[of "AList.update (ve_id e) e ws"] set_update_subset[of "ve_id e" e ws] by auto
    qed
  qed simp
  note put = this
  obtain es where es: "map_of d (vocab_path user) = Some (Entries es)"
    "w \<in> set (fold (\<lambda>x ws. case x of None \<Rightarrow> ws | Some e \<Rightarrow> AList.update (ve_id e) e ws) es [])"
    using assms(2)
    by (cases "map_of d (vocab_path user)") (auto simp: read_user_vocabulary_def split: vocab_file.splits)
  then have "Some (snd w) \<in> set es" using put[of es "[]"] by auto
  then show ?thesis using assms(1) map_of_in_values[OF es(1)] unfolding vocab_ok_def by blast
qed

lemma write_entries_ok:
  assumes "vocab_ok f d" and "\<forall>w \<in> set ws. entry_ok f (snd w)"
  shows "vocab_ok f (write_user_vocabulary user ws d)"
  unfolding vocab_ok_def
proof (intro allI impI)
  fix es e assume e: "Entries es \<in> snd ` set (write_user_vocabulary user ws d) \<and> Some e \<in> set es"
  then have "Entries es \<in> snd ` set d \<or> es = map (Some \<circ> snd) ws"
    using set_update_subset[of "vocab_path user" "Entries (map (Some \<circ> snd) ws)" d]
    by (fastforce simp: write_user_vocabulary_def)
  then show "entry_ok f e" using assms e by (auto simp: vocab_ok_def)
qed

lemma put_entry_ok:
  assumes "vocab_ok f d" and "entry_ok f e"
  shows "vocab_ok f (write_user_vocabulary user (AList.update i e (read_user_vocabulary d user)) d)"
  using assms read_entry_ok[OF assms(1)] set_update_subset[of i e "read_user_vocabulary d user"]
  by (intro write_entries_ok) fastforce+

lemma add_word_ok:
  fixes s :: "add_answer \<times> 'a vocab_file dir"
  shows "vocab_ok f (snd s) \<Longrightarrow> vocab_ok f (snd (add_word env user i now w s))"
proof -
  assume ok: "vocab_ok f (snd s)"
  have "entry_ok f (entry_of_input user i now g w)" if "vocab_entry_valid (entry_of_input user i now g w :: 'a vocab_entry)" for g
    using that by (simp add: entry_ok_def entry_of_input_def)
  then show ?thesis
    using ok put_entry_ok[OF ok]
    by (cases s) (simp add: add_word_def Let_def vocab_add_def split: sum.split prod.split)
qed

lemma set_status_ok: "vocab_ok f (snd s) \<Longrightarrow> vocab_ok f (snd (set_status_one user now upd s))"
proof -
  assume ok: "vocab_ok f (snd s)"
  have upd: "vocab_ok f (snd (vocab_update (e\<lparr>ve_status := st\<rparr>) now (snd s)))"
    if e: "vocab_get user i (snd s) = Some e" and st: "st = LearningWord \<or> st = SuspendedWord" for e st i
  proof -
    have "entry_ok f e" using read_entry_ok[OF ok] e by (fastforce simp: vocab_get_def dest: map_of_SomeD)
    then have "entry_ok f (e\<lparr>ve_status := st, ve_updated := now\<rparr>)"
      using st by (auto simp: entry_ok_def vocab_entry_valid_def card_states_def cong: option.case_cong)
    then show ?thesis using ok put_entry_ok[OF ok] by (simp add: vocab_update_def Let_def)
  qed
  obtain a b d where s: "s = ((a, b), d)" by (metis prod.exhaust)
  show ?thesis
    using ok upd unfolding s
    by (auto simp: set_status_one_def split: option.split prod.split sum.split) (metis snd_conv)+
qed

lemma fold_ok: "(\<And>x s. P (snd s) \<Longrightarrow> P (snd (g x s))) \<Longrightarrow> P (snd s) \<Longrightarrow> P (snd (fold g xs s))"
  by (induction xs arbitrary: s) simp_all

lemma review_loop_entries:
  assumes "fsrs_ok f"
  shows "review_loop f now rs upd ws = Inr (upd', ws') \<Longrightarrow> \<forall>w \<in> set ws. entry_ok f (snd w) \<Longrightarrow> \<forall>w \<in> set ws'. entry_ok f (snd w)"
proof (induction rs arbitrary: upd ws)
  case (Cons r rs)
  show ?case
  proof (cases "map_of ws (cr_word r)")
    case None
    then show ?thesis using Cons by simp
  next
    case (Some e)
    then obtain u where u: "update_entry f e (cr_rating r) (cr_direction r) now (cr_time r) = Inr u"
      "review_loop f now rs (AList.update (cr_word r) (Some u) upd) (AList.update (cr_word r) u ws) = Inr (upd', ws')"
      using Cons.prems(1) by (auto split: sum.splits)
    have "entry_ok f e" using Cons.prems(2) Some by (fastforce dest: map_of_SomeD)
    then have "entry_ok f u" using update_entry_ok[OF assms _ u(1)] by blast
    then have "\<forall>w \<in> set (AList.update (cr_word r) u ws). entry_ok f (snd w)"
      using Cons.prems(2) set_update_subset[of "cr_word r" u ws] by fastforce
    then show ?thesis using Cons.IH[OF u(2)] by blast
  qed
qed simp

lemma vocab_step_ok:
  assumes "fsrs_ok f" and "vocab_ok f d" and "vocab_step f d d'"
  shows "vocab_ok f d'"
  using assms(3)
proof (cases rule: vocab_step.cases)
  case (vs_add env user ids clk ws)
  have "vocab_ok f (snd (fold (\<lambda>(n, w). add_word env user (ids n) (clk n) w) xs (a, d)))" for xs a
    by (rule fold_ok[where P = "vocab_ok f"]) (auto simp: add_word_ok assms(2) split: prod.split)
  moreover have "snd (add_vocabulary env user ids clk ws d) = snd (fold (\<lambda>(n, w). add_word env user (ids n) (clk n) w)
      (enumerate 0 (take max_words_per_call ws)) (\<lparr>aa_added = [], aa_skipped = [], aa_errors = [], aa_warned = []\<rparr>, d))"
    by (simp add: add_vocabulary_def split: prod.split)
  ultimately show ?thesis unfolding vs_add by simp
next
  case (vs_status user clk upds)
  show ?thesis unfolding vs_status set_word_status_def
    by (rule fold_ok[where P = "vocab_ok f"]) (auto simp: set_status_ok assms(2) split: prod.split)
next
  case (vs_results user rs now)
  have "\<forall>w \<in> set (read_user_vocabulary d user). entry_ok f (snd w)" using read_entry_ok[OF assms(2)] by blast
  then show ?thesis
    using vs_results assms(2) review_loop_entries[OF assms(1), of now rs "[]" "read_user_vocabulary d user"]
    by (auto simp: process_results_def intro: write_entries_ok split: sum.split)
next
  case (vs_review user i r dir now)
  have "entry_ok f e" if "map_of (read_user_vocabulary d user) i = Some e" for e
    using read_entry_ok[OF assms(2)] that by (fastforce dest: map_of_SomeD)
  then show ?thesis
    using vs_review assms(2) put_entry_ok[OF assms(2)] update_entry_ok[OF assms(1)]
    by (auto simp: update_after_review_def Let_def split: option.split sum.split)
next
  case (vs_delete user i)
  have "\<forall>w \<in> set (AList.delete i (read_user_vocabulary d user)). entry_ok f (snd w)"
    using read_entry_ok[OF assms(2)] by (auto simp: set_delete)
  then show ?thesis using vs_delete assms(2) by (auto simp: vocab_delete_def Let_def intro: write_entries_ok)
next
  case (vs_clear user)
  then show ?thesis using assms(2) by (auto simp: clear_user_vocabulary_def vocab_ok_def set_delete)
qed

text \<open>
  C10: the words a user has are well typed.  Starting from well-typed files, whatever the tools
  and the store do, every entry read has its required texts, verb forms exactly when it is a
  verb, no more correct reviews than reviews, a card in a direction exactly when it was
  reviewed in it; a new word was never reviewed, and a known word has graduated in both
  directions.
\<close>

theorem vocabulary_typed:
  assumes "fsrs_ok f" and "vocab_ok f d" and "(vocab_step f)\<^sup>*\<^sup>* d d'" and "(i, e) \<in> set (read_user_vocabulary d' user)"
  shows "i = ve_id e \<and> vocab_entry_valid e \<and> ve_correct e \<le> ve_total e \<and> ve_rcorrect e \<le> ve_rtotal e \<and>
    (ve_card e = None \<longleftrightarrow> ve_total e = 0) \<and> (ve_rcard e = None \<longleftrightarrow> ve_rtotal e = 0) \<and>
    (ve_status e = NewWord \<longrightarrow> ve_total e = 0 \<and> ve_rtotal e = 0) \<and>
    (ve_status e = KnownWord \<longrightarrow> is_learned f e Forward \<and> is_learned f e Backward)"
proof -
  have "vocab_ok f d'" using assms(3)
    by (induction rule: rtranclp_induct) (use assms(1,2) vocab_step_ok in blast)+
  then have "entry_ok f e" using read_entry_ok assms(4) by fastforce
  moreover have "i = ve_id e" using read_words_ok[of d' user] assms(4) by (auto simp: words_ok_def)
  ultimately show ?thesis by (auto simp: entry_ok_def is_learned_def)
qed

text \<open>A library that schedules by counting reviews, and a new word that is reviewed.\<close>

definition demo_fsrs :: "nat fsrs" where
  "demo_fsrs = \<lparr>fs_new = 0, fs_review = (\<lambda>c r t ms. if r = Again then 0 else c + 1), fs_due = (\<lambda>c. int c),
     fs_state = (\<lambda>c. if c \<ge> 1 then CardReview else CardLearning), fs_stability = (\<lambda>c. None)\<rparr>"

definition demo_word :: word_input where
  "demo_word = \<lparr>wi_word = ''spiti'', wi_translit = ''spiti'', wi_translation = ''dom'', wi_pos = Noun, wi_gender = Some ''n'',
     wi_article = None, wi_verb = None, wi_example = None, wi_example_tr = None, wi_tags = []\<rparr>"

definition demo_vocab :: "nat vocab_file dir" where
  "demo_vocab = [(''u.json'', Entries [Some (entry_of_input ''u'' ''w0'' 0 (Some Neuter) demo_word)])]"

definition demo_results :: "card_result list" where
  "demo_results = [\<lparr>cr_word = ''w0'', cr_rating = 2, cr_time = None, cr_direction = Forward\<rparr>,
     \<lparr>cr_word = ''w0'', cr_rating = 2, cr_time = None, cr_direction = Backward\<rparr>]"

lemma demo_fsrs_ok: "fsrs_ok demo_fsrs" "vocab_ok demo_fsrs demo_vocab"
  by (auto simp: fsrs_ok_def demo_fsrs_def vocab_ok_def demo_vocab_def entry_ok_def entry_of_input_def demo_word_def
      vocab_entry_valid_def)

theorem results_batch_witness:
  "case process_results demo_fsrs ''u'' demo_results 5 demo_vocab of
     (Inr upd, d') \<Rightarrow> map fst upd = [''w0''] \<and> review_each demo_fsrs ''u'' 5 demo_results [] demo_vocab = Inr (upd, d')
   | (Inl x, d') \<Rightarrow> False"
proof -
  have "case fst (process_results demo_fsrs ''u'' demo_results 5 demo_vocab) of Inr upd \<Rightarrow> map fst upd = [''w0''] | Inl x \<Rightarrow> False"
    by code_simp
  then obtain upd where "fst (process_results demo_fsrs ''u'' demo_results 5 demo_vocab) = Inr upd" "map fst upd = [''w0'']"
    by (auto split: sum.splits)
  then obtain d' where run: "process_results demo_fsrs ''u'' demo_results 5 demo_vocab = (Inr upd, d')" by (metis prod.collapse)
  have "demo_results \<noteq> []" by (simp add: demo_results_def)
  from results_batch[OF this, where f = demo_fsrs and user = "''u''" and now = 5 and d = demo_vocab, unfolded run]
  show ?thesis using \<open>map fst upd = [''w0'']\<close> by (simp add: run)
qed

theorem vocabulary_typed_witness:
  "\<exists>e. vocab_get ''u'' ''w0'' (snd (process_results demo_fsrs ''u'' demo_results 5 demo_vocab)) = Some e \<and>
    ve_status e = KnownWord \<and> is_learned demo_fsrs e Forward \<and> ve_correct e \<le> ve_total e"
proof -
  let ?d = "snd (process_results demo_fsrs ''u'' demo_results 5 demo_vocab)"
  have "map_option ve_status (vocab_get ''u'' ''w0'' ?d) = Some KnownWord" by code_simp
  then obtain e where e: "vocab_get ''u'' ''w0'' ?d = Some e" "ve_status e = KnownWord" by auto
  then have "(''w0'', e) \<in> set (read_user_vocabulary ?d ''u'')" by (auto simp: vocab_get_def dest: map_of_SomeD)
  moreover have "(vocab_step demo_fsrs)\<^sup>*\<^sup>* demo_vocab ?d" by (intro r_into_rtranclp vs_results)
  ultimately show ?thesis using vocabulary_typed[OF demo_fsrs_ok] e by blast
qed

end
