(* ===== verification/Configuration.thy ===== *)
theory Configuration
  imports Py_Text
begin

text \<open>
  The configuration: core/config/schemas.py, env_utils.py and loader.py.  What pydantic does
  to bring a mapping into the declared types is not modelled: a schema of the loader is a
  function that gives the validation errors or the dumped values.  The constraints the schemas
  state themselves, Field bounds and validators, are modelled on records of decoded values.
  The YAML files are given by what safe_load makes of them; the environment is a dictionary.
\<close>

section \<open>Schemas\<close>

record telegram_config =
  tc_enabled :: bool
  tc_bot_token :: string
  tc_allowlist :: "int list"
  tc_poll_timeout :: int
  tc_poll_interval :: rat
  tc_drop_pending :: bool
  tc_api_id :: "int option"
  tc_api_hash :: "string option"
  tc_transcription :: int
  tc_throttle :: int
  tc_max_attachment :: int
  tc_hmac_secret :: string
  tc_max_sessions :: int

definition telegram_bounds :: "telegram_config \<Rightarrow> bool" where
  "telegram_bounds c =
     (tc_poll_timeout c \<ge> 1 \<and> tc_poll_interval c \<ge> 0 \<and> tc_transcription c \<ge> 1 \<and> tc_throttle c \<ge> 1 \<and>
      tc_max_attachment c \<ge> 1 \<and> tc_max_sessions c \<ge> 1)"

definition validate_when_enabled :: "telegram_config \<Rightarrow> (exn + unit)" where
  "validate_when_enabled c =
     (if tc_enabled c \<and> py_strip (tc_bot_token c) = [] then Inl (ValueError ''bot_token must not be empty when enabled=true'')
      else if tc_enabled c \<and> tc_allowlist c = []
      then Inl (ValueError ''allowlist must contain at least one user ID when enabled=true'')
      else if (tc_api_id c \<noteq> None) \<noteq> (tc_api_hash c \<noteq> None)
      then Inl (ValueError ''mtproto_api_id and mtproto_api_hash must both be set or both be absent'')
      else Inr ())"

record model_config =
  mo_default :: string
  mo_allowlist :: "string list"
  mo_max_tokens :: int
  mo_trace :: bool

definition model_bounds :: "model_config \<Rightarrow> bool" where
  "model_bounds c = (mo_allowlist c \<noteq> [] \<and> mo_max_tokens c \<ge> 1)"

definition default_in_allowlist :: "model_config \<Rightarrow> (exn + unit)" where
  "default_in_allowlist c =
     (if mo_allowlist c \<noteq> [] \<and> mo_default c \<notin> set (mo_allowlist c)
      then Inl (ValueError (''default_model_id '' @ [CHR 0x27] @ mo_default c @ [CHR 0x27] @ '' must be in model_allowlist''))
      else Inr ())"

text \<open>The command allowlist of the shell tools, given as strings or as mappings.\<close>

record allow_entry =
  al_id :: string
  al_command :: string
  al_args :: string
  al_timeout :: int

definition allow_entry_ok :: "allow_entry \<Rightarrow> bool" where
  "allow_entry_ok e = (al_timeout e \<ge> 1)"

definition entry_of_string :: "string \<Rightarrow> allow_entry" where
  "entry_of_string s = \<lparr>al_id = py_lower (py_strip s), al_command = py_strip s, al_args = ''.*'', al_timeout = 30\<rparr>"

definition coerce_item :: "(dict \<Rightarrow> allow_entry option) \<Rightarrow> pyval \<Rightarrow> allow_entry list option" where
  "coerce_item entry_of v =
     (case v of
        PStr s \<Rightarrow> Some (if py_strip s \<noteq> [] then [entry_of_string s] else [])
      | PDict d \<Rightarrow> map_option (\<lambda>e. [e]) (entry_of d)
      | _ \<Rightarrow> Some [])"

definition coerce_command_allowlist :: "(dict \<Rightarrow> allow_entry option) \<Rightarrow> pyval \<Rightarrow> allow_entry list option" where
  "coerce_command_allowlist entry_of v =
     (case v of PList xs \<Rightarrow> map_option concat (those (map (coerce_item entry_of) xs)) | _ \<Rightarrow> Some [])"

text \<open>The parameters of a tool are the values that are set; these have to be positive.\<close>

definition positive_params :: "string list" where
  "positive_params =
     [''default_timeout_seconds'', ''max_timeout_seconds'', ''delegation_default_ttl_seconds'', ''delegation_max_ttl_seconds'',
      ''delegation_max_concurrent_tasks'', ''delegation_per_task_token_cap'', ''delegation_per_session_token_cap'',
      ''delegation_global_token_cap'', ''delegation_budget_window_seconds'', ''delegation_estimated_tokens_per_turn'',
      ''delegation_default_max_turns'', ''delegation_default_timeout_seconds'']"

definition tool_params_ok :: "dict \<Rightarrow> bool" where
  "tool_params_ok d =
     (list_all (\<lambda>k. case dget d k of PNone \<Rightarrow> True | PInt n \<Rightarrow> n \<ge> 1 | _ \<Rightarrow> False) positive_params \<and>
      (case dget d ''delegation_default_effort'' of
         PNone \<Rightarrow> True | PStr s \<Rightarrow> s \<in> {''low'', ''medium'', ''high'', ''xhigh'', ''max''} | _ \<Rightarrow> False))"

record tool_def =
  td_id :: string
  td_entrypoint :: string
  td_enabled :: bool
  td_retries :: "int option"
  td_params :: "dict option"

definition validate_entrypoint :: "string \<Rightarrow> (exn + string)" where
  "validate_entrypoint v =
     (if colon \<notin> set v then Inl (ValueError ''entrypoint must be <python_module>:<callable_name> format'')
      else Inr (py_strip v))"

record capability_policy =
  cp_enabled :: "string list"
  cp_denied :: "string list"

text \<open>An MCP server.\<close>

datatype transport = Stdio | Streamable | Sse

record mcp_entry =
  me_id :: string
  me_transport :: transport
  me_url :: string
  me_command :: string
  me_args :: "string list"
  me_env :: "(string \<times> string) list"
  me_headers :: "(string \<times> string) list"
  me_enabled :: bool
  me_include :: "string list option"
  me_exclude :: "string list option"
  me_confirm :: "string list"
  me_instructions :: bool
  me_call :: "int option"

definition mcp_id_ok :: "string \<Rightarrow> bool" where
  "mcp_id_ok s =
     (case s of [] \<Rightarrow> False
      | c # cs \<Rightarrow> (ascii_letter c \<or> ascii_digit c) \<and>
          list_all (\<lambda>c. ascii_letter c \<or> ascii_digit c \<or> c \<in> {CHR ''_'', CHR ''-''}) cs)"

definition validate_transport_fields :: "mcp_entry \<Rightarrow> (exn + unit)" where
  "validate_transport_fields e =
     (let fail = (\<lambda>m. Inl (ValueError (m @ '' (server: '' @ me_id e @ '')'')))
      in case (if me_transport e \<noteq> Stdio
               then if me_url e = [] then fail ''url is required''
                    else if me_command e \<noteq> [] \<or> me_args e \<noteq> [] \<or> me_env e \<noteq> [] then fail ''command/args/env apply to stdio only''
                    else Inr ()
               else if me_command e = [] then fail ''command is required''
               else if me_url e \<noteq> [] \<or> me_headers e \<noteq> [] then fail ''url/headers apply to HTTP transports only''
               else Inr ()) of
           Inl x \<Rightarrow> Inl x
         | Inr _ \<Rightarrow> if me_include e \<noteq> None \<and> me_exclude e \<noteq> None
                    then fail ''include_tools and exclude_tools are mutually exclusive'' else Inr ())"

definition mcp_entry_ok :: "mcp_entry \<Rightarrow> bool" where
  "mcp_entry_ok e =
     (mcp_id_ok (me_id e) \<and> pred_option (\<lambda>n. n \<ge> 1) (me_call e) \<and> validate_transport_fields e = Inr ())"

section \<open>Overrides from the environment\<close>

definition parse_env_value :: "(string \<Rightarrow> pyval option) \<Rightarrow> string \<Rightarrow> pyval" where
  "parse_env_value json raw = (case json raw of Some v \<Rightarrow> v | None \<Rightarrow> PStr raw)"

fun deep_set :: "string list \<Rightarrow> pyval \<Rightarrow> dict \<Rightarrow> dict" where
  "deep_set [] v d = d"
| "deep_set [k] v d = AList.update k v d"
| "deep_set (k # ks) v d =
     AList.update k (PDict (deep_set ks v (case as_dict (dget d k) of Some e \<Rightarrow> e | None \<Rightarrow> []))) d"

text \<open>str.split of a double underscore; str.upper on ASCII, as the prefixes are.\<close>

fun split_dunder :: "string \<Rightarrow> string list" where
  "split_dunder [] = [[]]"
| "split_dunder [c] = [[c]]"
| "split_dunder (c # d # s) =
     (if c = CHR ''_'' \<and> d = CHR ''_'' then [] # split_dunder s
      else case split_dunder (d # s) of [] \<Rightarrow> [[c]] | w # ws \<Rightarrow> (c # w) # ws)"

definition upper_char :: "char \<Rightarrow> char" where
  "upper_char c = (if 97 \<le> code c \<and> code c \<le> 122 then char_of (code c - 32) else c)"

definition env_field :: "string \<Rightarrow> string \<Rightarrow> string option" where
  "env_field prfx key =
     (let p = map upper_char prfx @ ''_''
      in if take (length p) (map upper_char key) = p then Some (py_lower (drop (length p) key)) else None)"

definition override_one ::
  "(string \<Rightarrow> pyval option) \<Rightarrow> string \<Rightarrow> string \<times> string \<Rightarrow> dict \<times> string list \<Rightarrow> dict \<times> string list" where
  "override_one json prfx kv s =
     (case env_field prfx (fst kv) of
        None \<Rightarrow> s
      | Some f \<Rightarrow>
          (let v = parse_env_value json (snd kv); parts = split_dunder f
           in if length parts > 1 then (deep_set parts v (fst s), hd parts # snd s)
              else (AList.update f v (fst s), f # snd s)))"

definition apply_env_overrides ::
  "(string \<Rightarrow> pyval option) \<Rightarrow> (string \<times> string) list \<Rightarrow> dict \<Rightarrow> string \<Rightarrow> dict \<times> string list" where
  "apply_env_overrides json env data prfx = fold (override_one json prfx) env (data, [])"

section \<open>The loader\<close>

text \<open>
  A schema either gives at least one error or the dumped object.  When the defaults of an
  optional domain do not build, the code lets the ValidationError pass; here they are added to
  the errors.
\<close>

datatype yaml_file = YamlError string | Yaml pyval

record schema =
  sc_fields :: "string list"
  sc_build :: "dict \<Rightarrow> (string \<times> string list) + dict"

record config_env =
  ce_files :: "(string \<times> yaml_file) list"
  ce_environ :: "(string \<times> string) list"
  ce_json :: "string \<Rightarrow> pyval option"
  ce_schema :: "string \<Rightarrow> schema"

definition domain_map :: "(string \<times> string \<times> string) list" where
  "domain_map =
     [(''app'', ''app.yaml'', ''ASSISTANT_APP''),
      (''telegram'', ''channel.telegram.yaml'', ''ASSISTANT_CHANNEL_TELEGRAM''),
      (''model'', ''model.yaml'', ''ASSISTANT_MODEL''),
      (''capabilities'', ''capabilities.yaml'', ''ASSISTANT_CAPABILITIES''),
      (''tools'', ''tools.yaml'', ''ASSISTANT_TOOLS''),
      (''mcp_servers'', ''mcp_servers.yaml'', ''ASSISTANT_MCP''),
      (''scheduler'', ''scheduler.yaml'', ''ASSISTANT_SCHEDULER''),
      (''store'', ''store.yaml'', ''ASSISTANT_STORE''),
      (''memory'', ''memory.yaml'', ''ASSISTANT_MEMORY''),
      (''compaction'', ''compaction.yaml'', ''ASSISTANT_COMPACTION'')]"

definition optional_domains :: "string list" where
  "optional_domains = [''compaction'']"

definition read_yaml :: "config_env \<Rightarrow> string \<Rightarrow> (string + dict)" where
  "read_yaml e file =
     (case map_of (ce_files e) file of
        None \<Rightarrow> Inl (''Config file not found: '' @ file)
      | Some (YamlError m) \<Rightarrow> Inl (''YAML parse error in '' @ file @ '': '' @ m)
      | Some (Yaml v) \<Rightarrow> Inr (case as_dict v of Some d \<Rightarrow> d | None \<Rightarrow> []))"

definition build_provenance :: "dict \<Rightarrow> string list \<Rightarrow> string list \<Rightarrow> (string \<times> string) list" where
  "build_provenance yaml overridden names =
     map (\<lambda>f. (f, if f \<in> set overridden then ''env_override'' else if f \<in> fst ` set yaml then ''file'' else ''default'')) names"

definition logfire_var :: string where
  "logfire_var = ''ASSISTANT_LOGFIRE_TOKEN''"

definition merged_values :: "config_env \<Rightarrow> string \<Rightarrow> string \<Rightarrow> dict \<Rightarrow> dict \<times> string list" where
  "merged_values e dmn prfx yaml =
     (case apply_env_overrides (ce_json e) (ce_environ e) yaml prfx of
        (m, ov) \<Rightarrow>
          (case (if dmn = ''app'' then map_of (ce_environ e) logfire_var else None) of
             Some t \<Rightarrow> (AList.update ''logfire_token'' (PStr t) m, ''logfire_token'' # ov)
           | None \<Rightarrow> (m, ov)))"

text \<open>The errors added, the object and its provenance.\<close>

definition load_domain ::
  "config_env \<Rightarrow> string \<times> string \<times> string \<Rightarrow> string list \<times> dict option \<times> (string \<times> string) list" where
  "load_domain e spec =
     (case spec of (dmn, file, prfx) \<Rightarrow>
        (case read_yaml e file of
           Inl m \<Rightarrow> ([m], None, [])
         | Inr yaml \<Rightarrow>
             (case merged_values e dmn prfx yaml of
                (merged, ov) \<Rightarrow>
                  (case sc_build (ce_schema e dmn) merged of
                     Inl (m, ms) \<Rightarrow> (map (\<lambda>m. ''['' @ file @ ''] '' @ m) (m # ms), None, [])
                   | Inr d \<Rightarrow> ([], Some d, build_provenance yaml ov (sc_fields (ce_schema e dmn)))))))"

text \<open>The substring test of Python's in.\<close>

fun contains :: "string \<Rightarrow> string \<Rightarrow> bool" where
  "contains w [] = (w = [])"
| "contains w (c # s) = (take (length w) (c # s) = w \<or> contains w s)"

definition load_step ::
  "config_env \<Rightarrow> string \<times> string \<times> string \<Rightarrow> string list \<times> (string \<times> dict option) list
    \<Rightarrow> (string list \<times> (string \<times> dict option) list)" where
  "load_step e spec acc =
     (case acc of (errors, domains) \<Rightarrow>
        (case load_domain e spec of
           (errs, obj, prov) \<Rightarrow>
             if fst spec \<in> set optional_domains \<and> obj = None \<and> list_all (contains ''not found'') errs
             then (case sc_build (ce_schema e (fst spec)) [] of
                     Inr d \<Rightarrow> (errors, domains @ [(fst spec, Some d)])
                   | Inl (m, ms) \<Rightarrow> (errors @ m # ms, domains @ [(fst spec, None)]))
             else (errors @ errs, domains @ [(fst spec, obj)])))"

definition load_config :: "config_env \<Rightarrow> (exn + (string \<times> dict) list)" where
  "load_config e =
     (case fold (load_step e) domain_map ([], []) of
        (errors, domains) \<Rightarrow>
          if errors \<noteq> [] then Inl (OtherError (''Startup failed: configuration validation errors:'' @ [newline]
                                   @ concat (map (\<lambda>m. ''  - '' @ m @ [newline]) errors)))
          else Inr (map (\<lambda>(k, d). (k, the d)) domains))"

definition reload_domain :: "config_env \<Rightarrow> string \<Rightarrow> dict option" where
  "reload_domain e dmn =
     (case map_of domain_map dmn of None \<Rightarrow> None | Some fp \<Rightarrow> fst (snd (load_domain e (dmn, fp))))"

section \<open>Redaction\<close>

definition redacted :: string where
  "redacted = ''***REDACTED***''"

definition sensitive_keys :: "string list" where
  "sensitive_keys = [''bot_token'', ''api_key'', ''secret'', ''token'', ''password'', ''headers'', ''env'']"

definition sensitive_markers :: "string list" where
  "sensitive_markers = [''secret'', ''token'', ''password'', ''api_key'', ''authorization'']"

definition is_sensitive_key :: "string \<Rightarrow> bool" where
  "is_sensitive_key key =
     (py_lower key \<in> set sensitive_keys \<or> list_ex (\<lambda>m. contains m (py_lower key)) sensitive_markers)"

text \<open>Dictionaries below a dictionary or directly in a list are redacted; other values stay.\<close>

primrec redact :: "pyval \<Rightarrow> pyval" where
  "redact PNone = PNone"
| "redact (PBool b) = PBool b"
| "redact (PInt i) = PInt i"
| "redact (PReal q) = PReal q"
| "redact (PStr s) = PStr s"
| "redact (PTime t) = PTime t"
| "redact (PList xs) = PList (map (\<lambda>(x, y). case x of PDict _ \<Rightarrow> y | _ \<Rightarrow> x) (zip xs (map redact xs)))"
| "redact (PDict d) =
     PDict (map (\<lambda>(k, v). (k, if is_sensitive_key k then PStr redacted else v)) (map (map_prod id redact) d))"

definition redact_dict :: "dict \<Rightarrow> dict" where
  "redact_dict d = (case as_dict (redact (PDict d)) of Some e \<Rightarrow> e | None \<Rightarrow> [])"

definition effective_config :: "config_env \<Rightarrow> (string \<times> dict option) list \<times> (string \<times> string) list" where
  "effective_config e =
     (map (\<lambda>spec. (fst spec, map_option redact_dict (fst (snd (load_domain e spec))))) domain_map,
      concat (map (\<lambda>spec. map (\<lambda>(f, s). (fst spec @ ''.'' @ f, s)) (snd (snd (load_domain e spec)))) domain_map))"

section \<open>What redaction keeps secret\<close>

text \<open>The entries of the dictionaries in a value, at any depth.\<close>

primrec nested :: "pyval \<Rightarrow> (string \<times> pyval) set" where
  "nested PNone = {}"
| "nested (PBool b) = {}"
| "nested (PInt i) = {}"
| "nested (PReal q) = {}"
| "nested (PStr s) = {}"
| "nested (PTime t) = {}"
| "nested (PList xs) = \<Union> (set (map nested xs))"
| "nested (PDict d) = set d \<union> \<Union> (snd ` set (map (map_prod id nested) d))"

fun is_list :: "pyval \<Rightarrow> bool" where
  "is_list (PList xs) = True"
| "is_list _ = False"

text \<open>No list stands directly in a list, as in every schema of the configuration.\<close>

primrec flat_lists :: "pyval \<Rightarrow> bool" where
  "flat_lists PNone = True"
| "flat_lists (PBool b) = True"
| "flat_lists (PInt i) = True"
| "flat_lists (PReal q) = True"
| "flat_lists (PStr s) = True"
| "flat_lists (PTime t) = True"
| "flat_lists (PList xs) = (list_all id (map flat_lists xs) \<and> list_all (\<lambda>x. \<not> is_list x) xs)"
| "flat_lists (PDict d) = list_all snd (map (map_prod id flat_lists) d)"

lemma redact_items:
  "(\<lambda>(x, y). case x of PDict _ \<Rightarrow> y | _ \<Rightarrow> x) ` set (zip xs (map redact xs))
     = (\<lambda>x. case x of PDict _ \<Rightarrow> redact x | _ \<Rightarrow> x) ` set xs"
  by (induction xs) auto

lemma redact_secret:
  "flat_lists v \<Longrightarrow> (k, x) \<in> nested (redact v) \<Longrightarrow> is_sensitive_key k \<Longrightarrow> x = PStr redacted"
proof (induction v)
  case (PList xs)
  from PList.prems(2) obtain y where y: "y \<in> set xs"
    and kx: "(k, x) \<in> nested (case y of PDict _ \<Rightarrow> redact y | _ \<Rightarrow> y)"
    by (simp only: redact.simps nested.simps set_map redact_items) blast
  from y PList.prems(1) have flat: "flat_lists y" "\<not> is_list y" by (auto simp: list_all_iff)
  then have "(k, x) \<in> nested (redact y)" using kx by (cases y) auto
  with PList.IH[OF y] flat PList.prems(3) show ?case by blast
next
  case (PDict d)
  from PDict.prems(2) consider
      (here) v where "x = (if is_sensitive_key k then PStr redacted else v)"
    | (below) k' v where "(k', v) \<in> set d" "(k, x) \<in> nested (if is_sensitive_key k' then PStr redacted else redact v)"
    by (auto 0 4 simp: image_iff)
  then show ?case
  proof cases
    case here
    with PDict.prems(3) show ?thesis by simp
  next
    case below
    then have "(k, x) \<in> nested (redact v)" by (auto split: if_splits)
    moreover have "flat_lists v" using PDict.prems(1) below(1) by (auto simp: list_all_iff)
    ultimately show ?thesis using PDict.IH[OF below(1)] PDict.prems(3) by simp
  qed
qed auto

lemma redact_dict_eq:
  "redact_dict d = map (\<lambda>(k, v). (k, if is_sensitive_key k then PStr redacted else redact v)) d"
  by (simp add: redact_dict_def comp_def case_prod_unfold)

lemma redact_plain: "as_dict v = None \<Longrightarrow> \<not> is_list v \<Longrightarrow> redact v = v"
  by (cases v) simp_all

lemma map_of_domain_map:
  "spec \<in> set domain_map \<Longrightarrow> map_of (map (\<lambda>s. (fst s, f s)) domain_map) (fst spec) = Some (f spec)"
proof (rule map_of_is_SomeI)
  have "distinct (map fst domain_map)" by code_simp
  then show "distinct (map fst (map (\<lambda>s. (fst s, f s)) domain_map))" by (simp add: comp_def)
qed simp

lemma api_hash_not_sensitive: "\<not> is_sensitive_key ''mtproto_api_hash''"
  by code_simp

text \<open>
  C18: the configuration shown hides the values of the keys it takes for sensitive, and only
  those.  For a domain that loads, with no list directly inside a list, effective_config shows
  the fields of the loaded object under their names; every entry whose key is sensitive, at any
  depth of dictionaries and lists, shows the placeholder instead of its value, also a field that
  is not set; a top-level value that is neither sensitive nor structured is shown as it is.  The
  key mtproto_api_hash is not taken for sensitive: that secret is shown as it is.
\<close>

theorem effective_config_redacted:
  assumes "spec \<in> set domain_map" and "load_domain e spec = (errs, Some v, prov)" and "flat_lists (PDict v)"
  shows "\<exists>d. map_of (fst (effective_config e)) (fst spec) = Some (Some d) \<and> map fst d = map fst v \<and>
      (\<forall>k x. (k, x) \<in> nested (PDict d) \<and> is_sensitive_key k \<longrightarrow> x = PStr redacted) \<and>
      (\<forall>k x. (k, x) \<in> set v \<and> is_sensitive_key k \<longrightarrow> (k, PStr redacted) \<in> set d) \<and>
      (\<forall>k x. (k, x) \<in> set v \<and> \<not> is_sensitive_key k \<and> as_dict x = None \<and> \<not> is_list x \<longrightarrow> (k, x) \<in> set d) \<and>
      (\<forall>h. (''mtproto_api_hash'', PStr h) \<in> set v \<longrightarrow> (''mtproto_api_hash'', PStr h) \<in> set d)"
proof (intro exI conjI allI impI)
  have red: "redact (PDict v) = PDict (redact_dict v)"
    by (simp add: redact_dict_eq comp_def case_prod_unfold)
  show "map_of (fst (effective_config e)) (fst spec) = Some (Some (redact_dict v))"
    using assms(1,2) by (simp add: effective_config_def map_of_domain_map)
  show "map fst (redact_dict v) = map fst v" by (simp add: redact_dict_eq comp_def case_prod_unfold)
  show "x = PStr redacted" if "(k, x) \<in> nested (PDict (redact_dict v)) \<and> is_sensitive_key k" for k x
    using redact_secret[OF assms(3)] that unfolding red by blast
  show "(k, PStr redacted) \<in> set (redact_dict v)" if "(k, x) \<in> set v \<and> is_sensitive_key k" for k x
    using that by (auto simp: redact_dict_eq image_iff intro!: bexI[of _ "(k, x)"])
  show "(k, x) \<in> set (redact_dict v)"
    if "(k, x) \<in> set v \<and> \<not> is_sensitive_key k \<and> as_dict x = None \<and> \<not> is_list x" for k x
    using that by (auto simp: redact_dict_eq image_iff redact_plain intro!: bexI[of _ "(k, x)"])
  show "(''mtproto_api_hash'', PStr h) \<in> set (redact_dict v)" if "(''mtproto_api_hash'', PStr h) \<in> set v" for h
    using that api_hash_not_sensitive
    by (auto simp: redact_dict_eq image_iff intro!: bexI[of _ "(''mtproto_api_hash'', PStr h)"])
qed

section \<open>What a load gives\<close>

text \<open>The object of a domain, or None when the domain does not load.\<close>

definition domain_missing :: "config_env \<Rightarrow> string \<times> string \<times> string \<Rightarrow> bool" where
  "domain_missing e spec =
     (fst spec \<in> set optional_domains \<and> fst (snd (load_domain e spec)) = None \<and>
      list_all (contains ''not found'') (fst (load_domain e spec)))"

definition domain_value :: "config_env \<Rightarrow> string \<times> string \<times> string \<Rightarrow> dict option" where
  "domain_value e spec =
     (if domain_missing e spec
      then (case sc_build (ce_schema e (fst spec)) [] of Inl _ \<Rightarrow> None | Inr d \<Rightarrow> Some d)
      else fst (snd (load_domain e spec)))"

lemma load_domain_cases:
  "load_domain e spec = (errs, obj, prov) \<Longrightarrow> (errs = []) = (obj \<noteq> None)"
  by (auto simp: load_domain_def split: prod.splits sum.splits)

lemma load_step_value:
  "\<exists>errs. load_step e spec (errors, domains) = (errors @ errs, domains @ [(fst spec, domain_value e spec)]) \<and>
     (errs = []) = (domain_value e spec \<noteq> None)"
proof -
  obtain errs obj prov where l: "load_domain e spec = (errs, obj, prov)" by (metis prod_cases3)
  from load_domain_cases[OF l] show ?thesis
    by (auto simp: load_step_def l domain_value_def domain_missing_def split: sum.splits)
qed

lemma load_fold_value:
  "\<exists>errs. fold (load_step e) specs (errors, domains) =
       (errors @ errs, domains @ map (\<lambda>s. (fst s, domain_value e s)) specs) \<and>
     (errs = []) = (\<forall>s \<in> set specs. domain_value e s \<noteq> None)"
proof (induction specs arbitrary: errors domains)
  case (Cons s specs)
  obtain es where 1: "load_step e s (errors, domains) = (errors @ es, domains @ [(fst s, domain_value e s)])"
    "(es = []) = (domain_value e s \<noteq> None)"
    using load_step_value by blast
  obtain es' where "fold (load_step e) specs (errors @ es, domains @ [(fst s, domain_value e s)]) =
       ((errors @ es) @ es', (domains @ [(fst s, domain_value e s)]) @ map (\<lambda>s. (fst s, domain_value e s)) specs)"
    "(es' = []) = (\<forall>s \<in> set specs. domain_value e s \<noteq> None)"
    using Cons[of "errors @ es" "domains @ [(fst s, domain_value e s)]"] by (elim exE conjE) (rule that)
  with 1 show ?case by (intro exI[of _ "es @ es'"]) simp
qed simp

text \<open>
  The configuration is loaded completely or not at all: with every domain present and valid,
  or absent and optional, load gives each domain its object; otherwise it raises.
\<close>

lemma load_config_complete:
  "(case load_config e of
      Inr ds \<Rightarrow> (\<forall>s \<in> set domain_map. domain_value e s \<noteq> None) \<and> ds = map (\<lambda>s. (fst s, the (domain_value e s))) domain_map
    | Inl _ \<Rightarrow> (\<exists>s \<in> set domain_map. domain_value e s = None))"
proof -
  obtain errs where f: "fold (load_step e) domain_map ([], []) = ([] @ errs, [] @ map (\<lambda>s. (fst s, domain_value e s)) domain_map)"
    and errs: "(errs = []) = (\<forall>s \<in> set domain_map. domain_value e s \<noteq> None)"
    using load_fold_value[of e domain_map "[]" "[]"] by (elim exE conjE) (rule that)
  show ?thesis
  proof (cases "errs = []")
    case True
    then have "load_config e = Inr (map (\<lambda>s. (fst s, the (domain_value e s))) domain_map)"
      unfolding load_config_def f by (simp add: comp_def)
    with True errs show ?thesis by (simp only: sum.case simp_thms)
  next
    case False
    then obtain x where "load_config e = Inl x" unfolding load_config_def f by simp
    moreover have "\<exists>s \<in> set domain_map. domain_value e s = None" using False unfolding errs by simp
    ultimately show ?thesis by (simp only: sum.case)
  qed
qed

section \<open>A concrete configuration\<close>

definition demo_config :: config_env where
  "demo_config =
     \<lparr>ce_files = [(''channel.telegram.yaml'', Yaml (PDict [(''bot_token'', PStr ''t1''), (''enabled'', PBool True)]))],
      ce_environ = [(''ASSISTANT_CHANNEL_TELEGRAM_PROXY__PASSWORD'', ''p1'')], ce_json = (\<lambda>_. None),
      ce_schema = (\<lambda>_. \<lparr>sc_fields = [''bot_token'', ''enabled'', ''proxy''], sc_build = Inr\<rparr>)\<rparr>"

definition telegram_domain :: "string \<times> string \<times> string" where
  "telegram_domain = (''telegram'', ''channel.telegram.yaml'', ''ASSISTANT_CHANNEL_TELEGRAM'')"

lemma demo_loaded:
  "load_domain demo_config telegram_domain =
     ([], Some [(''bot_token'', PStr ''t1''), (''enabled'', PBool True), (''proxy'', PDict [(''password'', PStr ''p1'')])],
      [(''bot_token'', ''file''), (''enabled'', ''file''), (''proxy'', ''env_override'')])"
  by code_simp

theorem effective_config_redacted_witness:
  "\<exists>d. map_of (fst (effective_config demo_config)) ''telegram'' = Some (Some d) \<and>
     (''enabled'', PBool True) \<in> set d \<and> (\<forall>x. (''password'', x) \<in> nested (PDict d) \<longrightarrow> x = PStr redacted)"
proof -
  have "telegram_domain \<in> set domain_map" by (simp add: telegram_domain_def domain_map_def)
  from effective_config_redacted[OF this demo_loaded]
  obtain d where d: "map_of (fst (effective_config demo_config)) (fst telegram_domain) = Some (Some d)"
    "\<forall>k x. (k, x) \<in> nested (PDict d) \<and> is_sensitive_key k \<longrightarrow> x = PStr redacted"
    "\<forall>k x. (k, x) \<in> set [(''bot_token'', PStr ''t1''), (''enabled'', PBool True), (''proxy'', PDict [(''password'', PStr ''p1'')])] \<and>
       \<not> is_sensitive_key k \<and> as_dict x = None \<and> \<not> is_list x \<longrightarrow> (k, x) \<in> set d"
    by (auto simp: list_all_iff)
  have "\<not> is_sensitive_key ''enabled''" "is_sensitive_key ''password''" by code_simp+
  then have "(''enabled'', PBool True) \<in> set d" "\<forall>x. (''password'', x) \<in> nested (PDict d) \<longrightarrow> x = PStr redacted"
    using d(2,3) by (auto simp del: nested.simps)
  then show ?thesis using d(1) by (intro exI[of _ d]) (simp add: telegram_domain_def)
qed

end
