(* ===== verification/Capabilities.thy ===== *)
theory Capabilities
  imports Configuration
begin

text \<open>
  Capabilities and the tools they activate: core/capabilities/schemas.py and loader.py, and
  agent/tools/registry.py.  A manifest file is what YAML makes of it; pydantic's decoding of a
  manifest and the import of a tool's entry point are parameters.  Values of a parameter
  override are the ones that are set, as model_dump gives them without the None values.
\<close>

section \<open>Manifests\<close>

record tool_binding =
  tb_id :: string
  tb_enabled :: bool
  tb_params :: "dict option"

record claude_settings =
  cs_allow :: "string list"
  cs_deny :: "string list"
  cs_servers :: "(string \<times> dict) list"

record capability =
  cap_id :: string
  cap_prompt :: string
  cap_tools :: "tool_binding list"
  cap_overrides :: "(string \<times> dict) list"
  cap_claude :: "claude_settings option"
  cap_nested :: "string list"
  cap_mcp :: "string list"

type_synonym capabilities = "(string \<times> capability) list"

text \<open>Item assignments of one dictionary into another.\<close>

definition dict_update :: "('k \<times> 'v) list \<Rightarrow> ('k \<times> 'v) list \<Rightarrow> ('k \<times> 'v) list" where
  "dict_update new old = fold (\<lambda>(k, v). AList.update k v) new old"

definition effective_overrides :: "capability \<Rightarrow> string \<Rightarrow> dict" where
  "effective_overrides c tool =
     (let inline = fold (\<lambda>b m. if tb_id b = tool then dict_update (case tb_params b of Some p \<Rightarrow> p | None \<Rightarrow> []) m else m)
                     (cap_tools c) []
      in case map_of (cap_overrides c) tool of None \<Rightarrow> inline | Some p \<Rightarrow> dict_update p inline)"

text \<open>Path.suffix: from the last dot, which is neither the first nor the last character.\<close>

definition path_suffix :: "string \<Rightarrow> string" where
  "path_suffix name =
     (let ext = rev (takeWhile (\<lambda>c. c \<noteq> CHR ''.'') (rev name)); stem = take (length name - length ext - 1) name
      in if length ext < length name \<and> stem \<noteq> [] \<and> ext \<noteq> [] then CHR ''.'' # ext else [])"

definition discover_manifests :: "string list \<Rightarrow> string list" where
  "discover_manifests names =
     filter (\<lambda>n. path_suffix n \<in> {''.yaml'', ''.yml''} \<and> n \<noteq> ''index.yaml'') (sort names)"

fun type_name :: "pyval \<Rightarrow> string" where
  "type_name PNone = ''NoneType''"
| "type_name (PBool b) = ''bool''"
| "type_name (PInt i) = ''int''"
| "type_name (PReal q) = ''float''"
| "type_name (PStr s) = ''str''"
| "type_name (PTime t) = ''datetime''"
| "type_name (PList xs) = ''list''"
| "type_name (PDict d) = ''dict''"

definition load_manifest ::
  "(dict \<Rightarrow> (string \<times> string list) + capability) \<Rightarrow> string \<times> yaml_file \<Rightarrow> string list \<times> capabilities
    \<Rightarrow> string list \<times> capabilities" where
  "load_manifest build file s =
     (case s of (errors, defs) \<Rightarrow>
        (let fail = (\<lambda>m. ''['' @ fst file @ ''] '' @ m)
         in case snd file of
              YamlError m \<Rightarrow> (errors @ [fail (''YAML parse error: '' @ m)], defs)
            | Yaml v \<Rightarrow>
                (case as_dict v of
                   None \<Rightarrow> (errors @ [fail (''expected dict, got '' @ type_name v)], defs)
                 | Some d \<Rightarrow>
                     (case build d of
                        Inl (m, ms) \<Rightarrow> (errors @ map fail (m # ms), defs)
                      | Inr c \<Rightarrow>
                          if cap_id c \<in> fst ` set defs
                          then (errors @ [fail (''duplicate capability_id: '' @ cap_id c)], defs)
                          else (errors, defs @ [(cap_id c, c)])))))"

definition load_capability_definitions ::
  "(dict \<Rightarrow> (string \<times> string list) + capability) \<Rightarrow> (string \<times> yaml_file) list option \<Rightarrow> (exn + capabilities)" where
  "load_capability_definitions build dir =
     (case dir of
        None \<Rightarrow> Inr []
      | Some files \<Rightarrow>
          (case fold (load_manifest build) (map (\<lambda>n. (n, the (map_of files n))) (discover_manifests (map fst files))) ([], []) of
             (errors, defs) \<Rightarrow>
               if errors \<noteq> [] then Inl (OtherError (''Capability manifest validation failed:'' @ [newline]
                                        @ concat (map (\<lambda>m. ''  - '' @ m @ [newline]) errors)))
               else Inr defs))"

section \<open>Nested capabilities\<close>

definition nested_ids :: "capabilities \<Rightarrow> string \<Rightarrow> string list" where
  "nested_ids defs c = (case map_of defs c of Some d \<Rightarrow> cap_nested d | None \<Rightarrow> [])"

text \<open>
  The recursion of expand_nested_capabilities, with fuel for its depth: None stands for a depth
  the fuel does not reach.  The set seen is the set of the result.
\<close>

fun expand_cap :: "nat \<Rightarrow> (string \<Rightarrow> string list) \<Rightarrow> string \<Rightarrow> string list \<Rightarrow> string list option"
  and expand_all :: "nat \<Rightarrow> (string \<Rightarrow> string list) \<Rightarrow> string list \<Rightarrow> string list \<Rightarrow> string list option"
where
  "expand_cap 0 nest c r = None"
| "expand_cap (Suc n) nest c r = (if c \<in> set r then Some r else expand_all n nest (nest c) (r @ [c]))"
| "expand_all n nest [] r = Some r"
| "expand_all n nest (c # cs) r =
     (case expand_cap n nest c r of None \<Rightarrow> None | Some r' \<Rightarrow> expand_all n nest cs r')"

definition mentioned_ids :: "string list \<Rightarrow> capabilities \<Rightarrow> string list" where
  "mentioned_ids enabled defs = enabled @ concat (map (cap_nested \<circ> snd) defs)"

definition expand_nested :: "string list \<Rightarrow> capabilities \<Rightarrow> string list option" where
  "expand_nested enabled defs = expand_all (Suc (length (mentioned_ids enabled defs))) (nested_ids defs) enabled []"

section \<open>What the active capabilities grant\<close>

definition collect_mcp_server_ids :: "capabilities \<Rightarrow> string list \<Rightarrow> string list" where
  "collect_mcp_server_ids defs enabled =
     fold (\<lambda>s ids. if s \<in> set ids then ids else ids @ [s])
       (concat (map (\<lambda>c. case map_of defs c of Some d \<Rightarrow> cap_mcp d | None \<Rightarrow> []) enabled)) []"

definition active_settings :: "capabilities \<Rightarrow> string list \<Rightarrow> claude_settings list" where
  "active_settings defs enabled = List.map_filter (\<lambda>c. Option.bind (map_of defs c) cap_claude) enabled"

definition collect_claude_servers :: "capabilities \<Rightarrow> string list \<Rightarrow> (string \<times> dict) list" where
  "collect_claude_servers defs enabled = fold (\<lambda>s. dict_update (cs_servers s)) (active_settings defs enabled) []"

definition merge_first :: "string list \<Rightarrow> string list" where
  "merge_first xs = fold (\<lambda>x ys. if x \<in> set ys then ys else ys @ [x]) xs []"

text \<open>
  The settings file of Claude Code: missing, not JSON, or an object.  A value of permissions
  that is no object makes the item assignment raise.
\<close>

definition with_permissions :: "string list \<Rightarrow> string list \<Rightarrow> dict \<Rightarrow> (exn + dict)" where
  "with_permissions allow deny d =
     (case (case map_of d ''permissions'' of None \<Rightarrow> PDict [] | Some v \<Rightarrow> v) of
        PDict p \<Rightarrow> Inr (AList.update ''permissions''
                     (PDict (AList.update ''deny'' (PList (map PStr deny)) (AList.update ''allow'' (PList (map PStr allow)) p))) d)
      | _ \<Rightarrow> Inl (OtherError ''TypeError''))"

definition apply_claude_settings :: "capabilities \<Rightarrow> string list \<Rightarrow> doc option \<Rightarrow> (exn + unit) \<times> doc option" where
  "apply_claude_settings defs enabled file =
     (let ss = active_settings defs enabled;
          allow = merge_first (concat (map cs_allow ss)); deny = merge_first (concat (map cs_deny ss));
          servers = collect_claude_servers defs enabled;
          existing = (case file of Some (Obj d) \<Rightarrow> d | _ \<Rightarrow> [])
      in if allow = [] \<and> deny = [] \<and> servers = [] then (Inr (), file)
         else (case (if allow \<noteq> [] \<or> deny \<noteq> [] then with_permissions allow deny existing else Inr existing) of
                 Inl x \<Rightarrow> (Inl x, file)
               | Inr d \<Rightarrow>
                   (Inr (), Some (Obj (if servers \<noteq> []
                                       then AList.update ''mcpServers'' (PDict (map (\<lambda>(k, v). (k, PDict v)) servers)) d
                                       else d)))))"

section \<open>The tools of the agent\<close>

text \<open>_active_capabilities: the denied ones are removed after the expansion.\<close>

definition active_capabilities :: "capability_policy \<Rightarrow> capabilities \<Rightarrow> string list option" where
  "active_capabilities p defs =
     map_option (filter (\<lambda>c. c \<notin> set (cp_denied p))) (expand_nested (cp_enabled p) defs)"

definition enabled_tool_ids :: "capabilities \<Rightarrow> string list \<Rightarrow> string list" where
  "enabled_tool_ids defs enabled =
     remdups (concat (map (\<lambda>c. case map_of defs c of
        Some d \<Rightarrow> map tb_id (filter tb_enabled (cap_tools d)) | None \<Rightarrow> []) enabled))"

definition enabled_tool :: "tool_def list \<Rightarrow> string \<Rightarrow> tool_def option" where
  "enabled_tool tools tid = map_of (rev (map (\<lambda>t. (td_id t, t)) (filter td_enabled tools))) tid"

text \<open>
  What an imported entry point is: a function, or a factory and what it answers; a factory may
  raise or give no tool.
\<close>

datatype 't entry_point = Plain 't | Factory "exn + ('t \<times> int option) option"

definition resolve_entrypoint ::
  "(string \<Rightarrow> string \<Rightarrow> 't entry_point option) \<Rightarrow> string \<Rightarrow> 't entry_point option" where
  "resolve_entrypoint import s =
     (if colon \<notin> set s then None
      else (let m = py_strip (fst (partition_on colon s)); a = py_strip (snd (partition_on colon s))
            in if m = [] \<or> a = [] then None else import m a))"

text \<open>An agent tool: its id, the callable, and the number of retries set for it.\<close>

type_synonym 't agent_tool = "string \<times> 't \<times> int option"

definition build_tool ::
  "(string \<Rightarrow> string \<Rightarrow> 't entry_point option) \<Rightarrow> tool_def list \<Rightarrow> string \<Rightarrow> (exn + 't agent_tool option)" where
  "build_tool import tools tid =
     (case enabled_tool tools tid of
        None \<Rightarrow> Inr None
      | Some d \<Rightarrow>
          (case resolve_entrypoint import (td_entrypoint d) of
             None \<Rightarrow> Inr None
           | Some (Plain f) \<Rightarrow> Inr (Some (tid, f, td_retries d))
           | Some (Factory (Inl x)) \<Rightarrow> Inl x
           | Some (Factory (Inr None)) \<Rightarrow> Inr None
           | Some (Factory (Inr (Some (f, n)))) \<Rightarrow>
               Inr (Some (tid, f, if td_retries d \<noteq> None then td_retries d else n))))"

fun build_tools ::
  "(string \<Rightarrow> string \<Rightarrow> 't entry_point option) \<Rightarrow> tool_def list \<Rightarrow> string list \<Rightarrow> (exn + 't agent_tool list)" where
  "build_tools import tools [] = Inr []"
| "build_tools import tools (i # ids) =
     (case build_tool import tools i of
        Inl x \<Rightarrow> Inl x
      | Inr t \<Rightarrow>
          (case build_tools import tools ids of
             Inl x \<Rightarrow> Inl x
           | Inr ts \<Rightarrow> Inr (case t of None \<Rightarrow> ts | Some a \<Rightarrow> a # ts)))"

definition get_agent_tools ::
  "(string \<Rightarrow> string \<Rightarrow> 't entry_point option) \<Rightarrow> tool_def list \<Rightarrow> capabilities \<Rightarrow> string list \<Rightarrow> (exn + 't agent_tool list)" where
  "get_agent_tools import tools defs enabled = build_tools import tools (sort (enabled_tool_ids defs enabled))"

text \<open>The parameters of each tool: the defaults, overridden by the active capabilities in turn.\<close>

definition tool_params :: "capabilities \<Rightarrow> string list \<Rightarrow> tool_def \<Rightarrow> dict" where
  "tool_params defs enabled d =
     fold (\<lambda>c m. case map_of defs c of None \<Rightarrow> m | Some cap \<Rightarrow> dict_update (effective_overrides cap (td_id d)) m)
       enabled (case td_params d of Some p \<Rightarrow> p | None \<Rightarrow> [])"

definition build_tool_runtime_params :: "tool_def list \<Rightarrow> capabilities \<Rightarrow> string list \<Rightarrow> (string \<times> dict) list" where
  "build_tool_runtime_params tools defs enabled =
     List.map_filter (\<lambda>i. map_option (\<lambda>d. (i, tool_params defs enabled d)) (enabled_tool tools i))
       (enabled_tool_ids defs enabled)"

section \<open>The expansion ends, with the reachable capabilities\<close>

definition nests :: "(string \<Rightarrow> string list) \<Rightarrow> (string \<times> string) set" where
  "nests nest = {(a, b). b \<in> set (nest a)}"

text \<open>What one call adds to a duplicate-free result: closed under nesting, and reachable.\<close>

definition expands :: "(string \<Rightarrow> string list) \<Rightarrow> string list \<Rightarrow> string list \<Rightarrow> string list \<Rightarrow> bool" where
  "expands nest cs r r' =
     (\<exists>new. r' = r @ new \<and> distinct r' \<and> set cs \<subseteq> set r' \<and>
        (\<forall>x \<in> set new. set (nest x) \<subseteq> set r' \<and> (\<exists>c \<in> set cs. (c, x) \<in> (nests nest)\<^sup>*)))"

lemma expands_Nil: "distinct r \<Longrightarrow> expands nest [] r r"
  by (simp add: expands_def)

lemma expands_seen: "distinct r \<Longrightarrow> c \<in> set r \<Longrightarrow> expands nest [c] r r"
  by (simp add: expands_def)

lemma expands_Cons:
  assumes "expands nest [c] r r1" and "expands nest cs r1 r2"
  shows "expands nest (c # cs) r r2"
proof -
  obtain n1 where 1: "r1 = r @ n1" "distinct r1" "c \<in> set r1"
    "\<forall>x \<in> set n1. set (nest x) \<subseteq> set r1 \<and> (c, x) \<in> (nests nest)\<^sup>*"
    using assms(1) by (auto simp: expands_def)
  obtain n2 where 2: "r2 = r1 @ n2" "distinct r2" "set cs \<subseteq> set r2"
    "\<forall>x \<in> set n2. set (nest x) \<subseteq> set r2 \<and> (\<exists>c \<in> set cs. (c, x) \<in> (nests nest)\<^sup>*)"
    using assms(2) unfolding expands_def by blast
  have "\<forall>x \<in> set (n1 @ n2). set (nest x) \<subseteq> set r2 \<and> (\<exists>c' \<in> set (c # cs). (c', x) \<in> (nests nest)\<^sup>*)"
    using 1(4) 2(1,4) by auto
  moreover have "r2 = r @ (n1 @ n2)" "set (c # cs) \<subseteq> set r2" using 1(1,3) 2(1,3) by auto
  ultimately show ?thesis unfolding expands_def using 2(2) by blast
qed

lemma expands_down:
  assumes "c \<notin> set r" and "expands nest (nest c) (r @ [c]) r'"
  shows "expands nest [c] r r'"
proof -
  obtain new where n: "r' = (r @ [c]) @ new" "distinct r'" "set (nest c) \<subseteq> set r'"
    "\<forall>x \<in> set new. set (nest x) \<subseteq> set r' \<and> (\<exists>d \<in> set (nest c). (d, x) \<in> (nests nest)\<^sup>*)"
    using assms(2) unfolding expands_def by blast
  have "(c, d) \<in> nests nest" if "d \<in> set (nest c)" for d using that by (simp add: nests_def)
  then have "(c, x) \<in> (nests nest)\<^sup>*" if "x \<in> set new" for x
    using n(4) that by (meson converse_rtrancl_into_rtrancl)
  then have "\<forall>x \<in> set (c # new). set (nest x) \<subseteq> set r' \<and> (c, x) \<in> (nests nest)\<^sup>*" using n(3,4) by auto
  then show ?thesis unfolding expands_def using n(1,2) by (intro exI[of _ "c # new"]) auto
qed

lemma expand_enough:
  "finite U \<Longrightarrow> (\<And>x. set (nest x) \<subseteq> U) \<Longrightarrow> distinct r \<Longrightarrow> c \<in> U \<Longrightarrow> set r \<subseteq> U \<Longrightarrow> card (U - set r) < n \<Longrightarrow>
     \<exists>r'. expand_cap n nest c r = Some r' \<and> expands nest [c] r r' \<and> set r' \<subseteq> U"
  "finite U \<Longrightarrow> (\<And>x. set (nest x) \<subseteq> U) \<Longrightarrow> distinct r \<Longrightarrow> set cs \<subseteq> U \<Longrightarrow> set r \<subseteq> U \<Longrightarrow> card (U - set r) < n \<Longrightarrow>
     \<exists>r'. expand_all n nest cs r = Some r' \<and> expands nest cs r r' \<and> set r' \<subseteq> U"
proof (induction n nest c r and n nest cs r rule: expand_cap_expand_all.induct)
  case (2 n nest c r)
  show ?case
  proof (cases "c \<in> set r")
    case True
    then show ?thesis using 2 by (auto intro: expands_seen)
  next
    case False
    have "U - set (r @ [c]) \<subset> U - set r" using False 2(5) by auto
    then have "card (U - set (r @ [c])) < card (U - set r)" using 2(2) by (simp add: psubset_card_mono)
    then have "\<exists>r'. expand_all n nest (nest c) (r @ [c]) = Some r' \<and> expands nest (nest c) (r @ [c]) r' \<and> set r' \<subseteq> U"
      using 2 False by (intro 2(1)) auto
    then show ?thesis using False by (auto intro: expands_down)
  qed
next
  case (4 n nest c cs r)
  obtain r1 where r1: "expand_cap n nest c r = Some r1" "expands nest [c] r r1" "set r1 \<subseteq> U"
    using 4 by auto
  have "distinct r1" "set r \<subseteq> set r1" using r1(2) by (auto simp: expands_def)
  moreover have "card (U - set r1) < n"
    using \<open>set r \<subseteq> set r1\<close> 4(3,8) by (meson Diff_mono card_mono finite_Diff le_less_trans order_refl)
  ultimately have "\<exists>r'. expand_all n nest cs r1 = Some r' \<and> expands nest cs r1 r' \<and> set r' \<subseteq> U"
    using 4 r1 by (intro 4(2)) auto
  then show ?case using r1 by (auto intro: expands_Cons)
qed (auto intro: expands_Nil)

lemma expand_nested_expands:
  "\<exists>r. expand_nested enabled defs = Some r \<and> expands (nested_ids defs) enabled [] r"
proof -
  let ?U = "set (mentioned_ids enabled defs)"
  have "set (nested_ids defs c) \<subseteq> ?U" for c
    by (cases "map_of defs c") (auto simp: nested_ids_def mentioned_ids_def dest!: map_of_SomeD intro: bexI[rotated])
  moreover have "card (?U - set []) < Suc (length (mentioned_ids enabled defs))"
    by (simp add: card_length less_Suc_eq_le)
  ultimately have "\<exists>r. expand_all (Suc (length (mentioned_ids enabled defs))) (nested_ids defs) enabled [] = Some r \<and>
      expands (nested_ids defs) enabled [] r \<and> set r \<subseteq> ?U"
    by (intro expand_enough(2)) (auto simp: mentioned_ids_def)
  then show ?thesis by (auto simp: expand_nested_def)
qed

lemma expand_nested_reach:
  "\<exists>r. expand_nested enabled defs = Some r \<and> distinct r \<and>
     set r = (nests (nested_ids defs))\<^sup>* `` set enabled"
proof -
  obtain r where r: "expand_nested enabled defs = Some r" "expands (nested_ids defs) enabled [] r"
    using expand_nested_expands by blast
  then have closed: "nests (nested_ids defs) `` set r \<subseteq> set r" and "set enabled \<subseteq> set r" "distinct r"
    and "set r \<subseteq> (nests (nested_ids defs))\<^sup>* `` set enabled"
    by (auto simp: expands_def nests_def)
  moreover have "(nests (nested_ids defs))\<^sup>* `` set enabled \<subseteq> set r"
    using Image_closed_trancl[OF closed] \<open>set enabled \<subseteq> set r\<close> by blast
  ultimately show ?thesis using r(1) by blast
qed

text \<open>
  C15: the active capabilities are always determined.  The expansion of nested capabilities
  ends, also when the manifests nest in cycles or name unknown capabilities: the fuel, the
  number of identifiers mentioned, is enough.  The active capabilities are then exactly
  those that can be reached by nesting from an enabled one and are not denied themselves,
  each once; what a denied capability nests stays active.
\<close>

theorem active_capabilities_total:
  "\<exists>act. active_capabilities p defs = Some act \<and> distinct act \<and>
     set act = (nests (nested_ids defs))\<^sup>* `` set (cp_enabled p) - set (cp_denied p)"
  using expand_nested_reach[of "cp_enabled p" defs] by (auto simp: active_capabilities_def)

section \<open>Which tools are exposed\<close>

text \<open>A tool that can be built, and the capabilities that bind it.\<close>

definition buildable :: "(string \<Rightarrow> string \<Rightarrow> 't entry_point option) \<Rightarrow> tool_def list \<Rightarrow> string \<Rightarrow> bool" where
  "buildable import tools i = (case build_tool import tools i of Inr (Some _) \<Rightarrow> True | _ \<Rightarrow> False)"

definition binds :: "capabilities \<Rightarrow> string \<Rightarrow> string \<Rightarrow> bool" where
  "binds defs c i =
     (case map_of defs c of None \<Rightarrow> False | Some d \<Rightarrow> list_ex (\<lambda>b. tb_id b = i \<and> tb_enabled b) (cap_tools d))"

lemma binds_tools:
  "i \<in> set (case map_of defs c of Some d \<Rightarrow> map tb_id (filter tb_enabled (cap_tools d)) | None \<Rightarrow> []) \<longleftrightarrow> binds defs c i"
  by (cases "map_of defs c") (auto simp: binds_def list_ex_iff image_iff)

lemma set_enabled_tool_ids: "i \<in> set (enabled_tool_ids defs act) \<longleftrightarrow> (\<exists>c \<in> set act. binds defs c i)"
  unfolding binds_tools[symmetric] enabled_tool_ids_def by simp

lemma build_tool_id: "build_tool import tools i = Inr (Some t) \<Longrightarrow> fst t = i"
  by (auto simp: build_tool_def split: option.splits entry_point.splits sum.splits)

lemma build_tools_ids:
  "build_tools import tools ids = Inr ts \<Longrightarrow> map fst ts = filter (buildable import tools) ids"
proof (induction ids arbitrary: ts)
  case (Cons i ids)
  from Cons.prems obtain t ts' where t: "build_tool import tools i = Inr t" "build_tools import tools ids = Inr ts'"
    "ts = (case t of None \<Rightarrow> ts' | Some a \<Rightarrow> a # ts')"
    by (auto split: sum.splits)
  then have "buildable import tools i \<longleftrightarrow> t \<noteq> None" by (auto simp: buildable_def split: option.splits)
  then show ?case using t Cons.IH[OF t(2)] by (auto dest: build_tool_id split: option.splits)
qed simp

lemma sorted_distinct_sort: "distinct xs \<Longrightarrow> sorted_wrt (<) (sort xs)"
  by (simp add: strict_sorted_iff)

text \<open>
  C14: a tool is exposed exactly when both gates are open.  When the agent's tools are built
  for the active capabilities, a tool is among them exactly if tools.yaml enables it, its
  entry point resolves and yields a tool, and an active capability, one reachable from the
  enabled ones and not denied, binds it as enabled.  The tools come in the order of their
  ids, each once.
\<close>

theorem tool_exposed_iff:
  assumes "active_capabilities p defs = Some act" and "get_agent_tools import tools defs act = Inr ts"
  shows "sorted_wrt (<) (map fst ts) \<and>
    (i \<in> fst ` set ts \<longleftrightarrow>
      (buildable import tools i \<and> (\<exists>e c. e \<in> set (cp_enabled p) \<and> (e, c) \<in> (nests (nested_ids defs))\<^sup>* \<and>
         c \<notin> set (cp_denied p) \<and> binds defs c i))) \<and>
    (buildable import tools i = False \<or> (\<exists>d. enabled_tool tools i = Some d \<and> td_enabled d \<and> td_id d = i))"
proof (intro conjI)
  have ids: "map fst ts = filter (buildable import tools) (sort (enabled_tool_ids defs act))"
    using assms(2) by (simp add: get_agent_tools_def build_tools_ids)
  have act: "set act = (nests (nested_ids defs))\<^sup>* `` set (cp_enabled p) - set (cp_denied p)"
    using assms(1) expand_nested_reach[of "cp_enabled p" defs] by (auto simp: active_capabilities_def)
  show "sorted_wrt (<) (map fst ts)"
    unfolding ids by (intro sorted_wrt_filter sorted_distinct_sort) (simp add: enabled_tool_ids_def)
  have "i \<in> fst ` set ts \<longleftrightarrow> i \<in> set (map fst ts)" by simp
  then show "i \<in> fst ` set ts \<longleftrightarrow>
      (buildable import tools i \<and> (\<exists>e c. e \<in> set (cp_enabled p) \<and> (e, c) \<in> (nests (nested_ids defs))\<^sup>* \<and>
         c \<notin> set (cp_denied p) \<and> binds defs c i))"
    unfolding ids by (auto simp: set_enabled_tool_ids act)
  show "buildable import tools i = False \<or> (\<exists>d. enabled_tool tools i = Some d \<and> td_enabled d \<and> td_id d = i)"
    by (auto simp: buildable_def build_tool_def enabled_tool_def dest!: map_of_SomeD split: option.splits)
qed

section \<open>Runtime parameters\<close>

text \<open>The value of a parameter: the last active capability that sets it, or the default.\<close>

lemma map_of_dict_update: "map_of (dict_update new old) k = (map_of old ++ map_of (rev new)) k"
proof (induction new arbitrary: old)
  case (Cons kv new)
  then show ?case
    by (cases kv) (auto simp: dict_update_def update_conv' map_add_def split: option.splits)
qed (simp add: dict_update_def)

lemma tool_params_last:
  "map_of (tool_params defs (act @ [c]) d) k =
     (case map_of defs c of None \<Rightarrow> map_of (tool_params defs act d) k
      | Some cap \<Rightarrow> (case map_of (rev (effective_overrides cap (td_id d))) k of
                       None \<Rightarrow> map_of (tool_params defs act d) k | Some v \<Rightarrow> Some v))"
  by (simp add: tool_params_def map_of_dict_update map_add_def split: option.split)

section \<open>A concrete policy\<close>

definition demo_capabilities :: capabilities where
  "demo_capabilities = map (\<lambda>c. (cap_id c, c))
     [\<lparr>cap_id = ''assistant'', cap_prompt = [], cap_tools = [\<lparr>tb_id = ''search'', tb_enabled = True, tb_params = None\<rparr>],
       cap_overrides = [], cap_claude = None, cap_nested = [''ops''], cap_mcp = []\<rparr>,
      \<lparr>cap_id = ''ops'', cap_prompt = [],
       cap_tools = [\<lparr>tb_id = ''shell'', tb_enabled = True, tb_params = None\<rparr>, \<lparr>tb_id = ''ask'', tb_enabled = False, tb_params = None\<rparr>],
       cap_overrides = [], cap_claude = None, cap_nested = [''assistant''], cap_mcp = []\<rparr>]"

definition demo_tools :: "tool_def list" where
  "demo_tools = map (\<lambda>(i, on). \<lparr>td_id = i, td_entrypoint = ''m:f'', td_enabled = on, td_retries = None, td_params = None\<rparr>)
     [(''search'', True), (''shell'', True), (''ask'', True)]"

definition demo_policy :: capability_policy where
  "demo_policy = \<lparr>cp_enabled = [''assistant''], cp_denied = [''assistant'']\<rparr>"

theorem tool_exposed_iff_witness:
  "\<exists>e c. e \<in> set (cp_enabled demo_policy) \<and> (e, c) \<in> (nests (nested_ids demo_capabilities))\<^sup>* \<and>
     c \<notin> set (cp_denied demo_policy) \<and> binds demo_capabilities c ''shell''"
proof -
  have 1: "active_capabilities demo_policy demo_capabilities = Some [''ops'']" by code_simp
  have 2: "get_agent_tools (\<lambda>m a. Some (Plain a)) demo_tools demo_capabilities [''ops''] = Inr [(''shell'', ''f'', None)]"
    by code_simp
  show ?thesis using tool_exposed_iff[OF 1 2, of "''shell''"] by simp
qed

end
