(* ===== verification/Shell_Tools.thy ===== *)
theory Shell_Tools
  imports Capabilities
begin

text \<open>
  The shell tools of the agent: agent/tools/shell_execute.py, with shlex.split.  Running a
  process, matching a regular expression (None for one that does not compile) and the pydantic
  decoding of an allowlist entry are parameters.  A tool answers with the processes it started
  and its result.
\<close>

section \<open>shlex.split\<close>

text \<open>
  The states of shlex in POSIX mode with whitespace_split: between words, in a word, inside a
  quotation, after a backslash outside and inside a double quotation.  None is the ValueError
  for an open quotation or a trailing backslash.
\<close>

datatype lex_state = Blank | Word | Quoted char | Escape | QuotedEscape

definition backslash :: char where "backslash = CHR 0x5C"
definition dquote :: char where "dquote = CHR 0x22"
definition squote :: char where "squote = CHR 0x27"

definition lex_space :: "char \<Rightarrow> bool" where
  "lex_space c = (c \<in> {CHR '' '', CHR 0x09, carriage, newline})"

definition lex_quote :: "char \<Rightarrow> bool" where
  "lex_quote c = (c \<in> {dquote, squote})"

definition emit :: "string \<Rightarrow> bool \<Rightarrow> string list" where
  "emit tok quoted = (if tok \<noteq> [] \<or> quoted then [tok] else [])"

fun shlex :: "lex_state \<Rightarrow> string \<Rightarrow> bool \<Rightarrow> string \<Rightarrow> string list option" where
  "shlex st tok q [] =
     (case st of Blank \<Rightarrow> Some [] | Word \<Rightarrow> Some (emit tok q) | _ \<Rightarrow> None)"
| "shlex st tok q (c # s) =
     (case st of
        Blank \<Rightarrow>
          if lex_space c then shlex Blank [] False s
          else if c = backslash then shlex Escape [] False s
          else if lex_quote c then shlex (Quoted c) [] True s
          else shlex Word [c] False s
      | Word \<Rightarrow>
          if lex_space c then map_option (\<lambda>ws. emit tok q @ ws) (shlex Blank [] False s)
          else if lex_quote c then shlex (Quoted c) tok True s
          else if c = backslash then shlex Escape tok q s
          else shlex Word (tok @ [c]) q s
      | Quoted d \<Rightarrow>
          if c = d then shlex Word tok q s
          else if c = backslash \<and> d = dquote then shlex QuotedEscape tok q s
          else shlex (Quoted d) (tok @ [c]) q s
      | Escape \<Rightarrow> shlex Word (tok @ [c]) q s
      | QuotedEscape \<Rightarrow>
          shlex (Quoted dquote) (tok @ (if c \<noteq> backslash \<and> c \<noteq> dquote then [backslash] else []) @ [c]) q s)"

definition shlex_split :: "string \<Rightarrow> string list option" where
  "shlex_split s = shlex Blank [] False s"

definition parse_command :: "string \<Rightarrow> string \<times> string list" where
  "parse_command command =
     (case shlex_split command of Some (w # ws) \<Rightarrow> (w, ws) | _ \<Rightarrow> ([], []))"

text \<open>Words without special characters are split at the blanks and kept as they are.\<close>

definition plain_word :: "string \<Rightarrow> bool" where
  "plain_word w = (w \<noteq> [] \<and> list_all (\<lambda>c. \<not> lex_space c \<and> \<not> lex_quote c \<and> c \<noteq> backslash) w)"

fun join_words :: "string list \<Rightarrow> string" where
  "join_words [] = []"
| "join_words [w] = w"
| "join_words (w # ws) = w @ CHR '' '' # join_words ws"

lemma shlex_word_plain:
  "list_all (\<lambda>c. \<not> lex_space c \<and> \<not> lex_quote c \<and> c \<noteq> backslash) w \<Longrightarrow>
     shlex Word tok q (w @ s) = shlex Word (tok @ w) q s"
  by (induction w arbitrary: tok) auto

lemma shlex_blank_plain: "plain_word w \<Longrightarrow> shlex Blank [] False (w @ s) = shlex Word w False s"
  by (cases w) (auto simp: plain_word_def shlex_word_plain)

lemma shlex_split_plain: "list_all plain_word ws \<Longrightarrow> shlex_split (join_words ws) = Some ws"
proof (induction ws rule: join_words.induct)
  case (2 w)
  then show ?case using shlex_blank_plain[of w "[]"] by (simp add: shlex_split_def emit_def plain_word_def)
next
  case (3 w v vs)
  then show ?case
    using shlex_blank_plain[of w "CHR '' '' # join_words (v # vs)"]
    by (simp add: shlex_split_def emit_def plain_word_def lex_space_def)
qed (simp add: shlex_split_def)

text \<open>Quoting a word keeps every character of it, blanks included.\<close>

lemma shlex_single_quoted:
  "squote \<notin> set w \<Longrightarrow> shlex (Quoted squote) tok q (w @ squote # s) = shlex Word (tok @ w) q s"
  by (induction w arbitrary: tok) (auto simp: dquote_def squote_def)

section \<open>The tools\<close>

datatype proc_outcome = Ran int string string | RunTimedOut | RunRaised string

record shell_env =
  sh_run :: "string list \<Rightarrow> int \<Rightarrow> proc_outcome"
  sh_match :: "string \<Rightarrow> string \<Rightarrow> bool option"
  sh_entry :: "dict \<Rightarrow> allow_entry option"

record shell_answer =
  sa_status :: string
  sa_code :: "int option"
  sa_reason :: string
  sa_out :: string
  sa_err :: string

definition refuse :: "string \<Rightarrow> string \<Rightarrow> shell_answer" where
  "refuse status reason = \<lparr>sa_status = status, sa_code = None, sa_reason = reason, sa_out = [], sa_err = []\<rparr>"

definition max_timeout_seconds :: int where
  "max_timeout_seconds = 30"

text \<open>int(params.get(key) or default) for a number; the dash of the notice is written as a hyphen.\<close>

definition max_output_chars :: "dict \<Rightarrow> int" where
  "max_output_chars params =
     (case dget params ''shell_max_output_chars'' of PInt n \<Rightarrow> if n = 0 then 8000 else n | _ \<Rightarrow> 8000)"

definition truncate_output :: "string \<Rightarrow> int \<Rightarrow> string" where
  "truncate_output s n =
     (if int (length s) \<le> n then s
      else slice_to s n @ newline # ''... [truncated - '' @ show_int (int (length s) - n) @ '' chars omitted]'')"

definition run_bounded :: "shell_env \<Rightarrow> int \<Rightarrow> string list \<Rightarrow> int \<Rightarrow> (string list \<times> int) list \<times> shell_answer" where
  "run_bounded e n argv timeout =
     ([(argv, timeout)],
      case sh_run e argv timeout of
        Ran rc out err \<Rightarrow>
          \<lparr>sa_status = ''ok'', sa_code = Some rc, sa_reason = [], sa_out = truncate_output out n, sa_err = truncate_output err n\<rparr>
      | RunTimedOut \<Rightarrow> refuse ''timeout'' (''command timed out after '' @ show_int timeout @ ''s'')
      | RunRaised m \<Rightarrow> refuse ''failed'' m)"

text \<open>The parameters of a tool are looked up in the runtime parameters of the turn.\<close>

definition get_tool_params :: "(string \<times> dict) list \<Rightarrow> string \<Rightarrow> dict" where
  "get_tool_params runtime tid = (case map_of runtime tid of Some p \<Rightarrow> p | None \<Rightarrow> [])"

definition readonly_commands :: "dict \<Rightarrow> string list" where
  "readonly_commands params =
     (case dget params ''shell_readonly_commands'' of
        PList xs \<Rightarrow> map (\<lambda>c. py_lower (py_strip c)) (filter (\<lambda>c. py_strip c \<noteq> []) (List.map_filter as_str xs))
      | _ \<Rightarrow> [])"

definition shell_execute_readonly ::
  "shell_env \<Rightarrow> (string \<times> dict) list \<Rightarrow> string \<Rightarrow> int \<Rightarrow> (string list \<times> int) list \<times> shell_answer" where
  "shell_execute_readonly e runtime command timeout =
     (let params = get_tool_params runtime ''shell_execute_readonly''; allowed = readonly_commands params
      in if allowed = [] then ([], refuse ''rejected_unavailable'' ''shell_readonly_commands is empty'')
         else (case parse_command (py_strip command) of
                 (exe, args) \<Rightarrow>
                   if exe = [] then ([], refuse ''rejected_invalid'' ''empty or invalid command'')
                   else if py_lower exe \<notin> set allowed
                   then ([], refuse ''rejected_not_allowed'' (squote # exe @ squote # '' is not in readonly allowlist''))
                   else run_bounded e (max_output_chars params) (exe # args) (max 1 (min timeout max_timeout_seconds))))"

text \<open>_normalize_allowlist: None when an entry does not decode, for which the tool raises.\<close>

definition normalize_allowlist :: "shell_env \<Rightarrow> dict \<Rightarrow> allow_entry list option" where
  "normalize_allowlist e params =
     (case dget params ''command_allowlist'' of
        PList xs \<Rightarrow> those (map (sh_entry e) (List.map_filter as_dict xs))
      | _ \<Rightarrow> Some [])"

definition entry_matches :: "shell_env \<Rightarrow> string \<Rightarrow> string list \<Rightarrow> allow_entry \<Rightarrow> bool" where
  "entry_matches e exe args en =
     (py_lower exe = py_lower (py_strip (al_command en)) \<and> sh_match e (al_args en) (join_words args) = Some True)"

definition find_matching_entry :: "shell_env \<Rightarrow> string \<Rightarrow> string list \<Rightarrow> allow_entry list \<Rightarrow> allow_entry option" where
  "find_matching_entry e exe args entries = find (entry_matches e exe args) entries"

definition shell_execute_allowlisted ::
  "shell_env \<Rightarrow> (string \<times> dict) list \<Rightarrow> string \<Rightarrow> int \<Rightarrow> (string list \<times> int) list \<times> (exn + shell_answer)" where
  "shell_execute_allowlisted e runtime command timeout =
     (let params = get_tool_params runtime ''shell_execute_allowlisted''
      in case normalize_allowlist e params of
           None \<Rightarrow> ([], Inl (OtherError ''ValidationError''))
         | Some [] \<Rightarrow> ([], Inr (refuse ''rejected_unavailable'' ''command_allowlist is empty''))
         | Some entries \<Rightarrow>
             (case parse_command (py_strip command) of
                (exe, args) \<Rightarrow>
                  if exe = [] then ([], Inr (refuse ''rejected_invalid'' ''empty or invalid command''))
                  else (case find_matching_entry e exe args entries of
                          None \<Rightarrow> ([], Inr (refuse ''rejected_not_allowed''
                             (squote # exe @ squote # '' or args do not match any command_allowlist template'')))
                        | Some en \<Rightarrow>
                            (case run_bounded e (max_output_chars params) (exe # args)
                               (max 1 (min (min timeout (al_timeout en)) max_timeout_seconds)) of
                               (calls, a) \<Rightarrow> (calls, Inr a)))))"

section \<open>What the tools run\<close>

lemma truncate_bound:
  assumes "n \<ge> 0"
  shows "int (length (truncate_output s n)) \<le> n + 33 + int (length (show_int (int (length s) - n)))"
  using assms by (auto simp: truncate_output_def slice_to_def)

lemma truncate_keeps: "int (length s) \<le> n \<Longrightarrow> truncate_output s n = s"
  by (simp add: truncate_output_def)

lemma parse_command_shlex: "parse_command s = (exe, args) \<Longrightarrow> exe \<noteq> [] \<Longrightarrow> shlex_split s = Some (exe # args)"
  by (auto simp: parse_command_def split: option.splits list.splits)

lemma readonly_runs:
  "fst (shell_execute_readonly e runtime command timeout) = [] \<or>
     (\<exists>exe args t. fst (shell_execute_readonly e runtime command timeout) = [(exe # args, t)] \<and>
        shlex_split (py_strip command) = Some (exe # args) \<and> 1 \<le> t \<and> t \<le> 30 \<and>
        py_lower exe \<in> set (readonly_commands (get_tool_params runtime ''shell_execute_readonly'')))"
proof -
  obtain exe args where p: "parse_command (py_strip command) = (exe, args)" by fastforce
  then have "exe \<noteq> [] \<Longrightarrow> shlex_split (py_strip command) = Some (exe # args)" by (rule parse_command_shlex)
  then show ?thesis by (auto simp: shell_execute_readonly_def Let_def p run_bounded_def max_timeout_seconds_def)
qed

lemma allowlisted_runs:
  "fst (shell_execute_allowlisted e runtime command timeout) = [] \<or>
     (\<exists>exe args t entries en. fst (shell_execute_allowlisted e runtime command timeout) = [(exe # args, t)] \<and>
        shlex_split (py_strip command) = Some (exe # args) \<and>
        normalize_allowlist e (get_tool_params runtime ''shell_execute_allowlisted'') = Some entries \<and>
        en \<in> set entries \<and> entry_matches e exe args en \<and> 1 \<le> t \<and> t \<le> 30 \<and> t \<le> max 1 (al_timeout en))"
proof (cases "normalize_allowlist e (get_tool_params runtime ''shell_execute_allowlisted'')")
  case (Some entries)
  obtain exe args where p: "parse_command (py_strip command) = (exe, args)" by fastforce
  then have "exe \<noteq> [] \<Longrightarrow> shlex_split (py_strip command) = Some (exe # args)" by (rule parse_command_shlex)
  moreover have "en \<in> set entries \<and> entry_matches e exe args en" if "find_matching_entry e exe args entries = Some en" for en
    using that by (auto simp: find_matching_entry_def find_Some_iff)
  moreover have "fst (shell_execute_allowlisted e runtime command timeout) = [] \<or>
     (\<exists>en. exe \<noteq> [] \<and> find_matching_entry e exe args entries = Some en \<and>
        fst (shell_execute_allowlisted e runtime command timeout) =
          [(exe # args, max 1 (min (min timeout (al_timeout en)) 30))])"
    by (auto simp: shell_execute_allowlisted_def Let_def Some p run_bounded_def max_timeout_seconds_def
        split: list.split option.split)
  moreover have "1 \<le> max 1 (min (min timeout n) 30) \<and> max 1 (min (min timeout n) 30) \<le> 30 \<and>
      max 1 (min (min timeout n) 30) \<le> max 1 n" for n :: int by auto
  ultimately show ?thesis using Some by metis
qed (simp add: shell_execute_allowlisted_def Let_def)

text \<open>
  C16: a shell tool runs one process at most, and only what its list allows.  A process
  shell_execute_readonly starts is the given command split into words, its executable is on the
  list up to letter case, and its time-out lies between 1 and 30 seconds; its arguments are not
  examined.  A process shell_execute_allowlisted starts is the command split into words, and
  some entry of the configured list has this executable and a pattern that matches the whole
  argument string; the time-out is positive and exceeds neither 30 seconds nor the entry's
  limit.
\<close>

theorem shell_runs_only_allowed:
  "(fst (shell_execute_readonly e runtime command timeout) = [] \<or>
     (\<exists>exe args t. fst (shell_execute_readonly e runtime command timeout) = [(exe # args, t)] \<and>
        shlex_split (py_strip command) = Some (exe # args) \<and> 1 \<le> t \<and> t \<le> 30 \<and>
        py_lower exe \<in> set (readonly_commands (get_tool_params runtime ''shell_execute_readonly'')))) \<and>
   (fst (shell_execute_allowlisted e runtime command timeout) = [] \<or>
     (\<exists>exe args t entries en. fst (shell_execute_allowlisted e runtime command timeout) = [(exe # args, t)] \<and>
        shlex_split (py_strip command) = Some (exe # args) \<and>
        normalize_allowlist e (get_tool_params runtime ''shell_execute_allowlisted'') = Some entries \<and>
        en \<in> set entries \<and> entry_matches e exe args en \<and> 1 \<le> t \<and> t \<le> 30 \<and> t \<le> max 1 (al_timeout en)))"
  using readonly_runs allowlisted_runs by blast

end
