(* ===== verification/Vault_Tools.thy ===== *)
theory Vault_Tools
  imports Memory_Store Capabilities
begin

text \<open>
  The tools that work on files: obsidian_wiki_common.py, obsidian_wiki_read.py,
  obsidian_wiki_list.py, obsidian_wiki_edit.py, obsidian_wiki_write.py and write_markdown.py
  under agent/tools.  The state 'v of the vault is abstract: reading a file, listing a
  directory and running a process of the vault's product are parameters, and so are the hash
  and json.loads.  Others may change the vault between the reading of the tool and the
  processes it starts.
\<close>

section \<open>Searching and replacing text\<close>

text \<open>The first occurrence of a text, as what comes before and after it.\<close>

fun find_sub :: "string \<Rightarrow> string \<Rightarrow> (string \<times> string) option" where
  "find_sub w [] = (if w = [] then Some ([], []) else None)"
| "find_sub w (c # s) =
     (if prefix w (c # s) then Some ([], drop (length w) (c # s))
      else map_option (\<lambda>(a, b). (c # a, b)) (find_sub w s))"

lemma find_sub_Some: "find_sub w s = Some (a, b) \<Longrightarrow> s = a @ w @ b"
  by (induction w s arbitrary: a b rule: find_sub.induct) (auto simp: prefix_def split: if_splits)

lemma find_sub_None: "find_sub w s = None \<longleftrightarrow> \<not> sublist w s"
  by (induction w s rule: find_sub.induct) (auto simp: sublist_Cons_right)

lemma find_sub_shorter: "find_sub w s = Some (a, b) \<Longrightarrow> w \<noteq> [] \<Longrightarrow> length b < length s"
  by (drule find_sub_Some) (cases w, auto)

text \<open>str.count and str.replace of a non-empty text.\<close>

function count_sub :: "string \<Rightarrow> string \<Rightarrow> nat" where
  "count_sub w s =
     (if w = [] then 0 else case find_sub w s of None \<Rightarrow> 0 | Some (a, b) \<Rightarrow> Suc (count_sub w b))"
  by pat_completeness auto
termination by (relation "measure (length \<circ> snd)") (auto dest: find_sub_shorter)

function replace_sub :: "string \<Rightarrow> string \<Rightarrow> string \<Rightarrow> string" where
  "replace_sub w new s =
     (if w = [] then s else case find_sub w s of None \<Rightarrow> s | Some (a, b) \<Rightarrow> a @ new @ replace_sub w new b)"
  by pat_completeness auto
termination by (relation "measure (\<lambda>(w, new, s). length s)") (auto dest: find_sub_shorter)

declare count_sub.simps [simp del] replace_sub.simps [simp del]

definition replace_first :: "string \<Rightarrow> string \<Rightarrow> string \<Rightarrow> string" where
  "replace_first w new s = (case find_sub w s of None \<Rightarrow> s | Some (a, b) \<Rightarrow> a @ new @ b)"

lemma count_sub_zero: "w \<noteq> [] \<Longrightarrow> count_sub w s = 0 \<longleftrightarrow> \<not> sublist w s"
  by (subst count_sub.simps) (auto simp: find_sub_None[symmetric] split: option.splits)

lemma replace_sub_once:
  assumes "w \<noteq> []" and "count_sub w s = 1"
  obtains a b where "s = a @ w @ b" "\<not> sublist w b" "replace_sub w new s = a @ new @ b" "replace_first w new s = a @ new @ b"
proof -
  obtain a b where ab: "find_sub w s = Some (a, b)"
    using assms count_sub.simps[of w s] by (auto split: option.splits)
  then have "count_sub w b = 0" using assms count_sub.simps[of w s] by simp
  then have "\<not> sublist w b" using assms(1) by (simp add: count_sub_zero)
  then have "replace_sub w new b = b" using find_sub_None[of w b] by (subst replace_sub.simps) simp
  then have "replace_sub w new s = a @ new @ b" using ab assms(1) by (subst replace_sub.simps) simp
  with ab show ?thesis
    using that[of a b] find_sub_Some[OF ab] \<open>\<not> sublist w b\<close> by (simp add: replace_first_def)
qed

section \<open>Paths of the vault\<close>

definition slash :: char where "slash = CHR ''/''"

text \<open>PurePosixPath(path).parts drops empty and dot components.\<close>

definition path_parts :: "string \<Rightarrow> string list" where
  "path_parts p = filter (\<lambda>s. s \<noteq> [] \<and> s \<noteq> ''.'') (split_on slash p)"

definition reject_unsafe_vault_path :: "string \<Rightarrow> string option" where
  "reject_unsafe_vault_path p =
     (if p = [] \<or> py_strip p = [] then Some ''path must not be empty''
      else if hd p = slash then Some (''path must be vault-relative, not absolute: '' @ p)
      else if ''..'' \<in> set (path_parts p) then Some (''path must not contain ..: '' @ p)
      else None)"

text \<open>os.path.join.\<close>

definition os_join :: "string \<Rightarrow> string \<Rightarrow> string" where
  "os_join base p =
     (if p \<noteq> [] \<and> hd p = slash then p
      else if base = [] \<or> last base = slash then base @ p else base @ slash # p)"

section \<open>The vault and its transactions\<close>

datatype proc_run = Exited int string string | NotRun string

record vault_write =
  vw_path :: string
  vw_mode :: string
  vw_content :: string
  vw_sha :: string

record vault_bundle =
  bu_id :: string
  bu_type :: string
  bu_expected :: "(string \<times> string option) list"
  bu_writes :: "vault_write list"

text \<open>
  ev_run gets the bundle file when the command names it; ev_uuid is the hexadecimal suffix of a
  generated operation id.  ev_raw is what a file holds, ev_file what open() in text mode reads of
  it: every line end becomes a newline.
\<close>

record 'v vault_env =
  ev_vault :: string
  ev_product :: string
  ev_raw :: "'v \<Rightarrow> string \<Rightarrow> string option"
  ev_size :: "'v \<Rightarrow> string \<Rightarrow> nat"
  ev_list :: "'v \<Rightarrow> string \<Rightarrow> string list option"
  ev_hash :: "string \<Rightarrow> string"
  ev_json :: "string \<Rightarrow> pyval option"
  ev_uuid :: string
  ev_run :: "vault_bundle option \<Rightarrow> string list \<Rightarrow> 'v \<Rightarrow> proc_run \<times> 'v"

definition ev_file :: "'v vault_env \<Rightarrow> 'v \<Rightarrow> string \<Rightarrow> string option" where
  "ev_file e v p = map_option universal_newlines (ev_raw e v p)"

text \<open>Answers: refused with a status and a reason, or what was read, listed or written.\<close>

datatype vault_answer =
    Refused string string
  | Content string string
  | Entries string "(string \<times> bool) list"
  | Written string pyval bool "string option"

definition unavailable :: vault_answer where
  "unavailable = Refused ''unavailable'' ''obsidian vault not configured''"

definition obsidian_wiki_read :: "'v vault_env \<Rightarrow> string \<Rightarrow> 'v \<Rightarrow> vault_answer" where
  "obsidian_wiki_read e p v =
     (if ev_vault e = [] then unavailable
      else case reject_unsafe_vault_path p of
             Some r \<Rightarrow> Refused ''rejected_invalid'' r
           | None \<Rightarrow>
               (case ev_file e v (os_join (ev_vault e) p) of
                  None \<Rightarrow> Refused ''not_found'' (''no such file in vault: '' @ p)
                | Some s \<Rightarrow>
                    if ev_size e v (os_join (ev_vault e) p) > 1000000
                    then Refused ''rejected_invalid'' (''file too large to read: '' @ p)
                    else Content p s))"

text \<open>The flag of an entry says whether it is a directory.\<close>

definition obsidian_wiki_list :: "'v vault_env \<Rightarrow> string \<Rightarrow> 'v \<Rightarrow> vault_answer" where
  "obsidian_wiki_list e p v =
     (if ev_vault e = [] then unavailable
      else case (if p = [] then None else reject_unsafe_vault_path p) of
             Some r \<Rightarrow> Refused ''rejected_invalid'' r
           | None \<Rightarrow>
               (let shown = (if p = [] then ''.'' else p); target = (if p = [] then ev_vault e else os_join (ev_vault e) p)
                in case ev_list e v target of
                     None \<Rightarrow> Refused ''not_found'' (''no such directory in vault: '' @ shown)
                   | Some names \<Rightarrow>
                       Entries shown (map (\<lambda>n. (n, ev_list e v (os_join target n) \<noteq> None)) (sort names))))"

definition max_writes :: nat where "max_writes = 20"

text \<open>The check of one entry of the call: the write and the hash it expects.\<close>

definition check_write ::
  "'v vault_env \<Rightarrow> (string \<times> string) list \<Rightarrow> 'v \<Rightarrow> (string \<times> string) list \<Rightarrow> string + (vault_write \<times> string option)" where
  "check_write e base v entry =
     (let p = (case map_of entry ''path'' of Some s \<Rightarrow> s | None \<Rightarrow> []);
          mode = (case map_of entry ''mode'' of Some s \<Rightarrow> s | None \<Rightarrow> []);
          content = (case map_of entry ''content'' of Some s \<Rightarrow> s | None \<Rightarrow> []);
          current = ev_file e v (os_join (ev_vault e) p)
      in case reject_unsafe_vault_path p of
           Some r \<Rightarrow> Inl r
         | None \<Rightarrow>
             if mode \<notin> {''create'', ''replace''} then Inl (''mode must be create or replace for '' @ p)
             else if content = [] then Inl (''content must be non-empty for '' @ p)
             else if mode = ''replace'' \<and> current = None then Inl (''cannot replace missing file: '' @ p)
             else if mode = ''create'' \<and> current \<noteq> None then Inl (''cannot create - file already exists: '' @ p)
             else Inr (\<lparr>vw_path = p, vw_mode = mode, vw_content = content, vw_sha = ev_hash e content\<rparr>,
                       if mode = ''create'' then None
                       else case map_of base p of Some h \<Rightarrow> Some h | None \<Rightarrow> map_option (ev_hash e) current))"

fun check_writes ::
  "'v vault_env \<Rightarrow> (string \<times> string) list \<Rightarrow> 'v \<Rightarrow> (string \<times> string) list list
    \<Rightarrow> vault_write list \<times> (string \<times> string option) list
    \<Rightarrow> string + (vault_write list \<times> (string \<times> string option) list)" where
  "check_writes e base v [] acc = Inr acc"
| "check_writes e base v (w # ws) acc =
     (case check_write e base v w of
        Inl r \<Rightarrow> Inl r
      | Inr (vw, h) \<Rightarrow> check_writes e base v ws (fst acc @ [vw], AList.update (vw_path vw) h (snd acc)))"

text \<open>_run_cli: a status and reason, or the payload.\<close>

definition cli_result :: "'v vault_env \<Rightarrow> proc_run \<Rightarrow> (string \<times> string) + dict" where
  "cli_result e r =
     (case r of
        NotRun m \<Rightarrow> Inl (''failed'', m)
      | Exited rc out err \<Rightarrow>
          if rc = 75 then Inl (''conflict'', ''vault changed or is locked by another operation - re-read and retry'')
          else if rc \<noteq> 0
          then Inl (''failed'', if py_strip err \<noteq> [] then py_strip err
                                else if py_strip out \<noteq> [] then py_strip out else ''exited with code '' @ show_int rc)
          else (case ev_json e out of
                  None \<Rightarrow> Inl (''failed'', ''invalid CLI output'')
                | Some (PDict d) \<Rightarrow> Inr d
                | Some _ \<Rightarrow> Inl (''failed'', ''unexpected CLI output shape'')))"

definition core_script :: "'v vault_env \<Rightarrow> string" where
  "core_script e = os_join (os_join (ev_product e) ''scripts'') ''claude-obsidian.py''"

definition inspect_command :: "'v vault_env \<Rightarrow> string list" where
  "inspect_command e = [''python3'', core_script e, ''transaction'', ''inspect'', ''bundle.json'', ''--vault'', ev_vault e]"

definition apply_command :: "'v vault_env \<Rightarrow> string \<Rightarrow> string list" where
  "apply_command e sha =
     [''python3'', core_script e, ''transaction'', ''apply'', ''bundle.json'', ''--vault'', ev_vault e,
      ''--approved-plan-sha256'', sha]"

text \<open>_refresh_retrieval_index over the changed pages: refreshed, and an error.\<close>

definition wiki_pages :: "pyval \<Rightarrow> string list" where
  "wiki_pages changed =
     (case changed of PList xs \<Rightarrow> filter (\<lambda>p. prefix ''wiki/'' p \<and> suffix ''.md'' p) (List.map_filter as_str xs) | _ \<Rightarrow> [])"

definition refresh_error :: "string \<Rightarrow> proc_run \<Rightarrow> string option" where
  "refresh_error script r =
     (case r of
        NotRun m \<Rightarrow> Some m
      | Exited rc out err \<Rightarrow>
          if rc = 0 then None
          else Some (if py_strip err \<noteq> [] then py_strip err else script @ '' exited '' @ show_int rc))"

fun run_refreshes :: "'v vault_env \<Rightarrow> (string \<times> string list) list \<Rightarrow> 'v \<Rightarrow> (bool \<times> string option) \<times> 'v" where
  "run_refreshes e [] v = ((True, None), v)"
| "run_refreshes e ((script, cmd) # cs) v =
     (case ev_run e None cmd v of
        (r, v1) \<Rightarrow>
          (case refresh_error script r of
             Some m \<Rightarrow> ((False, Some m), v1)
           | None \<Rightarrow> run_refreshes e cs v1))"

definition refresh_commands :: "'v vault_env \<Rightarrow> string list \<Rightarrow> (string \<times> string list) list" where
  "refresh_commands e pages =
     (let script = (\<lambda>n. os_join (os_join (ev_product e) ''scripts'') n)
      in map (\<lambda>p. (''contextual-prefix.py'', [''python3'', script ''contextual-prefix.py'', ''--vault'', ev_vault e, p, ''--no-llm''])) pages
         @ [(''bm25-index.py build'', [''python3'', script ''bm25-index.py'', ''--vault'', ev_vault e, ''build''])])"

definition refresh_retrieval_index :: "'v vault_env \<Rightarrow> pyval \<Rightarrow> 'v \<Rightarrow> (bool \<times> string option) \<times> 'v" where
  "refresh_retrieval_index e changed v =
     (if wiki_pages changed = [] then ((False, None), v) else run_refreshes e (refresh_commands e (wiki_pages changed)) v)"

text \<open>
  Inspect and apply; others change the vault by oth 0 before and oth 1 between the two, and by
  oth 2 after an edit has read its file.
\<close>

definition run_transaction :: "'v vault_env \<Rightarrow> (nat \<Rightarrow> 'v \<Rightarrow> 'v) \<Rightarrow> vault_bundle \<Rightarrow> 'v \<Rightarrow> vault_answer \<times> 'v" where
  "run_transaction e oth b v =
     (case ev_run e (Some b) (inspect_command e) (oth 0 v) of
        (r, v1) \<Rightarrow>
          (case cli_result e r of
             Inl (st, m) \<Rightarrow> (Refused st m, v1)
           | Inr payload \<Rightarrow>
               (case as_str (dget payload ''approval_sha256'') of
                  None \<Rightarrow> (Refused ''failed'' ''inspect result missing approval_sha256'', v1)
                | Some sha \<Rightarrow>
                    if sha = [] then (Refused ''failed'' ''inspect result missing approval_sha256'', v1)
                    else (case ev_run e (Some b) (apply_command e sha) (oth 1 v1) of
                            (r2, v2) \<Rightarrow>
                              (case cli_result e r2 of
                                 Inl (st, m) \<Rightarrow> (Refused st m, v2)
                               | Inr p2 \<Rightarrow>
                                   (let changed = dget_or p2 ''changed_paths'' (PList []);
                                        op = (case as_str (dget_or p2 ''operation_id'' (PStr (bu_id b))) of Some s \<Rightarrow> s | None \<Rightarrow> [])
                                    in case refresh_retrieval_index e changed v2 of
                                         ((done, m), v3) \<Rightarrow> (Written op changed done m, v3)))))))"

definition write_vault_transaction ::
  "'v vault_env \<Rightarrow> (nat \<Rightarrow> 'v \<Rightarrow> 'v) \<Rightarrow> string \<Rightarrow> (string \<times> string) list list \<Rightarrow> string option \<Rightarrow> (string \<times> string) list
    \<Rightarrow> 'v \<Rightarrow> vault_answer \<times> 'v" where
  "write_vault_transaction e oth op_type writes op_id base v =
     (if ev_vault e = [] \<or> ev_product e = [] then (unavailable, v)
      else if writes = [] then (Refused ''rejected_invalid'' ''writes must be a non-empty list'', v)
      else if length writes > max_writes then (Refused ''rejected_invalid'' ''too many writes in one call (max 20)'', v)
      else case check_writes e base v writes ([], []) of
             Inl r \<Rightarrow> (Refused ''rejected_invalid'' r, v)
           | Inr (ws, expected) \<Rightarrow>
               run_transaction e oth
                 \<lparr>bu_id = (case op_id of Some i \<Rightarrow> if i \<noteq> [] then i else op_type @ ''-'' @ ev_uuid e | None \<Rightarrow> op_type @ ''-'' @ ev_uuid e),
                  bu_type = op_type, bu_expected = expected, bu_writes = ws\<rparr> v)"

definition obsidian_wiki_write ::
  "'v vault_env \<Rightarrow> (nat \<Rightarrow> 'v \<Rightarrow> 'v) \<Rightarrow> string \<Rightarrow> (string \<times> string) list list \<Rightarrow> string option \<Rightarrow> 'v \<Rightarrow> vault_answer \<times> 'v" where
  "obsidian_wiki_write e oth op_type writes op_id v = write_vault_transaction e oth op_type writes op_id [] v"

definition obsidian_wiki_edit ::
  "'v vault_env \<Rightarrow> (nat \<Rightarrow> 'v \<Rightarrow> 'v) \<Rightarrow> string \<Rightarrow> string \<Rightarrow> string \<Rightarrow> bool \<Rightarrow> string \<Rightarrow> 'v \<Rightarrow> vault_answer \<times> 'v" where
  "obsidian_wiki_edit e oth p old new every op_type v =
     (let fail = (\<lambda>r. (Refused ''rejected_invalid'' r, v))
      in if ev_vault e = [] then (unavailable, v)
         else case reject_unsafe_vault_path p of
                Some r \<Rightarrow> fail r
              | None \<Rightarrow>
                  if old = [] then fail ''old_string must not be empty''
                  else if old = new then fail ''old_string and new_string are identical''
                  else (case ev_file e v (os_join (ev_vault e) p) of
                          None \<Rightarrow> fail (''no such file in vault: '' @ p)
                        | Some content \<Rightarrow>
                            (let n = count_sub old content
                             in if n = 0 then fail (''old_string not found in '' @ p)
                                else if \<not> every \<and> n > 1 then fail (''old_string is not unique in '' @ p)
                                else write_vault_transaction e oth op_type
                                       [[(''path'', p), (''mode'', ''replace''),
                                         (''content'', if every then replace_sub old new content else replace_first old new content)]]
                                       None [(p, ev_hash e content)] (oth 2 v))))"

section \<open>Writing markdown files\<close>

text \<open>
  write_markdown_file: target is the resolved path and home the resolved home directory.  The
  text of an existing file is read with universal newlines.
\<close>

datatype md_answer = MdWritten "string list" | MdRefused string string

definition is_invalid_path :: "string list \<Rightarrow> string list \<Rightarrow> md_answer option" where
  "is_invalid_path home target =
     (if \<not> suffix ''.md'' (path_suffix (case target of [] \<Rightarrow> [] | _ \<Rightarrow> last target))
      then Some (MdRefused ''rejected_invalid'' ''file_path must have a .md extension'')
      else if \<not> prefix home target
      then Some (MdRefused ''rejected_forbidden'' ''writing outside the user home directory is not allowed'')
      else None)"

definition write_markdown_file ::
  "string list \<Rightarrow> string list \<Rightarrow> string \<Rightarrow> bool \<Rightarrow> (string list \<times> string) list \<Rightarrow> md_answer \<times> (string list \<times> string) list" where
  "write_markdown_file home target content appending files =
     (case is_invalid_path home target of
        Some a \<Rightarrow> (a, files)
      | None \<Rightarrow>
          (case (if appending then map_of files target else Some []) of
             None \<Rightarrow> (MdRefused ''rejected_invalid'' ''file does not exist'', files)
           | Some old \<Rightarrow>
               (MdWritten target,
                AList.update target (if appending then universal_newlines old @ newline # content else content) files)))"

text \<open>Only markdown files below the home directory change, and only the one named.\<close>

lemma write_markdown_confined:
  assumes "write_markdown_file home target content appending files = (a, files')" and "map_of files' q \<noteq> map_of files q"
  shows "q = target \<and> prefix home target \<and> suffix ''.md'' (path_suffix (last target)) \<and> a = MdWritten target"
  using assms
  by (auto simp: write_markdown_file_def is_invalid_path_def path_suffix_def Let_def update_conv'
      split: if_splits option.splits list.splits)

section \<open>Confinement\<close>

lemma split_on_sep: "split_on c (s @ c # t) = split_on c s @ split_on c t"
  by (induction s) (auto split: list.splits)

lemma resolve_from_no_dots: "''..'' \<notin> set ps \<Longrightarrow> prefix acc (resolve_from acc ps)"
proof (induction acc ps rule: resolve_from.induct)
  case (2 acc p ps)
  then show ?case by (auto intro: append_prefixD)
qed simp

lemma safe_parts: "reject_unsafe_vault_path p = None \<Longrightarrow> ''..'' \<notin> set (split_on slash p) \<and> p \<noteq> [] \<and> hd p \<noteq> slash"
  by (auto simp: reject_unsafe_vault_path_def path_parts_def split: if_splits)

lemma os_join_confined:
  assumes "reject_unsafe_vault_path p = None" and "base \<noteq> []"
  shows "prefix (resolve_path (split_on slash base)) (resolve_path (split_on slash (os_join base p)))"
proof -
  note safe = safe_parts[OF assms(1)]
  show ?thesis
  proof (cases "last base = slash")
    case True
    then obtain b where b: "base = b @ slash # []" using assms(2) by (metis append_butlast_last_id)
    have "resolve_path (split_on slash base) = resolve_path (split_on slash b)"
      unfolding b split_on_sep by (simp add: resolve_path_def resolve_from_append)
    moreover have "os_join base p = b @ slash # p" using safe True assms(2) by (simp add: os_join_def b)
    ultimately show ?thesis
      using safe by (simp add: split_on_sep resolve_path_def resolve_from_append resolve_from_no_dots)
  next
    case False
    then have "os_join base p = base @ slash # p" using safe assms(2) by (simp add: os_join_def)
    then show ?thesis using safe by (simp add: split_on_sep resolve_path_def resolve_from_append resolve_from_no_dots)
  qed
qed

section \<open>Edits are not lost\<close>

text \<open>
  The precondition the transaction engine checks: an apply that exits with 0 found, for every
  path of the bundle with an expected hash, a file whose content has that hash.
\<close>

definition engine_checks :: "'v vault_env \<Rightarrow> bool" where
  "engine_checks e =
     (\<forall>b sha v out err v' p h.
        ev_run e (Some b) (apply_command e sha) v = (Exited 0 out err, v') \<and> (p, Some h) \<in> set (bu_expected b) \<longrightarrow>
        (\<exists>raw. ev_raw e v (os_join (ev_vault e) p) = Some raw \<and> ev_hash e raw = h))"

text \<open>A transaction is written when inspect gave a plan and the apply of just that plan exits with 0.\<close>

lemma run_transaction_written:
  assumes "run_transaction e oth b v = (Written op ch rd m, v')"
  obtains payload sha out out2 err err2 v1 v2 where
    "ev_run e (Some b) (inspect_command e) (oth 0 v) = (Exited 0 out err, v1)"
    "ev_json e out = Some (PDict payload)" "dget payload ''approval_sha256'' = PStr sha" "sha \<noteq> []"
    "ev_run e (Some b) (apply_command e sha) (oth 1 v1) = (Exited 0 out2 err2, v2)"
proof -
  obtain r v1 where r: "ev_run e (Some b) (inspect_command e) (oth 0 v) = (r, v1)" by fastforce
  from assms r obtain payload sha r2 v2 p2 where
    a: "cli_result e r = Inr payload" "as_str (dget payload ''approval_sha256'') = Some sha" "sha \<noteq> []"
      "ev_run e (Some b) (apply_command e sha) (oth 1 v1) = (r2, v2)" "cli_result e r2 = Inr p2"
    by (auto simp: run_transaction_def Let_def split: sum.splits option.splits if_splits prod.splits)
  obtain out err where r1: "r = Exited 0 out err" "ev_json e out = Some (PDict payload)"
    using a(1) by (auto simp: cli_result_def split: proc_run.splits if_splits option.splits pyval.splits)
  obtain out2 err2 where r2: "r2 = Exited 0 out2 err2"
    using a(5) by (auto simp: cli_result_def split: proc_run.splits if_splits)
  have "dget payload ''approval_sha256'' = PStr sha"
    using a(2) by (cases "dget payload ''approval_sha256''") auto
  then show ?thesis using that r r1 a(3,4) r2 by metis
qed

text \<open>What an edit makes of a text.\<close>

definition edited :: "string \<Rightarrow> string \<Rightarrow> bool \<Rightarrow> string \<Rightarrow> string" where
  "edited old new every s = (if every then replace_sub old new s else replace_first old new s)"

lemma edit_written:
  assumes "obsidian_wiki_edit e oth p old new every t v = (Written op ch rd m, v')"
  obtains content where "reject_unsafe_vault_path p = None" "old \<noteq> []" "ev_file e v (os_join (ev_vault e) p) = Some content"
    "count_sub old content \<noteq> 0" "every \<or> count_sub old content = 1"
    "run_transaction e oth
       \<lparr>bu_id = t @ ''-'' @ ev_uuid e, bu_type = t, bu_expected = [(p, Some (ev_hash e content))],
        bu_writes = [\<lparr>vw_path = p, vw_mode = ''replace'', vw_content = edited old new every content,
                      vw_sha = ev_hash e (edited old new every content)\<rparr>]\<rparr> (oth 2 v) = (Written op ch rd m, v')"
  using assms
  by (auto simp: obsidian_wiki_edit_def Let_def unavailable_def write_vault_transaction_def check_write_def max_writes_def
      edited_def split: option.splits if_splits intro!: that)

text \<open>
  C17: an edit is applied only to the text it was computed from.  Assume that the transaction
  engine checks the expected hashes of a bundle before it applies it.  When obsidian_wiki_edit
  reports success, the safe path named a file below the vault's wiki directory that held the old
  text, exactly once unless every occurrence was to be replaced, and the engine applied one
  bundle with one write, of the text with the old string replaced: its single occurrence, with
  everything around it kept, or all of them.  Inspect approved just that bundle and apply ran
  with its approval.  At the moment of the apply, whatever others did to the vault after the
  file was read and between inspect and apply, the file's content had the hash of the text the
  edit was computed from.  The text is read with universal newlines and its hash is that of the
  text, so the content is that text unless two contents share a hash.  Nothing is stated of what
  the engine writes.
\<close>

theorem edit_keeps_others_changes:
  assumes "engine_checks e" and "obsidian_wiki_edit e oth p old new every t v = (Written op ch rd m, v')"
  shows "\<exists>content b sha u raw out err v2.
     reject_unsafe_vault_path p = None \<and>
     ev_file e v (os_join (ev_vault e) p) = Some content \<and> sublist old content \<and>
     map (\<lambda>w. (vw_path w, vw_mode w, vw_content w)) (bu_writes b) = [(p, ''replace'', edited old new every content)] \<and>
     u = oth 1 (snd (ev_run e (Some b) (inspect_command e) (oth 0 (oth 2 v)))) \<and>
     (\<exists>out1 err1 payload. fst (ev_run e (Some b) (inspect_command e) (oth 0 (oth 2 v))) = Exited 0 out1 err1 \<and>
        ev_json e out1 = Some (PDict payload) \<and> dget payload ''approval_sha256'' = PStr sha) \<and>
     ev_run e (Some b) (apply_command e sha) u = (Exited 0 out err, v2) \<and>
     ev_raw e u (os_join (ev_vault e) p) = Some raw \<and> ev_hash e raw = ev_hash e content \<and>
     (every \<or> (\<exists>x y. content = x @ old @ y \<and> \<not> sublist old y \<and> edited old new every content = x @ new @ y))"
proof -
  obtain content where c: "reject_unsafe_vault_path p = None" "old \<noteq> []" "ev_file e v (os_join (ev_vault e) p) = Some content"
    "count_sub old content \<noteq> 0" "every \<or> count_sub old content = 1"
    and run: "run_transaction e oth
       \<lparr>bu_id = t @ ''-'' @ ev_uuid e, bu_type = t, bu_expected = [(p, Some (ev_hash e content))],
        bu_writes = [\<lparr>vw_path = p, vw_mode = ''replace'', vw_content = edited old new every content,
                      vw_sha = ev_hash e (edited old new every content)\<rparr>]\<rparr> (oth 2 v) = (Written op ch rd m, v')"
    (is "run_transaction e oth ?b _ = _")
    using edit_written[OF assms(2)] by metis
  obtain payload sha out out2 err err2 v1 v2 where
    r: "ev_run e (Some ?b) (inspect_command e) (oth 0 (oth 2 v)) = (Exited 0 out err, v1)"
      "ev_json e out = Some (PDict payload)" "dget payload ''approval_sha256'' = PStr sha"
      "ev_run e (Some ?b) (apply_command e sha) (oth 1 v1) = (Exited 0 out2 err2, v2)"
    using run_transaction_written[OF run] by metis
  have "(p, Some (ev_hash e content)) \<in> set (bu_expected ?b)" by simp
  then obtain raw where "ev_raw e (oth 1 v1) (os_join (ev_vault e) p) = Some raw" "ev_hash e raw = ev_hash e content"
    using assms(1) r(4) unfolding engine_checks_def by blast
  moreover have "every \<or> (\<exists>x y. content = x @ old @ y \<and> \<not> sublist old y \<and> edited old new every content = x @ new @ y)"
    using c(2,5) replace_sub_once[of old content new] by (metis edited_def)
  moreover have "sublist old content" using c(4) unfolding count_sub_zero[OF c(2)] by (rule notnotD)
  ultimately show ?thesis
    using c(1,3) r
    by (intro exI[of _ content] exI[of _ ?b] exI[of _ sha] exI[of _ "oth 1 v1"] exI[of _ raw] exI[of _ out2]
        exI[of _ err2] exI[of _ v2]) simp
qed

text \<open>An engine that checks its bundles of one write, on a vault of texts.\<close>

definition demo_vault_run ::
  "vault_bundle option \<Rightarrow> string list \<Rightarrow> (string \<times> string) list \<Rightarrow> proc_run \<times> (string \<times> string) list" where
  "demo_vault_run b cmd v =
     (case b of
        None \<Rightarrow> (Exited 0 [] [], v)
      | Some b \<Rightarrow>
          if cmd ! 3 = ''inspect'' then (Exited 0 ''i'' [], v)
          else (case bu_writes b of
                  [w] \<Rightarrow>
                    if list_all (\<lambda>(p, h). h = None \<or> map_of v (os_join ''/v/'' p) = h) (bu_expected b)
                    then (Exited 0 ''a'' [], AList.update (os_join ''/v/'' (vw_path w)) (vw_content w) v)
                    else (Exited 75 [] [], v)
                | _ \<Rightarrow> (Exited 75 [] [], v)))"

definition demo_vault_env :: "(string \<times> string) list vault_env" where
  "demo_vault_env =
     \<lparr>ev_vault = ''/v/'', ev_product = ''/p'', ev_raw = map_of, ev_size = (\<lambda>_ _. 1), ev_list = (\<lambda>_ _. None), ev_hash = id,
      ev_json = (\<lambda>s. Some (PDict (if s = ''i'' then [(''approval_sha256'', PStr ''h'')] else []))), ev_uuid = ''1'',
      ev_run = demo_vault_run\<rparr>"

lemma demo_engine_checks: "engine_checks demo_vault_env"
  unfolding engine_checks_def
  by (auto simp: demo_vault_env_def demo_vault_run_def apply_command_def list_all_iff split: list.splits if_splits)

definition demo_vault :: "(string \<times> string) list" where
  "demo_vault = [(''/v/wiki/a.md'', ''one two'')]"

definition demo_others :: "nat \<Rightarrow> (string \<times> string) list \<Rightarrow> (string \<times> string) list" where
  "demo_others n v = (if n = 1 then AList.update ''/v/wiki/b.md'' ''new'' v else v)"

lemma demo_edit:
  "obsidian_wiki_edit demo_vault_env demo_others ''wiki/a.md'' ''two'' ''three'' False ''markdown'' demo_vault =
     (Written ''markdown-1'' (PList []) False None, [(''/v/wiki/a.md'', ''one three''), (''/v/wiki/b.md'', ''new'')])"
  by code_simp

theorem edit_keeps_others_changes_witness:
  "\<exists>b u raw. u = demo_others 1 (snd (ev_run demo_vault_env (Some b) (inspect_command demo_vault_env)
          (demo_others 0 (demo_others 2 demo_vault)))) \<and>
     ev_raw demo_vault_env u ''/v/wiki/a.md'' = Some raw \<and> ev_hash demo_vault_env raw = ''one two''"
proof -
  have p: "os_join (ev_vault demo_vault_env) ''wiki/a.md'' = ''/v/wiki/a.md''" by code_simp
  have f: "ev_file demo_vault_env demo_vault ''/v/wiki/a.md'' = Some ''one two''" by code_simp
  have h: "ev_hash demo_vault_env ''one two'' = ''one two''" by code_simp
  from edit_keeps_others_changes[OF demo_engine_checks demo_edit] show ?thesis
    unfolding p by (auto simp: f h)
qed

end
