(* ===== verification/Telegram_Ingress.thy ===== *)
theory Telegram_Ingress
  imports Turn_Input
begin

text \<open>
  What the Telegram channel lets in: allowlist.py, reliability/throttle.py, ingress_builders.py
  and ingress_service.py under channels/telegram, and the mapper of core/events.  An update is
  the dictionary Telegram sends; a field of another type than Telegram documents counts as
  missing.  The monotonic clock, the wall clock, fresh identifiers, the trace id, json.loads,
  mimetypes and the transcription service are parameters.  The audit log is left out.
\<close>

section \<open>Allowlist and throttle\<close>

definition is_allowed :: "int list \<Rightarrow> int \<Rightarrow> bool" where
  "is_allowed allowed user = (user \<in> set allowed)"

definition require_allowed :: "int list \<Rightarrow> int \<Rightarrow> (exn + unit)" where
  "require_allowed allowed user = (if is_allowed allowed user then Inr () else Inl (UnauthorizedUserError user))"

text \<open>The time stamps of each user within the window, oldest first.\<close>

type_synonym buckets = "(int \<times> time list) list"

definition bucket :: "buckets \<Rightarrow> int \<Rightarrow> time list" where
  "bucket b user = (case map_of b user of Some ts \<Rightarrow> ts | None \<Rightarrow> [])"

definition throttle_check :: "int \<Rightarrow> time \<Rightarrow> int \<Rightarrow> time \<Rightarrow> buckets \<Rightarrow> (exn + unit) \<times> buckets" where
  "throttle_check limit window user now b =
     (let ts = dropWhile (\<lambda>t. t < now - window) (bucket b user)
      in if int (length ts) \<ge> limit then (Inl (ThrottledError user (length ts) limit), AList.update user ts b)
         else (Inr (), AList.update user (ts @ [now]) b))"

definition current_count :: "time \<Rightarrow> int \<Rightarrow> time \<Rightarrow> buckets \<Rightarrow> nat \<times> buckets" where
  "current_count window user now b =
     (if bucket b user = [] then (0, b)
      else (let ts = dropWhile (\<lambda>t. t < now - window) (bucket b user) in (length ts, AList.update user ts b)))"

section \<open>Events\<close>

datatype event_type =
    UserText | UserVoice | UserAttachment | UserCallback | ExerciseResults | FillBlanksResults

record voice_meta =
  vm_file :: string
  vm_duration :: int
  vm_transcript :: "string option"

record callback_meta =
  cq_id :: string
  cq_data :: string
  cq_origin :: "int option"

record telegram_event =
  ne_id :: string
  ne_type :: event_type
  ne_session :: string
  ne_user :: string
  ne_created :: time
  ne_trace :: string
  ne_text :: "string option"
  ne_voice :: "voice_meta option"
  ne_attachment :: "attachment option"
  ne_attachments :: "attachment list"
  ne_callback :: "callback_meta option"
  ne_key :: string
  ne_chat :: int
  ne_message :: "int option"
  ne_group :: "string option"
  ne_failure :: "string option"

record ingress_env =
  in_uuid :: string
  in_trace :: "string option"
  in_now :: time
  in_clock :: time
  in_json :: "string \<Rightarrow> pyval option"
  in_guess :: "string \<Rightarrow> string option"

definition str_at :: "dict \<Rightarrow> string \<Rightarrow> string option" where
  "str_at d k = as_str (dget d k)"

definition int_at :: "dict \<Rightarrow> string \<Rightarrow> int option" where
  "int_at d k = as_int (dget d k)"

definition dict_at :: "dict \<Rightarrow> string \<Rightarrow> dict" where
  "dict_at d k = (case as_dict (dget d k) of Some e \<Rightarrow> e | None \<Rightarrow> [])"

definition or_str :: "string option \<Rightarrow> string \<Rightarrow> string" where
  "or_str s dflt = (case s of Some t \<Rightarrow> t | None \<Rightarrow> dflt)"

definition or_int :: "int option \<Rightarrow> int \<Rightarrow> int" where
  "or_int s dflt = (case s of Some t \<Rightarrow> t | None \<Rightarrow> dflt)"

definition has_key :: "dict \<Rightarrow> string \<Rightarrow> bool" where
  "has_key d k = (k \<in> fst ` set d)"

definition extract_user_id :: "dict \<Rightarrow> int option" where
  "extract_user_id message = int_at (dict_at message ''from'') ''id''"

definition parse_date :: "int option \<Rightarrow> time \<Rightarrow> time" where
  "parse_date ts now = (case ts of Some t \<Rightarrow> seconds t | None \<Rightarrow> now)"

definition chat_of :: "dict \<Rightarrow> int \<Rightarrow> int" where
  "chat_of message user = or_int (int_at (dict_at message ''chat'') ''id'') user"

definition telegram_key :: "ingress_env \<Rightarrow> dict \<Rightarrow> string" where
  "telegram_key e message =
     ''telegram:'' @ (case int_at message ''message_id'' of Some n \<Rightarrow> show_int n | None \<Rightarrow> in_uuid e)"

text \<open>The fields all builders fill alike.\<close>

definition base_event :: "ingress_env \<Rightarrow> event_type \<Rightarrow> int \<Rightarrow> int \<Rightarrow> time \<Rightarrow> string \<Rightarrow> telegram_event" where
  "base_event e ty user chat created key =
     \<lparr>ne_id = in_uuid e, ne_type = ty, ne_session = ''tg:'' @ show_int chat, ne_user = show_int user, ne_created = created,
      ne_trace = (case nonempty (in_trace e) of Some t \<Rightarrow> t | None \<Rightarrow> in_uuid e), ne_text = None, ne_voice = None,
      ne_attachment = None, ne_attachments = [], ne_callback = None, ne_key = key, ne_chat = chat, ne_message = None,
      ne_group = None, ne_failure = None\<rparr>"

definition build_text_event :: "ingress_env \<Rightarrow> dict \<Rightarrow> int \<Rightarrow> telegram_event" where
  "build_text_event e m user =
     (let t = (case nonempty (str_at m ''text'') of Some s \<Rightarrow> s | None \<Rightarrow> or_str (str_at m ''caption'') [])
      in (base_event e UserText user (chat_of m user) (parse_date (int_at m ''date'') (in_now e)) (telegram_key e m))
           \<lparr>ne_text := nonempty (Some t), ne_message := int_at m ''message_id''\<rparr>)"

definition voice_missing :: string where
  "voice_missing =
     ''I could not extract voice text from Telegram. Please resend as text or try another voice message.''"

definition build_voice_event :: "ingress_env \<Rightarrow> dict \<Rightarrow> int \<Rightarrow> telegram_event" where
  "build_voice_event e m user =
     (let v = dict_at m ''voice''; t = nonempty (str_at m ''text'')
      in (base_event e UserVoice user (chat_of m user) (parse_date (int_at m ''date'') (in_now e)) (telegram_key e m))
           \<lparr>ne_text := Some (or_str t voice_missing),
            ne_voice := Some \<lparr>vm_file = or_str (str_at v ''file_id'') [], vm_duration = or_int (int_at v ''duration'') 0,
                              vm_transcript = t\<rparr>\<rparr>)"

definition unknown_mime :: string where
  "unknown_mime = ''application/octet-stream''"

definition normalize_document_mime :: "(string \<Rightarrow> string option) \<Rightarrow> string option \<Rightarrow> string option \<Rightarrow> string" where
  "normalize_document_mime guess raw name =
     (let given = nonempty raw
      in if given \<noteq> None \<and> given \<noteq> Some unknown_mime then the given
         else case Option.bind (nonempty name) (\<lambda>n. nonempty (guess n)) of
                Some g \<Rightarrow> g | None \<Rightarrow> or_str given unknown_mime)"

text \<open>max with a key: the first of the largest; the empty dictionary for none.\<close>

fun largest_photo :: "dict \<Rightarrow> dict list \<Rightarrow> dict" where
  "largest_photo best [] = best"
| "largest_photo best (p # ps) =
     largest_photo (if or_int (int_at p ''file_size'') 0 > or_int (int_at best ''file_size'') 0 then p else best) ps"

definition photos_of :: "dict \<Rightarrow> dict list" where
  "photos_of m = (case dget m ''photo'' of PList xs \<Rightarrow> List.map_filter as_dict xs | _ \<Rightarrow> [])"

definition has_document_or_photo :: "dict \<Rightarrow> bool" where
  "has_document_or_photo m = (has_key m ''document'' \<or> has_key m ''photo'')"

definition extract_attachment_meta :: "ingress_env \<Rightarrow> dict \<Rightarrow> attachment" where
  "extract_attachment_meta e m =
     (if has_key m ''document''
      then (let d = dict_at m ''document''
            in \<lparr>at_file = or_str (str_at d ''file_id'') [],
                at_mime = normalize_document_mime (in_guess e) (str_at d ''mime_type'') (str_at d ''file_name''),
                at_size = or_int (int_at d ''file_size'') 0, at_name = str_at d ''file_name'', at_caption = str_at m ''caption''\<rparr>)
      else if has_key m ''photo''
      then (let p = (case photos_of m of [] \<Rightarrow> [] | q # qs \<Rightarrow> largest_photo q qs)
            in \<lparr>at_file = or_str (str_at p ''file_id'') [], at_mime = ''image/jpeg'', at_size = or_int (int_at p ''file_size'') 0,
                at_name = None, at_caption = str_at m ''caption''\<rparr>)
      else \<lparr>at_file = [], at_mime = unknown_mime, at_size = 0, at_name = None, at_caption = None\<rparr>)"

definition build_attachment_event :: "ingress_env \<Rightarrow> dict \<Rightarrow> int \<Rightarrow> telegram_event" where
  "build_attachment_event e m user =
     (base_event e UserAttachment user (chat_of m user) (parse_date (int_at m ''date'') (in_now e)) (telegram_key e m))
       \<lparr>ne_text := str_at m ''caption'', ne_attachment := Some (extract_attachment_meta e m)\<rparr>"

definition build_web_app_event :: "ingress_env \<Rightarrow> dict \<Rightarrow> int \<Rightarrow> telegram_event" where
  "build_web_app_event e m user =
     (let data = or_str (str_at (dict_at m ''web_app_data'') ''data'') [];
          ty = (if data = [] then UserText
                else case Option.bind (in_json e data) as_dict of
                       None \<Rightarrow> UserText
                     | Some d \<Rightarrow> if str_at d ''type'' = Some ''exercise_results'' then ExerciseResults
                                 else if str_at d ''type'' = Some ''fill_blanks_results'' then FillBlanksResults else UserText)
      in (base_event e ty user (chat_of m user) (parse_date (int_at m ''date'') (in_now e)) (telegram_key e m))
           \<lparr>ne_text := nonempty (Some data), ne_message := int_at m ''message_id''\<rparr>)"

definition build_callback_event :: "ingress_env \<Rightarrow> dict \<Rightarrow> int \<Rightarrow> telegram_event" where
  "build_callback_event e cq user =
     (let m = dict_at cq ''message''; i = or_str (str_at cq ''id'') (in_uuid e)
      in (base_event e UserCallback user (chat_of m user) (in_now e) (''telegram:cq:'' @ i))
           \<lparr>ne_callback := Some \<lparr>cq_id = i, cq_data = or_str (str_at cq ''data'') [], cq_origin = int_at m ''message_id''\<rparr>\<rparr>)"

definition build_media_group_event :: "ingress_env \<Rightarrow> dict list \<Rightarrow> int \<Rightarrow> telegram_event" where
  "build_media_group_event e ms user =
     (let m = hd ms; as = map (extract_attachment_meta e) (filter has_document_or_photo ms);
          group = (case nonempty (str_at m ''media_group_id'') of Some g \<Rightarrow> g | None \<Rightarrow> in_uuid e)
      in (base_event e UserAttachment user (chat_of m user) (parse_date (int_at m ''date'') (in_now e)) (''telegram:mg:'' @ group))
           \<lparr>ne_text := (case List.map_filter (\<lambda>x. nonempty (str_at x ''caption'')) ms of c # _ \<Rightarrow> Some c | [] \<Rightarrow> None),
            ne_attachment := (case as of a # _ \<Rightarrow> Some a | [] \<Rightarrow> None), ne_attachments := as, ne_group := Some group\<rparr>)"

section \<open>Normalisation\<close>

text \<open>The guards every update passes: the allowlist before the throttle, if there is one.\<close>

record ingress_config =
  ic_allowed :: "int list"
  ic_limit :: "int option"

definition throttle_window :: time where
  "throttle_window = seconds 60"

definition throttle_pass :: "ingress_config \<Rightarrow> ingress_env \<Rightarrow> int \<Rightarrow> buckets \<Rightarrow> (exn + unit) \<times> buckets" where
  "throttle_pass c e u b =
     (case ic_limit c of
        None \<Rightarrow> (Inr (), b)
      | Some limit \<Rightarrow> throttle_check limit throttle_window u (in_clock e) b)"

definition guarded ::
  "ingress_config \<Rightarrow> ingress_env \<Rightarrow> int option \<Rightarrow> (int \<Rightarrow> telegram_event) \<Rightarrow> buckets \<Rightarrow> (exn + telegram_event option) \<times> buckets" where
  "guarded c e user build b =
     (case user of
        None \<Rightarrow> (Inr None, b)
      | Some u \<Rightarrow>
          (case require_allowed (ic_allowed c) u of
             Inl x \<Rightarrow> (Inl x, b)
           | Inr _ \<Rightarrow>
               (case throttle_pass c e u b of
                  (Inl x, b') \<Rightarrow> (Inl x, b')
                | (Inr _, b') \<Rightarrow> (Inr (Some (build u)), b'))))"

definition normalize_message :: "ingress_config \<Rightarrow> ingress_env \<Rightarrow> dict \<Rightarrow> buckets \<Rightarrow> (exn + telegram_event option) \<times> buckets" where
  "normalize_message c e m b =
     guarded c e (extract_user_id m)
       (\<lambda>u. if has_key m ''voice'' then build_voice_event e m u
            else if has_document_or_photo m then build_attachment_event e m u
            else if has_key m ''web_app_data'' then build_web_app_event e m u
            else build_text_event e m u) b"

definition normalize_callback_query ::
  "ingress_config \<Rightarrow> ingress_env \<Rightarrow> dict \<Rightarrow> buckets \<Rightarrow> (exn + telegram_event option) \<times> buckets" where
  "normalize_callback_query c e cq b = guarded c e (extract_user_id cq) (build_callback_event e cq) b"

definition normalize_update :: "ingress_config \<Rightarrow> ingress_env \<Rightarrow> dict \<Rightarrow> buckets \<Rightarrow> (exn + telegram_event option) \<times> buckets" where
  "normalize_update c e update b =
     (if has_key update ''message'' then normalize_message c e (dict_at update ''message'') b
      else if has_key update ''callback_query'' then normalize_callback_query c e (dict_at update ''callback_query'') b
      else (Inr None, b))"

definition normalize_media_group ::
  "ingress_config \<Rightarrow> ingress_env \<Rightarrow> dict list \<Rightarrow> buckets \<Rightarrow> (exn + telegram_event option) \<times> buckets" where
  "normalize_media_group c e ms b =
     (if ms = [] then (Inr None, b) else guarded c e (extract_user_id (hd ms)) (build_media_group_event e ms) b)"

text \<open>
  normalize_async: a voice message without transcript is sent to the transcription service, if
  there is one; it answers a transcript or a reason for its failure.
\<close>

definition transcribed ::
  "(string \<Rightarrow> int \<Rightarrow> string option \<times> string option) option \<Rightarrow> telegram_event \<Rightarrow> telegram_event" where
  "transcribed service ev =
     (case (service, ne_voice ev) of
        (Some f, Some v) \<Rightarrow>
          if ne_type ev \<noteq> UserVoice \<or> vm_transcript v \<noteq> None then ev
          else (case f (vm_file v) (vm_duration v) of
                  (t, reason) \<Rightarrow>
                    (case nonempty t of
                       Some s \<Rightarrow> ev\<lparr>ne_voice := Some (v\<lparr>vm_transcript := Some s\<rparr>), ne_text := Some s\<rparr>
                     | None \<Rightarrow> (case nonempty reason of Some r \<Rightarrow> ev\<lparr>ne_failure := Some r\<rparr> | None \<Rightarrow> ev)))
      | _ \<Rightarrow> ev)"

definition normalize_async ::
  "(string \<Rightarrow> int \<Rightarrow> string option \<times> string option) option \<Rightarrow> ingress_config \<Rightarrow> ingress_env \<Rightarrow> dict \<Rightarrow> buckets
    \<Rightarrow> (exn + telegram_event option) \<times> buckets" where
  "normalize_async service c e update b =
     (case normalize_update c e update b of
        (Inr (Some ev), b') \<Rightarrow> (Inr (Some (transcribed service ev)), b')
      | r \<Rightarrow> r)"

text \<open>NormalizedEventMapper.map: the event the orchestrator gets.\<close>

definition map_event :: "telegram_event \<Rightarrow> orch_event" where
  "map_event ev =
     \<lparr>ev_id = ne_id ev, ev_source = ''telegram'', ev_session = ne_session ev, ev_user = ne_user ev, ev_text = ne_text ev,
      ev_transcript = Option.bind (ne_voice ev) vm_transcript, ev_attachment = ne_attachment ev,
      ev_callback = map_option cq_data (ne_callback ev), ev_attachments = ne_attachments ev, ev_model = None\<rparr>"

section \<open>The rate limit\<close>

text \<open>A run of checks at the readings of the clock, and the ones that pass.\<close>

fun throttle_run :: "int \<Rightarrow> time \<Rightarrow> (int \<times> time) list \<Rightarrow> buckets \<Rightarrow> (int \<times> time) list" where
  "throttle_run limit window [] b = []"
| "throttle_run limit window ((u, t) # cs) b =
     (case throttle_check limit window u t b of
        (Inl _, b') \<Rightarrow> throttle_run limit window cs b'
      | (Inr _, b') \<Rightarrow> (u, t) # throttle_run limit window cs b')"

abbreviation in_window :: "time \<Rightarrow> time \<Rightarrow> time list \<Rightarrow> time list" where
  "in_window window t ts \<equiv> filter (\<lambda>s. t - window \<le> s \<and> s \<le> t) ts"

text \<open>
  What a bucket says of the events a user has had: they are in order, no window holds more than
  the limit, and those missing from the bucket have left the window.
\<close>

definition bucket_ok :: "int \<Rightarrow> time \<Rightarrow> time \<Rightarrow> time list \<Rightarrow> time list \<Rightarrow> bool" where
  "bucket_ok limit window now past ts =
     (\<exists>gone. past = gone @ ts \<and> (\<forall>s \<in> set gone. s < now - window) \<and> sorted past \<and> (\<forall>s \<in> set past. s \<le> now) \<and>
        (\<forall>t. int (length (in_window window t past)) \<le> limit))"

lemma bucket_ok_later: "bucket_ok limit window now past ts \<Longrightarrow> now \<le> now' \<Longrightarrow> bucket_ok limit window now' past ts"
  unfolding bucket_ok_def by (elim exE conjE, intro exI conjI) force+

lemma bucket_ok_drop:
  assumes "bucket_ok limit window now past ts"
  shows "bucket_ok limit window now past (dropWhile (\<lambda>t. t < now - window) ts)"
proof -
  obtain gone where g: "past = gone @ ts" "\<forall>s \<in> set gone. s < now - window" "sorted past" "\<forall>s \<in> set past. s \<le> now"
    "\<forall>t. int (length (in_window window t past)) \<le> limit"
    using assms unfolding bucket_ok_def by blast
  let ?P = "\<lambda>t. t < now - window"
  have "past = (gone @ takeWhile ?P ts) @ dropWhile ?P ts" by (simp add: g(1))
  moreover have "\<forall>s \<in> set (gone @ takeWhile ?P ts). s < now - window" using g(2) by (auto dest: set_takeWhileD)
  ultimately show ?thesis unfolding bucket_ok_def using g(3-5) by blast
qed

lemma bucket_ok_add:
  assumes ok: "bucket_ok limit window now past ts" and "int (length ts) < limit" and "0 \<le> window"
  shows "bucket_ok limit window now (past @ [now]) (ts @ [now])"
proof -
  obtain gone where g: "past = gone @ ts" "\<forall>s \<in> set gone. s < now - window" "sorted past" "\<forall>s \<in> set past. s \<le> now"
    "\<forall>t. int (length (in_window window t past)) \<le> limit"
    using ok unfolding bucket_ok_def by blast
  have "int (length (in_window window t (past @ [now]))) \<le> limit" for t
  proof (cases "t < now")
    case True
    then show ?thesis using g(5) by simp
  next
    case False
    then have "in_window window t gone = []" using g(2) by (auto simp: filter_empty_conv)
    then have "length (in_window window t (past @ [now])) \<le> length ts + 1"
      by (simp add: g(1) le_SucI)
    then show ?thesis using assms(2) by linarith
  qed
  moreover have "past @ [now] = gone @ (ts @ [now])" "sorted (past @ [now])" "\<forall>s \<in> set (past @ [now]). s \<le> now"
    using g(1,3,4) by (auto simp: sorted_append)
  ultimately show ?thesis unfolding bucket_ok_def using g(2) by blast
qed

text \<open>The events of one user among those that passed.\<close>

abbreviation of_user :: "int \<Rightarrow> (int \<times> time) list \<Rightarrow> time list" where
  "of_user u cs \<equiv> map snd (filter (\<lambda>c. fst c = u) cs)"

lemma bucket_update: "bucket (AList.update u ts b) v = (if u = v then ts else bucket b v)"
  by (simp add: bucket_def)

lemma throttle_check_ok:
  assumes ok: "\<forall>v. bucket_ok limit window now (past v) (bucket b v)" and "now \<le> t" and "0 \<le> window"
    and c: "throttle_check limit window u t b = (r, b')"
  shows "\<forall>v. bucket_ok limit window t (if v = u \<and> r = Inr () then past v @ [t] else past v) (bucket b' v)"
proof
  fix v
  let ?ts = "dropWhile (\<lambda>s. s < t - window) (bucket b u)"
  have later: "bucket_ok limit window t (past w) (bucket b w)" for w using ok assms(2) bucket_ok_later by blast
  have drop: "bucket_ok limit window t (past u) ?ts" by (rule bucket_ok_drop) (rule later)
  show "bucket_ok limit window t (if v = u \<and> r = Inr () then past v @ [t] else past v) (bucket b' v)"
  proof (cases "int (length ?ts) \<ge> limit")
    case True
    then show ?thesis using c drop later[of v] by (auto simp: throttle_check_def Let_def bucket_update)
  next
    case False
    then have "bucket_ok limit window t (past u @ [t]) (?ts @ [t])" using bucket_ok_add[OF drop _ assms(3)] by simp
    then show ?thesis using c False later[of v] by (auto simp: throttle_check_def Let_def bucket_update)
  qed
qed

lemma throttle_run_window:
  assumes "\<forall>v. bucket_ok limit window now (past v) (bucket b v)" and "0 \<le> window" and "sorted (map snd cs)"
    and "\<forall>c \<in> set cs. now \<le> snd c"
  shows "int (length (in_window window t (past u @ of_user u (throttle_run limit window cs b)))) \<le> limit"
  using assms
proof (induction cs arbitrary: b now past)
  case Nil
  then show ?case by (auto simp: bucket_ok_def)
next
  case (Cons c cs)
  obtain v s where c: "c = (v, s)" by fastforce
  obtain r b' where r: "throttle_check limit window v s b = (r, b')" by fastforce
  let ?past = "\<lambda>w. if w = v \<and> r = Inr () then past w @ [s] else past w"
  have "int (length (in_window window t (?past u @ of_user u (throttle_run limit window cs b')))) \<le> limit"
  proof (rule Cons.IH)
    show "\<forall>w. bucket_ok limit window s (?past w) (bucket b' w)"
      by (rule throttle_check_ok[OF Cons.prems(1) _ Cons.prems(2) r]) (use Cons.prems(4) c in simp)
  qed (use Cons.prems c in auto)
  then show ?case
    by (cases r) (auto simp: c r split: if_splits)
qed

text \<open>
  C29: no user exceeds the rate limit.  However the updates of all users interleave, as long
  as the monotonic clock does not run backwards, the throttle lets through at most limit
  events of a user in every window of its length, wherever the window starts.
\<close>

theorem throttle_limits_every_window:
  assumes "0 \<le> limit" and "0 \<le> window" and "sorted (map snd checks)"
  shows "int (length (in_window window t (of_user u (throttle_run limit window checks [])))) \<le> limit"
proof (cases checks)
  case (Cons c cs)
  have "\<forall>v. bucket_ok limit window (snd c) ((\<lambda>_. []) v) (bucket [] v)"
    using assms(1) by (simp add: bucket_ok_def bucket_def)
  from throttle_run_window[OF this assms(2,3), of t u] Cons assms(3) show ?thesis by auto
qed (use assms(1) in simp)

theorem throttle_limits_every_window_witness:
  "int (length (in_window 60 70 (of_user 7 (throttle_run 2 60 [(7, 0), (7, 10), (7, 20), (8, 20), (7, 65), (7, 70)] [])))) \<le> 2 \<and>
   throttle_run 2 60 [(7, 0), (7, 10), (7, 20), (8, 20), (7, 65), (7, 70)] [] = [(7, 0), (7, 10), (8, 20), (7, 65)]"
proof
  show "int (length (in_window 60 70 (of_user 7 (throttle_run 2 60 [(7, 0), (7, 10), (7, 20), (8, 20), (7, 65), (7, 70)] [])))) \<le> 2"
    by (rule throttle_limits_every_window) simp_all
  show "throttle_run 2 60 [(7, 0), (7, 10), (7, 20), (8, 20), (7, 65), (7, 70)] [] = [(7, 0), (7, 10), (8, 20), (7, 65)]"
    by code_simp
qed

section \<open>Who gets in\<close>

lemma guarded_cases:
  "guarded c e user build b = (Inr (Some ev), b') \<Longrightarrow>
     \<exists>u. user = Some u \<and> u \<in> set (ic_allowed c) \<and> ev = build u \<and>
       throttle_pass c e u b = (Inr (), b')"
  by (auto simp: guarded_def require_allowed_def is_allowed_def split: option.splits sum.splits prod.splits if_splits)

lemma base_fields [simp]:
  "ne_user (base_event e ty u chat t k) = show_int u" "ne_session (base_event e ty u chat t k) = ''tg:'' @ show_int chat"
  "ne_chat (base_event e ty u chat t k) = chat" "ne_id (base_event e ty u chat t k) = in_uuid e"
  by (simp_all add: base_event_def)

lemma built_events:
  "ne_user (build_text_event e m u) = show_int u" "ne_user (build_voice_event e m u) = show_int u"
  "ne_user (build_attachment_event e m u) = show_int u" "ne_user (build_web_app_event e m u) = show_int u"
  "ne_user (build_callback_event e m u) = show_int u" "ne_user (build_media_group_event e ms u) = show_int u"
  "ne_session (build_text_event e m u) = ''tg:'' @ show_int (chat_of m u)"
  "ne_session (build_voice_event e m u) = ''tg:'' @ show_int (chat_of m u)"
  "ne_session (build_attachment_event e m u) = ''tg:'' @ show_int (chat_of m u)"
  "ne_session (build_web_app_event e m u) = ''tg:'' @ show_int (chat_of m u)"
  "ne_session (build_callback_event e m u) = ''tg:'' @ show_int (chat_of (dict_at m ''message'') u)"
  "ne_session (build_media_group_event e ms u) = ''tg:'' @ show_int (chat_of (hd ms) u)"
  "ne_chat (build_text_event e m u) = chat_of m u" "ne_chat (build_voice_event e m u) = chat_of m u"
  "ne_chat (build_attachment_event e m u) = chat_of m u" "ne_chat (build_web_app_event e m u) = chat_of m u"
  "ne_chat (build_callback_event e m u) = chat_of (dict_at m ''message'') u"
  "ne_chat (build_media_group_event e ms u) = chat_of (hd ms) u"
  "ne_id (build_text_event e m u) = in_uuid e" "ne_id (build_voice_event e m u) = in_uuid e"
  "ne_id (build_attachment_event e m u) = in_uuid e" "ne_id (build_web_app_event e m u) = in_uuid e"
  "ne_id (build_callback_event e m u) = in_uuid e" "ne_id (build_media_group_event e ms u) = in_uuid e"
  by (simp_all add: build_text_event_def build_voice_event_def build_attachment_event_def build_web_app_event_def
      build_callback_event_def build_media_group_event_def Let_def)

text \<open>Where an update has its sender and its message, as Telegram documents it.\<close>

definition update_sender :: "dict \<Rightarrow> dict" where
  "update_sender update =
     dict_at (dict_at update (if has_key update ''message'' then ''message'' else ''callback_query'')) ''from''"

definition update_message :: "dict \<Rightarrow> dict" where
  "update_message update =
     (if has_key update ''message'' then dict_at update ''message'' else dict_at (dict_at update ''callback_query'') ''message'')"

text \<open>An event of an allowed sender, for the chat of the message, or of the sender where no chat is given.\<close>

definition admitted :: "ingress_config \<Rightarrow> ingress_env \<Rightarrow> dict \<Rightarrow> dict \<Rightarrow> buckets \<Rightarrow> telegram_event \<Rightarrow> buckets \<Rightarrow> bool" where
  "admitted c e sender message b ev b' \<longleftrightarrow>
     (\<exists>u \<in> set (ic_allowed c). dget sender ''id'' = PInt u \<and> ne_user ev = show_int u \<and>
        (let chat = (case dget (dict_at message ''chat'') ''id'' of PInt n \<Rightarrow> n | _ \<Rightarrow> u)
         in ne_chat ev = chat \<and> ne_session ev = ''tg:'' @ show_int chat) \<and>
        throttle_pass c e u b = (Inr (), b'))"

lemma chat_of_case: "chat_of m u = (case dget (dict_at m ''chat'') ''id'' of PInt n \<Rightarrow> n | _ \<Rightarrow> u)"
  by (cases "dget (dict_at m ''chat'') ''id''") (simp_all add: chat_of_def int_at_def or_int_def)

lemma sender_id: "extract_user_id m = Some u \<longleftrightarrow> dget (dict_at m ''from'') ''id'' = PInt u"
  by (cases "dget (dict_at m ''from'') ''id''") (simp_all add: extract_user_id_def int_at_def)

lemma normalize_update_event:
  assumes "normalize_update c e update b = (Inr (Some ev), b')"
  shows "admitted c e (update_sender update) (update_message update) b ev b' \<and> ne_id ev = in_uuid e"
  using assms
  by (auto simp: normalize_update_def normalize_message_def normalize_callback_query_def built_events admitted_def
      update_sender_def update_message_def sender_id chat_of_case Let_def dest!: guarded_cases split: if_splits)

lemma transcribed_fields:
  "ne_user (transcribed s ev) = ne_user ev" "ne_session (transcribed s ev) = ne_session ev" "ne_chat (transcribed s ev) = ne_chat ev"
  "ne_id (transcribed s ev) = ne_id ev"
  by (auto simp: transcribed_def split: option.splits prod.splits)

text \<open>
  C30: only allowed users reach the assistant.  Every event that is made of an update or of an
  album belongs to the sender of that update (of the first message of the album), who is on the
  allowlist and within the rate limit, if there is one; its chat and its session are those of
  the chat id the update gives, or of the sender where it gives none.  An update or album of a
  user who is not on the allowlist raises UnauthorizedUserError and does not touch the throttle.
\<close>

theorem only_allowed_users_enter:
  shows "(\<forall>ev b'. normalize_async service c e update b = (Inr (Some ev), b') \<longrightarrow>
      admitted c e (update_sender update) (update_message update) b ev b') \<and>
    (\<forall>ev b'. normalize_media_group c e ms b = (Inr (Some ev), b') \<longrightarrow>
      ms \<noteq> [] \<and> admitted c e (dict_at (hd ms) ''from'') (hd ms) b ev b') \<and>
    (\<forall>u. dget (update_sender update) ''id'' = PInt u \<and> u \<notin> set (ic_allowed c) \<longrightarrow>
      normalize_async service c e update b =
        (if has_key update ''message'' \<or> has_key update ''callback_query'' then Inl (UnauthorizedUserError u) else Inr None, b)) \<and>
    (\<forall>u. ms \<noteq> [] \<and> dget (dict_at (hd ms) ''from'') ''id'' = PInt u \<and> u \<notin> set (ic_allowed c) \<longrightarrow>
      normalize_media_group c e ms b = (Inl (UnauthorizedUserError u), b))"
proof (intro conjI allI impI)
  fix ev b'
  assume "normalize_async service c e update b = (Inr (Some ev), b')"
  then obtain ev0 where "normalize_update c e update b = (Inr (Some ev0), b')" "ev = transcribed service ev0"
    by (auto simp: normalize_async_def split: prod.splits sum.splits option.splits)
  then show "admitted c e (update_sender update) (update_message update) b ev b'"
    using normalize_update_event[of c e update b ev0 b'] by (simp add: admitted_def transcribed_fields)
next
  fix ev b'
  assume "normalize_media_group c e ms b = (Inr (Some ev), b')"
  then show "ms \<noteq> []" "admitted c e (dict_at (hd ms) ''from'') (hd ms) b ev b'"
    by (auto simp: normalize_media_group_def built_events admitted_def sender_id chat_of_case Let_def
        dest!: guarded_cases split: if_splits)
next
  fix u
  assume u: "dget (update_sender update) ''id'' = PInt u \<and> u \<notin> set (ic_allowed c)"
  show "normalize_async service c e update b =
      (if has_key update ''message'' \<or> has_key update ''callback_query'' then Inl (UnauthorizedUserError u) else Inr None, b)"
  proof (cases "has_key update ''message''")
    case True
    with u have "extract_user_id (dict_at update ''message'') = Some u" by (simp add: sender_id update_sender_def)
    with True u show ?thesis
      by (simp add: normalize_async_def normalize_update_def normalize_message_def guarded_def require_allowed_def is_allowed_def)
  next
    case False
    with u have "extract_user_id (dict_at update ''callback_query'') = Some u" by (simp add: sender_id update_sender_def)
    with False u show ?thesis
      by (simp add: normalize_async_def normalize_update_def normalize_callback_query_def guarded_def require_allowed_def is_allowed_def)
  qed
next
  fix u
  assume "ms \<noteq> [] \<and> dget (dict_at (hd ms) ''from'') ''id'' = PInt u \<and> u \<notin> set (ic_allowed c)"
  then show "normalize_media_group c e ms b = (Inl (UnauthorizedUserError u), b)"
    by (simp add: normalize_media_group_def guarded_def require_allowed_def is_allowed_def sender_id[symmetric])
qed

definition demo_ingress :: ingress_env where
  "demo_ingress = \<lparr>in_uuid = ''u1'', in_trace = None, in_now = 0, in_clock = 0, in_json = (\<lambda>_. None), in_guess = (\<lambda>_. None)\<rparr>"

definition demo_update :: dict where
  "demo_update =
     [(''message'', PDict [(''from'', PDict [(''id'', PInt 7)]), (''chat'', PDict [(''id'', PInt 7)]), (''message_id'', PInt 3),
                           (''text'', PStr ''hello'')])]"

theorem only_allowed_users_enter_witness:
  "\<exists>ev b'. normalize_async None \<lparr>ic_allowed = [7], ic_limit = Some 20\<rparr> demo_ingress demo_update [] = (Inr (Some ev), b') \<and>
     ne_session ev = ''tg:'' @ show_int 7 \<and> ne_text ev = Some ''hello''"
proof -
  obtain ev b' where ev: "normalize_async None \<lparr>ic_allowed = [7], ic_limit = Some 20\<rparr> demo_ingress demo_update [] = (Inr (Some ev), b')"
    "ne_text ev = Some ''hello''"
    by (auto simp: normalize_async_def normalize_update_def normalize_message_def guarded_def demo_ingress_def demo_update_def
        has_key_def dict_at_def extract_user_id_def int_at_def require_allowed_def is_allowed_def throttle_pass_def throttle_check_def bucket_def
        Let_def transcribed_def has_document_or_photo_def build_text_event_def base_event_def str_at_def nonempty_def)
  then have "admitted \<lparr>ic_allowed = [7], ic_limit = Some 20\<rparr> demo_ingress (update_sender demo_update) (update_message demo_update) [] ev b'"
    using only_allowed_users_enter[of None "\<lparr>ic_allowed = [7], ic_limit = Some 20\<rparr>" demo_ingress demo_update "[]" "[]"] by blast
  moreover have "dget (dict_at (update_message demo_update) ''chat'') ''id'' = PInt 7" by code_simp
  ultimately have "ne_session ev = ''tg:'' @ show_int 7" by (simp add: admitted_def)
  with ev show ?thesis by blast
qed

text \<open>
  The identifier of an event is fresh for every delivery, and the idempotency key is used
  nowhere: the orchestrator cannot recognise an update that Telegram delivers again.
\<close>

lemma redelivery_gets_new_id:
  assumes "normalize_update c e update b = (Inr (Some ev), b')" and "normalize_update c e' update b2 = (Inr (Some ev'), b2')"
    and "in_uuid e \<noteq> in_uuid e'"
  shows "ev_id (map_event ev) \<noteq> ev_id (map_event ev')"
  using assms by (auto simp: map_event_def dest!: normalize_update_event)

end
