(* ===== verification/Telegram_Delivery.thy ===== *)
theory Telegram_Delivery
  imports Telegram_Ingress
begin

text \<open>
  Sending and receiving: egress.py, polling.py and ingestion/media_group.py under
  channels/telegram.  The answers of the Bot API to the calls of the program are parameters,
  given by the number of the call.  Rendering of markdown to message entities is a parameter;
  logging and the webhook and menu calls at start-up are left out.
\<close>

section \<open>Splitting a text\<close>

definition max_message_length :: nat where
  "max_message_length = 4096"

text \<open>
  Where a window of the text is cut: after its last newline, unless that is the first
  character or there is none.
\<close>

definition cut_at :: "string \<Rightarrow> nat" where
  "cut_at w =
     (let n = length w - length (takeWhile (\<lambda>c. c \<noteq> newline) (rev w)) in if n > 1 then n else length w)"

lemma cut_at_bounds: "w \<noteq> [] \<Longrightarrow> 0 < cut_at w \<and> cut_at w \<le> length w"
  by (auto simp: cut_at_def Let_def)

function split_chunks :: "nat \<Rightarrow> string \<Rightarrow> string list" where
  "split_chunks n s =
     (if s = [] \<or> n = 0 then []
      else if length s \<le> n then [s]
      else take (cut_at (take n s)) s # split_chunks n (drop (cut_at (take n s)) s))"
  by pat_completeness auto
termination
proof (relation "measure (length \<circ> snd)", goal_cases)
  case (2 n s)
  then show ?case using cut_at_bounds[of "take n s"] by (cases s) auto
qed simp

declare split_chunks.simps [simp del]

definition split_text :: "string \<Rightarrow> string list" where
  "split_text s = (if length s \<le> max_message_length then [s] else split_chunks max_message_length s)"

lemma split_chunks_ok:
  assumes "0 < n"
  shows "concat (split_chunks n s) = s \<and> (\<forall>c \<in> set (split_chunks n s). c \<noteq> [] \<and> length c \<le> n)"
  using assms
proof (induction n s rule: split_chunks.induct)
  case (1 n s)
  let ?k = "cut_at (take n s)"
  show ?case
  proof (cases "s = [] \<or> length s \<le> n")
    case True
    have "split_chunks n s = (if s = [] then [] else [s])" using 1(2) True by (intro trans[OF split_chunks.simps]) auto
    show ?thesis
    proof (cases "s = []")
      case True
      then show ?thesis unfolding \<open>split_chunks n s = _\<close> by simp
    next
      case False
      with \<open>s = [] \<or> length s \<le> n\<close> show ?thesis unfolding \<open>split_chunks n s = _\<close> by simp
    qed
  next
    case False
    then have k: "0 < ?k" "?k \<le> n" using cut_at_bounds[of "take n s"] 1(2) by auto
    have "split_chunks n s = take ?k s # split_chunks n (drop ?k s)"
      using False 1(2) by (intro trans[OF split_chunks.simps]) simp
    moreover have "concat (split_chunks n (drop ?k s)) = drop ?k s \<and>
        (\<forall>c \<in> set (split_chunks n (drop ?k s)). c \<noteq> [] \<and> length c \<le> n)"
      using 1 False by (metis not_gr_zero)
    moreover have "take ?k s \<noteq> []" "length (take ?k s) \<le> n" using k False by simp_all
    ultimately show ?thesis by (metis append_take_drop_id concat.simps(2) set_ConsD)
  qed
qed

section \<open>Replies\<close>

record action_button =
  ab_label :: string
  ab_id :: string
  ab_data :: string
  ab_url :: "string option"

record channel_response =
  cr_session :: string
  cr_interactive :: bool
  cr_text :: string
  cr_parse :: "string option"
  cr_ui :: "string option"
  cr_actions :: "action_button list"

text \<open>One button per row: a label with a link, or with callback data (none on a reply keyboard).\<close>

datatype button = LinkButton string string | DataButton string string | PlainButton string

datatype markup = ReplyKeyboard "button list" | InlineKeyboard "button list"

definition build_reply_markup :: "channel_response \<Rightarrow> markup option" where
  "build_reply_markup r =
     (let url = (\<lambda>a. nonempty (ab_url a))
      in if \<not> cr_interactive r \<or> cr_actions r = [] then None
         else if cr_ui r = Some ''reply_keyboard''
         then Some (ReplyKeyboard (map (\<lambda>a. case url a of Some u \<Rightarrow> LinkButton (ab_label a) u | None \<Rightarrow> PlainButton (ab_label a)) (cr_actions r)))
         else Some (InlineKeyboard (map (\<lambda>a. case url a of Some u \<Rightarrow> LinkButton (ab_label a) u
                                                         | None \<Rightarrow> DataButton (ab_label a) (ab_data a)) (cr_actions r))))"

text \<open>A message to send: the text, its entities, the parse mode when there are none, the buttons.\<close>

type_synonym 'e message = "string \<times> 'e list \<times> string option \<times> markup option"

definition messages_of :: "(string \<Rightarrow> (string \<times> 'e list) list) \<Rightarrow> channel_response \<Rightarrow> 'e message list" where
  "messages_of render r =
     (let chunks = (if cr_parse r = None then render (cr_text r) else map (\<lambda>s. (s, [])) (split_text (cr_text r)))
      in map (\<lambda>(i, (s, es)). (s, es, if es = [] then cr_parse r else None,
                              if i = length chunks - 1 then build_reply_markup r else None)) (enumerate 0 chunks))"

text \<open>
  A call answers that the message was sent, or raises.  After a network error the message may
  have arrived all the same: the flag says whether it did, which the program does not see.
\<close>

datatype api_result = Sent | RetryAfter rat | NetworkError bool | ApiError

text \<open>The inner loop: the messages acknowledged, the calls made, and the error that ended it.\<close>

fun send_chunks :: "(nat \<Rightarrow> api_result) \<Rightarrow> nat \<Rightarrow> 'm list \<Rightarrow> 'm list \<times> nat \<times> api_result option" where
  "send_chunks api k [] = ([], k, None)"
| "send_chunks api k (m # ms) =
     (case api k of
        Sent \<Rightarrow> (case send_chunks api (Suc k) ms of (d, k', r) \<Rightarrow> (m # d, k', r))
      | x \<Rightarrow> ([], Suc k, Some x))"

definition max_attempts :: nat where "max_attempts = 3"

definition retry_delay :: "nat \<Rightarrow> rat" where
  "retry_delay attempt = 1 * 2 ^ attempt"

text \<open>The message of a failed call that arrived all the same.\<close>

definition unanswered :: "api_result \<Rightarrow> 'm list \<Rightarrow> 'm list" where
  "unanswered x rest = (case x of NetworkError arrived \<Rightarrow> if arrived then take 1 rest else [] | _ \<Rightarrow> [])"

text \<open>
  The outer loop from an attempt on: the result, the messages that arrived and the pauses made.
  Api errors are not retried; a retry-after pause replaces the backoff.
\<close>

fun send_loop :: "(nat \<Rightarrow> api_result) \<Rightarrow> nat \<Rightarrow> nat \<Rightarrow> nat \<Rightarrow> 'm list \<Rightarrow> (exn + bool) \<times> 'm list \<times> rat list" where
  "send_loop api attempt 0 k rest = (Inl (OtherError ''TelegramSendError''), [], [])"
| "send_loop api attempt (Suc n) k rest =
     (case send_chunks api k rest of
        (d, k', None) \<Rightarrow> (Inr True, d, [])
      | (d, k', Some ApiError) \<Rightarrow> (Inl (OtherError ''TelegramSendError''), d, [])
      | (d, k', Some x) \<Rightarrow>
          (case send_loop api (Suc attempt) n k' (drop (length d) rest) of
             (r, d', ps) \<Rightarrow>
               (r, d @ unanswered x (drop (length d) rest) @ d',
                (if n = 0 then [] else [case x of RetryAfter s \<Rightarrow> s | _ \<Rightarrow> retry_delay attempt]) @ ps)))"

definition send_response ::
  "(string \<Rightarrow> (string \<times> 'e list) list) \<Rightarrow> (nat \<Rightarrow> api_result) \<Rightarrow> channel_response \<Rightarrow> (exn + bool) \<times> 'e message list \<times> rat list" where
  "send_response render api r = send_loop api 1 max_attempts 0 (messages_of render r)"

section \<open>Polling\<close>

text \<open>
  The loop's state: the offset of the next request, the pause after an error, the updates
  dispatched so far.  A request gives updates or fails.
\<close>

record 'u poll_state =
  ps_offset :: "int option"
  ps_backoff :: rat
  ps_dispatched :: "(int \<times> 'u) list"

datatype 'u poll_result = Updates "(int \<times> 'u) list" | PollError

definition backoff_min :: rat where "backoff_min = 1"
definition backoff_max :: rat where "backoff_max = 60"
definition backoff_factor :: rat where "backoff_factor = 3 / 2"

definition poll_start :: "'u poll_state" where
  "poll_start = \<lparr>ps_offset = None, ps_backoff = backoff_min, ps_dispatched = []\<rparr>"

definition poll_once :: "'u poll_result \<Rightarrow> 'u poll_state \<Rightarrow> 'u poll_state" where
  "poll_once r s =
     (case r of
        PollError \<Rightarrow> s\<lparr>ps_backoff := min (ps_backoff s * backoff_factor) backoff_max\<rparr>
      | Updates us \<Rightarrow>
          fold (\<lambda>u s. s\<lparr>ps_offset := Some (fst u + 1), ps_dispatched := ps_dispatched s @ [u]\<rparr>) us
            (s\<lparr>ps_backoff := backoff_min\<rparr>))"

section \<open>Albums\<close>

text \<open>
  MediaGroupBuffer: the messages of each album with the time its timer runs out.  A timer that
  runs out hands the messages to the callback.
\<close>

record 'm media_buffer =
  mb_groups :: "(string \<times> 'm list \<times> time) list"
  mb_flushed :: "(string \<times> 'm list) list"

definition flush_delay :: time where "flush_delay = seconds 1"

definition mb_add :: "string \<Rightarrow> 'm \<Rightarrow> time \<Rightarrow> 'm media_buffer \<Rightarrow> 'm media_buffer" where
  "mb_add g m now s =
     s\<lparr>mb_groups := AList.update g ((case map_of (mb_groups s) g of Some (ms, _) \<Rightarrow> ms | None \<Rightarrow> []) @ [m], now + flush_delay) (mb_groups s)\<rparr>"

definition mb_timer :: "string \<Rightarrow> time \<Rightarrow> 'm media_buffer \<Rightarrow> 'm media_buffer" where
  "mb_timer g now s =
     (case map_of (mb_groups s) g of
        Some (ms, due) \<Rightarrow>
          if due \<le> now \<and> ms \<noteq> []
          then s\<lparr>mb_groups := AList.delete g (mb_groups s), mb_flushed := mb_flushed s @ [(g, ms)]\<rparr> else s
      | None \<Rightarrow> s)"

section \<open>Running turns\<close>

text \<open>CancellationRegistry: the running tasks of each session, without duplicates.\<close>

type_synonym registry = "(string \<times> nat list) list"

definition reg_tasks :: "registry \<Rightarrow> string \<Rightarrow> nat list" where
  "reg_tasks r sid = (case map_of r sid of Some ts \<Rightarrow> ts | None \<Rightarrow> [])"

definition reg_register :: "string \<Rightarrow> nat \<Rightarrow> registry \<Rightarrow> registry" where
  "reg_register sid t r = AList.update sid (List.insert t (reg_tasks r sid)) r"

definition reg_unregister :: "string \<Rightarrow> nat \<Rightarrow> registry \<Rightarrow> registry" where
  "reg_unregister sid t r =
     (case map_of r sid of
        None \<Rightarrow> r
      | Some ts \<Rightarrow> if removeAll t ts = [] then AList.delete sid r else AList.update sid (removeAll t ts) r)"

text \<open>task.cancel answers whether the task was still running; the tasks asked to stop.\<close>

definition reg_cancel :: "(nat \<Rightarrow> bool) \<Rightarrow> string \<Rightarrow> registry \<Rightarrow> bool \<times> nat list" where
  "reg_cancel running sid r = (list_ex running (reg_tasks r sid), reg_tasks r sid)"

text \<open>
  _dispatch_event: the event is handled, unless that raises or is cancelled, and the answer is
  sent.  A stop request is not tracked.
\<close>

datatype 'r handled = Answer "'r option" | Raised | Cancelled

definition dispatch_event ::
  "bool \<Rightarrow> 'r handled \<Rightarrow> string \<Rightarrow> nat \<Rightarrow> registry \<Rightarrow> registry \<times> registry \<times> 'r option" where
  "dispatch_event is_stop h sid t r =
     (let during = (if is_stop then r else reg_register sid t r);
          after = (if is_stop then r else reg_unregister sid t during)
      in (during, after, case h of Answer a \<Rightarrow> a | _ \<Rightarrow> None))"

section \<open>A reply arrives in order\<close>

lemma send_chunks_prefix:
  "send_chunks api k ms = (d, k', r) \<Longrightarrow>
     prefix d ms \<and> (\<forall>i < length d. api (k + i) = Sent) \<and>
     (case r of None \<Rightarrow> d = ms \<and> k' = k + length d
      | Some x \<Rightarrow> d \<noteq> ms \<and> x \<noteq> Sent \<and> api (k + length d) = x \<and> k' = Suc (k + length d))"
proof (induction api k ms arbitrary: d k' r rule: send_chunks.induct)
  case (2 api k m ms)
  show ?case
  proof (cases "api k")
    case Sent
    obtain d0 where d: "d = m # d0" "send_chunks api (Suc k) ms = (d0, k', r)"
      using 2(2) Sent by (auto split: prod.splits)
    have ih: "prefix d0 ms" "\<forall>i < length d0. api (Suc k + i) = Sent"
      "case r of None \<Rightarrow> d0 = ms \<and> k' = Suc k + length d0
       | Some x \<Rightarrow> d0 \<noteq> ms \<and> x \<noteq> Sent \<and> api (Suc k + length d0) = x \<and> k' = Suc (Suc k + length d0)"
      using 2(1)[OF Sent d(2)] by blast+
    have "\<forall>i < length d. api (k + i) = Sent"
      using ih(2) Sent by (auto simp: d(1) less_Suc_eq_0_disj)
    with ih(1,3) show ?thesis by (auto simp: d(1) split: option.splits)
  qed (use 2(2) in auto)
qed auto

text \<open>The calls of a stretch that fail.\<close>

definition failures :: "(nat \<Rightarrow> api_result) \<Rightarrow> nat \<Rightarrow> nat \<Rightarrow> nat" where
  "failures api a b = length (filter (\<lambda>i. api i \<noteq> Sent) [a..<b])"

lemma failures_split: "a \<le> c \<Longrightarrow> c < b \<Longrightarrow> api c \<noteq> Sent \<Longrightarrow> failures api (Suc c) b < failures api a b"
proof -
  assume "a \<le> c" "c < b" "api c \<noteq> Sent"
  then have "[a..<b] = [a..<c] @ c # [Suc c..<b]"
    by (metis upt_add_eq_append le_add_diff_inverse less_imp_le_nat upt_conv_Cons)
  with \<open>api c \<noteq> Sent\<close> show ?thesis by (simp add: failures_def)
qed

lemma send_loop_Suc:
  assumes "send_chunks api k rest = (d, k', Some x)" and "x \<noteq> Sent" and "x \<noteq> ApiError"
    and "send_loop api (Suc a) n k' (drop (length d) rest) = (res, d', ps')"
  shows "\<exists>ps. send_loop api a (Suc n) k rest = (res, d @ unanswered x (drop (length d) rest) @ d', ps) \<and>
     length ps = (if n = 0 then 0 else 1) + length ps'"
  using assms by (cases x) simp_all

lemma send_loop_prefix:
  "send_loop api a n k rest = (res, d, ps) \<Longrightarrow> 0 < n \<or> rest \<noteq> [] \<Longrightarrow>
     ((\<forall>i. api i \<noteq> NetworkError True) \<longrightarrow> prefix d rest \<and> (res = Inr True \<longleftrightarrow> d = rest)) \<and> length ps \<le> n - 1 \<and>
     (failures api k (k + length rest + n) < n \<and> (\<forall>i. api i \<noteq> ApiError) \<longrightarrow> res = Inr True)"
proof (induction n arbitrary: a k rest res d ps)
  case (Suc n)
  obtain d0 k0 r where c: "send_chunks api k rest = (d0, k0, r)" by (rule prod_cases3)
  note f = send_chunks_prefix[OF c]
  show ?case
  proof (cases r)
    case None
    then have "res = Inr True" "d = rest" "ps = []" using Suc.prems(1) f by (auto simp: c)
    then show ?thesis by simp
  next
    case (Some x)
    then have x: "d0 \<noteq> rest" "x \<noteq> Sent" "api (k + length d0) = x" "k0 = Suc (k + length d0)" "prefix d0 rest"
      using f by auto
    then have len: "length d0 < length rest" by (metis prefix_length_less prefix_order.le_less)
    show ?thesis
    proof (cases "x = ApiError")
      case True
      then have "res \<noteq> Inr True" "d = d0" "ps = []" using Suc.prems(1) by (auto simp: c Some)
      then show ?thesis using x True by auto
    next
      case False
      obtain res' d' ps' where l: "send_loop api (Suc a) n k0 (drop (length d0) rest) = (res', d', ps')"
        by (rule prod_cases3)
      have e: "res = res'" "d = d0 @ unanswered x (drop (length d0) rest) @ d'" "length ps = (if n = 0 then 0 else 1) + length ps'"
        using send_loop_Suc[OF c[unfolded Some] x(2) False l] Suc.prems(1) by auto
      from len have "0 < n \<or> drop (length d0) rest \<noteq> []" by simp
      from Suc.IH[OF l this]
      have ih: "(\<forall>i. api i \<noteq> NetworkError True) \<longrightarrow> prefix d' (drop (length d0) rest) \<and> (res' = Inr True \<longleftrightarrow> d' = drop (length d0) rest)"
        "length ps' \<le> n - 1"
        "failures api k0 (k0 + length (drop (length d0) rest) + n) < n \<and> (\<forall>i. api i \<noteq> ApiError) \<longrightarrow> res' = Inr True"
        by blast+
      obtain z where z: "rest = d0 @ z" using x(5) by (auto simp: prefix_def)
      have b: "k0 + length (drop (length d0) rest) + n = k + length rest + Suc n" using len x(4) by simp
      have "failures api k0 (k + length rest + Suc n) < failures api k (k + length rest + Suc n)"
        unfolding x(4) by (rule failures_split) (use len x in auto)
      then have "failures api k (k + length rest + Suc n) < Suc n \<Longrightarrow> failures api k0 (k0 + length (drop (length d0) rest) + n) < n"
        unfolding b by simp
      moreover have "prefix d rest \<and> (res = Inr True \<longleftrightarrow> d = rest)" if "\<forall>i. api i \<noteq> NetworkError True"
      proof -
        have "x \<noteq> NetworkError True" using that x(3) by blast
        then have "unanswered x (drop (length d0) rest) = []" by (simp add: unanswered_def split: api_result.split)
        then show ?thesis using ih(1) that by (simp add: z e(1,2))
      qed
      moreover have "length ps \<le> Suc n - 1" using e(3) ih(2) by (cases n) simp_all
      ultimately show ?thesis using ih(3) e(1) by blast
    qed
  qed
qed auto

text \<open>A chat in which the first messages of a reply arrived in order, each of them so often.\<close>

definition arrived_as :: "nat list \<Rightarrow> 'm list \<Rightarrow> 'm list \<Rightarrow> bool" where
  "arrived_as ns ms d \<longleftrightarrow> length ns \<le> length ms \<and> (\<forall>n \<in> set ns. 1 \<le> n) \<and> d = concat (map2 replicate ns ms)"

lemma arrived_once: "arrived_as (replicate (length d) 1) (d @ z) d"
  by (induction d) (simp_all add: arrived_as_def)

lemma arrived_append:
  assumes "arrived_as ns z d'"
  shows "arrived_as (replicate (length d) 1 @ ns) (d @ z) (d @ d')"
proof -
  have "concat (map2 replicate (replicate (length d) 1) d) = d" by (induction d) simp_all
  then show ?thesis using assms by (auto simp: arrived_as_def)
qed

lemma arrived_again:
  assumes "arrived_as ns ms d'" and "ms \<noteq> []"
  shows "\<exists>ns'. arrived_as ns' ms (take 1 ms @ d') \<and> length ns \<le> length ns' \<and> sum_list ns' + length ns \<le> sum_list ns + length ns' + 1 \<and>
    (ns = [] \<longrightarrow> sum_list ns' = length ns')"
proof -
  obtain m z where m: "ms = m # z" using assms(2) by (cases ms) auto
  show ?thesis
  proof (cases ns)
    case Nil
    then show ?thesis using assms(1) by (intro exI[of _ "[1]"]) (simp add: arrived_as_def m)
  next
    case (Cons n ns0)
    then show ?thesis using assms(1) by (intro exI[of _ "Suc n # ns0"]) (auto simp: arrived_as_def m)
  qed
qed

lemma unanswered_cases: "unanswered x rest = [] \<or> unanswered x rest = take 1 rest"
  by (simp add: unanswered_def split: api_result.split)

lemma send_loop_repeats:
  "send_loop api a n k rest = (res, d, ps) \<Longrightarrow>
     \<exists>ns. arrived_as ns rest d \<and> sum_list ns \<le> length ns + (n - 1) \<and> (res = Inr True \<longrightarrow> length ns = length rest)"
proof (induction n arbitrary: a k rest res d ps)
  case 0
  then show ?case by (intro exI[of _ "[]"]) (auto simp: arrived_as_def)
next
  case (Suc n)
  obtain d0 k0 r where c: "send_chunks api k rest = (d0, k0, r)" by (rule prod_cases3)
  note f = send_chunks_prefix[OF c]
  then obtain z where z: "rest = d0 @ z" by (auto simp: prefix_def)
  have one: "arrived_as (replicate (length d0) 1) rest d0" "sum_list (replicate (length d0) 1) = length d0"
    using arrived_once[of d0 z] by (simp_all add: z sum_list_replicate)
  show ?case
  proof (cases "r = None \<or> r = Some ApiError")
    case True
    then have "d = d0" "res = Inr True \<longrightarrow> d0 = rest" using Suc.prems f by (auto simp: c)
    with one show ?thesis by (intro exI[of _ "replicate (length d0) 1"]) auto
  next
    case False
    then obtain x where x: "r = Some x" "x \<noteq> ApiError" "x \<noteq> Sent" "z \<noteq> []" using f z by (cases r) auto
    obtain res' d' ps' where l: "send_loop api (Suc a) n k0 z = (res', d', ps')" by (rule prod_cases3)
    have e: "res = res'" "d = d0 @ unanswered x z @ d'"
      using send_loop_Suc[OF c[unfolded x(1)] x(3,2), of a n res' d' ps'] l Suc.prems by (auto simp: z)
    from Suc.IH[OF l] obtain ns where ns: "arrived_as ns z d'" "sum_list ns \<le> length ns + (n - 1)"
      "res' = Inr True \<longrightarrow> length ns = length z" by blast
    have "n = 0 \<Longrightarrow> ns = []"
    proof -
      assume "n = 0"
      then have "d' = []" using l by simp
      then show "ns = []" using ns(1) x(4) by (cases ns; cases z) (auto simp: arrived_as_def)
    qed
    moreover obtain ms where ms: "arrived_as ms z (unanswered x z @ d')" "length ns \<le> length ms"
      "sum_list ms + length ns \<le> sum_list ns + length ms + 1" "ns = [] \<longrightarrow> sum_list ms = length ms"
      using unanswered_cases[of x z] arrived_again[OF ns(1) x(4)] ns(1) by (cases "unanswered x z = []") auto
    ultimately have "sum_list ms \<le> length ms + n"
      using ns(2) by (cases n) (auto simp: arrived_as_def)
    moreover have "res = Inr True \<longrightarrow> length ms = length z" using ns(3) ms(1,2) e(1) by (auto simp: arrived_as_def)
    moreover have "arrived_as (replicate (length d0) 1 @ ms) rest d" using arrived_append[OF ms(1), of d0] by (simp add: z e(2))
    ultimately show ?thesis using one(2) by (intro exI[of _ "replicate (length d0) 1 @ ms"]) (simp add: z sum_list_replicate)
  qed
qed

lemma map_fst_enumerate: "map fst (map (\<lambda>(i, (s, es)). (s, f i s es)) (enumerate n xs)) = map fst xs"
  by (induction xs arbitrary: n) auto

lemma fst_messages_of:
  "map fst (messages_of render r) =
     map fst (if cr_parse r = None then render (cr_text r) else map (\<lambda>s. (s, [])) (split_text (cr_text r)))"
  unfolding messages_of_def Let_def by (rule map_fst_enumerate)

text \<open>
  C31: a reply is delivered in order and nothing of it is left out.  However the calls to
  Telegram fail, the messages that arrive in the chat are the first ones of the reply, in its
  order, each at least once; all of them if send answers True.  A message arrives again only
  when a call failed although it had arrived, which happens at most twice in a send; when no call
  does that, every message arrives at most once, and send answers True exactly if all arrived.
  At most three attempts are made, with at most two pauses; if no call is refused as invalid and
  fewer than three of the calls fail, send answers True.  Without markdown rendering the parts
  together are the text, none is empty unless the text is, and none is longer than Telegram
  accepts.
\<close>

theorem reply_delivered_in_order:
  assumes "send_response render api r = (res, d, ps)"
  shows "(\<exists>ns. d = concat (map2 replicate ns (messages_of render r)) \<and> length ns \<le> length (messages_of render r) \<and>
       (\<forall>n \<in> set ns. 1 \<le> n) \<and> sum_list ns \<le> length ns + 2 \<and> (res = Inr True \<longrightarrow> length ns = length (messages_of render r))) \<and>
    ((\<forall>i. api i \<noteq> NetworkError True) \<longrightarrow>
       prefix d (messages_of render r) \<and> (res = Inr True \<longleftrightarrow> d = messages_of render r)) \<and> length ps \<le> 2 \<and>
    (failures api 0 (length (messages_of render r) + 3) < 3 \<and> (\<forall>i. api i \<noteq> ApiError) \<longrightarrow> res = Inr True) \<and>
    (cr_parse r \<noteq> None \<longrightarrow> concat (map fst (messages_of render r)) = cr_text r \<and>
       (\<forall>m \<in> set (messages_of render r). length (fst m) \<le> 4096 \<and> (fst m = [] \<longrightarrow> cr_text r = [])))"
proof -
  have l: "send_loop api 1 3 0 (messages_of render r) = (res, d, ps)" using assms by (simp add: send_response_def max_attempts_def)
  have loop: "((\<forall>i. api i \<noteq> NetworkError True) \<longrightarrow>
       prefix d (messages_of render r) \<and> (res = Inr True \<longleftrightarrow> d = messages_of render r)) \<and> length ps \<le> 3 - 1 \<and>
    (failures api 0 (0 + length (messages_of render r) + 3) < 3 \<and> (\<forall>i. api i \<noteq> ApiError) \<longrightarrow> res = Inr True)"
    using l by (rule send_loop_prefix) simp
  have "\<exists>ns. arrived_as ns (messages_of render r) d \<and> sum_list ns \<le> length ns + (3 - 1) \<and>
      (res = Inr True \<longrightarrow> length ns = length (messages_of render r))"
    using l by (rule send_loop_repeats)
  then have arrived: "\<exists>ns. d = concat (map2 replicate ns (messages_of render r)) \<and> length ns \<le> length (messages_of render r) \<and>
       (\<forall>n \<in> set ns. 1 \<le> n) \<and> sum_list ns \<le> length ns + 2 \<and> (res = Inr True \<longrightarrow> length ns = length (messages_of render r))"
    by (simp add: arrived_as_def) blast
  have "concat (map fst (messages_of render r)) = cr_text r \<and>
       (\<forall>m \<in> set (messages_of render r). length (fst m) \<le> 4096 \<and> (fst m = [] \<longrightarrow> cr_text r = []))" if "cr_parse r \<noteq> None"
  proof -
    have m: "map fst (messages_of render r) = split_text (cr_text r)"
      using that unfolding fst_messages_of by (cases "cr_parse r") (simp_all add: comp_def)
    have s: "concat (split_text (cr_text r)) = cr_text r" "\<forall>c \<in> set (split_text (cr_text r)). length c \<le> 4096 \<and> (c = [] \<longrightarrow> cr_text r = [])"
      using split_chunks_ok[of 4096 "cr_text r"] by (auto simp: split_text_def max_message_length_def)
    have "fst x \<in> set (split_text (cr_text r))" if "x \<in> set (messages_of render r)" for x
      using that by (metis list.set_map imageI m)
    then show ?thesis using s m by metis
  qed
  with loop arrived show ?thesis by simp
qed

definition demo_response :: channel_response where
  "demo_response = \<lparr>cr_session = ''s'', cr_interactive = False, cr_text = ''hi'', cr_parse = Some ''Markdown'', cr_ui = None, cr_actions = []\<rparr>"

definition demo_api :: "nat \<Rightarrow> api_result" where
  "demo_api n = (if n = 0 then NetworkError True else if n = 1 then RetryAfter 5 else Sent)"

lemma demo_sent:
  "send_response (\<lambda>_. []) demo_api demo_response =
     (Inr True, [(''hi'', [] :: nat list, Some ''Markdown'', None), (''hi'', [], Some ''Markdown'', None)], [2, 5])"
  by code_simp

theorem reply_delivered_in_order_witness:
  "\<exists>ns. [(''hi'', [] :: nat list, Some ''Markdown'', None), (''hi'', [], Some ''Markdown'', None)] =
     concat (map2 replicate ns (messages_of (\<lambda>_. []) demo_response)) \<and> sum_list ns \<le> length ns + 2"
  using reply_delivered_in_order[OF demo_sent] by blast

section \<open>Every update is dispatched once\<close>

text \<open>
  What Telegram documents of getUpdates: the updates, at most a hundred, that are visible and
  whose id is not below the offset, in the order of their ids.
\<close>

definition visible :: "(int \<times> 'u) list \<Rightarrow> nat \<Rightarrow> int option \<Rightarrow> nat \<Rightarrow> (int \<times> 'u) list" where
  "visible q v off m = take m (filter (\<lambda>u. case off of None \<Rightarrow> True | Some n \<Rightarrow> n \<le> fst u) (take v q))"

inductive poll_step :: "(int \<times> 'u) list \<Rightarrow> 'u poll_state \<Rightarrow> 'u poll_state \<Rightarrow> bool" for q where
  failed: "poll_step q s (poll_once PollError s)"
| got: "m \<le> 100 \<Longrightarrow> poll_step q s (poll_once (Updates (visible q v (ps_offset s) m)) s)"

inductive_cases poll_step_E: "poll_step q s s'"

abbreviation poll_steps :: "(int \<times> 'u) list \<Rightarrow> 'u poll_state \<Rightarrow> 'u poll_state \<Rightarrow> bool" where
  "poll_steps q \<equiv> (poll_step q)\<^sup>*\<^sup>*"

definition poll_ok :: "(int \<times> 'u) list \<Rightarrow> 'u poll_state \<Rightarrow> bool" where
  "poll_ok q s =
     ((\<exists>n \<le> length q. ps_dispatched s = take n q \<and> ps_offset s = (if n = 0 then None else Some (fst (q ! (n - 1)) + 1))) \<and>
      1 \<le> ps_backoff s \<and> ps_backoff s \<le> 60)"

lemma fold_dispatch:
  "ps_dispatched (fold (\<lambda>u s. s\<lparr>ps_offset := Some (fst u + 1), ps_dispatched := ps_dispatched s @ [u]\<rparr>) us s) = ps_dispatched s @ us"
  "ps_offset (fold (\<lambda>u s. s\<lparr>ps_offset := Some (fst u + 1), ps_dispatched := ps_dispatched s @ [u]\<rparr>) us s) =
     (if us = [] then ps_offset s else Some (fst (last us) + 1))"
  "ps_backoff (fold (\<lambda>u s. s\<lparr>ps_offset := Some (fst u + 1), ps_dispatched := ps_dispatched s @ [u]\<rparr>) us s) = ps_backoff s"
  by (induction us arbitrary: s) auto

lemma visible_rest:
  assumes "sorted_wrt (<) (map fst q)" and "n \<le> length q"
  shows "visible q v (if n = 0 then None else Some (fst (q ! (n - 1)) + 1)) m = take m (drop n (take v q))"
proof (cases "n = 0")
  case False
  let ?P = "\<lambda>u. fst (q ! (n - 1)) + 1 \<le> fst u"
  have lt: "fst (q ! i) < fst (q ! j)" if "i < j" "j < length q" for i j
    using assms(1) that by (simp add: sorted_wrt_iff_nth_less)
  have "filter ?P (take v q) = filter ?P (take n (take v q)) @ filter ?P (drop n (take v q))"
    by (metis append_take_drop_id filter_append)
  moreover have "filter ?P (take n (take v q)) = []"
  proof -
    have "\<not> ?P (q ! i)" if "i < n" "i < length q" for i
    proof -
      have n: "n - 1 < length q" using assms(2) False by simp
      show ?thesis
      proof (cases "i = n - 1")
        case False
        then have "i < n - 1" using that(1) by linarith
        from lt[OF this n] show ?thesis by simp
      qed simp
    qed
    then show ?thesis by (fastforce simp: filter_empty_conv in_set_conv_nth)
  qed
  moreover have "filter ?P (drop n (take v q)) = drop n (take v q)"
  proof -
    have later: "?P (q ! (n + i))" if "n + i < length q" for i
    proof -
      have "n - 1 < n + i" using False by linarith
      from lt[OF this that] show ?thesis by simp
    qed
    have "?P x" if "x \<in> set (drop n (take v q))" for x
    proof -
      obtain i where i: "i < length (drop n (take v q))" "x = drop n (take v q) ! i"
        using \<open>x \<in> _\<close> by (metis in_set_conv_nth)
      then have "n + i < length q" "n + i < v" by auto
      with i(2) have "x = q ! (n + i)" by (simp add: drop_take)
      with \<open>n + i < length q\<close> later have "?P x" by blast
      then show ?thesis .
    qed
    then show ?thesis by (simp add: filter_id_conv)
  qed
  ultimately show ?thesis using False by (simp add: visible_def)
qed (simp add: visible_def)

lemma poll_step_ok:
  assumes "poll_step q s s'" and "poll_ok q s" and "sorted_wrt (<) (map fst q)"
  shows "poll_ok q s'"
  using assms(1)
proof cases
  case failed
  then show ?thesis using assms(2)
    by (auto simp: poll_ok_def poll_once_def backoff_factor_def backoff_max_def)
next
  case (got m v)
  obtain n where n: "n \<le> length q" "ps_dispatched s = take n q" "ps_offset s = (if n = 0 then None else Some (fst (q ! (n - 1)) + 1))"
    using assms(2) by (auto simp: poll_ok_def)
  define us where "us = take m (drop n (take v q))"
  have v: "visible q v (ps_offset s) m = us" unfolding n(3) us_def by (rule visible_rest) (use assms(3) n(1) in auto)
  have us: "us = take (length us) (drop n q)"
    by (simp add: us_def drop_take min_def)
  then have disp: "take n q @ us = take (n + length us) q" by (metis take_add)
  have len: "n + length us \<le> length q" using n(1) by (simp add: us_def)
  have last: "last us = q ! (n + length us - 1)" if "us \<noteq> []"
  proof -
    have "last us = us ! (length us - 1)" using that by (rule last_conv_nth)
    also have "\<dots> = drop n q ! (length us - 1)" using that by (subst us) simp
    finally show ?thesis using n(1) that by (cases us) simp_all
  qed
  have s': "s' = poll_once (Updates us) s" using got v by simp
  have "ps_dispatched s' = take (n + length us) q" "ps_backoff s' = 1"
    "ps_offset s' = (if us = [] then ps_offset s else Some (fst (last us) + 1))"
    using n(2) disp by (simp_all add: s' poll_once_def fold_dispatch backoff_min_def)
  then show ?thesis
    using len last n(3) unfolding poll_ok_def by (intro conjI exI[of _ "n + length us"]) auto
qed

lemma poll_steps_ok:
  "poll_steps q s s' \<Longrightarrow> poll_ok q s \<Longrightarrow> sorted_wrt (<) (map fst q) \<Longrightarrow> poll_ok q s'"
  by (induction rule: rtranclp_induct) (auto intro: poll_step_ok)

text \<open>
  C32: polling neither skips nor repeats an update.  Telegram numbers the updates of the bot
  in ascending order.  However many polls fail and however many updates each of them
  gives, the updates dispatched since the start are the first ones of the sequence, in
  order, each once, and the next request asks for the one after them; the pause after a
  failed poll lies between 1 and 60 seconds.
\<close>

theorem updates_dispatched_once:
  assumes "sorted_wrt (<) (map fst q)" and "poll_steps q poll_start s"
  shows "\<exists>n \<le> length q. ps_dispatched s = take n q \<and> ps_offset s = (if n = 0 then None else Some (fst (q ! (n - 1)) + 1)) \<and>
    1 \<le> ps_backoff s \<and> ps_backoff s \<le> 60"
proof -
  have "poll_ok q poll_start" by (simp add: poll_ok_def poll_start_def backoff_min_def)
  with assms have "poll_ok q s" by (blast intro: poll_steps_ok)
  then show ?thesis unfolding poll_ok_def by blast
qed

theorem updates_dispatched_once_witness:
  "\<exists>n \<le> 2. ps_dispatched (poll_once (Updates [(5, ''b'')]) (poll_once PollError (poll_once (Updates [(3, ''a'')]) poll_start)))
     = take n [(3, ''a''), (5, ''b'')]"
proof -
  let ?q = "[(3, ''a''), (5, ''b'')] :: (int \<times> string) list"
  let ?s1 = "poll_once (Updates [(3, ''a'')]) poll_start" and ?s2 = "poll_once PollError (poll_once (Updates [(3, ''a'')]) poll_start)"
  have v: "visible ?q 1 (ps_offset poll_start) 100 = [(3, ''a'')]" "visible ?q 2 (ps_offset ?s2) 100 = [(5, ''b'')]"
    by (simp_all add: visible_def poll_start_def poll_once_def)
  have "poll_step ?q poll_start ?s1" using poll_step.got[of 100 ?q poll_start 1] by (simp only: v(1) order_refl simp_thms)
  moreover have "poll_step ?q ?s1 ?s2" by (rule poll_step.failed)
  moreover have "poll_step ?q ?s2 (poll_once (Updates [(5, ''b'')]) ?s2)" using poll_step.got[of 100 ?q ?s2 2] by (simp only: v(2) order_refl simp_thms)
  ultimately have s: "poll_steps ?q poll_start (poll_once (Updates [(5, ''b'')]) ?s2)"
    by (blast intro: converse_rtranclp_into_rtranclp)
  have "sorted_wrt (<) (map fst ?q)" by simp
  from updates_dispatched_once[OF this s] obtain n where n: "n \<le> length ?q"
    "ps_dispatched (poll_once (Updates [(5, ''b'')]) ?s2) = take n ?q" by blast
  show ?thesis by (rule exI[of _ n]) (use n in simp)
qed

end
