(* ===== verification/Telegram_Callbacks.thy ===== *)
theory Telegram_Callbacks
  imports Py_Text
begin

text \<open>
  The signed callbacks of the Telegram buttons: session_resume_callbacks.py,
  memory_confirmation_callbacks.py, ask_question_callbacks.py, capability_select_callbacks.py,
  model_select_callbacks.py and task_callbacks.py under channels/telegram.  The hexadecimal
  HMAC digest of a message under a secret is a parameter; the clock is in microseconds.
\<close>

section \<open>Signing and verifying\<close>

type_synonym hmac = "string \<Rightarrow> string \<Rightarrow> string"

definition sig_length :: nat where "sig_length = 12"

definition callback_ttl_seconds :: int where "callback_ttl_seconds = 3600"

abbreviation fields :: "string \<Rightarrow> string \<Rightarrow> string" where
  "fields a b \<equiv> a @ colon # b"

definition callback_message :: "int \<Rightarrow> string \<Rightarrow> string \<Rightarrow> string" where
  "callback_message chat token ts = fields (show_int chat) (fields token ts)"

definition callback_signature :: "hmac \<Rightarrow> string \<Rightarrow> int \<Rightarrow> string \<Rightarrow> string \<Rightarrow> string" where
  "callback_signature h secret chat token ts = take sig_length (h secret (callback_message chat token ts))"

definition timestamp_of :: "time \<Rightarrow> int" where
  "timestamp_of now = now div seconds 1"

definition sign_compact :: "hmac \<Rightarrow> string \<Rightarrow> string \<Rightarrow> int \<Rightarrow> string \<Rightarrow> time \<Rightarrow> string" where
  "sign_compact h action token chat secret now =
     (let ts = show_hex (timestamp_of now)
      in fields action (fields token (fields ts (callback_signature h secret chat token ts))))"

text \<open>hmac.compare_digest raises a TypeError for text beyond ASCII.\<close>

definition compare_digest :: "string \<Rightarrow> string \<Rightarrow> (exn + bool)" where
  "compare_digest a b =
     (if list_ex (\<lambda>c. code c \<ge> 128) (a @ b) then Inl (OtherError ''TypeError'') else Inr (a = b))"

definition in_time :: "string \<Rightarrow> time \<Rightarrow> bool" where
  "in_time ts now =
     (case py_int 16 ts of None \<Rightarrow> False
      | Some t \<Rightarrow> 0 \<le> timestamp_of now - t \<and> timestamp_of now - t \<le> callback_ttl_seconds)"

definition verify_compact :: "hmac \<Rightarrow> string \<Rightarrow> string \<Rightarrow> int \<Rightarrow> string \<Rightarrow> time \<Rightarrow> (exn + string option)" where
  "verify_compact h action callback chat secret now =
     (case rpartition_on colon callback of (without_sig, sig) \<Rightarrow>
        if without_sig = [] \<or> sig = [] then Inr None
        else (case rpartition_on colon without_sig of (without_ts, ts) \<Rightarrow>
                if without_ts = [] \<or> ts = [] then Inr None
                else (case partition_on colon without_ts of (a, token) \<Rightarrow>
                        if a \<noteq> action \<or> token = [] then Inr None
                        else if \<not> in_time ts now then Inr None
                        else (case compare_digest sig (callback_signature h secret chat token ts) of
                                Inl x \<Rightarrow> Inl x
                              | Inr ok \<Rightarrow> Inr (if ok then Some token else None)))))"

text \<open>The five kinds with one token; a task callback has an id and an action.\<close>

definition sign_resume_callback :: "hmac \<Rightarrow> string \<Rightarrow> int \<Rightarrow> string \<Rightarrow> time \<Rightarrow> string" where
  "sign_resume_callback h = sign_compact h ''rs''"

definition verify_resume_callback :: "hmac \<Rightarrow> string \<Rightarrow> int \<Rightarrow> string \<Rightarrow> time \<Rightarrow> (exn + string option)" where
  "verify_resume_callback h = verify_compact h ''rs''"

definition sign_memory_confirmation_callback :: "hmac \<Rightarrow> string \<Rightarrow> int \<Rightarrow> string \<Rightarrow> time \<Rightarrow> string" where
  "sign_memory_confirmation_callback h = sign_compact h ''mc''"

definition verify_memory_confirmation_callback :: "hmac \<Rightarrow> string \<Rightarrow> int \<Rightarrow> string \<Rightarrow> time \<Rightarrow> (exn + string option)" where
  "verify_memory_confirmation_callback h = verify_compact h ''mc''"

definition sign_ask_question_callback :: "hmac \<Rightarrow> string \<Rightarrow> int \<Rightarrow> string \<Rightarrow> time \<Rightarrow> string" where
  "sign_ask_question_callback h = sign_compact h ''aq''"

definition verify_ask_question_callback :: "hmac \<Rightarrow> string \<Rightarrow> int \<Rightarrow> string \<Rightarrow> time \<Rightarrow> (exn + string option)" where
  "verify_ask_question_callback h = verify_compact h ''aq''"

definition sign_capability_callback :: "hmac \<Rightarrow> string \<Rightarrow> int \<Rightarrow> string \<Rightarrow> time \<Rightarrow> string" where
  "sign_capability_callback h = sign_compact h ''cs''"

definition verify_capability_callback :: "hmac \<Rightarrow> string \<Rightarrow> int \<Rightarrow> string \<Rightarrow> time \<Rightarrow> (exn + string option)" where
  "verify_capability_callback h = verify_compact h ''cs''"

definition sign_model_callback :: "hmac \<Rightarrow> string \<Rightarrow> int \<Rightarrow> string \<Rightarrow> time \<Rightarrow> string" where
  "sign_model_callback h = sign_compact h ''ms''"

definition verify_model_callback :: "hmac \<Rightarrow> string \<Rightarrow> int \<Rightarrow> string \<Rightarrow> time \<Rightarrow> (exn + string option)" where
  "verify_model_callback h = verify_compact h ''ms''"

definition sign_task_callback :: "hmac \<Rightarrow> string \<Rightarrow> string \<Rightarrow> int \<Rightarrow> string \<Rightarrow> time \<Rightarrow> string" where
  "sign_task_callback h task action chat secret now =
     (let ts = show_hex (timestamp_of now)
      in fields ''tk'' (fields task (fields action (fields ts (callback_signature h secret chat (fields task action) ts)))))"

definition verify_task_callback :: "hmac \<Rightarrow> string \<Rightarrow> int \<Rightarrow> string \<Rightarrow> time \<Rightarrow> (exn + (string \<times> string) option)" where
  "verify_task_callback h callback chat secret now =
     (case split_on colon callback of
        [prfx, task, action, ts, sig] \<Rightarrow>
          if prfx \<noteq> ''tk'' \<or> task = [] \<or> action = [] \<or> \<not> in_time ts now then Inr None
          else (case compare_digest sig (callback_signature h secret chat (fields task action) ts) of
                  Inl x \<Rightarrow> Inl x
                | Inr ok \<Rightarrow> Inr (if ok then Some (task, action) else None))
      | _ \<Rightarrow> Inr None)"

section \<open>What a signature covers\<close>

lemma fields_inj:
  "colon \<notin> set a \<Longrightarrow> colon \<notin> set a' \<Longrightarrow> fields a b = fields a' b' \<longleftrightarrow> a = a' \<and> b = b'"
  by (metis partition_on_append prod.inject)

text \<open>The signed text determines the chat, the token and the time.\<close>

lemma callback_message_inj:
  assumes "colon \<notin> set ts" and "colon \<notin> set ts'"
  shows "callback_message chat token ts = callback_message chat' token' ts' \<longleftrightarrow> chat = chat' \<and> token = token' \<and> ts = ts'"
proof
  assume "callback_message chat token ts = callback_message chat' token' ts'"
  then have "show_int chat = show_int chat'" and f: "fields token ts = fields token' ts'"
    unfolding callback_message_def using fields_inj[OF colon_notin_show_int colon_notin_show_int] by blast+
  moreover have "(token, ts) = (token', ts')"
    using rpartition_on_append[OF assms(1), of token] rpartition_on_append[OF assms(2), of token'] unfolding f by (rule subst)
  ultimately show "chat = chat' \<and> token = token' \<and> ts = ts'" unfolding show_int_inj by blast
qed simp

text \<open>
  What is known of the digest: 64 hexadecimal digits.  Nothing else about it is assumed.
\<close>

definition hex_digest :: "hmac \<Rightarrow> bool" where
  "hex_digest h =
     (\<forall>k m. length (h k m) = 64 \<and> (\<forall>c \<in> set (h k m). ascii_digit c \<or> c \<in> {CHR ''a'', CHR ''b'', CHR ''c'', CHR ''d'', CHR ''e'', CHR ''f''}))"

lemma signature_facts:
  assumes "hex_digest h"
  shows "callback_signature h secret chat token ts \<noteq> []" "colon \<notin> set (callback_signature h secret chat token ts)"
    "\<not> list_ex (\<lambda>c. code c \<ge> 128) (callback_signature h secret chat token ts)"
proof -
  let ?m = "h secret (callback_message chat token ts)"
  have digits: "code c < 128 \<and> c \<noteq> colon" if "c \<in> set ?m" for c
  proof -
    have "ascii_digit c \<or> c \<in> {CHR ''a'', CHR ''b'', CHR ''c'', CHR ''d'', CHR ''e'', CHR ''f''}"
      using assms that unfolding hex_digest_def by blast
    then show ?thesis by (auto simp: ascii_digit_def code_def)
  qed
  have "length ?m = 64" using assms by (simp add: hex_digest_def)
  then show "callback_signature h secret chat token ts \<noteq> []" by (auto simp: callback_signature_def sig_length_def)
  show "colon \<notin> set (callback_signature h secret chat token ts)"
    using digits by (auto simp: callback_signature_def dest: in_set_takeD)
  show "\<not> list_ex (\<lambda>c. code c \<ge> 128) (callback_signature h secret chat token ts)"
    using digits by (fastforce simp: callback_signature_def list_ex_iff dest: in_set_takeD)
qed

text \<open>verify_compact reads the four fields from the right end and the left end.\<close>

lemma verify_fields:
  assumes "colon \<notin> set ts" and "colon \<notin> set sig" and "colon \<notin> set action"
    and "ts \<noteq> []" and "sig \<noteq> []" and "token \<noteq> []"
  shows "verify_compact h action (fields action (fields token (fields ts sig))) chat secret now =
    (if \<not> in_time ts now then Inr None
     else case compare_digest sig (callback_signature h secret chat token ts) of
            Inl x \<Rightarrow> Inl x | Inr ok \<Rightarrow> Inr (if ok then Some token else None))"
proof -
  have 1: "rpartition_on colon (fields action (fields token (fields ts sig))) = (fields action (fields token ts), sig)"
    using rpartition_on_append[OF assms(2), of "fields action (fields token ts)"] by simp
  have 2: "rpartition_on colon (fields action (fields token ts)) = (fields action token, ts)"
    using rpartition_on_append[OF assms(1), of "fields action token"] by simp
  show ?thesis
    unfolding verify_compact_def 1 prod.case 2 partition_on_append[OF assms(3)] using assms(4-6) by simp
qed

lemma verify_compact_fields:
  assumes "verify_compact h action data chat secret now = Inr (Some token)"
  obtains ts where "data = fields action (fields token (fields ts (callback_signature h secret chat token ts)))"
    "colon \<notin> set ts" "ts \<noteq> []" "in_time ts now" "token \<noteq> []"
    "callback_signature h secret chat token ts \<noteq> []" "colon \<notin> set (callback_signature h secret chat token ts)"
proof -
  obtain ws sig where 1: "rpartition_on colon data = (ws, sig)" by fastforce
  obtain wt ts where 2: "rpartition_on colon ws = (wt, ts)" by fastforce
  obtain a tok where 3: "partition_on colon wt = (a, tok)" by fastforce
  from assms have c: "ws \<noteq> []" "sig \<noteq> []" "wt \<noteq> []" "ts \<noteq> []" "a = action" "tok \<noteq> []" "tok = token" "in_time ts now"
    "sig = callback_signature h secret chat token ts"
    by (auto simp: verify_compact_def 1 2 3 compare_digest_def split: if_splits sum.splits)
  from rpartition_on_eqD[OF 1 c(1)] rpartition_on_eqD[OF 2 c(3)] partition_on_eqD[OF 3 c(6)]
  show ?thesis using that[of ts] c by simp
qed

text \<open>
  C28: a signed button works for the chat it was made for, in time, and says what was
  signed.  A callback signed for a chat verifies in that chat, as the token it was signed with,
  exactly while it is not older than an hour (and not from the future).  Conversely, whatever
  data verifies in a chat carries the truncated digest of the text that consists of this chat,
  the token and a time within the last hour, and such a text stands for no other chat, token or
  time.
\<close>

theorem callback_bound_to_chat:
  assumes "hex_digest h" and "colon \<notin> set action" and "token \<noteq> []" and "0 \<le> now"
  shows "verify_compact h action (sign_compact h action token chat secret now) chat secret later =
      Inr (if 0 \<le> timestamp_of later - timestamp_of now \<and> timestamp_of later - timestamp_of now \<le> callback_ttl_seconds
           then Some token else None) \<and>
    (verify_compact h action data chat' secret later = Inr (Some token') \<longrightarrow>
      (\<exists>ts. data = fields action (fields token' (fields ts (callback_signature h secret chat' token' ts))) \<and> in_time ts later \<and>
        (\<forall>chat'' token'' ts''. colon \<notin> set ts'' \<and> callback_message chat'' token'' ts'' = callback_message chat' token' ts \<longrightarrow>
           chat'' = chat' \<and> token'' = token' \<and> ts'' = ts)))"
proof (intro conjI impI)
  let ?ts = "show_hex (timestamp_of now)" and ?sig = "callback_signature h secret chat token (show_hex (timestamp_of now))"
  have "0 \<le> timestamp_of now" using assms(4) by (simp add: timestamp_of_def)
  then have time: "in_time ?ts later \<longleftrightarrow> 0 \<le> timestamp_of later - timestamp_of now \<and> timestamp_of later - timestamp_of now \<le> callback_ttl_seconds"
    by (simp add: in_time_def py_int_show_hex)
  have "compare_digest ?sig ?sig = Inr True"
    using signature_facts(3)[OF assms(1)] by (simp add: compare_digest_def)
  then show "verify_compact h action (sign_compact h action token chat secret now) chat secret later =
      Inr (if 0 \<le> timestamp_of later - timestamp_of now \<and> timestamp_of later - timestamp_of now \<le> callback_ttl_seconds
           then Some token else None)"
    unfolding sign_compact_def Let_def time[symmetric]
    by (subst verify_fields) (use assms(2,3) signature_facts[OF assms(1)] in auto)
next
  assume "verify_compact h action data chat' secret later = Inr (Some token')"
  then obtain ts where "data = fields action (fields token' (fields ts (callback_signature h secret chat' token' ts)))"
    "colon \<notin> set ts" "in_time ts later"
    by (rule verify_compact_fields)
  then show "\<exists>ts. data = fields action (fields token' (fields ts (callback_signature h secret chat' token' ts))) \<and> in_time ts later \<and>
      (\<forall>chat'' token'' ts''. colon \<notin> set ts'' \<and> callback_message chat'' token'' ts'' = callback_message chat' token' ts \<longrightarrow>
         chat'' = chat' \<and> token'' = token' \<and> ts'' = ts)"
    using callback_message_inj by blast
qed

text \<open>
  The kind of a button is not signed: the token, time and signature of a callback of one kind
  are accepted for every other kind with the same secret.
\<close>

lemma callback_kinds_interchange:
  assumes "verify_compact h a (fields a rest) chat secret now = Inr (Some token)" and "colon \<notin> set a" and "colon \<notin> set b"
  shows "verify_compact h b (fields b rest) chat secret now = Inr (Some token)"
proof -
  obtain ts where ts: "fields a rest = fields a (fields token (fields ts (callback_signature h secret chat token ts)))"
    "colon \<notin> set ts" "ts \<noteq> []" "in_time ts now" "token \<noteq> []"
    "callback_signature h secret chat token ts \<noteq> []" "colon \<notin> set (callback_signature h secret chat token ts)"
    using verify_compact_fields[OF assms(1)] by metis
  then have rest: "rest = fields token (fields ts (callback_signature h secret chat token ts))" by simp
  show ?thesis
    using assms(1) unfolding rest verify_fields[OF ts(2,7) assms(2) ts(3,6,5)] verify_fields[OF ts(2,7) assms(3) ts(3,6,5)] .
qed

text \<open>A task callback verifies in its chat; ids and actions without a colon come back.\<close>

lemma task_callback_roundtrip:
  assumes "hex_digest h" and "colon \<notin> set task" and "task \<noteq> []" and "colon \<notin> set action" and "action \<noteq> []" and "0 \<le> now"
    and "0 \<le> timestamp_of later - timestamp_of now" and "timestamp_of later - timestamp_of now \<le> callback_ttl_seconds"
  shows "verify_task_callback h (sign_task_callback h task action chat secret now) chat secret later = Inr (Some (task, action))"
proof -
  let ?ts = "show_hex (timestamp_of now)"
  let ?sig = "callback_signature h secret chat (fields task action) ?ts"
  have time: "in_time ?ts later" using assms(6-8) by (simp add: in_time_def py_int_show_hex timestamp_of_def)
  have "compare_digest ?sig ?sig = Inr True"
    using signature_facts(3)[OF assms(1)] by (simp add: compare_digest_def)
  moreover have "split_on colon (sign_task_callback h task action chat secret now) = [''tk'', task, action, ?ts, ?sig]"
    unfolding sign_task_callback_def Let_def
    using assms(2,4) signature_facts(2)[OF assms(1)] by (simp add: split_on_append)
  ultimately show ?thesis using assms(3,5) time by (simp add: verify_task_callback_def)
qed

text \<open>A callback of one kind does not verify as it stands for another.\<close>

lemma verify_other_kind:
  assumes "hex_digest h" and "colon \<notin> set a" and "a \<noteq> b"
  shows "verify_compact h b (sign_compact h a tok chat secret made) chat' secret' now = Inr None"
proof -
  let ?ts = "show_hex (timestamp_of made)" and ?sig = "callback_signature h secret chat tok (show_hex (timestamp_of made))"
  have 1: "rpartition_on colon (fields a (fields tok (fields ?ts ?sig))) = (fields a (fields tok ?ts), ?sig)"
    using rpartition_on_append[OF signature_facts(2)[OF assms(1)], of "fields a (fields tok ?ts)"] by simp
  have 2: "rpartition_on colon (fields a (fields tok ?ts)) = (fields a tok, ?ts)"
    using rpartition_on_append[OF colon_notin_show_hex, of "fields a tok"] by simp
  show ?thesis
    unfolding verify_compact_def sign_compact_def Let_def 1 prod.case 2 partition_on_append[OF assms(2)] using assms(3) by simp
qed

definition demo_hmac :: hmac where
  "demo_hmac secret m = replicate 64 (CHR ''a'')"

lemma demo_hmac_hex: "hex_digest demo_hmac"
  by (simp add: hex_digest_def demo_hmac_def)

theorem callback_bound_to_chat_witness:
  "verify_compact demo_hmac ''rs'' (sign_compact demo_hmac ''rs'' ''tg:5'' 5 ''k'' (seconds 100)) 5 ''k'' (seconds 3700) =
     Inr (Some ''tg:5'')"
proof -
  have "colon \<notin> set ''rs''" "''tg:5'' \<noteq> ([] :: string)" "(0 :: int) \<le> seconds 100" by simp_all
  from callback_bound_to_chat[OF demo_hmac_hex this, of 5 "''k''" "seconds 3700"]
  show ?thesis by (simp add: timestamp_of_def callback_ttl_seconds_def)
qed

end
