(* ===== verification/Telegram_Adapter.thy ===== *)
theory Telegram_Adapter
  imports Telegram_Callbacks Telegram_Delivery Session_Lifecycle
begin

text \<open>
  The Telegram adapter: adapter.py, commands.py, session_resume.py, session_resume_labels.py,
  model_select.py, capability_select_service.py and verbose_state.py under channels/telegram.
  HMAC, fresh hexadecimal names, strftime, str of a value and the two characters beyond Latin-1
  (the check mark with its space, the dash) are parameters; the clock is a function of the
  number of readings of one operation.  Audit logging is left out.
\<close>

section \<open>Commands\<close>

datatype telegram_command =
    CmdNew | CmdReset | CmdCompact | CmdSessions | CmdModel | CmdCapabilities | CmdUsage | CmdStop | CmdVerbose

definition all_commands :: "telegram_command list" where
  "all_commands = [CmdNew, CmdReset, CmdCompact, CmdSessions, CmdModel, CmdCapabilities, CmdUsage, CmdStop, CmdVerbose]"

fun command_value :: "telegram_command \<Rightarrow> string" where
  "command_value CmdNew = ''/new''"
| "command_value CmdReset = ''/reset''"
| "command_value CmdCompact = ''/compact''"
| "command_value CmdSessions = ''/sessions''"
| "command_value CmdModel = ''/model''"
| "command_value CmdCapabilities = ''/capabilities''"
| "command_value CmdUsage = ''/usage''"
| "command_value CmdStop = ''/stop''"
| "command_value CmdVerbose = ''/verbose''"

fun command_description :: "telegram_command \<Rightarrow> string" where
  "command_description CmdNew = ''Start a fresh session for this chat.''"
| "command_description CmdReset = ''Clear context for the active session.''"
| "command_description CmdCompact = ''Summarize older history of the active session.''"
| "command_description CmdSessions = ''List recent sessions and resume one.''"
| "command_description CmdModel = ''Select LLM model for the current session.''"
| "command_description CmdCapabilities = ''Toggle capabilities for the current session.''"
| "command_description CmdUsage = ''Show token and cost usage statistics.''"
| "command_description CmdStop = ''Stop the current agent activity.''"
| "command_description CmdVerbose = ''Toggle verbose mode (show tool calls).''"

definition build_bot_commands :: "(string \<times> string) list" where
  "build_bot_commands = map (\<lambda>c. (drop 1 (command_value c), command_description c)) all_commands"

definition extract_supported_command :: "string option \<Rightarrow> telegram_command option" where
  "extract_supported_command t =
     (let raw = py_strip (or_str t []); first = py_lower (takeWhile (\<lambda>c. \<not> py_isspace c) raw);
          token = fst (partition_on (CHR ''@'') first)
      in if raw = [] \<or> \<not> prefix ''/'' first \<or> token = [] then None
         else find (\<lambda>c. command_value c = token) all_commands)"

definition is_command :: "telegram_command \<Rightarrow> telegram_event \<Rightarrow> bool" where
  "is_command c ev = (extract_supported_command (ne_text ev) = Some c)"

section \<open>Verbose mode\<close>

text \<open>
  The chats and their file; a failed write leaves the file.  bool is a kind of int in Python:
  True and False in the file read as the chats 1 and 0.
\<close>

record verbose_state =
  vs_on :: "int list"
  vs_file :: "pyval option"
  vs_path :: bool

definition verbose_load :: "bool \<Rightarrow> pyval option \<Rightarrow> verbose_state" where
  "verbose_load has_path f =
     \<lparr>vs_on = (if \<not> has_path then []
               else case f of
                 Some (PList xs) \<Rightarrow>
                   remdups (List.map_filter (\<lambda>x. case x of PInt n \<Rightarrow> Some n | PBool b \<Rightarrow> Some (if b then 1 else 0) | _ \<Rightarrow> None) xs)
               | _ \<Rightarrow> []),
      vs_file = f, vs_path = has_path\<rparr>"

definition verbose_save :: "bool \<Rightarrow> verbose_state \<Rightarrow> verbose_state" where
  "verbose_save ok s =
     (if vs_path s \<and> ok then s\<lparr>vs_file := Some (PList (map PInt (py_sorted id (vs_on s))))\<rparr> else s)"

definition verbose_toggle :: "bool \<Rightarrow> int \<Rightarrow> verbose_state \<Rightarrow> bool \<times> verbose_state" where
  "verbose_toggle ok chat s =
     (if chat \<in> set (vs_on s) then (False, verbose_save ok (s\<lparr>vs_on := removeAll chat (vs_on s)\<rparr>))
      else (True, verbose_save ok (s\<lparr>vs_on := chat # vs_on s\<rparr>)))"

definition verbose_enabled :: "verbose_state \<Rightarrow> int \<Rightarrow> bool" where
  "verbose_enabled s chat = (chat \<in> set (vs_on s))"

section \<open>Configuration and state\<close>

record adapter_config =
  ac_hmac :: hmac
  ac_secret :: string
  ac_bot_token :: string
  ac_ingress :: ingress_config
  ac_max_sessions :: int
  ac_models :: "string list"
  ac_default_model :: string
  ac_cap_ids :: "string list"
  ac_default_caps :: "string list"
  ac_store :: bool
  ac_factory :: bool

record adapter_env =
  ae_clk :: "nat \<Rightarrow> time"
  ae_hex :: "nat \<Rightarrow> string"
  ae_ok :: bool
  ae_check :: string
  ae_dash :: string
  ae_long :: "time \<Rightarrow> string"
  ae_short :: "time \<Rightarrow> string"
  ae_str :: "pyval \<Rightarrow> string"
  ae_H :: "string \<Rightarrow> string"

text \<open>The value a token stands for, and when it expires.\<close>

record 'v token =
  bt_value :: 'v
  bt_expires :: time

type_synonym 'v tokens = "(string \<times> 'v token) list"

type_synonym confirm_value = "string \<times> string \<times> bool"

type_synonym question_value = "string \<times> string"

record adapter =
  ad_confirm :: "confirm_value tokens"
  ad_questions :: "question_value tokens"
  ad_models :: table_state
  ad_caps :: cap_state

text \<open>The services that exist: a secret is needed for two of them.\<close>

definition callback_secret :: "adapter_config \<Rightarrow> string" where
  "callback_secret c = (if ac_secret c \<noteq> [] then ac_secret c else ac_bot_token c)"

definition has_model_select :: "adapter_config \<Rightarrow> bool" where
  "has_model_select c = (ac_models c \<noteq> [] \<and> callback_secret c \<noteq> [])"

definition has_capability_select :: "adapter_config \<Rightarrow> bool" where
  "has_capability_select c = (ac_cap_ids c \<noteq> [] \<and> callback_secret c \<noteq> [])"

definition context_id :: "int \<Rightarrow> string" where
  "context_id chat = ''telegram:'' @ show_int chat"

definition text_reply :: "string \<Rightarrow> string \<Rightarrow> channel_response" where
  "text_reply sid t =
     \<lparr>cr_session = sid, cr_interactive = False, cr_text = t, cr_parse = None, cr_ui = None, cr_actions = []\<rparr>"

definition menu_reply :: "string \<Rightarrow> string \<Rightarrow> string option \<Rightarrow> string \<Rightarrow> action_button list \<Rightarrow> channel_response" where
  "menu_reply sid t parse ui actions =
     \<lparr>cr_session = sid, cr_interactive = True, cr_text = t, cr_parse = parse, cr_ui = Some ui, cr_actions = actions\<rparr>"

definition action :: "string \<Rightarrow> string \<Rightarrow> string \<Rightarrow> action_button" where
  "action label i data = \<lparr>ab_label = label, ab_id = i, ab_data = data, ab_url = None\<rparr>"

section \<open>The active session\<close>

definition adapter_active_session :: "table_state \<Rightarrow> int \<Rightarrow> string option" where
  "adapter_active_session t chat = (if chat \<le> 0 then None else get_active_session t (context_id chat))"

definition adapter_clear_active :: "bool \<Rightarrow> int \<Rightarrow> table_state \<Rightarrow> table_state" where
  "adapter_clear_active ok chat t = (if chat \<le> 0 then t else clear_active_session ok (context_id chat) t)"

definition apply_session_context :: "table_state \<Rightarrow> telegram_event \<Rightarrow> telegram_event" where
  "apply_session_context t ev =
     (case adapter_active_session t (ne_chat ev) of
        Some s \<Rightarrow> if s \<noteq> [] \<and> s \<noteq> ne_session ev then ev\<lparr>ne_session := s\<rparr> else ev
      | None \<Rightarrow> ev)"

text \<open>An unauthorized user is raised on; every other error is logged and the update dropped.\<close>

definition admit :: "table_state \<Rightarrow> exn + telegram_event option \<Rightarrow> exn + telegram_event option" where
  "admit t r =
     (case r of
        Inr e \<Rightarrow> Inr (map_option (apply_session_context t) e)
      | Inl (UnauthorizedUserError u) \<Rightarrow> Inl (UnauthorizedUserError u)
      | Inl _ \<Rightarrow> Inr None)"

definition process_update ::
  "adapter_config \<Rightarrow> ingress_env \<Rightarrow> table_state \<Rightarrow> dict \<Rightarrow> buckets \<Rightarrow> (exn + telegram_event option) \<times> buckets" where
  "process_update c e t update b = apfst (admit t) (normalize_update (ac_ingress c) e update b)"

definition process_update_async ::
  "(string \<Rightarrow> int \<Rightarrow> string option \<times> string option) option \<Rightarrow> adapter_config \<Rightarrow> ingress_env \<Rightarrow> table_state \<Rightarrow> dict
    \<Rightarrow> buckets \<Rightarrow> (exn + telegram_event option) \<times> buckets" where
  "process_update_async service c e t update b = apfst (admit t) (normalize_async service (ac_ingress c) e update b)"

definition process_media_group ::
  "adapter_config \<Rightarrow> ingress_env \<Rightarrow> table_state \<Rightarrow> dict list \<Rightarrow> buckets \<Rightarrow> (exn + telegram_event option) \<times> buckets" where
  "process_media_group c e t ms b = apfst (admit t) (normalize_media_group (ac_ingress c) e ms b)"

section \<open>Tokens of buttons\<close>

text \<open>The tables of memory confirmations and of delegation questions work alike.\<close>

definition token_ttl :: time where
  "token_ttl = seconds 3600"

definition tokens_cleanup :: "time \<Rightarrow> 'v tokens \<Rightarrow> 'v tokens" where
  "tokens_cleanup now t = filter (\<lambda>kv. \<not> bt_expires (snd kv) \<le> now) t"

definition tokens_put :: "string \<Rightarrow> 'v \<Rightarrow> time \<Rightarrow> time \<Rightarrow> 'v tokens \<Rightarrow> 'v tokens" where
  "tokens_put tok v c1 c2 t = AList.update tok \<lparr>bt_value = v, bt_expires = c2 + token_ttl\<rparr> (tokens_cleanup c1 t)"

definition tokens_take :: "string \<Rightarrow> time \<Rightarrow> 'v tokens \<Rightarrow> 'v option \<times> 'v tokens" where
  "tokens_take tok now t =
     (let t' = tokens_cleanup now t in (map_option bt_value (map_of t' tok), AList.delete tok t'))"

definition cleanup_confirmations :: "time \<Rightarrow> adapter \<Rightarrow> adapter" where
  "cleanup_confirmations now a = a\<lparr>ad_confirm := tokens_cleanup now (ad_confirm a)\<rparr>"

definition cleanup_questions :: "time \<Rightarrow> adapter \<Rightarrow> adapter" where
  "cleanup_questions now a = a\<lparr>ad_questions := tokens_cleanup now (ad_questions a)\<rparr>"

definition register_confirmation :: "string \<Rightarrow> time \<Rightarrow> time \<Rightarrow> confirm_value \<Rightarrow> adapter \<Rightarrow> string \<times> adapter" where
  "register_confirmation hex c1 c2 v a =
     (take 10 hex, a\<lparr>ad_confirm := tokens_put (take 10 hex) v c1 c2 (ad_confirm a)\<rparr>)"

definition register_question :: "string \<Rightarrow> time \<Rightarrow> time \<Rightarrow> question_value \<Rightarrow> adapter \<Rightarrow> string \<times> adapter" where
  "register_question hex c1 c2 v a =
     (take 10 hex, a\<lparr>ad_questions := tokens_put (take 10 hex) v c1 c2 (ad_questions a)\<rparr>)"

definition confirmation_token :: "adapter_config \<Rightarrow> telegram_event \<Rightarrow> time \<Rightarrow> exn + string option" where
  "confirmation_token c ev now =
     (case ne_callback ev of
        None \<Rightarrow> Inr None
      | Some q \<Rightarrow> verify_memory_confirmation_callback (ac_hmac c) (cq_data q) (ne_chat ev) (callback_secret c) now)"

definition question_token :: "adapter_config \<Rightarrow> telegram_event \<Rightarrow> time \<Rightarrow> exn + string option" where
  "question_token c ev now =
     (case ne_callback ev of
        None \<Rightarrow> Inr None
      | Some q \<Rightarrow> verify_ask_question_callback (ac_hmac c) (cq_data q) (ne_chat ev) (callback_secret c) now)"

definition is_confirmation_callback :: "adapter_config \<Rightarrow> telegram_event \<Rightarrow> time \<Rightarrow> time \<Rightarrow> adapter \<Rightarrow> (exn + bool) \<times> adapter" where
  "is_confirmation_callback c ev c1 c2 a =
     (case confirmation_token c ev c1 of
        Inl x \<Rightarrow> (Inl x, a)
      | Inr None \<Rightarrow> (Inr False, a)
      | Inr (Some tok) \<Rightarrow>
          (let a' = cleanup_confirmations c2 a in (Inr (map_of (ad_confirm a') tok \<noteq> None), a')))"

definition consume_confirmation ::
  "adapter_config \<Rightarrow> telegram_event \<Rightarrow> time \<Rightarrow> time \<Rightarrow> adapter \<Rightarrow> (exn + confirm_value option) \<times> adapter" where
  "consume_confirmation c ev c1 c2 a =
     (case confirmation_token c ev c1 of
        Inl x \<Rightarrow> (Inl x, a)
      | Inr None \<Rightarrow> (Inr None, a)
      | Inr (Some tok) \<Rightarrow> (case tokens_take tok c2 (ad_confirm a) of (v, t) \<Rightarrow> (Inr v, a\<lparr>ad_confirm := t\<rparr>)))"

definition is_question_callback :: "adapter_config \<Rightarrow> telegram_event \<Rightarrow> time \<Rightarrow> time \<Rightarrow> adapter \<Rightarrow> (exn + bool) \<times> adapter" where
  "is_question_callback c ev c1 c2 a =
     (case question_token c ev c1 of
        Inl x \<Rightarrow> (Inl x, a)
      | Inr None \<Rightarrow> (Inr False, a)
      | Inr (Some tok) \<Rightarrow>
          (let a' = cleanup_questions c2 a in (Inr (map_of (ad_questions a') tok \<noteq> None), a')))"

definition consume_question ::
  "adapter_config \<Rightarrow> telegram_event \<Rightarrow> time \<Rightarrow> time \<Rightarrow> adapter \<Rightarrow> (exn + question_value option) \<times> adapter" where
  "consume_question c ev c1 c2 a =
     (case question_token c ev c1 of
        Inl x \<Rightarrow> (Inl x, a)
      | Inr None \<Rightarrow> (Inr None, a)
      | Inr (Some tok) \<Rightarrow> (case tokens_take tok c2 (ad_questions a) of (v, t) \<Rightarrow> (Inr v, a\<lparr>ad_questions := t\<rparr>)))"

definition parse_task_callback :: "adapter_config \<Rightarrow> telegram_event \<Rightarrow> time \<Rightarrow> exn + (string \<times> string) option" where
  "parse_task_callback c ev now =
     (case ne_callback ev of
        None \<Rightarrow> Inr None
      | Some q \<Rightarrow> verify_task_callback (ac_hmac c) (cq_data q) (ne_chat ev) (callback_secret c) now)"

definition is_task_callback :: "adapter_config \<Rightarrow> telegram_event \<Rightarrow> time \<Rightarrow> exn + bool" where
  "is_task_callback c ev now =
     (case parse_task_callback c ev now of Inl x \<Rightarrow> Inl x | Inr r \<Rightarrow> Inr (r \<noteq> None))"

definition callback_has_prefix :: "string \<Rightarrow> telegram_event \<Rightarrow> bool" where
  "callback_has_prefix p ev = (case ne_callback ev of None \<Rightarrow> False | Some q \<Rightarrow> prefix p (cq_data q))"

definition is_model_callback :: "adapter_config \<Rightarrow> telegram_event \<Rightarrow> bool" where
  "is_model_callback c ev = (has_model_select c \<and> callback_has_prefix ''ms:'' ev)"

definition is_capabilities_callback :: "adapter_config \<Rightarrow> telegram_event \<Rightarrow> bool" where
  "is_capabilities_callback c ev = (has_capability_select c \<and> callback_has_prefix ''cs:'' ev)"

text \<open>The resume service signs with the configured secret only.\<close>

definition verify_resume :: "adapter_config \<Rightarrow> telegram_event \<Rightarrow> time \<Rightarrow> exn + string option" where
  "verify_resume c ev now =
     (case ne_callback ev of
        None \<Rightarrow> Inr None
      | Some q \<Rightarrow> if \<not> ac_store c then Inr None
                  else verify_resume_callback (ac_hmac c) (cq_data q) (ne_chat ev) (ac_secret c) now)"

definition is_resume_callback :: "adapter_config \<Rightarrow> telegram_event \<Rightarrow> time \<Rightarrow> exn + bool" where
  "is_resume_callback c ev now =
     (case verify_resume c ev now of Inl x \<Rightarrow> Inl x | Inr r \<Rightarrow> Inr (r \<noteq> None))"

section \<open>Messages with buttons\<close>

definition build_ask_question_response :: "string \<Rightarrow> string \<Rightarrow> string list \<Rightarrow> channel_response" where
  "build_ask_question_response sid question labels =
     menu_reply sid question None ''reply_keyboard''
       (map (\<lambda>(i, l). action (if py_strip l \<noteq> [] then py_strip l else ''Option '' @ show_int (int i)) [] []) (enumerate 0 labels))"

text \<open>The option number i uses the readings 3i, 3i+1 and 3i+2.\<close>

fun register_options ::
  "adapter_config \<Rightarrow> adapter_env \<Rightarrow> int \<Rightarrow> string \<Rightarrow> nat \<Rightarrow> string list \<Rightarrow> adapter \<Rightarrow> action_button list \<times> adapter" where
  "register_options c e chat sid i [] a = ([], a)"
| "register_options c e chat sid i (o1 # os) a =
     (let (tok, a1) = register_question (ae_hex e i) (ae_clk e (3 * i)) (ae_clk e (3 * i + 1)) (sid, o1) a;
          data = sign_ask_question_callback (ac_hmac c) tok chat (callback_secret c) (ae_clk e (3 * i + 2));
          (bs, a2) = register_options c e chat sid (Suc i) os a1
      in (action o1 (''aq-'' @ tok) data # bs, a2))"

definition build_delegation_question ::
  "adapter_config \<Rightarrow> adapter_env \<Rightarrow> int \<Rightarrow> string \<Rightarrow> string \<Rightarrow> string list \<Rightarrow> adapter \<Rightarrow> channel_response \<times> adapter" where
  "build_delegation_question c e chat sid question options a =
     (if options = [] then (text_reply sid question, a)
      else (case register_options c e chat sid 0 options a of
              (bs, a') \<Rightarrow> (menu_reply sid question None ''inline_keyboard'' bs, a')))"

definition build_memory_confirmation ::
  "adapter_config \<Rightarrow> adapter_env \<Rightarrow> int \<Rightarrow> string \<Rightarrow> string \<Rightarrow> string \<Rightarrow> adapter \<Rightarrow> channel_response \<times> adapter" where
  "build_memory_confirmation c e chat sid call prompt a =
     (let (yes, a1) = register_confirmation (ae_hex e 0) (ae_clk e 0) (ae_clk e 1) (sid, call, True) a;
          (no, a2) = register_confirmation (ae_hex e 1) (ae_clk e 2) (ae_clk e 3) (sid, call, False) a1;
          sign = (\<lambda>tok n. sign_memory_confirmation_callback (ac_hmac c) tok chat (callback_secret c) (ae_clk e n))
      in (menu_reply sid prompt None ''inline_keyboard''
            [action ''Confirm memory update'' (''confirm-'' @ call) (sign yes 4),
             action ''Reject'' (''reject-'' @ call) (sign no 5)], a2))"

definition build_task_result ::
  "adapter_config \<Rightarrow> adapter_env \<Rightarrow> int \<Rightarrow> string \<Rightarrow> string \<Rightarrow> string \<Rightarrow> string \<Rightarrow> string \<Rightarrow> channel_response" where
  "build_task_result c e chat sid task status summary fallback =
     (let t0 = (if py_strip fallback \<noteq> [] then py_strip fallback
                else ''Delegated task `'' @ task @ ''` status: *'' @ status @ ''*.'');
          t = (if py_strip summary \<noteq> [] then t0 @ [newline, newline] @ py_strip summary else t0);
          sign = (\<lambda>act n. sign_task_callback (ac_hmac c) task act chat (callback_secret c) (ae_clk e n))
      in menu_reply sid t (Some ''Markdown'') ''inline_keyboard''
           [action ''Show status'' (''task-status-'' @ task) (sign ''status'' 0),
            action ''Show summary'' (''task-summary-'' @ task) (sign ''summary'' 1)])"

definition button_label_max :: int where
  "button_label_max = 64"

text \<open>The lines and buttons of a numbered menu; button number i is signed at reading i - 1.\<close>

definition numbered :: "nat \<Rightarrow> string" where
  "numbered i = show_int (int i) @ ''. ''"

definition build_model_menu ::
  "adapter_config \<Rightarrow> adapter_env \<Rightarrow> string \<Rightarrow> int \<Rightarrow> string \<Rightarrow> channel_response" where
  "build_model_menu c e sid chat current =
     (if ac_models c = [] then text_reply sid ''No models available for selection.''
      else (let mark = (\<lambda>m. if m = current then ae_check e else [])
            in menu_reply sid
                 (join [newline] ((''*Select LLM model for this session:*'' @ [newline]) #
                    map (\<lambda>(i, m). numbered i @ ''`'' @ m @ ''`'' @ mark m) (enumerate 1 (ac_models c))))
                 (Some ''Markdown'') ''model_select''
                 (map (\<lambda>(i, m). action (slice_to (numbered i @ m @ mark m) button_label_max) (''model:'' @ m)
                    (sign_model_callback (ac_hmac c) m chat (callback_secret c) (ae_clk e (i - 1)))) (enumerate 1 (ac_models c)))))"

definition build_capabilities_menu ::
  "adapter_config \<Rightarrow> adapter_env \<Rightarrow> string \<Rightarrow> int \<Rightarrow> string list \<Rightarrow> channel_response" where
  "build_capabilities_menu c e sid chat enabled =
     (if ac_cap_ids c = [] then text_reply sid ''No capabilities available.''
      else (let mark = (\<lambda>m. if m \<in> set enabled then ae_check e else []); ids = py_sorted id (ac_cap_ids c)
            in menu_reply sid
                 (join [newline] ((''*Select capabilities for this session:*'' @ [newline]) #
                    map (\<lambda>(i, m). numbered i @ ''`'' @ m @ ''`'' @ mark m) (enumerate 1 ids)))
                 (Some ''Markdown'') ''capability_select''
                 (map (\<lambda>(i, m). action (slice_to (numbered i @ m @ mark m) button_label_max) (''capability:'' @ m)
                    (sign_capability_callback (ac_hmac c) m chat (callback_secret c) (ae_clk e (i - 1)))) (enumerate 1 ids))))"

section \<open>Resuming sessions\<close>

definition max_label_length :: int where "max_label_length = 40"

definition max_preview_length :: int where "max_preview_length = 100"

definition record_content :: "(pyval \<Rightarrow> string) \<Rightarrow> session_record \<Rightarrow> string" where
  "record_content pstr r = pstr (dget_or (sr_payload r) ''content'' (PStr []))"

text \<open>The first of the records, in the given order, of one of the types and with a text.\<close>

definition first_content :: "(pyval \<Rightarrow> string) \<Rightarrow> record_type list \<Rightarrow> session_record list \<Rightarrow> string option" where
  "first_content pstr tys rs =
     map_option (record_content pstr) (find (\<lambda>r. sr_type r \<in> set tys \<and> record_content pstr r \<noteq> []) rs)"

definition extract_label :: "(pyval \<Rightarrow> string) \<Rightarrow> session_record list \<Rightarrow> string" where
  "extract_label pstr rs =
     slice_to (case first_content pstr [UserMessage] rs of Some t \<Rightarrow> t | None \<Rightarrow> sr_session (hd rs)) max_label_length"

definition extract_preview :: "(pyval \<Rightarrow> string) \<Rightarrow> session_record list \<Rightarrow> string" where
  "extract_preview pstr rs =
     slice_to (or_str (first_content pstr [UserMessage, AssistantMessage] (rev rs)) []) max_preview_length"

record session_entry =
  en_session :: string
  en_label :: string
  en_last :: time
  en_preview :: string

definition build_session_entry :: "(pyval \<Rightarrow> string) \<Rightarrow> sessions \<Rightarrow> string \<Rightarrow> session_entry option" where
  "build_session_entry pstr d sid =
     (let rs = read_session d sid
      in if rs = [] then None
         else Some \<lparr>en_session = sid, en_label = extract_label pstr rs, en_last = sr_time (last rs),
                    en_preview = extract_preview pstr rs\<rparr>)"

definition chat_prefix :: "int \<Rightarrow> string" where
  "chat_prefix chat = ''tg:'' @ show_int chat"

definition of_chat :: "int \<Rightarrow> string \<Rightarrow> bool" where
  "of_chat chat s = (s = chat_prefix chat \<or> prefix (chat_prefix chat @ [colon]) s)"

definition list_recent_sessions :: "adapter_config \<Rightarrow> adapter_env \<Rightarrow> sessions \<Rightarrow> int \<Rightarrow> session_entry list" where
  "list_recent_sessions c e d chat =
     slice_to (py_sorted_rev en_last
       (List.map_filter (build_session_entry (ae_str e) d) (filter (of_chat chat) (list_sessions d)))) (ac_max_sessions c)"

definition escape_md :: "string \<Rightarrow> string" where
  "escape_md s = filter (\<lambda>c. c \<notin> set ''*_`[]'') s"

definition session_line :: "adapter_env \<Rightarrow> nat \<times> session_entry \<Rightarrow> string" where
  "session_line e ix =
     (case ix of (i, x) \<Rightarrow>
        let pre = escape_md (en_preview x)
        in numbered i @ ''*'' @ escape_md (en_label x) @ ''* ('' @ ae_long e (en_last x) @ '')'' @
           (if pre \<noteq> [] then ae_dash e @ ''_'' @ pre @ ''_'' else []))"

definition session_button :: "adapter_config \<Rightarrow> adapter_env \<Rightarrow> int \<Rightarrow> nat \<times> session_entry \<Rightarrow> action_button" where
  "session_button c e chat ix =
     (case ix of (i, x) \<Rightarrow>
        action (slice_to (numbered i @ en_label x @ '' ('' @ ae_short e (en_last x) @ '')'') button_label_max)
          (''resume:'' @ en_session x)
          (sign_resume_callback (ac_hmac c) (en_session x) chat (ac_secret c) (ae_clk e (i - 1))))"

definition build_session_menu ::
  "adapter_config \<Rightarrow> adapter_env \<Rightarrow> session_entry list \<Rightarrow> string \<Rightarrow> int \<Rightarrow> channel_response" where
  "build_session_menu c e entries sid chat =
     (if entries = [] then text_reply sid ''No previous sessions found.''
      else menu_reply sid (join [newline] ((''*Recent sessions'' @ ae_dash e @ ''tap to resume:*'' @ [newline]) # map (session_line e) (enumerate 1 entries)))
             (Some ''Markdown'') ''session_resume'' (map (session_button c e chat) (enumerate 1 entries)))"

definition session_menu_response ::
  "adapter_config \<Rightarrow> adapter_env \<Rightarrow> sessions \<Rightarrow> int \<Rightarrow> string \<Rightarrow> channel_response" where
  "session_menu_response c e d chat sid =
     (if \<not> ac_store c then text_reply sid ''Session resume is not available.''
      else build_session_menu c e (list_recent_sessions c e d chat) sid chat)"

definition handle_resume_callback ::
  "adapter_config \<Rightarrow> adapter_env \<Rightarrow> telegram_event \<Rightarrow> time \<Rightarrow> table_state \<Rightarrow> (exn + string option) \<times> table_state" where
  "handle_resume_callback c e ev now t =
     (case verify_resume c ev now of
        Inl x \<Rightarrow> (Inl x, t)
      | Inr None \<Rightarrow> (Inr None, t)
      | Inr (Some s) \<Rightarrow> (Inr (Some s), if ne_chat ev \<noteq> 0 then set_active_session (ae_ok e) (context_id (ne_chat ev)) s t else t))"

text \<open>A fresh session of the chat; with a factory its metadata are stored too.\<close>

definition start_new_session ::
  "adapter_config \<Rightarrow> adapter_env \<Rightarrow> telegram_event \<Rightarrow> session_world \<Rightarrow> string option \<times> session_world" where
  "start_new_session c e ev w =
     (if ne_chat ev \<le> 0 then (None, w)
      else let ctx = context_id (ne_chat ev); sid = chat_prefix (ne_chat ev) @ colon # take 12 (ae_hex e 0)
           in if ac_factory c
              then (case factory_create (ae_H e) w ctx Regular (Some sid) (take 12 (ae_hex e 1)) (ae_clk e 0) (ae_clk e 1) of
                      (cx, w') \<Rightarrow> (Some (cx_session cx), w'))
              else (Some sid, w\<lparr>w_active := set_active_session (ae_ok e) ctx sid (w_active w)\<rparr>))"

section \<open>Models and capabilities\<close>

definition adapter_model_override :: "adapter \<Rightarrow> int \<Rightarrow> string option" where
  "adapter_model_override a chat = (if chat = 0 then None else get_model_override (ad_models a) (context_id chat))"

definition model_menu_response :: "adapter_config \<Rightarrow> adapter_env \<Rightarrow> int \<Rightarrow> string \<Rightarrow> adapter \<Rightarrow> channel_response" where
  "model_menu_response c e chat sid a =
     (if \<not> has_model_select c then text_reply sid ''Model selection is not available.''
      else build_model_menu c e sid chat
             (case nonempty (get_model_override (ad_models a) (context_id chat)) of Some m \<Rightarrow> m | None \<Rightarrow> ac_default_model c))"

definition handle_model_callback ::
  "adapter_config \<Rightarrow> adapter_env \<Rightarrow> telegram_event \<Rightarrow> time \<Rightarrow> adapter \<Rightarrow> (exn + string option) \<times> adapter" where
  "handle_model_callback c e ev now a =
     (case ne_callback ev of
        None \<Rightarrow> (Inr None, a)
      | Some q \<Rightarrow>
          if \<not> has_model_select c then (Inr None, a)
          else (case verify_model_callback (ac_hmac c) (cq_data q) (ne_chat ev) (callback_secret c) now of
                  Inl x \<Rightarrow> (Inl x, a)
                | Inr None \<Rightarrow> (Inr None, a)
                | Inr (Some m) \<Rightarrow>
                    if m \<notin> set (ac_models c) then (Inr None, a)
                    else (Inr (Some m),
                          if ne_chat ev \<noteq> 0
                          then a\<lparr>ad_models := set_model_override (ae_ok e) (context_id (ne_chat ev)) m (ad_models a)\<rparr> else a)))"

definition current_capabilities :: "adapter_config \<Rightarrow> string \<Rightarrow> adapter \<Rightarrow> string list" where
  "current_capabilities c sid a =
     (case get_capabilities (ad_caps a) sid of Some cs \<Rightarrow> cs | None \<Rightarrow> ac_default_caps c)"

definition capabilities_menu_response :: "adapter_config \<Rightarrow> adapter_env \<Rightarrow> int \<Rightarrow> string \<Rightarrow> adapter \<Rightarrow> channel_response" where
  "capabilities_menu_response c e chat sid a =
     (if \<not> has_capability_select c then text_reply sid ''Capability selection is not available.''
      else build_capabilities_menu c e sid chat (current_capabilities c sid a))"

definition toggle_capability :: "string \<Rightarrow> string list \<Rightarrow> string list" where
  "toggle_capability m cs = (if m \<in> set cs then remove1 m cs else cs @ [m])"

definition handle_capabilities_callback ::
  "adapter_config \<Rightarrow> adapter_env \<Rightarrow> telegram_event \<Rightarrow> time \<Rightarrow> time \<Rightarrow> adapter \<Rightarrow> (exn + string option) \<times> adapter" where
  "handle_capabilities_callback c e ev now now' a =
     (case ne_callback ev of
        None \<Rightarrow> (Inr None, a)
      | Some q \<Rightarrow>
          if \<not> has_capability_select c then (Inr None, a)
          else (case verify_capability_callback (ac_hmac c) (cq_data q) (ne_chat ev) (callback_secret c) now of
                  Inl x \<Rightarrow> (Inl x, a)
                | Inr None \<Rightarrow> (Inr None, a)
                | Inr (Some m) \<Rightarrow>
                    (Inr (Some m),
                     if ne_session ev = [] then a
                     else a\<lparr>ad_caps := set_capabilities (ae_ok e) (ne_session ev)
                              (toggle_capability m (current_capabilities c (ne_session ev) a)) now' (ad_caps a)\<rparr>)))"

definition capabilities_override :: "adapter \<Rightarrow> string \<Rightarrow> string list option" where
  "capabilities_override a sid = (if sid = [] then None else get_capabilities (ad_caps a) sid)"

definition clear_capabilities_override :: "bool \<Rightarrow> string \<Rightarrow> adapter \<Rightarrow> adapter" where
  "clear_capabilities_override ok sid a = (if sid = [] then a else a\<lparr>ad_caps := clear_capabilities ok sid (ad_caps a)\<rparr>)"

definition reset_session_context ::
  "adapter_config \<Rightarrow> adapter_env \<Rightarrow> telegram_event \<Rightarrow> sessions \<Rightarrow> adapter \<Rightarrow> bool \<times> sessions \<times> adapter" where
  "reset_session_context c e ev d a =
     (if \<not> ac_store c then (False, d, a)
      else (case clear_session d (ne_session ev) of
              (cleared, d') \<Rightarrow> (cleared, d', if cleared then clear_capabilities_override (ae_ok e) (ne_session ev) a else a)))"

section \<open>A button works once\<close>

text \<open>
  A table whose entries are taken out once: steps that put an entry in under a name, steps that
  answer the value under a name and take it out, and others that at most drop entries.
\<close>

fun run_log :: "('op \<Rightarrow> 's \<Rightarrow> 's \<times> (string \<times> 'v) option) \<Rightarrow> 'op list \<Rightarrow> 's \<Rightarrow> ('op \<times> string \<times> 'v) list" where
  "run_log step [] s = []"
| "run_log step (p # ps) s =
     (case step p s of (s', r) \<Rightarrow> (case r of Some x \<Rightarrow> [(p, x)] | None \<Rightarrow> []) @ run_log step ps s')"

locale single_use =
  fixes tab :: "'s \<Rightarrow> 'v tokens"
    and step :: "'op \<Rightarrow> 's \<Rightarrow> 's \<times> (string \<times> 'v) option"
    and issues :: "'op \<Rightarrow> (string \<times> 'v \<times> time) option"
    and moment :: "'op \<Rightarrow> time"
    and good :: "'s \<Rightarrow> bool"
  assumes step_good: "step p s = (s', r) \<Longrightarrow> good s \<Longrightarrow> good s'"
    and step_keeps: "step p s = (s', r) \<Longrightarrow> good s \<Longrightarrow> map_of (tab s') tok = Some x \<Longrightarrow>
      map_of (tab s) tok = Some x \<or> issues p = Some (tok, bt_value x, bt_expires x)"
    and step_answers: "step p s = (s', Some (tok, v)) \<Longrightarrow> good s \<Longrightarrow> issues p = None \<and> map_of (tab s') tok = None \<and>
      (\<exists>x. map_of (tab s) tok = Some x \<and> bt_value x = v \<and> moment p < bt_expires x)"
begin

lemma log_origin:
  "(q, tok, v) \<in> set (run_log step ps s) \<Longrightarrow> good s \<Longrightarrow>
     q \<in> set ps \<and> (\<exists>ex. moment q < ex \<and>
       (map_of (tab s) tok = Some \<lparr>bt_value = v, bt_expires = ex\<rparr> \<or> (tok, v, ex) \<in> set (List.map_filter issues ps)))"
proof (induction ps arbitrary: s)
  case (Cons p ps)
  obtain s' r where st: "step p s = (s', r)" by fastforce
  show ?case
  proof (cases "(q, tok, v) \<in> set (run_log step ps s')")
    case True
    from Cons.IH[OF this step_good[OF st Cons.prems(2)]] obtain ex where ex: "q \<in> set ps" "moment q < ex"
      "map_of (tab s') tok = Some \<lparr>bt_value = v, bt_expires = ex\<rparr> \<or> (tok, v, ex) \<in> set (List.map_filter issues ps)"
      by blast
    have "map_of (tab s) tok = Some \<lparr>bt_value = v, bt_expires = ex\<rparr> \<or> (tok, v, ex) \<in> set (List.map_filter issues (p # ps))"
      using ex(3) step_keeps[OF st Cons.prems(2), of tok "\<lparr>bt_value = v, bt_expires = ex\<rparr>"]
      by (auto simp: map_filter_simps split: option.splits)
    with ex(1,2) show ?thesis by (auto intro!: exI[of _ ex])
  next
    case False
    then have r: "r = Some (tok, v)" "q = p" using Cons.prems(1) by (auto simp: st split: option.splits)
    from step_answers[OF st[unfolded r(1)] Cons.prems(2)] obtain x where x: "map_of (tab s) tok = Some x" "bt_value x = v" "moment p < bt_expires x"
      by blast
    have "x = \<lparr>bt_value = v, bt_expires = bt_expires x\<rparr>" using x(2) by (cases x) simp
    with x(1,3) r(2) show ?thesis by (metis list.set_intros(1))
  qed
qed simp

lemma log_distinct:
  assumes "distinct (map fst (List.map_filter issues ps))"
    and "\<And>k v e. (k, v, e) \<in> set (List.map_filter issues ps) \<Longrightarrow> map_of (tab s) k = None" and "good s"
  shows "distinct (map (fst \<circ> snd) (run_log step ps s))"
  using assms
proof (induction ps arbitrary: s)
  case (Cons p ps)
  obtain s' r where st: "step p s = (s', r)" by fastforce
  have sub: "set (List.map_filter issues ps) \<subseteq> set (List.map_filter issues (p # ps))"
    by (auto simp: map_filter_simps split: option.splits)
  have keys: "map_of (tab s') k = None" if "(k, v, e) \<in> set (List.map_filter issues ps)" for k v e
  proof (rule ccontr)
    assume "map_of (tab s') k \<noteq> None"
    then obtain x where x: "map_of (tab s') k = Some x" by blast
    have "map_of (tab s) k = None" using Cons.prems(2) that sub by blast
    then have "issues p = Some (k, bt_value x, bt_expires x)" using step_keeps[OF st Cons.prems(3) x] by simp
    with Cons.prems(1) that show False by (auto simp: map_filter_simps image_iff)
  qed
  have "distinct (map fst (List.map_filter issues ps))"
    using Cons.prems(1) by (auto simp: map_filter_simps split: option.splits)
  from Cons.IH[OF this keys step_good[OF st Cons.prems(3)]]
  have ih: "distinct (map (fst \<circ> snd) (run_log step ps s'))" .
  show ?case
  proof (cases r)
    case None
    with ih show ?thesis by (simp add: st comp_def)
  next
    case (Some x)
    obtain tok v where x: "x = (tok, v)" by fastforce
    note a = step_answers[OF st[unfolded Some x] Cons.prems(3)]
    have "tok \<notin> (fst \<circ> snd) ` set (run_log step ps s')"
    proof
      assume "tok \<in> (fst \<circ> snd) ` set (run_log step ps s')"
      then obtain q w where "(q, tok, w) \<in> set (run_log step ps s')" by auto
      from log_origin[OF this step_good[OF st Cons.prems(3)]] a
      obtain ex where "(tok, w, ex) \<in> set (List.map_filter issues ps)" by auto
      then have "map_of (tab s) tok = None" using Cons.prems(2) sub by blast
      with a show False by auto
    qed
    with ih show ?thesis by (auto simp: st Some x comp_def)
  qed
qed simp

end

text \<open>The operations on the tables of buttons.\<close>

datatype button_op =
    IssueConfirmation string time time confirm_value
  | IssueQuestion string time time question_value
  | CheckConfirmation telegram_event time time
  | CheckQuestion telegram_event time time
  | RedeemConfirmation telegram_event time time
  | RedeemQuestion telegram_event time time

fun button_exec :: "adapter_config \<Rightarrow> button_op \<Rightarrow> adapter \<Rightarrow> adapter" where
  "button_exec c (IssueConfirmation hex c1 c2 v) a = snd (register_confirmation hex c1 c2 v a)"
| "button_exec c (IssueQuestion hex c1 c2 v) a = snd (register_question hex c1 c2 v a)"
| "button_exec c (CheckConfirmation ev c1 c2) a = snd (is_confirmation_callback c ev c1 c2 a)"
| "button_exec c (CheckQuestion ev c1 c2) a = snd (is_question_callback c ev c1 c2 a)"
| "button_exec c (RedeemConfirmation ev c1 c2) a = snd (consume_confirmation c ev c1 c2 a)"
| "button_exec c (RedeemQuestion ev c1 c2) a = snd (consume_question c ev c1 c2 a)"

text \<open>What a step answers, with the token that stands in the callback.\<close>

definition answered :: "exn + string option \<Rightarrow> exn + 'v option \<Rightarrow> (string \<times> 'v) option" where
  "answered tok r = (case (tok, r) of (Inr (Some k), Inr (Some v)) \<Rightarrow> Some (k, v) | _ \<Rightarrow> None)"

fun confirmed :: "adapter_config \<Rightarrow> button_op \<Rightarrow> adapter \<Rightarrow> (string \<times> confirm_value) option" where
  "confirmed c (RedeemConfirmation ev c1 c2) a = answered (confirmation_token c ev c1) (fst (consume_confirmation c ev c1 c2 a))"
| "confirmed c p a = None"

fun replied :: "adapter_config \<Rightarrow> button_op \<Rightarrow> adapter \<Rightarrow> (string \<times> question_value) option" where
  "replied c (RedeemQuestion ev c1 c2) a = answered (question_token c ev c1) (fst (consume_question c ev c1 c2 a))"
| "replied c p a = None"

fun op_moment :: "button_op \<Rightarrow> time" where
  "op_moment (RedeemConfirmation ev c1 c2) = c2"
| "op_moment (RedeemQuestion ev c1 c2) = c2"
| "op_moment p = 0"

fun issued_confirmation :: "button_op \<Rightarrow> (string \<times> confirm_value \<times> time) option" where
  "issued_confirmation (IssueConfirmation hex c1 c2 v) = Some (take 10 hex, v, c2 + token_ttl)"
| "issued_confirmation p = None"

fun issued_question :: "button_op \<Rightarrow> (string \<times> question_value \<times> time) option" where
  "issued_question (IssueQuestion hex c1 c2 v) = Some (take 10 hex, v, c2 + token_ttl)"
| "issued_question p = None"

lemma tokens_cleanup_Some:
  "map_of (tokens_cleanup now t) k = Some x \<Longrightarrow> distinct (map fst t) \<Longrightarrow> map_of t k = Some x \<and> now < bt_expires x"
  by (fastforce simp: tokens_cleanup_def dest!: map_of_SomeD)

lemma tokens_cleanup_keeps:
  "map_of t k = Some x \<Longrightarrow> distinct (map fst t) \<Longrightarrow> \<not> bt_expires x \<le> now \<Longrightarrow> map_of (tokens_cleanup now t) k = Some x"
  by (simp add: tokens_cleanup_def distinct_map_filter)

lemma tokens_cleanup_distinct: "distinct (map fst t) \<Longrightarrow> distinct (map fst (tokens_cleanup now t))"
  by (auto simp: tokens_cleanup_def distinct_map inj_on_def)

lemma tokens_put_at:
  "map_of (tokens_put tok v c1 c2 t) k =
     (if k = tok then Some \<lparr>bt_value = v, bt_expires = c2 + token_ttl\<rparr> else map_of (tokens_cleanup c1 t) k)"
  by (simp add: tokens_put_def update_conv' del: map_of_eq_Some_iff)

lemma tokens_put_facts:
  assumes "distinct (map fst t)"
  shows "distinct (map fst (tokens_put tok v c1 c2 t))"
    and "map_of (tokens_put tok v c1 c2 t) k = Some x \<Longrightarrow>
      map_of t k = Some x \<or> (k = tok \<and> x = \<lparr>bt_value = v, bt_expires = c2 + token_ttl\<rparr>)"
  using tokens_cleanup_Some[of c1 t k x] tokens_cleanup_distinct[OF assms, of c1] assms
  by (auto simp: tokens_put_def distinct_update update_conv' simp del: map_of_eq_Some_iff split: if_splits)

lemma tokens_take_facts:
  assumes "tokens_take tok now t = (r, t')" and "distinct (map fst t)"
  shows "distinct (map fst t')" and "map_of t' k = Some x \<Longrightarrow> map_of t k = Some x" and "map_of t' tok = None"
    and "r = Some v \<Longrightarrow> \<exists>x. map_of t tok = Some x \<and> bt_value x = v \<and> now < bt_expires x"
  using assms tokens_cleanup_Some[of now t k x] tokens_cleanup_Some[of now t tok] tokens_cleanup_distinct[OF assms(2), of now]
  by (auto simp: tokens_take_def Let_def distinct_delete delete_conv' simp del: map_of_eq_Some_iff split: if_splits)

text \<open>The operations on one table leave the other as it is.\<close>

lemma button_exec_confirm:
  "ad_confirm (button_exec c p a) =
     (case p of
        IssueConfirmation hex c1 c2 v \<Rightarrow> tokens_put (take 10 hex) v c1 c2 (ad_confirm a)
      | CheckConfirmation ev c1 c2 \<Rightarrow>
          (case confirmation_token c ev c1 of Inr (Some tok) \<Rightarrow> tokens_cleanup c2 (ad_confirm a) | _ \<Rightarrow> ad_confirm a)
      | RedeemConfirmation ev c1 c2 \<Rightarrow>
          (case confirmation_token c ev c1 of Inr (Some tok) \<Rightarrow> snd (tokens_take tok c2 (ad_confirm a)) | _ \<Rightarrow> ad_confirm a)
      | _ \<Rightarrow> ad_confirm a)"
  by (cases p) (auto simp: register_confirmation_def register_question_def is_confirmation_callback_def is_question_callback_def
      consume_confirmation_def consume_question_def cleanup_confirmations_def cleanup_questions_def split: sum.splits option.splits prod.splits)

lemma button_exec_questions:
  "ad_questions (button_exec c p a) =
     (case p of
        IssueQuestion hex c1 c2 v \<Rightarrow> tokens_put (take 10 hex) v c1 c2 (ad_questions a)
      | CheckQuestion ev c1 c2 \<Rightarrow>
          (case question_token c ev c1 of Inr (Some tok) \<Rightarrow> tokens_cleanup c2 (ad_questions a) | _ \<Rightarrow> ad_questions a)
      | RedeemQuestion ev c1 c2 \<Rightarrow>
          (case question_token c ev c1 of Inr (Some tok) \<Rightarrow> snd (tokens_take tok c2 (ad_questions a)) | _ \<Rightarrow> ad_questions a)
      | _ \<Rightarrow> ad_questions a)"
  by (cases p) (auto simp: register_confirmation_def register_question_def is_confirmation_callback_def is_question_callback_def
      consume_confirmation_def consume_question_def cleanup_confirmations_def cleanup_questions_def split: sum.splits option.splits prod.splits)

declare button_exec.simps [simp del]

lemma confirmed_Some:
  assumes "confirmed c p a = Some (tok, v)"
  obtains ev c1 c2 where "p = RedeemConfirmation ev c1 c2" "confirmation_token c ev c1 = Inr (Some tok)"
    "fst (tokens_take tok c2 (ad_confirm a)) = Some v"
  using assms by (cases "(c, p, a)" rule: confirmed.cases)
    (auto simp: answered_def consume_confirmation_def split: sum.splits option.splits prod.splits)

lemma replied_Some:
  assumes "replied c p a = Some (tok, v)"
  obtains ev c1 c2 where "p = RedeemQuestion ev c1 c2" "question_token c ev c1 = Inr (Some tok)"
    "fst (tokens_take tok c2 (ad_questions a)) = Some v"
  using assms by (cases "(c, p, a)" rule: replied.cases)
    (auto simp: answered_def consume_question_def split: sum.splits option.splits prod.splits)

lemma confirm_keeps:
  assumes "map_of (ad_confirm (button_exec c p s)) tok = Some x" and d: "distinct (map fst (ad_confirm s))"
  shows "map_of (ad_confirm s) tok = Some x \<or> issued_confirmation p = Some (tok, bt_value x, bt_expires x)"
proof (cases p)
  case (IssueConfirmation hex c1 c2 v)
  with assms(1) tokens_put_facts(2)[OF d, of "take 10 hex" v c1 c2 tok x] show ?thesis by (auto simp: button_exec_confirm simp del: map_of_eq_Some_iff)
next
  case (CheckConfirmation ev c1 c2)
  with assms(1) tokens_cleanup_Some[OF _ d, of c2 tok x] show ?thesis
    by (simp add: button_exec_confirm del: map_of_eq_Some_iff split: sum.splits option.splits)
next
  case (RedeemConfirmation ev c1 c2)
  with assms(1) tokens_take_facts(2)[OF surjective_pairing d, of _ c2 tok x] show ?thesis
    by (simp add: button_exec_confirm del: map_of_eq_Some_iff split: sum.splits option.splits)
qed (use assms(1) in \<open>simp_all add: button_exec_confirm\<close>)

lemma questions_keeps:
  assumes "map_of (ad_questions (button_exec c p s)) tok = Some x" and d: "distinct (map fst (ad_questions s))"
  shows "map_of (ad_questions s) tok = Some x \<or> issued_question p = Some (tok, bt_value x, bt_expires x)"
proof (cases p)
  case (IssueQuestion hex c1 c2 v)
  with assms(1) tokens_put_facts(2)[OF d, of "take 10 hex" v c1 c2 tok x] show ?thesis by (auto simp: button_exec_questions simp del: map_of_eq_Some_iff)
next
  case (CheckQuestion ev c1 c2)
  with assms(1) tokens_cleanup_Some[OF _ d, of c2 tok x] show ?thesis
    by (simp add: button_exec_questions del: map_of_eq_Some_iff split: sum.splits option.splits)
next
  case (RedeemQuestion ev c1 c2)
  with assms(1) tokens_take_facts(2)[OF surjective_pairing d, of _ c2 tok x] show ?thesis
    by (simp add: button_exec_questions del: map_of_eq_Some_iff split: sum.splits option.splits)
qed (use assms(1) in \<open>simp_all add: button_exec_questions\<close>)

definition confirm_step :: "adapter_config \<Rightarrow> button_op \<Rightarrow> adapter \<Rightarrow> adapter \<times> (string \<times> confirm_value) option" where
  "confirm_step c p a = (button_exec c p a, confirmed c p a)"

definition question_step :: "adapter_config \<Rightarrow> button_op \<Rightarrow> adapter \<Rightarrow> adapter \<times> (string \<times> question_value) option" where
  "question_step c p a = (button_exec c p a, replied c p a)"

interpretation confirmations: single_use ad_confirm "confirm_step c" issued_confirmation op_moment "\<lambda>a. distinct (map fst (ad_confirm a))"
proof unfold_locales
  fix p s s' r tok x v
  show "confirm_step c p s = (s', r) \<Longrightarrow> distinct (map fst (ad_confirm s)) \<Longrightarrow> distinct (map fst (ad_confirm s'))"
    by (auto simp: confirm_step_def button_exec_confirm tokens_put_facts tokens_cleanup_distinct tokens_take_facts(1)[OF surjective_pairing]
        split: button_op.splits sum.splits option.splits)
  show "map_of (ad_confirm s) tok = Some x \<or> issued_confirmation p = Some (tok, bt_value x, bt_expires x)"
    if "confirm_step c p s = (s', r)" "distinct (map fst (ad_confirm s))" "map_of (ad_confirm s') tok = Some x"
  proof (rule confirm_keeps)
    show "map_of (ad_confirm (button_exec c p s)) tok = Some x" using that by (simp add: confirm_step_def)
  qed (fact that(2))
  assume "confirm_step c p s = (s', Some (tok, v))" and d: "distinct (map fst (ad_confirm s))"
  then have s': "s' = button_exec c p s" and k: "confirmed c p s = Some (tok, v)" by (simp_all add: confirm_step_def)
  from k obtain ev c1 c2 where p: "p = RedeemConfirmation ev c1 c2" "confirmation_token c ev c1 = Inr (Some tok)"
    "fst (tokens_take tok c2 (ad_confirm s)) = Some v" by (rule confirmed_Some)
  from tokens_take_facts(3,4)[OF surjective_pairing d] p
  show "issued_confirmation p = None \<and> map_of (ad_confirm s') tok = None \<and>
      (\<exists>x. map_of (ad_confirm s) tok = Some x \<and> bt_value x = v \<and> op_moment p < bt_expires x)"
    by (simp add: s' button_exec_confirm)
qed

interpretation questions: single_use ad_questions "question_step c" issued_question op_moment "\<lambda>a. distinct (map fst (ad_questions a))"
proof unfold_locales
  fix p s s' r tok x v
  show "question_step c p s = (s', r) \<Longrightarrow> distinct (map fst (ad_questions s)) \<Longrightarrow> distinct (map fst (ad_questions s'))"
    by (auto simp: question_step_def button_exec_questions tokens_put_facts tokens_cleanup_distinct tokens_take_facts(1)[OF surjective_pairing]
        split: button_op.splits sum.splits option.splits)
  show "map_of (ad_questions s) tok = Some x \<or> issued_question p = Some (tok, bt_value x, bt_expires x)"
    if "question_step c p s = (s', r)" "distinct (map fst (ad_questions s))" "map_of (ad_questions s') tok = Some x"
  proof (rule questions_keeps)
    show "map_of (ad_questions (button_exec c p s)) tok = Some x" using that by (simp add: question_step_def)
  qed (fact that(2))
  assume "question_step c p s = (s', Some (tok, v))" and d: "distinct (map fst (ad_questions s))"
  then have s': "s' = button_exec c p s" and k: "replied c p s = Some (tok, v)" by (simp_all add: question_step_def)
  from k obtain ev c1 c2 where p: "p = RedeemQuestion ev c1 c2" "question_token c ev c1 = Inr (Some tok)"
    "fst (tokens_take tok c2 (ad_questions s)) = Some v" by (rule replied_Some)
  from tokens_take_facts(3,4)[OF surjective_pairing d] p
  show "issued_question p = None \<and> map_of (ad_questions s') tok = None \<and>
      (\<exists>x. map_of (ad_questions s) tok = Some x \<and> bt_value x = v \<and> op_moment p < bt_expires x)"
    by (simp add: s' button_exec_questions)
qed

lemma run_log_step: "(p, x) \<in> set (run_log step ps s) \<Longrightarrow> \<exists>s0. snd (step p s0) = Some x"
proof (induction ps arbitrary: s)
  case (Cons q ps)
  obtain s' r where st: "step q s = (s', r)" by fastforce
  show ?case
  proof (cases "(p, x) \<in> set (run_log step ps s')")
    case False
    then have "r = Some x" "p = q" using Cons.prems by (auto simp: st split: option.splits)
    then show ?thesis using st by (intro exI[of _ s]) simp
  qed (rule Cons.IH)
qed simp

text \<open>
  A confirmation button takes effect at most once.  In every run of the operations on
  the buttons, in any order and with any callbacks, if the tokens issued have different
  names, every token is redeemed at most once; what a redeemed token stands for is what it was issued for, it is
  redeemed before the hour after that has passed, and the callback was verified for
  the chat it came from.
\<close>

theorem confirmation_used_once:
  assumes "distinct (map fst (List.map_filter issued_confirmation ops))" and "ad_confirm a = []"
  shows "distinct (map (fst \<circ> snd) (run_log (confirm_step c) ops a)) \<and>
    (\<forall>(p, tok, v) \<in> set (run_log (confirm_step c) ops a). p \<in> set ops \<and>
       (\<exists>ev c1 c2 made. p = RedeemConfirmation ev c1 c2 \<and> confirmation_token c ev c1 = Inr (Some tok) \<and>
          c2 < made + seconds 3600 \<and> (tok, v, made + seconds 3600) \<in> set (List.map_filter issued_confirmation ops)))"
proof (intro conjI ballI, unfold split_paired_all prod.case)
  show "distinct (map (fst \<circ> snd) (run_log (confirm_step c) ops a))"
    by (rule confirmations.log_distinct) (use assms in simp_all)
  fix p tok v
  assume l: "(p, tok, v) \<in> set (run_log (confirm_step c) ops a)"
  from confirmations.log_origin[OF this] assms(2)
  obtain ex where o: "p \<in> set ops" "op_moment p < ex" "(tok, v, ex) \<in> set (List.map_filter issued_confirmation ops)"
    by auto
  from run_log_step[OF l] obtain s0 where "confirmed c p s0 = Some (tok, v)" by (auto simp: confirm_step_def)
  then obtain ev c1 c2 where p: "p = RedeemConfirmation ev c1 c2" "confirmation_token c ev c1 = Inr (Some tok)"
    by (rule confirmed_Some)
  have "ex = (ex - seconds 3600) + seconds 3600" by simp
  then show "p \<in> set ops \<and> (\<exists>ev c1 c2 made. p = RedeemConfirmation ev c1 c2 \<and> confirmation_token c ev c1 = Inr (Some tok) \<and>
      c2 < made + seconds 3600 \<and> (tok, v, made + seconds 3600) \<in> set (List.map_filter issued_confirmation ops))"
    using o p by (metis op_moment.simps(1))
qed

lemma question_used_once:
  assumes "distinct (map fst (List.map_filter issued_question ops))" and "ad_questions a = []"
  shows "distinct (map (fst \<circ> snd) (run_log (question_step c) ops a))"
  by (rule questions.log_distinct) (use assms in simp_all)

definition demo_adapter_config :: adapter_config where
  "demo_adapter_config =
     \<lparr>ac_hmac = demo_hmac, ac_secret = ''k'', ac_bot_token = ''b'', ac_ingress = \<lparr>ic_allowed = [7], ic_limit = Some 3\<rparr>, ac_max_sessions = 5,
      ac_models = [''m1'', ''m2''], ac_default_model = ''m1'', ac_cap_ids = [''cap''], ac_default_caps = [], ac_store = True, ac_factory = True\<rparr>"

definition demo_adapter :: adapter where
  "demo_adapter = \<lparr>ad_confirm = [], ad_questions = [], ad_models = table_start True None,
     ad_caps = cap_load 90 0 0 True None\<rparr>"

definition demo_tap :: "string \<Rightarrow> telegram_event" where
  "demo_tap data =
     (base_event \<lparr>in_uuid = ''u'', in_trace = None, in_now = 0, in_clock = 0, in_json = (\<lambda>_. None), in_guess = (\<lambda>_. None)\<rparr>
        UserCallback 7 5 0 ''k'')\<lparr>ne_callback := Some \<lparr>cq_id = ''q'', cq_data = data, cq_origin = None\<rparr>\<rparr>"

definition demo_button_ops :: "button_op list" where
  "demo_button_ops =
     [IssueConfirmation ''abcdefghijkl'' 0 0 (''tg:5'', ''call'', True),
      RedeemConfirmation (demo_tap (sign_memory_confirmation_callback demo_hmac ''abcdefghij'' 5 ''k'' 0)) (seconds 5) (seconds 5),
      RedeemConfirmation (demo_tap (sign_memory_confirmation_callback demo_hmac ''abcdefghij'' 5 ''k'' 0)) (seconds 9) (seconds 9)]"

theorem confirmation_used_once_witness:
  "length (run_log (confirm_step demo_adapter_config) demo_button_ops demo_adapter) = 1 \<and>
   distinct (map (fst \<circ> snd) (run_log (confirm_step demo_adapter_config) demo_button_ops demo_adapter))"
proof
  show "length (run_log (confirm_step demo_adapter_config) demo_button_ops demo_adapter) = 1" by code_simp
  have "distinct (map fst (List.map_filter issued_confirmation demo_button_ops))" by code_simp
  moreover have "ad_confirm demo_adapter = []" by (simp add: demo_adapter_def)
  ultimately show "distinct (map (fst \<circ> snd) (run_log (confirm_step demo_adapter_config) demo_button_ops demo_adapter))"
    by (rule confirmation_used_once[THEN conjunct1])
qed

section \<open>The session menu and the models\<close>

lemma show_int_no_space: "x \<in> set (show_int i) \<Longrightarrow> \<not> py_isspace x"
proof -
  assume x: "x \<in> set (show_int i)"
  have "\<not> py_isspace (CHR ''-'')" by (simp add: py_isspace_def code_def)
  with x digit_char_not_sign[of 10 x] show ?thesis by (auto simp: show_int_def split: if_splits)
qed

lemma context_id_facts: "py_strip (context_id chat) = context_id chat" "context_id chat \<noteq> []" "context_id chat = context_id chat' \<longleftrightarrow> chat = chat'"
proof -
  have "\<forall>x \<in> set (context_id chat). \<not> py_isspace x"
    using show_int_no_space[of _ chat] by (auto simp: context_id_def) (simp_all add: py_isspace_def code_def)
  then show "py_strip (context_id chat) = context_id chat" by (rule py_strip_no_space)
  show "context_id chat \<noteq> []" by (simp add: context_id_def)
  show "context_id chat = context_id chat' \<longleftrightarrow> chat = chat'" by (simp add: context_id_def show_int_inj)
qed

text \<open>
  A model chosen by a button is an allowed one and holds for its chat.  A callback that sets a
  model carries the name of a model of the allowlist under a signature for its chat; the chat's
  override is that model afterwards and no other chat's override changes.  Whatever else a model
  callback does, it leaves the state as it is.
\<close>

theorem model_choice_allowed:
  assumes "handle_model_callback c e ev now a = (r, a')"
  shows "(r = Inr (Some m) \<longrightarrow> m \<in> set (ac_models c) \<and>
       (\<exists>q. ne_callback ev = Some q \<and> verify_model_callback (ac_hmac c) (cq_data q) (ne_chat ev) (callback_secret c) now = Inr (Some m)) \<and>
       (ne_chat ev \<noteq> 0 \<and> py_strip m \<noteq> [] \<longrightarrow> adapter_model_override a' (ne_chat ev) = Some (py_strip m))) \<and>
    (\<forall>chat. chat \<noteq> ne_chat ev \<longrightarrow> adapter_model_override a' chat = adapter_model_override a chat) \<and>
    ((\<forall>m. r \<noteq> Inr (Some m)) \<longrightarrow> a' = a) \<and> ad_confirm a' = ad_confirm a \<and> ad_questions a' = ad_questions a \<and> ad_caps a' = ad_caps a"
proof (cases "\<exists>m. r = Inr (Some m)")
  case True
  then obtain m0 q where q: "r = Inr (Some m0)" "ne_callback ev = Some q" "m0 \<in> set (ac_models c)"
    "verify_model_callback (ac_hmac c) (cq_data q) (ne_chat ev) (callback_secret c) now = Inr (Some m0)"
    and a': "a' = (if ne_chat ev \<noteq> 0 then a\<lparr>ad_models := set_model_override (ae_ok e) (context_id (ne_chat ev)) m0 (ad_models a)\<rparr> else a)"
    using assms unfolding handle_model_callback_def
    by (auto split: option.splits if_splits sum.splits)
  have here: "adapter_model_override a' (ne_chat ev) = Some (py_strip m0)" if "ne_chat ev \<noteq> 0" "py_strip m0 \<noteq> []"
    using that by (simp add: a' adapter_model_override_def set_model_override_def get_model_override_def table_set_def
        table_save_def stripped_def context_id_facts update_conv')
  have there: "adapter_model_override a' chat = adapter_model_override a chat" if "chat \<noteq> ne_chat ev" for chat
    using that by (simp add: a' adapter_model_override_def set_model_override_def get_model_override_def table_set_def
        table_save_def context_id_facts update_conv')
  have rest: "ad_confirm a' = ad_confirm a" "ad_questions a' = ad_questions a" "ad_caps a' = ad_caps a" by (simp_all add: a')
  from q here there rest show ?thesis by auto
next
  case False
  then have "a' = a"
    using assms False unfolding handle_model_callback_def by (auto split: option.splits if_splits sum.splits) metis
  with False show ?thesis by auto
qed

lemma sign_not_prefix: "colon \<notin> set a \<Longrightarrow> colon \<notin> set b \<Longrightarrow> a \<noteq> b \<Longrightarrow> \<not> prefix (b @ [colon]) (sign_compact h a tok chat secret made)"
proof
  assume a: "colon \<notin> set a" "colon \<notin> set b" "a \<noteq> b" and "prefix (b @ [colon]) (sign_compact h a tok chat secret made)"
  then obtain r where "sign_compact h a tok chat secret made = b @ colon # r" by (auto simp: prefix_def)
  then have "fst (partition_on colon (sign_compact h a tok chat secret made)) = b" using partition_on_append[OF a(2)] by simp
  moreover have "fst (partition_on colon (sign_compact h a tok chat secret made)) = a"
    using partition_on_append[OF a(1)] by (simp add: sign_compact_def Let_def)
  ultimately show False using a(3) by simp
qed

text \<open>The tap on a button of a menu of this chat, and its effect.\<close>

lemma tap_verified:
  assumes "hex_digest h" and "colon \<notin> set act" and "tok \<noteq> []" and "0 \<le> made"
    and "made \<le> now" and "timestamp_of now - timestamp_of made \<le> callback_ttl_seconds"
  shows "verify_compact h act (sign_compact h act tok chat secret made) chat secret now = Inr (Some tok)"
proof -
  let ?ts = "show_hex (timestamp_of made)"
  have "0 \<le> timestamp_of made" "timestamp_of made \<le> timestamp_of now"
    using assms(4,5) by (simp_all add: timestamp_of_def zdiv_mono1)
  then have "in_time ?ts now" using assms(6) by (simp add: in_time_def py_int_show_hex)
  moreover have "compare_digest (callback_signature h secret chat tok ?ts) (callback_signature h secret chat tok ?ts) = Inr True"
    using signature_facts(3)[OF assms(1)] by (simp add: compare_digest_def)
  ultimately show ?thesis
    unfolding sign_compact_def Let_def by (subst verify_fields) (use assms(2,3) signature_facts[OF assms(1)] in auto)
qed

lemma enumerate_mem: "(i, x) \<in> set (enumerate n xs) \<Longrightarrow> x \<in> set xs"
  by (auto simp: in_set_enumerate_eq)

lemma recent_sessions_facts:
  assumes "x \<in> set (list_recent_sessions c e d chat)"
  shows "of_chat chat (en_session x)" and "read_session d (en_session x) \<noteq> []"
    and "en_last x = sr_time (last (read_session d (en_session x)))"
proof -
  have "x \<in> set (List.map_filter (build_session_entry (ae_str e) d) (filter (of_chat chat) (list_sessions d)))"
    using assms by (auto simp: list_recent_sessions_def slice_to_def dest!: in_set_takeD split: if_splits)
  then show "of_chat chat (en_session x)" "read_session d (en_session x) \<noteq> []"
    "en_last x = sr_time (last (read_session d (en_session x)))"
    by (auto simp: map_filter_def build_session_entry_def Let_def split: if_splits)
qed

lemma of_chat_strip: "of_chat chat s \<Longrightarrow> py_strip s \<noteq> [] \<and> s \<noteq> []"
proof -
  assume "of_chat chat s"
  then obtain r where s: "s = CHR ''t'' # CHR ''g'' # r" by (auto simp: of_chat_def chat_prefix_def prefix_def)
  have "\<not> py_isspace (CHR ''t'')" "\<not> py_isspace (CHR ''g'')" by (simp_all add: py_isspace_def code_def)
  then have "dropWhile py_isspace s = s" "dropWhile py_isspace (rev s) \<noteq> []"
    by (auto simp: s dropWhile_eq_Nil_conv)
  then show ?thesis by (simp add: py_strip_def s)
qed

text \<open>
  The session menu offers the chat's own sessions, and its buttons lead to them.  The
  menu of a chat has at most as many buttons as configured, for sessions that have records and
  whose name is the chat's or extends it, those with the latest record first; a tap on a button in
  that chat within the hour makes the session of the button the active one, so the next update
  of the chat is routed to it.
\<close>

theorem session_menu_switches:
  assumes "hex_digest (ac_hmac c)" and "ac_store c" and "0 \<le> ac_max_sessions c" and "\<And>n. 0 \<le> ae_clk e n"
  shows "int (length (cr_actions (session_menu_response c e d chat sid))) \<le> ac_max_sessions c \<and>
    sorted_wrt (\<ge>) (map en_last (list_recent_sessions c e d chat)) \<and>
    (\<forall>b \<in> set (cr_actions (session_menu_response c e d chat sid)). \<exists>s n. of_chat chat s \<and> read_session d s \<noteq> [] \<and>
       (\<forall>ev now t q ev'. ne_chat ev = chat \<and> ne_callback ev = Some q \<and> cq_data q = ab_data b \<and> ae_clk e n \<le> now \<and>
          timestamp_of now - timestamp_of (ae_clk e n) \<le> 3600 \<and> 0 < chat \<and> ne_chat ev' = chat \<longrightarrow>
          fst (handle_resume_callback c e ev now t) = Inr (Some s) \<and>
          ne_session (apply_session_context (snd (handle_resume_callback c e ev now t)) ev') = py_strip s))"
proof (intro conjI ballI)
  let ?es = "list_recent_sessions c e d chat"
  have acts: "cr_actions (session_menu_response c e d chat sid) = map (session_button c e chat) (enumerate 1 ?es)"
    using assms(2) by (simp add: session_menu_response_def build_session_menu_def text_reply_def menu_reply_def)
  have "length ?es \<le> nat (ac_max_sessions c)" using assms(3) by (simp add: list_recent_sessions_def slice_to_def)
  then show "int (length (cr_actions (session_menu_response c e d chat sid))) \<le> ac_max_sessions c" using assms(3) by (simp add: acts)
  show "sorted_wrt (\<ge>) (map en_last ?es)"
    using assms(3) sorted_wrt_take[OF sorted_py_sorted_rev[of en_last]]
    by (simp add: list_recent_sessions_def slice_to_def sorted_wrt_map)
  fix b
  assume "b \<in> set (cr_actions (session_menu_response c e d chat sid))"
  then obtain i x where b: "b = session_button c e chat (i, x)" and x: "x \<in> set ?es"
    unfolding acts by (auto intro: enumerate_mem)
  let ?s = "en_session x"
  have s: "of_chat chat ?s" "read_session d ?s \<noteq> []" using recent_sessions_facts[OF x] by blast+
  note st = of_chat_strip[OF s(1)]
  have data: "ab_data b = sign_resume_callback (ac_hmac c) ?s chat (ac_secret c) (ae_clk e (i - 1))"
    by (simp add: b session_button_def action_def)
  have "fst (handle_resume_callback c e ev now t) = Inr (Some ?s) \<and>
      ne_session (apply_session_context (snd (handle_resume_callback c e ev now t)) ev') = py_strip ?s"
    if p: "ne_chat ev = chat" "ne_callback ev = Some q" "cq_data q = ab_data b" "ae_clk e (i - 1) \<le> now"
      "timestamp_of now - timestamp_of (ae_clk e (i - 1)) \<le> 3600" "0 < chat" "ne_chat ev' = chat" for ev now t q ev'
  proof -
    have "verify_resume_callback (ac_hmac c) (ab_data b) chat (ac_secret c) now = Inr (Some ?s)"
      unfolding data sign_resume_callback_def verify_resume_callback_def
      by (rule tap_verified) (use assms(1,4) st p in \<open>simp_all add: callback_ttl_seconds_def\<close>)
    then have h: "handle_resume_callback c e ev now t = (Inr (Some ?s), set_active_session (ae_ok e) (context_id chat) ?s t)"
      using p(1-3,6) assms(2) by (simp add: handle_resume_callback_def verify_resume_def)
    have "adapter_active_session (set_active_session (ae_ok e) (context_id chat) ?s t) chat = Some (py_strip ?s)"
      using p(6) st by (simp add: adapter_active_session_def set_active_session_def get_active_session_def table_set_def
          table_save_def stripped_def context_id_facts update_conv')
    then show ?thesis using h p(7) st by (simp add: apply_session_context_def)
  qed
  with s show "\<exists>s n. of_chat chat s \<and> read_session d s \<noteq> [] \<and>
       (\<forall>ev now t q ev'. ne_chat ev = chat \<and> ne_callback ev = Some q \<and> cq_data q = ab_data b \<and> ae_clk e n \<le> now \<and>
          timestamp_of now - timestamp_of (ae_clk e n) \<le> 3600 \<and> 0 < chat \<and> ne_chat ev' = chat \<longrightarrow>
          fst (handle_resume_callback c e ev now t) = Inr (Some s) \<and>
          ne_session (apply_session_context (snd (handle_resume_callback c e ev now t)) ev') = py_strip s)"
    by blast
qed

definition demo_adapter_env :: adapter_env where
  "demo_adapter_env =
     \<lparr>ae_clk = (\<lambda>n. int n), ae_hex = (\<lambda>n. ''abcdefghijklmnop''), ae_ok = True, ae_check = '' *'', ae_dash = '' - '',
      ae_long = (\<lambda>_. ''long''), ae_short = (\<lambda>_. ''short''), ae_str = (\<lambda>v. case v of PStr s \<Rightarrow> s | _ \<Rightarrow> ''?''), ae_H = id\<rparr>"

definition demo_chat_sessions :: sessions where
  "demo_chat_sessions =
     [(session_path ''tg:5'', fresh_log [\<lparr>sr_session = ''tg:5'', sr_seq = 0, sr_event = ''e'', sr_turn = ''t'', sr_time = 3,
         sr_type = UserMessage, sr_payload = [(''content'', PStr ''hello'')]\<rparr>])]"

theorem session_menu_switches_witness:
  "\<exists>b s. b \<in> set (cr_actions (session_menu_response demo_adapter_config demo_adapter_env demo_chat_sessions 5 ''tg:5'')) \<and>
     ab_label b = ''1. hello (short)'' \<and> of_chat 5 s"
proof -
  let ?as = "cr_actions (session_menu_response demo_adapter_config demo_adapter_env demo_chat_sessions 5 ''tg:5'')"
  have l: "map ab_label ?as = [''1. hello (short)'']" by code_simp
  then obtain b where b: "b \<in> set ?as" "ab_label b = ''1. hello (short)''" by (cases ?as) auto
  have h: "hex_digest (ac_hmac demo_adapter_config)" "ac_store demo_adapter_config" "0 \<le> ac_max_sessions demo_adapter_config"
    "\<And>n. 0 \<le> ae_clk demo_adapter_env n"
    by (simp_all add: demo_adapter_config_def demo_adapter_env_def demo_hmac_hex)
  from session_menu_switches[OF h, of demo_chat_sessions 5 "''tg:5''"] b(1) obtain s where "of_chat 5 s" by blast
  with b show ?thesis by blast
qed

definition demo_model_tap :: telegram_event where
  "demo_model_tap = demo_tap (sign_model_callback demo_hmac ''m2'' 5 ''k'' 0)"

theorem model_choice_allowed_witness:
  "adapter_model_override (snd (handle_model_callback demo_adapter_config demo_adapter_env demo_model_tap 7 demo_adapter)) 5 = Some ''m2'' \<and>
   adapter_model_override (snd (handle_model_callback demo_adapter_config demo_adapter_env demo_model_tap 7 demo_adapter)) 6 =
     adapter_model_override demo_adapter 6"
proof -
  let ?h = "handle_model_callback demo_adapter_config demo_adapter_env demo_model_tap 7 demo_adapter"
  have r: "fst ?h = Inr (Some ''m2'')" by code_simp
  have m: "ne_chat demo_model_tap = 5" "py_strip ''m2'' = ''m2''" by code_simp+
  from model_choice_allowed[OF surjective_pairing, of demo_adapter_config demo_adapter_env demo_model_tap 7 demo_adapter "''m2''"] r m
  show ?thesis by simp
qed

end
