(* ===== verification/Usage_Stats.thy ===== *)
theory Usage_Stats
  imports Telegram_Adapter
begin

text \<open>
  Usage statistics: channels/telegram/usage.py.  The price of a call (genai_prices), str of a
  value and the format of an amount are parameters.  Amounts are floats in the code and rational
  numbers here, so sums do not round.  A day is the number of days since the epoch; the
  isoformat of a date is the instant of its midnight.
\<close>

section \<open>Days\<close>

definition day_length :: time where
  "day_length = seconds 86400"

definition record_day :: "session_record \<Rightarrow> int" where
  "record_day r = sr_time r div day_length"

text \<open>date(d.year, d.month, 1): the day of the month from the day number, in the Gregorian calendar.\<close>

definition day_of_month :: "int \<Rightarrow> int" where
  "day_of_month n =
     (let z = n + 719468; era = z div 146097; doe = z - era * 146097;
          yoe = (doe - doe div 1460 + doe div 36524 - doe div 146096) div 365;
          doy = doe - (365 * yoe + yoe div 4 - yoe div 100); mp = (5 * doy + 2) div 153
      in doy - (153 * mp + 2) div 5 + 1)"

definition month_start :: "int \<Rightarrow> int" where
  "month_start n = n - (day_of_month n - 1)"

section \<open>Attribution\<close>

definition parse_session_chat_id :: "string \<Rightarrow> int option" where
  "parse_session_chat_id sid =
     (if \<not> prefix ''tg:'' sid then None else py_int 10 (hd (split_on colon (drop 3 sid))))"

definition session_belongs :: "string \<Rightarrow> string \<Rightarrow> session_record list \<Rightarrow> bool" where
  "session_belongs sid user rs =
     ((case parse_session_chat_id sid of Some n \<Rightarrow> show_int n = user | None \<Rightarrow> False) \<or>
      list_ex (\<lambda>r. sr_type r = UserMessage \<and> dget (sr_payload r) ''user_id'' = PStr user) rs)"

definition turn_user_map :: "session_record list \<Rightarrow> (string \<times> string) list" where
  "turn_user_map rs =
     fold (\<lambda>r m. if sr_type r = UserMessage
                  then (case dget (sr_payload r) ''user_id'' of
                          PStr u \<Rightarrow> if u \<noteq> [] then AList.update (sr_turn r) u m else m
                        | _ \<Rightarrow> m) else m) rs []"

definition turn_user :: "session_record list \<Rightarrow> session_record \<Rightarrow> pyval" where
  "turn_user rs r = of_opt PStr (map_of (turn_user_map rs) (sr_turn r))"

text \<open>The archive asks whether the field is truthy, the report whether it is None.\<close>

definition archive_user :: "session_record list \<Rightarrow> session_record \<Rightarrow> pyval" where
  "archive_user rs r =
     (let v = dget (sr_payload r) ''user_id'' in if truthy v then v else turn_user rs r)"

definition report_user :: "session_record list \<Rightarrow> session_record \<Rightarrow> pyval" where
  "report_user rs r =
     (let v = dget (sr_payload r) ''user_id'' in if v = PNone then turn_user rs r else v)"

section \<open>The usage of a record\<close>

record usage_item =
  ui_day :: int
  ui_in :: int
  ui_out :: int
  ui_cost :: rat
  ui_model :: string

text \<open>int(v or 0) and float(v or 0); None where Python raises.\<close>

definition int_or_zero :: "pyval \<Rightarrow> int option" where
  "int_or_zero v =
     (if \<not> truthy v then Some 0
      else case v of
             PInt n \<Rightarrow> Some n | PBool _ \<Rightarrow> Some 1
           | PReal q \<Rightarrow> Some (if q < 0 then - \<lfloor>- q\<rfloor> else \<lfloor>q\<rfloor>)
           | PStr s \<Rightarrow> py_int 10 s | _ \<Rightarrow> None)"

definition float_or_zero :: "pyval \<Rightarrow> rat option" where
  "float_or_zero v =
     (if \<not> truthy v then Some 0
      else case v of PInt n \<Rightarrow> Some (of_int n) | PBool _ \<Rightarrow> Some 1 | PReal q \<Rightarrow> Some q | _ \<Rightarrow> None)"

definition default_model_ref :: string where
  "default_model_ref = ''claude-sonnet-4-5''"

definition strip_prefix :: "string \<Rightarrow> string \<Rightarrow> string" where
  "strip_prefix p s = (if prefix p s then drop (length p) s else s)"

definition calc_cost :: "(int \<Rightarrow> int \<Rightarrow> string \<Rightarrow> rat option) \<Rightarrow> int \<Rightarrow> int \<Rightarrow> string \<Rightarrow> rat" where
  "calc_cost price i n model =
     (let r = strip_prefix ''anthropic:'' (if model \<noteq> [] then model else default_model_ref);
          m = (if r \<noteq> [] then r else default_model_ref)
      in case price i n m of Some c \<Rightarrow> c | None \<Rightarrow> 0)"

record usage_env =
  ue_price :: "int \<Rightarrow> int \<Rightarrow> string \<Rightarrow> rat option"
  ue_str :: "pyval \<Rightarrow> string"
  ue_default :: string
  ue_format :: "rat \<Rightarrow> string"
  ue_now :: time

definition usage_of :: "usage_env \<Rightarrow> string \<Rightarrow> pyval \<Rightarrow> session_record \<Rightarrow> exn + usage_item list" where
  "usage_of e user who r =
     (if sr_type r \<noteq> AssistantMessage \<or> who \<noteq> PStr user then Inr []
      else case dget (sr_payload r) ''usage'' of
             PDict u \<Rightarrow>
               (case (int_or_zero (dget u ''input_tokens''), int_or_zero (dget u ''output_tokens'')) of
                  (Some i, Some n) \<Rightarrow>
                    if i = 0 \<and> n = 0 then Inr []
                    else (let v = dget (sr_payload r) ''model_id''; m = (if truthy v then ue_str e v else ue_default e)
                          in Inr [\<lparr>ui_day = record_day r, ui_in = i, ui_out = n, ui_cost = calc_cost (ue_price e) i n m, ui_model = m\<rparr>])
                | _ \<Rightarrow> Inl (ValueError ''int''))
           | _ \<Rightarrow> Inr [])"

text \<open>A loop that stops at the first exception.\<close>

fun collect :: "('a \<Rightarrow> exn + 'b list) \<Rightarrow> 'a list \<Rightarrow> exn + 'b list" where
  "collect f [] = Inr []"
| "collect f (x # xs) =
     (case f x of Inl y \<Rightarrow> Inl y | Inr b \<Rightarrow> (case collect f xs of Inl y \<Rightarrow> Inl y | Inr bs \<Rightarrow> Inr (b @ bs)))"

section \<open>The archive\<close>

definition archive_path :: "string \<Rightarrow> string" where
  "archive_path user = safe_id user @ ''.jsonl''"

definition archive_line :: "usage_item \<Rightarrow> dict" where
  "archive_line u =
     [(''date'', PTime (ui_day u * day_length)), (''input_tokens'', PInt (ui_in u)), (''output_tokens'', PInt (ui_out u)),
      (''cost_usd'', PReal (ui_cost u)), (''model_id'', PStr (ui_model u))]"

text \<open>The archive is None for a service without a directory.\<close>

definition archive_session_usage ::
  "usage_env \<Rightarrow> sessions \<Rightarrow> string \<Rightarrow> string \<Rightarrow> log_file dir option \<Rightarrow> exn + log_file dir option" where
  "archive_session_usage e d sid user ar =
     (case ar of
        None \<Rightarrow> Inr None
      | Some a \<Rightarrow>
          (let rs = read_session d sid
           in if rs = [] \<or> \<not> session_belongs sid user rs then Inr ar
              else case collect (\<lambda>r. usage_of e user (archive_user rs r) r) rs of
                     Inl x \<Rightarrow> Inl x
                   | Inr us \<Rightarrow>
                       if us = [] then Inr ar
                       else Inr (Some (AList.update (archive_path user)
                                  (file_append_lines (map archive_line us) (map_of a (archive_path user))) a))))"

type_synonym usage_entry = "int \<times> int \<times> int \<times> rat"

definition read_archive_line :: "doc \<Rightarrow> usage_entry option" where
  "read_archive_line l =
     (case l of
        NotJson \<Rightarrow> None
      | Obj d \<Rightarrow>
          (case (dget d ''date'', int_or_zero (dget d ''input_tokens''), int_or_zero (dget d ''output_tokens''),
                 float_or_zero (dget d ''cost_usd'')) of
             (PTime t, Some i, Some n, Some c) \<Rightarrow> Some (t div day_length, i, n, c)
           | _ \<Rightarrow> None))"

definition read_archive :: "log_file dir option \<Rightarrow> string \<Rightarrow> usage_entry list" where
  "read_archive ar user =
     (case ar of
        None \<Rightarrow> []
      | Some a \<Rightarrow> (case map_of a (archive_path user) of None \<Rightarrow> [] | Some f \<Rightarrow> List.map_filter read_archive_line (log_lines f)))"

section \<open>The report\<close>

record usage_bucket =
  ub_in :: int
  ub_out :: int
  ub_cost :: rat

definition bucket_add :: "usage_entry \<Rightarrow> usage_bucket \<Rightarrow> usage_bucket" where
  "bucket_add x b =
     (case x of (d, i, n, c) \<Rightarrow> \<lparr>ub_in = ub_in b + i, ub_out = ub_out b + n, ub_cost = ub_cost b + c\<rparr>)"

definition bucket_sum :: "usage_entry list \<Rightarrow> usage_bucket" where
  "bucket_sum xs = fold bucket_add xs \<lparr>ub_in = 0, ub_out = 0, ub_cost = 0\<rparr>"

definition entry_of :: "usage_item \<Rightarrow> usage_entry" where
  "entry_of u = (ui_day u, ui_in u, ui_out u, ui_cost u)"

text \<open>The entries of one session that count for the user, and those of all sessions.\<close>

definition session_usage :: "usage_env \<Rightarrow> sessions \<Rightarrow> string \<Rightarrow> string \<Rightarrow> exn + usage_item list" where
  "session_usage e d user sid =
     (let rs = read_session d sid
      in if rs = [] \<or> \<not> session_belongs sid user rs then Inr []
         else collect (\<lambda>r. usage_of e user (report_user rs r) r) rs)"

definition all_usage :: "usage_env \<Rightarrow> sessions \<Rightarrow> string \<Rightarrow> exn + (string \<times> usage_entry) list" where
  "all_usage e d user =
     collect (\<lambda>sid. map_sum id (map (\<lambda>u. (sid, entry_of u))) (session_usage e d user sid)) (list_sessions d)"

record usage_report =
  ur_session :: usage_bucket
  ur_day :: usage_bucket
  ur_month :: usage_bucket

definition usage_report_of ::
  "usage_env \<Rightarrow> sessions \<Rightarrow> log_file dir option \<Rightarrow> string \<Rightarrow> string \<Rightarrow> exn + usage_report" where
  "usage_report_of e d ar user sid =
     (let today = ue_now e div day_length; start = month_start today
      in case all_usage e d user of
           Inl x \<Rightarrow> Inl x
         | Inr xs \<Rightarrow>
             (let ys = map snd xs @ read_archive ar user
              in Inr \<lparr>ur_session = bucket_sum (map snd (filter (\<lambda>x. fst x = sid) xs)),
                      ur_day = bucket_sum (filter (\<lambda>y. fst y = today) ys),
                      ur_month = bucket_sum (filter (\<lambda>y. fst y \<ge> start) ys)\<rparr>))"

definition bucket_lines :: "usage_env \<Rightarrow> usage_bucket \<Rightarrow> string list" where
  "bucket_lines e b =
     [''  Tokens: '' @ show_int (ub_in b) @ '' in / '' @ show_int (ub_out b) @ '' out'',
      ''  Cost: $'' @ ue_format e (ub_cost b)]"

definition no_tokens :: "usage_bucket \<Rightarrow> bool" where
  "no_tokens b = (ub_in b = 0 \<and> ub_out b = 0)"

definition build_usage_response ::
  "usage_env \<Rightarrow> sessions \<Rightarrow> log_file dir option \<Rightarrow> telegram_event \<Rightarrow> exn + channel_response" where
  "build_usage_response e d ar ev =
     (case usage_report_of e d ar (ne_user ev) (ne_session ev) of
        Inl x \<Rightarrow> Inl x
      | Inr u \<Rightarrow>
          Inr ((text_reply (ne_session ev)
             (if no_tokens (ur_session u) \<and> no_tokens (ur_day u) \<and> no_tokens (ur_month u)
              then ''No usage recorded yet. Send a message to start tracking.''
              else join [newline]
                ([''*Usage statistics*'', [], ''*Current session*''] @ bucket_lines e (ur_session u) @
                 [[], ''*Today (UTC)*''] @ bucket_lines e (ur_day u) @ [[], ''*This month (UTC)*''] @ bucket_lines e (ur_month u))))
           \<lparr>cr_parse := Some ''Markdown''\<rparr>))"

lemma month_start_examples: "month_start 0 = 0 \<and> day_of_month 11016 = 29 \<and> month_start 20000 = 19997"
  by code_simp

section \<open>A reset keeps the usage of the day and the month\<close>

lemma bucket_sum_eq:
  "bucket_sum xs = \<lparr>ub_in = sum_list (map (\<lambda>x. fst (snd x)) xs), ub_out = sum_list (map (\<lambda>x. fst (snd (snd x))) xs),
     ub_cost = sum_list (map (\<lambda>x. snd (snd (snd x))) xs)\<rparr>"
proof -
  have "fold bucket_add xs b = \<lparr>ub_in = ub_in b + sum_list (map (\<lambda>x. fst (snd x)) xs),
      ub_out = ub_out b + sum_list (map (\<lambda>x. fst (snd (snd x))) xs), ub_cost = ub_cost b + sum_list (map (\<lambda>x. snd (snd (snd x))) xs)\<rparr>" for b
    by (induction xs arbitrary: b) (auto simp: bucket_add_def)
  then show ?thesis by (simp add: bucket_sum_def)
qed

lemma bucket_sum_perm: "bucket_sum (filter P (a @ s @ b @ o1)) = bucket_sum (filter P ((a @ b) @ o1 @ s))"
  by (simp add: bucket_sum_eq)

lemma collect_append:
  "collect f (xs @ ys) =
     (case collect f xs of Inl x \<Rightarrow> Inl x | Inr a \<Rightarrow> (case collect f ys of Inl x \<Rightarrow> Inl x | Inr b \<Rightarrow> Inr (a @ b)))"
  by (induction xs) (auto split: sum.splits)

lemma collect_cong: "(\<And>x. x \<in> set xs \<Longrightarrow> f x = g x) \<Longrightarrow> collect f xs = collect g xs"
proof (induction xs)
  case (Cons x xs)
  then have "f x = g x" "collect f xs = collect g xs" by simp_all
  then show ?case by (cases "g x") simp_all
qed simp

lemma read_archive_line_line: "read_archive_line (Obj (archive_line u)) = Some (entry_of u)"
  by (simp add: read_archive_line_def archive_line_def int_or_zero_def float_or_zero_def entry_of_def day_length_def dget_def)

text \<open>Every file is named after the session it holds.\<close>

definition sessions_named :: "sessions \<Rightarrow> bool" where
  "sessions_named d = (dir_ok d \<and> (\<forall>e \<in> set d. \<forall>s. first_session_id e = Some s \<longrightarrow> fst e = session_path s))"

text \<open>The user ids of the records are texts that are not empty, or missing.\<close>

definition users_given :: "session_record list \<Rightarrow> bool" where
  "users_given rs = (\<forall>r \<in> set rs. truthy (dget (sr_payload r) ''user_id'') \<or> dget (sr_payload r) ''user_id'' = PNone)"

lemma clear_listed:
  assumes "sessions_named d" and "sid \<in> set (list_sessions d)"
  obtains l1 l2 where "list_sessions d = l1 @ sid # l2" "list_sessions (snd (clear_session d sid)) = l1 @ l2"
    "sid \<notin> set (l1 @ l2)" "\<And>s. s \<in> set (l1 @ l2) \<Longrightarrow> read_session (snd (clear_session d sid)) s = read_session d s"
    "fst (clear_session d sid)"
proof -
  obtain f where f: "(session_path sid, f) \<in> set d" "first_session_id (session_path sid, f) = Some sid"
    using assms unfolding list_sessions_def sessions_named_def by (force simp: map_filter_def)
  then obtain d1 d2 where d: "d = d1 @ (session_path sid, f) # d2" by (metis split_list)
  have dist: "session_path sid \<notin> fst ` set (d1 @ d2)"
    using assms(1) by (auto simp: sessions_named_def dir_ok_def d)
  have "filter (\<lambda>(k, _). session_path sid \<noteq> k) (d1 @ d2) = d1 @ d2"
    using dist by (intro filter_True) (metis (mono_tags, lifting) case_prod_beta imageI)
  then have del: "AList.delete (session_path sid) d = d1 @ d2" by (simp add: d AList.delete_eq)
  have clear: "clear_session d sid = (True, d1 @ d2)"
    using f(1) assms(1) by (auto simp: clear_session_def file_exists_def unlink_def del map_of_eq_None_iff intro: rev_image_eqI)
  have other: "session_path s \<noteq> session_path sid" if s: "s \<in> set (List.map_filter first_session_id (d1 @ d2))" for s
  proof -
    have "\<exists>e \<in> set (d1 @ d2). first_session_id e = Some s" using s by (force simp: map_filter_def)
    then obtain e where e: "e \<in> set (d1 @ d2)" "first_session_id e = Some s" by blast
    then have "fst e = session_path s" using assms(1) by (auto simp: sessions_named_def d)
    with dist e(1) show ?thesis by (metis imageI)
  qed
  show ?thesis
  proof (rule that[of "List.map_filter first_session_id d1" "List.map_filter first_session_id d2"])
    show "list_sessions d = List.map_filter first_session_id d1 @ sid # List.map_filter first_session_id d2"
      using f(2) by (simp add: list_sessions_def d map_filter_append map_filter_Cons)
    show "list_sessions (snd (clear_session d sid)) = List.map_filter first_session_id d1 @ List.map_filter first_session_id d2"
      by (simp add: clear list_sessions_def map_filter_append)
    show "sid \<notin> set (List.map_filter first_session_id d1 @ List.map_filter first_session_id d2)"
      using other by (auto simp: map_filter_append)
    show "fst (clear_session d sid)" by (simp add: clear)
    fix s
    assume "s \<in> set (List.map_filter first_session_id d1 @ List.map_filter first_session_id d2)"
    then have "session_path s \<noteq> session_path sid" using other by (simp add: map_filter_append)
    then have "map_of (d1 @ d2) (session_path s) = map_of d (session_path s)" by (simp add: d map_add_def split: option.splits)
    then show "read_session (snd (clear_session d sid)) s = read_session d s"
      by (simp add: clear read_session_def read_all_records_def)
  qed
qed

lemma collect_keys:
  "collect (\<lambda>s. map_sum id (map (\<lambda>x. (s, g x))) (h s)) l = Inr xs \<Longrightarrow> x \<in> set xs \<Longrightarrow> fst x \<in> set l"
proof (induction l arbitrary: xs)
  case (Cons s l)
  then show ?case by (cases "h s") (auto split: sum.splits)
qed simp

text \<open>The archive gets what the report counts for the session and the user.\<close>

lemma archive_adds:
  assumes "archive_session_usage e d sid user (Some a) = Inr a'" and "users_given (read_session d sid)"
    and "\<And>f. map_of a (archive_path user) = Some f \<Longrightarrow> log_ok f" and "session_usage e d user sid = Inr us"
  shows "read_archive a' user = read_archive (Some a) user @ map entry_of us"
proof (cases "read_session d sid = [] \<or> \<not> session_belongs sid user (read_session d sid)")
  case True
  then have "us = []" "a' = Some a" using assms(1,4) by (auto simp: session_usage_def archive_session_usage_def Let_def)
  then show ?thesis by simp
next
  case False
  let ?rs = "read_session d sid"
  have "archive_user ?rs r = report_user ?rs r" if "r \<in> set ?rs" for r
    using assms(2) that by (auto simp: users_given_def archive_user_def report_user_def Let_def)
  then have "collect (\<lambda>r. usage_of e user (archive_user ?rs r) r) ?rs = Inr us"
    using assms(4) False collect_cong[of ?rs "\<lambda>r. usage_of e user (archive_user ?rs r) r" "\<lambda>r. usage_of e user (report_user ?rs r) r"]
    by (simp add: session_usage_def Let_def)
  then have a': "a' = (if us = [] then Some a else Some (AList.update (archive_path user)
      (file_append_lines (map archive_line us) (map_of a (archive_path user))) a))"
    using assms(1) False by (auto simp: archive_session_usage_def Let_def split: if_splits)
  have "List.map_filter read_archive_line (map Obj (map archive_line us)) = map entry_of us"
    by (induction us) (simp_all add: map_filter_Cons map_filter_Nil read_archive_line_line)
  then show ?thesis
    using assms(3) by (cases "map_of a (archive_path user)")
      (auto simp: a' read_archive_def log_lines_append_ok update_conv' comp_def file_append_lines_def map_filter_Nil log_ok_def)
qed

text \<open>
  C26: a reset keeps the usage of the user who resets.  When the usage of that user in a session
  is archived and the session is cleared, the report the same user gets afterwards shows for
  today and for this month the tokens and the costs it showed before, and nothing for the
  cleared session, whatever sessions exist and whenever the report is made.  This holds if the
  log files are named after their sessions, the user ids of the session are texts and the
  archive file ends in a newline.  Costs are exact numbers here; the code adds floats, in another
  order after the reset, so its sums may differ in the last digits.  Nothing is archived for the
  other users of a group session: their usage of the session is lost.
\<close>

theorem reset_keeps_usage:
  assumes "archive_session_usage e d sid user (Some a) = Inr a'" and "sessions_named d" and "sid \<in> set (list_sessions d)"
    and "users_given (read_session d sid)" and "\<And>f. map_of a (archive_path user) = Some f \<Longrightarrow> log_ok f"
    and "usage_report_of e d (Some a) user sid = Inr u"
  shows "fst (clear_session d sid) \<and>
    (\<exists>u'. usage_report_of e (snd (clear_session d sid)) a' user sid = Inr u' \<and>
       ur_day u' = ur_day u \<and> ur_month u' = ur_month u \<and> ur_session u' = \<lparr>ub_in = 0, ub_out = 0, ub_cost = 0\<rparr>)"
proof -
  obtain l1 l2 where l: "list_sessions d = l1 @ sid # l2" "list_sessions (snd (clear_session d sid)) = l1 @ l2"
    "sid \<notin> set (l1 @ l2)" "\<And>s. s \<in> set (l1 @ l2) \<Longrightarrow> read_session (snd (clear_session d sid)) s = read_session d s"
    "fst (clear_session d sid)"
    using clear_listed[OF assms(2,3)] by metis
  let ?d' = "snd (clear_session d sid)"
  let ?f = "\<lambda>d s. map_sum id (map (\<lambda>x. (s, entry_of x))) (session_usage e d user s)"
  obtain xs where xs: "all_usage e d user = Inr xs" using assms(6) by (auto simp: usage_report_of_def Let_def split: sum.splits)
  then obtain A S B where parts: "collect (?f d) l1 = Inr A" "?f d sid = Inr S" "collect (?f d) l2 = Inr B" "xs = A @ S @ B"
    by (auto simp: all_usage_def l(1) collect_append split: sum.splits)
  obtain us where us: "session_usage e d user sid = Inr us" "S = map (\<lambda>x. (sid, entry_of x)) us"
    using parts(2) by (cases "session_usage e d user sid") auto
  have same: "?f ?d' s = ?f d s" if "s \<in> set (l1 @ l2)" for s using l(4)[OF that] by (simp add: session_usage_def)
  have after: "all_usage e ?d' user = Inr (A @ B)"
    using parts(1,3) collect_cong[of l1 "?f ?d'" "?f d"] collect_cong[of l2 "?f ?d'" "?f d"] same
    by (simp add: all_usage_def l(2) collect_append)
  have archived: "read_archive a' user = read_archive (Some a) user @ map entry_of us"
    by (rule archive_adds) (use assms us in auto)
  have keys: "fst ` set A \<subseteq> set l1" "fst ` set B \<subseteq> set l2" using parts(1,3) by (auto dest: collect_keys)
  have none: "filter (\<lambda>x. fst x = sid) (A @ B) = []" using keys l(3) by (auto simp: filter_empty_conv)
  have S: "map snd S = map entry_of us" by (simp add: us(2) comp_def)
  let ?o = "read_archive (Some a) user"
  have "bucket_sum (filter P (map snd (A @ B) @ read_archive a' user)) = bucket_sum (filter P (map snd xs @ ?o))" for P
    using bucket_sum_perm[of P "map snd A" "map entry_of us" "map snd B" ?o] by (simp add: archived parts(4) S)
  moreover have "bucket_sum [] = \<lparr>ub_in = 0, ub_out = 0, ub_cost = 0\<rparr>" by (simp add: bucket_sum_def)
  ultimately show ?thesis
    using assms(6) l(5) none by (auto simp: usage_report_of_def Let_def xs after)
qed

definition demo_usage_env :: usage_env where
  "demo_usage_env =
     \<lparr>ue_price = (\<lambda>i n m. Some (of_int (i + 2 * n))), ue_str = (\<lambda>v. case v of PStr s \<Rightarrow> s | _ \<Rightarrow> ''?''), ue_default = ''m'',
      ue_format = (\<lambda>_. ''1''), ue_now = seconds 86500\<rparr>"

definition demo_usage_record :: "int \<Rightarrow> record_type \<Rightarrow> dict \<Rightarrow> session_record" where
  "demo_usage_record n ty p =
     \<lparr>sr_session = ''tg:7'', sr_seq = n, sr_event = show_int n, sr_turn = ''t'', sr_time = seconds 86400, sr_type = ty, sr_payload = p\<rparr>"

definition demo_usage_sessions :: sessions where
  "demo_usage_sessions =
     [(session_path ''tg:7'', fresh_log
         [demo_usage_record 0 UserMessage [(''user_id'', PStr ''7'')],
          demo_usage_record 1 AssistantMessage [(''usage'', PDict [(''input_tokens'', PInt 3), (''output_tokens'', PInt 4)])]])]"

definition demo_archive :: "log_file dir" where
  "demo_archive =
     [(archive_path ''7'', \<lparr>log_lines = [Obj (archive_line \<lparr>ui_day = 1, ui_in = 3, ui_out = 4, ui_cost = 11, ui_model = ''m''\<rparr>)], log_torn = False\<rparr>)]"

lemma demo_archived:
  "archive_session_usage demo_usage_env demo_usage_sessions ''tg:7'' ''7'' (Some []) = Inr (Some demo_archive)"
  by code_simp

lemma demo_reported:
  "usage_report_of demo_usage_env demo_usage_sessions (Some []) ''7'' ''tg:7'' =
     Inr \<lparr>ur_session = \<lparr>ub_in = 3, ub_out = 4, ub_cost = 11\<rparr>, ur_day = \<lparr>ub_in = 3, ub_out = 4, ub_cost = 11\<rparr>,
          ur_month = \<lparr>ub_in = 3, ub_out = 4, ub_cost = 11\<rparr>\<rparr>"
  by code_simp

theorem reset_keeps_usage_witness:
  "\<exists>u'. usage_report_of demo_usage_env (snd (clear_session demo_usage_sessions ''tg:7'')) (Some demo_archive) ''7'' ''tg:7'' = Inr u' \<and>
     ub_in (ur_day u') = 3 \<and> ub_in (ur_session u') = 0"
proof -
  have "sessions_named demo_usage_sessions"
    by (simp add: sessions_named_def demo_usage_sessions_def dir_ok_def first_session_id_def fresh_log_def demo_usage_record_def)
  moreover have "''tg:7'' \<in> set (list_sessions demo_usage_sessions)" by code_simp
  moreover have "users_given (read_session demo_usage_sessions ''tg:7'')" unfolding users_given_def by code_simp
  ultimately show ?thesis using reset_keeps_usage[OF demo_archived _ _ _ _ demo_reported] by force
qed

text \<open>In a group session the reset of one user loses the usage of another.\<close>

definition demo_group_sessions :: sessions where
  "demo_group_sessions =
     [(session_path ''tg:7'', fresh_log
         [demo_usage_record 0 UserMessage [(''user_id'', PStr ''8'')],
          demo_usage_record 1 AssistantMessage [(''usage'', PDict [(''input_tokens'', PInt 3), (''output_tokens'', PInt 4)])]])]"

lemma reset_drops_other_users:
  "\<exists>u u'. usage_report_of demo_usage_env demo_group_sessions (Some []) ''8'' ''tg:7'' = Inr u \<and> ub_in (ur_day u) = 3 \<and>
     archive_session_usage demo_usage_env demo_group_sessions ''tg:7'' ''7'' (Some []) = Inr (Some []) \<and>
     usage_report_of demo_usage_env (snd (clear_session demo_group_sessions ''tg:7'')) (Some []) ''8'' ''tg:7'' = Inr u' \<and>
     ub_in (ur_day u') = 0"
proof -
  have "usage_report_of demo_usage_env demo_group_sessions (Some []) ''8'' ''tg:7'' =
     Inr \<lparr>ur_session = \<lparr>ub_in = 3, ub_out = 4, ub_cost = 11\<rparr>, ur_day = \<lparr>ub_in = 3, ub_out = 4, ub_cost = 11\<rparr>,
          ur_month = \<lparr>ub_in = 3, ub_out = 4, ub_cost = 11\<rparr>\<rparr>" by code_simp
  moreover have "archive_session_usage demo_usage_env demo_group_sessions ''tg:7'' ''7'' (Some []) = Inr (Some [])" by code_simp
  moreover have "usage_report_of demo_usage_env (snd (clear_session demo_group_sessions ''tg:7'')) (Some []) ''8'' ''tg:7'' =
     Inr \<lparr>ur_session = \<lparr>ub_in = 0, ub_out = 0, ub_cost = 0\<rparr>, ur_day = \<lparr>ub_in = 0, ub_out = 0, ub_cost = 0\<rparr>,
          ur_month = \<lparr>ub_in = 0, ub_out = 0, ub_cost = 0\<rparr>\<rparr>" by code_simp
  ultimately show ?thesis by force
qed

end
