(* ===== verification/Handler.thy ===== *)
theory Handler
  imports Orchestrator Confirmation Delegation Vocabulary Configuration Usage_Stats
begin

text \<open>
  The handler of the events of the Telegram channel: api/orchestrator_handler.py, with the
  replies of api/utils.py and the two callbacks of the delegation coordinator,
  api/delegation_feedback_handler.py and api/question_relay_handler.py.  It routes an event to
  the adapter, the delegation coordinator, the memory confirmations, the usage statistics, the vocabulary
  or a turn of the orchestrator.  The replies in Russian are the constructors of a datatype,
  written out by a parameter; json.loads, the validation of the payloads by pydantic and the body
  of an HTTP error are parameters.  Notifications sent while a turn runs are the functions at
  the end of the first section; sending them has no effect on the state.
\<close>

section \<open>State and services\<close>

record ('m, 'c) hworld =
  hw_adapter :: adapter
  hw_relay :: relay
  hw_tasks :: "doc dir"
  hw_registry :: registry
  hw_verbose :: verbose_state
  hw_world :: "'m world"
  hw_archive :: "log_file dir option"
  hw_vocab :: "'c vocab_file dir"

datatype vocab_reply =
  StoreMissing | BadPayload | SaveFailed exn | UpdatedOne nat | UpdatedFew nat | UpdatedMany nat

record ('p, 'i, 'm, 'c) handler_env =
  he_cfg :: adapter_config
  he_ad :: adapter_env
  he_clk :: "nat \<Rightarrow> time"
  he_coord :: bool
  he_confirm :: "('p, 'i, 'm) confirm_env option"
  he_reason :: "'p \<Rightarrow> string"
  he_usage :: "usage_env option"
  he_registry :: "(nat \<Rightarrow> bool) option"
  he_verbose :: bool
  he_vocab :: "'c fsrs option"
  he_json :: "string \<Rightarrow> pyval option"
  he_exercise :: "pyval \<Rightarrow> card_result list option"
  he_blanks :: "pyval \<Rightarrow> (direction \<times> (string \<times> bool \<times> int option) list) option"
  he_words :: "vocab_reply \<Rightarrow> string"
  he_orch :: "string list option \<Rightarrow> ('i, 'm) orch_env"
  he_body :: pyval
  he_compacted :: string

type_synonym ('m, 'c) handled_event = "(turn_error + channel_response option) \<times> ('m, 'c) hworld"

definition reply :: "string \<Rightarrow> string \<Rightarrow> turn_error + channel_response option" where
  "reply sid t = Inr (Some (text_reply sid t))"

definition markdown_reply :: "string \<Rightarrow> string \<Rightarrow> turn_error + channel_response option" where
  "markdown_reply sid t = Inr (Some ((text_reply sid t)\<lparr>cr_parse := Some ''Markdown''\<rparr>))"

definition raised :: "exn \<Rightarrow> turn_error + channel_response option" where
  "raised x = Inl (TurnError x)"

definition webapp_reply :: "string \<Rightarrow> string \<Rightarrow> (string \<times> string \<times> string \<times> string) list \<Rightarrow> channel_response" where
  "webapp_reply sid t bs =
     menu_reply sid t None ''reply_keyboard''
       (map (\<lambda>(label, url, i, data). \<lparr>ab_label = label, ab_id = i, ab_data = data, ab_url = nonempty (Some url)\<rparr>) bs)"

text \<open>The notifications of a running turn: a tool call, intermediate text.\<close>

definition tool_call_message ::
  "(string \<Rightarrow> pyval option) \<Rightarrow> (pyval \<Rightarrow> string) \<Rightarrow> string \<Rightarrow> string \<Rightarrow> string \<Rightarrow> string \<Rightarrow> channel_response" where
  "tool_call_message parse dumps gear sid tool args =
     (let v = (if args = [] \<or> args = ''{}'' then PDict [] else case parse args of Some v \<Rightarrow> v | None \<Rightarrow> PDict []);
          head = gear @ ''`'' @ tool @ ''`''
      in (text_reply sid
            (if truthy v then head @ [newline] @ ''```'' @ [newline] @ dumps v @ [newline] @ ''```'' else head))
           \<lparr>cr_parse := Some ''Markdown''\<rparr>)"

definition streaming_message :: "string \<Rightarrow> string \<Rightarrow> channel_response option" where
  "streaming_message sid t = (if py_strip t = [] then None else Some (text_reply sid t))"

section \<open>Answers to delegated tasks\<close>

definition answer_received :: string where
  "answer_received = ''Answer received. The task will continue.''"

definition handle_pending_answer :: "telegram_event \<Rightarrow> string \<Rightarrow> ('m, 'c) hworld \<Rightarrow> ('m, 'c) handled_event" where
  "handle_pending_answer ev t w =
     (case submit_delegation_answer (ne_session ev) t (hw_relay w) of
        (ok, r) \<Rightarrow>
          (reply (ne_session ev)
             (if ok then answer_received else ''Could not deliver your answer to the task. Please try again.''),
           w\<lparr>hw_relay := r\<rparr>))"

definition handle_question_tap ::
  "('p, 'i, 'm, 'c) handler_env \<Rightarrow> telegram_event \<Rightarrow> ('m, 'c) hworld \<Rightarrow> ('m, 'c) handled_event" where
  "handle_question_tap e ev w =
     (case consume_question (he_cfg e) ev (he_clk e 2) (he_clk e 3) (hw_adapter w) of
        (Inl x, a) \<Rightarrow> (raised x, w\<lparr>hw_adapter := a\<rparr>)
      | (Inr None, a) \<Rightarrow> (reply (ne_session ev) ''Invalid or expired delegation answer.'', w\<lparr>hw_adapter := a\<rparr>)
      | (Inr (Some (sid, t)), a) \<Rightarrow>
          (let w1 = w\<lparr>hw_adapter := a\<rparr>
           in if \<not> he_coord e \<or> \<not> has_pending_question sid (hw_relay w1)
              then (reply sid ''The question has already been answered or timed out.'', w1)
              else case submit_delegation_answer sid t (hw_relay w1) of
                     (ok, r) \<Rightarrow>
                       (reply sid (if ok then answer_received
                                   else ''Could not submit answer. The task may have already completed.''),
                        w1\<lparr>hw_relay := r\<rparr>)))"

section \<open>Commands\<close>

definition handle_stop :: "('p, 'i, 'm, 'c) handler_env \<Rightarrow> telegram_event \<Rightarrow> ('m, 'c) hworld \<Rightarrow> ('m, 'c) handled_event" where
  "handle_stop e ev w =
     (let cancelled = (case he_registry e of Some running \<Rightarrow> fst (reg_cancel running (ne_session ev) (hw_registry w)) | None \<Rightarrow> False)
      in (reply (ne_session ev) (if cancelled then ''Stopped.'' else ''Nothing is currently running.''), w))"

definition handle_verbose :: "('p, 'i, 'm, 'c) handler_env \<Rightarrow> telegram_event \<Rightarrow> ('m, 'c) hworld \<Rightarrow> ('m, 'c) handled_event" where
  "handle_verbose e ev w =
     (let (on, v) = (if he_verbose e \<and> ne_chat ev \<noteq> 0 then verbose_toggle (ae_ok (he_ad e)) (ne_chat ev) (hw_verbose w)
                     else (False, hw_verbose w))
      in (markdown_reply (ne_session ev)
            (''Verbose mode '' @ (if on then ''*on*'' @ ae_dash (he_ad e) @ ''tool calls will be shown'' else ''*off*'') @ ''.''),
          w\<lparr>hw_verbose := v\<rparr>))"

definition handle_new :: "('p, 'i, 'm, 'c) handler_env \<Rightarrow> telegram_event \<Rightarrow> ('m, 'c) hworld \<Rightarrow> ('m, 'c) handled_event" where
  "handle_new e ev w =
     (case start_new_session (he_cfg e) (he_ad e) ev (ow_sessions (hw_world w)) of
        (None, sw) \<Rightarrow> (reply (ne_session ev) ''Could not start a new session for this chat.'', w)
      | (Some sid, sw) \<Rightarrow>
          (reply sid ''Started a new session. Continue your conversation.'', w\<lparr>hw_world := (hw_world w)\<lparr>ow_sessions := sw\<rparr>\<rparr>))"

text \<open>The usage of a session is archived when there is a usage service.\<close>

definition archive_usage ::
  "('p, 'i, 'm, 'c) handler_env \<Rightarrow> string \<Rightarrow> string \<Rightarrow> ('m, 'c) hworld \<Rightarrow> exn + ('m, 'c) hworld" where
  "archive_usage e sid user w =
     (case he_usage e of
        None \<Rightarrow> Inr w
      | Some u \<Rightarrow>
          (case archive_session_usage u (fst (ow_store (hw_world w))) sid user (hw_archive w) of
             Inl x \<Rightarrow> Inl x | Inr ar \<Rightarrow> Inr (w\<lparr>hw_archive := ar\<rparr>)))"

definition clear_context :: "('p, 'i, 'm, 'c) handler_env \<Rightarrow> telegram_event \<Rightarrow> ('m, 'c) hworld \<Rightarrow> bool \<times> ('m, 'c) hworld" where
  "clear_context e ev w =
     (case reset_session_context (he_cfg e) (he_ad e) ev (fst (ow_store (hw_world w))) (hw_adapter w) of
        (cleared, d, a) \<Rightarrow>
          (cleared, w\<lparr>hw_adapter := a, hw_world := (hw_world w)\<lparr>ow_store := (d, snd (ow_store (hw_world w)))\<rparr>\<rparr>))"

definition handle_reset :: "('p, 'i, 'm, 'c) handler_env \<Rightarrow> telegram_event \<Rightarrow> ('m, 'c) hworld \<Rightarrow> ('m, 'c) handled_event" where
  "handle_reset e ev w =
     (if \<not> ac_store (he_cfg e) then (reply (ne_session ev) ''Session reset is not available.'', w)
      else case archive_usage e (ne_session ev) (ne_user ev) w of
             Inl x \<Rightarrow> (raised x, w)
           | Inr w1 \<Rightarrow>
               (case clear_context e ev w1 of
                  (cleared, w2) \<Rightarrow>
                    (reply (ne_session ev)
                       (if cleared then ''Session context reset. Starting fresh.'' else ''Session context is already empty.''), w2)))"

text \<open>Orchestrator.compact_session: under the session lock, without the limit on the passes.\<close>

definition compact_on_demand :: "('i, 'm) orch_env \<Rightarrow> string \<Rightarrow> 'm world \<Rightarrow> (exn + bool) \<times> 'm world" where
  "compact_on_demand e sid w =
     (if \<not> cc_enabled (oe_cfg e) then (Inr False, w)
      else case factory_resume (oe_H e) (ow_sessions w) sid (oe_clk e 2) (oe_clk e 3) of
             Inl x \<Rightarrow> (Inl x, w)
           | Inr cx \<Rightarrow>
               (case ctx_enter (oe_H e) (oe_lock_ttl e) (w_locks (ow_sessions w)) cx (oe_clk e 4) (oe_clk e 5) (oe_clk e 6) of
                  (Inl x, l) \<Rightarrow> (Inl x, w\<lparr>ow_sessions := (ow_sessions w)\<lparr>w_locks := l\<rparr>\<rparr>)
                | (Inr cx1, l) \<Rightarrow>
                    (case compact_session (oe_parse e) (oe_dumps e) (oe_summarize e) (oe_cfg e) (oe_compact e) sid None False
                        (fst (ow_store w)) of
                       (done, d) \<Rightarrow>
                         (Inr done, w\<lparr>ow_store := (d, snd (ow_store w)),
                            ow_sessions := (ow_sessions w)\<lparr>w_locks := snd (ctx_exit (oe_H e) l cx1 False (oe_clk e 7))\<rparr>\<rparr>))))"

definition handle_compact :: "('p, 'i, 'm, 'c) handler_env \<Rightarrow> telegram_event \<Rightarrow> ('m, 'c) hworld \<Rightarrow> ('m, 'c) handled_event" where
  "handle_compact e ev w =
     (let o1 = he_orch e None
      in if \<not> cc_enabled (oe_cfg o1) then (reply (ne_session ev) ''Session compaction is disabled.'', w)
         else case compact_on_demand o1 (ne_session ev) (hw_world w) of
                (r, w1) \<Rightarrow>
                  (case r of
                     Inl (LockAcquisitionError m) \<Rightarrow> reply (ne_session ev) ''Session is busy. Try again once the current turn finishes.''
                   | Inl (SessionNotFoundError m) \<Rightarrow> reply (ne_session ev) ''Nothing to compact yet.''
                   | Inl x \<Rightarrow> raised x
                   | Inr True \<Rightarrow> reply (ne_session ev) (he_compacted e)
                   | Inr False \<Rightarrow> reply (ne_session ev) ''Nothing to compact: history is too short.'', w\<lparr>hw_world := w1\<rparr>))"

definition handle_usage :: "('p, 'i, 'm, 'c) handler_env \<Rightarrow> telegram_event \<Rightarrow> ('m, 'c) hworld \<Rightarrow> ('m, 'c) handled_event" where
  "handle_usage e ev w =
     (case he_usage e of
        None \<Rightarrow> (reply (ne_session ev) ''Usage stats not available.'', w)
      | Some u \<Rightarrow>
          (case build_usage_response u (fst (ow_store (hw_world w))) (hw_archive w) ev of
             Inl x \<Rightarrow> (raised x, w) | Inr r \<Rightarrow> (Inr (Some r), w)))"

section \<open>Taps on buttons\<close>

definition with_adapter :: "('m, 'c) hworld \<Rightarrow> adapter \<Rightarrow> ('m, 'c) hworld" where
  "with_adapter w a = w\<lparr>hw_adapter := a\<rparr>"

definition handle_resume_tap ::
  "('p, 'i, 'm, 'c) handler_env \<Rightarrow> telegram_event \<Rightarrow> ('m, 'c) hworld \<Rightarrow> ('m, 'c) handled_event" where
  "handle_resume_tap e ev w =
     (case handle_resume_callback (he_cfg e) (he_ad e) ev (he_clk e 5) (w_active (ow_sessions (hw_world w))) of
        (r, t) \<Rightarrow>
          (let w1 = w\<lparr>hw_world := (hw_world w)\<lparr>ow_sessions := (ow_sessions (hw_world w))\<lparr>w_active := t\<rparr>\<rparr>\<rparr>
           in case r of
                Inl x \<Rightarrow> (raised x, w1)
              | Inr s \<Rightarrow>
                  (case nonempty s of
                     Some sid \<Rightarrow> (reply sid ''Switched to session. Continue your conversation.'', w1)
                   | None \<Rightarrow> (reply (ne_session ev) ''Invalid or expired session selection.'', w1))))"

definition handle_model_tap ::
  "('p, 'i, 'm, 'c) handler_env \<Rightarrow> telegram_event \<Rightarrow> ('m, 'c) hworld \<Rightarrow> ('m, 'c) handled_event" where
  "handle_model_tap e ev w =
     (case handle_model_callback (he_cfg e) (he_ad e) ev (he_clk e 6) (hw_adapter w) of
        (r, a) \<Rightarrow>
          (case r of
             Inl x \<Rightarrow> (raised x, with_adapter w a)
           | Inr m \<Rightarrow>
               (case nonempty m of
                  Some m1 \<Rightarrow> (markdown_reply (ne_session ev) (''Model set to `'' @ m1 @ ''`. Continue your conversation.''), with_adapter w a)
                | None \<Rightarrow> (reply (ne_session ev) ''Invalid or expired model selection.'', with_adapter w a))))"

definition handle_capabilities_tap ::
  "('p, 'i, 'm, 'c) handler_env \<Rightarrow> telegram_event \<Rightarrow> ('m, 'c) hworld \<Rightarrow> ('m, 'c) handled_event" where
  "handle_capabilities_tap e ev w =
     (case handle_capabilities_callback (he_cfg e) (he_ad e) ev (he_clk e 7) (he_clk e 8) (hw_adapter w) of
        (r, a) \<Rightarrow>
          (case r of
             Inl x \<Rightarrow> (raised x, with_adapter w a)
           | Inr None \<Rightarrow> (reply (ne_session ev) ''Invalid or expired capability selection.'', with_adapter w a)
           | Inr (Some m) \<Rightarrow> (Inr (Some (capabilities_menu_response (he_cfg e) (he_ad e) (ne_chat ev) (ne_session ev) a)), with_adapter w a)))"

definition handle_confirmation_tap ::
  "('p, 'i, 'm, 'c) handler_env \<Rightarrow> telegram_event \<Rightarrow> ('m, 'c) hworld \<Rightarrow> ('m, 'c) handled_event" where
  "handle_confirmation_tap e ev w =
     (case he_confirm e of
        None \<Rightarrow> (reply (ne_session ev) ''Memory confirmation is not available.'', w)
      | Some ce \<Rightarrow>
          (case consume_confirmation (he_cfg e) ev (he_clk e 11) (he_clk e 12) (hw_adapter w) of
             (Inl x, a) \<Rightarrow> (raised x, with_adapter w a)
           | (Inr None, a) \<Rightarrow> (reply (ne_session ev) ''Invalid or expired confirmation action.'', with_adapter w a)
           | (Inr (Some (sid, call, ok)), a) \<Rightarrow>
               (case resolve_pending ce sid
                   \<lparr>dc_call = call, dc_approve = ok, dc_user = Some (ne_user ev), dc_t1 = he_clk e 13, dc_t2 = he_clk e 14,
                    dc_u1 = ae_hex (he_ad e) 2, dc_u2 = ae_hex (he_ad e) 3\<rparr> (ow_store (hw_world w), ow_memory (hw_world w)) of
                  (r, st, m) \<Rightarrow>
                    (let w1 = (with_adapter w a)\<lparr>hw_world := (hw_world w)\<lparr>ow_store := st, ow_memory := m\<rparr>\<rparr>
                     in case r of
                          Inl x \<Rightarrow> (raised x, w1)
                        | Inr (done, msg) \<Rightarrow> (reply (if done then sid else ne_session ev) msg, w1)))))"

definition task_text :: "(pyval \<Rightarrow> string) \<Rightarrow> string \<Rightarrow> task_record \<Rightarrow> string" where
  "task_text pstr act t =
     (if act = ''status''
      then ''Task `'' @ tk_id t @ ''` status: *'' @ status_value (tk_status t) @ ''*'' @ [newline] @ ''Type: `'' @ tk_type t @ ''`'' @
           (case nonempty (tk_error t) of Some x \<Rightarrow> newline # ''Error: '' @ x | None \<Rightarrow> [])
      else (let s = (case tk_result t of Some d \<Rightarrow> py_strip (pstr (dget_or d ''summary'' (PStr []))) | None \<Rightarrow> [])
            in if s \<noteq> [] then s else ''Task `'' @ tk_id t @ ''` has no summary yet.''))"

definition handle_task_tap ::
  "('p, 'i, 'm, 'c) handler_env \<Rightarrow> telegram_event \<Rightarrow> ('m, 'c) hworld \<Rightarrow> ('m, 'c) handled_event" where
  "handle_task_tap e ev w =
     (case parse_task_callback (he_cfg e) ev (he_clk e 16) of
        Inl x \<Rightarrow> (raised x, w)
      | Inr None \<Rightarrow> (reply (ne_session ev) ''Invalid or expired task action.'', w)
      | Inr (Some (i, act)) \<Rightarrow>
          (case (if he_coord e then get_task (hw_tasks w) i None else None) of
             None \<Rightarrow> (markdown_reply (ne_session ev) (''Task `'' @ i @ ''` not found.''), w)
           | Some t \<Rightarrow> (markdown_reply (ne_session ev) (task_text (ae_str (he_ad e)) act t), w)))"

section \<open>Results of exercises\<close>

definition plural_updated :: "nat \<Rightarrow> vocab_reply" where
  "plural_updated n =
     (let a = n mod 10; b = n mod 100
      in if a = 1 \<and> b \<noteq> 11 then UpdatedOne n
         else if 2 \<le> a \<and> a \<le> 4 \<and> (b < 10 \<or> b \<ge> 20) then UpdatedFew n else UpdatedMany n)"

text \<open>
  json.loads, then the validation.  pydantic's ValidationError is a ValueError, so the first
  handler catches both kinds of failure.
\<close>

definition load_payload :: "(string \<Rightarrow> pyval option) \<Rightarrow> (pyval \<Rightarrow> 'r option) \<Rightarrow> telegram_event \<Rightarrow> 'r option" where
  "load_payload parse validate ev = Option.bind (parse (or_str (ne_text ev) [])) validate"

definition save_results ::
  "('p, 'i, 'm, 'c) handler_env \<Rightarrow> 'c fsrs \<Rightarrow> telegram_event \<Rightarrow> card_result list \<Rightarrow> ('m, 'c) hworld \<Rightarrow> ('m, 'c) handled_event" where
  "save_results e f ev rs w =
     (case process_results f (ne_user ev) rs (he_clk e 17) (hw_vocab w) of
        (r, d) \<Rightarrow>
          (reply (ne_session ev) (he_words e
             (case r of Inl x \<Rightarrow> SaveFailed x | Inr us \<Rightarrow> plural_updated (length (filter (\<lambda>u. snd u \<noteq> None) us)))),
           w\<lparr>hw_vocab := d\<rparr>))"

definition handle_exercise_results ::
  "('p, 'i, 'm, 'c) handler_env \<Rightarrow> telegram_event \<Rightarrow> ('m, 'c) hworld \<Rightarrow> ('m, 'c) handled_event" where
  "handle_exercise_results e ev w =
     (case he_vocab e of
        None \<Rightarrow> (reply (ne_session ev) (he_words e StoreMissing), w)
      | Some f \<Rightarrow>
          (case load_payload (he_json e) (he_exercise e) ev of
             None \<Rightarrow> (reply (ne_session ev) (he_words e BadPayload), w)
           | Some rs \<Rightarrow> save_results e f ev rs w))"

definition card_results :: "direction \<Rightarrow> (string \<times> bool \<times> int option) list \<Rightarrow> card_result list" where
  "card_results dir = map (\<lambda>(i, correct, t). \<lparr>cr_word = i, cr_rating = (if correct then 2 else 0), cr_time = t, cr_direction = dir\<rparr>)"

definition handle_fill_blanks_results ::
  "('p, 'i, 'm, 'c) handler_env \<Rightarrow> telegram_event \<Rightarrow> ('m, 'c) hworld \<Rightarrow> ('m, 'c) handled_event" where
  "handle_fill_blanks_results e ev w =
     (case he_vocab e of
        None \<Rightarrow> (reply (ne_session ev) (he_words e StoreMissing), w)
      | Some f \<Rightarrow>
          (case load_payload (he_json e) (he_blanks e) ev of
             None \<Rightarrow> (reply (ne_session ev) (he_words e BadPayload), w)
           | Some (dir, bs) \<Rightarrow> save_results e f ev (card_results dir bs) w))"

section \<open>Turns\<close>

definition is_token_limit_error :: "int \<Rightarrow> (pyval \<Rightarrow> string) \<Rightarrow> pyval \<Rightarrow> bool" where
  "is_token_limit_error status pstr body =
     (let b = (case body of PDict d \<Rightarrow> d | _ \<Rightarrow> []); err = (case dget b ''error'' of PDict d \<Rightarrow> d | _ \<Rightarrow> []);
          msg = py_lower (pstr (dget_or err ''message'' (PStr [])))
      in status = 400 \<and> (contains ''prompt is too long'' msg \<or> contains ''token'' msg \<and> contains ''maximum'' msg))"

definition handle_http_error ::
  "('p, 'i, 'm, 'c) handler_env \<Rightarrow> telegram_event \<Rightarrow> int \<Rightarrow> ('m, 'c) hworld \<Rightarrow> ('m, 'c) handled_event" where
  "handle_http_error e ev status w =
     (if is_token_limit_error status (ae_str (he_ad e)) (he_body e)
      then (case archive_usage e (ne_session ev) (ne_user ev) w of
              Inl x \<Rightarrow> (raised x, w)
            | Inr w1 \<Rightarrow>
                (let w2 = (if ac_store (he_cfg e) then snd (clear_context e ev w1) else w1)
                 in (reply (ne_session ev) (''Conversation history exceeded the model limit. '' @
                       (if ac_store (he_cfg e) then ''Session has been reset. Please try your message again.''
                        else ''Session reset is not available. Please use /reset or start a new session.'')), w2)))
      else (reply (ne_session ev) (''The AI model returned an error (HTTP '' @ show_int status @ ''). Please try again.''), w))"

text \<open>The answer to a turn that ended: buttons, a question, a pending memory update, or the text.\<close>

definition turn_reply ::
  "('p, 'i, 'm, 'c) handler_env \<Rightarrow> telegram_event \<Rightarrow> turn_result \<Rightarrow> ('m, 'c) hworld \<Rightarrow> ('m, 'c) handled_event" where
  "turn_reply e ev r w =
     (let t = tr_text r; sid = ne_session ev;
          plain = (if py_strip t = [] then Inr None else reply sid t)
      in case tr_buttons r of
           Some (bs, msg) \<Rightarrow>
             (Inr (Some (webapp_reply sid
                (if py_strip t \<noteq> [] then py_strip t else if msg \<noteq> [] then msg else ''Tap the button below to start.'') bs)), w)
         | None \<Rightarrow>
             (case tr_ask r of
                Some a \<Rightarrow>
                  (Inr (Some (build_ask_question_response sid
                     (if py_strip t \<noteq> [] then t @ [newline, newline] @ pa_question a else pa_question a)
                     (map snd (pa_options a)))), w)
              | None \<Rightarrow>
                  (case he_confirm e of
                     None \<Rightarrow> (plain, w)
                   | Some ce \<Rightarrow>
                       (case list_pending (ce_parse ce) (ce_str ce) (ce_check ce) (fst (ow_store (hw_world w))) sid of
                          [] \<Rightarrow> (plain, w)
                        | p # _ \<Rightarrow>
                            if ne_chat ev = 0 then (plain, w)
                            else (let reason = py_strip (he_reason e (pm_proposal p));
                                      prompt = (if reason \<noteq> [] then t @ [newline, newline] @ ''Pending memory update: '' @ reason else t)
                                  in case build_memory_confirmation (he_cfg e) (he_ad e) (ne_chat ev) sid (pm_call p) prompt (hw_adapter w) of
                                       (m, a) \<Rightarrow> (Inr (Some m), with_adapter w a))))))"

definition turn_event :: "('p, 'i, 'm, 'c) handler_env \<Rightarrow> telegram_event \<Rightarrow> ('m, 'c) hworld \<Rightarrow> orch_event" where
  "turn_event e ev w =
     (case nonempty (adapter_model_override (hw_adapter w) (ne_chat ev)) of
        Some m \<Rightarrow> (map_event ev)\<lparr>ev_model := Some m\<rparr>
      | None \<Rightarrow> map_event ev)"

definition tool_error_text :: string where
  "tool_error_text =
     ''The assistant encountered a tool error and could not complete the request. Please try again, or start a fresh session if the problem persists.''"

definition handle_turn :: "('p, 'i, 'm, 'c) handler_env \<Rightarrow> telegram_event \<Rightarrow> ('m, 'c) hworld \<Rightarrow> ('m, 'c) handled_event" where
  "handle_turn e ev w =
     (case execute_turn (he_orch e (capabilities_override (hw_adapter w) (ne_session ev))) (turn_event e ev w) (hw_world w) of
        (r, ow) \<Rightarrow>
          (let w1 = w\<lparr>hw_world := ow\<rparr>
           in case r of
                Inl (ModelHTTPError n) \<Rightarrow> handle_http_error e ev n w1
              | Inl (UnexpectedModelBehavior m) \<Rightarrow> (reply (ne_session ev) tool_error_text, w1)
              | Inl x \<Rightarrow> (Inl x, w1)
              | Inr None \<Rightarrow> (Inr None, w1)
              | Inr (Some t) \<Rightarrow> turn_reply e ev t w1))"

section \<open>Routing\<close>

definition route_rest :: "('p, 'i, 'm, 'c) handler_env \<Rightarrow> telegram_event \<Rightarrow> ('m, 'c) hworld \<Rightarrow> ('m, 'c) handled_event" where
  "route_rest e ev w =
     (if is_command CmdUsage ev then handle_usage e ev w
      else if ne_type ev = ExerciseResults then handle_exercise_results e ev w
      else if ne_type ev = FillBlanksResults then handle_fill_blanks_results e ev w
      else handle_turn e ev w)"

definition route_task :: "('p, 'i, 'm, 'c) handler_env \<Rightarrow> telegram_event \<Rightarrow> ('m, 'c) hworld \<Rightarrow> ('m, 'c) handled_event" where
  "route_task e ev w =
     (case is_task_callback (he_cfg e) ev (he_clk e 15) of
        Inl x \<Rightarrow> (raised x, w)
      | Inr True \<Rightarrow> handle_task_tap e ev w
      | Inr False \<Rightarrow> route_rest e ev w)"

definition route_menus :: "('p, 'i, 'm, 'c) handler_env \<Rightarrow> telegram_event \<Rightarrow> ('m, 'c) hworld \<Rightarrow> ('m, 'c) handled_event" where
  "route_menus e ev w =
     (if has_model_select (he_cfg e) \<and> is_command CmdModel ev
      then (Inr (Some (model_menu_response (he_cfg e) (he_ad e) (ne_chat ev) (ne_session ev) (hw_adapter w))), w)
      else if is_model_callback (he_cfg e) ev then handle_model_tap e ev w
      else if has_capability_select (he_cfg e) \<and> is_command CmdCapabilities ev
      then (Inr (Some (capabilities_menu_response (he_cfg e) (he_ad e) (ne_chat ev) (ne_session ev) (hw_adapter w))), w)
      else if is_capabilities_callback (he_cfg e) ev then handle_capabilities_tap e ev w
      else case is_confirmation_callback (he_cfg e) ev (he_clk e 9) (he_clk e 10) (hw_adapter w) of
             (Inl x, a) \<Rightarrow> (raised x, with_adapter w a)
           | (Inr True, a) \<Rightarrow> handle_confirmation_tap e ev (with_adapter w a)
           | (Inr False, a) \<Rightarrow> route_task e ev (with_adapter w a))"

definition route_commands :: "('p, 'i, 'm, 'c) handler_env \<Rightarrow> telegram_event \<Rightarrow> ('m, 'c) hworld \<Rightarrow> ('m, 'c) handled_event" where
  "route_commands e ev w =
     (if is_command CmdStop ev then handle_stop e ev w
      else if is_command CmdVerbose ev then handle_verbose e ev w
      else if is_command CmdNew ev then handle_new e ev w
      else if is_command CmdReset ev then handle_reset e ev w
      else if is_command CmdCompact ev then handle_compact e ev w
      else if ac_store (he_cfg e) \<and> is_command CmdSessions ev
      then (Inr (Some (session_menu_response (he_cfg e) (he_ad e) (fst (ow_store (hw_world w))) (ne_chat ev) (ne_session ev))), w)
      else case is_resume_callback (he_cfg e) ev (he_clk e 4) of
             Inl x \<Rightarrow> (raised x, w)
           | Inr True \<Rightarrow> handle_resume_tap e ev w
           | Inr False \<Rightarrow> route_menus e ev w)"

definition handle_event :: "('p, 'i, 'm, 'c) handler_env \<Rightarrow> telegram_event \<Rightarrow> ('m, 'c) hworld \<Rightarrow> ('m, 'c) handled_event" where
  "handle_event e ev w =
     (case (ne_callback ev, nonempty (ne_text ev)) of
        (None, Some t) \<Rightarrow>
          if he_coord e \<and> has_pending_question (ne_session ev) (hw_relay w) then handle_pending_answer ev t w
          else route_commands e ev w
      | _ \<Rightarrow>
          (case is_question_callback (he_cfg e) ev (he_clk e 0) (he_clk e 1) (hw_adapter w) of
             (Inl x, a) \<Rightarrow> (raised x, with_adapter w a)
           | (Inr True, a) \<Rightarrow> handle_question_tap e ev (with_adapter w a)
           | (Inr False, a) \<Rightarrow> route_commands e ev (with_adapter w a)))"

section \<open>The callbacks of the coordinator\<close>

text \<open>The event of a settled task; the payload goes through json.dumps.\<close>

definition str_or_empty :: "pyval \<Rightarrow> string" where
  "str_or_empty v = (case v of PStr s \<Rightarrow> s | _ \<Rightarrow> [])"

definition dict_or_empty :: "pyval \<Rightarrow> dict" where
  "dict_or_empty v = (case v of PDict d \<Rightarrow> d | _ \<Rightarrow> [])"

definition stdout_excerpt :: "dict \<Rightarrow> string" where
  "stdout_excerpt result =
     (let raw = str_or_empty (dget (dict_or_empty (dget result ''artifacts'')) ''raw_stdout'')
      in if length raw > 2000 then take 2000 raw @ ''... [truncated]'' else raw)"

definition feedback_payload :: "task_record \<Rightarrow> dict" where
  "feedback_payload t =
     (let result = (case tk_result t of Some d \<Rightarrow> d | None \<Rightarrow> []); md = tk_metadata t
      in [(''type'', PStr ''delegation_completion''), (''task_id'', PStr (tk_id t)), (''status'', PStr (status_value (tk_status t))),
          (''objective'', dget md ''objective''), (''summary'', PStr (str_or_empty (dget result ''summary''))),
          (''error'', of_opt PStr (tk_error t)), (''usage'', PDict (dict_or_empty (dget result ''usage''))),
          (''backend'', dget md ''backend''), (''model_id'', dget md ''model_id''), (''parent_turn_id'', of_opt PStr (tk_turn t))] @
         (if stdout_excerpt result \<noteq> [] then [(''stdout_excerpt'', PStr (stdout_excerpt result))] else []))"

definition feedback_event :: "(pyval \<Rightarrow> string) \<Rightarrow> (pyval \<Rightarrow> string) \<Rightarrow> task_record \<Rightarrow> string \<Rightarrow> orch_event" where
  "feedback_event pstr dumps t sid =
     \<lparr>ev_id = ''delegation-feedback-'' @ tk_id t @ ''-'' @ status_value (tk_status t), ev_source = ''system'', ev_session = sid,
      ev_user = (let v = dget (tk_metadata t) ''requested_by_user_id'' in if truthy v then pstr v else ''system''),
      ev_text = Some (''[[DELEGATION_COMPLETED]]'' @ newline # dumps (PDict (feedback_payload t))), ev_transcript = None,
      ev_attachment = None, ev_callback = None, ev_attachments = [], ev_model = None\<rparr>"

definition feedback_reply :: "string \<Rightarrow> turn_result option \<Rightarrow> (channel_response \<times> int) option" where
  "feedback_reply sid r =
     (case (r, chat_id_from_session sid) of
        (Some t, Some chat) \<Rightarrow>
          (case tr_ask t of
             Some a \<Rightarrow>
               Some (build_ask_question_response sid
                 (if py_strip (tr_text t) \<noteq> [] then tr_text t @ [newline, newline] @ pa_question a else pa_question a)
                 (map snd (pa_options a)), chat)
           | None \<Rightarrow> if py_strip (tr_text t) = [] then None else Some (text_reply sid (tr_text t), chat))
      | _ \<Rightarrow> None)"

definition delegation_feedback ::
  "('p, 'i, 'm, 'c) handler_env \<Rightarrow> (pyval \<Rightarrow> string) \<Rightarrow> task_record \<Rightarrow> ('m, 'c) hworld
    \<Rightarrow> (turn_error + (channel_response \<times> int) option) \<times> ('m, 'c) hworld" where
  "delegation_feedback e dumps t w =
     (case nonempty (tk_session t) of
        None \<Rightarrow> (Inr None, w)
      | Some sid \<Rightarrow>
          (case execute_turn (he_orch e (capabilities_override (hw_adapter w) sid))
              (feedback_event (ae_str (he_ad e)) dumps t sid) (hw_world w) of
             (r, ow) \<Rightarrow>
               ((case r of Inl x \<Rightarrow> Inl x | Inr m \<Rightarrow> Inr (feedback_reply sid m)), w\<lparr>hw_world := ow\<rparr>)))"

definition question_relay ::
  "('p, 'i, 'm, 'c) handler_env \<Rightarrow> string \<Rightarrow> string \<Rightarrow> string list \<Rightarrow> ('m, 'c) hworld
    \<Rightarrow> (exn + channel_response \<times> int) \<times> ('m, 'c) hworld" where
  "question_relay e sid question options w =
     (case chat_id_from_session sid of
        None \<Rightarrow> (Inl (ValueError (''Cannot relay question: no chat_id for session '' @ quoted sid)), w)
      | Some chat \<Rightarrow>
          (case build_delegation_question (he_cfg e) (he_ad e) chat sid (''[Delegation task] '' @ question) options (hw_adapter w) of
             (m, a) \<Rightarrow> (Inr (m, chat), with_adapter w a)))"

section \<open>A question takes the next text\<close>

text \<open>
  While a delegated task waits for an answer, the next text of the chat is the answer,
  whatever it says.  The text is handed to the task and nothing else happens: no command in
  it is carried out, not even /stop, and no turn runs; when the wait ends the task gets this text.
\<close>

theorem question_takes_text:
  assumes "ne_callback ev = None" and "ne_text ev = Some t" and "t \<noteq> []" and "he_coord e"
    and "map_of (rl_pending (hw_relay w)) (pending_question_key (ne_session ev)) = Some future"
    and "map_of (rl_answers (hw_relay w)) future = None" and "handle_event e ev w = (r, w')"
  shows "r = reply (ne_session ev) answer_received \<and> w' = w\<lparr>hw_relay := hw_relay w'\<rparr> \<and>
    fst (settle_question (ne_session ev) future (hw_relay w')) = t"
proof -
  let ?r = "(hw_relay w)\<lparr>rl_answers := AList.update future t (rl_answers (hw_relay w))\<rparr>"
  have "handle_event e ev w = handle_pending_answer ev t w"
    using assms(1-5) by (simp add: handle_event_def has_pending_question_def nonempty_def)
  also have "\<dots> = (reply (ne_session ev) answer_received, w\<lparr>hw_relay := ?r\<rparr>)"
    using assms(5,6) by (simp add: handle_pending_answer_def submit_delegation_answer_def)
  finally show ?thesis using assms(7) by (auto simp: settle_question_def)
qed

section \<open>Which kind of button was tapped\<close>

lemma no_command: "ne_text ev = None \<Longrightarrow> \<not> is_command c ev"
  by (simp add: is_command_def extract_supported_command_def or_str_def)

lemma tap_routes:
  assumes "ne_text ev = None"
  shows "route_commands e ev w =
     (case is_resume_callback (he_cfg e) ev (he_clk e 4) of
        Inl x \<Rightarrow> (raised x, w) | Inr True \<Rightarrow> handle_resume_tap e ev w | Inr False \<Rightarrow> route_menus e ev w)"
  using no_command[OF assms] by (simp add: route_commands_def)

text \<open>A confirmation button reaches the confirmations, and no other handler.\<close>

lemma confirmation_tap_routes:
  assumes "hex_digest (ac_hmac (he_cfg e))" and "ne_text ev = None" and "ne_callback ev = Some q"
    and data: "cq_data q = sign_memory_confirmation_callback (ac_hmac (he_cfg e)) tok chat secret made"
  shows "handle_event e ev w =
     (case is_confirmation_callback (he_cfg e) ev (he_clk e 9) (he_clk e 10) (hw_adapter w) of
        (Inl x, a) \<Rightarrow> (raised x, with_adapter w a)
      | (Inr True, a) \<Rightarrow> handle_confirmation_tap e ev (with_adapter w a)
      | (Inr False, a) \<Rightarrow> route_task e ev (with_adapter w a))"
proof -
  have kinds: "colon \<notin> set ''mc''" "''mc'' \<noteq> ''aq''" "''mc'' \<noteq> ''rs''" "colon \<notin> set ''ms''" "colon \<notin> set ''cs''" by simp_all
  note data' = data[unfolded sign_memory_confirmation_callback_def]
  have "question_token (he_cfg e) ev t = Inr None" for t
    using verify_other_kind[OF assms(1) kinds(1,2)] assms(3) by (simp add: question_token_def verify_ask_question_callback_def data')
  then have q: "is_question_callback (he_cfg e) ev t t' a = (Inr False, a)" for t t' a by (simp add: is_question_callback_def)
  have "verify_resume (he_cfg e) ev t = Inr None" for t
    using verify_other_kind[OF assms(1) kinds(1,3)] assms(3) by (simp add: verify_resume_def verify_resume_callback_def data')
  then have r: "is_resume_callback (he_cfg e) ev t = Inr False" for t by (simp add: is_resume_callback_def)
  have m: "\<not> is_model_callback (he_cfg e) ev" "\<not> is_capabilities_callback (he_cfg e) ev"
    using sign_not_prefix[of "''mc''" "''ms''"] sign_not_prefix[of "''mc''" "''cs''"] assms(3)
    by (simp_all add: is_model_callback_def is_capabilities_callback_def callback_has_prefix_def data')
  have "with_adapter w (hw_adapter w) = w" by (simp add: with_adapter_def)
  then have "handle_event e ev w = route_menus e ev w"
    using assms(3) by (simp add: handle_event_def q tap_routes[OF assms(2)] r)
  then show ?thesis using no_command[OF assms(2)] m by (simp add: route_menus_def)
qed

section \<open>A prompt and its buttons\<close>

text \<open>The readings of the clock while a prompt is built, and those of a tap within its hour.\<close>

definition prompt_times :: "adapter_env \<Rightarrow> (nat \<Rightarrow> time) \<Rightarrow> bool" where
  "prompt_times ad clk =
     (\<exists>t0 t1. 0 \<le> t0 \<and> (\<forall>n. t0 \<le> ae_clk ad n \<and> ae_clk ad n \<le> t1) \<and> (\<forall>n. t1 \<le> clk n \<and> clk n < t0 + seconds 3600))"

lemma prompt_in_time:
  assumes "prompt_times ad clk"
  shows "0 \<le> ae_clk ad n" "ae_clk ad n \<le> clk k" "clk k < ae_clk ad n + seconds 3600" "ae_clk ad m < ae_clk ad n + seconds 3600"
    "timestamp_of (clk k) - timestamp_of (ae_clk ad n) \<le> callback_ttl_seconds"
proof -
  obtain t0 t1 where t: "0 \<le> t0" "\<And>n. t0 \<le> ae_clk ad n \<and> ae_clk ad n \<le> t1" "\<And>n. t1 \<le> clk n \<and> clk n < t0 + seconds 3600"
    using assms unfolding prompt_times_def by blast
  show "0 \<le> ae_clk ad n" "ae_clk ad n \<le> clk k" using t(1) t(2)[of n] t(3)[of k] by linarith+
  show l: "clk k < ae_clk ad n + seconds 3600" using t(2)[of n] t(3)[of k] by linarith
  show "ae_clk ad m < ae_clk ad n + seconds 3600" using t(2)[of n] t(2)[of m] t(3)[of k] by linarith
  have "timestamp_of (clk k) \<le> timestamp_of (ae_clk ad n + seconds 3600)"
    using l unfolding timestamp_of_def by (intro zdiv_mono1) simp_all
  also have "\<dots> = timestamp_of (ae_clk ad n) + 3600" by (simp add: timestamp_of_def)
  finally show "timestamp_of (clk k) - timestamp_of (ae_clk ad n) \<le> callback_ttl_seconds" by (simp add: callback_ttl_seconds_def)
qed

text \<open>The two tokens of a prompt, and what the tables say of them while they have not expired.\<close>

lemma prompt_tokens:
  assumes "build_memory_confirmation c ad chat sid call prompt a0 = (m, a)" and "prompt_times ad clk"
    and "distinct (map fst (ad_confirm a0))" and "take 10 (ae_hex ad 0) \<noteq> take 10 (ae_hex ad 1)" and "i < 2"
  shows "ab_data (cr_actions m ! i) = sign_memory_confirmation_callback (ac_hmac c) (take 10 (ae_hex ad i)) chat (callback_secret c) (ae_clk ad (4 + i))"
    and "map_of (ad_confirm a) (take 10 (ae_hex ad i)) = Some \<lparr>bt_value = (sid, call, i = 0), bt_expires = ae_clk ad (2 * i + 1) + token_ttl\<rparr>"
    and "distinct (map fst (ad_confirm a))"
proof -
  let ?y = "take 10 (ae_hex ad 0)" and ?n = "take 10 (ae_hex ad 1)"
  let ?t1 = "tokens_put ?y (sid, call, True) (ae_clk ad 0) (ae_clk ad 1) (ad_confirm a0)"
  have a: "ad_confirm a = tokens_put ?n (sid, call, False) (ae_clk ad 2) (ae_clk ad 3) ?t1"
    and m: "cr_actions m = [action ''Confirm memory update'' (''confirm-'' @ call)
        (sign_memory_confirmation_callback (ac_hmac c) ?y chat (callback_secret c) (ae_clk ad 4)),
      action ''Reject'' (''reject-'' @ call) (sign_memory_confirmation_callback (ac_hmac c) ?n chat (callback_secret c) (ae_clk ad 5))]"
    using assms(1) by (auto simp: build_memory_confirmation_def register_confirmation_def Let_def menu_reply_def)
  have i: "i = 0 \<or> i = 1" using assms(5) by auto
  show "ab_data (cr_actions m ! i) = sign_memory_confirmation_callback (ac_hmac c) (take 10 (ae_hex ad i)) chat (callback_secret c) (ae_clk ad (4 + i))"
    using i by (auto simp: m action_def)
  have d1: "distinct (map fst ?t1)" by (rule tokens_put_facts(1)[OF assms(3)])
  show "distinct (map fst (ad_confirm a))" unfolding a by (rule tokens_put_facts(1)[OF d1])
  have "map_of ?t1 ?y = Some \<lparr>bt_value = (sid, call, True), bt_expires = ae_clk ad 1 + token_ttl\<rparr>"
    by (simp add: tokens_put_at)
  moreover have "\<not> ae_clk ad 1 + token_ttl \<le> ae_clk ad 2" using prompt_in_time(4)[OF assms(2), of 2 1] by (simp add: token_ttl_def)
  ultimately have yes: "map_of (tokens_cleanup (ae_clk ad 2) ?t1) ?y = Some \<lparr>bt_value = (sid, call, True), bt_expires = ae_clk ad 1 + token_ttl\<rparr>"
    by (intro tokens_cleanup_keeps) (use d1 in auto)
  from i show "map_of (ad_confirm a) (take 10 (ae_hex ad i)) =
      Some \<lparr>bt_value = (sid, call, i = 0), bt_expires = ae_clk ad (2 * i + 1) + token_ttl\<rparr>"
  proof
    assume "i = 0"
    with yes assms(4) show ?thesis unfolding a tokens_put_at by simp
  next
    assume "i = 1"
    then show ?thesis unfolding a tokens_put_at by (simp add: eval_nat_numeral)
  qed
qed

text \<open>
  C25: a tap on a button of a memory prompt decides the proposal it shows.  Within the hour after
  the prompt, a tap in its chat on the first button approves and on the second rejects exactly the
  proposal of the prompt, in its session: the handler answers and stores what the
  confirmation service answers and stores for that decision, nothing else changes but the table of buttons,
  where the button tapped is gone.
\<close>

theorem prompt_tap_decides:
  assumes "hex_digest (ac_hmac (he_cfg e))" and "he_confirm e = Some ce"
    and "build_memory_confirmation (he_cfg e) ad (ne_chat ev) sid call prompt a0 = (m, hw_adapter w)" and "prompt_times ad (he_clk e)"
    and "distinct (map fst (ad_confirm a0))" and "take 10 (ae_hex ad 0) \<noteq> take 10 (ae_hex ad 1)"
    and "\<And>n. ae_hex ad n \<noteq> []" and "i < 2"
    and "ne_text ev = None" and "ne_callback ev = Some q" and "cq_data q = ab_data (cr_actions m ! i)"
    and "dec = \<lparr>dc_call = call, dc_approve = (i = 0), dc_user = Some (ne_user ev), dc_t1 = he_clk e 13, dc_t2 = he_clk e 14,
               dc_u1 = ae_hex (he_ad e) 2, dc_u2 = ae_hex (he_ad e) 3\<rparr>"
    and "resolve_pending ce sid dec (ow_store (hw_world w), ow_memory (hw_world w)) = (Inr (done, msg), st, mem)"
  shows "\<exists>t. handle_event e ev w =
      (reply (if done then sid else ne_session ev) msg,
       w\<lparr>hw_adapter := (hw_adapter w)\<lparr>ad_confirm := t\<rparr>, hw_world := (hw_world w)\<lparr>ow_store := st, ow_memory := mem\<rparr>\<rparr>) \<and>
    map_of t (take 10 (ae_hex ad i)) = None"
proof -
  let ?c = "he_cfg e" and ?tok = "take 10 (ae_hex ad i)" and ?a = "hw_adapter w"
  note p = prompt_tokens[OF assms(3-6,8)]
  note time = prompt_in_time[OF assms(4)]
  have data: "cq_data q = sign_memory_confirmation_callback (ac_hmac ?c) ?tok (ne_chat ev) (callback_secret ?c) (ae_clk ad (4 + i))"
    using assms(11) p(1) by simp
  have tok: "confirmation_token ?c ev (he_clk e k) = Inr (Some ?tok)" for k
    unfolding confirmation_token_def assms(10) option.case data sign_memory_confirmation_callback_def verify_memory_confirmation_callback_def
    by (rule tap_verified) (use assms(1,7) time in simp_all)
  have live: "map_of (tokens_cleanup (he_clk e k) t) ?tok = Some \<lparr>bt_value = (sid, call, i = 0), bt_expires = ae_clk ad (2 * i + 1) + token_ttl\<rparr>"
    if "map_of t ?tok = Some \<lparr>bt_value = (sid, call, i = 0), bt_expires = ae_clk ad (2 * i + 1) + token_ttl\<rparr>" "distinct (map fst t)" for k t
    by (rule tokens_cleanup_keeps) (use that time(3)[of k "2 * i + 1"] in \<open>auto simp: token_ttl_def\<close>)
  let ?a1 = "?a\<lparr>ad_confirm := tokens_cleanup (he_clk e 10) (ad_confirm ?a)\<rparr>"
  have isc: "is_confirmation_callback ?c ev (he_clk e 9) (he_clk e 10) ?a = (Inr True, ?a1)"
    using live[OF p(2,3)] by (simp add: is_confirmation_callback_def tok cleanup_confirmations_def Let_def del: map_of_eq_Some_iff)
  have d: "distinct (map fst (ad_confirm ?a1))" using p(3) by (simp add: tokens_cleanup_distinct)
  obtain t where t: "tokens_take ?tok (he_clk e 12) (ad_confirm ?a1) = (Some (sid, call, i = 0), t)" "map_of t ?tok = None"
    using live[OF _ d] live[OF p(2,3)] by (simp add: tokens_take_def Let_def delete_conv' del: map_of_eq_Some_iff)
  have consume: "consume_confirmation ?c ev (he_clk e 11) (he_clk e 12) ?a1 = (Inr (Some (sid, call, i = 0)), ?a\<lparr>ad_confirm := t\<rparr>)"
    using t(1) by (simp add: consume_confirmation_def tok)
  have "handle_event e ev w = handle_confirmation_tap e ev (with_adapter w ?a1)"
    by (simp add: confirmation_tap_routes[OF assms(1,9,10) data] isc)
  also have "\<dots> = (reply (if done then sid else ne_session ev) msg,
      w\<lparr>hw_adapter := ?a\<lparr>ad_confirm := t\<rparr>, hw_world := (hw_world w)\<lparr>ow_store := st, ow_memory := mem\<rparr>\<rparr>)"
    using assms(2,12,13) consume by (simp add: handle_confirmation_tap_def with_adapter_def)
  finally show ?thesis using t(2) by blast
qed

section \<open>Events that become turns\<close>

lemma with_same [simp]: "with_adapter w (hw_adapter w) = w"
  by (simp add: with_adapter_def)

lemma text_routes:
  assumes "ne_callback ev = None" and "extract_supported_command (ne_text ev) = None"
    and "\<not> (he_coord e \<and> has_pending_question (ne_session ev) (hw_relay w))"
  shows "handle_event e ev w = route_rest e ev w"
proof -
  have none: "\<not> is_command c ev" for c using assms(2) by (simp add: is_command_def)
  have "is_question_callback (he_cfg e) ev t t' a = (Inr False, a)" "is_resume_callback (he_cfg e) ev t = Inr False"
    "is_confirmation_callback (he_cfg e) ev t t' a = (Inr False, a)" "is_task_callback (he_cfg e) ev t = Inr False" for t t' a
    using assms(1) by (simp_all add: is_question_callback_def question_token_def is_resume_callback_def verify_resume_def
        is_confirmation_callback_def confirmation_token_def is_task_callback_def parse_task_callback_def)
  moreover have "\<not> is_model_callback (he_cfg e) ev" "\<not> is_capabilities_callback (he_cfg e) ev"
    using assms(1) by (simp_all add: is_model_callback_def is_capabilities_callback_def callback_has_prefix_def)
  ultimately have "route_commands e ev w = route_rest e ev w"
    using none by (simp add: route_commands_def route_menus_def route_task_def)
  moreover have "handle_event e ev w = route_commands e ev w"
    using assms(1,3) \<open>is_question_callback _ _ _ _ _ = _\<close> by (cases "nonempty (ne_text ev)") (auto simp: handle_event_def)
  ultimately show ?thesis by simp
qed

text \<open>
  C27: a message to a session that was never created gets no answer.  Take a text, voice or
  attachment message that is no supported command, no button press and no answer to a pending
  question of a delegated task, whose event id is not registered yet and whose session has no
  metadata.  Its turn ends with SessionNotFoundError, the handler lets it through and the
  dispatcher sends nothing; and nothing changes except that the event id is registered, so the
  session is not created either.
\<close>

theorem uncreated_session_unanswered:
  assumes "ne_callback ev = None" and "ne_type ev \<in> {UserText, UserVoice, UserAttachment}" and "extract_supported_command (ne_text ev) = None"
    and "\<not> (he_coord e \<and> has_pending_question (ne_session ev) (hw_relay w))"
    and "o1 = he_orch e (capabilities_override (hw_adapter w) (ne_session ev))"
    and "meta_load (oe_H o1) (w_meta (ow_sessions (hw_world w))) (ne_session ev) (oe_clk o1 2) = Inr None"
    and "\<not> fst (fst (ingress_check_and_register (oe_H o1) (oe_idem_ttl o1) (ow_idem (hw_world w)) ''telegram'' (ne_id ev)
                 (Some (oe_retention o1)) (oe_clk o1 0) (oe_clk o1 1)))"
  shows "handle_event e ev w =
      (Inl (TurnError (SessionNotFoundError (ne_session ev))),
       w\<lparr>hw_world := (hw_world w)\<lparr>ow_idem := snd (ingress_check_and_register (oe_H o1) (oe_idem_ttl o1) (ow_idem (hw_world w)) ''telegram''
           (ne_id ev) (Some (oe_retention o1)) (oe_clk o1 0) (oe_clk o1 1))\<rparr>\<rparr>) \<and>
    snd (snd (dispatch_event False (Raised :: channel_response handled) (ne_session ev) task reg)) = None"
proof -
  let ?ev = "turn_event e ev w"
  have ev: "ev_session ?ev = ne_session ev" "ev_id ?ev = ne_id ev" "ev_source ?ev = ''telegram''"
    by (simp_all add: turn_event_def map_event_def split: option.splits)
  have resume: "factory_resume (oe_H o1) (ow_sessions (hw_world w)) (ne_session ev) (oe_clk o1 2) (oe_clk o1 3) =
      Inl (SessionNotFoundError (ne_session ev))"
    using assms(6) by (simp add: factory_resume_def)
  obtain dup prior idem where i: "ingress_check_and_register (oe_H o1) (oe_idem_ttl o1) (ow_idem (hw_world w)) ''telegram'' (ne_id ev)
      (Some (oe_retention o1)) (oe_clk o1 0) (oe_clk o1 1) = ((dup, prior), idem)" by (metis prod.collapse)
  have turn: "execute_turn o1 ?ev (hw_world w) = (Inl (TurnError (SessionNotFoundError (ne_session ev))), (hw_world w)\<lparr>ow_idem := idem\<rparr>)"
    using assms(7) i resume by (simp add: execute_turn_def Let_def ev)
  have "handle_event e ev w = route_rest e ev w" by (rule text_routes) (use assms in auto)
  also have "\<dots> = handle_turn e ev w" using assms(2,3) by (auto simp: route_rest_def is_command_def)
  also have "\<dots> = (Inl (TurnError (SessionNotFoundError (ne_session ev))), w\<lparr>hw_world := (hw_world w)\<lparr>ow_idem := idem\<rparr>\<rparr>)"
    using turn assms(5) by (simp add: handle_turn_def)
  finally show ?thesis using i by (simp add: dispatch_event_def Let_def)
qed

lemma split_count: "length (split_on c s) = Suc (count_list s c)"
proof (induction s)
  case (Cons x s)
  then show ?case by (cases "split_on c s") auto
qed simp

text \<open>A confirmation callback whose token is not in the table verifies as nothing else.\<close>

lemma stale_confirmation:
  assumes "hex_digest h" and "h = ac_hmac c" and "ne_callback ev = Some q" and "tok \<noteq> []" and "colon \<notin> set tok"
    and "cq_data q = sign_memory_confirmation_callback h tok chat secret made"
    and "map_of (ad_confirm a) tok = None" and "distinct (map fst (ad_confirm a))"
  shows "\<exists>t. is_confirmation_callback c ev c1 c2 a = (Inr False, a\<lparr>ad_confirm := t\<rparr>) \<and> set t \<subseteq> set (ad_confirm a)"
    and "is_task_callback c ev now = Inr False"
proof -
  let ?ts = "show_hex (timestamp_of made)" and ?sig = "callback_signature h secret chat tok (show_hex (timestamp_of made))"
  have ascii: "\<not> list_ex (\<lambda>c. code c \<ge> 128) (callback_signature h s n k v)" for s n k v by (rule signature_facts(3)[OF assms(1)])
  have "confirmation_token c ev c1 =
     (if \<not> in_time ?ts c1 then Inr None
      else case compare_digest ?sig (callback_signature h (callback_secret c) (ne_chat ev) tok ?ts) of
             Inl x \<Rightarrow> Inl x | Inr ok \<Rightarrow> Inr (if ok then Some tok else None))"
    unfolding confirmation_token_def assms(3) option.case assms(2)[symmetric] assms(6) sign_memory_confirmation_callback_def
      verify_memory_confirmation_callback_def sign_compact_def Let_def
    by (rule verify_fields) (use assms(4) signature_facts[OF assms(1)] in simp_all)
  then have "confirmation_token c ev c1 = Inr None \<or> confirmation_token c ev c1 = Inr (Some tok)"
    using ascii by (simp add: compare_digest_def)
  then show "\<exists>t. is_confirmation_callback c ev c1 c2 a = (Inr False, a\<lparr>ad_confirm := t\<rparr>) \<and> set t \<subseteq> set (ad_confirm a)"
  proof
    assume "confirmation_token c ev c1 = Inr None"
    then show ?thesis by (intro exI[of _ "ad_confirm a"]) (simp add: is_confirmation_callback_def)
  next
    assume t: "confirmation_token c ev c1 = Inr (Some tok)"
    have "map_of (tokens_cleanup c2 (ad_confirm a)) tok = None"
      using assms(7,8) tokens_cleanup_Some[of c2 "ad_confirm a" tok] by (cases "map_of (tokens_cleanup c2 (ad_confirm a)) tok") auto
    then show ?thesis
      by (intro exI[of _ "tokens_cleanup c2 (ad_confirm a)"])
        (auto simp: is_confirmation_callback_def t cleanup_confirmations_def Let_def tokens_cleanup_def)
  qed
  have "count_list (cq_data q) colon = 3"
    using assms(5,6) signature_facts(2)[OF assms(1), of secret chat tok ?ts]
    by (simp add: sign_memory_confirmation_callback_def sign_compact_def Let_def count_list_append count_notin)
  then have "length (split_on colon (cq_data q)) = 4" by (simp add: split_count)
  then show "is_task_callback c ev now = Inr False"
    by (auto simp: is_task_callback_def parse_task_callback_def assms(3) verify_task_callback_def split: list.splits)
qed

text \<open>
  A stale tap becomes a message to the agent.  A tap on a memory confirmation button that was
  used, has expired or belongs to another chat is not answered with a notice: the handler runs a turn of the agent
  in the session, whose user text is the data of the callback in brackets.
\<close>

theorem stale_tap_runs_turn:
  assumes "hex_digest (ac_hmac (he_cfg e))" and "ne_type ev = UserCallback" and "ne_text ev = None" and "ne_callback ev = Some q"
    and "ne_voice ev = None" and "ne_attachment ev = None" and "ne_attachments ev = []" and "tok \<noteq> []" and "colon \<notin> set tok"
    and "cq_data q = sign_memory_confirmation_callback (ac_hmac (he_cfg e)) tok chat secret made"
    and "map_of (ad_confirm (hw_adapter w)) tok = None" and "distinct (map fst (ad_confirm (hw_adapter w)))"
  shows "(\<exists>t. set t \<subseteq> set (ad_confirm (hw_adapter w)) \<and>
      handle_event e ev w = handle_turn e ev (w\<lparr>hw_adapter := (hw_adapter w)\<lparr>ad_confirm := t\<rparr>\<rparr>)) \<and>
    extract_user_text (turn_event e ev w) = ''[Callback: '' @ take 100 (cq_data q) @ '']''"
proof
  note s = stale_confirmation[OF assms(1) refl assms(4,8-12)]
  obtain t where t: "is_confirmation_callback (he_cfg e) ev (he_clk e 9) (he_clk e 10) (hw_adapter w) =
      (Inr False, (hw_adapter w)\<lparr>ad_confirm := t\<rparr>)" "set t \<subseteq> set (ad_confirm (hw_adapter w))"
    using s(1) by blast
  have "handle_event e ev w = route_task e ev (with_adapter w ((hw_adapter w)\<lparr>ad_confirm := t\<rparr>))"
    by (simp add: confirmation_tap_routes[OF assms(1,3,4,10)] t(1))
  also have "\<dots> = handle_turn e ev (with_adapter w ((hw_adapter w)\<lparr>ad_confirm := t\<rparr>))"
    using no_command[OF assms(3)] assms(2) by (simp add: route_task_def s(2) route_rest_def)
  finally show "\<exists>t. set t \<subseteq> set (ad_confirm (hw_adapter w)) \<and>
      handle_event e ev w = handle_turn e ev (w\<lparr>hw_adapter := (hw_adapter w)\<lparr>ad_confirm := t\<rparr>\<rparr>)"
    using t(2) by (auto simp: with_adapter_def)
  show "extract_user_text (turn_event e ev w) = ''[Callback: '' @ take 100 (cq_data q) @ '']''"
    using assms(3-7) by (auto simp: extract_user_text_def extract_text_from_event_def turn_event_def map_event_def nonempty_def
        slice_to_def split: option.splits)
qed

section \<open>Examples\<close>

definition demo_handler_env :: "(dict, dict, nat, nat) handler_env" where
  "demo_handler_env =
     \<lparr>he_cfg = demo_adapter_config, he_ad = demo_adapter_env, he_clk = (\<lambda>_. seconds 100), he_coord = True,
      he_confirm = Some demo_confirm, he_reason = (\<lambda>_. []), he_usage = None, he_registry = None, he_verbose = True,
      he_vocab = Some demo_fsrs, he_json = (\<lambda>_. None), he_exercise = (\<lambda>_. None), he_blanks = (\<lambda>_. None),
      he_words = (\<lambda>_. []), he_orch = (\<lambda>_. demo_orch_env 0), he_body = PNone, he_compacted = ''compacted''\<rparr>"

definition demo_hworld :: "(nat, nat) hworld" where
  "demo_hworld =
     \<lparr>hw_adapter = demo_adapter, hw_relay = \<lparr>rl_pending = [(''5'', 0)], rl_answers = []\<rparr>, hw_tasks = [], hw_registry = [],
      hw_verbose = verbose_load False None, hw_world = demo_world\<lparr>ow_store := (demo_pending, [])\<rparr>, hw_archive = None, hw_vocab = []\<rparr>"

definition demo_message :: "string \<Rightarrow> telegram_event" where
  "demo_message t =
     (base_event \<lparr>in_uuid = ''u'', in_trace = None, in_now = 0, in_clock = 0, in_json = (\<lambda>_. None), in_guess = (\<lambda>_. None)\<rparr>
        UserText 7 5 0 ''k'')\<lparr>ne_text := Some t\<rparr>"

lemma demo_message_simps [simp]:
  "ne_callback (demo_message t) = None" "ne_text (demo_message t) = Some t" "ne_session (demo_message t) = ''tg:5''"
  "ne_type (demo_message t) = UserText" "ne_chat (demo_message t) = 5"
  by (simp_all add: demo_message_def base_event_def) code_simp

theorem question_takes_text_witness:
  "\<exists>w'. handle_event demo_handler_env (demo_message ''/stop'') demo_hworld = (reply ''tg:5'' answer_received, w') \<and>
     fst (settle_question ''tg:5'' 0 (hw_relay w')) = ''/stop''"
proof -
  let ?h = "handle_event demo_handler_env (demo_message ''/stop'') demo_hworld"
  have k: "pending_question_key ''tg:5'' = ''5''" by code_simp
  have "he_coord demo_handler_env" "map_of (rl_pending (hw_relay demo_hworld)) (pending_question_key (ne_session (demo_message ''/stop''))) = Some 0"
    "map_of (rl_answers (hw_relay demo_hworld)) 0 = None"
    by (simp_all add: demo_handler_env_def demo_hworld_def k)
  from question_takes_text[OF demo_message_simps(1,2) _ this surjective_pairing] show ?thesis
    by (intro exI[of _ "snd ?h"]) (auto simp: prod_eq_iff)
qed

theorem uncreated_session_unanswered_witness:
  "fst (handle_event demo_handler_env (demo_message ''hello'') (demo_hworld\<lparr>hw_relay := \<lparr>rl_pending = [], rl_answers = []\<rparr>\<rparr>)) =
     Inl (TurnError (SessionNotFoundError ''tg:5''))"
proof -
  let ?w = "demo_hworld\<lparr>hw_relay := \<lparr>rl_pending = [], rl_answers = []\<rparr>\<rparr>" and ?ev = "demo_message ''hello''"
  let ?o = "he_orch demo_handler_env (capabilities_override (hw_adapter ?w) (ne_session ?ev))"
  have o: "oe_H ?o = id" "oe_idem_ttl ?o = 60" "oe_retention ?o = 60" "oe_clk ?o = int"
    by (simp_all add: demo_handler_env_def demo_orch_env_def fun_eq_iff)
  have 1: "ne_type ?ev \<in> {UserText, UserVoice, UserAttachment}" by simp
  have 2: "extract_supported_command (ne_text ?ev) = None" by code_simp
  have 3: "\<not> (he_coord demo_handler_env \<and> has_pending_question (ne_session ?ev) (hw_relay ?w))"
    by (simp add: has_pending_question_def)
  have 4: "meta_load (oe_H ?o) (w_meta (ow_sessions (hw_world ?w))) (ne_session ?ev) (oe_clk ?o 2) = Inr None"
    unfolding o by code_simp
  have 5: "\<not> fst (fst (ingress_check_and_register (oe_H ?o) (oe_idem_ttl ?o) (ow_idem (hw_world ?w)) ''telegram'' (ne_id ?ev)
      (Some (oe_retention ?o)) (oe_clk ?o 0) (oe_clk ?o 1)))"
    unfolding o by code_simp
  obtain w' where "handle_event demo_handler_env ?ev ?w = (Inl (TurnError (SessionNotFoundError (ne_session ?ev))), w')"
    using uncreated_session_unanswered[OF demo_message_simps(1) 1 2 3 refl 4 5, of 0 "[]"] by blast
  then show ?thesis by simp
qed

definition demo_stale_tap :: telegram_event where
  "demo_stale_tap = demo_tap (sign_memory_confirmation_callback demo_hmac ''abc'' 5 ''k'' 0)"

theorem stale_tap_runs_turn_witness:
  "extract_user_text (turn_event demo_handler_env demo_stale_tap demo_hworld) =
     ''[Callback: '' @ take 100 (sign_memory_confirmation_callback demo_hmac ''abc'' 5 ''k'' 0) @ '']''"
proof -
  let ?e = demo_handler_env and ?ev = demo_stale_tap
  have h: "hex_digest (ac_hmac (he_cfg ?e))" by (simp add: demo_handler_env_def demo_adapter_config_def demo_hmac_hex)
  have ev: "ne_type ?ev = UserCallback" "ne_text ?ev = None"
    "ne_callback ?ev = Some \<lparr>cq_id = ''q'', cq_data = sign_memory_confirmation_callback demo_hmac ''abc'' 5 ''k'' 0, cq_origin = None\<rparr>"
    "ne_voice ?ev = None" "ne_attachment ?ev = None" "ne_attachments ?ev = []"
    by (simp_all add: demo_stale_tap_def demo_tap_def base_event_def)
  have t: "''abc'' \<noteq> []" "colon \<notin> set ''abc''" by simp_all
  have d: "cq_data \<lparr>cq_id = ''q'', cq_data = sign_memory_confirmation_callback demo_hmac ''abc'' 5 ''k'' 0, cq_origin = None\<rparr> =
      sign_memory_confirmation_callback (ac_hmac (he_cfg ?e)) ''abc'' 5 ''k'' 0"
    by (simp add: demo_handler_env_def demo_adapter_config_def)
  have w: "map_of (ad_confirm (hw_adapter demo_hworld)) ''abc'' = None" "distinct (map fst (ad_confirm (hw_adapter demo_hworld)))"
    by (simp_all add: demo_hworld_def demo_adapter_def)
  from stale_tap_runs_turn[OF h ev t d w] show ?thesis by simp
qed

text \<open>The prompt for the pending proposal of the example, and a tap on its second button.\<close>

definition demo_prompt_env :: adapter_env where
  "demo_prompt_env = demo_adapter_env\<lparr>ae_clk := (\<lambda>_. seconds 50), ae_hex := (\<lambda>n. if n = 0 then ''aaaaaaaaaaaa'' else ''bbbbbbbbbbbb'')\<rparr>"

definition demo_prompt :: "channel_response \<times> adapter" where
  "demo_prompt = build_memory_confirmation demo_adapter_config demo_prompt_env 5 ''s'' ''c'' ''Save it?'' demo_adapter"

lemma demo_prompt_times: "prompt_times demo_prompt_env (he_clk demo_handler_env)"
  unfolding prompt_times_def
  by (intro exI[of _ "seconds 50"]) (simp add: demo_prompt_env_def demo_handler_env_def)

definition demo_prompt_tap :: telegram_event where
  "demo_prompt_tap = demo_tap (ab_data (cr_actions (fst demo_prompt) ! 1))"

definition demo_prompt_world :: "(nat, nat) hworld" where
  "demo_prompt_world = demo_hworld\<lparr>hw_adapter := snd demo_prompt\<rparr>"

definition demo_dec :: decision where
  "demo_dec = \<lparr>dc_call = ''c'', dc_approve = ((1 :: nat) = 0), dc_user = Some (ne_user demo_prompt_tap), dc_t1 = he_clk demo_handler_env 13,
     dc_t2 = he_clk demo_handler_env 14, dc_u1 = ae_hex (he_ad demo_handler_env) 2, dc_u2 = ae_hex (he_ad demo_handler_env) 3\<rparr>"

lemma demo_rejects:
  "\<exists>st. resolve_pending demo_confirm ''s'' demo_dec (ow_store (hw_world demo_prompt_world), ow_memory (hw_world demo_prompt_world)) =
     (Inr (True, ''Memory update rejected.''), (st, 0))"
proof -
  have w: "ow_store (hw_world demo_prompt_world) = (demo_pending, [])" "ow_memory (hw_world demo_prompt_world) = 0"
    by (simp_all add: demo_prompt_world_def demo_hworld_def demo_world_def)
  obtain r d1 fs1 where a: "append_result ''s'' ''t'' ''c'' [(''status'', PStr ''rejected_by_user''),
      (''reason'', PStr ''User rejected memory update'')] None (dc_t1 demo_dec) (dc_u1 demo_dec) (demo_pending, []) = (r, (d1, fs1))"
    by (metis prod.collapse)
  have "r = Inr ()" using append_result_status(4)[OF demo_pending_good(1) a] by simp
  moreover have "dc_call demo_dec = ''c''" "\<not> dc_approve demo_dec" by (simp_all add: demo_dec_def)
  ultimately show ?thesis
    using a demo_pending_find unfolding w by (simp add: resolve_pending_def demo_confirm_def)
qed

theorem prompt_tap_decides_witness:
  "\<exists>w'. handle_event demo_handler_env demo_prompt_tap demo_prompt_world = (reply ''s'' ''Memory update rejected.'', w')"
proof -
  let ?e = demo_handler_env
  have h: "hex_digest (ac_hmac (he_cfg ?e))" "he_confirm ?e = Some demo_confirm"
    by (simp_all add: demo_handler_env_def demo_adapter_config_def demo_hmac_hex)
  have b: "build_memory_confirmation (he_cfg ?e) demo_prompt_env (ne_chat demo_prompt_tap) ''s'' ''c'' ''Save it?'' demo_adapter =
      (fst demo_prompt, hw_adapter demo_prompt_world)"
    by (simp add: demo_handler_env_def demo_prompt_tap_def demo_tap_def base_event_def demo_prompt_world_def demo_prompt_def)
  have n: "distinct (map fst (ad_confirm demo_adapter))" "take 10 (ae_hex demo_prompt_env 0) \<noteq> take 10 (ae_hex demo_prompt_env 1)"
    "\<And>n. ae_hex demo_prompt_env n \<noteq> []" "(1 :: nat) < 2"
    by (simp_all add: demo_adapter_def demo_prompt_env_def)
  have t: "ne_text demo_prompt_tap = None"
    "ne_callback demo_prompt_tap = Some \<lparr>cq_id = ''q'', cq_data = ab_data (cr_actions (fst demo_prompt) ! 1), cq_origin = None\<rparr>"
    by (simp_all add: demo_prompt_tap_def demo_tap_def base_event_def)
  obtain st where r: "resolve_pending demo_confirm ''s'' demo_dec (ow_store (hw_world demo_prompt_world), ow_memory (hw_world demo_prompt_world)) =
     (Inr (True, ''Memory update rejected.''), (st, 0))" using demo_rejects by blast
  from prompt_tap_decides[OF h b demo_prompt_times n t _ demo_dec_def r] show ?thesis by auto
qed

end
