(* ===== verification/Mcp_Connection.thy ===== *)
theory Mcp_Connection
  imports Configuration
begin

text \<open>
  The shared connection to an MCP server: class McpConnection of extensions/mcp/toolsets.py.
  The tasks of the event loop interleave between their suspensions; a step of the model is
  what a task runs from one suspension to the next.  A request is a task in _run or start; its
  position is a phase.  A session is a toolset built by the factory, named by a number; what
  the server does with it (connecting, answering, breaking) is the choice of the steps.
  Times are microseconds of the monotonic clock.
\<close>

section \<open>Failures that mean a dead session\<close>

text \<open>
  An exception with the classes it is an instance of, as pairs of top module and name, its
  text and its cause; or an exception group.
\<close>

datatype py_exc =
    Exc "(string \<times> string) list" string "py_exc option"
  | ExcGroup "py_exc list"

fun exc_leaves :: "py_exc \<Rightarrow> py_exc list" where
  "exc_leaves (ExcGroup es) = concat (map exc_leaves es)"
| "exc_leaves (Exc cs m None) = [Exc cs m None]"
| "exc_leaves (Exc cs m (Some c)) = Exc cs m (Some c) # exc_leaves c"

definition dead_session_markers :: "string list" where
  "dead_session_markers = [''session terminated'', ''connection closed'', ''client is not connected'', ''client failed to connect'']"

definition http_modules :: "string list" where
  "http_modules = [''httpx'', ''httpx2'', ''httpcore'']"

definition transport_error_bases :: "string list" where
  "transport_error_bases = [''TransportError'', ''NetworkError'', ''ProtocolError'']"

definition is_transport_error :: "(string \<times> string) list \<Rightarrow> bool" where
  "is_transport_error classes =
     (if list_ex (\<lambda>(_, n). n \<in> {''TimeoutException'', ''TimeoutError''}) classes then False
      else list_ex (\<lambda>(m, _). m \<in> set http_modules) classes \<and>
           list_ex (\<lambda>(_, n). n \<in> set transport_error_bases) classes)"

fun dead_leaf :: "py_exc \<Rightarrow> bool" where
  "dead_leaf (ExcGroup es) = False"
| "dead_leaf (Exc classes msg _) =
     (list_ex (\<lambda>c. c \<in> set classes)
        [(''anyio'', ''ClosedResourceError''), (''anyio'', ''BrokenResourceError''), (''anyio'', ''EndOfStream'')] \<or>
      (''builtins'', ''ConnectionError'') \<in> set classes \<or>
      is_transport_error classes \<or>
      (list_ex (\<lambda>c. c \<in> set classes) [(''mcp'', ''McpError''), (''builtins'', ''RuntimeError'')] \<and>
       list_ex (\<lambda>m. contains m (py_lower msg)) dead_session_markers))"

definition is_connection_error :: "py_exc \<Rightarrow> bool" where
  "is_connection_error e = list_ex dead_leaf (exc_leaves e)"

text \<open>
  A failure that neither comes from the network nor is a runtime error of the stack goes back to
  the model; a timeout of the HTTP library is no failure of the connection.
\<close>

lemma timeout_keeps_session:
  assumes "(m, ''TimeoutException'') \<in> set classes"
    and "\<And>c. c \<in> set classes \<Longrightarrow> fst c \<in> {''httpx'', ''httpcore''} \<or> snd c \<in> {''Exception'', ''BaseException'', ''object''}"
  shows "\<not> is_connection_error (Exc classes msg None)"
proof -
  have "\<not> is_transport_error classes" 
    using assms(1) bexI[of "\<lambda>(_, n). n \<in> {''TimeoutException'', ''TimeoutError''}" "(m, ''TimeoutException'')" "set classes"]
    by (simp add: is_transport_error_def list_ex_iff)
  moreover have "(a, b) \<notin> set classes" if "a \<in> {''anyio'', ''builtins'', ''mcp''}" "b \<notin> {''Exception'', ''BaseException'', ''object''}" for a b
    using assms(2)[of "(a, b)"] that by auto
  ultimately show ?thesis by (simp add: is_connection_error_def)
qed

section \<open>The connection and its tasks\<close>

text \<open>Entry and time-outs, which reconfigure replaces together.\<close>

record conn_config =
  cc_entry :: mcp_entry
  cc_connect :: int
  cc_call :: int

datatype request = StartReq | ListReq | CallReq

text \<open>Why a connection is wanted: for the first attempt, or to replace the lost session.\<close>

datatype ensuring = First | Lost nat

datatype outcome =
    Connected bool
  | Answered
  | OpRaised
  | Unavailable
  | Unreachable
  | OutcomeUnknown
  | BackoffOverflow
  | Abandoned

datatype mcp_phase =
    Ensuring ensuring
  | Connecting ensuring nat
  | Running ensuring nat
  | LostSession nat
  | ClosingFailed nat
  | Finished outcome

text \<open>
  mc_tasks are the requests with their phase, mc_locked is _lock, mc_closers the sessions that
  _close_stale is closing, each with the request in whose finally block it runs, or None for a
  task of its own, mc_scheduled the closing tasks that have not run yet.  The rest is history:
  the sessions made and the configuration each was made with, the operations sent with the
  request that sent them, the sessions closed by _close_stale, those whose closing was cancelled,
  those stop closes, and those that were being connected when the configuration changed.
\<close>

record mcp_conn =
  mc_config :: conn_config
  mc_toolset :: "nat option"
  mc_failures :: nat
  mc_retry_at :: int
  mc_locked :: bool
  mc_inflight :: nat
  mc_stale :: "nat list"
  mc_scheduled :: nat
  mc_closers :: "(nat option \<times> nat) list"
  mc_tasks :: "(nat \<times> request \<times> mcp_phase) list"
  mc_made :: "conn_config list"
  mc_sent :: "(nat \<times> nat) list"
  mc_retired :: "nat list"
  mc_aborted :: "nat list"
  mc_stopping :: "nat list"
  mc_raced :: "nat list"

definition fresh_conn :: "conn_config \<Rightarrow> mcp_conn" where
  "fresh_conn c =
     \<lparr>mc_config = c, mc_toolset = None, mc_failures = 0, mc_retry_at = 0, mc_locked = False, mc_inflight = 0, mc_stale = [],
      mc_scheduled = 0, mc_closers = [], mc_tasks = [], mc_made = [], mc_sent = [], mc_retired = [], mc_aborted = [], mc_stopping = [], mc_raced = []\<rparr>"

definition put_phase :: "nat \<Rightarrow> request \<Rightarrow> mcp_phase \<Rightarrow> mcp_conn \<Rightarrow> mcp_conn" where
  "put_phase c k p s = s\<lparr>mc_tasks := AList.update c (k, p) (mc_tasks s)\<rparr>"

section \<open>Closing superseded sessions\<close>

text \<open>The loop of _close_stale up to its next suspension; pop takes the last session.\<close>

definition close_turn :: "nat option \<Rightarrow> mcp_conn \<Rightarrow> mcp_conn" where
  "close_turn w s =
     (if mc_stale s \<noteq> [] \<and> mc_inflight s = 0
      then s\<lparr>mc_stale := butlast (mc_stale s), mc_closers := (w, last (mc_stale s)) # mc_closers s\<rparr> else s)"

text \<open>
  The finally block of _run, when an operation is over.  What the request returns or raises is
  decided, but its caller gets it only when the sessions that the block closes are closed.
\<close>

definition leave :: "nat \<Rightarrow> request \<Rightarrow> outcome \<Rightarrow> mcp_conn \<Rightarrow> mcp_conn" where
  "leave c k r s = close_turn (Some c) (put_phase c k (Finished r) (s\<lparr>mc_inflight := mc_inflight s - 1\<rparr>))"

section \<open>Connecting\<close>

definition connect_backoff_base :: int where "connect_backoff_base = seconds 5"
definition connect_backoff_max :: int where "connect_backoff_max = seconds 300"

text \<open>
  The factor 2 ** (failures - 1) is an integer that is converted to a float, which raises
  OverflowError from 2 ** 1024 on.
\<close>

definition connect_backoff :: "nat \<Rightarrow> int option" where
  "connect_backoff failures =
     (if failures - 1 \<ge> 1024 then None else Some (min (connect_backoff_base * 2 ^ (failures - 1)) connect_backoff_max))"

text \<open>A session is there: start is done, a request runs its operation on it.\<close>

definition send_op :: "nat \<Rightarrow> request \<Rightarrow> ensuring \<Rightarrow> nat \<Rightarrow> mcp_conn \<Rightarrow> mcp_conn" where
  "send_op c k why n s = put_phase c k (Running why n) (s\<lparr>mc_sent := mc_sent s @ [(c, n)]\<rparr>)"

definition got_session :: "nat \<Rightarrow> request \<Rightarrow> ensuring \<Rightarrow> nat \<Rightarrow> mcp_conn \<Rightarrow> mcp_conn" where
  "got_session c k why n s =
     (case why of
        First \<Rightarrow> if k = StartReq then put_phase c k (Finished (Connected True)) s
                 else send_op c k First n (s\<lparr>mc_inflight := mc_inflight s + 1\<rparr>)
      | Lost m \<Rightarrow> if k = ListReq then send_op c k (Lost m) n s else leave c k OutcomeUnknown s)"

definition no_session :: "nat \<Rightarrow> request \<Rightarrow> ensuring \<Rightarrow> mcp_conn \<Rightarrow> mcp_conn" where
  "no_session c k why s =
     (case why of
        First \<Rightarrow> put_phase c k (Finished (if k = StartReq then Connected False else Unavailable)) s
      | Lost m \<Rightarrow> leave c k (if k = ListReq then Unreachable else OutcomeUnknown) s)"

text \<open>_ensure with the lock held, up to the call of __aenter__.\<close>

definition ensure_turn :: "nat \<Rightarrow> request \<Rightarrow> ensuring \<Rightarrow> int \<Rightarrow> mcp_conn \<Rightarrow> mcp_conn" where
  "ensure_turn c k why now s =
     (case mc_toolset s of
        Some n \<Rightarrow> got_session c k why n s
      | None \<Rightarrow>
          if why = First \<and> now < mc_retry_at s then no_session c k why s
          else put_phase c k (Connecting why (length (mc_made s)))
                 (s\<lparr>mc_made := mc_made s @ [mc_config s], mc_locked := True\<rparr>))"

definition connect_ok :: "nat \<Rightarrow> request \<Rightarrow> ensuring \<Rightarrow> nat \<Rightarrow> mcp_conn \<Rightarrow> mcp_conn" where
  "connect_ok c k why n s =
     got_session c k why n (s\<lparr>mc_failures := 0, mc_retry_at := 0, mc_toolset := Some n, mc_locked := False\<rparr>)"

definition connect_failed :: "nat \<Rightarrow> request \<Rightarrow> ensuring \<Rightarrow> int \<Rightarrow> mcp_conn \<Rightarrow> mcp_conn" where
  "connect_failed c k why now s =
     (let f = mc_failures s + 1; s1 = s\<lparr>mc_failures := f, mc_locked := False\<rparr>
      in case connect_backoff f of
           Some b \<Rightarrow> no_session c k why (s1\<lparr>mc_retry_at := now + b\<rparr>)
         | None \<Rightarrow> (case why of First \<Rightarrow> put_phase c k (Finished BackoffOverflow) s1
                             | Lost m \<Rightarrow> leave c k BackoffOverflow s1))"

section \<open>Steps\<close>

text \<open>_reconnect: the lost session is replaced once, however many requests lost it.\<close>

definition lost_turn :: "nat \<Rightarrow> request \<Rightarrow> nat \<Rightarrow> mcp_conn \<Rightarrow> mcp_conn" where
  "lost_turn c k n s =
     (if mc_toolset s = Some n then put_phase c k (ClosingFailed n) (s\<lparr>mc_toolset := None\<rparr>)
      else put_phase c k (Ensuring (Lost n)) s)"

definition connecting_sessions :: "mcp_conn \<Rightarrow> nat list" where
  "connecting_sessions s = List.map_filter (\<lambda>(c, k, p). case p of Connecting w n \<Rightarrow> Some n | _ \<Rightarrow> None) (mc_tasks s)"

text \<open>
  reconfigure is called without the lock and runs in one piece.  Without a running event loop it
  starts no task that closes the superseded sessions.
\<close>

definition reconfigure :: "bool \<Rightarrow> conn_config \<Rightarrow> mcp_conn \<Rightarrow> mcp_conn" where
  "reconfigure loop cfg s =
     (let st = mc_stale s @ (case mc_toolset s of Some n \<Rightarrow> [n] | None \<Rightarrow> [])
      in s\<lparr>mc_config := cfg, mc_failures := 0, mc_retry_at := 0, mc_stale := st, mc_toolset := None,
           mc_scheduled := (if st \<noteq> [] \<and> mc_inflight s = 0 \<and> loop then mc_scheduled s + 1 else mc_scheduled s),
           mc_raced := connecting_sessions s @ mc_raced s\<rparr>)"

text \<open>stop takes the sessions whether operations run on them or not.\<close>

definition stop_conn :: "mcp_conn \<Rightarrow> mcp_conn" where
  "stop_conn s =
     s\<lparr>mc_toolset := None, mc_stale := [],
       mc_stopping := mc_stopping s @ (case mc_toolset s of Some n \<Rightarrow> [n] | None \<Rightarrow> []) @ mc_stale s\<rparr>"

text \<open>
  A cancelled request that awaits the closing of a superseded session in its finally block: the
  closing is cancelled with it, and the sessions still to close stay where they are.
\<close>

definition abort_closing :: "nat \<Rightarrow> request \<Rightarrow> mcp_conn \<Rightarrow> mcp_conn" where
  "abort_closing c k s =
     (case map_of (mc_closers s) (Some c) of
        None \<Rightarrow> s
      | Some n \<Rightarrow> put_phase c k (Finished Abandoned)
          (s\<lparr>mc_closers := remove1 (Some c, n) (mc_closers s), mc_aborted := n # mc_aborted s\<rparr>))"

text \<open>A cancelled task: it releases the lock, and the finally block of _run is executed.\<close>

definition abandon :: "nat \<Rightarrow> request \<Rightarrow> mcp_phase \<Rightarrow> mcp_conn \<Rightarrow> mcp_conn" where
  "abandon c k p s =
     (case p of
        Ensuring First \<Rightarrow> put_phase c k (Finished Abandoned) s
      | Connecting First n \<Rightarrow> put_phase c k (Finished Abandoned) (s\<lparr>mc_locked := False\<rparr>)
      | Connecting (Lost m) n \<Rightarrow> leave c k Abandoned (s\<lparr>mc_locked := False\<rparr>)
      | Finished r \<Rightarrow> abort_closing c k s
      | _ \<Rightarrow> leave c k Abandoned s)"

datatype mcp_event =
    Begin nat request
  | EnsureTurn nat int
  | ConnectOk nat
  | ConnectFailed nat int
  | OpReturns nat
  | OpRaises nat py_exc
  | LostTurn nat
  | FailedClosed nat
  | Cancelled nat
  | Reconfigure bool conn_config
  | CloserStarts
  | CloserDone "nat option" nat
  | StopConn

text \<open>
  An event of a task that has the phase for it; None means that the event cannot happen.  A
  repeated operation that fails again raises to the caller.
\<close>

definition task_event :: "nat \<Rightarrow> (request \<Rightarrow> mcp_phase \<Rightarrow> mcp_conn option) \<Rightarrow> mcp_conn \<Rightarrow> mcp_conn option" where
  "task_event c f s = (case map_of (mc_tasks s) c of None \<Rightarrow> None | Some (k, p) \<Rightarrow> f k p)"

fun mcp_step :: "mcp_event \<Rightarrow> mcp_conn \<Rightarrow> mcp_conn option" where
  "mcp_step (Begin c k) s =
     (if map_of (mc_tasks s) c = None then Some (put_phase c k (Ensuring First) s) else None)"
| "mcp_step (EnsureTurn c now) s = task_event c (\<lambda>k p. case p of
     Ensuring why \<Rightarrow> if mc_locked s then None else Some (ensure_turn c k why now s) | _ \<Rightarrow> None) s"
| "mcp_step (ConnectOk c) s = task_event c (\<lambda>k p. case p of
     Connecting why n \<Rightarrow> Some (connect_ok c k why n s) | _ \<Rightarrow> None) s"
| "mcp_step (ConnectFailed c now) s = task_event c (\<lambda>k p. case p of
     Connecting why n \<Rightarrow> Some (connect_failed c k why now s) | _ \<Rightarrow> None) s"
| "mcp_step (OpReturns c) s = task_event c (\<lambda>k p. case p of
     Running why n \<Rightarrow> Some (leave c k Answered s) | _ \<Rightarrow> None) s"
| "mcp_step (OpRaises c x) s = task_event c (\<lambda>k p. case p of
     Running why n \<Rightarrow> Some (if why = First \<and> is_connection_error x then put_phase c k (LostSession n) s
                            else leave c k OpRaised s) | _ \<Rightarrow> None) s"
| "mcp_step (LostTurn c) s = task_event c (\<lambda>k p. case p of
     LostSession n \<Rightarrow> if mc_locked s then None else Some (lost_turn c k n s) | _ \<Rightarrow> None) s"
| "mcp_step (FailedClosed c) s = task_event c (\<lambda>k p. case p of
     ClosingFailed n \<Rightarrow> Some (put_phase c k (Ensuring (Lost n)) s) | _ \<Rightarrow> None) s"
| "mcp_step (Cancelled c) s = task_event c (\<lambda>k p. Some (abandon c k p s)) s"
| "mcp_step (Reconfigure loop cfg) s = Some (reconfigure loop cfg s)"
| "mcp_step CloserStarts s =
     (if mc_scheduled s > 0 then Some (close_turn None (s\<lparr>mc_scheduled := mc_scheduled s - 1\<rparr>)) else None)"
| "mcp_step (CloserDone w n) s =
     (if (w, n) \<in> set (mc_closers s)
      then Some (close_turn w (s\<lparr>mc_closers := remove1 (w, n) (mc_closers s), mc_retired := n # mc_retired s\<rparr>)) else None)"
| "mcp_step StopConn s = (if mc_locked s then None else Some (stop_conn s))"

fun mcp_run :: "mcp_event list \<Rightarrow> mcp_conn \<Rightarrow> mcp_conn option" where
  "mcp_run [] s = Some s"
| "mcp_run (e # es) s = (case mcp_step e s of None \<Rightarrow> None | Some t \<Rightarrow> mcp_run es t)"

lemma mcp_run_invariant:
  assumes "\<And>e s t. e \<in> set es \<Longrightarrow> mcp_step e s = Some t \<Longrightarrow> I s \<Longrightarrow> I t" and "I s" and "mcp_run es s = Some t"
  shows "I t"
  using assms
proof (induction es arbitrary: s)
  case (Cons e es)
  obtain u where u: "mcp_step e s = Some u" "mcp_run es u = Some t"
    using Cons.prems(3) by (cases "mcp_step e s") auto
  have "I u" using Cons.prems(1)[of e s u] Cons.prems(2) u(1) by simp
  then show ?case using u(2) by (rule Cons.IH[rotated]) (erule (1) Cons.prems(1)[rotated], simp)
qed simp


section \<open>Effects of the steps\<close>

named_theorems mcp_simps \<open>fields of a connection after its operations\<close>

lemma close_turn_simps [mcp_simps]:
  "mc_tasks (close_turn w s) = mc_tasks s" "mc_sent (close_turn w s) = mc_sent s" "mc_inflight (close_turn w s) = mc_inflight s"
  "mc_locked (close_turn w s) = mc_locked s" "mc_toolset (close_turn w s) = mc_toolset s" "mc_config (close_turn w s) = mc_config s"
  "mc_made (close_turn w s) = mc_made s" "mc_retired (close_turn w s) = mc_retired s" "mc_raced (close_turn w s) = mc_raced s"
  "mc_scheduled (close_turn w s) = mc_scheduled s" "mc_stopping (close_turn w s) = mc_stopping s" "mc_aborted (close_turn w s) = mc_aborted s"
  by (auto simp: close_turn_def)

lemma put_phase_simps [mcp_simps]:
  "mc_tasks (put_phase c k p s) = AList.update c (k, p) (mc_tasks s)" "mc_sent (put_phase c k p s) = mc_sent s"
  "mc_inflight (put_phase c k p s) = mc_inflight s" "mc_locked (put_phase c k p s) = mc_locked s"
  "mc_toolset (put_phase c k p s) = mc_toolset s" "mc_config (put_phase c k p s) = mc_config s"
  "mc_made (put_phase c k p s) = mc_made s" "mc_retired (put_phase c k p s) = mc_retired s" "mc_raced (put_phase c k p s) = mc_raced s"
  "mc_stopping (put_phase c k p s) = mc_stopping s" "mc_aborted (put_phase c k p s) = mc_aborted s"
  "mc_stale (put_phase c k p s) = mc_stale s" "mc_closers (put_phase c k p s) = mc_closers s" "mc_scheduled (put_phase c k p s) = mc_scheduled s"
  by (auto simp: put_phase_def)

lemmas mcp_defs = leave_def send_op_def got_session_def no_session_def ensure_turn_def connect_ok_def connect_failed_def lost_turn_def
  reconfigure_def stop_conn_def abort_closing_def abandon_def Let_def

text \<open>The events that can happen, with the phase they need.\<close>

lemma task_event_Some: "task_event c f s = Some t \<longleftrightarrow> (\<exists>k p. map_of (mc_tasks s) c = Some (k, p) \<and> f k p = Some t)"
  by (auto simp: task_event_def split: option.splits)

lemma phase_case_Some:
  "(case p of Ensuring w \<Rightarrow> f w | _ \<Rightarrow> None) = Some t \<longleftrightarrow> (\<exists>w. p = Ensuring w \<and> f w = Some t)"
  "(case p of Connecting w n \<Rightarrow> g w n | _ \<Rightarrow> None) = Some t \<longleftrightarrow> (\<exists>w n. p = Connecting w n \<and> g w n = Some t)"
  "(case p of Running w n \<Rightarrow> g w n | _ \<Rightarrow> None) = Some t \<longleftrightarrow> (\<exists>w n. p = Running w n \<and> g w n = Some t)"
  "(case p of LostSession n \<Rightarrow> h n | _ \<Rightarrow> None) = Some t \<longleftrightarrow> (\<exists>n. p = LostSession n \<and> h n = Some t)"
  "(case p of ClosingFailed n \<Rightarrow> h n | _ \<Rightarrow> None) = Some t \<longleftrightarrow> (\<exists>n. p = ClosingFailed n \<and> h n = Some t)"
  by (cases p; simp)+

lemma guard_Some: "(if b then None else Some x) = Some y \<longleftrightarrow> \<not> b \<and> x = y"
  by simp

lemmas event_iff = task_event_Some phase_case_Some guard_Some

section \<open>Operations sent\<close>

definition ops_sent :: "nat \<Rightarrow> mcp_conn \<Rightarrow> nat" where
  "ops_sent c s = count_list (map fst (mc_sent s)) c"

fun sends_ok :: "request \<Rightarrow> mcp_phase \<Rightarrow> nat \<Rightarrow> bool" where
  "sends_ok k (Ensuring First) n = (n = 0)"
| "sends_ok k (Ensuring (Lost m)) n = (k \<noteq> StartReq \<and> n = 1)"
| "sends_ok k (Connecting First m) n = (n = 0)"
| "sends_ok k (Connecting (Lost j) m) n = (k \<noteq> StartReq \<and> n = 1)"
| "sends_ok k (Running First m) n = (k \<noteq> StartReq \<and> n = 1)"
| "sends_ok k (Running (Lost j) m) n = (k = ListReq \<and> n = 2)"
| "sends_ok k (LostSession m) n = (k \<noteq> StartReq \<and> n = 1)"
| "sends_ok k (ClosingFailed m) n = (k \<noteq> StartReq \<and> n = 1)"
| "sends_ok k (Finished r) n =
     (case r of
        Connected b \<Rightarrow> n = 0
      | Unavailable \<Rightarrow> n = 0
      | Unreachable \<Rightarrow> k = ListReq \<and> n = 1
      | OutcomeUnknown \<Rightarrow> k = CallReq \<and> n = 1
      | BackoffOverflow \<Rightarrow> n \<le> 1 \<and> (k = StartReq \<longrightarrow> n = 0)
      | Abandoned \<Rightarrow> n \<le> (case k of StartReq \<Rightarrow> 0 | CallReq \<Rightarrow> 1 | ListReq \<Rightarrow> 2)
      | _ \<Rightarrow> n = 1 \<and> k \<noteq> StartReq \<or> n = 2 \<and> k = ListReq)"

definition sends_inv :: "mcp_conn \<Rightarrow> bool" where
  "sends_inv s \<longleftrightarrow>
     (\<forall>c k p. map_of (mc_tasks s) c = Some (k, p) \<longrightarrow> sends_ok k p (ops_sent c s)) \<and>
     (\<forall>c. map_of (mc_tasks s) c = None \<longrightarrow> ops_sent c s = 0)"

lemma ops_sent_simps [simp]:
  "ops_sent c (s\<lparr>mc_inflight := x_inflight\<rparr>) = ops_sent c s"
  "ops_sent c (s\<lparr>mc_locked := x_locked\<rparr>) = ops_sent c s"
  "ops_sent c (s\<lparr>mc_toolset := x_toolset\<rparr>) = ops_sent c s"
  "ops_sent c (s\<lparr>mc_failures := x_failures\<rparr>) = ops_sent c s"
  "ops_sent c (s\<lparr>mc_retry_at := x_retry_at\<rparr>) = ops_sent c s"
  "ops_sent c (s\<lparr>mc_config := x_config\<rparr>) = ops_sent c s"
  "ops_sent c (s\<lparr>mc_stale := x_stale\<rparr>) = ops_sent c s"
  "ops_sent c (s\<lparr>mc_made := x_made\<rparr>) = ops_sent c s"
  "ops_sent c (s\<lparr>mc_raced := x_raced\<rparr>) = ops_sent c s"
  "ops_sent c (s\<lparr>mc_scheduled := x_scheduled\<rparr>) = ops_sent c s"
  "ops_sent c (s\<lparr>mc_closers := x_closers\<rparr>) = ops_sent c s"
  "ops_sent c (s\<lparr>mc_retired := x_retired\<rparr>) = ops_sent c s"
  "ops_sent c (s\<lparr>mc_aborted := x_aborted\<rparr>) = ops_sent c s"
  "ops_sent c (s\<lparr>mc_stopping := x_stopping\<rparr>) = ops_sent c s"
  by (simp_all add: ops_sent_def)

lemma sends_inv_simps [simp]:
  "sends_inv (s\<lparr>mc_inflight := x_inflight\<rparr>) = sends_inv s"
  "sends_inv (s\<lparr>mc_locked := x_locked\<rparr>) = sends_inv s"
  "sends_inv (s\<lparr>mc_toolset := x_toolset\<rparr>) = sends_inv s"
  "sends_inv (s\<lparr>mc_failures := x_failures\<rparr>) = sends_inv s"
  "sends_inv (s\<lparr>mc_retry_at := x_retry_at\<rparr>) = sends_inv s"
  "sends_inv (s\<lparr>mc_config := x_config\<rparr>) = sends_inv s"
  "sends_inv (s\<lparr>mc_stale := x_stale\<rparr>) = sends_inv s"
  "sends_inv (s\<lparr>mc_made := x_made\<rparr>) = sends_inv s"
  "sends_inv (s\<lparr>mc_raced := x_raced\<rparr>) = sends_inv s"
  "sends_inv (s\<lparr>mc_scheduled := x_scheduled\<rparr>) = sends_inv s"
  "sends_inv (s\<lparr>mc_closers := x_closers\<rparr>) = sends_inv s"
  "sends_inv (s\<lparr>mc_retired := x_retired\<rparr>) = sends_inv s"
  "sends_inv (s\<lparr>mc_aborted := x_aborted\<rparr>) = sends_inv s"
  "sends_inv (s\<lparr>mc_stopping := x_stopping\<rparr>) = sends_inv s"
  by (simp_all add: sends_inv_def)

lemma sends_close_turn [simp]: "sends_inv (close_turn w s) = sends_inv s"
  by (simp add: close_turn_def)

lemma count_list_const: "count_list (map (\<lambda>x. c) ns) d = (if d = c then length ns else 0)"
  by (induction ns) auto

lemma sends_inv_update:
  assumes "mc_tasks t = AList.update c (k, p) (mc_tasks s)" and "mc_sent t = mc_sent s @ map (Pair c) ns" and "sends_inv s"
    and "sends_ok k p (ops_sent c s + length ns)"
  shows "sends_inv t"
proof -
  have n: "ops_sent d t = ops_sent d s + (if d = c then length ns else 0)" for d
    using assms(2) by (simp add: ops_sent_def o_def count_list_const)
  show ?thesis using assms(3,4) by (auto simp: sends_inv_def n assms(1) update_conv' split: if_splits)
qed

lemma sends_inv_at: "sends_inv s \<Longrightarrow> map_of (mc_tasks s) c = Some (k, p) \<Longrightarrow> sends_ok k p (ops_sent c s)"
  by (simp add: sends_inv_def)

lemma sends_leave:
  assumes "sends_inv s" and "sends_ok k (Finished r) (ops_sent c s)"
  shows "sends_inv (leave c k r s)"
  by (rule sends_inv_update[of _ c k "Finished r" s "[]"]) (use assms in \<open>simp_all add: leave_def mcp_simps\<close>)

lemma sends_phase:
  assumes "sends_inv s" and "sends_ok k p (ops_sent c s)"
  shows "sends_inv (put_phase c k p s)"
  by (rule sends_inv_update[of _ c k p s "[]"]) (use assms in \<open>simp_all add: mcp_simps\<close>)

lemma sends_op:
  assumes "sends_inv s" and "sends_ok k (Running why n) (ops_sent c s + 1)"
  shows "sends_inv (send_op c k why n s)"
  by (rule sends_inv_update[of _ c k "Running why n" s "[n]"]) (use assms in \<open>simp_all add: send_op_def mcp_simps\<close>)


lemma sends_got:
  assumes "sends_inv s" and "sends_ok k (Connecting why n) (ops_sent c s)"
  shows "sends_inv (got_session c k why m s)"
proof (cases why)
  case First
  with assms show ?thesis
    by (cases k) (auto simp: got_session_def intro!: sends_phase sends_op)
next
  case (Lost j)
  with assms show ?thesis by (cases k) (auto simp: got_session_def intro!: sends_leave sends_op)
qed

lemma sends_none:
  assumes "sends_inv s" and "sends_ok k (Connecting why n) (ops_sent c s)"
  shows "sends_inv (no_session c k why s)"
  using assms by (cases why; cases k) (auto simp: no_session_def intro!: sends_leave sends_phase)


lemma sends_limit: "sends_ok k p n \<Longrightarrow> n \<le> (case k of StartReq \<Rightarrow> 0 | CallReq \<Rightarrow> 1 | ListReq \<Rightarrow> 2)"
  by (elim sends_ok.elims) (auto split: request.splits outcome.splits)

lemma sends_abort:
  assumes "sends_inv s" and "sends_ok k (Finished r) (ops_sent c s)"
  shows "sends_inv (abort_closing c k s)"
proof -
  have "sends_ok k (Finished Abandoned) (ops_sent c s)" using sends_limit[OF assms(2)] by simp
  then show ?thesis using assms(1) by (auto simp: abort_closing_def split: option.splits intro!: sends_phase)
qed

lemma sends_ensure:
  assumes "sends_inv s" and "sends_ok k (Ensuring why) (ops_sent c s)"
  shows "sends_inv (ensure_turn c k why now s)"
proof (cases "mc_toolset s")
  case (Some n)
  with assms show ?thesis by (cases why) (auto simp: ensure_turn_def intro!: sends_got)
next
  case None
  with assms show ?thesis by (cases why) (auto simp: ensure_turn_def intro!: sends_none sends_phase)
qed

lemma sends_connect_ok:
  assumes "sends_inv s" and "sends_ok k (Connecting why n) (ops_sent c s)"
  shows "sends_inv (connect_ok c k why n s)"
  unfolding connect_ok_def by (rule sends_got) (use assms in simp_all)

lemma sends_connect_failed:
  assumes "sends_inv s" and "sends_ok k (Connecting why n) (ops_sent c s)"
  shows "sends_inv (connect_failed c k why now s)"
proof (cases "connect_backoff (mc_failures s + 1)")
  case (Some b)
  then show ?thesis using assms by (simp add: connect_failed_def Let_def sends_none)
next
  case None
  then show ?thesis using assms by (cases why) (auto simp: connect_failed_def Let_def intro!: sends_phase sends_leave)
qed

lemma sends_step: "mcp_step e s = Some t \<Longrightarrow> sends_inv s \<Longrightarrow> sends_inv t"
proof (cases e)
  case (Begin c k)
  moreover assume "mcp_step e s = Some t" "sends_inv s"
  ultimately show ?thesis by (auto simp: sends_inv_def[of s] split: if_splits intro!: sends_phase)
next
  case (Cancelled c)
  moreover assume st: "mcp_step e s = Some t" "sends_inv s"
  ultimately obtain k p where m: "map_of (mc_tasks s) c = Some (k, p)" and t: "t = abandon c k p s"
    by (auto simp: task_event_Some)
  have o: "sends_ok k p (ops_sent c s)" using st(2) m by (rule sends_inv_at)
  show ?thesis using st(2) o
    by (cases k) (auto simp: t abandon_def split: mcp_phase.splits ensuring.splits elim!: sends_ok.elims(2) intro!: sends_leave sends_phase sends_abort)
next
  case (LostTurn c)
  moreover assume st: "mcp_step e s = Some t" "sends_inv s"
  ultimately obtain k n where m: "map_of (mc_tasks s) c = Some (k, LostSession n)" and t: "t = lost_turn c k n s"
    by (auto simp: event_iff)
  have o: "sends_ok k (LostSession n) (ops_sent c s)" using st(2) m by (rule sends_inv_at)
  show ?thesis using st(2) o by (auto simp: t lost_turn_def intro!: sends_phase)
next
  case (EnsureTurn c now)
  moreover assume "mcp_step e s = Some t" "sends_inv s"
  ultimately show ?thesis by (auto simp: event_iff dest!: sends_inv_at[of s] intro!: sends_ensure)
next
  case (ConnectOk c)
  moreover assume "mcp_step e s = Some t" "sends_inv s"
  ultimately show ?thesis by (auto simp: event_iff dest: sends_inv_at[of s] intro!: sends_connect_ok)
next
  case (ConnectFailed c now)
  moreover assume "mcp_step e s = Some t" "sends_inv s"
  ultimately show ?thesis by (auto simp: event_iff dest: sends_inv_at[of s] intro!: sends_connect_failed)
next
  case (OpReturns c)
  moreover assume "mcp_step e s = Some t" "sends_inv s"
  ultimately show ?thesis
    by (auto simp: event_iff dest!: sends_inv_at[of s] intro!: sends_leave elim!: sends_ok.elims)
next
  case (OpRaises c x)
  moreover assume st: "mcp_step e s = Some t" "sends_inv s"
  ultimately show ?thesis
    by (auto simp: event_iff dest!: sends_inv_at[OF st(2)] intro!: sends_leave[OF st(2)] sends_phase[OF st(2)] elim!: sends_ok.elims)
next
  case (FailedClosed c)
  moreover assume "mcp_step e s = Some t" "sends_inv s"
  ultimately show ?thesis by (auto simp: event_iff dest!: sends_inv_at[of s] intro!: sends_phase)
next
  case (CloserDone w n)
  moreover assume "mcp_step e s = Some t" "sends_inv s"
  ultimately show ?thesis by (auto split: if_splits)
next
  case CloserStarts
  moreover assume "mcp_step e s = Some t" "sends_inv s"
  ultimately show ?thesis by (auto split: if_splits)
qed (auto simp: reconfigure_def stop_conn_def Let_def split: if_splits)


section \<open>Sessions in use\<close>

fun in_op :: "mcp_phase \<Rightarrow> bool" where
  "in_op (Running w n) = True"
| "in_op (LostSession n) = True"
| "in_op (ClosingFailed n) = True"
| "in_op (Ensuring (Lost n)) = True"
| "in_op (Connecting (Lost m) n) = True"
| "in_op p = False"

fun is_connecting :: "mcp_phase \<Rightarrow> bool" where
  "is_connecting (Connecting w n) = True"
| "is_connecting p = False"

abbreviation task_phase :: "nat \<times> request \<times> mcp_phase \<Rightarrow> mcp_phase" where
  "task_phase t \<equiv> snd (snd t)"

definition ended :: "mcp_conn \<Rightarrow> nat set" where
  "ended s = snd ` set (mc_closers s) \<union> set (mc_retired s) \<union> set (mc_aborted s)"

definition as_configured :: "mcp_conn \<Rightarrow> nat \<Rightarrow> bool" where
  "as_configured s n \<longleftrightarrow> mc_made s ! n = mc_config s \<or> n \<in> set (mc_raced s)"

definition usable :: "mcp_conn \<Rightarrow> nat \<Rightarrow> bool" where
  "usable s n \<longleftrightarrow> n < length (mc_made s) \<and> n \<notin> ended s \<and> n \<notin> set (mc_stale s) \<and> n \<notin> set (mc_stopping s) \<and>
     as_configured s n"

definition sessions_ok :: "mcp_conn \<Rightarrow> bool" where
  "sessions_ok s \<longleftrightarrow>
     pred_option (usable s) (mc_toolset s) \<and> distinct (mc_stale s) \<and> set (mc_stale s) \<inter> ended s = {} \<and>
     set (mc_stale s) \<union> ended s \<union> set (mc_stopping s) \<subseteq> {..<length (mc_made s)}"

fun phase_ok :: "mcp_conn \<Rightarrow> mcp_phase \<Rightarrow> bool" where
  "phase_ok s (Connecting w n) = (mc_locked s \<and> mc_toolset s = None \<and> usable s n)"
| "phase_ok s (Running w n) = (n < length (mc_made s) \<and> n \<notin> ended s)"
| "phase_ok s p = True"

text \<open>
  The invariant of the tasks ts, of which ops are counted: conn_inv is it for all tasks, conn_pre
  for the tasks but one, of which b says whether it is counted.
\<close>

definition conn_ok :: "(nat \<times> request \<times> mcp_phase) list \<Rightarrow> nat \<Rightarrow> mcp_conn \<Rightarrow> bool" where
  "conn_ok ts ops s \<longleftrightarrow>
     mc_inflight s = ops + length (filter (in_op \<circ> task_phase) ts) \<and> (\<forall>t \<in> set ts. phase_ok s (task_phase t)) \<and>
     length (filter (is_connecting \<circ> task_phase) ts) \<le> 1 \<and> sessions_ok s"

definition other_tasks :: "nat \<Rightarrow> mcp_conn \<Rightarrow> (nat \<times> request \<times> mcp_phase) list" where
  "other_tasks c s = filter (\<lambda>t. fst t \<noteq> c) (mc_tasks s)"

definition conn_inv :: "mcp_conn \<Rightarrow> bool" where
  "conn_inv s \<longleftrightarrow> distinct (map fst (mc_tasks s)) \<and> conn_ok (mc_tasks s) 0 s"

definition conn_pre :: "nat \<Rightarrow> bool \<Rightarrow> mcp_conn \<Rightarrow> bool" where
  "conn_pre c b s \<longleftrightarrow> distinct (map fst (mc_tasks s)) \<and> conn_ok (other_tasks c s) (of_bool b) s"

lemma filter_update:
  assumes "distinct (map fst al)"
  shows "length (filter P (AList.update c v al)) = length (filter P (filter (\<lambda>t. fst t \<noteq> c) al)) + of_bool (P (c, v))"
  using assms
proof (induction al)
  case (Cons t al)
  show ?case
  proof (cases "fst t = c")
    case True
    then have "filter (\<lambda>t. fst t \<noteq> c) al = al" using Cons.prems by (simp add: filter_id_conv) (metis image_eqI)
    with True show ?thesis by (cases t) auto
  next
    case False
    with Cons show ?thesis by (cases t) auto
  qed
qed simp

lemma set_update_other: "distinct (map fst al) \<Longrightarrow> set (AList.update c v al) = insert (c, v) (set (filter (\<lambda>t. fst t \<noteq> c) al))"
  by (simp add: set_update)

lemma conn_take:
  assumes "conn_inv s" and "map_of (mc_tasks s) c = Some (k, p)"
  shows "conn_pre c (in_op p) s" and "phase_ok s p"
    and "is_connecting p \<Longrightarrow> filter (is_connecting \<circ> task_phase) (other_tasks c s) = []"
proof -
  have d: "distinct (map fst (mc_tasks s))" using assms(1) by (simp add: conn_inv_def)
  have u: "AList.update c (k, p) (mc_tasks s) = mc_tasks s" using assms(2) by (rule update_triv)
  note n = filter_update[OF d, of _ c "(k, p)", unfolded u, folded other_tasks_def]
  have e: "t \<in> set (mc_tasks s) \<longleftrightarrow> t = (c, k, p) \<or> t \<in> set (other_tasks c s)" for t
    using set_update_other[OF d, of c "(k, p)", unfolded u, folded other_tasks_def] by blast
  show "phase_ok s p" using assms(1) e[of "(c, k, p)"] by (auto simp: conn_inv_def conn_ok_def)
  have t: "\<forall>t \<in> set (other_tasks c s). phase_ok s (task_phase t)" using assms(1) e by (auto simp: conn_inv_def conn_ok_def)
  show "conn_pre c (in_op p) s"
    using assms(1) n[of "in_op \<circ> task_phase"] n[of "is_connecting \<circ> task_phase"] d t by (simp add: conn_inv_def conn_pre_def conn_ok_def)
  show "filter (is_connecting \<circ> task_phase) (other_tasks c s) = []" if "is_connecting p"
    using assms(1) n[of "is_connecting \<circ> task_phase"] that by (simp add: conn_inv_def conn_ok_def)
qed

lemma conn_put:
  assumes "conn_pre c (in_op p) s" and "phase_ok s p"
    and "is_connecting p \<Longrightarrow> filter (is_connecting \<circ> task_phase) (other_tasks c s) = []"
  shows "conn_inv (put_phase c k p s)"
proof -
  have d: "distinct (map fst (mc_tasks s))" using assms(1) by (simp add: conn_pre_def)
  have us: "usable (put_phase c k p s) = usable s" "ended (put_phase c k p s) = ended s"
    by (auto simp: fun_eq_iff usable_def ended_def as_configured_def mcp_simps)
  have same: "phase_ok (put_phase c k p s) q = phase_ok s q" "sessions_ok (put_phase c k p s) = sessions_ok s" for q
    by (cases q; simp add: mcp_simps us) (simp add: sessions_ok_def mcp_simps us)
  show ?thesis
    unfolding conn_inv_def conn_ok_def
  proof (intro conjI ballI)
    fix t
    assume "t \<in> set (mc_tasks (put_phase c k p s))"
    then have "t = (c, k, p) \<or> t \<in> set (other_tasks c s)"
      unfolding mcp_simps set_update_other[OF d] other_tasks_def by simp
    then show "phase_ok (put_phase c k p s) (task_phase t)"
      using assms(1,2) by (auto simp: same conn_pre_def conn_ok_def)
  next
    show "length (filter (is_connecting \<circ> task_phase) (mc_tasks (put_phase c k p s))) \<le> 1"
      using assms(1,3) unfolding mcp_simps filter_update[OF d] other_tasks_def[symmetric]
      by (cases "is_connecting p") (simp_all add: conn_pre_def conn_ok_def)
  next
    show "mc_inflight (put_phase c k p s) = 0 + length (filter (in_op \<circ> task_phase) (mc_tasks (put_phase c k p s)))"
      using assms(1) unfolding mcp_simps filter_update[OF d] other_tasks_def[symmetric] by (simp add: conn_pre_def conn_ok_def)
  qed (use assms(1) d in \<open>simp_all add: mcp_simps distinct_update same conn_pre_def conn_ok_def\<close>)
qed


text \<open>Updates that leave the sessions and the tasks alone.\<close>

lemma usable_simps [simp]:
  "usable (s\<lparr>mc_sent := x_sent\<rparr>) = usable s"
  "usable (s\<lparr>mc_failures := x_failures\<rparr>) = usable s"
  "usable (s\<lparr>mc_retry_at := x_retry_at\<rparr>) = usable s"
  "usable (s\<lparr>mc_inflight := x_inflight\<rparr>) = usable s"
  "usable (s\<lparr>mc_scheduled := x_scheduled\<rparr>) = usable s"
  "usable (s\<lparr>mc_locked := l\<rparr>) = usable s" "usable (s\<lparr>mc_toolset := u\<rparr>) = usable s"
  by (auto simp: fun_eq_iff usable_def ended_def as_configured_def)

lemma ended_simps [simp]:
  "ended (s\<lparr>mc_sent := x_sent\<rparr>) = ended s"
  "ended (s\<lparr>mc_failures := x_failures\<rparr>) = ended s"
  "ended (s\<lparr>mc_retry_at := x_retry_at\<rparr>) = ended s"
  "ended (s\<lparr>mc_inflight := x_inflight\<rparr>) = ended s"
  "ended (s\<lparr>mc_scheduled := x_scheduled\<rparr>) = ended s"
  "ended (s\<lparr>mc_stopping := x_stopping\<rparr>) = ended s"
  "ended (s\<lparr>mc_locked := l\<rparr>) = ended s" "ended (s\<lparr>mc_toolset := u\<rparr>) = ended s" "ended (s\<lparr>mc_made := m\<rparr>) = ended s"
  by (auto simp: ended_def)

lemma phase_ok_simps [simp]:
  "phase_ok (s\<lparr>mc_sent := x_sent\<rparr>) p = phase_ok s p"
  "phase_ok (s\<lparr>mc_failures := x_failures\<rparr>) p = phase_ok s p"
  "phase_ok (s\<lparr>mc_retry_at := x_retry_at\<rparr>) p = phase_ok s p"
  "phase_ok (s\<lparr>mc_inflight := x_inflight\<rparr>) p = phase_ok s p"
  "phase_ok (s\<lparr>mc_scheduled := x_scheduled\<rparr>) p = phase_ok s p"
  by (cases p; simp)+

lemma sessions_ok_simps [simp]:
  "sessions_ok (s\<lparr>mc_sent := x_sent\<rparr>) = sessions_ok s"
  "sessions_ok (s\<lparr>mc_failures := x_failures\<rparr>) = sessions_ok s"
  "sessions_ok (s\<lparr>mc_retry_at := x_retry_at\<rparr>) = sessions_ok s"
  "sessions_ok (s\<lparr>mc_inflight := x_inflight\<rparr>) = sessions_ok s"
  "sessions_ok (s\<lparr>mc_scheduled := x_scheduled\<rparr>) = sessions_ok s"
  "sessions_ok (s\<lparr>mc_locked := l\<rparr>) = sessions_ok s"
  by (simp_all add: sessions_ok_def)

lemma other_tasks_simps [simp]:
  "other_tasks c (s\<lparr>mc_sent := x_sent\<rparr>) = other_tasks c s"
  "other_tasks c (s\<lparr>mc_failures := x_failures\<rparr>) = other_tasks c s"
  "other_tasks c (s\<lparr>mc_retry_at := x_retry_at\<rparr>) = other_tasks c s"
  "other_tasks c (s\<lparr>mc_inflight := x_inflight\<rparr>) = other_tasks c s"
  "other_tasks c (s\<lparr>mc_scheduled := x_scheduled\<rparr>) = other_tasks c s"
  "other_tasks c (s\<lparr>mc_stopping := x_stopping\<rparr>) = other_tasks c s"
  "other_tasks c (s\<lparr>mc_locked := l\<rparr>) = other_tasks c s" "other_tasks c (s\<lparr>mc_toolset := u\<rparr>) = other_tasks c s"
  "other_tasks c (s\<lparr>mc_made := m\<rparr>) = other_tasks c s"
  by (simp_all add: other_tasks_def)

lemma conn_pre_simps [simp]:
  "conn_pre c b (s\<lparr>mc_sent := x_sent\<rparr>) = conn_pre c b s"
  "conn_pre c b (s\<lparr>mc_failures := x_failures\<rparr>) = conn_pre c b s"
  "conn_pre c b (s\<lparr>mc_retry_at := x_retry_at\<rparr>) = conn_pre c b s"
  "conn_pre c b (s\<lparr>mc_inflight := i\<rparr>) \<longleftrightarrow> distinct (map fst (mc_tasks s)) \<and> conn_ok (other_tasks c s) (of_bool b) (s\<lparr>mc_inflight := i\<rparr>)"
  "conn_pre c b (s\<lparr>mc_scheduled := x_scheduled\<rparr>) = conn_pre c b s"
  by (simp_all add: conn_pre_def conn_ok_def)

lemma conn_close_turn: "conn_inv s \<Longrightarrow> conn_inv (close_turn w s)"
proof (cases "mc_stale s \<noteq> [] \<and> mc_inflight s = 0")
  case True
  assume i: "conn_inv s"
  let ?t = "close_turn w s"
  obtain ys x where b: "mc_stale s = ys @ [x]" using True by (cases "mc_stale s" rule: rev_cases) auto
  have ok: "sessions_ok s" "\<forall>t \<in> set (mc_tasks s). phase_ok s (task_phase t)" using i by (auto simp: conn_inv_def conn_ok_def)
  have e: "ended ?t = insert x (ended s)" "mc_stale ?t = ys" using True b by (auto simp: ended_def close_turn_def)
  have x: "x \<notin> set ys" "distinct ys" "x < length (mc_made s)" "set ys \<subseteq> {..<length (mc_made s)}" "ended s \<subseteq> {..<length (mc_made s)}"
    "set (mc_stopping s) \<subseteq> {..<length (mc_made s)}"
    "set ys \<inter> ended s = {}"
    using ok(1) b by (auto simp: sessions_ok_def)
  have u: "usable s n \<Longrightarrow> usable ?t n" for n using x b by (auto simp: e usable_def mcp_simps as_configured_def)
  have "phase_ok ?t (task_phase t)" if "t \<in> set (mc_tasks s)" for t
  proof -
    have "\<not> in_op (task_phase t)" using True i that by (auto simp: conn_inv_def conn_ok_def filter_empty_conv)
    then show ?thesis using ok(2) that u by (cases "task_phase t") (force simp: mcp_simps)+
  qed
  moreover have "sessions_ok ?t"
    using x u ok(1) by (auto simp: sessions_ok_def e mcp_simps pred_option_def)
  ultimately show ?thesis using i by (simp add: conn_inv_def conn_ok_def mcp_simps)
qed (auto simp: close_turn_def)

lemma conn_leave: "conn_pre c True s \<Longrightarrow> conn_inv (leave c k r s)"
  unfolding leave_def by (intro conn_close_turn conn_put) (auto simp: conn_pre_def conn_ok_def)


lemma conn_send:
  assumes "conn_pre c True s" and "usable s n"
  shows "conn_inv (send_op c k why n s)"
  unfolding send_op_def by (rule conn_put) (use assms in \<open>auto simp: usable_def\<close>)

lemma conn_got:
  assumes "conn_pre c (why \<noteq> First) s" and "usable s n"
  shows "conn_inv (got_session c k why n s)"
proof (cases why)
  case First
  have "conn_pre c True (s\<lparr>mc_inflight := mc_inflight s + 1\<rparr>)" using assms(1) First by (simp add: conn_pre_def conn_ok_def)
  then show ?thesis using assms First by (auto simp: got_session_def intro!: conn_put conn_send)
next
  case (Lost m)
  then show ?thesis using assms by (auto simp: got_session_def intro: conn_send conn_leave)
qed

lemma conn_none: "conn_pre c (why \<noteq> First) s \<Longrightarrow> conn_inv (no_session c k why s)"
  by (cases why) (auto simp: no_session_def intro!: conn_put conn_leave)

lemma no_connecting:
  assumes "conn_pre c b s" and "\<not> mc_locked s"
  shows "filter (is_connecting \<circ> task_phase) (other_tasks c s) = []"
proof -
  have "\<not> is_connecting (task_phase t)" if "t \<in> set (other_tasks c s)" for t
    using assms that by (cases "task_phase t") (force simp: conn_pre_def conn_ok_def)+
  then show ?thesis by (auto simp: filter_empty_conv)
qed

lemma phase_ok_quiet:
  assumes "conn_pre c b s" and "filter (is_connecting \<circ> task_phase) (other_tasks c s) = []" and "t \<in> set (other_tasks c s)"
    and "\<And>n. n < length (mc_made s) \<Longrightarrow> n \<notin> ended s \<Longrightarrow> n < length (mc_made u) \<and> n \<notin> ended u"
  shows "phase_ok u (task_phase t)"
proof -
  have "\<not> is_connecting (task_phase t)" using assms(2,3) by (auto simp: filter_empty_conv)
  moreover have "phase_ok s (task_phase t)" using assms(1,3) by (auto simp: conn_pre_def conn_ok_def)
  ultimately show ?thesis using assms(4) by (cases "task_phase t") auto
qed

lemma conn_ensure:
  assumes "conn_pre c (why \<noteq> First) s" and "\<not> mc_locked s"
  shows "conn_inv (ensure_turn c k why now s)"
proof (cases "mc_toolset s")
  case (Some n)
  then have "usable s n" using assms(1) by (simp add: conn_pre_def conn_ok_def sessions_ok_def)
  with Some assms show ?thesis by (simp add: ensure_turn_def conn_got)
next
  case None
  let ?u = "s\<lparr>mc_made := mc_made s @ [mc_config s], mc_locked := True\<rparr>"
  have q: "filter (is_connecting \<circ> task_phase) (other_tasks c s) = []" using assms by (rule no_connecting)
  have ok: "sessions_ok s" using assms(1) by (simp add: conn_pre_def conn_ok_def)
  have "conn_pre c (why \<noteq> First) ?u"
    using assms(1) None ok phase_ok_quiet[OF assms(1) q, of _ ?u] by (auto simp: conn_pre_def conn_ok_def sessions_ok_def)
  moreover have "usable ?u (length (mc_made s))"
    using ok by (auto simp: usable_def sessions_ok_def as_configured_def)
  ultimately have "conn_inv (put_phase c k (Connecting why (length (mc_made s))) ?u)"
    using q None by (intro conn_put) (cases why; simp)+
  then show ?thesis using assms None by (auto simp: ensure_turn_def conn_none)
qed

lemma conn_connected:
  assumes "conn_pre c (why \<noteq> First) s" and "phase_ok s (Connecting why n)"
    and "filter (is_connecting \<circ> task_phase) (other_tasks c s) = []"
  shows "conn_inv (connect_ok c k why n s)"
  unfolding connect_ok_def
proof (rule conn_got)
  let ?u = "s\<lparr>mc_failures := 0, mc_retry_at := 0, mc_toolset := Some n, mc_locked := False\<rparr>"
  show "conn_pre c (why \<noteq> First) ?u"
    using assms phase_ok_quiet[OF assms(1,3), of _ ?u] by (auto simp: conn_pre_def conn_ok_def sessions_ok_def)
  show "usable ?u n" using assms(2) by simp
qed

lemma conn_unlock:
  assumes "conn_pre c b s" and "filter (is_connecting \<circ> task_phase) (other_tasks c s) = []"
  shows "conn_pre c b (s\<lparr>mc_locked := False\<rparr>)"
  using assms phase_ok_quiet[OF assms, of _ "s\<lparr>mc_locked := False\<rparr>"] by (auto simp: conn_pre_def conn_ok_def)

lemma conn_not_connected:
  assumes "conn_pre c (why \<noteq> First) s" and "filter (is_connecting \<circ> task_phase) (other_tasks c s) = []"
  shows "conn_inv (connect_failed c k why now s)"
proof -
  have u: "conn_pre c (why \<noteq> First) (s\<lparr>mc_failures := f, mc_locked := False, mc_retry_at := r\<rparr>)"
    "conn_pre c (why \<noteq> First) (s\<lparr>mc_failures := f, mc_locked := False\<rparr>)" for f r
    using conn_unlock[of c "why \<noteq> First" "s\<lparr>mc_failures := f\<rparr>"] assms by simp_all
  show ?thesis
    by (cases "connect_backoff (mc_failures s + 1)"; cases why)
       (use u in \<open>auto simp: connect_failed_def Let_def intro!: conn_none conn_leave conn_put\<close>)
qed


lemma conn_reconfigure: "conn_inv s \<Longrightarrow> conn_inv (reconfigure loop cfg s)"
proof -
  assume i: "conn_inv s"
  let ?t = "reconfigure loop cfg s"
  have ok: "sessions_ok s" and ts: "\<And>t. t \<in> set (mc_tasks s) \<Longrightarrow> phase_ok s (task_phase t)"
    using i by (auto simp: conn_inv_def conn_ok_def)
  have e: "ended ?t = ended s" "mc_made ?t = mc_made s" "mc_toolset ?t = None" "mc_locked ?t = mc_locked s" "mc_tasks ?t = mc_tasks s"
      "mc_inflight ?t = mc_inflight s" "mc_stopping ?t = mc_stopping s" "mc_raced ?t = connecting_sessions s @ mc_raced s" "mc_config ?t = cfg"
      "mc_stale ?t = mc_stale s @ (case mc_toolset s of Some n \<Rightarrow> [n] | None \<Rightarrow> [])"
    by (auto simp: reconfigure_def Let_def ended_def)
  have "phase_ok ?t (task_phase t)" if t: "t \<in> set (mc_tasks s)" for t
  proof (cases "task_phase t")
    case (Connecting w n)
    then have "n \<in> set (connecting_sessions s)"
      using t by (cases t) (force simp: connecting_sessions_def map_filter_def split: option.splits mcp_phase.splits)
    then show ?thesis using ts[OF t] Connecting by (auto simp: e usable_def as_configured_def)
  qed (use ts[OF t] in \<open>auto simp: e\<close>)
  moreover have "sessions_ok ?t"
    using ok by (cases "mc_toolset s") (auto simp: sessions_ok_def e usable_def)
  ultimately show ?thesis using i by (auto simp: conn_inv_def conn_ok_def e)
qed

lemma conn_locked_out:
  assumes "conn_inv s" and "\<not> mc_locked s" and "t \<in> set (mc_tasks s)"
    and "\<And>n. n < length (mc_made s) \<Longrightarrow> n \<notin> ended s \<Longrightarrow> n < length (mc_made u) \<and> n \<notin> ended u"
  shows "phase_ok u (task_phase t)"
proof -
  have "phase_ok s (task_phase t)" using assms(1,3) by (auto simp: conn_inv_def conn_ok_def)
  then show ?thesis using assms(2,4) by (cases "task_phase t") auto
qed

lemma conn_stop: "conn_inv s \<Longrightarrow> \<not> mc_locked s \<Longrightarrow> conn_inv (stop_conn s)"
  using conn_locked_out[of s _ "stop_conn s"]
  by (cases "mc_toolset s") (auto simp: conn_inv_def conn_ok_def sessions_ok_def stop_conn_def ended_def usable_def)

text \<open>A closing that is over, or was cancelled.\<close>

lemma conn_closer:
  assumes "conn_inv s" and "mc_tasks u = mc_tasks s" "mc_inflight u = mc_inflight s" "mc_locked u = mc_locked s"
    "mc_toolset u = mc_toolset s" "mc_made u = mc_made s" "mc_config u = mc_config s" "mc_raced u = mc_raced s"
    "mc_stale u = mc_stale s" "mc_stopping u = mc_stopping s" "ended u = ended s"
  shows "conn_inv u"
proof -
  have us: "usable u = usable s" by (simp add: fun_eq_iff usable_def assms as_configured_def)
  have "phase_ok u p = phase_ok s p" for p by (cases p) (simp_all add: assms us)
  moreover have "sessions_ok u = sessions_ok s" by (simp add: sessions_ok_def assms us)
  ultimately show ?thesis using assms(1) by (simp add: conn_inv_def conn_ok_def assms)
qed

lemma ended_closer:
  assumes "(w, n) \<in> set (mc_closers s)"
  shows "ended (s\<lparr>mc_closers := remove1 (w, n) (mc_closers s), mc_retired := n # mc_retired s\<rparr>) = ended s"
    "ended (s\<lparr>mc_closers := remove1 (w, n) (mc_closers s), mc_aborted := n # mc_aborted s\<rparr>) = ended s"
proof -
  have "insert (w, n) (set (remove1 (w, n) (mc_closers s))) = set (mc_closers s)"
  proof (rule set_eqI)
    show "x \<in> insert (w, n) (set (remove1 (w, n) (mc_closers s))) \<longleftrightarrow> x \<in> set (mc_closers s)" for x
      using assms by (cases "x = (w, n)") simp_all
  qed
  then have "insert n (snd ` set (remove1 (w, n) (mc_closers s))) = snd ` set (mc_closers s)"
    by (metis image_insert snd_conv)
  then show "ended (s\<lparr>mc_closers := remove1 (w, n) (mc_closers s), mc_retired := n # mc_retired s\<rparr>) = ended s"
    "ended (s\<lparr>mc_closers := remove1 (w, n) (mc_closers s), mc_aborted := n # mc_aborted s\<rparr>) = ended s"
    by (auto simp: ended_def)
qed

lemma conn_retire:
  assumes "conn_inv s" and "(w, n) \<in> set (mc_closers s)"
  shows "conn_inv (s\<lparr>mc_closers := remove1 (w, n) (mc_closers s), mc_retired := n # mc_retired s\<rparr>)"
  by (rule conn_closer[OF assms(1)]) (use ended_closer(1)[OF assms(2)] in simp_all)

lemma conn_abort:
  assumes "conn_inv s" and "map_of (mc_tasks s) c = Some (k, Finished r)"
  shows "conn_inv (abort_closing c k s)"
proof (cases "map_of (mc_closers s) (Some c)")
  case (Some n)
  let ?u = "s\<lparr>mc_closers := remove1 (Some c, n) (mc_closers s), mc_aborted := n # mc_aborted s\<rparr>"
  have "conn_inv ?u"
    by (rule conn_closer[OF assms(1)]) (use ended_closer(2)[OF map_of_SomeD[OF Some]] in simp_all)
  then have "conn_inv (put_phase c k (Finished Abandoned) ?u)"
    using conn_take(1)[of ?u c k "Finished r"] assms(2) by (intro conn_put) simp_all
  with Some show ?thesis by (simp add: abort_closing_def)
qed (simp add: abort_closing_def assms)

lemma conn_lost_turn:
  assumes "conn_inv s" and "map_of (mc_tasks s) c = Some (k, LostSession n)" and "\<not> mc_locked s"
  shows "conn_inv (lost_turn c k n s)"
proof -
  have p: "conn_pre c True s" using conn_take(1)[OF assms(1,2)] by simp
  have q: "filter (is_connecting \<circ> task_phase) (other_tasks c s) = []" using p assms(3) by (rule no_connecting)
  have "conn_pre c True (s\<lparr>mc_toolset := None\<rparr>)"
    using p phase_ok_quiet[OF p q, of _ "s\<lparr>mc_toolset := None\<rparr>"] by (auto simp: conn_pre_def conn_ok_def sessions_ok_def)
  then show ?thesis using p by (auto simp: lost_turn_def intro!: conn_put)
qed

lemma conn_abandon:
  assumes "conn_inv s" and "map_of (mc_tasks s) c = Some (k, p)"
  shows "conn_inv (abandon c k p s)"
proof -
  note t = conn_take[OF assms]
  show ?thesis
  proof (cases p)
    case (Connecting w n)
    then have "conn_pre c (in_op p) (s\<lparr>mc_locked := False\<rparr>)" using t by (intro conn_unlock) auto
    then show ?thesis using Connecting by (cases w) (auto simp: abandon_def intro!: conn_leave conn_put)
  next
    case (Ensuring w)
    then show ?thesis using t(1) by (cases w) (auto simp: abandon_def intro!: conn_leave conn_put)
  next
    case (Finished r)
    then show ?thesis using assms by (simp add: abandon_def conn_abort)
  qed (use t(1) assms(1) in \<open>auto simp: abandon_def intro: conn_leave\<close>)
qed

lemma conn_begin:
  assumes "conn_inv s" and "map_of (mc_tasks s) c = None"
  shows "conn_inv (put_phase c k (Ensuring First) s)"
proof (rule conn_put)
  have "filter (\<lambda>t. fst t \<noteq> c) (mc_tasks s) = mc_tasks s" using assms(2) by (force simp: filter_id_conv map_of_eq_None_iff)
  then show "conn_pre c (in_op (Ensuring First)) s" using assms(1) by (simp add: conn_inv_def conn_pre_def other_tasks_def)
qed auto


lemma conn_inv_scheduled [simp]: "conn_inv (s\<lparr>mc_scheduled := n\<rparr>) = conn_inv s"
  by (simp add: conn_inv_def conn_ok_def)

lemma conn_step: "mcp_step e s = Some t \<Longrightarrow> conn_inv s \<Longrightarrow> conn_inv t"
proof (cases e)
  case (Begin c k)
  moreover assume "mcp_step e s = Some t" "conn_inv s"
  ultimately show ?thesis by (auto intro: conn_begin split: if_splits)
next
  case (EnsureTurn c now)
  moreover assume i: "mcp_step e s = Some t" "conn_inv s"
  ultimately obtain k w where m: "map_of (mc_tasks s) c = Some (k, Ensuring w)" "\<not> mc_locked s" "t = ensure_turn c k w now s"
    by (auto simp: event_iff)
  then show ?thesis using conn_take(1)[OF i(2) m(1)] by (cases w) (auto intro: conn_ensure)
next
  case (ConnectOk c)
  moreover assume i: "mcp_step e s = Some t" "conn_inv s"
  ultimately obtain k w n where m: "map_of (mc_tasks s) c = Some (k, Connecting w n)" "t = connect_ok c k w n s"
    by (auto simp: event_iff)
  then show ?thesis using conn_take[OF i(2) m(1)] by (cases w) (auto intro!: conn_connected)
next
  case (ConnectFailed c now)
  moreover assume i: "mcp_step e s = Some t" "conn_inv s"
  ultimately obtain k w n where m: "map_of (mc_tasks s) c = Some (k, Connecting w n)" "t = connect_failed c k w now s"
    by (auto simp: event_iff)
  then show ?thesis using conn_take[OF i(2) m(1)] by (cases w) (auto intro!: conn_not_connected)
next
  case (OpReturns c)
  moreover assume i: "mcp_step e s = Some t" "conn_inv s"
  ultimately show ?thesis by (auto simp: event_iff dest!: conn_take(1)[OF i(2)] intro: conn_leave)
next
  case (OpRaises c x)
  moreover assume i: "mcp_step e s = Some t" "conn_inv s"
  ultimately show ?thesis by (auto simp: event_iff dest!: conn_take(1)[OF i(2)] intro!: conn_leave conn_put)
next
  case (LostTurn c)
  moreover assume "mcp_step e s = Some t" "conn_inv s"
  ultimately show ?thesis by (auto simp: event_iff intro: conn_lost_turn)
next
  case (FailedClosed c)
  moreover assume i: "mcp_step e s = Some t" "conn_inv s"
  ultimately show ?thesis by (auto simp: event_iff dest!: conn_take(1)[OF i(2)] intro!: conn_put)
next
  case (Cancelled c)
  moreover assume "mcp_step e s = Some t" "conn_inv s"
  ultimately show ?thesis by (auto simp: event_iff intro: conn_abandon)
next
  case CloserStarts
  moreover assume i: "mcp_step e s = Some t" "conn_inv s"
  ultimately show ?thesis by (auto intro!: conn_close_turn split: if_splits)
next
  case (CloserDone w n)
  moreover assume "mcp_step e s = Some t" "conn_inv s"
  ultimately show ?thesis by (auto intro!: conn_close_turn conn_retire split: if_splits)
qed (auto intro: conn_reconfigure conn_stop split: if_splits)

lemma reachable_conn: "mcp_run es (fresh_conn cfg) = Some s \<Longrightarrow> conn_inv s"
  by (rule mcp_run_invariant[of es conn_inv, OF conn_step])
     (simp_all add: fresh_conn_def conn_inv_def conn_ok_def sessions_ok_def ended_def)

text \<open>
  A superseded session waits for a closer only while an operation is in flight, or once a closing
  was cancelled.
\<close>

definition closing_progress :: "mcp_conn \<Rightarrow> bool" where
  "closing_progress s \<longleftrightarrow> mc_stale s = [] \<or> mc_inflight s > 0 \<or> mc_scheduled s > 0 \<or> mc_closers s \<noteq> [] \<or> mc_aborted s \<noteq> []"

lemma progress_close_turn: "closing_progress (close_turn w s)"
  by (auto simp: closing_progress_def close_turn_def)

lemma progress_leave: "closing_progress (leave c k r s)"
  by (simp add: leave_def progress_close_turn)

lemma progress_phase [simp]: "closing_progress (put_phase c k p s) = closing_progress s"
  by (simp add: closing_progress_def mcp_simps)

lemma progress_send [simp]: "closing_progress (send_op c k w n s) = closing_progress s"
  by (simp add: send_op_def) (simp add: closing_progress_def)

lemma progress_got: "closing_progress s \<Longrightarrow> closing_progress (got_session c k w n s)"
  by (cases w) (auto simp: got_session_def progress_leave closing_progress_def[of "s\<lparr>mc_inflight := i\<rparr>" for i])

lemma progress_none: "closing_progress s \<Longrightarrow> closing_progress (no_session c k w s)"
  by (cases w) (auto simp: no_session_def progress_leave)

lemma progress_same:
  assumes "closing_progress s"
  shows "closing_progress (s\<lparr>mc_made := m, mc_locked := l\<rparr>)"
    "closing_progress (s\<lparr>mc_failures := f, mc_retry_at := r, mc_toolset := u, mc_locked := l\<rparr>)"
    "closing_progress (s\<lparr>mc_failures := f, mc_locked := l\<rparr>)" "closing_progress (s\<lparr>mc_failures := f, mc_locked := l, mc_retry_at := r\<rparr>)"
    "closing_progress (s\<lparr>mc_toolset := u\<rparr>)" "closing_progress (s\<lparr>mc_locked := l\<rparr>)"
  using assms by (auto simp: closing_progress_def)

lemma progress_abandon: "closing_progress s \<Longrightarrow> closing_progress (abandon c k p s)"
  by (cases p) (auto simp: abandon_def abort_closing_def progress_leave progress_same split: ensuring.splits option.splits,
    simp add: closing_progress_def)

lemma progress_ensure: "closing_progress s \<Longrightarrow> closing_progress (ensure_turn c k w now s)"
  by (auto simp: ensure_turn_def progress_got progress_none progress_same split: option.splits)

lemma progress_failed: "closing_progress s \<Longrightarrow> closing_progress (connect_failed c k w now s)"
  by (auto simp: connect_failed_def Let_def progress_leave progress_same progress_none split: option.splits ensuring.splits)

lemma progress_step:
  assumes "mcp_step e s = Some t" and "closing_progress s" and "\<forall>cfg. e \<noteq> Reconfigure False cfg"
  shows "closing_progress t"
  by (cases e) (use assms in \<open>auto simp: event_iff connect_ok_def progress_leave lost_turn_def progress_close_turn progress_got progress_same
      progress_abandon progress_ensure progress_failed split: if_splits, auto simp: reconfigure_def stop_conn_def Let_def closing_progress_def\<close>)


section \<open>Properties\<close>

lemma reachable_sends: "mcp_run es (fresh_conn cfg) = Some s \<Longrightarrow> sends_inv s"
  by (rule mcp_run_invariant[of es sends_inv, OF sends_step]) (simp_all add: fresh_conn_def sends_inv_def ops_sent_def)

lemma reachable_progress:
  "mcp_run es (fresh_conn cfg) = Some s \<Longrightarrow> \<forall>c. Reconfigure False c \<notin> set es \<Longrightarrow> closing_progress s"
  by (rule mcp_run_invariant[of es closing_progress, OF progress_step]) (auto simp: fresh_conn_def closing_progress_def)

lemma stopping_simps [simp]:
  "mc_stopping (leave c k r s) = mc_stopping s"
  "mc_stopping (send_op c k w n s) = mc_stopping s"
  "mc_stopping (lost_turn c k n s) = mc_stopping s"
  "mc_stopping (abort_closing c k s) = mc_stopping s"
  by (auto simp: leave_def send_op_def lost_turn_def abort_closing_def mcp_simps split: option.splits)

lemma stopping_session [simp]:
  "mc_stopping (got_session c k w n s) = mc_stopping s"
  "mc_stopping (no_session c k w s) = mc_stopping s"
  by (cases w; simp add: got_session_def no_session_def mcp_simps)+

lemma stopping_turns [simp]:
  "mc_stopping (ensure_turn c k w now s) = mc_stopping s"
  "mc_stopping (connect_ok c k w n s) = mc_stopping s"
  "mc_stopping (connect_failed c k w now s) = mc_stopping s"
  "mc_stopping (abandon c k p s) = mc_stopping s"
  "mc_stopping (reconfigure loop cfg s) = mc_stopping s"
proof -
  show "mc_stopping (ensure_turn c k w now s) = mc_stopping s" by (simp add: ensure_turn_def mcp_simps split: option.split)
  show "mc_stopping (connect_ok c k w n s) = mc_stopping s" by (simp add: connect_ok_def)
  show "mc_stopping (connect_failed c k w now s) = mc_stopping s"
    by (simp add: connect_failed_def Let_def mcp_simps split: option.split ensuring.split)
  show "mc_stopping (abandon c k p s) = mc_stopping s"
    by (cases p) (auto simp: abandon_def mcp_simps split: ensuring.split)
  show "mc_stopping (reconfigure loop cfg s) = mc_stopping s" by (simp add: reconfigure_def Let_def)
qed

lemma stopping_step: "mcp_step e s = Some t \<Longrightarrow> e = StopConn \<or> mc_stopping t = mc_stopping s"
  by (cases e) (auto simp: event_iff mcp_simps split: if_splits)

lemma reachable_stopping: "mcp_run es (fresh_conn cfg) = Some s \<Longrightarrow> StopConn \<notin> set es \<Longrightarrow> mc_stopping s = []"
  by (rule mcp_run_invariant[of es "\<lambda>s. mc_stopping s = []"]) (auto simp: fresh_conn_def dest!: stopping_step)

text \<open>Between two attempts pass five seconds at least and five minutes at most, until the factor overflows.\<close>

lemma backoff_bounds: "1 \<le> f \<Longrightarrow> f \<le> 1024 \<Longrightarrow> \<exists>b. connect_backoff f = Some b \<and> seconds 5 \<le> b \<and> b \<le> seconds 300"
  by (auto simp: connect_backoff_def connect_backoff_base_def connect_backoff_max_def)

lemma backoff_overflows: "f > 1024 \<Longrightarrow> connect_backoff f = None"
  by (simp add: connect_backoff_def)

lemma backoff_window:
  assumes "mc_toolset s = None" and "now < mc_retry_at s"
  shows "mc_made (ensure_turn c k First now s) = mc_made s"
  using assms by (simp add: ensure_turn_def no_session_def mcp_simps)

text \<open>A reconfiguration that arrives while a session is connecting does not stop that session.\<close>

lemma reconfigure_lost_while_connecting:
  assumes "conn_inv s" and "map_of (mc_tasks s) c = Some (StartReq, Connecting First n)"
    and "mcp_run [Reconfigure loop cfg, ConnectOk c] s = Some t"
  shows "mc_toolset t = Some n \<and> mc_made t ! n = mc_made s ! n \<and> mc_config t = cfg"
proof -
  have "mc_tasks (reconfigure loop cfg s) = mc_tasks s" "mc_made (reconfigure loop cfg s) = mc_made s"
    "mc_config (reconfigure loop cfg s) = cfg"
    by (simp_all add: reconfigure_def Let_def)
  then show ?thesis using assms(2,3) by (auto simp: task_event_def connect_ok_def got_session_def mcp_simps)
qed

text \<open>
  C20: whatever the server, the other requests, the configuration and the scheduler do, a tool
  call is sent to a server at most once, and a listing at most twice.  The errors tell the
  truth: a call that was told its outcome is unknown was sent exactly once, a request that was
  told the server is unavailable was never sent, and no request of a start sends anything.
\<close>

theorem mcp_call_sent_once:
  assumes "mcp_run es (fresh_conn cfg) = Some s" and "map_of (mc_tasks s) c = Some (k, p)"
  shows "ops_sent c s \<le> (case k of StartReq \<Rightarrow> 0 | CallReq \<Rightarrow> 1 | ListReq \<Rightarrow> 2) \<and>
    (p = Finished OutcomeUnknown \<longrightarrow> k = CallReq \<and> ops_sent c s = 1) \<and>
    (p = Finished Unavailable \<longrightarrow> ops_sent c s = 0)"
proof -
  have ok: "sends_ok k p (ops_sent c s)" using reachable_sends[OF assms(1)] assms(2) by (rule sends_inv_at)
  then show ?thesis using sends_limit[OF ok] by auto
qed

definition demo_mcp_entry :: mcp_entry where
  "demo_mcp_entry =
     \<lparr>me_id = ''wiki'', me_transport = Sse, me_url = ''http://localhost'', me_command = [], me_args = [], me_env = [], me_headers = [],
      me_enabled = True, me_include = None, me_exclude = Some [''drop''], me_confirm = [''edit''], me_instructions = True, me_call = None\<rparr>"

definition demo_conn_config :: conn_config where
  "demo_conn_config = \<lparr>cc_entry = demo_mcp_entry, cc_connect = 10, cc_call = 30\<rparr>"

definition demo_broken :: py_exc where
  "demo_broken = Exc [(''builtins'', ''ConnectionError'')] [] None"

definition demo_lost_call :: "mcp_event list" where
  "demo_lost_call = [Begin 1 CallReq, EnsureTurn 1 0, ConnectOk 1, OpRaises 1 demo_broken, LostTurn 1, FailedClosed 1, EnsureTurn 1 5, ConnectOk 1]"

lemma mcp_call_sent_once_witness:
  "ops_sent 1 (the (mcp_run demo_lost_call (fresh_conn demo_conn_config))) \<le> 1"
proof -
  have "\<exists>s. mcp_run demo_lost_call (fresh_conn demo_conn_config) = Some s \<and> map_of (mc_tasks s) 1 = Some (CallReq, Finished OutcomeUnknown)"
    by (simp add: demo_lost_call_def task_event_def fresh_conn_def mcp_defs put_phase_def close_turn_def demo_broken_def
        is_connection_error_def)
  then obtain s where s: "mcp_run demo_lost_call (fresh_conn demo_conn_config) = Some s" "map_of (mc_tasks s) 1 = Some (CallReq, Finished OutcomeUnknown)"
    by blast
  show ?thesis using mcp_call_sent_once[OF s] s(1) by simp
qed

text \<open>
  C21: in every state of a connection the counter counts the requests in the middle of an
  operation; no session that a reconfiguration superseded is being closed, was closed or was
  half closed by _close_stale under a running operation, and unless stop was called, stop took
  none either.  While no operation runs each superseded session has somebody who closes it,
  unless a reconfiguration came without an event loop or the closing of a session was
  cancelled with the request that awaited it (then they wait for the end of the next
  operation, or for stop).  The live session is none of the sessions superseded, closed or
  taken by stop, and was made with the present configuration, unless it was just being
  connected when the configuration changed.  A session found dead is closed by the request
  that lost it, whoever else uses it; of that nothing is stated.
\<close>

theorem mcp_sessions_consistent:
  assumes "mcp_run es (fresh_conn cfg) = Some s"
  shows "mc_inflight s = length (filter (in_op \<circ> task_phase) (mc_tasks s)) \<and>
    (\<forall>c k w n. map_of (mc_tasks s) c = Some (k, Running w n) \<longrightarrow>
       n \<notin> snd ` set (mc_closers s) \<union> set (mc_retired s) \<union> set (mc_aborted s) \<and>
       (n \<in> set (mc_stopping s) \<longrightarrow> StopConn \<in> set es)) \<and>
    (mc_inflight s = 0 \<and> mc_stale s \<noteq> [] \<and> mc_scheduled s = 0 \<and> mc_closers s = [] \<longrightarrow>
       mc_aborted s \<noteq> [] \<or> (\<exists>c. Reconfigure False c \<in> set es)) \<and>
    (\<forall>n. mc_toolset s = Some n \<longrightarrow>
       n \<notin> set (mc_stale s) \<union> snd ` set (mc_closers s) \<union> set (mc_retired s) \<union> set (mc_aborted s) \<union> set (mc_stopping s) \<and>
       (mc_made s ! n = mc_config s \<or> n \<in> set (mc_raced s)))"
proof (intro conjI allI impI)
  have i: "conn_inv s" using assms by (rule reachable_conn)
  then show "mc_inflight s = length (filter (in_op \<circ> task_phase) (mc_tasks s))" by (simp add: conn_inv_def conn_ok_def)
  show "n \<notin> snd ` set (mc_closers s) \<union> set (mc_retired s) \<union> set (mc_aborted s)"
    if "map_of (mc_tasks s) c = Some (k, Running w n)" for c k w n
    using conn_take(2)[OF i that] by (simp add: ended_def)
  show "StopConn \<in> set es" if "n \<in> set (mc_stopping s)" for n
    using reachable_stopping[OF assms] that by (cases "StopConn \<in> set es") simp_all
  show "mc_aborted s \<noteq> [] \<or> (\<exists>c. Reconfigure False c \<in> set es)"
    if "mc_inflight s = 0 \<and> mc_stale s \<noteq> [] \<and> mc_scheduled s = 0 \<and> mc_closers s = []"
    using reachable_progress[OF assms] that by (auto simp: closing_progress_def)
  have u: "usable s n" if "mc_toolset s = Some n" for n
    using i that by (simp add: conn_inv_def conn_ok_def sessions_ok_def)
  show "n \<notin> set (mc_stale s) \<union> snd ` set (mc_closers s) \<union> set (mc_retired s) \<union> set (mc_aborted s) \<union> set (mc_stopping s)"
    "mc_made s ! n = mc_config s \<or> n \<in> set (mc_raced s)" if "mc_toolset s = Some n" for n
    using u[OF that] by (auto simp: usable_def as_configured_def ended_def)
qed

definition demo_reconfigured :: "mcp_event list" where
  "demo_reconfigured = [Begin 1 CallReq, EnsureTurn 1 0, ConnectOk 1, Reconfigure True demo_conn_config, OpReturns 1]"

lemma mcp_sessions_consistent_witness:
  "\<exists>s. mcp_run demo_reconfigured (fresh_conn demo_conn_config) = Some s \<and> mc_closers s = [(Some 1, 0)] \<and> mc_inflight s = 0 \<and>
     (\<forall>c k w. map_of (mc_tasks s) c \<noteq> Some (k, Running w 0))"
proof -
  have "\<exists>s. mcp_run demo_reconfigured (fresh_conn demo_conn_config) = Some s \<and> mc_closers s = [(Some 1, 0)] \<and> mc_inflight s = 0"
    by (simp add: demo_reconfigured_def task_event_def fresh_conn_def mcp_defs put_phase_def close_turn_def connecting_sessions_def)
  then obtain s where s: "mcp_run demo_reconfigured (fresh_conn demo_conn_config) = Some s" "mc_closers s = [(Some 1, 0)]" "mc_inflight s = 0"
    by blast
  show ?thesis using mcp_sessions_consistent[OF s(1)] s by auto
qed

text \<open>
  A request cancelled while it awaits the closing of a superseded session leaves that session
  half closed, and nobody closes the other one until an operation ends.
\<close>

lemma cancelled_closing_leaks:
  "\<exists>s. mcp_run
      [Begin 1 CallReq, EnsureTurn 1 0, ConnectOk 1, Reconfigure True demo_conn_config, Begin 2 StartReq, EnsureTurn 2 0,
       ConnectOk 2, Reconfigure True demo_conn_config, OpReturns 1, Cancelled 1] (fresh_conn demo_conn_config) = Some s \<and>
     mc_aborted s = [1] \<and> mc_stale s = [0] \<and> mc_closers s = [] \<and> mc_scheduled s = 0 \<and> mc_inflight s = 0"
  by (simp add: task_event_def fresh_conn_def mcp_defs put_phase_def close_turn_def connecting_sessions_def)

end
