(* ===== verification/Mcp_Toolsets.thy ===== *)
theory Mcp_Toolsets
  imports Mcp_Connection Delegation_Policy "HOL-Library.Sublist"
begin

text \<open>
  The tools of the MCP servers as the model of a turn sees them, and the registry of the shared
  connections: the rest of extensions/mcp/toolsets.py and extensions/mcp/confirmation.py.  What
  a server lists is a parameter; the fingerprint of a configuration, its JSON text, is a function.
\<close>

section \<open>Names\<close>

definition mcp_tool_prefix :: "string \<Rightarrow> string" where
  "mcp_tool_prefix sid = ''mcp_'' @ sid"

definition is_mcp_tool_name :: "string \<Rightarrow> bool" where
  "is_mcp_tool_name n = (take 4 n = ''mcp_'')"

definition model_name :: "string \<Rightarrow> string \<Rightarrow> string" where
  "model_name sid n = mcp_tool_prefix sid @ ''_'' @ n"

lemma model_name_mcp [simp]: "is_mcp_tool_name (model_name sid n)"
  by (simp add: is_mcp_tool_name_def model_name_def mcp_tool_prefix_def)

lemma model_name_inj [simp]: "model_name sid n = model_name sid m \<longleftrightarrow> n = m"
  by (simp add: model_name_def)

text \<open>
  The tools of two servers have different names unless one id continues the other after an
  underscore; the ids may contain underscores, so this is possible.
\<close>

lemma model_name_clash:
  assumes "model_name a n = model_name b m" and "a \<noteq> b"
  shows "prefix (a @ ''_'') b \<or> prefix (b @ ''_'') a"
proof -
  have "a @ CHR ''_'' # n = b @ CHR ''_'' # m" using assms(1) by (simp add: model_name_def mcp_tool_prefix_def)
  then obtain us where "a = b @ us \<and> us @ CHR ''_'' # n = CHR ''_'' # m \<or> a @ us = b \<and> CHR ''_'' # n = us @ CHR ''_'' # m"
    by (auto simp: append_eq_append_conv2)
  then show ?thesis using assms(2) by (cases us) (auto simp: prefix_def)
qed

lemma model_name_clash_example: "model_name ''a'' ''b_c'' = model_name ''a_b'' ''c''"
  by (simp add: model_name_def mcp_tool_prefix_def)

section \<open>Calling a tool\<close>

record mcp_tool =
  mt_name :: string
  mt_schema :: dict
  mt_metadata :: dict

definition meta_dict :: "dict \<Rightarrow> string \<Rightarrow> dict" where
  "meta_dict d k = (case dget d k of PDict e \<Rightarrow> e | _ \<Rightarrow> [])"

definition tool_requires_confirmation :: "string \<Rightarrow> dict \<Rightarrow> string list \<Rightarrow> bool" where
  "tool_requires_confirmation name metadata confirm_tools =
     (if name \<in> set confirm_tools then True
      else let annotations = meta_dict metadata ''annotations''
           in dget annotations ''destructiveHint'' = PBool True \<and> dget annotations ''readOnlyHint'' \<noteq> PBool True)"

definition unwrap_arguments :: "dict \<Rightarrow> dict \<Rightarrow> dict" where
  "unwrap_arguments args schema =
     (case dget args ''arguments'' of
        PDict inner \<Rightarrow>
          if length args = 1 \<and> map_of (meta_dict schema ''properties'') ''arguments'' = None then inner else args
      | _ \<Rightarrow> args)"

text \<open>What check_confirmation hands to the notifier of the turn, if it has one; it denies nothing.\<close>

definition confirmation_payload :: "string \<Rightarrow> string \<Rightarrow> dict \<Rightarrow> dict" where
  "confirmation_payload sid name args =
     [(''type'', PStr ''mcp_confirmation_required''), (''tool'', PStr (model_name sid name)), (''server_id'', PStr sid),
      (''tool_name'', PStr name), (''arguments'', PDict args)]"

definition check_confirmation :: "bool \<Rightarrow> string \<Rightarrow> string \<Rightarrow> dict \<Rightarrow> (string option + (string \<times> dict) list)" where
  "check_confirmation notifier sid name args =
     Inr (if notifier then [(model_name sid name, confirmation_payload sid name args)] else [])"

text \<open>
  The call of a tool: the error the model reads, or the operation that goes to the server, with
  what was sent to the chat before.  A confirm hook answers with a denial or the notices it sent.
\<close>

type_synonym confirm_hook = "string \<Rightarrow> string \<Rightarrow> dict \<Rightarrow> (string option + (string \<times> dict) list)"

definition denied_text :: "string \<Rightarrow> string \<Rightarrow> string" where
  "denied_text sid name =
     ''MCP tool '' @ quoted name @ '' (server='' @ sid @ '') requires confirmation but it was denied.''"

definition call_through ::
  "confirm_hook \<Rightarrow> mcp_entry \<Rightarrow> mcp_tool \<Rightarrow> dict \<Rightarrow> (string + string \<times> dict) \<times> (string \<times> dict) list" where
  "call_through confirm e tool args =
     (let a = unwrap_arguments args (mt_schema tool)
      in if tool_requires_confirmation (mt_name tool) (mt_metadata tool) (me_confirm e)
         then (case confirm (me_id e) (mt_name tool) a of
                 Inl d \<Rightarrow> (Inl (case d of Some m \<Rightarrow> m | None \<Rightarrow> denied_text (me_id e) (mt_name tool)), [])
               | Inr notices \<Rightarrow> (Inr (mt_name tool, a), notices))
         else (Inr (mt_name tool, a), []))"

lemma denied_call_not_sent:
  assumes "tool_requires_confirmation (mt_name t) (mt_metadata t) (me_confirm e)"
    and "confirm (me_id e) (mt_name t) (unwrap_arguments args (mt_schema t)) = Inl d"
  shows "\<exists>m. call_through confirm e t args = (Inl m, [])"
  using assms by (simp add: call_through_def Let_def)

text \<open>With the hook of the code a sensitive call is announced in verbose mode, and sent in any case.\<close>

lemma default_hook_sends:
  "call_through (check_confirmation notifier) e t args =
     (Inr (mt_name t, unwrap_arguments args (mt_schema t)),
      if tool_requires_confirmation (mt_name t) (mt_metadata t) (me_confirm e) \<and> notifier
      then [(model_name (me_id e) (mt_name t), confirmation_payload (me_id e) (mt_name t) (unwrap_arguments args (mt_schema t)))] else [])"
  by (simp add: call_through_def check_confirmation_def Let_def)

section \<open>Listing\<close>

definition tool_allowed :: "mcp_entry \<Rightarrow> string \<Rightarrow> bool" where
  "tool_allowed e n =
     (case me_include e of
        Some inc \<Rightarrow> n \<in> set inc
      | None \<Rightarrow> (case me_exclude e of Some ex \<Rightarrow> n \<notin> set ex | None \<Rightarrow> True))"

text \<open>The tools a cached agent lists through a connection; a failed listing contributes none.\<close>

definition listed_tools :: "mcp_conn \<Rightarrow> string \<Rightarrow> mcp_tool list option \<Rightarrow> (string \<times> mcp_tool) list" where
  "listed_tools s sid answer =
     map (\<lambda>t. (model_name sid (mt_name t), t))
       (filter (\<lambda>t. tool_allowed (cc_entry (mc_config s)) (mt_name t)) (case answer of Some ts \<Rightarrow> ts | None \<Rightarrow> []))"

section \<open>The registry\<close>

text \<open>
  The connections are objects that agents hold, so they live in a heap of their own; the table
  maps a server id to the fingerprint of its configuration and its object.  The fingerprint, the
  JSON text of the entry followed by the two time-outs, is the parameter fp.  mr_closed counts the
  calls of close.
\<close>

record mcp_config =
  mg_servers :: "mcp_entry list"
  mg_connect :: int
  mg_call :: int

record 'f mcp_registry =
  mr_table :: "(string \<times> 'f \<times> nat) list"
  mr_heap :: "mcp_conn list"
  mr_closed :: nat

definition empty_registry :: "'f mcp_registry" where
  "empty_registry = \<lparr>mr_table = [], mr_heap = [], mr_closed = 0\<rparr>"

definition config_of :: "mcp_config \<Rightarrow> mcp_entry \<Rightarrow> conn_config" where
  "config_of g e =
     \<lparr>cc_entry = e, cc_connect = mg_connect g,
      cc_call = (case me_call e of Some n \<Rightarrow> if n \<noteq> 0 then n else mg_call g | None \<Rightarrow> mg_call g)\<rparr>"

definition configured :: "mcp_config \<Rightarrow> string \<Rightarrow> conn_config option" where
  "configured g sid = map_option (config_of g) (find (\<lambda>e. me_id e = sid \<and> me_enabled e) (mg_servers g))"

text \<open>loop: whether an event loop runs when a changed configuration is adopted.\<close>

definition registry_connection :: "bool \<Rightarrow> (conn_config \<Rightarrow> 'f) \<Rightarrow> mcp_config \<Rightarrow> string \<Rightarrow> 'f mcp_registry \<Rightarrow> nat option \<times> 'f mcp_registry" where
  "registry_connection loop fp g sid r =
     (case configured g sid of
        None \<Rightarrow> (None, r)
      | Some c \<Rightarrow>
          (case map_of (mr_table r) sid of
             Some (f, i) \<Rightarrow>
               if f = fp c then (Some i, r)
               else (Some i, r\<lparr>mr_heap := (mr_heap r)[i := reconfigure loop c (mr_heap r ! i)],
                               mr_table := AList.update sid (fp c, i) (mr_table r)\<rparr>)
           | None \<Rightarrow>
               (Some (length (mr_heap r)),
                r\<lparr>mr_heap := mr_heap r @ [fresh_conn c], mr_table := AList.update sid (fp c, length (mr_heap r)) (mr_table r)\<rparr>)))"

fun toolsets_for :: "bool \<Rightarrow> (conn_config \<Rightarrow> 'f) \<Rightarrow> mcp_config \<Rightarrow> string list \<Rightarrow> 'f mcp_registry \<Rightarrow> (string \<times> nat) list \<times> 'f mcp_registry" where
  "toolsets_for loop fp g [] r = ([], r)"
| "toolsets_for loop fp g (sid # sids) r =
     (case registry_connection loop fp g sid r of
        (None, r1) \<Rightarrow> toolsets_for loop fp g sids r1
      | (Some i, r1) \<Rightarrow> (case toolsets_for loop fp g sids r1 of (is, r2) \<Rightarrow> ((sid, i) # is, r2)))"

text \<open>start begins a request on each connection; the answers are collected by server id.\<close>

definition start_servers ::
  "(conn_config \<Rightarrow> 'f) \<Rightarrow> mcp_config \<Rightarrow> string list \<Rightarrow> nat \<Rightarrow> 'f mcp_registry \<Rightarrow> (string \<times> nat) list \<times> 'f mcp_registry" where
  "start_servers fp g sids task r =
     (case toolsets_for True fp g sids r of
        (cs, r1) \<Rightarrow>
          (cs, r1\<lparr>mr_heap := fold (\<lambda>(sid, i) h. h[i := put_phase task StartReq (Ensuring First) (h ! i)]) cs (mr_heap r1)\<rparr>))"

definition start_results :: "(string \<times> nat) list \<Rightarrow> bool list \<Rightarrow> (string \<times> bool) list" where
  "start_results cs oks = fold (\<lambda>((sid, i), ok). AList.update sid ok) (zip cs oks) []"

text \<open>close forgets the objects at once and returns those whose stop it then awaits.\<close>

definition close_registry :: "'f mcp_registry \<Rightarrow> nat list \<times> 'f mcp_registry" where
  "close_registry r = (map (snd \<circ> snd) (mr_table r), r\<lparr>mr_table := [], mr_closed := mr_closed r + 1\<rparr>)"

text \<open>
  What the registry and the connections do between one look at the registry and the next; the
  stop of a connection is one of its own steps.
\<close>

inductive registry_step :: "(conn_config \<Rightarrow> 'f) \<Rightarrow> 'f mcp_registry \<Rightarrow> 'f mcp_registry \<Rightarrow> bool" for fp where
  listing: "registry_step fp r (snd (toolsets_for loop fp g sids r))"
| closing: "registry_step fp r (snd (close_registry r))"
| starting: "registry_step fp r (snd (start_servers fp g sids task r))"
| working: "mcp_step e (mr_heap r ! i) = Some s \<Longrightarrow> i < length (mr_heap r) \<Longrightarrow> (\<forall>l c. e \<noteq> Reconfigure l c) \<Longrightarrow>
    registry_step fp r (r\<lparr>mr_heap := (mr_heap r)[i := s]\<rparr>)"

inductive_cases registry_step_E: "registry_step fp r r'"


section \<open>Agents follow the configuration\<close>

lemma close_turn_config: "mc_config (close_turn w s) = mc_config s"
  by (simp add: close_turn_def)

lemma got_config [simp]: "mc_config (got_session c k w n s) = mc_config s"
  by (cases w) (auto simp: got_session_def send_op_def leave_def mcp_simps)

lemma none_config [simp]: "mc_config (no_session c k w s) = mc_config s"
  by (cases w) (auto simp: no_session_def leave_def mcp_simps)

lemma abandon_config [simp]: "mc_config (abandon c k p s) = mc_config s"
  by (cases p) (auto simp: abandon_def abort_closing_def leave_def mcp_simps split: ensuring.splits option.splits)

lemma step_config:
  assumes "mcp_step e s = Some t" and "\<forall>l c. e \<noteq> Reconfigure l c"
  shows "mc_config t = mc_config s"
  by (cases e) (use assms in \<open>auto simp: event_iff ensure_turn_def connect_ok_def connect_failed_def Let_def lost_turn_def leave_def mcp_simps
      stop_conn_def split: option.splits if_splits ensuring.splits\<close>)

lemma reconfigure_config [simp]: "mc_config (reconfigure loop c s) = c"
  by (simp add: reconfigure_def Let_def)

lemma configured_id: "configured g sid = Some c \<Longrightarrow> me_id (cc_entry c) = sid"
  by (auto simp: configured_def config_of_def find_Some_iff)

text \<open>
  The table is sound: each entry is an object of the heap that has the configuration its
  fingerprint was taken from, and no two servers share an object.
\<close>

definition registry_ok :: "(conn_config \<Rightarrow> 'f) \<Rightarrow> 'f mcp_registry \<Rightarrow> bool" where
  "registry_ok fp r \<longleftrightarrow>
     (\<forall>sid f i. map_of (mr_table r) sid = Some (f, i) \<longrightarrow>
        i < length (mr_heap r) \<and> f = fp (mc_config (mr_heap r ! i)) \<and> me_id (cc_entry (mc_config (mr_heap r ! i))) = sid)"

lemma registry_ok_inj:
  assumes "registry_ok fp r" and "map_of (mr_table r) a = Some (f, i)" and "map_of (mr_table r) b = Some (h, i)"
  shows "a = b"
  using assms by (metis registry_ok_def)

lemma registry_ok_connection:
  assumes "registry_ok fp r"
  shows "registry_ok fp (snd (registry_connection loop fp g sid r))"
proof (cases "configured g sid")
  case (Some c)
  then have id: "me_id (cc_entry c) = sid" by (rule configured_id)
  show ?thesis
  proof (cases "map_of (mr_table r) sid")
    case None
    with assms Some id show ?thesis
      by (auto simp: registry_connection_def registry_ok_def update_conv' nth_append fresh_conn_def intro: less_SucI)
  next
    case (Some fi)
    obtain f i where fi: "fi = (f, i)" by (cases fi)
    have other: "j \<noteq> i" if "map_of (mr_table r) b = Some (h, j)" "b \<noteq> sid" for b h j
      using registry_ok_inj[OF assms that(1)] Some fi that(2) by auto
    have i: "i < length (mr_heap r)" using assms Some fi by (simp add: registry_ok_def)
    have eq: "f \<noteq> fp c \<Longrightarrow> snd (registry_connection loop fp g sid r) =
      r\<lparr>mr_heap := (mr_heap r)[i := reconfigure loop c (mr_heap r ! i)], mr_table := AList.update sid (fp c, i) (mr_table r)\<rparr>"
      "f = fp c \<Longrightarrow> snd (registry_connection loop fp g sid r) = r"
      using \<open>configured g sid = Some c\<close> Some fi by (simp_all add: registry_connection_def)
    show ?thesis
    proof (cases "f = fp c")
      case False
      have "b' < length (mr_heap r) \<and> h = fp (mc_config ((mr_heap r)[i := reconfigure loop c (mr_heap r ! i)] ! b')) \<and>
          me_id (cc_entry (mc_config ((mr_heap r)[i := reconfigure loop c (mr_heap r ! i)] ! b'))) = b"
        if "map_of (AList.update sid (fp c, i) (mr_table r)) b = Some (h, b')" for b h b'
        using that assms other[of b h b'] i id by (cases "b = sid") (auto simp: registry_ok_def)
      then show ?thesis by (simp add: eq(1)[OF False] registry_ok_def)
    qed (simp add: eq assms)
  qed
qed (use assms in \<open>simp add: registry_connection_def\<close>)

text \<open>
  Once a server has an object it keeps it as long as the registry is not closed; the heap only
  grows.
\<close>

definition keeps_objects :: "'f mcp_registry \<Rightarrow> 'f mcp_registry \<Rightarrow> bool" where
  "keeps_objects r r' \<longleftrightarrow> length (mr_heap r) \<le> length (mr_heap r') \<and> mr_closed r \<le> mr_closed r' \<and>
     (mr_closed r' = mr_closed r \<longrightarrow>
       (\<forall>sid f i. map_of (mr_table r) sid = Some (f, i) \<longrightarrow> (\<exists>h. map_of (mr_table r') sid = Some (h, i))))"

lemma objects_refl: "keeps_objects r r"
  by (simp add: keeps_objects_def)

lemma objects_trans:
  assumes "keeps_objects a b" and "keeps_objects b c"
  shows "keeps_objects a c"
proof -
  have "mr_closed a = mr_closed b" "mr_closed b = mr_closed c" if "mr_closed c = mr_closed a"
    using assms that by (simp_all add: keeps_objects_def)
  then show ?thesis using assms unfolding keeps_objects_def by (metis order_trans)
qed

lemma keeps_connection: "keeps_objects r (snd (registry_connection loop fp g sid r))"
  by (auto simp: registry_connection_def keeps_objects_def update_conv' split: option.splits)

lemma toolsets_for_Cons:
  "snd (toolsets_for loop fp g (sid # sids) r) = snd (toolsets_for loop fp g sids (snd (registry_connection loop fp g sid r)))"
  by (cases "registry_connection loop fp g sid r"; cases "toolsets_for loop fp g sids (snd (registry_connection loop fp g sid r))")
     (simp split: option.split)

lemma registry_ok_toolsets: "registry_ok fp r \<Longrightarrow> registry_ok fp (snd (toolsets_for loop fp g sids r))"
  by (induction sids arbitrary: r) (simp_all add: toolsets_for_Cons registry_ok_connection del: toolsets_for.simps(2))

lemma keeps_toolsets: "keeps_objects r (snd (toolsets_for loop fp g sids r))"
proof (induction sids arbitrary: r)
  case (Cons sid sids)
  show ?case unfolding toolsets_for_Cons by (rule objects_trans[OF keeps_connection Cons.IH])
qed (simp add: objects_refl)

text \<open>Once the registry was closed after r, its objects are none that r had.\<close>

definition fresh_since :: "'f mcp_registry \<Rightarrow> 'f mcp_registry \<Rightarrow> bool" where
  "fresh_since r r' \<longleftrightarrow> length (mr_heap r) \<le> length (mr_heap r') \<and>
     (mr_closed r' = mr_closed r \<or>
      (\<forall>sid f i. map_of (mr_table r') sid = Some (f, i) \<longrightarrow> length (mr_heap r) \<le> i))"

lemma fresh_refl: "fresh_since r r"
  by (simp add: fresh_since_def)

lemma fresh_connection: "fresh_since r q \<Longrightarrow> fresh_since r (snd (registry_connection loop fp g sid q))"
  by (auto simp: registry_connection_def fresh_since_def update_conv' split: option.splits)

lemma fresh_toolsets: "fresh_since r q \<Longrightarrow> fresh_since r (snd (toolsets_for loop fp g sids q))"
  by (induction sids arbitrary: q) (simp_all add: toolsets_for_Cons fresh_connection del: toolsets_for.simps(2))

lemma closed_connection: "mr_closed (snd (registry_connection loop fp g sid r)) = mr_closed r"
  by (simp add: registry_connection_def split: option.split)

lemma closed_toolsets: "mr_closed (snd (toolsets_for loop fp g sids r)) = mr_closed r"
  by (induction sids arbitrary: r) (simp_all add: toolsets_for_Cons closed_connection del: toolsets_for.simps(2))

text \<open>An object returned by the registry has the configuration asked for, also at the end.\<close>

lemma connection_configured:
  assumes "registry_ok fp r" and "inj fp" and "registry_connection loop fp g sid r = (Some i, r')"
  shows "\<exists>c. configured g sid = Some c \<and> i < length (mr_heap r') \<and> mc_config (mr_heap r' ! i) = c \<and> map_of (mr_table r') sid = Some (fp c, i)"
proof -
  obtain c where c: "configured g sid = Some c" using assms(3) by (auto simp: registry_connection_def split: option.splits)
  have ok: "registry_ok fp r'" using registry_ok_connection[OF assms(1), of loop g sid] assms(3) by simp
  have "map_of (mr_table r') sid = Some (fp c, i)"
    using assms(1,3) c by (auto simp: registry_connection_def split: option.splits if_splits)
  with ok c assms(2) show ?thesis by (auto simp: registry_ok_def inj_def)
qed

lemma connection_keeps_configured:
  assumes "registry_ok fp r" and "inj fp" and "configured g sid = Some c" and "map_of (mr_table r) sid = Some (fp c, i)"
  shows "map_of (mr_table (snd (registry_connection loop fp g other r))) sid = Some (fp c, i)"
  using assms by (auto simp: registry_connection_def update_conv' split: option.splits)

lemma toolsets_keep_configured:
  assumes "registry_ok fp r" and "inj fp" and "configured g sid = Some c" and "map_of (mr_table r) sid = Some (fp c, i)"
  shows "map_of (mr_table (snd (toolsets_for loop fp g sids r))) sid = Some (fp c, i)"
  using assms
proof (induction sids arbitrary: r)
  case (Cons x sids)
  then show ?case unfolding toolsets_for_Cons
    by (intro Cons.IH registry_ok_connection connection_keeps_configured)
qed simp

lemma toolsets_configured:
  assumes "registry_ok fp r" and "inj fp" and "toolsets_for loop fp g sids r = (cs, r')" and "(sid, i) \<in> set cs"
  shows "\<exists>c. configured g sid = Some c \<and> map_of (mr_table r') sid = Some (fp c, i)"
  using assms
proof (induction sids arbitrary: r r' cs)
  case (Cons x sids)
  obtain oi r1 where r1: "registry_connection loop fp g x r = (oi, r1)" by (cases "registry_connection loop fp g x r")
  obtain cs1 r2 where r2: "toolsets_for loop fp g sids r1 = (cs1, r2)" by (cases "toolsets_for loop fp g sids r1")
  have ok: "registry_ok fp r1" using registry_ok_connection[OF Cons.prems(1), of loop g x] r1 by simp
  have r': "r' = r2" "cs = cs1 \<or> (\<exists>j. oi = Some j \<and> cs = (x, j) # cs1)"
    using Cons.prems(3) r1 r2 by (auto split: option.splits)
  from Cons.prems(4) r' consider "(sid, i) \<in> set cs1" | "oi = Some i" "x = sid" by auto
  then show ?case
  proof cases
    case 1
    then show ?thesis using Cons.IH[OF ok Cons.prems(2) r2] r' by simp
  next
    case 2
    then obtain c where "configured g sid = Some c" "map_of (mr_table r1) sid = Some (fp c, i)"
      using connection_configured[OF Cons.prems(1,2)] r1 by blast
    then show ?thesis using toolsets_keep_configured[OF ok Cons.prems(2), of g sid c i loop sids] r2 r' by auto
  qed
qed simp

lemma toolsets_listed:
  assumes "sid \<in> set sids" and "configured g sid = Some c" and "toolsets_for loop fp g sids r = (cs, r')"
  shows "\<exists>i. (sid, i) \<in> set cs"
  using assms
proof (induction sids arbitrary: r r' cs)
  case (Cons x sids)
  obtain oi r1 where r1: "registry_connection loop fp g x r = (oi, r1)" by (cases "registry_connection loop fp g x r")
  obtain cs1 r2 where r2: "toolsets_for loop fp g sids r1 = (cs1, r2)" by (cases "toolsets_for loop fp g sids r1")
  have sub: "set cs1 \<subseteq> set cs" using Cons.prems(3) r1 r2 by (auto split: option.splits)
  show ?case
  proof (cases "x = sid")
    case True
    then obtain j where "oi = Some j" using r1 Cons.prems(2) by (auto simp: registry_connection_def split: option.splits if_splits)
    then show ?thesis using Cons.prems(3) r1 r2 True by auto
  next
    case False
    then show ?thesis using Cons.IH[OF _ Cons.prems(2) r2] Cons.prems(1) sub by auto
  qed
qed simp

lemma task_heap_config:
  "length (fold (\<lambda>(sid, i) h. h[i := put_phase task k p (h ! i)]) cs h) = length h \<and>
   (\<forall>j. mc_config (fold (\<lambda>(sid, i) h. h[i := put_phase task k p (h ! i)]) cs h ! j) = mc_config (h ! j))"
proof (induction cs arbitrary: h)
  case (Cons x cs)
  obtain sid i where x: "x = (sid, i)" by (cases x)
  have "mc_config (h[i := put_phase task k p (h ! i)] ! j) = mc_config (h ! j)" for j
    by (cases "i < length h \<and> i = j") (auto simp: mcp_simps nth_list_update list_update_beyond)
  then show ?case using Cons.IH[of "h[i := put_phase task k p (h ! i)]"] by (simp add: x)
qed simp

lemma registry_step_ok:
  assumes "registry_step fp r r'" and "registry_ok fp r"
  shows "registry_ok fp r' \<and> keeps_objects r r'"
  using assms
proof cases
  case (listing loop g sids)
  then show ?thesis using assms(2) by (simp add: registry_ok_toolsets keeps_toolsets)
next
  case closing
  then show ?thesis using assms(2) by (simp add: close_registry_def registry_ok_def keeps_objects_def)
next
  case (starting g sids task)
  obtain cs r1 where r1: "toolsets_for True fp g sids r = (cs, r1)" by (cases "toolsets_for True fp g sids r")
  then have "registry_ok fp r1" "keeps_objects r r1"
    using registry_ok_toolsets[OF assms(2), of True g sids] keeps_toolsets[of r True fp g sids] by simp_all
  then show ?thesis using starting r1 task_heap_config[of task StartReq "Ensuring First" cs "mr_heap r1"]
    by (simp add: start_servers_def registry_ok_def keeps_objects_def)
next
  case (working e i s)
  have "mc_config ((mr_heap r)[i := s] ! j) = mc_config (mr_heap r ! j)" for j
    using step_config[OF working(2,4)] working(3) by (cases "i = j") (auto simp: nth_list_update)
  then show ?thesis using working assms(2) by (simp add: registry_ok_def keeps_objects_def)
qed

lemma registry_steps_ok:
  assumes "(registry_step fp)\<^sup>*\<^sup>* r r'" and "registry_ok fp r"
  shows "registry_ok fp r' \<and> keeps_objects r r'"
  using assms
proof (induction rule: rtranclp_induct)
  case (step y z)
  then show ?case using registry_step_ok by (metis objects_trans)
qed (simp add: objects_refl)


lemma fresh_step:
  assumes "registry_step fp q q'" and "fresh_since r q"
  shows "fresh_since r q'"
  using assms
proof cases
  case (starting g sids task)
  obtain cs q1 where q1: "toolsets_for True fp g sids q = (cs, q1)" by (cases "toolsets_for True fp g sids q")
  have "fresh_since r q1" using fresh_toolsets[OF assms(2), of True fp g sids] q1 by simp
  then show ?thesis using starting q1 task_heap_config[of task StartReq "Ensuring First" cs "mr_heap q1"]
    by (simp add: start_servers_def fresh_since_def)
next
  case (listing loop g sids)
  then show ?thesis using assms(2) by (simp add: fresh_toolsets)
qed (use assms(2) in \<open>auto simp: close_registry_def fresh_since_def\<close>)

lemma fresh_steps: "(registry_step fp)\<^sup>*\<^sup>* q q' \<Longrightarrow> fresh_since r q \<Longrightarrow> fresh_since r q'"
  by (induction rule: rtranclp_induct) (auto intro: fresh_step)

lemma listed_names:
  "set (map fst (listed_tools s sid answer)) =
     {model_name sid (mt_name t) | t ts. answer = Some ts \<and> t \<in> set ts \<and> tool_allowed (cc_entry (mc_config s)) (mt_name t)}"
  by (force simp: listed_tools_def split: option.splits)

text \<open>
  C22: an agent that got the object of a server from the registry keeps an object of the
  present configuration.  Assume that configurations that differ have different fingerprints (a
  fingerprint is the JSON text of the entry with the two time-outs).  Whatever the registry and
  the connections do before and after, as long as the registry is not closed after the agent got
  its object: when the toolsets are asked for again under a configuration in which the server is
  enabled, the server has the same object, its configuration is the present one, and the names
  the old agent lists through it are exactly those of the tools the present entry allows.  After
  a close a server gets an object no agent has had, also with the present configuration.
\<close>

theorem cached_agent_follows_config:
  assumes "(registry_step fp)\<^sup>*\<^sup>* empty_registry r" and "inj fp"
    and "toolsets_for loop fp g sids r = (cs, r1)" and "(sid, i) \<in> set cs" and "(registry_step fp)\<^sup>*\<^sup>* r1 r2"
    and "toolsets_for loop' fp g' sids' r2 = (cs', r3)" and "sid \<in> set sids'" and "configured g' sid = Some c"
  shows "\<exists>j. (sid, j) \<in> set cs' \<and> mc_config (mr_heap r3 ! j) = c \<and> (if mr_closed r2 = mr_closed r1 then j = i else j \<noteq> i) \<and>
    set (map fst (listed_tools (mr_heap r3 ! j) sid (Some ts))) = {model_name sid (mt_name t) | t. t \<in> set ts \<and> tool_allowed (cc_entry c) (mt_name t)}"
proof -
  have ok: "registry_ok fp r" using registry_steps_ok[OF assms(1)] by (simp add: registry_ok_def empty_registry_def)
  have ok1: "registry_ok fp r1" using registry_ok_toolsets[OF ok, of loop g sids] assms(3) by simp
  then have ok2: "registry_ok fp r2" and k: "keeps_objects r1 r2" using registry_steps_ok[OF assms(5)] by simp_all
  obtain d where i: "map_of (mr_table r1) sid = Some (fp d, i)" using toolsets_configured[OF ok assms(2-4)] by blast
  obtain j where j: "(sid, j) \<in> set cs'" using toolsets_listed[OF assms(7,8,6)] by blast
  have j3: "map_of (mr_table r3) sid = Some (fp c, j)" using toolsets_configured[OF ok2 assms(2,6) j] assms(8) by auto
  have k3: "keeps_objects r2 r3" "mr_closed r3 = mr_closed r2"
    using keeps_toolsets[of r2 loop' fp g' sids'] closed_toolsets[of loop' fp g' sids' r2] assms(6) by simp_all
  have "if mr_closed r2 = mr_closed r1 then j = i else j \<noteq> i"
  proof (cases "mr_closed r2 = mr_closed r1")
    case True
    then obtain h where "map_of (mr_table r2) sid = Some (h, i)" using k i by (metis keeps_objects_def)
    then show ?thesis using True k3 j3 by (metis keeps_objects_def option.inject prod.inject)
  next
    case False
    have "i < length (mr_heap r1)" using ok1 i by (simp add: registry_ok_def)
    moreover have "fresh_since r1 r3"
      using fresh_toolsets[OF fresh_steps[OF assms(5) fresh_refl], of loop' fp g' sids'] assms(6) by simp
    ultimately have "length (mr_heap r1) \<le> j" "i < length (mr_heap r1)" using False k3(2) j3 by (auto simp: fresh_since_def)
    then show ?thesis using False by simp
  qed
  moreover have "registry_ok fp r3" using registry_ok_toolsets[OF ok2, of loop' g' sids'] assms(6) by simp
  ultimately have "mc_config (mr_heap r3 ! j) = c" using j3 assms(2) by (auto simp: registry_ok_def inj_def)
  then show ?thesis using j \<open>if _ then _ else _\<close> unfolding listed_names by (intro exI[of _ j]) auto
qed

definition demo_mcp_config :: "string list option \<Rightarrow> mcp_config" where
  "demo_mcp_config inc =
     \<lparr>mg_servers = [demo_mcp_entry\<lparr>me_include := inc, me_exclude := None\<rparr>], mg_connect = 10, mg_call = 30\<rparr>"

lemma cached_agent_follows_config_witness:
  "\<exists>r :: conn_config mcp_registry. mc_config (mr_heap r ! 0) = config_of (demo_mcp_config (Some [''read''])) (demo_mcp_entry\<lparr>me_include := Some [''read''], me_exclude := None\<rparr>) \<and>
     set (map fst (listed_tools (mr_heap r ! 0) ''wiki''
       (Some [\<lparr>mt_name = ''read'', mt_schema = [], mt_metadata = []\<rparr>, \<lparr>mt_name = ''edit'', mt_schema = [], mt_metadata = []\<rparr>]))) =
     {model_name ''wiki'' ''read''}"
proof -
  let ?g = "demo_mcp_config None" and ?h = "demo_mcp_config (Some [''read''])"
  let ?ts = "[\<lparr>mt_name = ''read'', mt_schema = [], mt_metadata = []\<rparr>, \<lparr>mt_name = ''edit'', mt_schema = [], mt_metadata = []\<rparr>]"
  obtain r1 where r1: "toolsets_for True (\<lambda>c. c) ?g [''wiki''] empty_registry = ([(''wiki'', 0)], r1)"
      "mr_table r1 = [(''wiki'', config_of ?g (demo_mcp_entry\<lparr>me_include := None, me_exclude := None\<rparr>), 0)]"
    by (simp add: registry_connection_def configured_def demo_mcp_config_def demo_mcp_entry_def empty_registry_def)
  obtain cs' r3 where r3: "toolsets_for True (\<lambda>c. c) ?h [''wiki''] r1 = (cs', r3)"
    by (cases "toolsets_for True (\<lambda>c. c) ?h [''wiki''] r1")
  have c: "configured ?h ''wiki'' = Some (config_of ?h (demo_mcp_entry\<lparr>me_include := Some [''read''], me_exclude := None\<rparr>))"
    by (simp add: configured_def demo_mcp_config_def demo_mcp_entry_def)
  have m: "mc_config (mr_heap r3 ! 0) = config_of ?h (demo_mcp_entry\<lparr>me_include := Some [''read''], me_exclude := None\<rparr>) \<and>
      set (map fst (listed_tools (mr_heap r3 ! 0) ''wiki'' (Some ?ts))) =
      {model_name ''wiki'' (mt_name t) | t. t \<in> set ?ts \<and> tool_allowed (demo_mcp_entry\<lparr>me_include := Some [''read''], me_exclude := None\<rparr>) (mt_name t)}"
    using cached_agent_follows_config[OF rtranclp.rtrancl_refl inj_on_id2 r1(1) _ rtranclp.rtrancl_refl r3 _ c, of 0 ?ts]
    by (auto simp: config_of_def)
  have e: "{model_name ''wiki'' (mt_name t) | t. t \<in> set ?ts \<and>
      tool_allowed (demo_mcp_entry\<lparr>me_include := Some [''read''], me_exclude := None\<rparr>) (mt_name t)} = {model_name ''wiki'' ''read''}"
    by (auto simp: tool_allowed_def intro!: exI[of _ "\<lparr>mt_name = ''read'', mt_schema = [], mt_metadata = []\<rparr>"])
  show ?thesis using m[unfolded e] by (rule exI[of _ r3])
qed

end
