(* ===== verification/Agent_Turn.thy ===== *)
theory Agent_Turn
  imports Turn_Persistence Capabilities
begin

text \<open>
  One run of the agent: run_turn of agent/pydantic_ai_agent.py with the texts it streams to the
  chat, the history it hands to the model (agent/message_converters.py), the system prompt
  (agent/system_prompt_builder.py) and the cache of built adapters (agent/adapter_cache.py).
  The agent library is a parameter: it yields nodes, and ends with a result, a cancellation or
  an error.  A notifier is the function that tells for its n-th call whether it returned.
\<close>

section \<open>The history for the model\<close>

text \<open>
  The typed messages of the library, as far as the converter makes them.  The blocks are those
  records_to_messages and the persistence write, so every block has all its fields.
\<close>

datatype history_message =
    SystemPrompt string
  | UserPrompt string
  | ToolReturns "(string \<times> string \<times> string) list"
  | Response "string option" "(string \<times> string \<times> dict) list"

definition block_args :: "pyval \<Rightarrow> dict" where
  "block_args v = (case v of PDict d \<Rightarrow> d | _ \<Rightarrow> [])"

definition block_texts :: "block list \<Rightarrow> string list" where
  "block_texts bs = List.map_filter (\<lambda>b. case b of TextBlock t \<Rightarrow> Some t | _ \<Rightarrow> None) bs"

definition block_calls :: "block list \<Rightarrow> (string \<times> string \<times> dict) list" where
  "block_calls bs = List.map_filter (\<lambda>b. case b of ToolUseBlock i n a \<Rightarrow> Some (i, n, block_args a) | _ \<Rightarrow> None) bs"

definition block_returns :: "block list \<Rightarrow> (string \<times> string \<times> string) list" where
  "block_returns bs = List.map_filter (\<lambda>b. case b of ToolResultBlock i n c err \<Rightarrow> Some (i, n, c) | _ \<Rightarrow> None) bs"

definition user_history :: "llm_message \<Rightarrow> history_message list" where
  "user_history m =
     (case lm_blocks m of
        Some (b # bs) \<Rightarrow>
          (let t = (case block_texts (b # bs) of [] \<Rightarrow> [] | ts \<Rightarrow> last ts)
           in if block_returns (b # bs) \<noteq> [] then [ToolReturns (block_returns (b # bs))]
              else if py_strip t \<noteq> [] then [UserPrompt t] else [])
      | _ \<Rightarrow> if py_strip (lm_content m) \<noteq> [] then [UserPrompt (lm_content m)] else [])"

definition assistant_history :: "llm_message \<Rightarrow> history_message list" where
  "assistant_history m =
     (let (texts, calls) =
        (case lm_blocks m of
           Some (b # bs) \<Rightarrow> (filter (\<lambda>t. t \<noteq> []) (block_texts (b # bs)), block_calls (b # bs))
         | _ \<Rightarrow> (if py_strip (lm_content m) \<noteq> [] then [lm_content m] else [], []))
      in if texts = [] \<and> calls = [] then []
         else [Response (if texts \<noteq> [] then Some (join [newline, newline] texts) else None) calls])"

definition llm_messages_to_history :: "llm_message list \<Rightarrow> history_message list" where
  "llm_messages_to_history ms =
     concat (map (\<lambda>m. if lm_role m = RoleUser then user_history m else assistant_history m) ms)"

definition history_call_ids :: "history_message list \<Rightarrow> string list" where
  "history_call_ids hs = concat (map (\<lambda>h. case h of Response t cs \<Rightarrow> map fst cs | _ \<Rightarrow> []) hs)"

definition history_return_ids :: "history_message list \<Rightarrow> string list" where
  "history_return_ids hs = concat (map (\<lambda>h. case h of ToolReturns rs \<Rightarrow> map fst rs | _ \<Rightarrow> []) hs)"

text \<open>The history given with the prompt: the messages before the last, after the system prompt.\<close>

definition run_history :: "string \<Rightarrow> llm_message list \<Rightarrow> history_message list" where
  "run_history system ms =
     (let h = (if length ms > 1 then llm_messages_to_history (butlast ms) else [])
      in if h \<noteq> [] then SystemPrompt system # h else h)"

definition effective_model :: "string \<Rightarrow> string option \<Rightarrow> string" where
  "effective_model dflt override =
     (let m = (case override of Some x \<Rightarrow> if x \<noteq> [] then x else dflt | None \<Rightarrow> dflt)
      in if m \<noteq> [] \<and> take 10 m \<noteq> ''anthropic:'' then ''anthropic:'' @ m else m)"

section \<open>The loop over the nodes\<close>

datatype agent_node = ToolsNode "response_part list" | OtherNode

datatype loop_end =
    LoopDone
  | LoopCancelled "model_message list"
  | LoopUnexpected "model_message list"
  | LoopHttp int
  | LoopRaised exn

record stream_state =
  ss_buffer :: "string option"
  ss_calls :: nat
  ss_attempted :: "string list"
  ss_streamed :: "string list"

definition stream_start :: stream_state where
  "stream_start = \<lparr>ss_buffer = None, ss_calls = 0, ss_attempted = [], ss_streamed = []\<rparr>"

text \<open>An error of the notifier is suppressed, and then the text does not count as streamed.\<close>

definition flush_text :: "(nat \<Rightarrow> string \<Rightarrow> bool) option \<Rightarrow> stream_state \<Rightarrow> stream_state" where
  "flush_text notifier s =
     (case (ss_buffer s, notifier) of
        (Some t, Some f) \<Rightarrow>
          s\<lparr>ss_buffer := None, ss_calls := ss_calls s + 1, ss_attempted := ss_attempted s @ [t],
            ss_streamed := (if f (ss_calls s) t then ss_streamed s @ [t] else ss_streamed s)\<rparr>
      | _ \<Rightarrow> s)"

definition node_text :: "response_part list \<Rightarrow> string option" where
  "node_text ps =
     (let ts = filter (\<lambda>t. t \<noteq> []) (text_contents ps)
      in if ts \<noteq> [] then Some (py_strip (join [newline, newline] ts)) else None)"

definition buffer_text :: "(nat \<Rightarrow> string \<Rightarrow> bool) option \<Rightarrow> response_part list \<Rightarrow> stream_state \<Rightarrow> stream_state" where
  "buffer_text notifier ps s =
     (if notifier \<noteq> None then (case node_text ps of Some t \<Rightarrow> s\<lparr>ss_buffer := Some t\<rparr> | None \<Rightarrow> s) else s)"

definition visit_node :: "(nat \<Rightarrow> string \<Rightarrow> bool) option \<Rightarrow> agent_node \<Rightarrow> stream_state \<Rightarrow> stream_state" where
  "visit_node notifier node s =
     (case node of ToolsNode ps \<Rightarrow> buffer_text notifier ps (flush_text notifier s) | OtherNode \<Rightarrow> s)"

definition tool_notices :: "agent_node list \<Rightarrow> (string \<times> string) list" where
  "tool_notices nodes = concat (map (\<lambda>n. case n of ToolsNode ps \<Rightarrow> map snd (call_parts ps) | OtherNode \<Rightarrow> []) nodes)"

record agent_result =
  ar_output :: string
  ar_messages :: "model_message list"
  ar_usage :: "(int option \<times> int option) option"

definition usage_dict :: "int option \<times> int option \<Rightarrow> dict" where
  "usage_dict u =
     [(''input_tokens'', PInt (case fst u of Some n \<Rightarrow> n | None \<Rightarrow> 0)), (''output_tokens'', PInt (case snd u of Some n \<Rightarrow> n | None \<Rightarrow> 0))]"

text \<open>What run_turn makes of the run; the message of a failed tool call names the tool.\<close>

definition tool_failure_text :: "model_message list \<Rightarrow> string" where
  "tool_failure_text ms =
     (case last_tool_call_name ms of
        Some n \<Rightarrow> if n \<noteq> [] then ''Tool call failed after retries exhausted (tool='' @ n @ '')'' else ''Tool call failed after retries exhausted''
      | None \<Rightarrow> ''Tool call failed after retries exhausted'')"

definition agent_run_turn ::
  "(nat \<Rightarrow> string \<Rightarrow> bool) option \<Rightarrow> llm_message list \<Rightarrow> agent_node list \<Rightarrow> loop_end \<Rightarrow> agent_result option
    \<Rightarrow> adapter_outcome \<times> stream_state" where
  "agent_run_turn notifier ms nodes fin result =
     (if ms = [] then (RunOk [] [] None, stream_start)
      else
        (let s = fold (visit_node notifier) nodes stream_start
         in case fin of
              LoopCancelled partial \<Rightarrow> (RunCancelled (inject_cancellation_results partial), s)
            | LoopUnexpected partial \<Rightarrow> (RunToolFailed (extract_recovered_text partial) partial, s)
            | LoopHttp n \<Rightarrow> (RunHttpError n, s)
            | LoopRaised x \<Rightarrow> (RunRaises x, s)
            | LoopDone \<Rightarrow>
                (let s1 = flush_text notifier s
                 in case result of
                      None \<Rightarrow> (RunOk [] [] None, s1)
                    | Some r \<Rightarrow>
                        (RunOk (final_response_text (case notifier of Some f \<Rightarrow> Some (ss_streamed s1) | None \<Rightarrow> None) (ar_output r) (ar_messages r))
                           (ar_messages r) (map_option usage_dict (ar_usage r)), s1))))"

section \<open>The system prompt and the cache of adapters\<close>

definition compose_system_prompt :: "string \<Rightarrow> string \<Rightarrow> capability_policy \<Rightarrow> capabilities \<Rightarrow> string option" where
  "compose_system_prompt base date p defs =
     map_option (\<lambda>enabled.
       join [newline, newline]
         ([base, ''Today'' @ [CHR 0x27] @ ''s date is '' @ date @ ''.''] @
          List.map_filter (\<lambda>c. case map_of defs c of
              Some d \<Rightarrow> if py_strip (cap_prompt d) \<noteq> [] then Some (py_strip (cap_prompt d)) else None
            | None \<Rightarrow> None) (sort enabled)))
       (active_capabilities p defs)"

text \<open>
  An adapter keeps the prompt and the policy it was built with; key is the set of enabled
  capabilities, and date the text of the day it is built on.
\<close>

record turn_adapter =
  ta_prompt :: string
  ta_policy :: capability_policy

type_synonym adapter_cache = "(string set \<times> turn_adapter) list"

definition cache_key :: "capability_policy \<Rightarrow> string set" where
  "cache_key p = set (cp_enabled p)"

definition build_adapter :: "string \<Rightarrow> capabilities \<Rightarrow> string \<Rightarrow> capability_policy \<Rightarrow> turn_adapter option" where
  "build_adapter base defs date p = map_option (\<lambda>s. \<lparr>ta_prompt = s, ta_policy = p\<rparr>) (compose_system_prompt base date p defs)"

definition get_or_build :: "string \<Rightarrow> capabilities \<Rightarrow> string \<Rightarrow> capability_policy \<Rightarrow> adapter_cache \<Rightarrow> turn_adapter option \<times> adapter_cache" where
  "get_or_build base defs date p cache =
     (case map_of cache (cache_key p) of
        Some a \<Rightarrow> (Some a, cache)
      | None \<Rightarrow>
          (case build_adapter base defs date p of
             None \<Rightarrow> (None, cache)
           | Some a \<Rightarrow> (Some a, AList.update (cache_key p) a cache)))"

definition initial_cache :: "string \<Rightarrow> capabilities \<Rightarrow> string \<Rightarrow> capability_policy \<Rightarrow> adapter_cache" where
  "initial_cache base defs date p = snd (get_or_build base defs date p [])"


section \<open>Calls and results in the history\<close>

definition well_roled :: "llm_message \<Rightarrow> bool" where
  "well_roled m \<longleftrightarrow>
     (lm_role m = RoleUser \<longrightarrow> use_ids (message_blocks [m]) = []) \<and> (lm_role m = RoleAssistant \<longrightarrow> answer_ids (message_blocks [m]) = [])"

lemma block_ids: "map fst (block_calls bs) = use_ids bs" "map fst (block_returns bs) = answer_ids bs"
  by (induction bs) (auto simp: block_calls_def block_returns_def use_ids_def answer_ids_def map_filter_Cons map_filter_Nil split: block.splits)

lemma history_ids_append:
  "history_call_ids (a @ b) = history_call_ids a @ history_call_ids b" "history_return_ids (a @ b) = history_return_ids a @ history_return_ids b"
  by (simp_all add: history_call_ids_def history_return_ids_def)

lemma history_ids_one [simp]:
  "history_call_ids [ToolReturns rs] = []" "history_call_ids [UserPrompt t] = []" "history_call_ids [Response x cs] = map fst cs" "history_call_ids [] = []"
  "history_return_ids [ToolReturns rs] = map fst rs" "history_return_ids [UserPrompt t] = []" "history_return_ids [Response x cs] = []"
  "history_return_ids [] = []"
  by (simp_all add: history_call_ids_def history_return_ids_def)

lemma user_history_ids: "history_call_ids (user_history m) = [] \<and> history_return_ids (user_history m) = answer_ids (message_blocks [m])"
proof (cases "case lm_blocks m of Some bs \<Rightarrow> bs | None \<Rightarrow> []")
  case Nil
  then have "user_history m = (if py_strip (lm_content m) \<noteq> [] then [UserPrompt (lm_content m)] else [])" "message_blocks [m] = []"
    by (auto simp: user_history_def message_blocks_def split: option.splits)
  then show ?thesis by simp
next
  case (Cons b bs)
  then have m: "lm_blocks m = Some (b # bs)" by (auto split: option.splits)
  then have "message_blocks [m] = b # bs" by (simp add: message_blocks_def)
  then show ?thesis using block_ids(2)[of "b # bs"] by (auto simp: user_history_def m Let_def)
qed

lemma assistant_history_ids: "history_call_ids (assistant_history m) = use_ids (message_blocks [m]) \<and> history_return_ids (assistant_history m) = []"
proof (cases "case lm_blocks m of Some bs \<Rightarrow> bs | None \<Rightarrow> []")
  case Nil
  then have "assistant_history m = (if py_strip (lm_content m) \<noteq> [] then [Response (Some (lm_content m)) []] else [])" "message_blocks [m] = []"
    by (auto simp: assistant_history_def message_blocks_def split: option.splits)
  then show ?thesis by simp
next
  case (Cons b bs)
  then have m: "lm_blocks m = Some (b # bs)" by (auto split: option.splits)
  then have "message_blocks [m] = b # bs" by (simp add: message_blocks_def)
  then show ?thesis using block_ids(1)[of "b # bs"] by (auto simp: assistant_history_def m Let_def)
qed

lemma message_blocks_Cons: "message_blocks (m # ms) = message_blocks [m] @ message_blocks ms"
  by (simp add: message_blocks_def)

lemma history_ids:
  assumes "\<forall>m \<in> set ms. well_roled m"
  shows "history_call_ids (llm_messages_to_history ms) = use_ids (message_blocks ms) \<and>
    history_return_ids (llm_messages_to_history ms) = answer_ids (message_blocks ms)"
  using assms
proof (induction ms)
  case Nil
  show ?case by (simp add: llm_messages_to_history_def history_call_ids_def history_return_ids_def)
next
  case (Cons m ms)
  have h: "llm_messages_to_history (m # ms) = (if lm_role m = RoleUser then user_history m else assistant_history m) @ llm_messages_to_history ms"
    by (simp add: llm_messages_to_history_def)
  have "well_roled m" using Cons.prems by simp
  then show ?case
    using Cons unfolding h message_blocks_Cons[of m ms]
    by (cases "lm_role m") (simp_all add: history_ids_append user_history_ids assistant_history_ids well_roled_def)
qed

lemma well_roled_parts:
  "m \<in> set (user_text_message c) \<Longrightarrow> well_roled m"
  "answer_ids bs = [] \<Longrightarrow> m \<in> set (blocks_message RoleAssistant bs) \<Longrightarrow> well_roled m"
  "use_ids bs = [] \<Longrightarrow> m \<in> set (blocks_message RoleUser bs) \<Longrightarrow> well_roled m"
  by (auto simp: user_text_message_def blocks_message_def well_roled_def message_blocks_def split: if_splits)

lemma well_roled_assistant: "answer_ids bs = [] \<Longrightarrow> m \<in> set (assistant_message bs) \<Longrightarrow> well_roled m"
  by (cases "\<exists>t. bs = [TextBlock t]")
     (auto simp: assistant_message_def well_roled_def message_blocks_def use_ids_def answer_ids_def blocks_message_def
       split: list.splits block.splits if_splits)

lemma records_to_messages_roled: "\<forall>m \<in> set (records_to_messages parse dumps rs). well_roled m"
proof (induction parse dumps rs rule: records_to_messages.induct)
  case (2 parse dumps r rs)
  then show ?case
    by (cases "sr_type r")
       (auto simp: tool_use_blocks_ids seen_results_ids
         dest!: well_roled_parts(1) well_roled_parts(2)[rotated] well_roled_parts(3)[rotated] well_roled_assistant[rotated])
qed simp

text \<open>
  C36: the history handed to the model is well paired for the provider.  Built from the replay
  of a session and converted to messages of the agent library, with the system prompt or
  without, it has a result for every tool call and a call for every result, provided a call
  and its result agree on being a memory proposal and identifiers are stored as strings.
\<close>

theorem history_calls_answered:
  assumes "\<forall>r \<in> set records. sr_type r \<in> {AssistantToolCall, ToolResult} \<longrightarrow> tool_id r = PStr (call_id r)"
    and "\<forall>r \<in> set records. \<forall>r' \<in> set records. call_id r = call_id r' \<and>
      sr_type r = AssistantToolCall \<and> sr_type r' = ToolResult \<longrightarrow> (tool_name r = memory_tool) = (tool_name r' = memory_tool)"
    and "ms = records_to_messages parse dumps (build_replay records budget)"
  shows "set (history_call_ids (run_history system (ms @ [current]))) = set (history_return_ids (run_history system (ms @ [current])))"
proof -
  have "set (use_ids (message_blocks ms)) = set (answer_ids (message_blocks ms))"
    using replay_messages_paired[OF assms(1,2)] assms(3) by simp
  moreover have "\<forall>m \<in> set ms. well_roled m" using records_to_messages_roled assms(3) by blast
  ultimately have "set (history_call_ids (llm_messages_to_history ms)) = set (history_return_ids (llm_messages_to_history ms))"
    using history_ids[of ms] by simp
  moreover have "history_call_ids (SystemPrompt system # h) = history_call_ids h" "history_return_ids (SystemPrompt system # h) = history_return_ids h" for h
    by (simp_all add: history_call_ids_def history_return_ids_def)
  ultimately show ?thesis by (auto simp: run_history_def Let_def)
qed

lemma history_calls_answered_witness:
  "set (history_call_ids (run_history ''sys'' (records_to_messages (\<lambda>_. None) (\<lambda>_. []) (build_replay demo_turns 2) @ [\<lparr>lm_role = RoleUser, lm_content = ''hi'', lm_blocks = None\<rparr>]))) =
   set (history_return_ids (run_history ''sys'' (records_to_messages (\<lambda>_. None) (\<lambda>_. []) (build_replay demo_turns 2) @ [\<lparr>lm_role = RoleUser, lm_content = ''hi'', lm_blocks = None\<rparr>])))"
  by (rule history_calls_answered[OF _ _ refl])
    (simp_all add: demo_turns_def demo_record_def tool_id_def call_id_def tool_name_def str_field_def)

section \<open>What was streamed\<close>

definition node_texts :: "agent_node list \<Rightarrow> string list" where
  "node_texts nodes = List.map_filter (\<lambda>n. case n of ToolsNode ps \<Rightarrow> node_text ps | OtherNode \<Rightarrow> None) nodes"

definition buffered :: "stream_state \<Rightarrow> string list" where
  "buffered s = (case ss_buffer s of Some t \<Rightarrow> [t] | None \<Rightarrow> [])"

text \<open>The texts that count as streamed: those whose call of the notifier returned.\<close>

definition delivered :: "(nat \<Rightarrow> string \<Rightarrow> bool) \<Rightarrow> string list \<Rightarrow> string list" where
  "delivered f ts = map snd (filter (\<lambda>(n, t). f n t) (enumerate 0 ts))"

definition stream_ok :: "(nat \<Rightarrow> string \<Rightarrow> bool) \<Rightarrow> stream_state \<Rightarrow> bool" where
  "stream_ok f s \<longleftrightarrow> ss_calls s = length (ss_attempted s) \<and> ss_streamed s = delivered f (ss_attempted s)"

lemma delivered_snoc: "delivered f (ts @ [t]) = delivered f ts @ (if f (length ts) t then [t] else [])"
  by (simp add: delivered_def enumerate_append_eq)

lemma flush_text_facts:
  assumes "stream_ok f s"
  shows "stream_ok f (flush_text (Some f) s)" and "ss_buffer (flush_text (Some f) s) = None"
    and "ss_attempted (flush_text (Some f) s) = ss_attempted s @ buffered s"
  using assms by (auto simp: flush_text_def stream_ok_def delivered_snoc buffered_def split: option.splits)

lemma visit_nodes:
  assumes "stream_ok f s"
  shows "stream_ok f (fold (visit_node (Some f)) nodes s) \<and>
    ss_attempted (fold (visit_node (Some f)) nodes s) @ buffered (fold (visit_node (Some f)) nodes s) = ss_attempted s @ buffered s @ node_texts nodes"
  using assms
proof (induction nodes arbitrary: s)
  case Nil
  then show ?case by (simp add: node_texts_def map_filter_Nil)
next
  case (Cons n nodes)
  have v: "stream_ok f (visit_node (Some f) n s)"
    "ss_attempted (visit_node (Some f) n s) @ buffered (visit_node (Some f) n s) = ss_attempted s @ buffered s @ node_texts [n]"
    using flush_text_facts[OF Cons.prems] Cons.prems
    by (auto simp: visit_node_def buffer_text_def node_texts_def map_filter_Cons map_filter_Nil stream_ok_def buffered_def
        split: agent_node.splits option.splits)
  have "node_texts (n # nodes) = node_texts [n] @ node_texts nodes"
    by (simp add: node_texts_def map_filter_Cons map_filter_Nil split: option.split)
  then show ?case using Cons.IH[OF v(1)] v(2) by simp
qed

text \<open>
  C23: streaming shows every text of the model once and in order.  A run that ends normally
  has handed the texts of all its responses to the notifier, one call each, in order; a run
  that is cancelled or fails has handed over all but the last.  The reply of the run is then
  the output unless a question was asked or a text equal to the output, up to white space at
  the ends, counts as streamed; so if every call of the notifier returns, an output that
  repeats a streamed text is not sent again, whether or not the chat received that text.
\<close>

theorem streamed_texts_once:
  assumes "agent_run_turn (Some f) ms nodes fin (Some r) = (out, s)" and "ms \<noteq> []"
  shows "ss_attempted s @ buffered s = node_texts nodes \<and> length (buffered s) \<le> 1 \<and>
    (fin = LoopDone \<longrightarrow> ss_attempted s = node_texts nodes \<and>
       (\<exists>text. out = RunOk text (ar_messages r) (map_option usage_dict (ar_usage r)) \<and>
          (\<not> ask_question_asked (ar_messages r) \<longrightarrow>
             text = (if ar_output r \<noteq> [] \<and> py_strip (ar_output r) \<in> py_strip ` set (delivered f (node_texts nodes)) then [] else ar_output r)) \<and>
          ((\<forall>n t. f n t) \<and> py_strip (ar_output r) \<in> py_strip ` set (node_texts nodes) \<longrightarrow> text = [])))"
proof -
  let ?s = "fold (visit_node (Some f)) nodes stream_start"
  have v: "stream_ok f ?s" "ss_attempted ?s @ buffered ?s = node_texts nodes"
    using visit_nodes[of f stream_start nodes] by (simp_all add: stream_start_def stream_ok_def delivered_def buffered_def)
  note fl = flush_text_facts[OF v(1)]
  have one: "length (buffered x) \<le> 1" for x by (simp add: buffered_def split: option.split)
  show ?thesis
  proof (cases "fin = LoopDone")
    case True
    then have s: "s = flush_text (Some f) ?s" and out: "out = RunOk (final_response_text (Some (ss_streamed s)) (ar_output r) (ar_messages r))
        (ar_messages r) (map_option usage_dict (ar_usage r))"
      using assms by (auto simp: agent_run_turn_def Let_def)
    have a: "ss_attempted s = node_texts nodes" "buffered s = []" "ss_streamed s = delivered f (node_texts nodes)"
      using fl v(2) by (simp_all add: s buffered_def stream_ok_def)
    have all: "delivered f (node_texts nodes) = node_texts nodes" if "\<forall>n t. f n t" using that by (simp add: delivered_def)
    show ?thesis using a all one
      by (auto simp: out final_response_text_def Let_def)
  next
    case False
    then have "s = ?s" using assms by (auto simp: agent_run_turn_def Let_def split: loop_end.splits)
    then show ?thesis using v(2) one False by simp
  qed
qed

definition demo_agent_nodes :: "agent_node list" where
  "demo_agent_nodes = [OtherNode, ToolsNode [TextPart ''Let me look.'', ToolCallPart ''1'' ''find'' ''{}''], ToolsNode [TextPart ''Done.'']]"

lemma streamed_texts_once_witness:
  "ss_attempted (snd (agent_run_turn (Some (\<lambda>n t. True)) [\<lparr>lm_role = RoleUser, lm_content = ''hi'', lm_blocks = None\<rparr>] demo_agent_nodes LoopDone
     (Some \<lparr>ar_output = ''Done.'', ar_messages = [], ar_usage = None\<rparr>))) = [''Let me look.'', ''Done.'']"
proof -
  have "node_texts demo_agent_nodes = [''Let me look.'', ''Done.'']" by code_simp
  then show ?thesis
    using streamed_texts_once[OF prod.collapse[symmetric], of "[\<lparr>lm_role = RoleUser, lm_content = ''hi'', lm_blocks = None\<rparr>]"
        "\<lambda>n t. True" demo_agent_nodes LoopDone "\<lparr>ar_output = ''Done.'', ar_messages = [], ar_usage = None\<rparr>"] by simp
qed


section \<open>The cache keeps the day\<close>

text \<open>The turns of a process: on each day some configurations are asked for.\<close>

fun cache_run :: "string \<Rightarrow> capabilities \<Rightarrow> (string \<times> capability_policy) list \<Rightarrow> adapter_cache \<Rightarrow> adapter_cache" where
  "cache_run base defs [] cache = cache"
| "cache_run base defs ((date, p) # ps) cache = cache_run base defs ps (snd (get_or_build base defs date p cache))"

lemma cache_kept: "map_of cache k = Some a \<Longrightarrow> map_of (cache_run base defs ps cache) k = Some a"
proof (induction ps arbitrary: cache)
  case (Cons dp ps)
  obtain date p where dp: "dp = (date, p)" by (cases dp)
  have "map_of (snd (get_or_build base defs date p cache)) k = Some a"
    using Cons.prems by (auto simp: get_or_build_def update_conv' split: option.splits)
  then show ?case by (simp add: dp Cons.IH)
qed simp

text \<open>
  An adapter is built once.  The adapter a process builds at its start for the configured
  capabilities is the one every later turn with the same enabled capabilities runs on, whatever
  turns come in between; so the date in its system prompt is that of the first day, and
  the capabilities it denies are those denied then.
\<close>

theorem adapter_built_once:
  assumes "compose_system_prompt base day p defs = Some prompt" and "set (cp_enabled q) = set (cp_enabled p)"
  shows "fst (get_or_build base defs today q (cache_run base defs ps (initial_cache base defs day p))) = Some \<lparr>ta_prompt = prompt, ta_policy = p\<rparr>"
proof -
  have "map_of (initial_cache base defs day p) (cache_key p) = Some \<lparr>ta_prompt = prompt, ta_policy = p\<rparr>"
    using assms(1) by (simp add: initial_cache_def get_or_build_def build_adapter_def)
  then have "map_of (cache_run base defs ps (initial_cache base defs day p)) (cache_key q) = Some \<lparr>ta_prompt = prompt, ta_policy = p\<rparr>"
    using cache_kept assms(2) by (simp add: cache_key_def)
  then show ?thesis by (simp add: get_or_build_def)
qed

lemma adapter_built_once_witness:
  "fst (get_or_build ''You help.'' [] ''May 02, 2026'' \<lparr>cp_enabled = [], cp_denied = []\<rparr>
      (cache_run ''You help.'' [] [] (initial_cache ''You help.'' [] ''May 01, 2026'' \<lparr>cp_enabled = [], cp_denied = []\<rparr>))) =
   Some \<lparr>ta_prompt = ''You help.'' @ [newline, newline] @ ''Today'' @ [CHR 0x27] @ ''s date is May 01, 2026.'',
     ta_policy = \<lparr>cp_enabled = [], cp_denied = []\<rparr>\<rparr>"
proof -
  have "compose_system_prompt ''You help.'' ''May 01, 2026'' \<lparr>cp_enabled = [], cp_denied = []\<rparr> [] =
    Some (''You help.'' @ [newline, newline] @ ''Today'' @ [CHR 0x27] @ ''s date is May 01, 2026.'')"
    by code_simp
  then show ?thesis using adapter_built_once[of "''You help.''" "''May 01, 2026''" "\<lparr>cp_enabled = [], cp_denied = []\<rparr>" "[]" _
      "\<lparr>cp_enabled = [], cp_denied = []\<rparr>" "''May 02, 2026''" "[]"] by simp
qed

end
