(* ===== verification/Delegation_Backends.thy ===== *)
theory Delegation_Backends
  imports Delegation Turn_Records
begin

text \<open>
  The backends that run a delegated task: subagents/backends/claude_code.py,
  claude_code_streaming.py and log_formatting.py, with the activity log of
  store/filesystem/task_log.py.  The subprocess and the agent SDK are parameters: the lines they
  print, the messages they send and how the run ends.  casefold, str, json and the
  punctuation beyond Latin-1 are parameters.
\<close>

record delegation_run =
  dg_task :: string
  dg_objective :: string
  dg_model :: string
  dg_turns :: int
  dg_params :: dict
  dg_log :: "string option"

record delegation_result =
  dr_ok :: bool
  dr_output :: string
  dr_usage :: dict
  dr_error :: "string option"

definition failed_run :: "string \<Rightarrow> dict \<Rightarrow> delegation_result" where
  "failed_run m usage = \<lparr>dr_ok = False, dr_output = [], dr_usage = usage, dr_error = Some m\<rparr>"

definition completed_run :: "string \<Rightarrow> dict \<Rightarrow> delegation_result" where
  "completed_run out usage = \<lparr>dr_ok = True, dr_output = out, dr_usage = usage, dr_error = None\<rparr>"

section \<open>The command line of the CLI backend\<close>

definition param_text :: "(pyval \<Rightarrow> string) \<Rightarrow> dict \<Rightarrow> string \<Rightarrow> string" where
  "param_text pstr d k = py_strip (case dget_or d k (PStr []) of PStr s \<Rightarrow> s | v \<Rightarrow> pstr v)"

definition text_items :: "dict \<Rightarrow> string \<Rightarrow> string list" where
  "text_items d k =
     (case dget d k of
        PList xs \<Rightarrow> filter (\<lambda>s. py_strip s \<noteq> []) (List.map_filter as_str xs)
      | _ \<Rightarrow> [])"

definition build_prompt :: "delegation_run \<Rightarrow> string" where
  "build_prompt r = ''Task objective:'' @ newline # dg_objective r"

definition build_command :: "(pyval \<Rightarrow> string) \<Rightarrow> (pyval \<Rightarrow> string) \<Rightarrow> string \<Rightarrow> dict \<Rightarrow> delegation_run \<Rightarrow> string list" where
  "build_command pstr dumps binary servers r =
     [binary, ''-p'', build_prompt r, ''--model'', dg_model r, ''--max-turns'', show_int (dg_turns r),
      ''--output-format'', ''stream-json'', ''--verbose''] @
     (if servers \<noteq> [] then [''--mcp-config'', dumps (PDict [(''mcpServers'', PDict servers)])] else []) @
     (let effort = param_text pstr (dg_params r) ''effort'' in if effort \<noteq> [] then [''--effort'', effort] else []) @
     (let mode = param_text pstr (dg_params r) ''permission_mode'' in if mode \<noteq> [] then [''--permission-mode'', mode] else []) @
     concat (map (\<lambda>d. [''--add-dir'', py_strip d]) (text_items (dg_params r) ''add_dirs'')) @
     concat (map (\<lambda>d. [''--plugin-dir'', py_strip d]) (text_items (dg_params r) ''plugin_dirs''))"

section \<open>The result of the CLI backend\<close>

datatype process_end =
    Exited int
  | TimedOut
  | BinaryMissing
  | ExecFailed string
  | RunCancelledByTask

definition stdout_lines :: "string list \<Rightarrow> string list" where
  "stdout_lines raw = filter (\<lambda>l. l \<noteq> []) (map py_strip raw)"

definition result_line :: "(string \<Rightarrow> pyval option) \<Rightarrow> string list \<Rightarrow> dict option" where
  "result_line parse lines =
     fold (\<lambda>l acc. case parse l of
         Some (PDict d) \<Rightarrow> if dget d ''type'' = PStr ''result'' then Some d else acc
       | _ \<Rightarrow> acc) lines None"

text \<open>A usage that is neither empty nor an object does not validate.\<close>

definition usage_field :: "pyval \<Rightarrow> (exn + dict)" where
  "usage_field v =
     (case v of PDict d \<Rightarrow> Inr d | _ \<Rightarrow> if truthy v then Inl (ValueError ''usage'') else Inr [])"

definition exit_error :: "(pyval \<Rightarrow> string) \<Rightarrow> dict option \<Rightarrow> string \<Rightarrow> int \<Rightarrow> string" where
  "exit_error pstr line stderr rc =
     (let v = (case line of Some d \<Rightarrow> dget d ''result'' | None \<Rightarrow> PNone);
          s = (if truthy v then pstr v else [])
      in if s \<noteq> [] then s else if stderr \<noteq> [] then stderr else ''claude exited with code '' @ show_int rc)"

definition classify_exit ::
  "(pyval \<Rightarrow> string) \<Rightarrow> (string \<Rightarrow> pyval option) \<Rightarrow> string list \<Rightarrow> string \<Rightarrow> int \<Rightarrow> (exn + delegation_result)" where
  "classify_exit pstr parse lines stderr rc =
     (if rc \<noteq> 0 then Inr (failed_run (exit_error pstr (result_line parse lines) stderr rc) [])
      else case result_line parse lines of
             None \<Rightarrow>
               (let fallback = py_strip (join [newline] lines)
                in if fallback \<noteq> [] then Inr (completed_run fallback [])
                   else Inr (failed_run ''claude run ended without a result line (--output-format stream-json)'' []))
           | Some d \<Rightarrow>
               (case usage_field (dget d ''usage'') of
                  Inl x \<Rightarrow> Inl x
                | Inr usage \<Rightarrow>
                    (let v = dget d ''result''
                     in if truthy (dget d ''is_error'')
                        then Inr (failed_run (if truthy v then pstr v else ''claude reported an error'') usage)
                        else Inr (completed_run (if v \<noteq> PNone then pstr v else []) usage))))"

text \<open>None is the cancellation, which goes on to the coordinator.\<close>

definition claude_code_execute ::
  "(pyval \<Rightarrow> string) \<Rightarrow> (string \<Rightarrow> pyval option) \<Rightarrow> string list \<Rightarrow> string \<Rightarrow> process_end \<Rightarrow> (exn + delegation_result) option" where
  "claude_code_execute pstr parse stdout stderr fin =
     (case fin of
        TimedOut \<Rightarrow> Some (Inr (failed_run ''claude run timed out'' []))
      | RunCancelledByTask \<Rightarrow> None
      | BinaryMissing \<Rightarrow> Some (Inr (failed_run ''claude CLI binary not found'' []))
      | ExecFailed m \<Rightarrow> Some (Inr (failed_run (''claude execution failed: '' @ m) []))
      | Exited rc \<Rightarrow> Some (classify_exit pstr parse (stdout_lines stdout) (py_strip stderr) rc))"

section \<open>Questions of a streaming run\<close>

text \<open>
  str.isdigit holds for superscript digits as well, which int rejects; of Latin-1 these are
  the superscripts one, two and three.
\<close>

definition py_isdigit :: "string \<Rightarrow> bool" where
  "py_isdigit s = (s \<noteq> [] \<and> list_all (\<lambda>c. ascii_digit c \<or> code c \<in> {178, 179, 185}) s)"

definition matching_label :: "(string \<Rightarrow> string) \<Rightarrow> string \<Rightarrow> string list \<Rightarrow> string" where
  "matching_label casefold reply labels =
     (case find (\<lambda>l. l \<noteq> [] \<and> casefold reply = casefold l) labels of Some l \<Rightarrow> l | None \<Rightarrow> reply)"

definition normalize_answer :: "(string \<Rightarrow> string) \<Rightarrow> string \<Rightarrow> string list \<Rightarrow> (exn + string)" where
  "normalize_answer casefold reply labels =
     (if py_isdigit reply
      then (case py_int 10 reply of
              None \<Rightarrow> Inl (ValueError ''invalid literal for int()'')
            | Some n \<Rightarrow> if 1 \<le> n \<and> n \<le> int (length labels) then Inr (labels ! nat (n - 1))
                        else Inr (matching_label casefold reply labels))
      else Inr (matching_label casefold reply labels))"

datatype permission = Allow dict | AllowUnchanged | Deny string

definition no_channel_text :: string where
  "no_channel_text =
     ''No channel to ask the user is available. Do not ask again: choose the most reasonable option yourself and state the assumption.''"

definition option_dicts :: "pyval \<Rightarrow> dict list" where
  "option_dicts v = (case v of PList xs \<Rightarrow> List.map_filter as_dict xs | _ \<Rightarrow> [])"

definition label_of :: "(pyval \<Rightarrow> string) \<Rightarrow> dict \<Rightarrow> string" where
  "label_of pstr opt = pstr (dget_or opt ''label'' (PStr []))"

definition question_text :: "(pyval \<Rightarrow> string) \<Rightarrow> (string \<Rightarrow> string \<Rightarrow> string) \<Rightarrow> string \<Rightarrow> dict list \<Rightarrow> string" where
  "question_text pstr note question opts =
     (let notes = map (\<lambda>d. note (label_of pstr d) (pstr (dget d ''description''))) (filter (\<lambda>d. truthy (dget d ''description'')) opts)
      in if notes \<noteq> [] then join [newline] (question # notes) else question)"

text \<open>The relay gets the number of the question, its text and the labels; it may raise.\<close>

fun ask_items ::
  "(pyval \<Rightarrow> string) \<Rightarrow> (string \<Rightarrow> string) \<Rightarrow> (string \<Rightarrow> string \<Rightarrow> string) \<Rightarrow> (nat \<Rightarrow> string \<Rightarrow> string list \<Rightarrow> (exn + string))
    \<Rightarrow> nat \<Rightarrow> pyval list \<Rightarrow> (string \<times> string) list \<Rightarrow> (exn + (string \<times> string) list)" where
  "ask_items pstr casefold note relay n [] answers = Inr answers"
| "ask_items pstr casefold note relay n (q # qs) answers =
     (case q of
        PDict d \<Rightarrow>
          (let question = pstr (dget_or d ''question'' (PStr [])); opts = option_dicts (dget d ''options''); labels = map (label_of pstr) opts
           in case relay n (question_text pstr note question opts) labels of
                Inl x \<Rightarrow> Inl x
              | Inr reply \<Rightarrow>
                  (case normalize_answer casefold (py_strip reply) labels of
                     Inl x \<Rightarrow> Inl x
                   | Inr a \<Rightarrow> ask_items pstr casefold note relay (n + 1) qs (AList.update question a answers)))
      | _ \<Rightarrow> ask_items pstr casefold note relay n qs answers)"

definition answer_ask_user_question ::
  "(pyval \<Rightarrow> string) \<Rightarrow> (string \<Rightarrow> string) \<Rightarrow> (string \<Rightarrow> string \<Rightarrow> string) \<Rightarrow> (nat \<Rightarrow> string \<Rightarrow> string list \<Rightarrow> (exn + string)) option
    \<Rightarrow> dict \<Rightarrow> (exn + permission)" where
  "answer_ask_user_question pstr casefold note relay input =
     (case (relay, dget input ''questions'') of
        (Some f, PList (q # qs)) \<Rightarrow>
          (case ask_items pstr casefold note f 0 (q # qs) [] of
             Inl x \<Rightarrow> Inl x
           | Inr answers \<Rightarrow> Inr (Allow (AList.update ''answers'' (PDict (map (map_prod id PStr) answers)) input)))
      | _ \<Rightarrow> Inr (Deny no_channel_text))"

definition can_use_tool ::
  "(pyval \<Rightarrow> string) \<Rightarrow> (string \<Rightarrow> string) \<Rightarrow> (string \<Rightarrow> string \<Rightarrow> string) \<Rightarrow> (nat \<Rightarrow> string \<Rightarrow> string list \<Rightarrow> (exn + string)) option
    \<Rightarrow> string \<Rightarrow> dict \<Rightarrow> (exn + permission)" where
  "can_use_tool pstr casefold note relay tool input =
     (if tool = ''AskUserQuestion'' then answer_ask_user_question pstr casefold note relay input else Inr AllowUnchanged)"

section \<open>A streaming run\<close>

datatype sdk_message =
    TaskStarted string
  | TaskNotification string
  | ResultMessage bool "string option" "dict option"
  | OtherMessage

record stream_run =
  sr_result :: "(bool \<times> string option \<times> dict option) option"
  sr_text :: string
  sr_pending :: "string list"
  sr_finished :: bool

definition stream_begin :: stream_run where
  "stream_begin = \<lparr>sr_result = None, sr_text = [], sr_pending = [], sr_finished = False\<rparr>"

definition stream_message :: "sdk_message \<Rightarrow> stream_run \<Rightarrow> stream_run" where
  "stream_message m s =
     (case m of
        TaskStarted t \<Rightarrow> s\<lparr>sr_pending := List.insert t (sr_pending s)\<rparr>
      | TaskNotification t \<Rightarrow> s\<lparr>sr_pending := removeAll t (sr_pending s)\<rparr>
      | ResultMessage err txt usage \<Rightarrow>
          s\<lparr>sr_result := Some (err, txt, usage), sr_text := (case txt of Some t \<Rightarrow> t | None \<Rightarrow> []),
            sr_finished := (if err \<or> sr_pending s = [] then True else sr_finished s)\<rparr>
      | OtherMessage \<Rightarrow> s)"

datatype stream_end = StreamEnded | StreamTimedOut | StreamFailed string | StreamCancelled

definition pending_text :: "nat \<Rightarrow> string \<Rightarrow> string" where
  "pending_text n output =
     ''Sub-agent finished while '' @ show_int (int n) @
     '' background task(s) were still running; its last message was interim, not a final answer: '' @ take 500 output"

definition streaming_result :: "stream_run \<Rightarrow> delegation_result" where
  "streaming_result s =
     (case sr_result s of
        None \<Rightarrow> failed_run ''Sub-agent stream ended without a ResultMessage (max_turns exhaustion or SDK error)'' []
      | Some (err, txt, usage) \<Rightarrow>
          (let u = (case usage of Some d \<Rightarrow> d | None \<Rightarrow> [])
           in if err then failed_run (case txt of Some t \<Rightarrow> if t \<noteq> [] then t else ''claude-agent-sdk returned an error''
                                      | None \<Rightarrow> ''claude-agent-sdk returned an error'') u
              else if sr_pending s \<noteq> [] then failed_run (pending_text (length (sr_pending s)) (py_strip (sr_text s))) u
              else completed_run (py_strip (sr_text s)) u))"

definition streaming_execute :: "bool \<Rightarrow> sdk_message list \<Rightarrow> stream_end \<Rightarrow> delegation_result option" where
  "streaming_execute available ms fin =
     (if \<not> available then Some (failed_run ''claude-agent-sdk is not installed'' [])
      else case fin of
             StreamTimedOut \<Rightarrow> Some (failed_run ''claude-agent-sdk run timed out'' [])
           | StreamCancelled \<Rightarrow> None
           | StreamFailed m \<Rightarrow> Some (failed_run (''claude-agent-sdk execution failed: '' @ m) [])
           | StreamEnded \<Rightarrow> Some (streaming_result (fold stream_message ms stream_begin)))"


section \<open>The options of a streaming run\<close>

record stream_options =
  so_model :: string
  so_turns :: int
  so_cwd :: pyval
  so_effort :: "string option"
  so_extra :: "(string \<times> string) list"
  so_mode :: string
  so_dirs :: "string list"
  so_plugins :: "string list"

definition stream_effort :: "string \<Rightarrow> string option" where
  "stream_effort e = (if e \<in> {''low'', ''medium'', ''high'', ''max''} then Some e else None)"

definition stream_mode :: "string \<Rightarrow> string" where
  "stream_mode m = (if m \<in> {''default'', ''acceptEdits'', ''plan'', ''bypassPermissions''} then m else ''bypassPermissions'')"

definition build_options :: "(pyval \<Rightarrow> string) \<Rightarrow> delegation_run \<Rightarrow> stream_options" where
  "build_options pstr r =
     (let p = dg_params r; effort = param_text pstr p ''effort''
      in \<lparr>so_model = dg_model r, so_turns = dg_turns r,
          so_cwd = (if truthy (dget p ''directory'') then dget p ''directory'' else PNone),
          so_effort = stream_effort effort, so_extra = (if effort = ''xhigh'' then [(''effort'', ''xhigh'')] else []),
          so_mode = stream_mode (param_text pstr p ''permission_mode''),
          so_dirs = text_items p ''add_dirs'', so_plugins = text_items p ''plugin_dirs''\<rparr>)"

text \<open>The CLI backend passes a mode as it is, this one falls back to the mode without prompts.\<close>

lemma unknown_mode_bypasses:
  "stream_mode ''dontAsk'' = ''bypassPermissions''" "stream_mode [] = ''bypassPermissions''"
  by (simp_all add: stream_mode_def)

section \<open>The activity log\<close>

datatype log_block =
    LogText string
  | LogToolUse string pyval
  | LogThinking string
  | LogToolResult pyval bool
  | LogOther

datatype log_message =
    LogAssistant "log_block list"
  | LogUserText string
  | LogUserBlocks "log_block list"
  | LogStarted string string
  | LogNotification string string string
  | LogSystem string
  | LogResult bool int int string string
  | LogUnknown

definition log_line_max :: nat where "log_line_max = 2000"

definition flat_text :: "string \<Rightarrow> string" where
  "flat_text t = concat (map (\<lambda>c. if c = newline then [CHR 0x5C, CHR ''n''] else [c]) t)"

definition truncate_for_log :: "string \<Rightarrow> string" where
  "truncate_for_log t =
     (let flat = flat_text t
      in if length flat > log_line_max
         then take log_line_max flat @ ''... ['' @ show_int (int (length flat - log_line_max)) @ '' more chars truncated]''
         else flat)"

fun assistant_line :: "(pyval \<Rightarrow> string) \<Rightarrow> log_block \<Rightarrow> string list" where
  "assistant_line dumps (LogText t) = [''[assistant] '' @ truncate_for_log t]"
| "assistant_line dumps (LogToolUse n a) = [''[tool_use] '' @ n @ ''('' @ truncate_for_log (dumps a) @ '')'']"
| "assistant_line dumps (LogThinking t) = [''[thinking] '' @ truncate_for_log t]"
| "assistant_line dumps _ = []"

definition result_text :: "(pyval \<Rightarrow> string) \<Rightarrow> pyval \<Rightarrow> string" where
  "result_text dumps v = (case v of PStr s \<Rightarrow> s | _ \<Rightarrow> dumps v)"

fun user_line :: "(pyval \<Rightarrow> string) \<Rightarrow> log_block \<Rightarrow> string list" where
  "user_line dumps (LogToolResult v err) =
     [''['' @ (if err then ''tool_result_error'' else ''tool_result'') @ ''] '' @ truncate_for_log (result_text dumps v)]"
| "user_line dumps (LogText t) = [''[user] '' @ truncate_for_log t]"
| "user_line dumps _ = []"

fun format_log_lines :: "(pyval \<Rightarrow> string) \<Rightarrow> log_message \<Rightarrow> string list" where
  "format_log_lines dumps (LogAssistant bs) = concat (map (assistant_line dumps) bs)"
| "format_log_lines dumps (LogUserText t) = [''[user] '' @ truncate_for_log t]"
| "format_log_lines dumps (LogUserBlocks bs) = concat (map (user_line dumps) bs)"
| "format_log_lines dumps (LogStarted i d) = [''[system] task_started '' @ i @ '' '' @ truncate_for_log d]"
| "format_log_lines dumps (LogNotification i st d) =
     [''[system] task_notification '' @ i @ '' status='' @ st @ '' '' @ truncate_for_log d]"
| "format_log_lines dumps (LogSystem st) = [''[system] '' @ st]"
| "format_log_lines dumps (LogResult err turns ms st stop) =
     [''[result] '' @ (if err then ''error'' else ''ok'') @ '' ('' @ show_int turns @ '' turns, '' @ show_int ms @ ''ms, subtype='' @ st
        @ '', stop_reason='' @ stop @ '')'']"
| "format_log_lines dumps LogUnknown = []"

section \<open>Every entry of the log is one line\<close>

lemma newline_flat [simp]: "newline \<notin> set (flat_text t)"
proof -
  have "newline \<noteq> CHR 0x5C" "newline \<noteq> CHR ''n''" by simp_all
  then show ?thesis by (auto simp: flat_text_def)
qed

lemma newline_digits: "newline \<notin> set (show_base 10 n)"
proof (induction "10 :: nat" n rule: show_base.induct)
  case (1 n)
  have "newline \<noteq> digit_char d" if "d < 10" for d
  proof
    assume "newline = digit_char d"
    then have "code newline = 48 + d" using code_digit_char[of d] that by simp
    then show False by (simp add: code_def)
  qed
  then show ?case using 1 by (subst show_base.simps) auto
qed

lemma newline_show_int: "newline \<notin> set (show_int i)"
  by (auto simp: show_int_def newline_digits)

lemma newline_truncated [simp]: "newline \<notin> set (truncate_for_log t)"
proof -
  have "newline \<notin> set ''... ['' \<and> newline \<notin> set '' more chars truncated]''" by simp
  moreover have "newline \<notin> set (take n (flat_text t))" for n using newline_flat[of t] by (meson in_set_takeD)
  ultimately show ?thesis using newline_show_int by (simp add: truncate_for_log_def Let_def)
qed



lemma every_log_line_is_one_line:
  assumes "l \<in> set (format_log_lines dumps m)" and "newline \<notin> set name"
    and "\<And>bs n a. m = LogAssistant bs \<Longrightarrow> LogToolUse n a \<in> set bs \<Longrightarrow> newline \<notin> set n"
    and "\<And>i d. m = LogStarted i d \<Longrightarrow> newline \<notin> set i"
    and "\<And>i st d. m = LogNotification i st d \<Longrightarrow> newline \<notin> set i \<and> newline \<notin> set st"
    and "\<And>st. m = LogSystem st \<Longrightarrow> newline \<notin> set st"
    and "\<And>e t u st stop. m = LogResult e t u st stop \<Longrightarrow> newline \<notin> set st \<and> newline \<notin> set stop"
  shows "newline \<notin> set l"
proof (cases m)
  case (LogAssistant bs)
  then obtain b where b: "b \<in> set bs" "l \<in> set (assistant_line dumps b)" using assms(1) by auto
  with LogAssistant assms(3)[of bs] show ?thesis by (cases b) auto
next
  case (LogUserBlocks bs)
  then obtain b where l: "l \<in> set (user_line dumps b)" using assms(1) by auto
  show ?thesis by (cases b) (use l in \<open>auto split: if_splits\<close>)
qed (use assms newline_show_int in \<open>auto split: if_splits\<close>)

section \<open>When a streaming run is complete\<close>

text \<open>A background task that was started and not reported as finished since.\<close>

definition still_running :: "string \<Rightarrow> sdk_message list \<Rightarrow> bool" where
  "still_running t ms \<longleftrightarrow> (\<exists>xs ys. ms = xs @ TaskStarted t # ys \<and> TaskNotification t \<notin> set ys)"

lemma still_running_snoc:
  "still_running t (ms @ [m]) \<longleftrightarrow> m = TaskStarted t \<or> (still_running t ms \<and> m \<noteq> TaskNotification t)"
proof
  assume "still_running t (ms @ [m])"
  then obtain xs ys where x: "ms @ [m] = xs @ TaskStarted t # ys" "TaskNotification t \<notin> set ys" by (auto simp: still_running_def)
  show "m = TaskStarted t \<or> (still_running t ms \<and> m \<noteq> TaskNotification t)"
  proof (cases ys rule: rev_cases)
    case (snoc zs z)
    then show ?thesis using x by (auto simp: still_running_def)
  qed (use x in simp)
next
  assume "m = TaskStarted t \<or> (still_running t ms \<and> m \<noteq> TaskNotification t)"
  then show "still_running t (ms @ [m])"
  proof
    assume "still_running t ms \<and> m \<noteq> TaskNotification t"
    then obtain xs ys where "ms = xs @ TaskStarted t # ys" "TaskNotification t \<notin> set ys" "m \<noteq> TaskNotification t"
      by (auto simp: still_running_def)
    then show ?thesis unfolding still_running_def by (intro exI[of _ xs] exI[of _ "ys @ [m]"]) auto
  qed (auto simp: still_running_def intro: exI[of _ ms] exI[of _ "[]"])
qed

definition last_result :: "sdk_message list \<Rightarrow> (bool \<times> string option \<times> dict option) option" where
  "last_result ms = fold (\<lambda>m acc. case m of ResultMessage e t u \<Rightarrow> Some (e, t, u) | _ \<Rightarrow> acc) ms None"

text \<open>The run may end: an error, or an answer while nothing runs in the background.\<close>

definition answered_idle :: "sdk_message list \<Rightarrow> bool" where
  "answered_idle ms \<longleftrightarrow> (\<exists>xs e t u ys. ms = xs @ ResultMessage e t u # ys \<and> (e \<or> (\<forall>b. \<not> still_running b xs)))"

lemma answered_idle_snoc:
  "answered_idle (ms @ [m]) \<longleftrightarrow> answered_idle ms \<or> (\<exists>e t u. m = ResultMessage e t u \<and> (e \<or> (\<forall>b. \<not> still_running b ms)))"
proof
  assume "answered_idle (ms @ [m])"
  then obtain xs e t u ys where x: "ms @ [m] = xs @ ResultMessage e t u # ys" "e \<or> (\<forall>b. \<not> still_running b xs)"
    by (auto simp: answered_idle_def)
  show "answered_idle ms \<or> (\<exists>e t u. m = ResultMessage e t u \<and> (e \<or> (\<forall>b. \<not> still_running b ms)))"
  proof (cases ys rule: rev_cases)
    case (snoc zs z)
    then have "ms = xs @ ResultMessage e t u # zs" using x(1) by simp
    then show ?thesis using x(2) unfolding answered_idle_def by blast
  qed (use x in auto)
next
  assume "answered_idle ms \<or> (\<exists>e t u. m = ResultMessage e t u \<and> (e \<or> (\<forall>b. \<not> still_running b ms)))"
  then show "answered_idle (ms @ [m])"
  proof
    assume "answered_idle ms"
    then obtain xs e t u ys where "ms = xs @ ResultMessage e t u # ys" "e \<or> (\<forall>b. \<not> still_running b xs)"
      by (auto simp: answered_idle_def)
    then show ?thesis unfolding answered_idle_def by (intro exI[of _ xs] exI[of _ e] exI[of _ t] exI[of _ u] exI[of _ "ys @ [m]"]) simp
  next
    assume "\<exists>e t u. m = ResultMessage e t u \<and> (e \<or> (\<forall>b. \<not> still_running b ms))"
    then obtain e t u where "m = ResultMessage e t u" "e \<or> (\<forall>b. \<not> still_running b ms)" by blast
    then show ?thesis unfolding answered_idle_def
      by (intro exI[of _ ms] exI[of _ e] exI[of _ t] exI[of _ u] exI[of _ "[]"]) simp
  qed
qed

lemma stream_state:
  "(\<forall>t. t \<in> set (sr_pending (fold stream_message ms stream_begin)) \<longleftrightarrow> still_running t ms) \<and>
   sr_result (fold stream_message ms stream_begin) = last_result ms \<and>
   (sr_finished (fold stream_message ms stream_begin) \<longleftrightarrow> answered_idle ms) \<and>
   sr_text (fold stream_message ms stream_begin) = (case last_result ms of Some (e, Some t, u) \<Rightarrow> t | _ \<Rightarrow> [])"
proof (induction ms rule: rev_induct)
  case Nil
  show ?case by (simp add: stream_begin_def still_running_def last_result_def answered_idle_def)
next
  case (snoc m ms)
  have "sr_pending (fold stream_message ms stream_begin) = [] \<longleftrightarrow> (\<forall>b. \<not> still_running b ms)"
    using snoc by (metis empty_iff empty_set last_in_set)
  then show ?case using snoc
    by (cases m) (auto simp: stream_message_def still_running_snoc answered_idle_snoc last_result_def split: option.splits)
qed

text \<open>
  C24: a streaming run counts as completed exactly when its last answer is final.  A run whose
  stream ended is reported as completed if and only if some result was sent, the last one is no
  error, and every background task that was started has been reported as finished since; the
  output is then the text of that last result.  The input of the CLI stays open until a result
  was an error or came while no background task ran.
\<close>

theorem streaming_completed_iff:
  assumes "streaming_execute True ms StreamEnded = Some r"
  shows "(dr_ok r \<longleftrightarrow> (\<exists>t u. last_result ms = Some (False, t, u)) \<and> (\<forall>b. \<not> still_running b ms)) \<and>
    (dr_ok r \<longrightarrow> (\<exists>t u. last_result ms = Some (False, t, u) \<and> dr_output r = py_strip (case t of Some x \<Rightarrow> x | None \<Rightarrow> []))) \<and>
    (sr_finished (fold stream_message ms stream_begin) \<longleftrightarrow> answered_idle ms)"
proof -
  have p: "sr_pending (fold stream_message ms stream_begin) = [] \<longleftrightarrow> (\<forall>b. \<not> still_running b ms)"
    using stream_state[of ms] by (metis empty_iff empty_set last_in_set)
  have r: "r = streaming_result (fold stream_message ms stream_begin)" using assms by (simp add: streaming_execute_def)
  show ?thesis
    using stream_state[of ms] p
    by (cases "last_result ms")
      (auto simp: r streaming_result_def failed_run_def completed_run_def Let_def split: option.splits if_splits bool.splits)
qed

lemma streaming_completed_iff_witness:
  "\<exists>r. streaming_execute True [TaskStarted ''a'', ResultMessage False (Some ''waiting'') None, TaskNotification ''a'',
      ResultMessage False (Some ''all done'') None] StreamEnded = Some r \<and> dr_ok r"
proof -
  let ?ms = "[TaskStarted ''a'', ResultMessage False (Some ''waiting'') None, TaskNotification ''a'', ResultMessage False (Some ''all done'') None]"
  obtain r where r: "streaming_execute True ?ms StreamEnded = Some r" by (simp add: streaming_execute_def)
  have "last_result ?ms = Some (False, Some ''all done'', None)" by (simp add: last_result_def)
  moreover have "sr_pending (fold stream_message ?ms stream_begin) = []" by (simp add: stream_message_def stream_begin_def)
  then have "\<forall>b. \<not> still_running b ?ms" using stream_state[of ?ms] by (metis empty_iff empty_set)
  ultimately show ?thesis using streaming_completed_iff[OF r] r by blast
qed

section \<open>Answers by button\<close>

lemma matching_label_own:
  assumes "l \<in> set labels" and "l \<noteq> []" and "distinct (map casefold labels)"
  shows "matching_label casefold l labels = l"
proof -
  obtain m where m: "find (\<lambda>x. x \<noteq> [] \<and> casefold l = casefold x) labels = Some m"
    using assms(1,2) by (cases "find (\<lambda>x. x \<noteq> [] \<and> casefold l = casefold x) labels") (auto simp: find_None_iff)
  then have "m \<in> set labels" "casefold m = casefold l" by (auto simp: find_Some_iff)
  then have "m = l" using assms(1,3) by (auto simp: distinct_map inj_on_def)
  then show ?thesis using m by (simp add: matching_label_def)
qed

text \<open>
  What a tapped button answers.  The answer of a button is its label, and with labels that
  differ up to case the running task gets this label exactly when the label is no number, or
  is a number outside the list or at its own place; a label that names the place of
  another option selects that option, and a label of superscript digits raises.
\<close>

theorem tapped_label_answer:
  assumes "l \<in> set labels" and "l \<noteq> []" and "distinct (map casefold labels)"
  shows "normalize_answer casefold l labels = Inr l \<longleftrightarrow>
    \<not> py_isdigit l \<or> (\<exists>n. py_int 10 l = Some n \<and> (n < 1 \<or> int (length labels) < n \<or> labels ! nat (n - 1) = l))"
  using matching_label_own[OF assms] by (auto simp: normalize_answer_def split: option.splits)

lemma tapped_label_answer_witness:
  "normalize_answer (\<lambda>s. s) ''1'' [''3'', ''2'', ''1''] \<noteq> Inr ''1'' \<and> normalize_answer (\<lambda>s. s) ''1'' [''3'', ''2'', ''1''] = Inr ''3''"
proof -
  have d: "py_isdigit ''1''" "py_int 10 ''1'' = Some 1" by code_simp+
  then show ?thesis using tapped_label_answer[of "''1''" "[''3'', ''2'', ''1'']" "\<lambda>s. s"]
    by (simp add: normalize_answer_def)
qed

end
