(* ===== verification/Admin_Config.thy ===== *)
theory Admin_Config
  imports Configuration Turn_Records Task_Store
begin

text \<open>
  Changing the configuration at run time: the endpoints of api/routers/config.py and the admin
  pages of admin/router.py, with the guards of api/deps.py and admin/auth.py; and the task
  endpoints of api/routers/tasks.py.  The state is the
  YAML files, the environment and the live configuration.  PyYAML and itsdangerous are
  parameters: dump_yaml gives what safe_load makes of the dump of a mapping whose marked values
  are members of an enumeration.  Rendering of HTML is left out; a page is the data given to it.
\<close>

section \<open>Keys and files\<close>

definition allowlisted_keys :: "string \<Rightarrow> string list" where
  "allowlisted_keys dmn =
     (case map_of
        [(''app'', [''log_level'', ''timezone'']),
         (''telegram'', [''bot_token'', ''allowlist'', ''poll_timeout_seconds'', ''poll_interval_seconds'', ''startup_drop_pending_updates'']),
         (''model'', [''default_model_id'', ''model_allowlist'', ''quality_routing'', ''max_tokens_default'']),
         (''capabilities'', [''enabled_capabilities'', ''denied_capabilities'']),
         (''tools'', [''tools'']),
         (''scheduler'', [''tick_seconds'', ''max_lateness_seconds'', ''max_jobs'']),
         (''store'', [''lock_ttl_seconds'', ''idempotency_retention_seconds'']),
         (''memory'', [''default_user_id'', ''org_id'', ''project_id''])] dmn of
        Some ks \<Rightarrow> ks | None \<Rightarrow> [])"

definition filename_map :: "(string \<times> string) list" where
  "filename_map =
     [(''app'', ''app.yaml''), (''telegram'', ''channel.telegram.yaml''), (''model'', ''model.yaml''),
      (''capabilities'', ''capabilities.yaml''), (''tools'', ''tools.yaml''), (''mcp_servers'', ''mcp_servers.yaml''),
      (''scheduler'', ''scheduler.yaml''), (''store'', ''store.yaml''), (''memory'', ''memory.yaml'')]"

text \<open>The domains _domain_schema knows are those of filename_map; the fields declared as enumerations:\<close>

definition enum_fields :: "string \<Rightarrow> string list" where
  "enum_fields dmn =
     (case map_of [(''app'', [''runtime_mode'', ''log_level'']), (''model'', [''quality_routing'']), (''store'', [''backend''])] dmn of
        Some ks \<Rightarrow> ks | None \<Rightarrow> [])"

section \<open>The endpoints\<close>

datatype http_error = HttpError int "string list"

record admin_state =
  as_env :: config_env
  as_live :: "(string \<times> dict) list"

definition known_domain :: "string \<Rightarrow> bool" where
  "known_domain dmn = (map_of filename_map dmn \<noteq> None)"

definition current_domain :: "admin_state \<Rightarrow> string \<Rightarrow> dict" where
  "current_domain s dmn = (case map_of (as_live s) dmn of Some d \<Rightarrow> d | None \<Rightarrow> [])"

definition merge_dicts :: "dict \<Rightarrow> dict \<Rightarrow> dict" where
  "merge_dicts current new = fold (\<lambda>(k, v). AList.update k v) new current"

definition unknown_domain :: "string \<Rightarrow> http_error" where
  "unknown_domain dmn = HttpError 400 [''Unknown config domain: '' @ dmn]"

definition validate_config :: "admin_state \<Rightarrow> string \<Rightarrow> dict \<Rightarrow> (http_error + bool \<times> string list)" where
  "validate_config s dmn payload =
     (if known_domain dmn
      then (case sc_build (ce_schema (as_env s) dmn) payload of
              Inl (m, ms) \<Rightarrow> Inr (False, m # ms)
            | Inr d \<Rightarrow> Inr (True, []))
      else Inl (unknown_domain dmn))"

text \<open>The changed keys with old and new value, and the keys that may not be changed.\<close>

definition diff_config :: "admin_state \<Rightarrow> string \<Rightarrow> dict \<Rightarrow> (string \<times> pyval \<times> pyval) list \<times> string list" where
  "diff_config s dmn payload =
     (let allowed = allowlisted_keys dmn; current = current_domain s dmn
      in (map (\<lambda>(k, v). (k, dget current k, v)) (filter (\<lambda>(k, v). k \<in> set allowed \<and> dget current k \<noteq> v) payload),
          map fst (filter (\<lambda>(k, v). k \<notin> set allowed) payload)))"

text \<open>A value of the live configuration that no payload replaced is still a member of its enumeration.\<close>

definition marked_values :: "string \<Rightarrow> dict \<Rightarrow> dict \<Rightarrow> (string \<times> bool \<times> pyval) list" where
  "marked_values dmn new merged = map (\<lambda>(k, v). (k, k \<in> set (enum_fields dmn) \<and> k \<notin> fst ` set new, v)) merged"

record apply_answer =
  aa_applied :: bool
  aa_reloaded :: bool
  aa_keys :: "string list"

text \<open>The allowlisted part of the payload, the merged values and the environment with the file written.\<close>

definition filtered_payload :: "string \<Rightarrow> dict \<Rightarrow> dict" where
  "filtered_payload dmn payload = filter (\<lambda>(k, v). k \<in> set (allowlisted_keys dmn)) payload"

definition merged_config :: "admin_state \<Rightarrow> string \<Rightarrow> dict \<Rightarrow> dict" where
  "merged_config s dmn payload = merge_dicts (current_domain s dmn) (filtered_payload dmn payload)"

definition write_config ::
  "((string \<times> bool \<times> pyval) list \<Rightarrow> yaml_file) \<Rightarrow> string \<Rightarrow> string \<Rightarrow> dict \<Rightarrow> admin_state \<Rightarrow> config_env" where
  "write_config dump_yaml file dmn payload s =
     (as_env s)\<lparr>ce_files :=
        AList.update file (dump_yaml (marked_values dmn (filtered_payload dmn payload) (merged_config s dmn payload))) (ce_files (as_env s))\<rparr>"

definition apply_config ::
  "((string \<times> bool \<times> pyval) list \<Rightarrow> yaml_file) \<Rightarrow> string option \<Rightarrow> string \<Rightarrow> dict \<Rightarrow> bool \<Rightarrow> admin_state
    \<Rightarrow> (http_error + apply_answer) \<times> admin_state" where
  "apply_config dump_yaml fault dmn payload confirm s =
     (let nothing = Inr \<lparr>aa_applied = False, aa_reloaded = False, aa_keys = []\<rparr>; new = filtered_payload dmn payload
      in if \<not> confirm then (nothing, s)
      else case map_of filename_map dmn of
        None \<Rightarrow> (Inl (unknown_domain dmn), s)
      | Some file \<Rightarrow>
          (if new = [] then (nothing, s)
           else case sc_build (ce_schema (as_env s) dmn) (merged_config s dmn payload) of
             Inl (m, ms) \<Rightarrow> (Inl (HttpError 422 (m # ms)), s)
           | Inr d \<Rightarrow>
               (case fault of
                  Some m \<Rightarrow> (Inl (HttpError 500 [''Failed to write config: '' @ m]), s)
                | None \<Rightarrow>
                    (let env = write_config dump_yaml file dmn payload s
                     in case reload_domain env dmn of
                          Some obj \<Rightarrow>
                            (Inr \<lparr>aa_applied = True, aa_reloaded = True, aa_keys = map fst new\<rparr>,
                             s\<lparr>as_env := env, as_live := AList.update dmn obj (as_live s)\<rparr>)
                        | None \<Rightarrow>
                            (Inr \<lparr>aa_applied = True, aa_reloaded = False, aa_keys = map fst new\<rparr>, s\<lparr>as_env := env\<rparr>)))))"

section \<open>Guards\<close>

definition admin_token :: "(string \<times> string) list \<Rightarrow> string" where
  "admin_token environ = (case map_of environ ''ASSISTANT_ADMIN_TOKEN'' of Some t \<Rightarrow> t | None \<Rightarrow> [])"

definition verify_bearer :: "(string \<times> string) list \<Rightarrow> string option \<Rightarrow> (http_error + unit)" where
  "verify_bearer environ credentials =
     (if admin_token environ = [] then Inl (HttpError 503 [''Admin token not configured''])
      else if credentials \<noteq> Some (admin_token environ) then Inl (HttpError 401 [''Invalid or missing admin token''])
      else Inr ())"

definition verify_admin_token :: "(string \<times> string) list \<Rightarrow> string \<Rightarrow> bool" where
  "verify_admin_token environ submitted = (if admin_token environ = [] then False else submitted = admin_token environ)"

text \<open>The secret that signs the cookies; without a token it is one drawn at the start of the process.\<close>

definition session_secret :: "(string \<times> string) list \<Rightarrow> string \<Rightarrow> string" where
  "session_secret environ fallback = (if admin_token environ \<noteq> [] then admin_token environ else fallback)"

definition session_max_age :: int where "session_max_age = 3600 * 8"

definition create_session :: "(string \<Rightarrow> dict \<Rightarrow> string) \<Rightarrow> (string \<times> string) list \<Rightarrow> string \<Rightarrow> string" where
  "create_session sign environ fallback = sign (session_secret environ fallback) [(''authenticated'', PBool True)]"

definition is_authenticated ::
  "(string \<Rightarrow> string \<Rightarrow> int \<Rightarrow> dict option) \<Rightarrow> (string \<times> string) list \<Rightarrow> string \<Rightarrow> string option \<Rightarrow> bool" where
  "is_authenticated loads environ fallback cookie =
     (case cookie of
        None \<Rightarrow> False
      | Some raw \<Rightarrow>
          if raw = [] then False
          else (case loads (session_secret environ fallback) raw session_max_age of
                  None \<Rightarrow> False
                | Some d \<Rightarrow> dget d ''authenticated'' = PBool True))"

definition login_submit :: "(string \<Rightarrow> dict \<Rightarrow> string) \<Rightarrow> (string \<times> string) list \<Rightarrow> string \<Rightarrow> string \<Rightarrow> string option" where
  "login_submit sign environ fallback tok =
     (if verify_admin_token environ tok then Some (create_session sign environ fallback) else None)"

section \<open>The forms\<close>

datatype encoding = LineList | IntList | YamlText
datatype field_kind = SelectField "string list" | TextField | PasswordField | TextArea encoding | NumberField | FloatField | CheckboxField

definition field_defs :: "(string \<times> field_kind) list" where
  "field_defs =
     [(''log_level'', SelectField [''DEBUG'', ''INFO'', ''WARNING'', ''ERROR'']), (''timezone'', TextField), (''bot_token'', PasswordField),
      (''allowlist'', TextArea IntList), (''poll_timeout_seconds'', NumberField), (''poll_interval_seconds'', FloatField),
      (''startup_drop_pending_updates'', CheckboxField), (''default_model_id'', TextField), (''model_allowlist'', TextArea LineList),
      (''quality_routing'', SelectField [''quality_first'', ''cost_first'']), (''max_tokens_default'', NumberField),
      (''enabled_capabilities'', TextArea LineList), (''denied_capabilities'', TextArea LineList), (''tools'', TextArea YamlText),
      (''tick_seconds'', NumberField), (''max_lateness_seconds'', NumberField), (''max_jobs'', NumberField),
      (''lock_ttl_seconds'', NumberField), (''idempotency_retention_seconds'', NumberField)]"

definition field_kind_of :: "string \<Rightarrow> field_kind" where
  "field_kind_of k = (case map_of field_defs k of Some f \<Rightarrow> f | None \<Rightarrow> TextField)"

text \<open>What the form shows for a value; pstr is str and yaml_text the stripped dump.\<close>

definition display_value :: "(pyval \<Rightarrow> string) \<Rightarrow> (pyval \<Rightarrow> string) \<Rightarrow> field_kind \<Rightarrow> pyval \<Rightarrow> pyval" where
  "display_value pstr yaml_text kind v =
     (case kind of
        PasswordField \<Rightarrow> PStr []
      | TextArea YamlText \<Rightarrow> if v \<noteq> PNone \<and> v \<noteq> PStr [] then PStr (yaml_text v) else v
      | TextArea e \<Rightarrow> (case v of PList xs \<Rightarrow> PStr (join [newline] (map pstr xs)) | _ \<Rightarrow> v)
      | _ \<Rightarrow> v)"

definition build_fields :: "(pyval \<Rightarrow> string) \<Rightarrow> (pyval \<Rightarrow> string) \<Rightarrow> string list \<Rightarrow> dict \<Rightarrow> (string \<times> field_kind \<times> pyval) list" where
  "build_fields pstr yaml_text allowed current =
     map (\<lambda>k. (k, field_kind_of k, display_value pstr yaml_text (field_kind_of k) (dget_or current k (PStr [])))) (sort allowed)"

text \<open>str.splitlines; the separators of Latin-1.\<close>

definition line_break :: "char \<Rightarrow> bool" where
  "line_break c = (code c \<in> {10, 11, 12, 13, 28, 29, 30, 133})"

fun py_splitlines :: "string \<Rightarrow> string list" where
  "py_splitlines [] = []"
| "py_splitlines (c # s) =
     (if line_break c
      then [] # py_splitlines (if code c = 13 \<and> s \<noteq> [] \<and> code (hd s) = 10 then tl s else s)
      else (case py_splitlines s of
              [] \<Rightarrow> [[c]]
            | l # ls \<Rightarrow> (c # l) # ls))"


text \<open>
  A form gives a string for each of its fields.  The keys of a domain are a set in the code; here
  they have the order of the list.  pfloat is float, yload is yaml.safe_load; None when they raise.
\<close>

definition form_lines :: "string \<Rightarrow> string list" where
  "form_lines raw = filter (\<lambda>l. l \<noteq> []) (map py_strip (py_splitlines raw))"

definition int_or_raw :: "string \<Rightarrow> pyval" where
  "int_or_raw raw = (case py_int 10 raw of Some i \<Rightarrow> PInt i | None \<Rightarrow> PStr raw)"

definition form_value ::
  "(string \<Rightarrow> rat option) \<Rightarrow> (string \<Rightarrow> pyval option) \<Rightarrow> field_kind \<Rightarrow> string option \<Rightarrow> pyval option" where
  "form_value pfloat yload kind given =
     (if kind = CheckboxField then Some (PBool (given \<in> Some ` {''on'', ''true'', ''yes'', ''1''}))
      else case given of
        None \<Rightarrow> None
      | Some raw \<Rightarrow>
          (case kind of
             PasswordField \<Rightarrow> if py_strip raw = [] then None else Some (PStr raw)
           | NumberField \<Rightarrow> Some (int_or_raw raw)
           | FloatField \<Rightarrow> Some (case pfloat raw of Some q \<Rightarrow> PReal q | None \<Rightarrow> PStr raw)
           | TextArea LineList \<Rightarrow> Some (PList (map PStr (form_lines raw)))
           | TextArea IntList \<Rightarrow> Some (PList (map int_or_raw (form_lines raw)))
           | TextArea YamlText \<Rightarrow>
               (if py_strip raw = [] then Some (PList [])
                else Some (case yload (py_strip raw) of
                             Some PNone \<Rightarrow> PList []
                           | Some v \<Rightarrow> v
                           | None \<Rightarrow> PStr raw))
           | _ \<Rightarrow> Some (PStr raw)))"

definition parse_form_payload ::
  "(string \<Rightarrow> rat option) \<Rightarrow> (string \<Rightarrow> pyval option) \<Rightarrow> string \<Rightarrow> (string \<times> string) list \<Rightarrow> dict" where
  "parse_form_payload pfloat yload dmn form =
     List.map_filter (\<lambda>k. map_option (Pair k) (form_value pfloat yload (field_kind_of k) (map_of form k))) (allowlisted_keys dmn)"

section \<open>The pages\<close>

definition domain_labels :: "(string \<times> string) list" where
  "domain_labels =
     [(''app'', ''Application Runtime''), (''telegram'', ''Telegram Channel''), (''model'', ''Model Routing''),
      (''capabilities'', ''Capabilities & Skills''), (''tools'', ''Tools''), (''mcp_servers'', ''MCP Servers''),
      (''scheduler'', ''Scheduler''), (''store'', ''Store / Persistence'')]"

definition domain_label :: "string \<Rightarrow> string" where
  "domain_label dmn = (case map_of domain_labels dmn of Some l \<Rightarrow> l | None \<Rightarrow> dmn)"

definition restart_advisory :: "string \<Rightarrow> string" where
  "restart_advisory dmn = (if dmn = ''tools'' then ''required'' else ''recommended'')"

datatype page =
    Redirect string
  | LoginPage "string option" int
  | SessionExpired
  | NoEditableKeys string
  | Dashboard "(string \<times> string \<times> dict option \<times> (string \<times> string) list \<times> bool) list"
  | FormPage string string "(string \<times> field_kind \<times> pyval) list"
  | ValidationErrors "string list"
  | DiffPage string "(string \<times> pyval \<times> pyval) list" "string list" dict string
  | ApplyPage string apply_answer string

definition login_page :: "bool \<Rightarrow> page" where
  "login_page authed = (if authed then Redirect ''/admin/config'' else LoginPage None 200)"

definition login_answer :: "(string \<Rightarrow> dict \<Rightarrow> string) \<Rightarrow> (string \<times> string) list \<Rightarrow> string \<Rightarrow> string \<Rightarrow> page \<times> string option" where
  "login_answer sign environ fallback tok =
     (case login_submit sign environ fallback tok of
        Some cookie \<Rightarrow> (Redirect ''/admin/config'', Some cookie)
      | None \<Rightarrow> (LoginPage (Some ''Invalid token. Please try again.'') 401, None))"

text \<open>A domain whose file does not load is shown as None.\<close>

definition config_dashboard :: "bool \<Rightarrow> config_env \<Rightarrow> page" where
  "config_dashboard authed env =
     (if \<not> authed then Redirect ''/admin/login''
      else (case effective_config env of
        (config, provenance) \<Rightarrow>
          Dashboard (map (\<lambda>(dmn, label).
            (dmn, label, (case map_of config dmn of Some d \<Rightarrow> d | None \<Rightarrow> Some []),
             map (\<lambda>(k, v). (drop (length dmn + 1) k, v)) (filter (\<lambda>(k, v). take (length dmn + 1) k = dmn @ ''.'') provenance),
             allowlisted_keys dmn \<noteq> [])) domain_labels)))"

text \<open>The form shows what the files and the environment give now, after redaction.\<close>

definition domain_form :: "(pyval \<Rightarrow> string) \<Rightarrow> (pyval \<Rightarrow> string) \<Rightarrow> bool \<Rightarrow> config_env \<Rightarrow> string \<Rightarrow> page" where
  "domain_form pstr yaml_text authed env dmn =
     (if \<not> authed then SessionExpired
      else if allowlisted_keys dmn = [] then NoEditableKeys dmn
      else FormPage dmn (domain_label dmn)
             (build_fields pstr yaml_text (allowlisted_keys dmn)
                (case map_of (fst (effective_config env)) dmn of Some (Some d) \<Rightarrow> d | _ \<Rightarrow> [])))"

definition domain_diff ::
  "(string \<Rightarrow> rat option) \<Rightarrow> (string \<Rightarrow> pyval option) \<Rightarrow> bool \<Rightarrow> admin_state \<Rightarrow> string \<Rightarrow> (string \<times> string) list
    \<Rightarrow> (http_error + page)" where
  "domain_diff pfloat yload authed s dmn form =
     (if \<not> authed then Inr SessionExpired
      else (let payload = parse_form_payload pfloat yload dmn form
            in case validate_config s dmn (merge_dicts (current_domain s dmn) payload) of
                 Inl e \<Rightarrow> Inl e
               | Inr (valid, errors) \<Rightarrow>
                   if \<not> valid then Inr (ValidationErrors errors)
                   else (case diff_config s dmn payload of
                           (changes, blocked) \<Rightarrow> Inr (DiffPage dmn changes blocked payload (restart_advisory dmn)))))"

definition domain_apply ::
  "((string \<times> bool \<times> pyval) list \<Rightarrow> yaml_file) \<Rightarrow> string option \<Rightarrow> (string \<Rightarrow> rat option) \<Rightarrow> (string \<Rightarrow> pyval option)
    \<Rightarrow> bool \<Rightarrow> string \<Rightarrow> (string \<times> string) list \<Rightarrow> admin_state \<Rightarrow> (http_error + page) \<times> admin_state" where
  "domain_apply dump_yaml fault pfloat yload authed dmn form s =
     (if \<not> authed then (Inr SessionExpired, s)
      else (case apply_config dump_yaml fault dmn (parse_form_payload pfloat yload dmn form) True s of
              (Inl e, s') \<Rightarrow> (Inl e, s')
            | (Inr a, s') \<Rightarrow> (Inr (ApplyPage dmn a (restart_advisory dmn)), s')))"

section \<open>The task endpoints\<close>

text \<open>The store is None before it is initialised.\<close>

definition store_missing :: http_error where
  "store_missing = HttpError 503 [''Store is not initialized'']"

definition admin_get_task :: "doc dir option \<Rightarrow> string \<Rightarrow> (http_error + task_record)" where
  "admin_get_task store task_id =
     (case store of
        None \<Rightarrow> Inl store_missing
      | Some d \<Rightarrow> (case task_get d task_id of None \<Rightarrow> Inl (HttpError 404 [''Task not found'']) | Some t \<Rightarrow> Inr t))"

definition admin_session_tasks :: "doc dir option \<Rightarrow> string \<Rightarrow> (http_error + task_record list)" where
  "admin_session_tasks store sid =
     (case store of None \<Rightarrow> Inl store_missing | Some d \<Rightarrow> Inr (task_list_by_session d sid))"

record cancel_answer =
  ca_cancelled :: bool
  ca_task :: string
  ca_status :: string
  ca_message :: string

definition admin_cancel_task :: "doc dir option \<Rightarrow> string \<Rightarrow> time \<Rightarrow> (http_error + cancel_answer) \<times> doc dir option" where
  "admin_cancel_task store task_id now =
     (case store of
        None \<Rightarrow> (Inl store_missing, None)
      | Some d \<Rightarrow>
          (case task_get d task_id of
             None \<Rightarrow> (Inl (HttpError 404 [''Task not found'']), Some d)
           | Some t \<Rightarrow>
               if tk_status t \<in> {TaskCompleted, TaskFailed, Expired}
               then (Inr \<lparr>ca_cancelled = False, ca_task = task_id, ca_status = status_value (tk_status t),
                          ca_message = ''Task is already terminal''\<rparr>, Some d)
               else (case task_update_status d task_id TaskCancelled (Some ''Cancelled by API'') None now of
                       (None, d') \<Rightarrow> (Inl (HttpError 500 [''Cancel failed'']), Some d')
                     | (Some u, d') \<Rightarrow>
                         (Inr \<lparr>ca_cancelled = True, ca_task = task_id, ca_status = status_value (tk_status u),
                               ca_message = ''Task cancelled''\<rparr>, Some d'))))"


section \<open>What applying a payload does\<close>

lemma map_of_merge:
  "map_of (merge_dicts d new) k = (case map_of (rev new) k of Some v \<Rightarrow> Some v | None \<Rightarrow> map_of d k)"
proof (induction new arbitrary: d)
  case (Cons e new)
  obtain a b where "e = (a, b)" by (cases e)
  then have "merge_dicts d (e # new) = merge_dicts (AList.update a b d) new" by (simp add: merge_dicts_def)
  then show ?case using Cons \<open>e = (a, b)\<close>
    by (auto simp: map_of_append update_conv' map_add_def split: option.splits)
qed (simp add: merge_dicts_def)

lemma keys_map_of: "k \<in> fst ` set d \<longleftrightarrow> map_of d k \<noteq> None"
  by (simp add: map_of_eq_None_iff)

lemma keys_merge: "k \<in> fst ` set (merge_dicts d new) \<longleftrightarrow> k \<in> fst ` set d \<or> k \<in> fst ` set new"
  using keys_map_of[of k "rev new"] by (simp add: keys_map_of map_of_merge split: option.split)

lemma keys_filtered: "k \<in> fst ` set (filtered_payload dmn payload) \<longleftrightarrow> k \<in> fst ` set payload \<and> k \<in> set (allowlisted_keys dmn)"
  by (force simp: filtered_payload_def)

lemma merged_not_filtered:
  "k \<notin> fst ` set (filtered_payload dmn payload) \<Longrightarrow> map_of (merged_config s dmn payload) k = map_of (current_domain s dmn) k"
  using keys_map_of[of k "rev (filtered_payload dmn payload)"] by (simp add: merged_config_def map_of_merge)

lemma write_config_fields [simp]:
  "ce_environ (write_config dump file dmn payload s) = ce_environ (as_env s)"
  "ce_json (write_config dump file dmn payload s) = ce_json (as_env s)"
  "ce_schema (write_config dump file dmn payload s) = ce_schema (as_env s)"
  by (simp_all add: write_config_def)

lemma apply_config_cases:
  assumes "apply_config dump fault dmn payload confirm s = (a, s')"
  obtains (unchanged) "s' = s" "\<forall>r. a = Inr r \<longrightarrow> \<not> aa_applied r"
  | (written) fname obj where "confirm" "fault = None" "map_of filename_map dmn = Some fname" "filtered_payload dmn payload \<noteq> []"
      "sc_build (ce_schema (as_env s) dmn) (merged_config s dmn payload) = Inr obj"
      "as_env s' = write_config dump fname dmn payload s"
      "a = Inr \<lparr>aa_applied = True, aa_reloaded = reload_domain (as_env s') dmn \<noteq> None, aa_keys = map fst (filtered_payload dmn payload)\<rparr>"
      "as_live s' = (case reload_domain (as_env s') dmn of Some d \<Rightarrow> AList.update dmn d (as_live s) | None \<Rightarrow> as_live s)"
proof -
  note split = option.splits sum.splits prod.splits if_splits
  show ?thesis
    using assms unfolding apply_config_def Let_def
    by (auto split: split intro: unchanged written)
qed


lemma reload_unreadable:
  assumes "map_of filename_map dmn = Some fname"
    and "dump (marked_values dmn (filtered_payload dmn payload) (merged_config s dmn payload)) = YamlError m"
  shows "reload_domain (write_config dump fname dmn payload s) dmn = None"
proof -
  obtain prfx where "map_of domain_map dmn = Some (fname, prfx)"
    using assms(1) by (auto simp: filename_map_def domain_map_def split: if_splits)
  then show ?thesis
    using assms(2) by (simp add: reload_domain_def load_domain_def read_yaml_def write_config_def update_conv')
qed

lemma map_of_rev_distinct: "distinct (map fst xs) \<Longrightarrow> map_of (rev xs) k = map_of xs k"
proof (induction xs)
  case (Cons e xs)
  show ?case
  proof (cases "k = fst e")
    case True
    with Cons.prems have "map_of xs k = None" by (simp add: map_of_eq_None_iff)
    with True Cons show ?thesis by (cases e) (simp add: map_of_append map_add_def)
  next
    case False
    with Cons show ?thesis by (cases e) (simp add: map_of_append map_add_def split: option.split)
  qed
qed simp

text \<open>
  C19: a configuration is changed by a confirmed, validated request and only there.  When applying
  answers with an error or that nothing was applied, files and live configuration are as before.
  Otherwise only the file of the domain is written: with a validated mapping that takes the values
  of allowlisted keys from the payload, wherever it has them, and every other value from the live
  configuration; and of the live configuration at most this domain changes, to what the file and
  the environment now give.
\<close>

theorem apply_config_confined:
  assumes "apply_config dump fault dmn payload confirm s = (a, s')" and "distinct (map fst payload)"
  shows "(case a of Inl _ \<Rightarrow> s' = s
     | Inr r \<Rightarrow>
         if \<not> aa_applied r then s' = s
         else confirm \<and> (\<exists>fname merged.
           map_of filename_map dmn = Some fname \<and> \<not> isl (sc_build (ce_schema (as_env s) dmn) merged) \<and>
           (\<forall>k. map_of merged k =
              (if k \<in> set (allowlisted_keys dmn) \<and> map_of payload k \<noteq> None then map_of payload k else map_of (current_domain s dmn) k)) \<and>
           as_env s' = (as_env s)\<lparr>ce_files := AList.update fname (dump (marked_values dmn (filtered_payload dmn payload) merged)) (ce_files (as_env s))\<rparr> \<and>
           (\<forall>d. d \<noteq> dmn \<longrightarrow> map_of (as_live s') d = map_of (as_live s) d) \<and>
           aa_reloaded r = (reload_domain (as_env s') dmn \<noteq> None) \<and>
           map_of (as_live s') dmn = (if aa_reloaded r then reload_domain (as_env s') dmn else map_of (as_live s) dmn)))"
  using assms(1)
proof (cases rule: apply_config_cases)
  case unchanged
  then show ?thesis by (simp split: sum.split)
next
  case (written fname obj)
  have d: "distinct (map fst (filtered_payload dmn payload))"
    using assms(2) unfolding filtered_payload_def by (induction payload) auto
  have m: "map_of (filtered_payload dmn payload) k = (if k \<in> set (allowlisted_keys dmn) then map_of payload k else None)" for k
    unfolding filtered_payload_def by (induction payload) auto
  have "map_of (merged_config s dmn payload) k =
      (if k \<in> set (allowlisted_keys dmn) \<and> map_of payload k \<noteq> None then map_of payload k else map_of (current_domain s dmn) k)" for k
    using d by (auto simp: merged_config_def map_of_merge map_of_rev_distinct m split: option.split)
  moreover have "map_of (as_live s') dmn = (if reload_domain (as_env s') dmn \<noteq> None then reload_domain (as_env s') dmn else map_of (as_live s) dmn)"
    "\<forall>d. d \<noteq> dmn \<longrightarrow> map_of (as_live s') d = map_of (as_live s) d"
    unfolding written(8) by (auto simp: update_conv' split: option.split)
  ultimately show ?thesis
    using written(1,3,5,6) unfolding written(7) write_config_def
    by (auto intro!: exI[of _ fname] exI[of _ "merged_config s dmn payload"])
qed

text \<open>
  Applying a change can leave a configuration that does not load.  The values written are the
  members of the live object, and PyYAML dumps a member of an enumeration as a Python object that
  safe_load rejects.  Whenever the domain has an enumeration field the payload does not set (the
  store's backend and the runtime mode can not be set at all), a valid change is reported as applied,
  but is not reloaded, and from then on the configuration does not load.
\<close>

theorem apply_breaks_config:
  assumes dump: "\<And>ms. (\<exists>k v. (k, True, v) \<in> set ms) \<Longrightarrow> \<exists>m. dump ms = YamlError m"
    and f: "f \<in> set (enum_fields dmn)" "f \<in> fst ` set (current_domain s dmn)" "f \<notin> fst ` set payload"
    and valid: "sc_build (ce_schema (as_env s) dmn) (merged_config s dmn payload) = Inr obj"
    and new: "filtered_payload dmn payload \<noteq> []"
  shows "\<exists>env x. apply_config dump None dmn payload True s =
      (Inr \<lparr>aa_applied = True, aa_reloaded = False, aa_keys = map fst (filtered_payload dmn payload)\<rparr>, s\<lparr>as_env := env\<rparr>) \<and>
      reload_domain env dmn = None \<and> load_config env = Inl x"
proof -
  from f(1) obtain fname prfx where fn: "map_of filename_map dmn = Some fname" "(dmn, fname, prfx) \<in> set domain_map"
      "dmn \<notin> set optional_domains" "map_of domain_map dmn = Some (fname, prfx)"
    by (auto simp: enum_fields_def filename_map_def domain_map_def optional_domains_def split: if_splits)
  let ?env = "write_config dump fname dmn payload s"
  have "f \<in> fst ` set (merged_config s dmn payload)" "f \<notin> fst ` set (filtered_payload dmn payload)"
    using f by (simp_all add: merged_config_def keys_merge keys_filtered)
  then obtain v where "(f, v) \<in> set (merged_config s dmn payload)" "f \<notin> fst ` set (filtered_payload dmn payload)" by auto
  then have "\<exists>v. (f, True, v) \<in> set (marked_values dmn (filtered_payload dmn payload) (merged_config s dmn payload))"
    using f(1) unfolding marked_values_def set_map by (intro exI[of _ v] image_eqI[of _ _ "(f, v)"]) simp_all
  then obtain m where m: "dump (marked_values dmn (filtered_payload dmn payload) (merged_config s dmn payload)) = YamlError m"
    using dump by blast
  have r: "reload_domain ?env dmn = None" by (rule reload_unreadable[where dump = dump and payload = payload and s = s, OF fn(1) m])
  then have "domain_value ?env (dmn, fname, prfx) = None"
    using fn by (simp add: domain_value_def domain_missing_def reload_domain_def)
  then obtain x where "load_config ?env = Inl x"
    using load_config_complete[of ?env] fn(2) by (cases "load_config ?env") auto
  moreover have "apply_config dump None dmn payload True s =
      (Inr \<lparr>aa_applied = True, aa_reloaded = False, aa_keys = map fst (filtered_payload dmn payload)\<rparr>, s\<lparr>as_env := ?env\<rparr>)"
    using fn(1) new valid r by (simp add: apply_config_def)
  ultimately show ?thesis using r by blast
qed


section \<open>Forms\<close>

text \<open>A text on one line that the form gives back as it is.\<close>

definition plain_line :: "string \<Rightarrow> bool" where
  "plain_line l = (l \<noteq> [] \<and> py_strip l = l \<and> list_all (\<lambda>c. \<not> line_break c) l)"

lemma splitlines_line: "l \<noteq> [] \<Longrightarrow> list_all (\<lambda>c. \<not> line_break c) l \<Longrightarrow> py_splitlines l = [l]"
proof (induction l)
  case (Cons c l)
  then show ?case by (cases l) (auto split: list.splits)
qed simp

lemma splitlines_append:
  "l \<noteq> [] \<Longrightarrow> list_all (\<lambda>c. \<not> line_break c) l \<Longrightarrow> py_splitlines (l @ newline # s) = l # py_splitlines s"
proof (induction l)
  case (Cons c l)
  have n: "line_break newline" "code newline = 10" by (simp_all add: line_break_def code_def)
  show ?case
  proof (cases l)
    case Nil
    with Cons.prems n show ?thesis by simp
  next
    case (Cons d l')
    with Cons.IH Cons.prems show ?thesis by simp
  qed
qed simp

lemma splitlines_join: "list_all plain_line ls \<Longrightarrow> py_splitlines (join [newline] ls) = ls"
  by (induction "[newline]" ls rule: join.induct) (auto simp: plain_line_def splitlines_line splitlines_append)

lemma form_lines_join: "list_all plain_line ls \<Longrightarrow> form_lines (join [newline] ls) = ls"
proof -
  assume a: "list_all plain_line ls"
  then have "map py_strip ls = ls" "filter (\<lambda>l. l \<noteq> []) ls = ls"
    by (induction ls) (auto simp: plain_line_def)
  then show ?thesis by (simp add: form_lines_def splitlines_join[OF a])
qed

lemma line_break_isspace: "line_break c \<Longrightarrow> py_isspace c"
  by (auto simp: line_break_def py_isspace_def)

lemma show_base_chars:
  assumes "c \<in> set (show_base 10 n)"
  shows "\<not> py_isspace c" "c \<noteq> CHR ''-''" "c \<noteq> CHR ''+''"
  using digit_char_not_sign[of 10 c n] assms by auto

lemma show_int_chars: "c \<in> set (show_int i) \<Longrightarrow> \<not> py_isspace c"
  using show_base_chars(1) by (auto simp: show_int_def py_isspace_def code_def split: if_splits)

lemma show_base_nonempty [simp]: "show_base 10 n \<noteq> []"
  by (subst show_base.simps) simp

lemma plain_show_int: "plain_line (show_int i)"
proof -
  have "py_strip (show_int i) = show_int i" using show_int_chars by (intro py_strip_no_space) auto
  moreover have "list_all (\<lambda>c. \<not> line_break c) (show_int i)"
    using show_int_chars line_break_isspace by (auto simp: list_all_iff)
  ultimately show ?thesis by (auto simp: plain_line_def show_int_def)
qed

lemma py_int_show_int: "py_int 10 (show_int i) = Some i"
proof (cases "i < 0")
  case True
  have "py_strip (show_int i) = show_int i" using plain_show_int by (simp add: plain_line_def)
  with True show ?thesis by (simp add: py_int_def show_int_def unsigned_val_show_base)
next
  case False
  then show ?thesis by (simp add: show_int_def py_int_show_base)
qed


lemma map_of_map_filter:
  "distinct ks \<Longrightarrow> map_of (List.map_filter (\<lambda>k. map_option (Pair k) (f k)) ks) k = (if k \<in> set ks then f k else None)"
proof (induction ks)
  case (Cons a ks)
  then show ?case by (cases "f a") (auto simp: map_filter_Cons)
qed (simp add: map_filter_Nil)

lemma distinct_allowlisted [simp]: "distinct (allowlisted_keys dmn)"
  by (simp add: allowlisted_keys_def split: option.split)

lemma parsed_field:
  "map_of (parse_form_payload pfloat yload dmn form) k =
     (if k \<in> set (allowlisted_keys dmn) then form_value pfloat yload (field_kind_of k) (map_of form k) else None)"
  by (simp add: parse_form_payload_def map_of_map_filter)

lemma changed_key:
  "distinct (map fst payload) \<Longrightarrow> k \<in> fst ` set (fst (diff_config s dmn payload)) \<longleftrightarrow>
     k \<in> set (allowlisted_keys dmn) \<and> (\<exists>v. map_of payload k = Some v \<and> v \<noteq> dget (current_domain s dmn) k)"
  by (force simp: diff_config_def Let_def image_iff dest: map_of_SomeD intro: map_of_is_SomeI)

lemma distinct_parsed [simp]: "distinct (map fst (parse_form_payload pfloat yload dmn form))"
proof -
  have "distinct ks \<Longrightarrow> distinct (map fst (List.map_filter (\<lambda>k. map_option (Pair k) (f k)) ks)) \<and>
      set (map fst (List.map_filter (\<lambda>k. map_option (Pair k) (f k)) ks)) \<subseteq> set ks" for ks :: "string list" and f :: "string \<Rightarrow> pyval option"
    by (induction ks) (auto simp: map_filter_Cons map_filter_Nil split: option.splits)
  from this[of "allowlisted_keys dmn"] show ?thesis by (simp add: parse_form_payload_def)
qed

text \<open>
  A list that is not edited is not changed.  When the text a form shows for a list field comes back
  unedited, it is parsed to the list that was shown, for lists of single, trimmed lines and for lists
  of integers; if the live configuration has that list, the preview names no change of the field.
\<close>

theorem list_field_roundtrip:
  assumes pstr: "\<And>l. pstr (PStr l) = l" "\<And>i. pstr (PInt i) = show_int i"
    and field: "k \<in> set (allowlisted_keys dmn)"
      "field_kind_of k = TextArea LineList \<and> v = PList (map PStr ls) \<and> list_all plain_line ls
       \<or> field_kind_of k = TextArea IntList \<and> v = PList (map PInt is)"
    and shown: "display_value pstr yaml_text (field_kind_of k) v = PStr shown" "map_of form k = Some shown"
  shows "map_of (parse_form_payload pfloat yload dmn form) k = Some v \<and>
     (dget (current_domain s dmn) k = v \<longrightarrow> k \<notin> fst ` set (fst (diff_config s dmn (parse_form_payload pfloat yload dmn form))))"
proof -
  have "list_all plain_line (map show_int is)" by (simp add: list_all_iff plain_show_int)
  then have "map int_or_raw (form_lines (join [newline] (map show_int is))) = map PInt is"
    by (simp add: form_lines_join int_or_raw_def py_int_show_int)
  then have "map_of (parse_form_payload pfloat yload dmn form) k = Some v"
    using field shown by (auto simp: parsed_field form_value_def display_value_def form_lines_join pstr comp_def)
  then show ?thesis by (simp add: changed_key)
qed

text \<open>The number max_tokens_default is shown redacted, and comes back as a text that is no number.\<close>

lemma redacted_number_comes_back:
  "is_sensitive_key ''max_tokens_default''"
  "form_value pfloat yload (field_kind_of ''max_tokens_default'') (Some redacted) = Some (PStr redacted)"
  by code_simp+

section \<open>Access\<close>

text \<open>Without a token nobody gets in, and with one only who has it, or a cookie signed with it.\<close>

lemma bearer_accepted_iff:
  "verify_bearer environ credentials = Inr () \<longleftrightarrow> admin_token environ \<noteq> [] \<and> credentials = Some (admin_token environ)"
  by (simp add: verify_bearer_def)

lemma login_accepted_iff:
  "login_submit sign environ fallback tok \<noteq> None \<longleftrightarrow> admin_token environ \<noteq> [] \<and> tok = admin_token environ"
  by (simp add: login_submit_def verify_admin_token_def)

lemma login_authenticates:
  assumes "login_submit sign environ fallback tok = Some cookie" and "cookie \<noteq> []"
    and "\<And>key d. loads key (sign key d) session_max_age = Some d"
  shows "is_authenticated loads environ fallback (Some cookie)"
  using assms by (auto simp: login_submit_def create_session_def is_authenticated_def dget_def split: if_splits)

lemma pages_need_session:
  "config_dashboard False env = Redirect ''/admin/login''"
  "domain_form pstr yaml_text False env dmn = SessionExpired"
  "domain_diff pfloat yload False s dmn form = Inr SessionExpired"
  "domain_apply dump fault pfloat yload False dmn form s = (Inr SessionExpired, s)"
  by (simp_all add: config_dashboard_def domain_form_def domain_diff_def domain_apply_def)

section \<open>Cancelling a task\<close>

text \<open>
  The endpoint cancels a task that is neither completed, failed nor expired, and says so; a task
  already cancelled is cancelled again.  Other tasks stay as they are.  Only the record changes:
  no operation of the delegation coordinator is called.
\<close>

lemma admin_cancel_outcome:
  assumes "task_get d i = Some t" and "admin_cancel_task (Some d) i now = (a, Some d')"
  shows "case a of Inl _ \<Rightarrow> False | Inr c \<Rightarrow> ca_cancelled c = (tk_status t \<in> {Pending, Running, TaskCancelled}) \<and>
     (if ca_cancelled c
      then (\<exists>u. task_get d' i = Some u \<and> tk_status u = TaskCancelled \<and> tk_completed u = Some now \<and> tk_error u = Some ''Cancelled by API'')
      else d' = d) \<and>
     (\<forall>j. task_path j \<noteq> task_path i \<longrightarrow> task_get d' j = task_get d j)"
  using assms
  by (cases "tk_status t")
    (auto simp: admin_cancel_task_def task_update_status_def Let_def store_simps status_update_def copy_task_with_updates_def
      or_else_def or_keep_def terminal_statuses_def)

section \<open>A concrete configuration\<close>

definition demo_dump :: "(string \<times> bool \<times> pyval) list \<Rightarrow> yaml_file" where
  "demo_dump ms =
     (if list_ex (\<lambda>(k, e, v). e) ms then YamlError ''could not determine a constructor''
      else Yaml (PDict (map (\<lambda>(k, e, v). (k, v)) ms)))"

definition demo_admin :: admin_state where
  "demo_admin =
     \<lparr>as_env = demo_config, as_live = [(''app'', [(''runtime_mode'', PStr ''dev''), (''timezone'', PStr ''UTC'')]),
        (''capabilities'', [(''enabled_capabilities'', PList [PStr ''notes'', PStr ''shell'']), (''denied_capabilities'', PList [])])]\<rparr>"

theorem apply_config_confined_witness:
  "\<exists>s'. apply_config demo_dump None ''capabilities'' [(''denied_capabilities'', PList [PStr ''shell'']), (''other'', PNone)] True demo_admin
     = (Inr \<lparr>aa_applied = True, aa_reloaded = True, aa_keys = [''denied_capabilities'']\<rparr>, s') \<and>
     (\<forall>d. d \<noteq> ''capabilities'' \<longrightarrow> map_of (as_live s') d = map_of (as_live demo_admin) d)"
proof -
  let ?p = "[(''denied_capabilities'', PList [PStr ''shell'']), (''other'', PNone)]"
  obtain a s' where r: "apply_config demo_dump None ''capabilities'' ?p True demo_admin = (a, s')" by (metis surj_pair)
  have "fst (apply_config demo_dump None ''capabilities'' ?p True demo_admin)
      = Inr \<lparr>aa_applied = True, aa_reloaded = True, aa_keys = [''denied_capabilities'']\<rparr>" by code_simp
  with r have a: "a = Inr \<lparr>aa_applied = True, aa_reloaded = True, aa_keys = [''denied_capabilities'']\<rparr>" by simp
  show ?thesis using apply_config_confined[OF r] r unfolding a by auto
qed

theorem apply_breaks_config_witness:
  "\<exists>env x. apply_config demo_dump None ''app'' [(''timezone'', PStr ''CET'')] True demo_admin
      = (Inr \<lparr>aa_applied = True, aa_reloaded = False, aa_keys = [''timezone'']\<rparr>, demo_admin\<lparr>as_env := env\<rparr>) \<and>
      reload_domain env ''app'' = None \<and> load_config env = Inl x"
proof -
  let ?p = "[(''timezone'', PStr ''CET'')]"
  have "sc_build (ce_schema (as_env demo_admin) ''app'') (merged_config demo_admin ''app'' ?p)
      = Inr (merged_config demo_admin ''app'' ?p)" by (simp add: demo_admin_def demo_config_def)
  moreover have "filtered_payload ''app'' ?p = ?p" by code_simp
  moreover have "\<exists>m. demo_dump ms = YamlError m" if "\<exists>k v. (k, True, v) \<in> set ms" for ms
    using that by (auto simp: demo_dump_def list_ex_iff)
  ultimately show ?thesis
    using apply_breaks_config[of demo_dump "''runtime_mode''" "''app''" demo_admin ?p]
    by (simp add: enum_fields_def current_domain_def demo_admin_def)
qed

text \<open>str on the values of the example.\<close>

definition demo_str :: "pyval \<Rightarrow> string" where
  "demo_str v = (case v of PStr l \<Rightarrow> l | PInt i \<Rightarrow> show_int i | _ \<Rightarrow> [])"

theorem list_field_roundtrip_witness:
  "map_of (parse_form_payload (\<lambda>_. None) (\<lambda>_. None) ''capabilities'' [(''enabled_capabilities'', ''notes'' @ newline # ''shell'')]) ''enabled_capabilities''
     = Some (PList [PStr ''notes'', PStr ''shell'']) \<and>
   ''enabled_capabilities'' \<notin> fst ` set (fst (diff_config demo_admin ''capabilities''
     (parse_form_payload (\<lambda>_. None) (\<lambda>_. None) ''capabilities'' [(''enabled_capabilities'', ''notes'' @ newline # ''shell'')])))"
proof -
  have "''enabled_capabilities'' \<in> set (allowlisted_keys ''capabilities'')" "field_kind_of ''enabled_capabilities'' = TextArea LineList"
    "list_all plain_line [''notes'', ''shell'']"
    "display_value demo_str demo_str (TextArea LineList) (PList (map PStr [''notes'', ''shell''])) = PStr (''notes'' @ newline # ''shell'')"
    "dget (current_domain demo_admin ''capabilities'') ''enabled_capabilities'' = PList (map PStr [''notes'', ''shell''])"
    by code_simp+
  then show ?thesis
    using list_field_roundtrip[of demo_str "''enabled_capabilities''" "''capabilities''" "PList (map PStr [''notes'', ''shell''])"
        "[''notes'', ''shell'']" "[]" demo_str "''notes'' @ newline # ''shell''"
        "[(''enabled_capabilities'', ''notes'' @ newline # ''shell'')]" "\<lambda>_. None" "\<lambda>_. None" demo_admin]
    by (simp add: demo_str_def)
qed

end
