(* ===== verification/Store_Runtime.thy ===== *)
theory Store_Runtime
  imports Recovery Lock_Coordinator
begin

text \<open>
  The runtime manager of the store, store/runtime/manager.py, beside the operations on locks: the
  periodic clean-up, the history of recovery scans, statistics and the self-test of atomic writes.
  A history file is its name, its modification time and its contents; stamp stands for strftime.
\<close>

type_synonym history = "(string \<times> time \<times> doc) list"

record runtime_state =
  rt_store :: store_state
  rt_locks :: "doc dir"
  rt_history :: history
  rt_cleanup_at :: "time option"
  rt_recovery_at :: "time option"
  rt_running :: bool

section \<open>Clean-up\<close>

text \<open>Starting creates the task of the clean-up loop, stopping cancels it.\<close>

definition runtime_start :: "runtime_state \<Rightarrow> runtime_state" where
  "runtime_start s = (if rt_running s then s else s\<lparr>rt_running := True\<rparr>)"

definition runtime_stop :: "runtime_state \<Rightarrow> runtime_state" where
  "runtime_stop s = s\<lparr>rt_running := False\<rparr>"

text \<open>c1, c2 and c3 are the clock readings of the clean-up, of the locks and of the ledger.\<close>

definition cleanup_expired_resources :: "time \<Rightarrow> time \<Rightarrow> time \<Rightarrow> runtime_state \<Rightarrow> (nat \<times> nat \<times> time) \<times> runtime_state" where
  "cleanup_expired_resources c1 c2 c3 s =
     (let (nl, locks) = cleanup_expired_locks (rt_locks s) c2;
          (ni, idem) = idem_cleanup_expired (st_idem (rt_store s)) c3
      in ((nl, ni, c1), s\<lparr>rt_cleanup_at := Some c1, rt_locks := locks, rt_store := (rt_store s)\<lparr>st_idem := idem\<rparr>\<rparr>))"

text \<open>One round of the loop, after the sleep; an error of the clean-up is swallowed.\<close>

definition cleanup_round :: "time \<Rightarrow> time \<Rightarrow> time \<Rightarrow> runtime_state \<Rightarrow> runtime_state" where
  "cleanup_round c1 c2 c3 s = (if rt_running s then snd (cleanup_expired_resources c1 c2 c3 s) else s)"

section \<open>The history of recovery scans\<close>

definition save_recovery_marker :: "(time \<Rightarrow> string) \<Rightarrow> time \<Rightarrow> recovery_marker \<Rightarrow> runtime_state \<Rightarrow> runtime_state" where
  "save_recovery_marker stamp mtime m s =
     s\<lparr>rt_history := AList.update (rm_component m @ ''_'' @ stamp (rm_scan_at m) @ ''.json'') (mtime, Obj (marker_to_dict m)) (rt_history s),
       rt_recovery_at := Some (rm_scan_at m)\<rparr>"

text \<open>The glob pattern of a component, or of all; characters special in a pattern do not occur.\<close>

definition history_match :: "string option \<Rightarrow> string \<Rightarrow> bool" where
  "history_match component name =
     (case component of
        None \<Rightarrow> suffix ''.json'' name
      | Some c \<Rightarrow>
          if c = [] then suffix ''.json'' name
          else take (length c + 1) name = c @ ''_'' \<and> suffix ''.json'' (drop (length c + 1) name))"

fun history_loop :: "int \<Rightarrow> recovery_marker list \<Rightarrow> (string \<times> time \<times> doc) list \<Rightarrow> recovery_marker list" where
  "history_loop limit markers [] = markers"
| "history_loop limit markers (f # fs) =
     (if int (length markers) \<ge> limit then markers
      else (case decode marker_of_dict (snd (snd f)) of
              None \<Rightarrow> history_loop limit markers fs
            | Some m \<Rightarrow> history_loop limit (markers @ [m]) fs))"

definition get_recovery_history :: "string option \<Rightarrow> int \<Rightarrow> runtime_state \<Rightarrow> recovery_marker list" where
  "get_recovery_history component limit s =
     history_loop limit [] (py_sorted_rev (\<lambda>f. fst (snd f)) (filter (\<lambda>f. history_match component (fst f)) (rt_history s)))"

text \<open>clocks are the readings run_recovery_scan takes.\<close>

definition trigger_recovery_scan ::
  "(time \<Rightarrow> string) \<Rightarrow> (time \<Rightarrow> string) \<Rightarrow> (nat \<Rightarrow> time) \<Rightarrow> time \<Rightarrow> time \<Rightarrow> time \<Rightarrow> time \<Rightarrow> runtime_state
    \<Rightarrow> recovery_marker \<times> runtime_state" where
  "trigger_recovery_scan fmt stamp clk ct ci cm mtime s =
     (case run_recovery_scan fmt clk ct ci cm (rt_store s) of
        (m, st) \<Rightarrow> (m, save_recovery_marker stamp mtime m (s\<lparr>rt_store := st\<rparr>)))"

record recovery_summary =
  rs_total :: nat
  rs_recent :: "recovery_status option"
  rs_last_at :: "time option"
  rs_counts :: "(recovery_status \<times> nat) list"
  rs_found :: int
  rs_repaired :: int
  rs_scans :: "(string \<times> time \<times> recovery_status \<times> int \<times> int) list"

text \<open>Without a history the recent status is the text unknown, here None.\<close>

definition get_recovery_summary :: "runtime_state \<Rightarrow> recovery_summary" where
  "get_recovery_summary s =
     (let history = get_recovery_history None 20 s
      in case history of
           [] \<Rightarrow> \<lparr>rs_total = 0, rs_recent = None, rs_last_at = None, rs_counts = [], rs_found = 0, rs_repaired = 0, rs_scans = []\<rparr>
         | m # _ \<Rightarrow>
             \<lparr>rs_total = length history, rs_recent = Some (rm_status m), rs_last_at = Some (rm_scan_at m),
              rs_counts = map (\<lambda>st. (st, length (filter (\<lambda>m. rm_status m = st) history))) all_recovery,
              rs_found = sum_list (map rm_found history), rs_repaired = sum_list (map rm_repaired history),
              rs_scans = map (\<lambda>m. (rm_component m, rm_scan_at m, rm_status m, rm_found m, rm_repaired m)) (take 5 history)\<rparr>)"

section \<open>Statistics\<close>

record store_statistics =
  ss_sessions :: nat
  ss_tasks :: nat
  ss_idempotency :: nat
  ss_locks :: lock_diagnostics
  ss_recovery :: "(recovery_status \<times> time \<times> int \<times> int) option"
  ss_cleanup_at :: "time option"
  ss_recovery_at :: "time option"
  ss_collected :: time

text \<open>The sessions are the log files; an error of the lock diagnostics is not caught.\<close>

definition get_store_statistics :: "time \<Rightarrow> time \<Rightarrow> time \<Rightarrow> runtime_state \<Rightarrow> (exn + store_statistics)" where
  "get_store_statistics c1 c2 c3 s =
     (case get_lock_diagnostics (rt_locks s) c1 c2 of
        Inl x \<Rightarrow> Inl x
      | Inr locks \<Rightarrow>
          Inr \<lparr>ss_sessions = length (st_sessions (rt_store s)),
               ss_tasks = length (filter (\<lambda>f. suffix ''.json'' (fst f)) (st_tasks (rt_store s))),
               ss_idempotency = length (filter (\<lambda>f. suffix ''.json'' (fst f)) (st_idem (rt_store s))),
               ss_locks = locks,
               ss_recovery = map_option (\<lambda>m. (rm_status m, rm_scan_at m, rm_found m, rm_repaired m)) (get_recovery_status (rt_store s)),
               ss_cleanup_at = rt_cleanup_at s, ss_recovery_at = rt_recovery_at s, ss_collected = c3\<rparr>)"

section \<open>The self-test of atomic writes\<close>

datatype integrity = IntegrityOk | MissingAfterWrite | ContentMismatch | WriteRaised exn

definition verify_atomic_write_integrity ::
  "write_fault \<Rightarrow> string \<Rightarrow> string \<Rightarrow> string dir \<Rightarrow> integrity \<times> string dir" where
  "verify_atomic_write_integrity fault tmp stamped d =
     (let content = ''integrity_test_'' @ stamped; name = ''test_atomic_write.txt''
      in case atomic_write fault tmp name content d of
           (Inl x, d') \<Rightarrow> (WriteRaised x, d')
         | (Inr _, d') \<Rightarrow>
             (case map_of d' name of
                None \<Rightarrow> (MissingAfterWrite, d')
              | Some c \<Rightarrow> if c \<noteq> content then (ContentMismatch, d') else (IntegrityOk, AList.delete name d')))"


section \<open>What the history tells\<close>

lemma insort_key_greatest: "\<forall>y \<in> set ys. f y < f x \<Longrightarrow> insort_key f x ys = ys @ [x]"
  by (induction ys) auto

lemma py_sorted_rev_newest: "\<forall>y \<in> set xs. f y < f x \<Longrightarrow> py_sorted_rev f (xs @ [x]) = x # py_sorted_rev f xs"
  by (simp add: py_sorted_rev_def insort_key_greatest)

lemma history_loop_eq:
  "history_loop limit ms fs = ms @ take (nat (limit - int (length ms))) (List.map_filter (\<lambda>f. decode marker_of_dict (snd (snd f))) fs)"
proof (induction fs arbitrary: ms)
  case (Cons f fs)
  have "nat (limit - int (length ms)) = Suc (nat (limit - int (length (ms @ [m]))))" if "int (length ms) < limit" for m :: recovery_marker
    using that by simp
  with Cons show ?case by (cases "int (length ms) < limit") (auto simp: map_filter_Cons split: option.splits)
qed (simp add: map_filter_Nil)

lemma history_bounded: "int (length (get_recovery_history c limit s)) \<le> max 0 limit"
  by (simp add: get_recovery_history_def history_loop_eq)

text \<open>
  The newest scan comes first: a marker saved under a new name, at a time after all files of the
  history, is the first of the history, before the ones that were there.
\<close>

theorem saved_marker_first:
  assumes "rm_component m @ ''_'' @ stamp (rm_scan_at m) @ ''.json'' \<notin> fst ` set (rt_history s)"
    and "\<forall>f \<in> set (rt_history s). fst (snd f) < mtime" and "1 \<le> limit"
  shows "get_recovery_history None limit (save_recovery_marker stamp mtime m s) = m # get_recovery_history None (limit - 1) s"
proof -
  have "AList.update k v xs = xs @ [(k, v)]" if "k \<notin> fst ` set xs" for k v and xs :: history
    using that by (induction xs) auto
  moreover have "suffix ''.json'' (rm_component m @ ''_'' @ stamp (rm_scan_at m) @ ''.json'')"
    by (simp add: suffix_def)
  moreover have "nat limit = Suc (nat (limit - 1))" using assms(3) by simp
  ultimately show ?thesis
    using assms(1,2)
    by (simp add: get_recovery_history_def save_recovery_marker_def history_match_def history_loop_eq py_sorted_rev_newest
        map_filter_Cons decode_def)
qed

lemma summary_counts:
  "sum_list (map snd (rs_counts (get_recovery_summary s))) = rs_total (get_recovery_summary s)"
proof -
  have "sum_list (map (\<lambda>st. length (filter (\<lambda>m. rm_status m = st) ms)) all_recovery) = length ms" for ms
  proof (induction ms)
    case (Cons m ms)
    then show ?case by (cases "rm_status m") (simp_all add: all_recovery_def)
  qed (simp add: all_recovery_def)
  from this[of "get_recovery_history None 20 s"] show ?thesis
    by (cases "get_recovery_history None 20 s") (simp_all add: get_recovery_summary_def Let_def comp_def del: filter.simps)
qed

text \<open>
  The glob of a component also takes the files of components whose name continues it after an
  underscore.
\<close>

lemma history_of_other_component:
  "get_recovery_history (Some ''store'') 10
     \<lparr>rt_store = st, rt_locks = [], rt_history = [(''store_facade_1.json'', 1, Obj (marker_to_dict m))],
      rt_cleanup_at = None, rt_recovery_at = None, rt_running = True\<rparr> = [m]"
  by (simp add: get_recovery_history_def history_match_def suffix_def py_sorted_rev_def decode_def)

lemma cleanup_keeps_held_locks:
  assumes "dir_ok (rt_locks s)" and "lock_read H (rt_locks s) key = Some r" and "c2 < lk_expires r"
  shows "lock_read H (rt_locks (cleanup_round c1 c2 c3 s)) key = Some r"
  using lock_read_cleanup[OF assms] assms(2)
  by (simp add: cleanup_round_def cleanup_expired_resources_def Let_def split_beta)

text \<open>The self-test succeeds exactly when the write stored everything, and then leaves no file behind.\<close>

lemma integrity_test_truthful:
  assumes "t \<noteq> ''test_atomic_write.txt''" and "map_of d t = None"
  shows "(fst (verify_atomic_write_integrity fault t w d) = IntegrityOk) =
     (case fault of NoFault \<Rightarrow> True | ShortWrite k \<Rightarrow> k \<ge> length (''integrity_test_'' @ w) | _ \<Rightarrow> False)"
proof -
  have "(case atomic_write fault t ''test_atomic_write.txt'' c d of
      (Inl x, d') \<Rightarrow> False | (Inr _, d') \<Rightarrow> map_of d' ''test_atomic_write.txt'' = Some c) =
      (case fault of NoFault \<Rightarrow> True | ShortWrite k \<Rightarrow> k \<ge> length c | _ \<Rightarrow> False)" for c
    using assms by (cases fault) (simp_all add: atomic_write_def atomic_write_steps_def alist_simps take_all_iff)
  from this[of "''integrity_test_'' @ w"] show ?thesis
    by (auto simp: verify_atomic_write_integrity_def Let_def split: prod.splits sum.splits option.splits write_fault.splits)
qed

lemma integrity_test_clean:
  assumes "t \<noteq> ''test_atomic_write.txt''" and "map_of d t = None"
    and "verify_atomic_write_integrity fault t w d = (IntegrityOk, d')"
  shows "map_of d' n = (if n = ''test_atomic_write.txt'' then None else map_of d n)"
  using assms by (cases fault)
    (auto simp: verify_atomic_write_integrity_def Let_def atomic_write_def atomic_write_steps_def alist_simps split: if_splits)

end
