(* ===== verification/Exercises.thy ===== *)
theory Exercises
  imports Vocabulary "HOL-Library.Multiset"
begin

text \<open>
  The tools of the language-learning extension that start exercises, search the vocabulary and
  take results, extensions/language_learning/tools, on the store of Vocabulary.  pack is the
  encoding of a JSON document for a URL (json.dumps, gzip and base64); validate_fill and
  parse_results are what json and pydantic make of the arguments, Inl being their message.  Texts
  that are only shown are left out where they depend on nothing but the values given.
\<close>

section \<open>The payload of an exercise\<close>

definition opt_item :: "string \<Rightarrow> string option \<Rightarrow> dict" where
  "opt_item k v = (case v of None \<Rightarrow> [] | Some s \<Rightarrow> [(k, PStr s)])"

definition compact_verb_forms :: "verb_forms \<Rightarrow> dict" where
  "compact_verb_forms v =
     [(''p'', PStr (vf_present v)), (''pt'', PStr (vf_present_tr v)), (''ao'', PStr (vf_aorist v)),
      (''aot'', PStr (vf_aorist_tr v)), (''f'', PStr (vf_future v)), (''ft'', PStr (vf_future_tr v))]"

text \<open>CompactWordPayload by its aliases, without the fields that are None.\<close>

definition compact_word :: "'c vocab_entry \<Rightarrow> dict" where
  "compact_word e =
     [(''id'', PStr (ve_id e)), (''w'', PStr (ve_word e)), (''t'', PStr (ve_translit e)), (''tr'', PStr (ve_translation e))]
     @ opt_item ''a'' (ve_article e)
     @ (case ve_verb e of None \<Rightarrow> [] | Some v \<Rightarrow> [(''vf'', PDict (compact_verb_forms v))])
     @ opt_item ''ex'' (ve_example e) @ opt_item ''et'' (ve_example_tr e)"

definition encode_words :: "(pyval \<Rightarrow> string + string) \<Rightarrow> 'c vocab_entry list \<Rightarrow> string + string" where
  "encode_words pack ws = pack (PList (map (PDict \<circ> compact_word) ws))"

definition direction_value :: "direction \<Rightarrow> string" where
  "direction_value d = (case d of Forward \<Rightarrow> ''forward'' | Backward \<Rightarrow> ''reverse'')"

definition direction_of_value :: "string \<Rightarrow> direction option" where
  "direction_of_value s = find (\<lambda>d. direction_value d = s) [Forward, Backward]"

definition rstrip_slash :: "string \<Rightarrow> string" where
  "rstrip_slash s = rev (dropWhile (\<lambda>c. c = CHR ''/'') (rev s))"

section \<open>Starting an exercise\<close>

datatype exercise_answer =
    ExUnavailable
  | ExRejected string
  | ExError string
  | ExNothingDue
  | ExReady string nat "nat \<times> nat \<times> nat" string

text \<open>
  The flashcards and the matching exercise differ in their limits and the variable with the
  address.  The user and the store are None when language learning is not configured; the counts
  are those of the words being learned, of the new and of the known ones.
\<close>

record exercise_kind =
  ek_least :: int
  ek_most :: int
  ek_url :: string
  ek_no_url :: string

definition invalid_direction :: "string \<Rightarrow> string" where
  "invalid_direction s =
     ''Invalid direction '' @ [CHR 0x27] @ s @ [CHR 0x27] @ ''. Use '' @ [CHR 0x27] @ ''forward'' @ [CHR 0x27] @ '' or ''
      @ [CHR 0x27] @ ''reverse'' @ [CHR 0x27] @ ''.''"

definition count_status :: "learning_status \<Rightarrow> 'c vocab_entry list \<Rightarrow> nat" where
  "count_status st ws = length (filter (\<lambda>e. ve_status e = st) ws)"

definition exercise_url :: "string \<Rightarrow> string \<Rightarrow> string \<Rightarrow> string \<Rightarrow> string" where
  "exercise_url raw param encoded dirtext = rstrip_slash raw @ ''?'' @ param @ ''='' @ encoded @ ''&dir='' @ dirtext"

definition run_exercise ::
  "exercise_kind \<Rightarrow> (pyval \<Rightarrow> string + string) \<Rightarrow> (string \<times> string) list \<Rightarrow> string option \<Rightarrow> 'c vocab_file dir option
    \<Rightarrow> string \<Rightarrow> int \<Rightarrow> string list \<Rightarrow> time \<Rightarrow> exercise_answer" where
  "run_exercise kind pack environ user store dirtext limit tags now =
     (case (user, store) of
        (Some u, Some d) \<Rightarrow>
          (case direction_of_value dirtext of
             None \<Rightarrow> ExRejected (invalid_direction dirtext)
           | Some dir \<Rightarrow>
               (let selected = get_due_words u (max (ek_least kind) (min limit (ek_most kind))) tags dir now d
                in if selected = [] then ExNothingDue
                   else (case encode_words pack selected of
                     Inl m \<Rightarrow> ExError (''Failed to encode words: '' @ m)
                   | Inr encoded \<Rightarrow>
                       (case map_of environ (ek_url kind) of
                          None \<Rightarrow> ExError (ek_no_url kind)
                        | Some raw \<Rightarrow>
                            ExReady (exercise_url raw ''words'' encoded dirtext) (length selected)
                              (count_status LearningWord selected, count_status NewWord selected, count_status KnownWord selected)
                              dirtext))))
      | _ \<Rightarrow> ExUnavailable)"

definition flashcards :: exercise_kind where
  "flashcards = \<lparr>ek_least = 1, ek_most = 30, ek_url = ''VOCABULARY_WEBAPP_URL'',
     ek_no_url = ''Exercise cannot be started: WebApp URL is not configured.''\<rparr>"

definition matching :: exercise_kind where
  "matching = \<lparr>ek_least = 2, ek_most = 10, ek_url = ''MATCHING_WEBAPP_URL'',
     ek_no_url = ''Exercise cannot be started: Matching WebApp URL is not configured.''\<rparr>"

definition start_exercise ::
  "(pyval \<Rightarrow> string + string) \<Rightarrow> (string \<times> string) list \<Rightarrow> string option \<Rightarrow> 'c vocab_file dir option
    \<Rightarrow> string \<Rightarrow> int \<Rightarrow> string list \<Rightarrow> time \<Rightarrow> exercise_answer" where
  "start_exercise = run_exercise flashcards"

definition start_matching_exercise ::
  "(pyval \<Rightarrow> string + string) \<Rightarrow> (string \<times> string) list \<Rightarrow> string option \<Rightarrow> 'c vocab_file dir option
    \<Rightarrow> string \<Rightarrow> int \<Rightarrow> string list \<Rightarrow> time \<Rightarrow> exercise_answer" where
  "start_matching_exercise = run_exercise matching"

text \<open>Blanks to fill in.\<close>

record fill_blank =
  fb_position :: nat
  fb_word :: string

record fill_sentence =
  fs_id :: string
  fs_template :: string
  fs_translit :: "string option"
  fs_translation :: "string option"
  fs_blanks :: "fill_blank list"

record fill_word =
  fw_id :: string
  fw_word :: string
  fw_translit :: string

record fill_payload =
  fp_sentences :: "fill_sentence list"
  fp_bank :: "fill_word list"

definition dump_sentence :: "fill_sentence \<Rightarrow> dict" where
  "dump_sentence s =
     [(''id'', PStr (fs_id s)), (''template'', PStr (fs_template s)), (''transliteration'', of_opt PStr (fs_translit s)),
      (''translation'', of_opt PStr (fs_translation s)),
      (''blanks'', PList (map (\<lambda>b. PDict [(''position'', PInt (int (fb_position b))), (''word_id'', PStr (fb_word b))]) (fs_blanks s)))]"

definition dump_fill :: "fill_payload \<Rightarrow> dict" where
  "dump_fill p =
     [(''type'', PStr ''fill_blanks''), (''sentences'', PList (map (PDict \<circ> dump_sentence) (fp_sentences p))),
      (''word_bank'', PList (map (\<lambda>w. PDict [(''id'', PStr (fw_id w)), (''word'', PStr (fw_word w)), (''transliteration'', PStr (fw_translit w))]) (fp_bank p)))]"

definition encode_fill_blanks :: "(pyval \<Rightarrow> string + string) \<Rightarrow> fill_payload \<Rightarrow> string + string" where
  "encode_fill_blanks pack p = pack (PDict (dump_fill p))"

datatype fill_answer =
    FillUnavailable
  | FillRejected string
  | FillError string
  | FillReady string nat nat nat string

definition start_fill_blanks_exercise ::
  "(dict list \<Rightarrow> dict list \<Rightarrow> string + fill_payload) \<Rightarrow> (pyval \<Rightarrow> string + string) \<Rightarrow> (string \<times> string) list
    \<Rightarrow> string option \<Rightarrow> 'c vocab_file dir option \<Rightarrow> dict list \<Rightarrow> dict list \<Rightarrow> string \<Rightarrow> fill_answer" where
  "start_fill_blanks_exercise validate_fill pack environ user store sentences bank dirtext =
     (if user = None \<or> store = None then FillUnavailable
      else case direction_of_value dirtext of
        None \<Rightarrow> FillRejected (invalid_direction dirtext)
      | Some dir \<Rightarrow>
          (case validate_fill sentences bank of
             Inl m \<Rightarrow> FillRejected (''Invalid exercise data: '' @ m)
           | Inr p \<Rightarrow>
               if fp_sentences p = [] then FillRejected ''Exercise must have at least one sentence.''
               else (case map_of environ ''FILL_BLANKS_WEBAPP_URL'' of
                 None \<Rightarrow> FillError ''Exercise cannot be started: Fill-blanks WebApp URL is not configured.''
               | Some raw \<Rightarrow>
                   (case encode_fill_blanks pack p of
                      Inl m \<Rightarrow> FillError (''Failed to encode exercise: '' @ m)
                    | Inr encoded \<Rightarrow>
                        FillReady (exercise_url raw ''data'' encoded (direction_value dir)) (length (fp_sentences p))
                          (sum_list (map (length \<circ> fs_blanks) (fp_sentences p))) (length (fp_bank p)) (direction_value dir)))))"

section \<open>Looking up words\<close>

record word_line =
  wl_id :: string
  wl_word :: string
  wl_translit :: string
  wl_translation :: string
  wl_pos :: string
  wl_status :: string
  wl_tags :: "string list"
  wl_next :: time
  wl_stability :: "rat option"
  wl_difficulty :: "rat option"
  wl_total :: nat
  wl_due :: bool
  wl_article :: "string option"
  wl_gender :: "gender option"
  wl_example :: "string option"

text \<open>round2 rounds to two digits; an optional text is given when it is not empty.\<close>

definition shown_text :: "string option \<Rightarrow> string option" where
  "shown_text t = (if t = Some [] then None else t)"

definition format_entry :: "('c \<Rightarrow> rat option) \<Rightarrow> ('c \<Rightarrow> rat option) \<Rightarrow> (rat \<Rightarrow> rat) \<Rightarrow> time \<Rightarrow> 'c vocab_entry \<Rightarrow> word_line" where
  "format_entry stab diff round2 now e =
     \<lparr>wl_id = ve_id e, wl_word = ve_word e, wl_translit = ve_translit e, wl_translation = ve_translation e,
      wl_pos = pos_value (ve_pos e), wl_status = learning_value (ve_status e), wl_tags = ve_tags e, wl_next = ve_next e,
      wl_stability = map_option round2 (Option.bind (ve_card e) stab), wl_difficulty = map_option round2 (Option.bind (ve_card e) diff),
      wl_total = ve_total e, wl_due = (ve_next e \<le> now), wl_article = shown_text (ve_article e), wl_gender = ve_gender e,
      wl_example = shown_text (ve_example e)\<rparr>"

datatype 'r lookup_answer = LookupUnavailable | LookupRejected string | LookupOk 'r

definition search_max :: int where "search_max = 50"

definition found_entries ::
  "string \<Rightarrow> string \<Rightarrow> string list \<Rightarrow> learning_status option \<Rightarrow> int \<Rightarrow> 'c vocab_file dir \<Rightarrow> 'c vocab_entry list" where
  "found_entries user query tags status limit d =
     (if query \<noteq> []
      then slice_to (filter (shares_tag tags) (filter (\<lambda>e. case status of None \<Rightarrow> True | Some s \<Rightarrow> ve_status e = s)
             (vocab_search user query (limit * 3) d))) limit
      else list_entries user tags status (Some limit) 0 d)"

definition search_vocabulary ::
  "(time \<Rightarrow> 'c vocab_entry \<Rightarrow> word_line) \<Rightarrow> string option \<Rightarrow> 'c vocab_file dir option \<Rightarrow> string \<Rightarrow> string list \<Rightarrow> string option
    \<Rightarrow> int \<Rightarrow> (nat \<Rightarrow> time) \<Rightarrow> word_line list lookup_answer" where
  "search_vocabulary fmt user store query tags status limit clk =
     (case (user, store) of
        (Some u, Some d) \<Rightarrow>
          if status \<noteq> None \<and> Option.bind status learning_of_value = None
          then LookupRejected (''Invalid status '' @ [CHR 0x27] @ the status @ [CHR 0x27] @ ''. Valid values: new, learning, known, suspended'')
          else LookupOk (map (\<lambda>(n, e). fmt (clk n) e)
                 (enumerate 0 (found_entries u query tags (Option.bind status learning_of_value) (max 1 (min limit search_max)) d)))
      | _ \<Rightarrow> LookupUnavailable)"

record word_item =
  wx_id :: string
  wx_word :: string
  wx_translit :: string
  wx_translation :: string
  wx_pos :: string
  wx_tags :: "string list"
  wx_status :: string
  wx_article :: "string option"
  wx_gender :: "gender option"
  wx_verb :: "verb_forms option"
  wx_example :: "string option"
  wx_example_tr :: "string option"

definition word_item_of :: "'c vocab_entry \<Rightarrow> word_item" where
  "word_item_of e =
     \<lparr>wx_id = ve_id e, wx_word = ve_word e, wx_translit = ve_translit e, wx_translation = ve_translation e,
      wx_pos = pos_value (ve_pos e), wx_tags = ve_tags e, wx_status = learning_value (ve_status e),
      wx_article = shown_text (ve_article e), wx_gender = ve_gender e, wx_verb = ve_verb e,
      wx_example = shown_text (ve_example e), wx_example_tr = shown_text (ve_example_tr e)\<rparr>"

definition get_words_tool ::
  "'c fsrs \<Rightarrow> ('c vocab_entry list \<Rightarrow> 'c vocab_entry list) \<Rightarrow> string option \<Rightarrow> 'c vocab_file dir option \<Rightarrow> string list \<Rightarrow> string list
    \<Rightarrow> int \<Rightarrow> string \<Rightarrow> rat option \<Rightarrow> rat option \<Rightarrow> word_item list lookup_answer" where
  "get_words_tool f shuffle user store tags pos limit order lo hi =
     (case (user, store) of
        (Some u, Some d) \<Rightarrow> LookupOk (map word_item_of (get_words f shuffle u tags pos (max 1 (min limit 30)) order lo hi d))
      | _ \<Rightarrow> LookupUnavailable)"

section \<open>Results and changes\<close>

datatype results_answer =
    ResUnavailable
  | ResRejected string
  | ResError exn
  | ResOk "nat \<times> nat \<times> (string \<times> nat) list \<times> (string \<times> nat) list"

definition process_exercise_results ::
  "(string \<Rightarrow> string + card_result list) \<Rightarrow> 'c fsrs \<Rightarrow> string option \<Rightarrow> 'c vocab_file dir option \<Rightarrow> string \<Rightarrow> time
    \<Rightarrow> results_answer \<times> 'c vocab_file dir option" where
  "process_exercise_results parse_results f user store results_json now =
     (case (user, store) of
        (Some u, Some d) \<Rightarrow>
          (case parse_results results_json of
             Inl m \<Rightarrow> (ResRejected m, store)
           | Inr rs \<Rightarrow>
               if rs = [] then (ResRejected ''No results provided in payload.'', store)
               else (case process_results f u rs now d of
                       (Inl x, d') \<Rightarrow> (ResError x, Some d')
                     | (Inr updated, d') \<Rightarrow> (ResOk (exercise_report rs updated), Some d')))
      | _ \<Rightarrow> (ResUnavailable, store))"

datatype 'r change_answer = ChangeUnavailable | ChangeRejected string | ChangeOk 'r

definition set_word_status_tool ::
  "string option \<Rightarrow> 'c vocab_file dir option \<Rightarrow> (nat \<Rightarrow> time) \<Rightarrow> (string \<times> string) list
    \<Rightarrow> (string list \<times> string list) change_answer \<times> 'c vocab_file dir option" where
  "set_word_status_tool user store clk updates =
     (case (user, store) of
        (Some u, Some d) \<Rightarrow>
          if updates = [] then (ChangeRejected ''updates list cannot be empty'', store)
          else (case set_word_status u clk updates d of (r, d') \<Rightarrow> (ChangeOk r, Some d'))
      | _ \<Rightarrow> (ChangeUnavailable, store))"

definition add_vocabulary_tool ::
  "add_env \<Rightarrow> string option \<Rightarrow> 'c vocab_file dir option \<Rightarrow> (nat \<Rightarrow> string) \<Rightarrow> (nat \<Rightarrow> time) \<Rightarrow> word_input list
    \<Rightarrow> (add_answer \<times> nat) change_answer \<times> 'c vocab_file dir option" where
  "add_vocabulary_tool env user store ids clk ws =
     (case (user, store) of
        (Some u, Some d) \<Rightarrow>
          if ws = [] then (ChangeRejected ''words list cannot be empty'', store)
          else (case add_vocabulary env u ids clk ws d of (r, d') \<Rightarrow> (ChangeOk r, Some d'))
      | _ \<Rightarrow> (ChangeUnavailable, store))"


section \<open>The words of an exercise\<close>

lemma due_words_sub:
  "e \<in> set (get_due_words u limit tags dir now d) \<Longrightarrow>
     e \<in> snd ` set (read_user_vocabulary d u) \<and> ve_status e \<noteq> SuspendedWord \<and> shares_tag tags e \<and> (ve_status e = NewWord \<or> is_due e dir now)"
  using due_words_exact[of u limit tags dir now d] set_slice_to by fastforce

lemma due_words_distinct: "distinct (map ve_id (get_due_words u limit tags dir now d))"
proof -
  obtain ws where ws: "get_due_words u limit tags dir now d = slice_to ws limit" "distinct ws"
    "set ws \<subseteq> snd ` set (read_user_vocabulary d u)"
    using due_words_exact[of u limit tags dir now d] by blast
  have "distinct (slice_to ws limit)" using ws(2) by (simp add: slice_to_def)
  moreover have "inj_on ve_id (snd ` set (read_user_vocabulary d u))"
    using read_words_ok[of d u] unfolding words_ok_def inj_on_def
    by (metis (no_types, lifting) image_iff map_of_eq_Some_iff prod.collapse option.inject)
  then have "inj_on ve_id (set (slice_to ws limit))"
    by (rule inj_on_subset) (use ws(3) set_slice_to[of ws limit] in blast)
  ultimately show ?thesis using ws(1) by (simp add: distinct_map)
qed

lemma map_of_word: "e \<in> snd ` set (read_user_vocabulary d u) \<Longrightarrow> map_of (read_user_vocabulary d u) (ve_id e) = Some e"
  using read_words_ok[of d u] by (force simp: words_ok_def)

lemma direction_of_value_simps [simp]:
  "direction_of_value (direction_value dir) = Some dir"
  "direction_of_value s = Some dir \<longleftrightarrow> s = direction_value dir"
  by (cases dir; auto simp: direction_of_value_def direction_value_def)+

lemma direction_value_inj [simp]: "direction_value a = direction_value b \<longleftrightarrow> a = b"
  by (cases a; cases b) (simp_all add: direction_value_def)

lemma status_counts: "\<forall>e \<in> set ws. ve_status e \<noteq> SuspendedWord \<Longrightarrow>
    count_status LearningWord ws + count_status NewWord ws + count_status KnownWord ws = length ws"
proof (induction ws)
  case (Cons e ws)
  then show ?case by (cases "ve_status e") (auto simp: count_status_def)
qed (simp add: count_status_def)

lemma run_exercise_ready:
  "run_exercise kind pack environ user store dirtext limit tags now = ExReady url n counts dt \<longleftrightarrow>
    (\<exists>u d dir ws encoded raw. user = Some u \<and> store = Some d \<and> dirtext = direction_value dir \<and>
       ws = get_due_words u (max (ek_least kind) (min limit (ek_most kind))) tags dir now d \<and> ws \<noteq> [] \<and>
       encode_words pack ws = Inr encoded \<and> map_of environ (ek_url kind) = Some raw \<and>
       url = exercise_url raw ''words'' encoded dirtext \<and> n = length ws \<and>
       counts = (count_status LearningWord ws, count_status NewWord ws, count_status KnownWord ws) \<and> dt = dirtext)"
  unfolding run_exercise_def Let_def
  by (auto split: option.splits sum.splits)

section \<open>The results of an exercise\<close>

lemma review_loop_all_found:
  assumes "distinct (map cr_word rs)"
    and "\<forall>r \<in> set rs. 0 \<le> cr_rating r \<and> cr_rating r \<le> 3 \<and> map_of ws (cr_word r) \<noteq> None"
  shows "\<exists>upd' ws'. review_loop f now rs upd ws = Inr (upd', ws') \<and>
     (\<forall>i. i \<notin> cr_word ` set rs \<longrightarrow> map_of ws' i = map_of ws i \<and> map_of upd' i = map_of upd i) \<and>
     (\<forall>r \<in> set rs. \<exists>e u. map_of ws (cr_word r) = Some e \<and>
        update_entry f e (cr_rating r) (cr_direction r) now (cr_time r) = Inr u \<and>
        map_of ws' (cr_word r) = Some u \<and> map_of upd' (cr_word r) = Some (Some u)) \<and>
     (distinct (map fst upd) \<longrightarrow> distinct (map fst upd')) \<and> fst ` set upd' = fst ` set upd \<union> cr_word ` set rs"
  using assms
proof (induction rs arbitrary: upd ws)
  case (Cons r rs)
  obtain e where e: "map_of ws (cr_word r) = Some e" using Cons.prems(2) by auto
  obtain u where u: "update_entry f e (cr_rating r) (cr_direction r) now (cr_time r) = Inr u"
    using Cons.prems(2) by (auto simp: update_entry_def Let_def)
  let ?upd = "AList.update (cr_word r) (Some u) upd" and ?ws = "AList.update (cr_word r) u ws"
  have "\<forall>r' \<in> set rs. cr_word r' \<noteq> cr_word r" using Cons.prems(1) by (auto simp: image_iff)
  then have "\<forall>r' \<in> set rs. 0 \<le> cr_rating r' \<and> cr_rating r' \<le> 3 \<and> map_of ?ws (cr_word r') \<noteq> None"
    and same: "\<forall>r' \<in> set rs. map_of ?ws (cr_word r') = map_of ws (cr_word r')"
    using Cons.prems(2) by (auto simp: update_conv')
  with Cons.IH[of ?ws ?upd] Cons.prems(1) obtain upd' ws' where IH: "review_loop f now rs ?upd ?ws = Inr (upd', ws')"
    "\<forall>i. i \<notin> cr_word ` set rs \<longrightarrow> map_of ws' i = map_of ?ws i \<and> map_of upd' i = map_of ?upd i"
    "\<forall>r \<in> set rs. \<exists>e u. map_of ?ws (cr_word r) = Some e \<and>
        update_entry f e (cr_rating r) (cr_direction r) now (cr_time r) = Inr u \<and>
        map_of ws' (cr_word r) = Some u \<and> map_of upd' (cr_word r) = Some (Some u)"
    "distinct (map fst ?upd) \<longrightarrow> distinct (map fst upd')" "fst ` set upd' = fst ` set ?upd \<union> cr_word ` set rs"
    by auto
  have r: "cr_word r \<notin> cr_word ` set rs" using Cons.prems(1) by simp
  show ?case
  proof (intro exI[of _ upd'] exI[of _ ws'] conjI)
    show "review_loop f now (r # rs) upd ws = Inr (upd', ws')" using e u IH(1) by simp
    show "\<forall>i. i \<notin> cr_word ` set (r # rs) \<longrightarrow> map_of ws' i = map_of ws i \<and> map_of upd' i = map_of upd i"
      using IH(2) by (auto simp: update_conv')
    show "\<forall>r \<in> set (r # rs). \<exists>e u. map_of ws (cr_word r) = Some e \<and>
        update_entry f e (cr_rating r) (cr_direction r) now (cr_time r) = Inr u \<and>
        map_of ws' (cr_word r) = Some u \<and> map_of upd' (cr_word r) = Some (Some u)"
      using IH(2,3) e u r same by (auto simp: update_conv')
    show "distinct (map fst upd) \<longrightarrow> distinct (map fst upd')" using IH(4) by (simp add: distinct_update)
    show "fst ` set upd' = fst ` set upd \<union> cr_word ` set (r # rs)" using IH(5) by (auto simp: dom_update)
  qed
qed simp

lemma update_counts:
  "update_entry f e r dir now ms = Inr u \<Longrightarrow> ve_total u + ve_rtotal u = ve_total e + ve_rtotal e + 1"
  by (auto simp: update_entry_def Let_def split: if_splits direction.splits)


text \<open>
  C12: an exercise has the words that are due.  When start_exercise is ready, its address carries
  the encoding of at least one and at most limit (never more than 30) words of the user, all
  different, none suspended, each new or due in the direction of the exercise and with a wanted
  tag; and the counts of words being learned, new and known add up to the number of words.
\<close>

theorem exercise_words_due:
  assumes "start_exercise pack environ user store dirtext limit tags now = ExReady url n counts dt"
  shows "\<exists>u d dir ws encoded raw. user = Some u \<and> store = Some d \<and> dirtext = direction_value dir \<and>
      encode_words pack ws = Inr encoded \<and> map_of environ ''VOCABULARY_WEBAPP_URL'' = Some raw \<and>
      url = exercise_url raw ''words'' encoded dirtext \<and> n = length ws \<and> 1 \<le> n \<and> int n \<le> max 1 (min limit 30) \<and>
      (case counts of (due, new, known) \<Rightarrow> due + new + known = n) \<and> distinct (map ve_id ws) \<and>
      (\<forall>e \<in> set ws. vocab_get u (ve_id e) d = Some e \<and> ve_status e \<noteq> SuspendedWord \<and> shares_tag tags e \<and>
         (ve_status e = NewWord \<or> is_due e dir now))"
proof -
  obtain u d dir ws encoded raw where r: "user = Some u" "store = Some d" "dirtext = direction_value dir"
    "ws = get_due_words u (max 1 (min limit 30)) tags dir now d" "ws \<noteq> []" "encode_words pack ws = Inr encoded"
    "map_of environ ''VOCABULARY_WEBAPP_URL'' = Some raw" "url = exercise_url raw ''words'' encoded dirtext" "n = length ws"
    "counts = (count_status LearningWord ws, count_status NewWord ws, count_status KnownWord ws)"
    using assms unfolding start_exercise_def run_exercise_ready by (auto simp: flashcards_def)
  have sub: "vocab_get u (ve_id e) d = Some e \<and> ve_status e \<noteq> SuspendedWord \<and> shares_tag tags e \<and> (ve_status e = NewWord \<or> is_due e dir now)"
    if "e \<in> set ws" for e
    using due_words_sub[of e u _ tags dir now d] that unfolding r(4) by (auto simp: vocab_get_def map_of_word)
  have "int (length ws) \<le> max 1 (min limit 30)"
    unfolding r(4) get_due_words_def Let_def by (rule length_slice_to) simp
  moreover have "1 \<le> length ws" using r(5) by (cases ws) simp_all
  moreover have "count_status LearningWord ws + count_status NewWord ws + count_status KnownWord ws = length ws"
    using sub by (intro status_counts) blast
  moreover have "distinct (map ve_id ws)" unfolding r(4) by (rule due_words_distinct)
  ultimately show ?thesis using r(1-3,6-10) sub by (auto intro!: exI)
qed

lemma report_all_found:
  assumes "\<forall>x \<in> snd ` set updated. x \<noteq> None"
  shows "fst (exercise_report rs updated) = length updated" and "fst (snd (exercise_report rs updated)) = 0"
proof -
  from assms have "length (List.map_filter snd updated) = length updated"
    by (induction updated) (auto simp: map_filter_Cons split: option.splits)
  then show "fst (exercise_report rs updated) = length updated" "fst (snd (exercise_report rs updated)) = 0"
    by (simp_all add: exercise_report_def Let_def)
qed

lemma results_all_found:
  assumes dist: "distinct (map cr_word rs)" and rs: "rs \<noteq> []" and parsed: "parse_results answer = Inr rs"
    and found: "\<forall>r \<in> set rs. 0 \<le> cr_rating r \<and> cr_rating r \<le> 3 \<and> vocab_get u (cr_word r) d \<noteq> None"
  shows "\<exists>sts dirs d'. process_exercise_results parse_results f (Some u) (Some d) answer later
        = (ResOk (length rs, 0, sts, dirs), Some d') \<and>
      (\<forall>r \<in> set rs. \<exists>e e'. vocab_get u (cr_word r) d = Some e \<and> vocab_get u (cr_word r) d' = Some e' \<and>
         ve_total e' + ve_rtotal e' = ve_total e + ve_rtotal e + 1) \<and>
      (\<forall>i. i \<notin> cr_word ` set rs \<longrightarrow> vocab_get u i d' = vocab_get u i d)"
proof -
  let ?old = "read_user_vocabulary d u"
  from review_loop_all_found[OF dist found[unfolded vocab_get_def], of f later "[]"] obtain upd ws' where
    loop: "review_loop f later rs [] ?old = Inr (upd, ws')"
    and rest: "\<forall>i. i \<notin> cr_word ` set rs \<longrightarrow> map_of ws' i = map_of ?old i"
    and each: "\<forall>r \<in> set rs. \<exists>e u. map_of ?old (cr_word r) = Some e \<and>
        update_entry f e (cr_rating r) (cr_direction r) later (cr_time r) = Inr u \<and>
        map_of ws' (cr_word r) = Some u \<and> map_of upd (cr_word r) = Some (Some u)"
    and keys: "distinct (map fst upd)" "fst ` set upd = cr_word ` set rs"
    by auto
  let ?d = "write_user_vocabulary u ws' d"
  have read: "read_user_vocabulary ?d u = ws'"
    using review_loop_ok[OF loop read_words_ok] by (simp add: read_write_words)
  have "\<forall>x \<in> snd ` set upd. x \<noteq> None"
  proof
    fix x assume "x \<in> snd ` set upd"
    then obtain i where i: "(i, x) \<in> set upd" by auto
    then obtain r where "r \<in> set rs" "cr_word r = i" using keys(2) by force
    with each i keys(1) show "x \<noteq> None" by fastforce
  qed
  note report = report_all_found[OF this, of rs]
  have "length upd = length rs"
    using distinct_card[OF keys(1)] distinct_card[OF dist] keys(2) by simp
  with report obtain sts dirs where "exercise_report rs upd = (length rs, 0, sts, dirs)"
    by (metis prod.collapse)
  then have "process_exercise_results parse_results f (Some u) (Some d) answer later = (ResOk (length rs, 0, sts, dirs), Some ?d)"
    using rs parsed loop by (simp add: process_exercise_results_def process_results_def)
  then show ?thesis
    using each rest update_counts by (fastforce simp: vocab_get_def read)
qed

text \<open>
  C11: the results of an exercise count.  When the user has answered each word of an exercise once,
  in any order, with ratings from 0 to 3 and in any direction, the tool for the results reports
  all of them as updated and none as missing; each has one review more, in one of its directions,
  and every other word is as before.
\<close>

theorem exercise_results_counted:
  assumes words: "ws = get_due_words u limit tags dir now d" "ws \<noteq> []"
    and answers: "parse_results answer = Inr rs" "mset (map cr_word rs) = mset (map ve_id ws)"
      "\<forall>r \<in> set rs. 0 \<le> cr_rating r \<and> cr_rating r \<le> 3"
  shows "\<exists>sts dirs d'. process_exercise_results parse_results f (Some u) (Some d) answer later
        = (ResOk (length ws, 0, sts, dirs), Some d') \<and>
      (\<forall>e \<in> set ws. \<exists>e'. vocab_get u (ve_id e) d' = Some e' \<and> ve_total e' + ve_rtotal e' = ve_total e + ve_rtotal e + 1) \<and>
      (\<forall>i. i \<notin> ve_id ` set ws \<longrightarrow> vocab_get u i d' = vocab_get u i d)"
proof -
  have ids: "set (map cr_word rs) = ve_id ` set ws" and len: "length rs = length ws"
    using mset_eq_setD[OF answers(2)] mset_eq_length[OF answers(2)] by simp_all
  have dist: "distinct (map cr_word rs)"
    using mset_eq_imp_distinct_iff[OF answers(2)] due_words_distinct[of u limit tags dir now d] unfolding words(1) by simp
  have word: "vocab_get u (ve_id e) d = Some e" if "e \<in> set ws" for e
    using due_words_sub[of e u limit tags dir now d] that map_of_word unfolding words(1) vocab_get_def by blast
  have "\<forall>r \<in> set rs. 0 \<le> cr_rating r \<and> cr_rating r \<le> 3 \<and> vocab_get u (cr_word r) d \<noteq> None"
  proof
    fix r assume r: "r \<in> set rs"
    then have "cr_word r \<in> set (map cr_word rs)" by simp
    then obtain e where "e \<in> set ws" "cr_word r = ve_id e" unfolding ids by blast
    with word[of e] r answers(3) show "0 \<le> cr_rating r \<and> cr_rating r \<le> 3 \<and> vocab_get u (cr_word r) d \<noteq> None" by simp
  qed
  moreover have "rs \<noteq> []" using len words(2) by auto
  ultimately obtain sts dirs d' where d': "process_exercise_results parse_results f (Some u) (Some d) answer later = (ResOk (length rs, 0, sts, dirs), Some d')"
    "\<forall>r \<in> set rs. \<exists>e e'. vocab_get u (cr_word r) d = Some e \<and> vocab_get u (cr_word r) d' = Some e' \<and>
         ve_total e' + ve_rtotal e' = ve_total e + ve_rtotal e + 1"
    "\<forall>i. i \<notin> cr_word ` set rs \<longrightarrow> vocab_get u i d' = vocab_get u i d"
    using results_all_found[of rs parse_results answer u d f later] dist answers(1) by blast
  moreover have "\<exists>e'. vocab_get u (ve_id e) d' = Some e' \<and> ve_total e' + ve_rtotal e' = ve_total e + ve_rtotal e + 1" if "e \<in> set ws" for e
  proof -
    from that have "ve_id e \<in> set (map cr_word rs)" unfolding ids by blast
    then obtain r where "r \<in> set rs" "cr_word r = ve_id e" by auto
    with d'(2) word[OF that] show ?thesis by force
  qed
  ultimately show ?thesis using ids len by (intro exI[of _ sts] exI[of _ dirs] exI[of _ d']) simp
qed


section \<open>Searching\<close>

lemma found_entries_match:
  assumes "e \<in> set (found_entries u query tags status limit d)"
  shows "vocab_get u (ve_id e) d = Some e \<and> shares_tag tags e \<and> pred_option (\<lambda>st. ve_status e = st) status"
proof -
  have "e \<in> snd ` set (read_user_vocabulary d u) \<and> shares_tag tags e \<and> pred_option (\<lambda>st. ve_status e = st) status"
  proof (cases "query = []")
    case True
    with assms have "e \<in> set (list_entries u tags status (Some limit) 0 d)" by (simp add: found_entries_def)
    then have "e \<in> set (filter (\<lambda>e. shares_tag tags e \<and> (case status of None \<Rightarrow> True | Some s \<Rightarrow> ve_status e = s))
            (map snd (read_user_vocabulary d u)))"
      using set_slice_to by (fastforce simp: list_entries_def Let_def py_sorted_rev_def split: if_splits)
    then show ?thesis by (cases status) auto
  next
    case False
    with assms have "e \<in> set (filter (shares_tag tags) (filter (\<lambda>e. case status of None \<Rightarrow> True | Some s \<Rightarrow> ve_status e = s)
             (vocab_search u query (limit * 3) d)))"
      using set_slice_to by (fastforce simp: found_entries_def)
    moreover have "set (vocab_search u query n d) \<subseteq> snd ` set (read_user_vocabulary d u)" for n
      unfolding vocab_search_def Let_def by (rule order.trans[OF set_slice_to]) auto
    ultimately show ?thesis by (cases status) auto
  qed
  then show ?thesis by (auto simp: vocab_get_def map_of_word)
qed

text \<open>The blanks of an exercise may name words that the word bank does not have.\<close>

lemma blank_without_word:
  assumes "validate [sent] [] = Inr \<lparr>fp_sentences = [\<lparr>fs_id = ''s1'', fs_template = ''___'', fs_translit = None, fs_translation = None,
      fs_blanks = [\<lparr>fb_position = 7, fb_word = ''w9''\<rparr>]\<rparr>], fp_bank = []\<rparr>"
  shows "start_fill_blanks_exercise validate (\<lambda>_. Inr ''x'') [(''FILL_BLANKS_WEBAPP_URL'', ''https://h/'')] (Some u) (Some d) [sent] [] ''forward''
    = FillReady ''https://h?data=x&dir=forward'' 1 1 0 ''forward''"
proof -
  have "direction_of_value ''forward'' = Some Forward" "exercise_url ''https://h/'' ''data'' ''x'' ''forward'' = ''https://h?data=x&dir=forward''"
    by code_simp+
  then show ?thesis using assms
    by (simp add: start_fill_blanks_exercise_def encode_fill_blanks_def direction_value_def del: direction_of_value_simps)
qed

section \<open>A concrete exercise\<close>

theorem exercise_words_due_witness:
  "start_exercise (\<lambda>_. Inr ''x'') [(''VOCABULARY_WEBAPP_URL'', ''https://h'')] (Some ''u'') (Some demo_vocab) ''forward'' 20 [] 5
     = ExReady ''https://h?words=x&dir=forward'' 1 (0, 1, 0) ''forward'' \<and>
   (\<exists>ws dir. length ws = 1 \<and> (\<forall>e \<in> set ws. vocab_get ''u'' (ve_id e) demo_vocab = Some e \<and> (ve_status e = NewWord \<or> is_due e dir 5)))"
proof -
  let ?x = "start_exercise (\<lambda>_. Inr ''x'') [(''VOCABULARY_WEBAPP_URL'', ''https://h'')] (Some ''u'') (Some demo_vocab) ''forward'' 20 [] 5"
  have r: "?x = ExReady ''https://h?words=x&dir=forward'' 1 (0, 1, 0) ''forward''" by code_simp
  from exercise_words_due[OF r] show ?thesis using r by fastforce
qed

theorem exercise_results_counted_witness:
  "\<exists>sts dirs d'. process_exercise_results (\<lambda>_. Inr [\<lparr>cr_word = ''w0'', cr_rating = 2, cr_time = None, cr_direction = Backward\<rparr>])
       demo_fsrs (Some ''u'') (Some demo_vocab) ''[]'' 9 = (ResOk (1, 0, sts, dirs), Some d') \<and>
     (\<exists>e. vocab_get ''u'' ''w0'' d' = Some e \<and> ve_total e + ve_rtotal e = 1)"
proof -
  let ?ws = "get_due_words ''u'' 20 [] Forward 5 demo_vocab"
  let ?rs = "[\<lparr>cr_word = ''w0'', cr_rating = 2, cr_time = None, cr_direction = Backward\<rparr>]"
  have w: "map (\<lambda>e. (ve_id e, ve_total e, ve_rtotal e)) ?ws = [(''w0'', 0, 0)]" by code_simp
  then obtain e where e: "?ws = [e]" "ve_id e = ''w0''" "ve_total e = 0" "ve_rtotal e = 0" by (cases ?ws) auto
  show ?thesis
    using exercise_results_counted[OF e(1)[symmetric], of "\<lambda>_. Inr ?rs" "''[]''" ?rs demo_fsrs 9] e by auto
qed

end
