(* ===== verification/Agent_Tools.thy ===== *)
theory Agent_Tools
  imports Vault_Tools Delegation
begin

text \<open>
  Tools of the agent, agent/tools: the tools for delegated tasks with their poll budget
  (deps.py), ask_question, memory_search, obsidian_wiki_search, the two Tavily tools and the
  macOS tools.  What a tool calls is a parameter: the handlers of the orchestrator, a subprocess,
  the Tavily client (Inl an error), json.loads (None when it raises) and urlparse.
\<close>

section \<open>Tools for delegated tasks\<close>

definition max_polls :: nat where "max_polls = 2"

type_synonym poll_counts = "(string \<times> nat) list"

definition consume_subagent_poll_budget :: "string \<Rightarrow> poll_counts \<Rightarrow> bool \<times> poll_counts" where
  "consume_subagent_poll_budget task counts =
     (let n = (case map_of counts task of Some n \<Rightarrow> n | None \<Rightarrow> 0) + 1 in (n \<le> max_polls, AList.update task n counts))"

datatype 'r tool_reply = PollLimit string | NoDelegation | Refused string | Replied 'r

definition poll_tool :: "(string \<Rightarrow> 'r) option \<Rightarrow> string \<Rightarrow> poll_counts \<Rightarrow> 'r tool_reply \<times> poll_counts" where
  "poll_tool handler task counts =
     (case consume_subagent_poll_budget task counts of
        (ok, counts') \<Rightarrow>
          (if \<not> ok then PollLimit task
           else case handler of None \<Rightarrow> NoDelegation | Some h \<Rightarrow> Replied (h task), counts'))"

definition check_subagent_status :: "(string \<Rightarrow> 'r) option \<Rightarrow> string \<Rightarrow> poll_counts \<Rightarrow> 'r tool_reply \<times> poll_counts" where
  "check_subagent_status handler task counts = poll_tool handler task counts"

definition read_subagent_log :: "(string \<Rightarrow> int \<Rightarrow> 'r) option \<Rightarrow> string \<Rightarrow> int \<Rightarrow> poll_counts \<Rightarrow> 'r tool_reply \<times> poll_counts" where
  "read_subagent_log handler task tail_lines counts = poll_tool (map_option (\<lambda>h t. h t tail_lines) handler) task counts"

definition cancel_subagent_task :: "(string \<Rightarrow> 'r) option \<Rightarrow> string \<Rightarrow> 'r tool_reply" where
  "cancel_subagent_task handler task = (case handler of None \<Rightarrow> NoDelegation | Some h \<Rightarrow> Replied (h task))"

text \<open>The request handed to enqueue; isdir is os.path.isdir and params the tool's parameters.\<close>

definition delegate_subagent_task ::
  "(dict \<Rightarrow> 'r) option \<Rightarrow> (string \<Rightarrow> bool) \<Rightarrow> dict \<Rightarrow> string \<Rightarrow> string option \<Rightarrow> string option \<Rightarrow> string option
    \<Rightarrow> string list \<Rightarrow> 'r tool_reply" where
  "delegate_subagent_task handler isdir params objective model_id directory backend plugin_dirs =
     (case handler of
        None \<Rightarrow> NoDelegation
      | Some h \<Rightarrow>
          (let dirname = (case directory of Some s \<Rightarrow> s | None \<Rightarrow> [])
           in if dirname \<noteq> [] \<and> \<not> isdir dirname then Refused (''directory does not exist: '' @ dirname)
              else case find (\<lambda>p. \<not> isdir p) plugin_dirs of
                Some p \<Rightarrow> Refused (''plugin_dirs entry does not exist: '' @ p)
              | None \<Rightarrow>
                  Replied (h [(''objective'', PStr objective), (''model_id'', of_opt PStr model_id), (''tool_params'', PDict params),
                    (''backend_params'', PDict ((if dirname = [] then [] else [(''directory'', PStr dirname)]) @
                       (if plugin_dirs = [] then [] else [(''plugin_dirs'', PList (map PStr plugin_dirs))]))),
                    (''backend'', of_opt PStr backend)])))"

text \<open>The polls of a turn, in the order the model makes them.\<close>

datatype poll_call = CheckStatus string | ReadLog string int

fun polled :: "poll_call \<Rightarrow> string" where
  "polled (CheckStatus t) = t"
| "polled (ReadLog t n) = t"

fun run_polls ::
  "(string \<Rightarrow> 'r) option \<Rightarrow> (string \<Rightarrow> int \<Rightarrow> 'r) option \<Rightarrow> poll_call list \<Rightarrow> poll_counts \<Rightarrow> 'r tool_reply list" where
  "run_polls st lg [] counts = []"
| "run_polls st lg (c # cs) counts =
     (case (case c of CheckStatus t \<Rightarrow> check_subagent_status st t counts | ReadLog t n \<Rightarrow> read_subagent_log lg t n counts) of
        (r, counts') \<Rightarrow> r # run_polls st lg cs counts')"

fun answered_poll :: "'r tool_reply \<Rightarrow> bool" where
  "answered_poll (PollLimit t) = False"
| "answered_poll _ = True"

definition polls_of :: "string \<Rightarrow> poll_counts \<Rightarrow> nat" where
  "polls_of task counts = (case map_of counts task of Some n \<Rightarrow> n | None \<Rightarrow> 0)"

lemma poll_tool_step:
  assumes "poll_tool h t counts = (r, counts')"
  shows "answered_poll r = (polls_of t counts < max_polls)" and "polls_of t' counts' = polls_of t' counts + (if t' = t then 1 else 0)"
  using assms by (auto simp: poll_tool_def consume_subagent_poll_budget_def Let_def polls_of_def max_polls_def update_conv'
      split: option.splits if_splits)

lemma run_polls_handled:
  "length (filter (\<lambda>(c, r). polled c = t \<and> answered_poll r) (zip cs (run_polls st lg cs counts))) \<le> max_polls - polls_of t counts"
proof (induction cs arbitrary: counts)
  case (Cons c cs)
  obtain h r counts' where h: "poll_tool h (polled c) counts = (r, counts')"
    "(case c of CheckStatus t \<Rightarrow> check_subagent_status st t counts | ReadLog t n \<Rightarrow> read_subagent_log lg t n counts) = (r, counts')"
  proof (cases c)
    case (CheckStatus t')
    then show ?thesis using that[of st "fst (check_subagent_status st t' counts)" "snd (check_subagent_status st t' counts)"]
      by (simp add: check_subagent_status_def)
  next
    case (ReadLog t' n)
    then show ?thesis
      using that[of "map_option (\<lambda>h t. h t n) lg" "fst (read_subagent_log lg t' n counts)" "snd (read_subagent_log lg t' n counts)"]
      by (simp add: read_subagent_log_def)
  qed
  note step = poll_tool_step(1)[OF h(1)] poll_tool_step(2)[OF h(1), of t]
  show ?case using Cons.IH[of counts'] step h(2) by (cases "polled c = t") (auto simp: not_less)
qed simp

text \<open>
  However often the model polls in a turn, the handlers answer for one task at most twice.
\<close>

theorem poll_budget_kept:
  "length (filter (\<lambda>(c, r). polled c = t \<and> answered_poll r) (zip cs (run_polls st lg cs []))) \<le> max_polls"
  using run_polls_handled[of t cs st lg "[]"] by simp

section \<open>Asking the user\<close>

definition coerce_options_list :: "(string \<Rightarrow> pyval option) \<Rightarrow> (pyval \<Rightarrow> string) \<Rightarrow> string + string list \<Rightarrow> string list" where
  "coerce_options_list json pstr v =
     (case v of Inr xs \<Rightarrow> xs | Inl s \<Rightarrow> (case json s of Some (PList xs) \<Rightarrow> map pstr xs | _ \<Rightarrow> []))"

definition max_options :: nat where "max_options = 10"

datatype question_reply = QuestionRefused string | QuestionAsked string "(string \<times> string) list"

definition or_text :: "string \<Rightarrow> string \<Rightarrow> string" where
  "or_text s t = (if s = [] then t else s)"

definition ask_question_tool_call :: "string \<Rightarrow> string list \<Rightarrow> bool \<Rightarrow> question_reply" where
  "ask_question_tool_call question options allow_multiple =
     (if options = [] then QuestionRefused ''options cannot be empty''
      else if allow_multiple then QuestionRefused ''allow_multiple is not yet supported; use single-select''
      else QuestionAsked (or_text (py_strip question) ''Please choose an option.'')
             (map (\<lambda>(i, l). (show_int (int i), or_text (py_strip l) (''Option '' @ show_int (int i)))) (enumerate 0 (take max_options options))))"

lemma question_options:
  assumes "ask_question_tool_call q options m = QuestionAsked text opts"
  shows "1 \<le> length opts \<and> length opts \<le> max_options \<and> distinct (map fst opts) \<and> (\<forall>l \<in> snd ` set opts. l \<noteq> []) \<and> text \<noteq> []"
proof -
  have o: "opts = map (\<lambda>(i, l). (show_int (int i), or_text (py_strip l) (''Option '' @ show_int (int i)))) (enumerate 0 (take max_options options))"
    "options \<noteq> []" "text = or_text (py_strip q) ''Please choose an option.''"
    using assms by (auto simp: ask_question_tool_call_def split: if_splits)
  have "map fst opts = map (\<lambda>p. show_int (int (fst p))) (enumerate 0 (take max_options options))"
    by (simp add: o(1) comp_def case_prod_unfold)
  also have "\<dots> = map (show_int \<circ> int) (map fst (enumerate 0 (take max_options options)))"
    by (simp only: map_map comp_def)
  finally have "map fst opts = map (show_int \<circ> int) [0..<length (take max_options options)]"
    by simp
  moreover have "inj_on (show_int \<circ> int) A" for A by (simp add: inj_on_def show_int_inj)
  ultimately have "distinct (map fst opts)" by (simp only: distinct_map distinct_upt simp_thms)
  moreover have "or_text s t \<noteq> []" if "t \<noteq> []" for s t using that by (simp add: or_text_def)
  then have "\<forall>l \<in> snd ` set opts. l \<noteq> []" "text \<noteq> []" unfolding o(1,3) by auto
  moreover have "1 \<le> length opts" "length opts \<le> max_options"
    using o(2) unfolding o(1) by (cases options; simp add: max_options_def)+
  ultimately show ?thesis by blast
qed


section \<open>Searching the memory and the vault\<close>

text \<open>The handler gives its result or raises.\<close>

datatype 'r search_reply = NoSearch string | SearchFailed string | SearchReply 'r

definition memory_search_tool ::
  "(string \<Rightarrow> int \<Rightarrow> string list option \<Rightarrow> string + 'r) option \<Rightarrow> string \<Rightarrow> int \<Rightarrow> string list option \<Rightarrow> 'r search_reply" where
  "memory_search_tool handler query limit types =
     (case handler of
        None \<Rightarrow> NoSearch ''memory retrieval unavailable''
      | Some h \<Rightarrow> (case h query (max 1 (min limit 5)) types of Inl m \<Rightarrow> SearchFailed m | Inr r \<Rightarrow> SearchReply r))"

record passage =
  ps_path :: pyval
  ps_snippet :: pyval
  ps_score :: pyval

datatype wiki_reply = WikiUnavailable | WikiFailed string | WikiNotBuilt | WikiMatches "passage list"

definition wiki_command :: "string \<Rightarrow> string \<Rightarrow> string \<Rightarrow> int \<Rightarrow> string list" where
  "wiki_command vault product query topn =
     [''python3'', os_join (os_join product ''scripts'') ''retrieve.py'', ''--vault'', vault, query, ''--top'',
      show_int (max 1 (min topn 20)), ''--no-rerank'']"

definition passage_of :: "dict \<Rightarrow> passage" where
  "passage_of c = \<lparr>ps_path = dget c ''page_path'', ps_snippet = dget c ''snippet'',
     ps_score = dget_or c ''rerank_score'' (dget c ''bm25_score'')\<rparr>"

definition obsidian_wiki_search ::
  "(string \<Rightarrow> string + pyval) \<Rightarrow> (string list \<Rightarrow> proc_run) \<Rightarrow> string option \<Rightarrow> string option \<Rightarrow> string \<Rightarrow> int \<Rightarrow> wiki_reply" where
  "obsidian_wiki_search loads run vault product query topn =
     (if vault \<in> {None, Some []} \<or> product \<in> {None, Some []} then WikiUnavailable
      else case run (wiki_command (the vault) (the product) query topn) of
        NotRun m \<Rightarrow> WikiFailed m
      | Exited rc out err \<Rightarrow>
          if rc = 10 then WikiNotBuilt
          else if rc \<noteq> 0 then WikiFailed (if py_strip err = [] then ''retrieve.py exited with code '' @ show_int rc else py_strip err)
          else (case loads out of
                  Inl m \<Rightarrow> WikiFailed (''invalid retrieve.py output: '' @ m)
                | Inr v \<Rightarrow>
                    (case Option.bind (as_dict v) (\<lambda>d. case dget_or d ''candidates'' (PList []) of PList xs \<Rightarrow> Some xs | _ \<Rightarrow> None) of
                       None \<Rightarrow> WikiMatches []
                     | Some xs \<Rightarrow> WikiMatches (map passage_of (List.map_filter as_dict xs)))))"

section \<open>Tavily\<close>

text \<open>printable is str.isprintable.\<close>

definition is_binary :: "(char \<Rightarrow> bool) \<Rightarrow> string \<Rightarrow> bool" where
  "is_binary printable s =
     (let chunk = take 500 s; bad = length (filter (\<lambda>c. \<not> printable c \<and> code c \<notin> {9, 10, 13}) chunk)
      in chunk \<noteq> [] \<and> 10 * bad > length chunk)"

text \<open>The two tools differ in the field and the limit, 2000 and 8000 characters.\<close>

definition sanitize_content :: "(char \<Rightarrow> bool) \<Rightarrow> nat \<Rightarrow> string \<Rightarrow> dict \<Rightarrow> dict" where
  "sanitize_content printable limit key r =
     (let content = (case dget r key of PStr s \<Rightarrow> s | _ \<Rightarrow> [])
      in if is_binary printable content then AList.update key (PStr ''[binary content omitted]'') r
         else if length content > limit
         then AList.update key (PStr (take limit content @ ''... ['' @ show_int (int (length content - limit)) @ '' chars omitted]'')) r
         else r)"

definition search_limit :: nat where "search_limit = 2000"
definition extract_limit :: nat where "extract_limit = 8000"

datatype tavily_error = BadRequest string | UsageLimit string | Forbidden string | BadKey string | TimedOut string | OtherTavily string

text \<open>Every error becomes a ModelRetry with this text.\<close>

fun retry_text :: "tavily_error \<Rightarrow> string" where
  "retry_text (BadRequest m) = ''Tavily rejected the search query: '' @ m @ [newline] @
     ''If the query is only `site:...` (or similar operators), add real keywords or use include_domains with a plain keyword query. Tavily requires non-operator terms.''"
| "retry_text (UsageLimit m) = ''Tavily usage limit exceeded: '' @ m"
| "retry_text (Forbidden m) = ''Tavily access denied: '' @ m"
| "retry_text (BadKey m) = ''Tavily API key error: '' @ m"
| "retry_text (TimedOut m) = ''Tavily request timed out: '' @ m"
| "retry_text (OtherTavily m) = ''Tavily search failed: '' @ m"

definition tavily_search :: "(char \<Rightarrow> bool) \<Rightarrow> tavily_error + dict list \<Rightarrow> string + dict list" where
  "tavily_search printable answer =
     (case answer of Inl e \<Rightarrow> Inl (retry_text e) | Inr rs \<Rightarrow> Inr (map (sanitize_content printable search_limit ''content'') rs))"

text \<open>Candidate URLs in what the model gives.  markdown and cut are the two regular expressions.\<close>

record url_env =
  ue_json :: "string \<Rightarrow> pyval option"
  ue_markdown :: "string \<Rightarrow> string list"
  ue_cut :: "string \<Rightarrow> string list"
  ue_parse :: "string \<Rightarrow> (string \<times> string) option"
  ue_str :: "pyval \<Rightarrow> string"

definition wrapper_char :: "char \<Rightarrow> bool" where
  "wrapper_char c = (code c \<in> {32, 9, 13, 10, 34, 39, 96, 60, 62, 91, 93})"

definition strip_by :: "(char \<Rightarrow> bool) \<Rightarrow> string \<Rightarrow> string" where
  "strip_by P s = rev (dropWhile P (rev (dropWhile P s)))"

definition rstrip_by :: "(char \<Rightarrow> bool) \<Rightarrow> string \<Rightarrow> string" where
  "rstrip_by P s = rev (dropWhile P (rev s))"

text \<open>None when the candidate is no URL; Inl when urlparse raises ValueError.\<close>

definition clean_url :: "url_env \<Rightarrow> string \<Rightarrow> (exn + string option)" where
  "clean_url u candidate =
     (let url = rstrip_by (\<lambda>c. c \<in> {CHR '','', CHR '';''}) (strip_by wrapper_char candidate)
      in if url = [] \<or> CHR '' '' \<in> set url then Inr None
         else if \<not> sublist ''://'' url \<and> CHR ''.'' \<notin> set (hd (split_on slash url)) then Inr None
         else (let url = (if sublist ''://'' url then url else ''https://'' @ url)
               in case ue_parse u url of
                    None \<Rightarrow> Inl (ValueError ''Invalid URL'')
                  | Some (scheme, netloc) \<Rightarrow>
                      Inr (if scheme \<notin> {''http'', ''https''} \<or> CHR ''.'' \<notin> set netloc then None else Some url)))"


text \<open>
  _split_items goes into lists, dictionaries and texts that are themselves JSON; n bounds the depth.
  Pieces without a scheme count only if each of them is a URL; a ValueError of urlparse is raised.
\<close>

fun all_clean :: "url_env \<Rightarrow> string list \<Rightarrow> (exn + bool)" where
  "all_clean u [] = Inr True"
| "all_clean u (p # ps) =
     (case clean_url u p of Inl x \<Rightarrow> Inl x | Inr None \<Rightarrow> Inr False | Inr (Some _) \<Rightarrow> all_clean u ps)"

fun split_seps :: "(char \<Rightarrow> bool) \<Rightarrow> string \<Rightarrow> string list" where
  "split_seps P [] = [[]]"
| "split_seps P (c # s) =
     (if P c then [] # split_seps P s
      else (case split_seps P s of [] \<Rightarrow> [[c]] | w # ws \<Rightarrow> (c # w) # ws))"

definition url_pieces :: "url_env \<Rightarrow> string \<Rightarrow> (exn + string list)" where
  "url_pieces u s =
     (let md = ue_markdown u s; t = strip_by wrapper_char s;
          tidy = (\<lambda>ps. filter (\<lambda>c. c \<noteq> []) (map (strip_by wrapper_char) ps))
      in if md \<noteq> [] then Inr md
         else if sublist ''http'' t then Inr (tidy (ue_cut u t))
         else (let ps = filter (\<lambda>p. p \<noteq> []) (split_seps (\<lambda>c. py_isspace c \<or> c = CHR '','') t)
               in case all_clean u ps of
                    Inl x \<Rightarrow> Inl x
                  | Inr ok \<Rightarrow> Inr (tidy (if ok then ps else [t]))))"


fun concat_results :: "(exn + string list) list \<Rightarrow> (exn + string list)" where
  "concat_results [] = Inr []"
| "concat_results (Inl x # rs) = Inl x"
| "concat_results (Inr a # rs) = (case concat_results rs of Inl x \<Rightarrow> Inl x | Inr b \<Rightarrow> Inr (a @ b))"

definition opt_concat :: "(exn + string list) option list \<Rightarrow> (exn + string list) option" where
  "opt_concat rs = map_option concat_results (those rs)"

fun split_items :: "url_env \<Rightarrow> nat \<Rightarrow> pyval \<Rightarrow> (exn + string list) option" where
  "split_items u 0 v = None"
| "split_items u (Suc n) v =
     (case v of
        PNone \<Rightarrow> Some (Inr [])
      | PList xs \<Rightarrow> opt_concat (map (split_items u n) xs)
      | PStr raw \<Rightarrow>
          (let s = py_strip raw
           in if s = [] then Some (Inr [])
              else case (if hd s = CHR ''['' \<or> hd s = CHR ''{'' then ue_json u s else None) of
                None \<Rightarrow> Some (url_pieces u s)
              | Some (PDict d) \<Rightarrow> split_items u n (PList (map snd d))
              | Some w \<Rightarrow> split_items u n w)
      | w \<Rightarrow> Some (Inr [ue_str u w]))"

text \<open>How deep a value can be: the texts in it bound the texts JSON finds in them.\<close>

primrec text_size :: "pyval \<Rightarrow> nat" where
  "text_size PNone = 1"
| "text_size (PBool b) = 1"
| "text_size (PInt i) = 1"
| "text_size (PReal q) = 1"
| "text_size (PStr s) = Suc (length s)"
| "text_size (PTime t) = 1"
| "text_size (PList xs) = Suc (sum_list (map text_size xs))"
| "text_size (PDict d) = Suc (sum_list (map snd (map (map_prod id text_size) d)))"

definition json_shrinks :: "url_env \<Rightarrow> bool" where
  "json_shrinks u = (\<forall>s v. ue_json u s = Some v \<longrightarrow> text_size v \<le> length s)"

lemma length_strip: "length (py_strip s) \<le> length s"
  unfolding py_strip_def using length_dropWhile_le[of py_isspace "rev (dropWhile py_isspace s)"] length_dropWhile_le[of py_isspace s]
  by simp

lemma split_items_enough:
  assumes "json_shrinks u" and "text_size v < n" and "text_size v < m"
  shows "split_items u n v = split_items u m v \<and> split_items u n v \<noteq> None"
  using assms(2,3)
proof (induction n arbitrary: v m)
  case (Suc n)
  then obtain m' where m: "m = Suc m'" by (cases m) auto
  show ?case
  proof (cases v)
    case (PList xs)
    have le: "text_size x < n" "text_size x < m'" if "x \<in> set xs" for x
      using member_le_sum_list[of "text_size x" "map text_size xs"] that Suc.prems PList m by auto
    then have eq: "map (split_items u n) xs = map (split_items u m') xs" using Suc.IH by simp
    have "those (map (split_items u n) xs) \<noteq> None" if "\<forall>x \<in> set xs. split_items u n x \<noteq> None"
      using that by (induction xs) (auto split: option.splits)
    moreover have "\<forall>x \<in> set xs. split_items u n x \<noteq> None" using le Suc.IH by blast
    ultimately have "opt_concat (map (split_items u n) xs) \<noteq> None" unfolding opt_concat_def by blast
    with eq show ?thesis unfolding PList m split_items.simps pyval.case by (simp only: simp_thms)
  next
    case (PStr raw)
    have small: "text_size w < n" "text_size w < m'" if "ue_json u (py_strip raw) = Some w" for w
      using that assms(1) length_strip[of raw] Suc.prems PStr m unfolding json_shrinks_def by fastforce+
    have dict: "text_size (PList (map snd d)) = text_size (PDict d)" for d
      by (simp add: comp_def)
    show ?thesis
    proof (cases "py_strip raw = [] \<or> \<not> (hd (py_strip raw) = CHR ''['' \<or> hd (py_strip raw) = CHR ''{'') \<or> ue_json u (py_strip raw) = None")
      case True
      then show ?thesis using PStr m by (auto simp: Let_def)
    next
      case False
      then obtain w where w: "ue_json u (py_strip raw) = Some w" by auto
      let ?w = "case w of PDict d \<Rightarrow> PList (map snd d) | _ \<Rightarrow> w"
      have "text_size ?w = text_size w" using dict by (cases w) (simp_all del: text_size.simps add: dict)
      then have "text_size ?w < n" "text_size ?w < m'" using small[OF w] by (simp_all only:)
      then have "split_items u n ?w = split_items u m' ?w \<and> split_items u n ?w \<noteq> None" by (rule Suc.IH)
      moreover have "split_items u (Suc k) v = split_items u k ?w" for k
        using False w PStr by (cases w) (auto simp: Let_def)
      ultimately show ?thesis unfolding m by metis
    qed
  qed (use m in auto)
qed simp


definition find_candidates :: "url_env \<Rightarrow> pyval \<Rightarrow> (exn + string list)" where
  "find_candidates u v = (case split_items u (Suc (text_size v)) v of Some r \<Rightarrow> r | None \<Rightarrow> Inr [])"

text \<open>The valid URLs, each once, and the rejected candidates.\<close>

fun sort_urls :: "url_env \<Rightarrow> string list \<Rightarrow> string list \<Rightarrow> string list \<Rightarrow> (exn + string list \<times> string list)" where
  "sort_urls u [] valid bad = Inr (valid, bad)"
| "sort_urls u (c # cs) valid bad =
     (case clean_url u c of
        Inl x \<Rightarrow> Inl x
      | Inr None \<Rightarrow> sort_urls u cs valid (bad @ [c])
      | Inr (Some w) \<Rightarrow> sort_urls u cs (if w \<in> set valid then valid else valid @ [w]) bad)"

definition normalize_urls :: "url_env \<Rightarrow> pyval \<Rightarrow> (exn + string list \<times> string list)" where
  "normalize_urls u v = (case find_candidates u v of Inl x \<Rightarrow> Inl x | Inr cs \<Rightarrow> sort_urls u cs [] [])"

definition error_result :: "string \<Rightarrow> string list \<Rightarrow> dict" where
  "error_result err bad =
     [(''results'', PList []),
      (''failed_results'', PList (if bad = [] then [PDict [(''error'', PStr err)]]
         else map (\<lambda>w. PDict [(''url'', PStr w), (''error'', PStr err)]) bad)),
      (''error'', PStr err)]"

definition no_url_text :: string where
  "no_url_text = ''No valid URL found in `urls`. Pass plain URLs as a list of strings, e.g. ['' @ [CHR 0x22] @ ''https://example.com'' @ [CHR 0x22] @ ''].''"

text \<open>call is the request to Tavily with the URLs: an error text, or the response.\<close>

definition tavily_extract :: "(char \<Rightarrow> bool) \<Rightarrow> url_env \<Rightarrow> (string list \<Rightarrow> string + dict) \<Rightarrow> pyval \<Rightarrow> (exn + dict)" where
  "tavily_extract printable u call urls =
     (case normalize_urls u urls of
        Inl x \<Rightarrow> Inl x
      | Inr (cleaned, bad) \<Rightarrow>
          Inr (if cleaned = [] then error_result no_url_text bad
               else case call cleaned of
                 Inl m \<Rightarrow> error_result (''Tavily extract failed: '' @ m) cleaned
               | Inr response \<Rightarrow>
                   (let items = (\<lambda>k. case dget_or response k (PList []) of PList xs \<Rightarrow> xs | _ \<Rightarrow> [])
                    in [(''results'', PList (map (PDict \<circ> sanitize_content printable extract_limit ''raw_content'') (List.map_filter as_dict (items ''results'')))),
                        (''failed_results'', PList (items ''failed_results'' @
                           map (\<lambda>w. PDict [(''url'', PStr w), (''error'', PStr ''not a valid URL'')]) bad))])))"

lemma sort_urls_result:
  "sort_urls u cs valid bad = Inr (valid', bad') \<Longrightarrow> distinct valid \<Longrightarrow>
     distinct valid' \<and> set valid' = set valid \<union> {w. \<exists>c \<in> set cs. clean_url u c = Inr (Some w)} \<and>
     bad' = bad @ filter (\<lambda>c. clean_url u c = Inr None) cs"
proof (induction cs arbitrary: valid bad)
  case (Cons c cs)
  show ?case
  proof (cases "clean_url u c")
    case (Inr r)
    show ?thesis
    proof (cases r)
      case None
      then show ?thesis using Cons.IH[of valid "bad @ [c]"] Cons.prems Inr by simp
    next
      case (Some w)
      then show ?thesis using Cons.IH[of "if w \<in> set valid then valid else valid @ [w]" bad] Cons.prems Inr by auto
    qed
  qed (use Cons.prems in simp)
qed simp

text \<open>
  Only URLs go to Tavily: web addresses with a host, each once; every candidate is one of
  them or named as rejected.
\<close>

theorem normalize_urls_web:
  assumes "normalize_urls u v = Inr (valid, bad)" and "find_candidates u v = Inr cs"
  shows "distinct valid \<and> bad = filter (\<lambda>c. clean_url u c = Inr None) cs \<and>
     (\<forall>w \<in> set valid. CHR '' '' \<notin> set w \<and> (\<exists>scheme host. ue_parse u w = Some (scheme, host) \<and> scheme \<in> {''http'', ''https''} \<and> CHR ''.'' \<in> set host)) \<and>
     (\<forall>c \<in> set cs. c \<in> set bad \<or> (\<exists>w \<in> set valid. clean_url u c = Inr (Some w)))"
proof -
  have s: "sort_urls u cs [] [] = Inr (valid, bad)" using assms by (simp add: normalize_urls_def)
  note r = sort_urls_result[OF s]
  have ok: "clean_url u c \<noteq> Inl x" if "c \<in> set cs" for c x
  proof -
    have "sort_urls u cs va ba = Inr res \<Longrightarrow> c \<in> set cs \<Longrightarrow> clean_url u c \<noteq> Inl x" for va ba res
      by (induction cs arbitrary: va ba) (auto split: sum.splits option.splits)
    with s that show ?thesis by blast
  qed
  have web: "CHR '' '' \<notin> set w \<and> (\<exists>scheme host. ue_parse u w = Some (scheme, host) \<and> scheme \<in> {''http'', ''https''} \<and> CHR ''.'' \<in> set host)"
    if "clean_url u c = Inr (Some w)" for c w
    using that by (auto simp: clean_url_def Let_def split: if_splits option.splits)
  have "c \<in> set bad \<or> (\<exists>w \<in> set valid. clean_url u c = Inr (Some w))" if "c \<in> set cs" for c
  proof (cases "clean_url u c")
    case (Inr r)
    then show ?thesis using that sort_urls_result[OF s] by (cases r) auto
  qed (use ok[OF that] in simp)
  with r web show ?thesis by auto
qed


lemma find_candidates_enough:
  assumes "json_shrinks u" and "text_size v < n"
  shows "split_items u n v = Some (find_candidates u v)"
proof -
  note eq = split_items_enough[OF assms, of "Suc (text_size v)"]
  then obtain r where "split_items u n v = Some r" by (metis lessI option.exhaust)
  with eq show ?thesis unfolding find_candidates_def by (metis lessI option.case(2))
qed

text \<open>An address with an unclosed bracket makes urlparse raise, and the tool with it.\<close>

lemma bracket_url_raises:
  assumes "ue_markdown u ''https://[a.b/c'' = []" "ue_cut u ''https://[a.b/c'' = [''https://[a.b/c'']" "ue_parse u ''https://[a.b/c'' = None"
  shows "tavily_extract printable u call (PStr ''https://[a.b/c'') = Inl (ValueError ''Invalid URL'')"
proof -
  have s: "py_strip ''https://[a.b/c'' = ''https://[a.b/c''" "strip_by wrapper_char ''https://[a.b/c'' = ''https://[a.b/c''"
    "rstrip_by (\<lambda>c. c \<in> {CHR '','', CHR '';''}) ''https://[a.b/c'' = ''https://[a.b/c''"
    "sublist ''://'' ''https://[a.b/c''" "sublist ''http'' ''https://[a.b/c''" by code_simp+
  have "clean_url u ''https://[a.b/c'' = Inl (ValueError ''Invalid URL'')"
    unfolding clean_url_def Let_def s using assms(3) s(4) by simp
  moreover have "find_candidates u (PStr ''https://[a.b/c'') = Inr [''https://[a.b/c'']"
    unfolding find_candidates_def text_size.simps split_items.simps pyval.case Let_def s
    using assms(1,2) s by (simp add: url_pieces_def Let_def)
  ultimately show ?thesis by (simp add: tavily_extract_def normalize_urls_def)
qed

section \<open>Notes and reminders of macOS\<close>

text \<open>A run of osascript; the scripts themselves are AppleScript and not modelled.\<close>

datatype script_end = ScriptExit int string string | ScriptTimeout | ScriptRaised string

datatype 'r mac_reply =
    RejectedPlatform
  | RejectedTitle
  | MacOk 'r
  | MacFailed string "string option" string string

definition bounded_timeout :: "int \<Rightarrow> int" where
  "bounded_timeout t = max 1 (min t 60)"

text \<open>What the answer says of a run that was not ok: status, reason and output.\<close>

definition script_failure :: "int \<Rightarrow> script_end \<Rightarrow> 'r mac_reply option" where
  "script_failure timeout e =
     (case e of
        ScriptExit rc out err \<Rightarrow>
          (if rc = 0 then None
           else Some (MacFailed ''failed'' (if py_strip err = [] then None else Some (py_strip err)) out err))
      | ScriptTimeout \<Rightarrow> Some (MacFailed ''timeout'' (Some (''osascript timed out after '' @ show_int (bounded_timeout timeout) @ ''s'')) [] [])
      | ScriptRaised m \<Rightarrow> Some (MacFailed ''failed'' (if m = [] then None else Some m) [] []))"

definition rs_char :: char where "rs_char = CHR 0x1E"
definition us_char :: char where "us_char = CHR 0x1F"

definition field_at :: "string list \<Rightarrow> nat \<Rightarrow> string" where
  "field_at ps n = (if n < length ps then py_strip (ps ! n) else [])"

text \<open>str.split with a limit: the rest stays together in the last part.\<close>

fun split_max :: "nat \<Rightarrow> char \<Rightarrow> string \<Rightarrow> string list" where
  "split_max n c [] = [[]]"
| "split_max n c (x # s) =
     (if x = c \<and> n > 0 then [] # split_max (n - 1) c s
      else (case split_max n c s of [] \<Rightarrow> [[x]] | w # ws \<Rightarrow> (x # w) # ws))"

definition note_records :: "int \<Rightarrow> string \<Rightarrow> (string \<times> string) list" where
  "note_records limit out =
     slice_to (map (\<lambda>b. let ps = split_max 1 us_char b in (field_at ps 0, field_at ps 1))
       (filter (\<lambda>b. py_strip b \<noteq> []) (split_on rs_char out))) limit"

definition macos_notes_read ::
  "bool \<Rightarrow> (string list \<Rightarrow> int \<Rightarrow> script_end) \<Rightarrow> string option \<Rightarrow> int \<Rightarrow> (string \<times> string) list mac_reply" where
  "macos_notes_read is_macos run folder limit =
     (if \<not> is_macos then RejectedPlatform
      else (let n = max 1 (min limit 50); e = run [show_int n, (case folder of Some f \<Rightarrow> f | None \<Rightarrow> [])] (bounded_timeout 20)
            in case script_failure 20 e of
                 Some r \<Rightarrow> r
               | None \<Rightarrow> MacOk (note_records n (case e of ScriptExit rc out err \<Rightarrow> out | _ \<Rightarrow> []))))"

definition macos_notes_write :: "bool \<Rightarrow> (string list \<Rightarrow> int \<Rightarrow> script_end) \<Rightarrow> string \<Rightarrow> string \<Rightarrow> string mac_reply" where
  "macos_notes_write is_macos run title body =
     (if \<not> is_macos then RejectedPlatform
      else if py_strip title = [] then RejectedTitle
      else case script_failure 20 (run [py_strip title, body] (bounded_timeout 20)) of
             Some r \<Rightarrow> r | None \<Rightarrow> MacOk (py_strip title))"

definition reminder_records :: "string \<Rightarrow> (string \<times> string \<times> string option) list" where
  "reminder_records out =
     map (\<lambda>b. let ps = split_max 2 us_char b
              in (field_at ps 0, field_at ps 1, if field_at ps 2 = [] then None else Some (field_at ps 2)))
       (filter (\<lambda>b. py_strip b \<noteq> []) (split_on rs_char out))"

definition macos_reminders_read ::
  "bool \<Rightarrow> (string list \<Rightarrow> int \<Rightarrow> script_end) \<Rightarrow> string option \<Rightarrow> int \<Rightarrow> (string \<times> string \<times> string option) list mac_reply" where
  "macos_reminders_read is_macos run list_name limit =
     (if \<not> is_macos then RejectedPlatform
      else (let e = run [show_int (max 1 (min limit 100)), (case list_name of Some f \<Rightarrow> f | None \<Rightarrow> [])] (bounded_timeout 20)
            in case script_failure 20 e of
                 Some r \<Rightarrow> r
               | None \<Rightarrow> MacOk (reminder_records (case e of ScriptExit rc out err \<Rightarrow> out | _ \<Rightarrow> []))))"

text \<open>The date is passed on only when all of its five parts are given.\<close>

definition reminder_args :: "string \<Rightarrow> string \<Rightarrow> string option \<Rightarrow> int option list \<Rightarrow> string list" where
  "reminder_args title body list_name due =
     [title, body, (case list_name of Some f \<Rightarrow> f | None \<Rightarrow> [])] @
     (case those due of Some ds \<Rightarrow> map show_int ds | None \<Rightarrow> [[], [], [], [], []])"

definition macos_reminders_write ::
  "bool \<Rightarrow> (string list \<Rightarrow> int \<Rightarrow> script_end) \<Rightarrow> string \<Rightarrow> string \<Rightarrow> string option \<Rightarrow> int option \<Rightarrow> int option \<Rightarrow> int option
    \<Rightarrow> int option \<Rightarrow> int option \<Rightarrow> string mac_reply" where
  "macos_reminders_write is_macos run title body list_name y m d h mi =
     (if \<not> is_macos then RejectedPlatform
      else if py_strip title = [] then RejectedTitle
      else case script_failure 45 (run (reminder_args (py_strip title) body list_name [y, m, d, h, mi]) (bounded_timeout 45)) of
             Some r \<Rightarrow> r | None \<Rightarrow> MacOk (py_strip title))"

text \<open>What the script writes for a list of notes is read back, up to surrounding white space.\<close>

definition notes_output :: "(string \<times> string) list \<Rightarrow> string" where
  "notes_output ns = concat (map (\<lambda>(a, b). a @ us_char # b @ [rs_char]) ns)"

lemma split_max_one: "us_char \<notin> set a \<Longrightarrow> split_max 1 us_char (a @ us_char # b) = [a, b]"
proof (induction a)
  case Nil
  have "split_max 0 us_char b = [b]" by (induction b) auto
  then show ?case by simp
qed auto

lemma split_on_end: "c \<notin> set a \<Longrightarrow> split_on c (a @ c # s) = a # split_on c s"
  by (induction a) auto

theorem notes_read_back:
  assumes "\<forall>(a, b) \<in> set ns. us_char \<notin> set a \<and> rs_char \<notin> set a \<and> rs_char \<notin> set b \<and> py_strip a \<noteq> []"
  shows "note_records limit (notes_output ns) = slice_to (map (\<lambda>(a, b). (py_strip a, py_strip b)) ns) limit"
proof -
  have "split_on rs_char (notes_output ns) = map (\<lambda>(a, b). a @ us_char # b) ns @ [[]]"
    using assms
  proof (induction ns)
    case (Cons n ns)
    obtain a b where n: "n = (a, b)" by (cases n)
    have "rs_char \<notin> set (a @ us_char # b)" using Cons.prems n by (auto simp: rs_char_def us_char_def)
    from split_on_end[OF this, of "notes_output ns"] show ?case using Cons n by (simp add: notes_output_def)
  qed (simp add: notes_output_def)
  moreover have "py_strip (a @ us_char # b) \<noteq> []" if "(a, b) \<in> set ns" for a b
  proof -
    have "\<exists>c \<in> set a. \<not> py_isspace c"
    proof (rule ccontr)
      assume "\<not> ?thesis"
      then have "dropWhile py_isspace a = []" by simp
      then have "py_strip a = []" unfolding py_strip_def by (simp only: rev.simps dropWhile.simps)
      with assms that show False by auto
    qed
    then have "dropWhile py_isspace (a @ us_char # b) \<noteq> []" by auto
    then obtain c t where "dropWhile py_isspace (a @ us_char # b) = c # t" "\<not> py_isspace c"
      by (metis hd_dropWhile list.collapse)
    then show ?thesis by (simp add: py_strip_def)
  qed
  then have "filter (\<lambda>b. py_strip b \<noteq> []) (map (\<lambda>(a, b). a @ us_char # b) ns @ [[]]) = map (\<lambda>(a, b). a @ us_char # b) ns"
    by (auto simp: filter_id_conv)
  moreover have "map (\<lambda>b. let ps = split_max 1 us_char b in (field_at ps 0, field_at ps 1)) (map (\<lambda>(a, b). a @ us_char # b) ns)
      = map (\<lambda>(a, b). (py_strip a, py_strip b)) ns"
    using assms split_max_one by (auto simp: field_at_def Let_def)
  ultimately show ?thesis by (simp only: note_records_def)
qed

end
