(* ===== verification/Mem0.thy ===== *)
theory Mem0
  imports Memory_Retrieval
begin

text \<open>
  The memory the server runs with: memory/mem0/write.py and retrieval.py, adapters to the service of
  Mem0.  Its client is a parameter: a state with the operations add, delete and search, which
  answer a JSON value or raise with a text.  The service satisfies the contract of Memory_Write
  (locale intent_service) by which each intent takes effect at most once.
\<close>

section \<open>Writing\<close>

record mem0_intent = update_intent +
  in_reason :: string

record 'm mem0_client =
  mc_add :: "(string \<times> string) list \<Rightarrow> string \<Rightarrow> dict \<Rightarrow> 'm \<Rightarrow> (string + pyval) \<times> 'm"
  mc_delete :: "string \<Rightarrow> 'm \<Rightarrow> (string + unit) \<times> 'm"
  mc_search :: "string \<Rightarrow> string \<Rightarrow> 'm \<Rightarrow> string + pyval"

record 'm mem0 =
  m0_store :: 'm
  m0_seen :: "string list"
  m0_log :: "log_file option"

record 'm mem0_env =
  mv_client :: "'m mem0_client"
  mv_user :: string
  mv_show :: "rat \<Rightarrow> string"
  mv_pieces :: "dict \<Rightarrow> pyval option list"

definition mem0_min :: rat where "mem0_min = 1 / 2"

definition resolve_user :: "string option \<Rightarrow> string \<Rightarrow> string" where
  "resolve_user user dflt =
     (let u = py_strip (case user of Some x \<Rightarrow> if x = [] then dflt else x | None \<Rightarrow> dflt) in if u = [] then dflt else u)"

text \<open>Roles and texts of the messages.\<close>

definition intent_messages :: "mem0_intent \<Rightarrow> (string \<times> string) list" where
  "intent_messages i =
     (case in_candidate i of
        None \<Rightarrow> []
      | Some c \<Rightarrow>
          (let body = py_strip (cd_body c)
           in if body = [] then []
              else [(''user'', if in_reason i = [] then body
                               else body @ [newline, newline] @ ''(Reason: '' @ in_reason i @ '')''),
                    (''assistant'', ''I'' @ [CHR 0x27] @ ''ll remember that.'')]))"

definition mem0_refused :: "mem0_intent \<Rightarrow> string option \<Rightarrow> string \<Rightarrow> write_audit" where
  "mem0_refused i m reason = \<lparr>au_intent = in_id i, au_status = RejectedInvalid, au_memory = m, au_reason = reason\<rparr>"

definition mem0_done :: "mem0_intent \<Rightarrow> write_status \<Rightarrow> string \<Rightarrow> write_audit" where
  "mem0_done i st m = \<lparr>au_intent = in_id i, au_status = st, au_memory = Some m, au_reason = []\<rparr>"

definition mem0_given :: "mem0_intent \<Rightarrow> string option" where
  "mem0_given i = (if in_memory i = Some [] then None else in_memory i)"

definition mem0_metadata :: "mem0_intent \<Rightarrow> candidate \<Rightarrow> dict" where
  "mem0_metadata i c =
     [(''memory_type'', PStr (mem_type_value (in_type i))), (''intent_id'', PStr (in_id i))]
     @ (if cd_tags c = [] then [] else [(''tags'', PList (map PStr (cd_tags c)))])
     @ (if cd_entities c = [] then [] else [(''entities'', PList (map PStr (cd_entities c)))])"

text \<open>
  The identifier in the answer.  An answer that is neither list nor dictionary raises, as do
  results that are no list but not empty either, and an identifier that is not a text.
\<close>

definition answered_id :: "mem0_intent \<Rightarrow> pyval \<Rightarrow> exn + string" where
  "answered_id i v =
     (let given = (case mem0_given i of Some m \<Rightarrow> m | None \<Rightarrow> []); fresh = mem_type_value (in_type i) @ ''-'' @ take 12 (in_id i);
          or_fresh = (\<lambda>m. if m = [] then fresh else m)
      in case (case v of PDict d \<Rightarrow> dget_or d ''results'' (PList []) | _ \<Rightarrow> v) of
           PList (PDict e # _) \<Rightarrow>
             (case dget_or e ''id'' (PStr given) of
                PStr m \<Rightarrow> Inr (or_fresh m)
              | w \<Rightarrow> if truthy w then Inl (ValueError ''memory_id'') else Inr fresh)
         | PList _ \<Rightarrow> Inr (or_fresh given)
         | w \<Rightarrow>
             (case v of
                PDict _ \<Rightarrow> (case w of
                    PStr _ \<Rightarrow> Inr (or_fresh given)
                  | PDict d \<Rightarrow> if d = [] then Inr (or_fresh given) else Inl (KeyError ''0'')
                  | _ \<Rightarrow> if truthy w then Inl (OtherError ''TypeError'') else Inr (or_fresh given))
              | _ \<Rightarrow> Inl (OtherError ''AttributeError'')))"

definition mem0_upsert :: "'m mem0_env \<Rightarrow> string \<Rightarrow> mem0_intent \<Rightarrow> 'm \<Rightarrow> (exn + write_audit) \<times> 'm" where
  "mem0_upsert e user i m =
     (case in_candidate i of
        None \<Rightarrow> (Inr (mem0_refused i None ''upsert requires candidate''), m)
      | Some c \<Rightarrow>
          if cd_confidence c < mem0_min then
            (Inr \<lparr>au_intent = in_id i, au_status = SkippedLowConfidence, au_memory = None,
               au_reason = ''confidence '' @ mv_show e (cd_confidence c) @ '' below threshold '' @ mv_show e mem0_min\<rparr>, m)
          else if intent_messages i = [] then (Inr (mem0_refused i None ''upsert candidate body is empty''), m)
          else (case mc_add (mv_client e) (intent_messages i) user (mem0_metadata i c) m of
                  (Inl x, m') \<Rightarrow> (Inr (mem0_refused i None x), m')
                | (Inr v, m') \<Rightarrow>
                    (case answered_id i v of
                       Inl x \<Rightarrow> (Inl x, m')
                     | Inr mid \<Rightarrow> (Inr (mem0_done i (if mem0_given i \<noteq> None then Updated else Written) mid), m'))))"

definition mem0_delete :: "'m mem0_env \<Rightarrow> mem0_intent \<Rightarrow> 'm \<Rightarrow> (exn + write_audit) \<times> 'm" where
  "mem0_delete e i m =
     (case mem0_given i of
        None \<Rightarrow> (Inr (mem0_refused i None ''delete requires memory_id''), m)
      | Some mid \<Rightarrow>
          (case mc_delete (mv_client e) mid m of
             (Inl x, m') \<Rightarrow> (Inr (mem0_refused i (Some mid) x), m')
           | (Inr u, m') \<Rightarrow> (Inr (mem0_done i Deleted mid), m')))"

definition mem0_touch :: "mem0_intent \<Rightarrow> write_audit" where
  "mem0_touch i =
     (case mem0_given i of None \<Rightarrow> mem0_refused i None ''touch requires memory_id'' | Some mid \<Rightarrow> mem0_done i Touched mid)"

text \<open>logged tells whether the audit line could be written; when not, the error is raised.\<close>

definition mem0_apply ::
  "'m mem0_env \<Rightarrow> bool \<Rightarrow> string option \<Rightarrow> mem0_intent \<Rightarrow> 'm mem0 \<Rightarrow> (exn + write_audit) \<times> 'm mem0" where
  "mem0_apply e logged user i s =
     (if in_id i \<in> set (m0_seen s)
      then (Inr \<lparr>au_intent = in_id i, au_status = IdempotentNoop, au_memory = None, au_reason = ''duplicate intent_id''\<rparr>, s)
      else
        (case (case in_action i of
                 Upsert \<Rightarrow> mem0_upsert e (resolve_user user (mv_user e)) i (m0_store s)
               | DeleteMemory \<Rightarrow> mem0_delete e i (m0_store s)
               | Touch \<Rightarrow> (Inr (mem0_touch i), m0_store s)) of
           (Inl x, m) \<Rightarrow> (Inl x, s\<lparr>m0_store := m\<rparr>)
         | (Inr a, m) \<Rightarrow>
             if au_status a \<in> {RejectedInvalid, IdempotentNoop} then (Inr a, s\<lparr>m0_store := m\<rparr>)
             else if logged
             then (Inr a, \<lparr>m0_store = m, m0_seen = in_id i # m0_seen s, m0_log = Some (file_append_lines [audit_line a] (m0_log s))\<rparr>)
             else (Inl OSError, s\<lparr>m0_store := m, m0_seen := in_id i # m0_seen s\<rparr>)))"

definition mem0_restart :: "'m mem0_env \<Rightarrow> 'm mem0 \<Rightarrow> exn + 'm mem0" where
  "mem0_restart e s = map_sum id (\<lambda>ids. s\<lparr>m0_seen := ids\<rparr>) (load_seen_intent_ids (mv_pieces e) (m0_log s))"

section \<open>Each intent takes effect once\<close>

lemma mem0_parts:
  "(case in_action i of Upsert \<Rightarrow> mem0_upsert e u i m | DeleteMemory \<Rightarrow> mem0_delete e i m | Touch \<Rightarrow> (Inr (mem0_touch i), m)) = (Inr a, m')
    \<Longrightarrow> au_intent a = in_id i \<and> au_status a \<noteq> IdempotentNoop"
  by (auto simp: mem0_upsert_def mem0_delete_def mem0_touch_def mem0_refused_def mem0_done_def
      split: update_action.splits option.splits if_splits prod.splits sum.splits)

lemma mem0_apply_cases:
  assumes "mem0_apply e logged user i s = (r, s')"
  obtains (known) n where "in_id i \<in> set (m0_seen s)" "r = Inr n" "au_status n = IdempotentNoop" "s' = s"
  | (failed) x where "in_id i \<notin> set (m0_seen s)" "r = Inl x" "m0_seen s' = m0_seen s" "m0_log s' = m0_log s"
  | (refused) a where "in_id i \<notin> set (m0_seen s)" "r = Inr a" "au_status a = RejectedInvalid" "m0_seen s' = m0_seen s" "m0_log s' = m0_log s"
  | (applied) a where "in_id i \<notin> set (m0_seen s)" "logged" "r = Inr a" "au_intent a = in_id i" "au_status a \<notin> {RejectedInvalid, IdempotentNoop}"
      "m0_seen s' = in_id i # m0_seen s" "m0_log s' = Some (file_append_lines [audit_line a] (m0_log s))"
  | (unlogged) x where "in_id i \<notin> set (m0_seen s)" "\<not> logged" "r = Inl x" "m0_seen s' = in_id i # m0_seen s" "m0_log s' = m0_log s"
proof -
  obtain q m where q: "(case in_action i of Upsert \<Rightarrow> mem0_upsert e (resolve_user user (mv_user e)) i (m0_store s)
               | DeleteMemory \<Rightarrow> mem0_delete e i (m0_store s) | Touch \<Rightarrow> (Inr (mem0_touch i), m0_store s)) = (q, m)"
    by (metis surj_pair)
  show ?thesis
  proof (cases "in_id i \<in> set (m0_seen s)")
    case True
    then show ?thesis using assms by (intro known) (auto simp: mem0_apply_def)
  next
    case False
    note eq = assms[unfolded mem0_apply_def q if_not_P[OF False] prod.case]
    show ?thesis
    proof (cases q)
      case (Inl x)
      then show ?thesis using eq False by (intro failed) auto
    next
      case (Inr a)
      note parts = mem0_parts[OF q[unfolded Inr]]
      note eq = eq[unfolded Inr sum.case]
      show ?thesis
      proof (cases "au_status a = RejectedInvalid")
        case True
        then show ?thesis using eq False by (intro refused[of a]) auto
      next
        case no: False
        show ?thesis
        proof (cases logged)
          case True
          then show ?thesis using eq False no parts by (intro applied[of a]) auto
        next
          case off: False
          then show ?thesis using eq False no parts by (intro unlogged[of OSError]) auto
        qed
      qed
    qed
  qed
qed

interpretation mem0_service: intent_service
  "\<lambda>(logged, user) i s. mem0_apply e logged user i s" "mem0_restart e" in_id "\<lambda>s. set (m0_seen s)" m0_log
  for e :: "'m mem0_env"
proof (unfold_locales, goal_cases)
  case (1 i s c)
  then show ?case by (cases c) (simp add: mem0_apply_def)
next
  case (2 s c i a s')
  then show ?case by (cases c) (auto elim!: mem0_apply_cases dest: load_appended(2))
next
  case (3 s c i)
  obtain r s' where r: "mem0_apply e (fst c) (snd c) i s = (r, s')" by (metis surj_pair)
  from r have "pred_option log_ok (m0_log s') \<and> set (m0_seen s) \<subseteq> set (m0_seen s') \<and> logged_ids (m0_log s) \<subseteq> logged_ids (m0_log s')"
    using 3 load_appended[of "m0_log s"] by (cases rule: mem0_apply_cases) auto
  then show ?case using r by (simp add: case_prod_unfold)
next
  case (4 s s')
  then show ?case
    by (cases "load_seen_intent_ids (mv_pieces e) (m0_log s)") (auto simp: mem0_restart_def dest: load_logged[THEN subsetD])
qed

text \<open>
  C6: the memory service the server runs with applies an intent at most once.  The audit log ends
  in a newline, and neither the intent's identifier nor the memory id of the answer has the character
  U+0085.  Then after an answer that is no rejection and no repetition, an intent with the same
  identifier is answered as a duplicate and the client is not called, whatever intents are applied
  in between, with or without a failing append to the audit log, and however often the service is
  restarted, as long as the restarts do not raise.
\<close>

theorem mem0_applied_once:
  assumes "pred_option log_ok (m0_log s)" and "mem0_apply e logged user i s = (Inr a, s1)"
    and "au_status a \<notin> {RejectedInvalid, IdempotentNoop}" and "nel_free (PDict (audit_line a))"
    and "service_run (\<lambda>(logged, user) i s. mem0_apply e logged user i s) (mem0_restart e) ops s1 = Inr s2"
    and "in_id j = in_id i"
  shows "\<exists>n. mem0_apply e logged' user' j s2 = (Inr n, s2) \<and> au_status n = IdempotentNoop"
  using mem0_service.applied_once[of s e "(logged, user)" i a s1 ops s2 j "(logged', user')"] assms by simp

definition demo_mem0 :: "nat mem0_env" where
  "demo_mem0 = \<lparr>mv_client = \<lparr>mc_add = (\<lambda>_ _ _ n. (Inr (PList [PDict [(''id'', PStr ''m1'')]]), Suc n)),
      mc_delete = (\<lambda>_ n. (Inr (), n - 1)), mc_search = (\<lambda>_ _ _. Inr (PList []))\<rparr>, mv_user = ''u'', mv_show = (\<lambda>_. ''0.4''),
      mv_pieces = (\<lambda>_. [])\<rparr>"

definition demo_mem0_intent :: mem0_intent where
  "demo_mem0_intent = \<lparr>in_id = ''i1'', in_action = Upsert, in_type = Facts, in_memory = None,
     in_candidate = Some \<lparr>cd_tags = [], cd_entities = [], cd_priority = 5, cd_confidence = 1, cd_body = ''b''\<rparr>, in_reason = []\<rparr>"

lemma demo_mem0_upsert:
  "mem0_upsert demo_mem0 u demo_mem0_intent n = (Inr (mem0_done demo_mem0_intent Written ''m1''), Suc n)"
proof -
  have "intent_messages demo_mem0_intent \<noteq> []"
    by (simp add: intent_messages_def demo_mem0_intent_def py_strip_def py_isspace_def Let_def code_def)
  moreover have "mem0_given demo_mem0_intent = None" by (simp add: mem0_given_def demo_mem0_intent_def)
  moreover have "answered_id demo_mem0_intent (PList [PDict [(''id'', PStr ''m1'')]]) = Inr ''m1''"
    by (simp add: answered_id_def dget_or_def)
  moreover have "in_candidate demo_mem0_intent = Some c \<Longrightarrow> cd_confidence c = 1" for c
    by (auto simp: demo_mem0_intent_def)
  moreover have "in_candidate demo_mem0_intent \<noteq> None" by (simp add: demo_mem0_intent_def)
  moreover have "mc_add (mv_client demo_mem0) ms w d n = (Inr (PList [PDict [(''id'', PStr ''m1'')]]), Suc n)" for ms w d
    by (simp add: demo_mem0_def)
  ultimately show ?thesis by (auto simp: mem0_upsert_def mem0_min_def)
qed

theorem mem0_applied_once_witness:
  "\<exists>s t a n. mem0_apply demo_mem0 True None demo_mem0_intent \<lparr>m0_store = 0, m0_seen = [], m0_log = None\<rparr> = (Inr a, s)
     \<and> m0_store s = 1 \<and> au_status a = Written \<and> mem0_restart demo_mem0 s = Inr t
     \<and> mem0_apply demo_mem0 True None demo_mem0_intent t = (Inr n, t) \<and> au_status n = IdempotentNoop"
proof -
  let ?s = "\<lparr>m0_store = 0::nat, m0_seen = [], m0_log = None\<rparr>"
  let ?a = "mem0_done demo_mem0_intent Written ''m1''"
  let ?log = "Some (file_append_lines [audit_line ?a] None)"
  have act: "in_action demo_mem0_intent = Upsert" and id: "in_id demo_mem0_intent = ''i1''" by (simp_all add: demo_mem0_intent_def)
  have stat: "au_status ?a = Written" by (simp add: mem0_done_def)
  have safe: "nel_free (PDict (audit_line ?a))" by (simp add: audit_line_def mem0_done_def id)
  let ?t = "\<lparr>m0_store = 1::nat, m0_seen = [''i1''], m0_log = ?log\<rparr>"
  have run: "mem0_apply demo_mem0 True None demo_mem0_intent ?s = (Inr ?a, ?t)"
    by (simp add: mem0_apply_def act demo_mem0_upsert stat id)
  have "log_lines (file_append_lines [audit_line ?a] None) = [Obj (audit_line ?a)]" by (simp add: file_append_lines_def)
  then have "load_seen_intent_ids (mv_pieces demo_mem0) ?log = Inr [''i1'']"
    using safe by (simp add: load_seen_intent_ids_def line_values_def audit_line_def mem0_done_def id dget_def)
  then have again: "mem0_restart demo_mem0 ?t = Inr ?t" by (simp add: mem0_restart_def)
  have "service_run (\<lambda>(logged, user) i s. mem0_apply demo_mem0 logged user i s) (mem0_restart demo_mem0) [None] ?t = Inr ?t"
    by (simp add: again[simplified])
  from mem0_applied_once[OF _ run _ safe this, of demo_mem0_intent True None] stat
  obtain n where "mem0_apply demo_mem0 True None demo_mem0_intent ?t = (Inr n, ?t)" "au_status n = IdempotentNoop" by auto
  then show ?thesis using run again stat by (intro exI[of _ ?t] exI[of _ ?a] exI[of _ n]) simp
qed

section \<open>Retrieval\<close>

record mem0_reads =
  mz_float :: "string \<Rightarrow> rat option"
  mz_iso :: "string \<Rightarrow> time option"
  mz_now :: "nat \<Rightarrow> time"
  mz_int :: "nat \<Rightarrow> string"

text \<open>The memory ids of an artifact read from the answer must be valid, or reading raises.\<close>

definition read_score :: "mem0_reads \<Rightarrow> nat \<Rightarrow> dict \<Rightarrow> exn + rat" where
  "read_score z n m =
     (case dget_or m ''score'' (PReal (1 - of_nat n / 10)) of
        PReal q \<Rightarrow> Inr q
      | PInt k \<Rightarrow> Inr (of_int k)
      | PBool b \<Rightarrow> Inr (if b then 1 else 0)
      | PStr t \<Rightarrow> (case mz_float z t of Some q \<Rightarrow> Inr q | None \<Rightarrow> Inl (ValueError ''float''))
      | _ \<Rightarrow> Inl (OtherError ''TypeError''))"

definition read_type :: "dict \<Rightarrow> mem_type" where
  "read_type meta =
     (case dget_or meta ''memory_type'' (PStr ''facts'') of
        PStr t \<Rightarrow> (case find (\<lambda>c. mem_type_value c = t) memory_categories of Some c \<Rightarrow> c | None \<Rightarrow> Facts)
      | _ \<Rightarrow> Facts)"

definition read_date :: "mem0_reads \<Rightarrow> nat \<Rightarrow> pyval \<Rightarrow> time" where
  "read_date z n v =
     (case v of PStr t \<Rightarrow> (case mz_iso z t of Some d \<Rightarrow> d | None \<Rightarrow> mz_now z n) | PTime t \<Rightarrow> t | _ \<Rightarrow> mz_now z n)"

fun texts_in :: "pyval list \<Rightarrow> exn + string list" where
  "texts_in [] = Inr []"
| "texts_in (PStr t # vs) = (case texts_in vs of Inl x \<Rightarrow> Inl x | Inr ts \<Rightarrow> Inr (t # ts))"
| "texts_in (v # vs) = Inl (ValueError ''list of str'')"

definition read_texts :: "dict \<Rightarrow> string \<Rightarrow> exn + string list" where
  "read_texts meta k =
     (case dget_or meta k (PList []) of
        PStr t \<Rightarrow> Inr (if t = [] then [] else [t])
      | PTime t \<Rightarrow> Inl (ValueError k)
      | PList vs \<Rightarrow> texts_in vs
      | _ \<Rightarrow> Inl (ValueError k))"

definition read_memory :: "mem0_reads \<Rightarrow> nat \<Rightarrow> pyval \<Rightarrow> exn + (artifact \<times> rat) option" where
  "read_memory z n v =
     (case v of
        PDict m \<Rightarrow>
          (let body = dget_or m ''memory'' (dget_or m ''content'' (PStr []))
           in if \<not> truthy body then Inr None
              else (case read_score z n m of
                 Inl x \<Rightarrow> Inl x
               | Inr score \<Rightarrow>
                   (let got = dget m ''metadata'';
                        made = dget m ''created_at'';
                        changed = (if truthy (dget m ''updated_at'') then dget m ''updated_at'' else made)
                    in case (if truthy got then got else PDict []) of
                         PDict meta \<Rightarrow>
                           (case (dget_or m ''id'' (PStr (''mem-'' @ mz_int z n)), body, read_texts meta ''tags'', read_texts meta ''entities'') of
                              (PStr mid, PStr t, Inr tags, Inr ents) \<Rightarrow>
                                (let f = \<lparr>fm_id = mid, fm_type = read_type meta, fm_tags = tags, fm_entities = ents, fm_priority = 5,
                                          fm_confidence = 1, fm_updated = read_date z (2 * n + 1) changed, fm_used = None,
                                          fm_created = Some (read_date z (2 * n) made)\<rparr>
                                 in if frontmatter_valid f then Inr (Some (\<lparr>ar_fm = f, ar_body = t\<rparr>, score))
                                    else Inl (ValueError ''memory_id''))
                            | _ \<Rightarrow> Inl (ValueError ''frontmatter''))
                       | _ \<Rightarrow> Inl (OtherError ''AttributeError''))))
      | _ \<Rightarrow> Inr None)"

fun read_memories :: "mem0_reads \<Rightarrow> nat \<Rightarrow> pyval list \<Rightarrow> exn + (artifact \<times> rat) list" where
  "read_memories z n [] = Inr []"
| "read_memories z n (v # vs) =
     (case read_memory z n v of
        Inl x \<Rightarrow> Inl x
      | Inr r \<Rightarrow> (case read_memories z (Suc n) vs of
                    Inl x \<Rightarrow> Inl x
                  | Inr rs \<Rightarrow> Inr (case r of Some sa \<Rightarrow> sa # rs | None \<Rightarrow> rs)))"

definition answered_memories :: "pyval \<Rightarrow> exn + pyval list" where
  "answered_memories v =
     (case v of
        PList vs \<Rightarrow> Inr vs
      | PDict d \<Rightarrow> Inr (case dget_or d ''memories'' (dget_or d ''results'' (PList [])) of PList vs \<Rightarrow> vs | _ \<Rightarrow> [])
      | _ \<Rightarrow> Inl (OtherError ''AttributeError''))"

definition mem0_retrieve ::
  "'m mem0_env \<Rightarrow> mem0_reads \<Rightarrow> string option \<Rightarrow> retrieval_query \<Rightarrow> 'm mem0 \<Rightarrow> exn + rat retrieval_result" where
  "mem0_retrieve e z user q s =
     (let sought = (case rq_text q of Some t \<Rightarrow> if t = [] then ''relevant memories'' else t | None \<Rightarrow> ''relevant memories'')
      in case mc_search (mv_client e) sought (resolve_user user (mv_user e)) (m0_store s) of
           Inl x \<Rightarrow> Inr \<lparr>rr_selected = [], rr_mode = ''mem0_search_error'', rr_count = 0, rr_recovery = Some (''failure'', [x])\<rparr>
         | Inr v \<Rightarrow>
             (case answered_memories v of
                Inl x \<Rightarrow> Inl x
              | Inr vs \<Rightarrow>
                  (case read_memories z 0 (take 10 vs) of
                     Inl x \<Rightarrow> Inl x
                   | Inr scored \<Rightarrow> Inr \<lparr>rr_selected = cap_loop q [] scored, rr_mode = ''mem0_search'', rr_count = length vs, rr_recovery = None\<rparr>)))"

lemma read_memory_valid:
  assumes "read_memory z n v = Inr (Some (a, score))"
  shows "frontmatter_valid (ar_fm a)" and "ar_body a \<noteq> []"
  using assms
  by (auto simp: read_memory_def Let_def split: pyval.splits sum.splits if_splits)

lemma read_memories_from:
  "read_memories z n vs = Inr rs \<Longrightarrow> (a, score) \<in> set rs \<Longrightarrow> \<exists>k v. read_memory z k v = Inr (Some (a, score)) \<and> v \<in> set vs"
proof (induction z n vs arbitrary: rs rule: read_memories.induct)
  case (2 z n v vs)
  then obtain r rs' where r: "read_memory z n v = Inr r" "read_memories z (Suc n) vs = Inr rs'"
    and rs: "rs = (case r of Some sa \<Rightarrow> sa # rs' | None \<Rightarrow> rs')"
    by (auto split: sum.splits)
  show ?case
  proof (cases "r = Some (a, score)")
    case True
    then show ?thesis using r(1) by auto
  next
    case False
    then have "(a, score) \<in> set rs'" using rs 2(3) by (auto split: option.splits)
    then show ?thesis using 2(1)[OF r(1) r(2)] by auto
  qed
qed simp

lemma read_memories_length: "read_memories z n vs = Inr rs \<Longrightarrow> length rs \<le> length vs"
  by (induction z n vs arbitrary: rs rule: read_memories.induct)
     (fastforce split: sum.splits option.splits)+

lemma cap_loop_set: "set (cap_loop q counts sas) \<subseteq> set sas"
proof (induction sas arbitrary: counts)
  case (Cons sa sas)
  have "set (cap_loop q k sas) \<subseteq> set (sa # sas)" for k using Cons.IH[of k] by auto
  then show ?case by (simp add: Let_def)
qed simp

lemma mem0_retrieve_selected:
  assumes "mem0_retrieve e z user q s = Inr r"
  shows "length (rr_selected r) \<le> 10"
    and "(a, score) \<in> set (rr_selected r) \<Longrightarrow> frontmatter_valid (ar_fm a) \<and> ar_body a \<noteq> []"
    and "length (filter (\<lambda>sa. sa_type sa = t) (rr_selected r)) \<le> nat (cap_of q t)"
proof -
  have "rr_selected r = [] \<or> (\<exists>vs scored. read_memories z 0 (take 10 vs) = Inr scored \<and> rr_selected r = cap_loop q [] scored)"
    using assms unfolding mem0_retrieve_def Let_def by (force split: sum.splits)
  then have "length (rr_selected r) \<le> 10
      \<and> ((a, score) \<in> set (rr_selected r) \<longrightarrow> frontmatter_valid (ar_fm a) \<and> ar_body a \<noteq> [])
      \<and> length (filter (\<lambda>sa. sa_type sa = t) (rr_selected r)) \<le> nat (cap_of q t)"
  proof (elim disjE exE conjE)
    fix vs scored assume m: "read_memories z 0 (take 10 vs) = Inr scored" "rr_selected r = cap_loop q [] scored"
    have sub: "subseq (rr_selected r) scored" unfolding m(2) by (rule cap_loop_subseq)
    have len: "length (rr_selected r) \<le> 10"
      using list_emb_length[OF sub] read_memories_length[OF m(1)] by simp
    have valid: "frontmatter_valid (ar_fm a) \<and> ar_body a \<noteq> []" if "(a, score) \<in> set (rr_selected r)"
    proof -
      have "(a, score) \<in> set scored" using that cap_loop_set[of q "[]" scored] m(2) by auto
      then obtain k v where "read_memory z k v = Inr (Some (a, score))" using read_memories_from[OF m(1)] by blast
      then show ?thesis by (auto dest: read_memory_valid)
    qed
    show ?thesis using len valid cap_loop_take[of t q "[]" scored] m(2) by simp
  qed simp
  then show "length (rr_selected r) \<le> 10"
    and "(a, score) \<in> set (rr_selected r) \<Longrightarrow> frontmatter_valid (ar_fm a) \<and> ar_body a \<noteq> []"
    and "length (filter (\<lambda>sa. sa_type sa = t) (rr_selected r)) \<le> nat (cap_of q t)" by blast+
qed

text \<open>
  When the audit line can not be written the memory is stored and the call raises; after a restart
  the same intent is applied again.
\<close>

lemma unlogged_applied_again:
  assumes "\<not> logged" and "m0_log s = None" and "in_id i \<notin> set (m0_seen s)"
    and "mem0_upsert e (resolve_user u (mv_user e)) i (m0_store s) = (Inr a, m)" and "in_action i = Upsert" and "au_status a \<noteq> RejectedInvalid"
  shows "\<exists>s'. mem0_apply e logged u i s = (Inl OSError, s') \<and> m0_store s' = m \<and> mem0_restart e s' = Inr (s'\<lparr>m0_seen := []\<rparr>)"
  using assms mem0_parts[of e "resolve_user u (mv_user e)" i "m0_store s" a m]
  by (simp add: mem0_apply_def mem0_restart_def load_seen_intent_ids_def)

text \<open>The owner of the memory to delete is never compared with the user who asks.\<close>

lemma delete_ignores_owner: "in_action i = DeleteMemory \<Longrightarrow> mem0_apply e logged u i s = mem0_apply e logged v i s"
  by (simp add: mem0_apply_def)

text \<open>An upsert that names a memory adds one: its identifier does not reach the client.\<close>

lemma update_adds:
  assumes "in_action i = Upsert" and "in_memory i = Some (c # cs)"
  shows "m0_store (snd (mem0_apply e logged u i s)) = m0_store (snd (mem0_apply e logged u (i\<lparr>in_memory := None\<rparr>) s))"
proof -
  have msgs: "intent_messages (i\<lparr>in_memory := None\<rparr>) = intent_messages i"
    and meta: "mem0_metadata (i\<lparr>in_memory := None\<rparr>) c = mem0_metadata i c" for c
    by (cases "in_candidate i"; simp add: intent_messages_def mem0_metadata_def Let_def)+
  have store: "snd (mem0_upsert e w (i\<lparr>in_memory := None\<rparr>) m) = snd (mem0_upsert e w i m)" for w m
  proof (cases "in_candidate i")
    case (Some cd)
    show ?thesis by (simp add: mem0_upsert_def msgs meta Some split: sum.split prod.split)
  qed (simp add: mem0_upsert_def)
  have "m0_store (snd (mem0_apply e logged u j s)) =
      (if in_id j \<in> set (m0_seen s) then m0_store s else snd (mem0_upsert e (resolve_user u (mv_user e)) j (m0_store s)))"
    if "in_action j = Upsert" for j
    using that by (simp add: mem0_apply_def split: prod.split sum.split)
  then show ?thesis using assms(1) store by simp
qed

end
