(* ===== verification/Spec2Isabelle.thy ===== *)
theory Spec2Isabelle
  imports Lock_Coordinator Recovery Session_Lifecycle Turn_Persistence Orchestrator Confirmation Delegation
    Memory_Retrieval Vocabulary Shell_Tools Vault_Tools Telegram_Delivery Telegram_Adapter Usage_Stats Handler Mcp_Toolsets Agent_Turn Delegation_Backends Admin_Config Store_Runtime Exercises Agent_Tools Mem0
begin

text \<open>
  Verification of an assistant server, the package assistant under src/src/assistant.  The server
  takes messages from Telegram, runs an agent on them and keeps everything in files: sessions,
  tasks, locks, memories, vocabulary and configuration.  File names below are relative to the
  package.  Nearly every module with logic of its own is modelled; the list of what is not is at
  the end.
\<close>

section \<open>The program and its theories\<close>

text \<open>
  Foundations.  Prelude holds Python values (pyval), dictionaries as association lists, the
  exceptions (exn), stable sorting and the lemmas on lists and association lists that all
  theories share; Py_Text the string operations the code calls.

  The store (store/).  File_Store is atomic.py and task_log.py: the atomic write with a fault at
  every point (atomic_write, atomic_write_crash), directories of one document per file (locale
  record_file) and logs of one document per line.  Over it are Idempotency (the ledger and the
  ingress service, locale dedup_ledger), Lock_Coordinator (lease locks, locale lease_lock),
  Session_Log (the append-only log of a session, locale event_log), Task_Store, Replay (the part
  of a history that goes into the context of the model), Recovery (the scan at start-up that
  repairs interrupted turns) and Store_Runtime (clean-up, statistics and the self-test).

  Sessions (core/session, core/session_context).  Session_Context has the tables that outlive a
  restart (locale restartable), Session_Lifecycle the metadata of a session, its factory and the
  context that holds its lock.

  A turn (core/orchestrator, agent/).  Orchestrator composes execute_turn: the ledger, the
  session, Compaction, Replay, Turn_Input (what the agent gets), the run of the agent, and
  Turn_Persistence (how its outcome is stored, error paths included).  Turn_Records has the
  conversions between messages, records and history; Agent_Turn the run of the agent with the
  texts it streams; Memory_Intents and Confirmation the memory proposals and the user's
  decisions on them; Capabilities, Shell_Tools, Vault_Tools and Agent_Tools the tools of the
  agent and which of them a configuration exposes.

  Delegated tasks (subagents/).  Delegation_Policy admits a task, Delegation is the coordinator as
  a state machine (coord_step), Delegation_Backends what its backends make of their output.

  Memory (memory/).  Memory_Store is the file format and the confinement of paths, Memory_Index
  the five indexes, Memory_Write the controlled writes, Memory_Retrieval the search.  Mem0 has
  the adapters to the service of that name; api/lifespan.py runs the server with these.  Both
  services are instances of the locale intent_service of Memory_Write.

  MCP (extensions/mcp).  Mcp_Connection is the shared connection to a server as interleaved steps
  of tasks between their suspensions (mcp_step, mcp_run), Mcp_Toolsets the tools and the registry
  of the connections.

  Language learning (extensions/language_learning).  Vocabulary is the store with spaced
  repetition, Exercises the tools that start exercises and take results.

  Configuration (core/config, api/routers, admin/).  Configuration loads and shows it,
  Admin_Config changes it at run time.

  Telegram (channels/telegram, api/orchestrator_handler.py).  Telegram_Ingress lets updates in,
  Telegram_Callbacks signs and verifies buttons, Telegram_Adapter keeps the state of the chats
  (locale single_use for its tables of tokens), Telegram_Delivery sends, polls and dispatches,
  Usage_Stats counts tokens, Handler routes an event through all of this to its answer.
\<close>

section \<open>What is shown\<close>

text \<open>
  Each theory begins with the data and operations of its files, in the order of the code, and
  then has the lemmas on them; a locale states what one component promises its clients, its
  lemmas are proved from that promise, and the interpretation proves it of the model.  The
  properties C1 to C40 stand at the end of the theories of their components.

  A turn: an event runs at most once (C1), every ending of a turn closes it in the log (C2),
  streamed texts are sent once (C23), a history answers its calls (C36).  The store: appending
  refines the abstract log (C38), every reachable log is consistent (C34), recovery repairs all
  (C35), atomic writes (C40), at-most-once registration (C33), exclusive leases (C37).
  Delegation: no ghosts (C3), admission bounds (C4), completion of a streamed run (C24).
  Memory: intents take effect once (C5, C6), retrieval is exact (C7), paths are confined (C8),
  file format (C9), nothing without confirmation (C39).  Vocabulary and exercises: typing (C10),
  counting of results (C11, C13), selection of words (C12).  Tools: exposure (C14), termination
  of the expansion of capabilities (C15), shell commands (C16), edits of notes (C17).
  Configuration: redaction (C18), confined changes (C19).  MCP: calls are sent once (C20), sessions
  of a connection (C21), cached agents follow the configuration (C22).  Telegram: prompts and
  taps (C25), usage after a reset (C26), sessions never created (C27), signed callbacks (C28),
  throttle (C29), allowlist (C30), delivery (C31), polling (C32).

  Hypotheses state what the code relies on and are named in the text before each property.  They
  are of three kinds: documented behaviour of a library or service (for instance that pydantic
  accepts only valid headers, or that the transaction engine of the vault checks the hashes it
  was given), well-formedness that the operations keep (each with its preservation lemmas),
  and the case the property speaks of.  A witness applies each of them to concrete data.
\<close>

section \<open>How the code is translated\<close>

text \<open>
  Strings are lists of characters up to U+00FF; texts of the code beyond that range are
  parameters.  Integers are unbounded as in Python.  Times are microseconds as integers, and an
  operation gets its clock readings as arguments, or as a function of the number of readings.
  Floats are rational numbers, so sums neither round nor depend on their order, and infinities do
  not occur.  Exceptions are the left side of a sum.  A JSON document read from disk either does
  not decode or is an object; a field of a wrong type reads as missing where the code would fail
  on it, unless the theory says otherwise.  Files are read with universal newlines where the code
  opens them in text mode.

  Code between two awaits that can suspend is one step, and so is an operation under an asyncio
  lock.  State machines (Delegation, Mcp_Connection, Mcp_Toolsets, Memory_Write,
  Telegram_Delivery, Session_Log, Task_Store, Vocabulary) are inductive step relations or lists of events with
  invariants over every run; several records have history fields that no operation reads.
  A write may fail: at every point of the atomic write, and by a list of faults for the
  appends of a turn.

  Code outside the repository is a parameter: digests, uuids, json, yaml, pydantic, regular
  expressions, subprocesses, HMAC, prices, the agent library, the Bot API, the clients of Mem0
  and Tavily.  Pages of the administration are given by their data.

  Loops end by their structure or by a measure proved for them.  Fuel is used twice: the
  expansion of nested capabilities gets one more step than the identifiers mentioned, which
  suffices because no identifier is expanded twice (C15, cycles included); the search for
  addresses in nested lists and JSON texts, in the tool that reads web pages, gets the size of
  the texts plus one (lemma find_candidates_enough).
\<close>

section \<open>What is not modelled\<close>

text \<open>
  Start-up and wiring (core/bootstrap.py, api/lifespan.py, api/main.py), logging, tracing and
  audit trails (observability/, channels/telegram/reliability/audit.py), abstract interfaces, the
  registry of extensions (extensions/registry, which no running code uses), rendering of markdown,
  downloads and transcription, the process transport of the delegation backends, the loading of
  prompt files, and HTML.  Symbolic links are left out of path resolution.  The coordinator's
  stop, which waits for its workers, and the forwarding of streamed texts of delegated tasks are
  left out.  Cancellation is modelled where the code handles it (turns, delegated tasks, requests of a
  connection), not between arbitrary awaits.
\<close>

end
